(* ===== verification/Py_Prelude.thy ===== *)
theory Py_Prelude
  imports Main "HOL-Library.AList" "HOL-Library.Char_ord" "HOL-Library.List_Lexorder"
begin

text \<open>
  The vocabulary shared by every theory of the development: Python exceptions as values of a
  sum type, the combinators the translated code is written with, character classes, and the
  generic lemmas on lists and association lists. A Python \<open>str\<close> is a \<open>string\<close> holding its
  UTF-8 bytes, so that \<open>len(s.encode("utf-8"))\<close> is \<open>length\<close>; \<open>str_len\<close> counts code points.
  Strings with lone surrogates (which no UTF-8 text decodes to) are outside the model.
\<close>

section \<open>Exceptions as values\<close>

text \<open>
  \<open>Validation_Error w m\<close> is \<open>raise ValidationError(f"{w}: {m}")\<close>, with the field path and the
  fixed part of the message; values interpolated into a message are left out. The other
  constructors are the exceptions that pass through the modelled code unconverted.
\<close>

datatype py_error =
    Validation_Error string string
  | Transaction_Not_Abortable
  | Type_Error string
  | Key_Error string
  | Decimal_Overflow
  | Overflow_Error
  | Recursion_Error
  | Value_Error string
  | Attribute_Error string
  | Cut_Error string
  | OS_Error string
  | Fault_Raised string
  | Assertion_Error

type_synonym 'a result = "py_error + 'a"

abbreviation fail :: "string \<Rightarrow> string \<Rightarrow> 'a result" where
  "fail w m \<equiv> Inl (Validation_Error w m)"

named_theorems check_simps \<open>what a passed check says\<close>
named_theorems result_simps \<open>unfolding rules for computations that may raise\<close>

definition bindE :: "'e + 'a \<Rightarrow> ('a \<Rightarrow> 'e + 'b) \<Rightarrow> 'e + 'b" where
  "bindE m f = (case m of Inl e \<Rightarrow> Inl e | Inr x \<Rightarrow> f x)"

lemma bindE_Inl [simp]: "bindE (Inl e) f = Inl e"
  by (simp add: bindE_def)

lemma bindE_Inr [simp]: "bindE (Inr x) f = f x"
  by (simp add: bindE_def)

lemma bindE_eq_Inr [result_simps]: "bindE m f = Inr y \<longleftrightarrow> (\<exists>x. m = Inr x \<and> f x = Inr y)"
  by (cases m) auto

lemma bindE_eq_Inl [result_simps]:
  "bindE m f = Inl e \<longleftrightarrow> m = Inl e \<or> (\<exists>x. m = Inr x \<and> f x = Inl e)"
  by (cases m) auto

lemma bindE_InrE:
  assumes "bindE m f = Inr y"
  obtains x where "m = Inr x" and "f x = Inr y"
  using assms by (auto simp: bindE_eq_Inr)

lemma bindE_cong [fundef_cong]:
  "m = m' \<Longrightarrow> (\<And>x. m' = Inr x \<Longrightarrow> f x = f' x) \<Longrightarrow> bindE m f = bindE m' f'"
  by (cases m') auto

lemma bindE_assoc: "bindE (bindE m f) g = bindE m (\<lambda>x. bindE (f x) g)"
  by (cases m) auto

text \<open>\<open>requireE ok e\<close> is \<open>if not ok: raise e\<close>.\<close>

definition requireE :: "bool \<Rightarrow> 'e \<Rightarrow> 'e + unit" where
  "requireE ok e = (if ok then Inr () else Inl e)"

lemma requireE_eq_Inr [simp]: "requireE ok e = Inr u \<longleftrightarrow> ok"
  by (simp add: requireE_def)

lemma requireE_eq_Inl [simp]: "requireE ok e = Inl e' \<longleftrightarrow> \<not> ok \<and> e' = e"
  by (auto simp: requireE_def)

lemma requireE_True [simp]: "requireE True e = Inr ()"
  by (simp add: requireE_def)

lemma requireE_False [simp]: "requireE False e = Inl e"
  by (simp add: requireE_def)

text \<open>A \<open>for\<close> loop that updates a state and may raise, and one that only checks.\<close>

fun foldE :: "('a \<Rightarrow> 's \<Rightarrow> 'e + 's) \<Rightarrow> 'a list \<Rightarrow> 's \<Rightarrow> 'e + 's" where
  "foldE f [] s = Inr s"
| "foldE f (x # xs) s = bindE (f x s) (foldE f xs)"

fun mapE :: "('a \<Rightarrow> 'e + 'b) \<Rightarrow> 'a list \<Rightarrow> 'e + 'b list" where
  "mapE f [] = Inr []"
| "mapE f (x # xs) = bindE (f x) (\<lambda>y. bindE (mapE f xs) (\<lambda>ys. Inr (y # ys)))"

definition forE :: "('a \<Rightarrow> 'e + unit) \<Rightarrow> 'a list \<Rightarrow> 'e + unit" where
  "forE f xs = foldE (\<lambda>x _. f x) xs ()"

lemma forE_simps [simp]:
  "forE f [] = Inr ()"
  "forE f (x # xs) = bindE (f x) (\<lambda>_. forE f xs)"
  by (simp_all add: forE_def)

lemma foldE_append: "foldE f (xs @ ys) s = bindE (foldE f xs s) (foldE f ys)"
proof (induction xs arbitrary: s)
  case (Cons x xs)
  then show ?case by (cases "f x s") simp_all
qed simp

lemma foldE_cong [fundef_cong]:
  "xs = ys \<Longrightarrow> s = t \<Longrightarrow> (\<And>x s. x \<in> set ys \<Longrightarrow> f x s = g x s) \<Longrightarrow> foldE f xs s = foldE g ys t"
proof (induction xs arbitrary: ys s t)
  case (Cons x xs)
  then show ?case by (cases "g x t") (auto simp: bindE_def split: sum.splits)
qed simp

lemma forE_cong [fundef_cong]:
  "xs = ys \<Longrightarrow> (\<And>x. x \<in> set ys \<Longrightarrow> f x = g x) \<Longrightarrow> forE f xs = forE g ys"
  unfolding forE_def by (rule foldE_cong) auto

lemma mapE_cong [fundef_cong]:
  "xs = ys \<Longrightarrow> (\<And>x. x \<in> set ys \<Longrightarrow> f x = g x) \<Longrightarrow> mapE f xs = mapE g ys"
  by (induction xs arbitrary: ys) auto

lemma forE_eq_Inr: "forE f xs = Inr u \<longleftrightarrow> (\<forall>x \<in> set xs. f x = Inr ())"
  by (induction xs) (auto simp: bindE_def split: sum.splits)

lemma mapE_eq_Inr: "mapE f xs = Inr ys \<longleftrightarrow> list_all2 (\<lambda>x y. f x = Inr y) xs ys"
proof (induction xs arbitrary: ys)
  case (Cons x xs)
  then show ?case by (cases ys) (auto simp: bindE_eq_Inr)
qed auto

text \<open>An invariant of every step is an invariant of the loop.\<close>

lemma foldE_invariant:
  assumes "foldE f xs s = Inr t" and "P s"
    and "\<And>x s t. x \<in> set xs \<Longrightarrow> P s \<Longrightarrow> f x s = Inr t \<Longrightarrow> P t"
  shows "P t"
  using assms
proof (induction xs arbitrary: s)
  case (Cons x xs)
  from Cons.prems(1) obtain u where u: "f x s = Inr u" and t: "foldE f xs u = Inr t"
    by (auto simp: bindE_eq_Inr)
  show ?case
  proof (rule Cons.IH [OF t])
    show "P u" using Cons.prems(2,3) u by (meson list.set_intros(1))
    show "\<And>x s t. x \<in> set xs \<Longrightarrow> P s \<Longrightarrow> f x s = Inr t \<Longrightarrow> P t"
      using Cons.prems(3) by (meson list.set_intros(2))
  qed
qed simp

section \<open>Characters and strings\<close>

abbreviation dquote :: char where "dquote \<equiv> CHR 0x22"
abbreviation backslash :: char where "backslash \<equiv> CHR 0x5C"
abbreviation newline :: char where "newline \<equiv> CHR 0x0A"

definition char_code :: "char \<Rightarrow> nat" where
  "char_code c = of_char c"

lemma char_code_less [simp]: "char_code c < 256"
  by (simp add: char_code_def)

lemma char_code_inject [simp]: "char_code c = char_code d \<longleftrightarrow> c = d"
  by (simp add: char_code_def)

lemma char_of_char_code [simp]: "char_of (char_code c) = c"
  by (simp add: char_code_def)

lemma char_code_char_of: "n < 256 \<Longrightarrow> char_code (char_of n) = n"
  by (simp add: char_code_def)

definition is_digit :: "char \<Rightarrow> bool" where
  "is_digit c \<longleftrightarrow> 48 \<le> char_code c \<and> char_code c \<le> 57"

definition hex_char :: "char \<Rightarrow> bool" where
  "hex_char c \<longleftrightarrow> is_digit c \<or> (97 \<le> char_code c \<and> char_code c \<le> 102)"

text \<open>The number of code points of a UTF-8 string: its bytes that do not continue one.\<close>

definition continuation_byte :: "char \<Rightarrow> bool" where
  "continuation_byte c \<longleftrightarrow> 128 \<le> char_code c \<and> char_code c < 192"

definition str_len :: "string \<Rightarrow> nat" where
  "str_len s = length (filter (\<lambda>c. \<not> continuation_byte c) s)"

lemma str_len_le: "str_len s \<le> length s"
  by (simp add: str_len_def)

definition is_prefix :: "'a list \<Rightarrow> 'a list \<Rightarrow> bool" where
  "is_prefix p s \<longleftrightarrow> take (length p) s = p"

lemma is_prefix_append [simp]: "is_prefix p (p @ s)"
  by (simp add: is_prefix_def)

fun join_with :: "'a list \<Rightarrow> 'a list list \<Rightarrow> 'a list" where
  "join_with sep [] = []"
| "join_with sep [x] = x"
| "join_with sep (x # y # ys) = x @ sep @ join_with sep (y # ys)"

lemma join_with_Cons: "ys \<noteq> [] \<Longrightarrow> join_with sep (x # ys) = x @ sep @ join_with sep ys"
  by (cases ys) auto

section \<open>Numerals\<close>

definition digit_char :: "nat \<Rightarrow> char" where
  "digit_char n = char_of (48 + n mod 10)"

definition digit_of :: "char \<Rightarrow> nat" where
  "digit_of c = char_code c - 48"

lemma char_code_digit_char [simp]: "char_code (digit_char n) = 48 + n mod 10"
proof -
  have "n mod 10 < 10" by simp
  then have "48 + n mod 10 < 256" by linarith
  then show ?thesis by (simp add: digit_char_def char_code_char_of del: mod_less)
qed

lemma is_digit_digit_char [simp]: "is_digit (digit_char n)"
proof -
  have "n mod 10 < 10" by simp
  then show ?thesis by (simp add: is_digit_def)
qed

lemma digit_of_digit_char [simp]: "digit_of (digit_char n) = n mod 10"
  by (simp add: digit_of_def)

fun nat_str :: "nat \<Rightarrow> string" where
  "nat_str n = (if n < 10 then [digit_char n] else nat_str (n div 10) @ [digit_char n])"

declare nat_str.simps [simp del]

definition nat_of_digits :: "string \<Rightarrow> nat" where
  "nat_of_digits ds = fold (\<lambda>c n. 10 * n + digit_of c) ds 0"

definition int_str :: "int \<Rightarrow> string" where
  "int_str i = (if i < 0 then CHR ''-'' # nat_str (nat (- i)) else nat_str (nat i))"

lemma nat_str_not_Nil [simp]: "nat_str n \<noteq> []"
  by (subst nat_str.simps) simp

lemma nat_str_digits: "\<forall>c \<in> set (nat_str n). is_digit c"
proof (induction n rule: nat_str.induct)
  case (1 n)
  then show ?case by (subst nat_str.simps) auto
qed

lemma nat_of_digits_snoc: "nat_of_digits (ds @ [c]) = 10 * nat_of_digits ds + digit_of c"
  by (simp add: nat_of_digits_def)

lemma nat_of_digits_nat_str [simp]: "nat_of_digits (nat_str n) = n"
proof (induction n rule: nat_str.induct)
  case (1 n)
  show ?case
  proof (cases "n < 10")
    case True
    then show ?thesis by (subst nat_str.simps) (simp add: nat_of_digits_def)
  next
    case False
    with 1 show ?thesis by (subst nat_str.simps) (simp add: nat_of_digits_snoc)
  qed
qed

lemma nat_str_inject [simp]: "nat_str m = nat_str n \<longleftrightarrow> m = n"
  by (metis nat_of_digits_nat_str)

lemma nat_str_hd: "0 < n \<Longrightarrow> hd (nat_str n) \<noteq> CHR ''0''"
proof (induction n rule: nat_str.induct)
  case (1 n)
  show ?case
  proof (cases "n < 10")
    case True
    have "char_code (digit_char n) \<noteq> char_code (CHR ''0'')"
      using True 1 by (simp add: char_code_def [of "CHR ''0''"])
    then have "digit_char n \<noteq> CHR ''0''" by metis
    then show ?thesis using True by (subst nat_str.simps) simp
  next
    case False
    with 1 have "hd (nat_str (n div 10)) \<noteq> CHR ''0''" by simp
    then show ?thesis using False by (subst nat_str.simps) simp
  qed
qed

lemma nat_str_0: "nat_str 0 = ''0''"
proof -
  have "char_code (digit_char 0) = char_code (CHR ''0'')"
    by (simp add: char_code_def [of "CHR ''0''"])
  then have "digit_char 0 = CHR ''0''" by (simp only: char_code_inject)
  then show ?thesis by (subst nat_str.simps) simp
qed

section \<open>Association lists with distinct keys, as Python dictionaries\<close>

text \<open>
  A dictionary keeps insertion order: storing under a known key replaces the value in
  place, a new key goes to the end. This is \<open>AList.update\<close>.
\<close>

abbreviation keys :: "('k \<times> 'v) list \<Rightarrow> 'k list" where
  "keys kvs \<equiv> map fst kvs"

lemma map_of_eq_None_keys: "map_of kvs k = None \<longleftrightarrow> k \<notin> set (keys kvs)"
  by (simp add: map_of_eq_None_iff)

lemma update_fresh: "k \<notin> set (keys kvs) \<Longrightarrow> AList.update k v kvs = kvs @ [(k, v)]"
  by (induction kvs) auto

lemma keys_update_known: "k \<in> set (keys kvs) \<Longrightarrow> keys (AList.update k v kvs) = keys kvs"
  by (induction kvs) auto

lemma map_of_map_snd: "map_of (map (\<lambda>kv. (fst kv, f (snd kv))) kvs) k = map_option f (map_of kvs k)"
  by (induction kvs) auto

lemma map_of_permute:
  assumes "distinct (keys xs)" and "set xs = set ys" and "distinct (keys ys)"
  shows "map_of xs = map_of ys"
  using assms by (simp add: map_of_inject_set)

lemma sum_list_update_known:
  fixes f :: "'v \<Rightarrow> 'a :: ab_group_add"
  assumes "map_of kvs k = Some v" and "distinct (keys kvs)"
  shows "sum_list (map (f \<circ> snd) (AList.update k w kvs)) = sum_list (map (f \<circ> snd) kvs) - f v + f w"
  using assms
proof (induction kvs)
  case (Cons kv kvs)
  then show ?case by (cases kv) (auto simp: algebra_simps)
qed simp

end
