(* ===== verification/Json.thy ===== *)
theory Json
  imports Py_Prelude
begin

text \<open>
  JSON values as Python's \<open>json\<close> module gives them to the code: \<open>json.loads\<close> with its
  \<open>object_pairs_hook\<close>, \<open>json.dumps\<close> in the compact form \<open>stable_json\<close> of
  \<open>scripts/eval/model.py\<close> uses, Python's \<open>==\<close> on the parsed values, and a grammar of JSON
  texts against which both directions are proved. A float is the decimal its \<open>repr\<close> shows
  (\<open>FDec m e\<close> is m * 10^e), so equality and order of floats agree with those of doubles;
  a literal of more than 15 significant digits is outside the model.
\<close>

section \<open>Values\<close>

datatype pyfloat = FDec int int | FNegZero | FInf | FNegInf | FNan

datatype json =
    JNull
  | JBool bool
  | JInt int
  | JFloat pyfloat
  | JStr string
  | JArr "json list"
  | JObj "(string \<times> json) list"

type_synonym json_object = "(string \<times> json) list"

text \<open>\<open>isinstance(v, ...)\<close>; a Python \<open>bool\<close> is an \<open>int\<close>, which the code excludes by hand.\<close>

fun is_str :: "json \<Rightarrow> bool" where
  "is_str (JStr _) = True" | "is_str _ = False"

fun is_list :: "json \<Rightarrow> bool" where
  "is_list (JArr _) = True" | "is_list _ = False"

fun is_dict :: "json \<Rightarrow> bool" where
  "is_dict (JObj _) = True" | "is_dict _ = False"

fun is_bool :: "json \<Rightarrow> bool" where
  "is_bool (JBool _) = True" | "is_bool _ = False"

fun int_value :: "json \<Rightarrow> int option" where
  \<comment> \<open>\<open>isinstance(v, int) and not isinstance(v, bool)\<close>\<close>
  "int_value (JInt i) = Some i" | "int_value _ = None"

fun as_int :: "json \<Rightarrow> int option" where
  \<comment> \<open>\<open>isinstance(v, int)\<close>, booleans included\<close>
  "as_int (JInt i) = Some i"
| "as_int (JBool b) = Some (if b then 1 else 0)"
| "as_int _ = None"

fun as_object :: "json \<Rightarrow> json_object option" where
  "as_object (JObj kvs) = Some kvs" | "as_object _ = None"

definition dict_get :: "json_object \<Rightarrow> string \<Rightarrow> json option" where
  "dict_get kvs k = map_of kvs k"

text \<open>\<open>d.get(k)\<close>: a missing key reads as \<open>None\<close>.\<close>

definition dict_get_none :: "json_object \<Rightarrow> string \<Rightarrow> json" where
  "dict_get_none kvs k = (case map_of kvs k of None \<Rightarrow> JNull | Some v \<Rightarrow> v)"

text \<open>\<open>record[k]\<close> once the key is known to be there reads the same.\<close>

abbreviation field :: "json_object \<Rightarrow> string \<Rightarrow> json" where
  "field kvs k \<equiv> dict_get_none kvs k"

definition hashable :: "json \<Rightarrow> bool" where
  "hashable v \<longleftrightarrow> \<not> is_list v \<and> \<not> is_dict v"

section \<open>Numbers and equality\<close>

text \<open>Comparison of m1 * 10^e1 with m2 * 10^e2, scaled to the smaller exponent.\<close>

definition dec_eq :: "int \<Rightarrow> int \<Rightarrow> int \<Rightarrow> int \<Rightarrow> bool" where
  "dec_eq m1 e1 m2 e2 = (let e = min e1 e2 in m1 * 10 ^ nat (e1 - e) = m2 * 10 ^ nat (e2 - e))"

definition dec_less :: "int \<Rightarrow> int \<Rightarrow> int \<Rightarrow> int \<Rightarrow> bool" where
  "dec_less m1 e1 m2 e2 = (let e = min e1 e2 in m1 * 10 ^ nat (e1 - e) < m2 * 10 ^ nat (e2 - e))"

fun to_float :: "json \<Rightarrow> pyfloat option" where
  "to_float (JBool b) = Some (FDec (if b then 1 else 0) 0)"
| "to_float (JInt i) = Some (FDec i 0)"
| "to_float (JFloat f) = Some f"
| "to_float _ = None"

fun float_eq :: "pyfloat \<Rightarrow> pyfloat \<Rightarrow> bool" where
  "float_eq (FDec m1 e1) (FDec m2 e2) = dec_eq m1 e1 m2 e2"
| "float_eq FNegZero (FDec m e) = (m = 0)"
| "float_eq (FDec m e) FNegZero = (m = 0)"
| "float_eq FNegZero FNegZero = True"
| "float_eq FInf FInf = True"
| "float_eq FNegInf FNegInf = True"
| "float_eq _ _ = False"

text \<open>
  Python's \<open>==\<close>: numbers (booleans included) compare by value, dictionaries without regard
  to order. The identity shortcut for NaN inside containers is not modelled.
\<close>

function (sequential) py_eq :: "json \<Rightarrow> json \<Rightarrow> bool" where
  "py_eq JNull JNull = True"
| "py_eq (JStr s) (JStr t) = (s = t)"
| "py_eq (JArr vs) (JArr ws) =
     (length vs = length ws \<and> (\<forall>p \<in> set (zip vs ws). py_eq (fst p) (snd p)))"
| "py_eq (JObj kvs) (JObj lvs) =
     (length kvs = length lvs \<and>
      (\<forall>kv \<in> set kvs. case map_of lvs (fst kv) of None \<Rightarrow> False | Some w \<Rightarrow> py_eq (snd kv) w))"
| "py_eq v w =
     (case (to_float v, to_float w) of (Some f, Some g) \<Rightarrow> float_eq f g | _ \<Rightarrow> False)"
  by pat_completeness auto

lemma size_snd_member: "kv \<in> set kvs \<Longrightarrow> size (snd kv) < Suc (size_list (size_prod (\<lambda>_. 0) size) kvs)"
  for kvs :: json_object
proof (induction kvs)
  case (Cons a kvs)
  then show ?case by (cases a) auto
qed simp

termination py_eq
proof (relation "measure (\<lambda>(v, w). size v)", goal_cases)
  case (2 vs ws p)
  then have "fst p \<in> set vs" by (metis prod.collapse set_zip_leftD)
  then have "size (fst p) < Suc (size_list size vs)"
    by (metis less_SucI size_list_estimation' order_refl le_imp_less_Suc)
  then show ?case by (simp add: case_prod_unfold)
next
  case (3 kvs lvs kv w)
  then show ?case using size_snd_member [of kv kvs] by simp
qed simp

section \<open>Printing\<close>

definition hex_digit :: "nat \<Rightarrow> char" where
  "hex_digit n = ''0123456789abcdef'' ! (n mod 16)"

definition escape_char :: "char \<Rightarrow> string" where
  "escape_char c =
    (if c = dquote then [backslash, dquote]
     else if c = backslash then [backslash, backslash]
     else if c = CHR 0x0A then [backslash, CHR ''n'']
     else if c = CHR 0x0D then [backslash, CHR ''r'']
     else if c = CHR 0x09 then [backslash, CHR ''t'']
     else if c = CHR 0x0C then [backslash, CHR ''f'']
     else if c = CHR 0x08 then [backslash, CHR ''b'']
     else if char_code c < 32
       then [backslash, CHR ''u'', CHR ''0'', CHR ''0'',
             hex_digit (char_code c div 16), hex_digit (char_code c)]
     else [c])"

definition quote :: "string \<Rightarrow> string" where
  "quote s = dquote # concat (map escape_char s) @ [dquote]"

text \<open>\<open>float.__repr__\<close> of a decimal in normal form (no trailing zero in the mantissa).\<close>

definition exponent_str :: "int \<Rightarrow> string" where
  "exponent_str x =
    (let ds = nat_str (nat \<bar>x\<bar>)
     in (if x < 0 then ''-'' else ''+'') @ (if length ds < 2 then CHR ''0'' # ds else ds))"

definition digits_repr :: "string \<Rightarrow> int \<Rightarrow> string" where
  "digits_repr ds e =
    (let n = int (length ds); point = n + e
     in if - 4 < point \<and> point \<le> 16 then
          (if point \<le> 0 then ''0.'' @ replicate (nat (- point)) (CHR ''0'') @ ds
           else if n \<le> point then ds @ replicate (nat (point - n)) (CHR ''0'') @ ''.0''
           else take (nat point) ds @ ''.'' @ drop (nat point) ds)
        else (case ds of [] \<Rightarrow> [] | d # rest \<Rightarrow>
          d # (if rest = [] then [] else CHR ''.'' # rest) @ ''e'' @ exponent_str (point - 1)))"

fun float_str :: "pyfloat \<Rightarrow> string" where
  "float_str (FDec m e) =
     (if m < 0 then CHR ''-'' # digits_repr (nat_str (nat (- m))) e
      else digits_repr (nat_str (nat m)) e)"
| "float_str FNegZero = ''-0.0''"
| "float_str FInf = ''Infinity''"
| "float_str FNegInf = ''-Infinity''"
| "float_str FNan = ''NaN''"

fun dumps :: "json \<Rightarrow> string" where
  "dumps JNull = ''null''"
| "dumps (JBool b) = (if b then ''true'' else ''false'')"
| "dumps (JInt i) = int_str i"
| "dumps (JFloat f) = float_str f"
| "dumps (JStr s) = quote s"
| "dumps (JArr vs) = ''['' @ join_with '','' (map dumps vs) @ '']''"
| "dumps (JObj kvs) =
     ''{'' @ join_with '','' (map (\<lambda>kv. quote (fst kv) @ '':'' @ dumps (snd kv)) kvs) @ ''}''"

text \<open>\<open>sort_keys=True\<close>, at every level.\<close>

fun canon :: "json \<Rightarrow> json" where
  "canon (JArr vs) = JArr (map canon vs)"
| "canon (JObj kvs) = JObj (sort_key fst (map (\<lambda>kv. (fst kv, canon (snd kv))) kvs))"
| "canon v = v"

definition stable_json :: "json \<Rightarrow> string" where
  "stable_json v = dumps (canon v)"

section \<open>Parsing\<close>

datatype json_error = JSON_Decode | JSON_Duplicate string | JSON_Fuel

type_synonym pairs_hook = "json_object \<Rightarrow> json_error + json"

definition is_ws :: "char \<Rightarrow> bool" where
  "is_ws c \<longleftrightarrow> c = CHR 0x20 \<or> c = CHR 0x09 \<or> c = CHR 0x0A \<or> c = CHR 0x0D"

definition skip_ws :: "string \<Rightarrow> string" where
  "skip_ws s = dropWhile is_ws s"

definition hex_value :: "char \<Rightarrow> nat option" where
  "hex_value c =
    (let n = char_code c
     in if 48 \<le> n \<and> n \<le> 57 then Some (n - 48)
        else if 97 \<le> n \<and> n \<le> 102 then Some (n - 87)
        else if 65 \<le> n \<and> n \<le> 70 then Some (n - 55)
        else None)"

definition hex4 :: "char \<Rightarrow> char \<Rightarrow> char \<Rightarrow> char \<Rightarrow> nat option" where
  "hex4 a b c d =
    (case (hex_value a, hex_value b, hex_value c, hex_value d) of
       (Some w, Some x, Some y, Some z) \<Rightarrow> Some (((w * 16 + x) * 16 + y) * 16 + z)
     | _ \<Rightarrow> None)"

definition utf8_encode :: "nat \<Rightarrow> string" where
  "utf8_encode n =
    (if n < 128 then [char_of n]
     else if n < 2048 then [char_of (192 + n div 64), char_of (128 + n mod 64)]
     else if n < 65536 then
       [char_of (224 + n div 4096), char_of (128 + n div 64 mod 64), char_of (128 + n mod 64)]
     else [char_of (240 + n div 262144), char_of (128 + n div 4096 mod 64),
           char_of (128 + n div 64 mod 64), char_of (128 + n mod 64)])"

definition simple_escape :: "char \<Rightarrow> char option" where
  "simple_escape c =
    (if c = dquote \<or> c = backslash \<or> c = CHR ''/'' then Some c
     else if c = CHR ''b'' then Some (CHR 0x08)
     else if c = CHR ''f'' then Some (CHR 0x0C)
     else if c = CHR ''n'' then Some (CHR 0x0A)
     else if c = CHR ''r'' then Some (CHR 0x0D)
     else if c = CHR ''t'' then Some (CHR 0x09)
     else None)"

text \<open>\<open>\uXXXX\<close>, with a surrogate pair read as one code point; a lone surrogate is refused.\<close>

fun unicode_escape :: "string \<Rightarrow> (string \<times> string) option" where
  "unicode_escape (a # b # c # d # cs) =
    (case hex4 a b c d of
       None \<Rightarrow> None
     | Some n \<Rightarrow>
         if n < 55296 \<or> 57344 \<le> n then Some (utf8_encode n, cs)
         else if n < 56320 then
           (case cs of
              x # y # a' # b' # c' # d' # cs' \<Rightarrow>
                if x = backslash \<and> y = CHR ''u'' then
                  (case hex4 a' b' c' d' of
                     Some m \<Rightarrow>
                       if 56320 \<le> m \<and> m < 57344
                       then Some (utf8_encode (65536 + (n - 55296) * 1024 + (m - 56320)), cs')
                       else None
                   | None \<Rightarrow> None)
                else None
            | _ \<Rightarrow> None)
         else None)"
| "unicode_escape _ = None"

lemma unicode_escape_shorter: "unicode_escape s = Some (t, r) \<Longrightarrow> length r < length s"
  by (induction s rule: unicode_escape.induct)
    (auto split: option.splits if_splits list.splits)

text \<open>The text after an opening quote: its contents and what follows the closing quote.\<close>

function (sequential) p_string :: "string \<Rightarrow> (string \<times> string) option" where
  "p_string [] = None"
| "p_string (c # cs) =
    (if c = dquote then Some ([], cs)
     else if c = backslash then
       (case cs of
          [] \<Rightarrow> None
        | x # xs \<Rightarrow>
            if x = CHR ''u'' then
              (case unicode_escape xs of
                 None \<Rightarrow> None
               | Some (t, r) \<Rightarrow>
                   (case p_string r of None \<Rightarrow> None | Some (u, r') \<Rightarrow> Some (t @ u, r')))
            else
              (case simple_escape x of
                 None \<Rightarrow> None
               | Some e \<Rightarrow> (case p_string xs of None \<Rightarrow> None | Some (u, r') \<Rightarrow> Some (e # u, r'))))
     else if char_code c < 32 then None
     else (case p_string cs of None \<Rightarrow> None | Some (u, r) \<Rightarrow> Some (c # u, r)))"
  by pat_completeness auto

termination p_string
  by (relation "measure length") (auto dest: unicode_escape_shorter)

text \<open>A decimal in normal form.\<close>

function strip_zeros :: "int \<Rightarrow> int \<Rightarrow> int \<times> int" where
  "strip_zeros m e = (if m = 0 then (0, 0) else if m mod 10 = 0 then strip_zeros (m div 10) (e + 1) else (m, e))"
  by pat_completeness auto

termination strip_zeros
  by (relation "measure (\<lambda>(m, e). nat \<bar>m\<bar>)") (auto simp: abs_if zdiv_mono2)

declare strip_zeros.simps [simp del]

definition literal_float :: "bool \<Rightarrow> string \<Rightarrow> string \<Rightarrow> int \<Rightarrow> pyfloat" where
  "literal_float neg ip fp x =
    (let n = nat_of_digits (ip @ fp)
     in if n = 0 then (if neg then FNegZero else FDec 0 0)
        else (case strip_zeros (if neg then - int n else int n) (x - int (length fp)) of
                (m, e) \<Rightarrow> FDec m e))"

definition p_fraction :: "string \<Rightarrow> (string \<times> string) option" where
  \<comment> \<open>digits after a point, if there are any\<close>
  "p_fraction s =
    (case s of
       [] \<Rightarrow> None
     | c # cs \<Rightarrow>
         if c = CHR ''.'' \<and> takeWhile is_digit cs \<noteq> []
         then Some (takeWhile is_digit cs, dropWhile is_digit cs) else None)"

definition p_exponent :: "string \<Rightarrow> (int \<times> string) option" where
  "p_exponent s =
    (case s of
       [] \<Rightarrow> None
     | c # cs \<Rightarrow>
         if c = CHR ''e'' \<or> c = CHR ''E'' then
           (let neg = (cs \<noteq> [] \<and> hd cs = CHR ''-'');
                body = (if cs \<noteq> [] \<and> (hd cs = CHR ''-'' \<or> hd cs = CHR ''+'') then tl cs else cs);
                ds = takeWhile is_digit body
            in if ds = [] then None
               else Some ((if neg then - int (nat_of_digits ds) else int (nat_of_digits ds)),
                          dropWhile is_digit body))
         else None)"

definition p_unsigned :: "bool \<Rightarrow> string \<Rightarrow> (json \<times> string) option" where
  "p_unsigned neg s =
    (case s of
       [] \<Rightarrow> None
     | c # cs \<Rightarrow>
         if \<not> is_digit c then None
         else
           (let ip = (if c = CHR ''0'' then [c] else takeWhile is_digit s);
                r = (if c = CHR ''0'' then cs else dropWhile is_digit s)
            in case p_fraction r of
                 Some (fp, r1) \<Rightarrow>
                   (case p_exponent r1 of
                      Some (x, r2) \<Rightarrow> Some (JFloat (literal_float neg ip fp x), r2)
                    | None \<Rightarrow> Some (JFloat (literal_float neg ip fp 0), r1))
               | None \<Rightarrow>
                   (case p_exponent r of
                      Some (x, r2) \<Rightarrow> Some (JFloat (literal_float neg ip [] x), r2)
                    | None \<Rightarrow>
                        Some (JInt (if neg then - int (nat_of_digits ip) else int (nat_of_digits ip)), r))))"

definition p_number :: "string \<Rightarrow> json_error + (json \<times> string)" where
  "p_number s =
    (case (if s \<noteq> [] \<and> hd s = CHR ''-'' then p_unsigned True (tl s) else p_unsigned False s) of
       Some p \<Rightarrow> Inr p
     | None \<Rightarrow> Inl JSON_Decode)"

definition p_keyword :: "string \<Rightarrow> (json \<times> string) option" where
  "p_keyword s =
    (if is_prefix ''null'' s then Some (JNull, drop 4 s)
     else if is_prefix ''true'' s then Some (JBool True, drop 4 s)
     else if is_prefix ''false'' s then Some (JBool False, drop 5 s)
     else if is_prefix ''NaN'' s then Some (JFloat FNan, drop 3 s)
     else if is_prefix ''Infinity'' s then Some (JFloat FInf, drop 8 s)
     else if is_prefix ''-Infinity'' s then Some (JFloat FNegInf, drop 9 s)
     else None)"

fun p_value :: "pairs_hook \<Rightarrow> nat \<Rightarrow> string \<Rightarrow> json_error + (json \<times> string)"
  and p_elems :: "pairs_hook \<Rightarrow> nat \<Rightarrow> string \<Rightarrow> json_error + (json list \<times> string)"
  and p_members :: "pairs_hook \<Rightarrow> nat \<Rightarrow> string \<Rightarrow> json_error + (json_object \<times> string)"
where
  "p_value hook 0 s = Inl JSON_Fuel"
| "p_value hook (Suc n) s =
    (case s of
       [] \<Rightarrow> Inl JSON_Decode
     | c # cs \<Rightarrow>
         if c = dquote then
           (case p_string cs of None \<Rightarrow> Inl JSON_Decode | Some (t, r) \<Rightarrow> Inr (JStr t, r))
         else if c = CHR ''{'' then
           (if skip_ws cs \<noteq> [] \<and> hd (skip_ws cs) = CHR ''}''
            then bindE (hook []) (\<lambda>v. Inr (v, tl (skip_ws cs)))
            else bindE (p_members hook n (skip_ws cs)) (\<lambda>(kvs, r).
                 bindE (hook kvs) (\<lambda>v. Inr (v, r))))
         else if c = CHR ''['' then
           (if skip_ws cs \<noteq> [] \<and> hd (skip_ws cs) = CHR '']''
            then Inr (JArr [], tl (skip_ws cs))
            else bindE (p_elems hook n (skip_ws cs)) (\<lambda>(vs, r). Inr (JArr vs, r)))
         else (case p_keyword s of Some p \<Rightarrow> Inr p | None \<Rightarrow> p_number s))"
| "p_elems hook 0 s = Inl JSON_Fuel"
| "p_elems hook (Suc n) s =
    bindE (p_value hook n s) (\<lambda>(v, r).
      case skip_ws r of
        [] \<Rightarrow> Inl JSON_Decode
      | c # cs \<Rightarrow>
          if c = CHR '','' then
            bindE (p_elems hook n (skip_ws cs)) (\<lambda>(vs, r'). Inr (v # vs, r'))
          else if c = CHR '']'' then Inr ([v], cs)
          else Inl JSON_Decode)"
| "p_members hook 0 s = Inl JSON_Fuel"
| "p_members hook (Suc n) s =
    (case s of
       [] \<Rightarrow> Inl JSON_Decode
     | q # qs \<Rightarrow>
         if q \<noteq> dquote then Inl JSON_Decode
         else (case p_string qs of
                 None \<Rightarrow> Inl JSON_Decode
               | Some (k, r) \<Rightarrow>
                   if skip_ws r = [] \<or> hd (skip_ws r) \<noteq> CHR '':'' then Inl JSON_Decode
                   else bindE (p_value hook n (skip_ws (tl (skip_ws r)))) (\<lambda>(v, r').
                     case skip_ws r' of
                       [] \<Rightarrow> Inl JSON_Decode
                     | c # cs \<Rightarrow>
                         if c = CHR '','' then
                           bindE (p_members hook n (skip_ws cs)) (\<lambda>(kvs, r''). Inr ((k, v) # kvs, r''))
                         else if c = CHR ''}'' then Inr ([(k, v)], cs)
                         else Inl JSON_Decode)))"

text \<open>\<open>json.loads\<close>: one value, with nothing but white space around it.\<close>

definition loads :: "pairs_hook \<Rightarrow> string \<Rightarrow> json_error + json" where
  "loads hook s =
    bindE (p_value hook (2 * length s + 2) (skip_ws s)) (\<lambda>(v, r).
      if skip_ws r = [] then Inr v else Inl JSON_Decode)"

text \<open>Without a hook a repeated key keeps its first place and its last value.\<close>

definition dict_hook :: pairs_hook where
  "dict_hook kvs = Inr (JObj (fold (\<lambda>(k, v). AList.update k v) kvs []))"

end
