(* ===== verification/Json_Text.thy ===== *)
theory Json_Text
  imports Json "HOL-Library.Multiset"
begin

text \<open>
  A grammar of JSON texts and what the printer and the parser of \<open>Json\<close> have to do with it:
  \<open>loads\<close> reads every text of the grammar as the value it denotes (with any white space),
  \<open>dumps\<close> prints a text of the grammar, so parsing what was printed gives the value back.
  The float-free values are all the journal and the ledgers write; \<open>dumps\<close> is proved for them, and
  the literals of floats have a rule of the grammar of their own.
\<close>

section \<open>The grammar\<close>

definition white :: "string \<Rightarrow> bool" where
  "white w \<longleftrightarrow> (\<forall>c \<in> set w. is_ws c)"

text \<open>A literal of a string: the parser reads it back, whatever follows.\<close>

definition str_lit :: "string \<Rightarrow> string \<Rightarrow> bool" where
  "str_lit t q \<longleftrightarrow> (\<exists>body. q = dquote # body \<and> (\<forall>r. p_string (body @ r) = Some (t, r)))"

text \<open>What may follow a number without extending it.\<close>

definition number_stop :: "string \<Rightarrow> bool" where
  "number_stop r \<longleftrightarrow> (r = [] \<or>
    (\<not> is_digit (hd r) \<and> hd r \<noteq> CHR ''.'' \<and> hd r \<noteq> CHR ''e'' \<and> hd r \<noteq> CHR ''E''))"

text \<open>A literal of a float, in the same way. What \<open>float.__repr__\<close> writes is one (\<open>Json_Floats\<close>).\<close>

definition float_lit :: "pyfloat \<Rightarrow> string \<Rightarrow> bool" where
  "float_lit f q \<longleftrightarrow> q \<noteq> [] \<and> (is_digit (hd q) \<or> hd q = CHR ''-'') \<and>
    (\<forall>hook n r. number_stop r \<longrightarrow> p_value hook (Suc n) (q @ r) = Inr (JFloat f, r))"

inductive json_text :: "json \<Rightarrow> string \<Rightarrow> bool"
  and elems_text :: "json list \<Rightarrow> string \<Rightarrow> bool"
  and members_text :: "json_object \<Rightarrow> string \<Rightarrow> bool"
where
  text_null: "json_text JNull ''null''"
| text_true: "json_text (JBool True) ''true''"
| text_false: "json_text (JBool False) ''false''"
| text_int: "json_text (JInt i) (int_str i)"
| text_float: "float_lit f q \<Longrightarrow> json_text (JFloat f) q"
| text_str: "str_lit t q \<Longrightarrow> json_text (JStr t) q"
| text_arr_empty: "white w \<Longrightarrow> json_text (JArr []) (''['' @ w @ '']'')"
| text_arr: "white w \<Longrightarrow> elems_text vs s \<Longrightarrow> json_text (JArr vs) (''['' @ w @ s @ '']'')"
| text_obj_empty: "white w \<Longrightarrow> json_text (JObj []) (''{'' @ w @ ''}'')"
| text_obj: "white w \<Longrightarrow> members_text kvs s \<Longrightarrow> distinct (keys kvs) \<Longrightarrow>
     json_text (JObj kvs) (''{'' @ w @ s @ ''}'')"
| elems_last: "json_text v s \<Longrightarrow> white w \<Longrightarrow> elems_text [v] (s @ w)"
| elems_more: "json_text v s \<Longrightarrow> white w \<Longrightarrow> white w' \<Longrightarrow> elems_text vs t \<Longrightarrow>
     elems_text (v # vs) (s @ w @ '','' @ w' @ t)"
| members_last: "str_lit k q \<Longrightarrow> white w \<Longrightarrow> white w' \<Longrightarrow> json_text v s \<Longrightarrow> white w'' \<Longrightarrow>
     members_text [(k, v)] (q @ w @ '':'' @ w' @ s @ w'')"
| members_more: "str_lit k q \<Longrightarrow> white w \<Longrightarrow> white w' \<Longrightarrow> json_text v s \<Longrightarrow> white w'' \<Longrightarrow> white w''' \<Longrightarrow>
     members_text kvs t \<Longrightarrow>
     members_text ((k, v) # kvs) (q @ w @ '':'' @ w' @ s @ w'' @ '','' @ w''' @ t)"

section \<open>Lexical lemmas\<close>

lemma char_code_CHR:
  "char_code dquote = 34" "char_code backslash = 92" "char_code CHR ''['' = 91"
  "char_code CHR '']'' = 93" "char_code CHR ''{'' = 123" "char_code CHR ''}'' = 125"
  "char_code CHR '','' = 44" "char_code CHR '':'' = 58" "char_code CHR ''-'' = 45"
  "char_code CHR ''.'' = 46" "char_code CHR ''e'' = 101" "char_code CHR ''E'' = 69"
  "char_code CHR 0x20 = 32" "char_code CHR 0x09 = 9" "char_code CHR 0x0A = 10"
  "char_code CHR 0x0D = 13" "char_code CHR ''n'' = 110" "char_code CHR ''t'' = 116"
  "char_code CHR ''f'' = 102" "char_code CHR ''N'' = 78" "char_code CHR ''I'' = 73"
  "char_code CHR ''0'' = 48"
  by (simp_all add: char_code_def)

lemma is_ws_code: "is_ws c \<longleftrightarrow> char_code c \<in> {32, 9, 10, 13}"
  unfolding is_ws_def char_code_inject [symmetric] by (simp add: char_code_CHR)

lemma skip_ws_white: "white w \<Longrightarrow> skip_ws (w @ s) = skip_ws s"
  by (simp add: skip_ws_def white_def dropWhile_append2)

lemma skip_ws_Cons: "\<not> is_ws c \<Longrightarrow> skip_ws (c # s) = c # s"
  by (simp add: skip_ws_def)

lemma skip_ws_all: "white w \<Longrightarrow> skip_ws w = []"
  using skip_ws_white [of w "[]"] by (simp add: skip_ws_def)

lemma skip_ws_length: "length (skip_ws s) \<le> length s"
  by (simp add: skip_ws_def length_dropWhile_le)

lemma not_ws_punct [simp]:
  "\<not> is_ws dquote" "\<not> is_ws CHR ''[''" "\<not> is_ws CHR '']''" "\<not> is_ws CHR ''{''"
  "\<not> is_ws CHR ''}''" "\<not> is_ws CHR '',''" "\<not> is_ws CHR '':''"
  by (simp_all add: is_ws_def)

lemma number_stop_white:
  assumes "white w" and "\<not> is_digit c" and "c \<notin> {CHR ''.'', CHR ''e'', CHR ''E''}"
  shows "number_stop (w @ c # r)"
proof (cases w)
  case Nil
  with assms show ?thesis by (simp add: number_stop_def)
next
  case (Cons d w')
  with assms(1) have "is_ws d" by (simp add: white_def)
  then have "\<not> is_digit d \<and> d \<noteq> CHR ''.'' \<and> d \<noteq> CHR ''e'' \<and> d \<noteq> CHR ''E''"
    unfolding char_code_inject [symmetric]
    by (auto simp: is_ws_code is_digit_def char_code_CHR)
  with Cons show ?thesis by (simp add: number_stop_def)
qed

lemma number_stop_only_white: "white w \<Longrightarrow> number_stop w"
proof (cases w)
  case (Cons d w')
  assume "white w"
  with Cons have "is_ws d" by (simp add: white_def)
  then have "\<not> is_digit d \<and> d \<noteq> CHR ''.'' \<and> d \<noteq> CHR ''e'' \<and> d \<noteq> CHR ''E''"
    unfolding char_code_inject [symmetric]
    by (auto simp: is_ws_code is_digit_def char_code_CHR)
  with Cons show ?thesis by (simp add: number_stop_def)
qed (simp add: number_stop_def)

lemma not_digit_punct: "\<not> is_digit CHR '',''" "\<not> is_digit CHR '']''" "\<not> is_digit CHR ''}''"
  by (simp_all add: is_digit_def char_code_CHR)

lemma takeWhile_digits: "number_stop r \<Longrightarrow> takeWhile is_digit (nat_str n @ r) = nat_str n"
  using nat_str_digits [of n]
  by (cases r) (auto simp: number_stop_def takeWhile_append2 takeWhile_eq_all_conv)

lemma dropWhile_digits: "number_stop r \<Longrightarrow> dropWhile is_digit (nat_str n @ r) = r"
  using nat_str_digits [of n]
  by (cases r) (auto simp: number_stop_def dropWhile_append2 dropWhile_eq_Nil_conv)

lemma p_fraction_stop: "number_stop r \<Longrightarrow> p_fraction r = None"
  by (cases r) (auto simp: p_fraction_def number_stop_def)

lemma p_exponent_stop: "number_stop r \<Longrightarrow> p_exponent r = None"
  by (cases r) (auto simp: p_exponent_def number_stop_def)

lemma p_unsigned_nat_str:
  assumes "number_stop r"
  shows "p_unsigned neg (nat_str n @ r) = Some (JInt (if neg then - int n else int n), r)"
proof -
  obtain c cs where c: "nat_str n = c # cs" by (cases "nat_str n") auto
  have digit: "is_digit c" using nat_str_digits [of n] c by simp
  show ?thesis
  proof (cases "n = 0")
    case True
    then have "c = CHR ''0''" "cs = []" using c nat_str_0 by auto
    with True assms digit c show ?thesis
      by (simp add: p_unsigned_def p_fraction_stop p_exponent_stop nat_of_digits_def digit_of_def
          char_code_CHR)
  next
    case False
    then have "c \<noteq> CHR ''0''" using nat_str_hd [of n] c by simp
    then have "p_unsigned neg (c # cs @ r) =
      Some (JInt (if neg then - int (nat_of_digits (nat_str n)) else int (nat_of_digits (nat_str n))), r)"
      using takeWhile_digits [OF assms, of n] dropWhile_digits [OF assms, of n] assms digit c
      by (simp add: p_unsigned_def p_fraction_stop p_exponent_stop)
    moreover have "nat_of_digits (nat_str n) = n" by simp
    ultimately show ?thesis using c by simp
  qed
qed

lemma p_keyword_number:
  assumes "is_digit c"
  shows "p_keyword (c # s) = None"
proof -
  have "c \<noteq> CHR ''n'' \<and> c \<noteq> CHR ''t'' \<and> c \<noteq> CHR ''f'' \<and> c \<noteq> CHR ''N'' \<and> c \<noteq> CHR ''I'' \<and> c \<noteq> CHR ''-''"
    using assms unfolding char_code_inject [symmetric] by (auto simp: is_digit_def char_code_CHR)
  then show ?thesis by (simp add: p_keyword_def is_prefix_def)
qed

lemma p_keyword_minus:
  assumes "is_digit c"
  shows "p_keyword (CHR ''-'' # c # s) = None"
proof -
  have "c \<noteq> CHR ''I''"
    using assms unfolding char_code_inject [symmetric] by (auto simp: is_digit_def char_code_CHR)
  then show ?thesis by (simp add: p_keyword_def is_prefix_def)
qed

lemma digit_not_punct:
  "is_digit c \<Longrightarrow> c \<noteq> dquote \<and> c \<noteq> CHR ''{'' \<and> c \<noteq> CHR ''['' \<and> c \<noteq> CHR ''-''"
  unfolding char_code_inject [symmetric] by (auto simp: is_digit_def char_code_CHR)

lemma p_value_int:
  assumes "number_stop r"
  shows "p_value hook (Suc n) (int_str i @ r) = Inr (JInt i, r)"
proof -
  obtain c cs where c: "nat_str (nat \<bar>i\<bar>) = c # cs" by (cases "nat_str (nat \<bar>i\<bar>)") auto
  then have digit: "is_digit c" using nat_str_digits [of "nat \<bar>i\<bar>"] by simp
  note unsigned = p_unsigned_nat_str [OF assms, of _ "nat \<bar>i\<bar>", unfolded c]
  show ?thesis
  proof (cases "i < 0")
    case True
    then have "int_str i = CHR ''-'' # c # cs" using c by (simp add: int_str_def)
    then show ?thesis
      using True unsigned [of True] p_keyword_minus [OF digit] by (simp add: p_number_def)
  next
    case False
    then have "int_str i = c # cs" using c by (simp add: int_str_def)
    then show ?thesis
      using False unsigned [of False] p_keyword_number [OF digit] digit_not_punct [OF digit]
      by (simp add: p_number_def)
  qed
qed

lemma hex_value_hex_digit:
  assumes "n < 16"
  shows "hex_value (hex_digit n) = Some n"
proof -
  have "list_all (\<lambda>n. hex_value (hex_digit n) = Some n) [0..<16]"
    by code_simp
  with assms show ?thesis by (simp add: list_all_iff)
qed

lemma p_string_escape:
  "p_string (escape_char c @ s) =
     (case p_string s of None \<Rightarrow> None | Some (u, r) \<Rightarrow> Some (c # u, r))"
proof (cases "char_code c < 32 \<and> c \<notin> {CHR 0x0A, CHR 0x0D, CHR 0x09, CHR 0x0C, CHR 0x08}")
  case True
  then have neq: "c \<noteq> dquote" "c \<noteq> backslash"
    unfolding char_code_inject [symmetric] by (auto simp: char_code_CHR)
  let ?n = "char_code c"
  have "hex4 (CHR ''0'') (CHR ''0'') (hex_digit (?n div 16)) (hex_digit ?n) = Some ?n"
  proof -
    have a: "hex_value (CHR ''0'') = Some 0" by (simp add: hex_value_def char_code_CHR)
    have b: "hex_value (hex_digit (?n div 16)) = Some (?n div 16)"
      using True by (intro hex_value_hex_digit) auto
    have "hex_digit ?n = hex_digit (?n mod 16)" by (simp add: hex_digit_def)
    then have c: "hex_value (hex_digit ?n) = Some (?n mod 16)"
      by (simp add: hex_value_hex_digit)
    show ?thesis by (simp add: hex4_def a b c)
  qed
  moreover have "utf8_encode ?n = [c]" using True by (simp add: utf8_encode_def)
  ultimately show ?thesis using True neq by (auto simp: escape_char_def split: option.splits)
next
  case False
  then show ?thesis
    by (auto simp: escape_char_def simple_escape_def split: option.splits)
qed

lemma p_string_quote: "p_string (concat (map escape_char t) @ dquote # r) = Some (t, r)"
proof (induction t)
  case (Cons c t)
  then show ?case using p_string_escape [of c "concat (map escape_char t) @ dquote # r"] by simp
qed simp

lemma str_lit_quote [simp]: "str_lit t (quote t)"
  using p_string_quote [of t] by (auto simp: str_lit_def quote_def)

lemma str_litE:
  assumes "str_lit t q"
  obtains body where "q = dquote # body" and "\<And>r. p_string (body @ r) = Some (t, r)"
  using assms by (auto simp: str_lit_def)

section \<open>The parser reads the grammar\<close>

definition accepts_distinct :: "pairs_hook \<Rightarrow> bool" where
  "accepts_distinct hook \<longleftrightarrow> (\<forall>kvs. distinct (keys kvs) \<longrightarrow> hook kvs = Inr (JObj kvs))"

lemma text_starts:
  "json_text v s \<Longrightarrow> s \<noteq> [] \<and> \<not> is_ws (hd s) \<and> hd s \<noteq> CHR '']'' \<and> hd s \<noteq> CHR ''}''"
  "elems_text vs s \<Longrightarrow> s \<noteq> [] \<and> \<not> is_ws (hd s) \<and> hd s \<noteq> CHR '']'' \<and> hd s \<noteq> CHR ''}''"
  "members_text kvs s \<Longrightarrow> s \<noteq> [] \<and> hd s = dquote"
proof (induction rule: json_text_elems_text_members_text.inducts)
  case (text_int i)
  obtain c cs where c: "int_str i = c # cs"
    by (cases "int_str i") (auto simp: int_str_def split: if_splits)
  then have "is_digit c \<or> c = CHR ''-''"
    using nat_str_digits [of "nat i"] nat_str_digits [of "nat (- i)"]
    by (auto simp: int_str_def split: if_splits)
  then have "char_code c = 45 \<or> (48 \<le> char_code c \<and> char_code c \<le> 57)"
    by (auto simp: is_digit_def char_code_CHR)
  then have "\<not> is_ws c \<and> c \<noteq> CHR '']'' \<and> c \<noteq> CHR ''}''"
    unfolding char_code_inject [symmetric] by (auto simp: is_ws_code char_code_CHR)
  with c show ?case by simp
next
  case (text_float f q)
  then have "q \<noteq> []" and "char_code (hd q) = 45 \<or> 48 \<le> char_code (hd q) \<and> char_code (hd q) \<le> 57"
    by (auto simp: float_lit_def is_digit_def char_code_CHR)
  then show ?case unfolding char_code_inject [symmetric] by (auto simp: is_ws_code char_code_CHR)
qed (auto elim!: str_litE simp: is_ws_def)

lemma skip_ws_start: "s \<noteq> [] \<Longrightarrow> \<not> is_ws (hd s) \<Longrightarrow> skip_ws (s @ r) = s @ r"
  by (cases s) (auto simp: skip_ws_def)

lemma p_value_lit: "str_lit t q \<Longrightarrow> p_value hook (Suc n) (q @ r) = Inr (JStr t, r)"
  by (elim str_litE) simp

theorem parse_text:
  assumes "accepts_distinct hook"
  shows "json_text v s \<Longrightarrow> (\<And>n r. 2 * length s < n \<Longrightarrow> number_stop r \<Longrightarrow>
           p_value hook n (s @ r) = Inr (v, r))"
    and "elems_text vs s \<Longrightarrow> (\<And>n r. 2 * length s + 1 < n \<Longrightarrow>
           p_elems hook n (s @ CHR '']'' # r) = Inr (vs, r))"
    and "members_text kvs s \<Longrightarrow> (\<And>n r. 2 * length s < n \<Longrightarrow>
           p_members hook n (s @ CHR ''}'' # r) = Inr (kvs, r))"
proof (induction rule: json_text_elems_text_members_text.inducts)
  case text_null
  then show ?case by (cases n) (simp_all add: p_keyword_def is_prefix_def)
next
  case text_true
  then show ?case by (cases n) (simp_all add: p_keyword_def is_prefix_def)
next
  case text_false
  then show ?case by (cases n) (simp_all add: p_keyword_def is_prefix_def)
next
  case (text_int i)
  then show ?case by (cases n) (simp, simp only: p_value_int)
next
  case (text_float f q)
  then show ?case by (cases n) (simp_all only: float_lit_def not_less_zero)
next
  case (text_str t q)
  then show ?case by (cases n) (simp, simp only: p_value_lit)
next
  case (text_arr_empty w)
  then show ?case by (cases n) (simp_all add: skip_ws_white skip_ws_Cons)
next
  case (text_arr w vs s)
  then obtain m where n: "n = Suc m" and m: "2 * length s + 1 < m" by (cases n) auto
  note start = text_starts(2) [OF text_arr.hyps(2)]
  then have "skip_ws (w @ s @ CHR '']'' # r) = s @ CHR '']'' # r"
    using text_arr.hyps(1) by (simp add: skip_ws_white skip_ws_start)
  then show ?case using n start text_arr.IH [OF m, of r] by simp
next
  case (text_obj_empty w)
  then show ?case using assms
    by (cases n) (simp_all add: skip_ws_white skip_ws_Cons accepts_distinct_def)
next
  case (text_obj w kvs s)
  then obtain m where n: "n = Suc m" and m: "2 * length s < m" by (cases n) auto
  note start = text_starts(3) [OF text_obj.hyps(2)]
  then have "skip_ws (w @ s @ CHR ''}'' # r) = s @ CHR ''}'' # r"
    using text_obj.hyps(1) by (simp add: skip_ws_white skip_ws_start)
  then show ?case using n start text_obj.IH [OF m, of r] text_obj.hyps(3) assms
    by (simp add: accepts_distinct_def)
next
  case (elems_last v s w)
  then obtain m where n: "n = Suc m" by (cases n) auto
  then have "2 * length s < m" using elems_last.prems by simp
  moreover have "number_stop (w @ CHR '']'' # r)"
    using elems_last.hyps(2) by (rule number_stop_white) (simp_all add: not_digit_punct)
  ultimately have "p_value hook m (s @ w @ CHR '']'' # r) = Inr (v, w @ CHR '']'' # r)"
    by (rule elems_last.IH)
  then show ?case using n elems_last.hyps(2) by (simp add: skip_ws_white skip_ws_Cons)
next
  case (elems_more v s w w' vs t)
  then obtain m where n: "n = Suc m" by (cases n) auto
  have m: "2 * length s < m" "2 * length t + 1 < m" using elems_more.prems n by auto
  let ?rest = "w @ CHR '','' # w' @ t @ CHR '']'' # r"
  have "number_stop ?rest"
    using elems_more.hyps(2) by (rule number_stop_white) (simp_all add: not_digit_punct)
  with m(1) have "p_value hook m (s @ ?rest) = Inr (v, ?rest)" by (rule elems_more.IH(1))
  moreover have "skip_ws (w' @ t @ CHR '']'' # r) = t @ CHR '']'' # r"
    using text_starts(2) [OF elems_more.hyps(4)] elems_more.hyps(3)
    by (simp add: skip_ws_white skip_ws_start)
  ultimately show ?case using n elems_more.hyps(2) elems_more.IH(2) [OF m(2), of r]
    by (simp add: skip_ws_white skip_ws_Cons)
next
  case (members_last k q w w' v s w'')
  then obtain m where n: "n = Suc m" by (cases n) auto
  from members_last.hyps(1) obtain body where q: "q = dquote # body" "\<forall>r. p_string (body @ r) = Some (k, r)"
    unfolding str_lit_def by blast
  have m: "2 * length s < m" using members_last.prems n q by simp
  let ?rest = "w'' @ CHR ''}'' # r"
  have "number_stop ?rest"
    using members_last.hyps(5) by (rule number_stop_white) (simp_all add: not_digit_punct)
  with m have "p_value hook m (s @ ?rest) = Inr (v, ?rest)" by (rule members_last.IH)
  moreover have "skip_ws (w' @ s @ ?rest) = s @ ?rest"
    using text_starts(1) [OF members_last.hyps(4)] members_last.hyps(3)
    by (simp add: skip_ws_white skip_ws_start)
  ultimately show ?case using n members_last.hyps(2,5) q
    by (simp add: skip_ws_white skip_ws_Cons)
next
  case (members_more k q w w' v s w'' w''' kvs t)
  then obtain m where n: "n = Suc m" by (cases n) auto
  from members_more.hyps(1) obtain body where q: "q = dquote # body" "\<forall>r. p_string (body @ r) = Some (k, r)"
    unfolding str_lit_def by blast
  have m: "2 * length s < m" "2 * length t < m" using members_more.prems n q by auto
  let ?rest = "w'' @ CHR '','' # w''' @ t @ CHR ''}'' # r"
  have "number_stop ?rest"
    using members_more.hyps(5) by (rule number_stop_white) (simp_all add: not_digit_punct)
  with m(1) have "p_value hook m (s @ ?rest) = Inr (v, ?rest)" by (rule members_more.IH(1))
  moreover have "skip_ws (w' @ s @ ?rest) = s @ ?rest"
    using text_starts(1) [OF members_more.hyps(4)] members_more.hyps(3)
    by (simp add: skip_ws_white skip_ws_start)
  moreover have "skip_ws (w''' @ t @ CHR ''}'' # r) = t @ CHR ''}'' # r"
    using text_starts(3) [OF members_more.hyps(7)] members_more.hyps(6)
    by (simp add: skip_ws_white skip_ws_start)
  ultimately show ?case
    using n members_more.hyps(2,5) members_more.IH(2) [OF m(2), of r] q
    by (simp add: skip_ws_white skip_ws_Cons)
qed

corollary loads_text:
  assumes "accepts_distinct hook" and "json_text v s" and "white w" and "white w'"
  shows "loads hook (w @ s @ w') = Inr v"
proof -
  have "skip_ws (w @ s @ w') = s @ w'"
    using text_starts(1) [OF assms(2)] assms(3) by (simp add: skip_ws_white skip_ws_start)
  moreover have "p_value hook (2 * length (w @ s @ w') + 2) (s @ w') = Inr (v, w')"
    using parse_text(1) [OF assms(1,2), of "2 * length (w @ s @ w') + 2" w'] assms(4)
    by (simp add: number_stop_only_white)
  ultimately show ?thesis using assms(4) by (simp add: loads_def skip_ws_all)
qed

section \<open>The printer writes the grammar\<close>

text \<open>
  The values \<open>json\<close> can hold without a float: dictionaries have distinct keys at every
  level. This is what the journal, its events and the ledgers are made of.
\<close>

fun plain :: "json \<Rightarrow> bool" where
  "plain (JFloat _) = False"
| "plain (JArr vs) = (\<forall>v \<in> set vs. plain v)"
| "plain (JObj kvs) = (distinct (keys kvs) \<and> (\<forall>kv \<in> set kvs. plain (snd kv)))"
| "plain _ = True"

lemma white_Nil [simp]: "white []"
  by (simp add: white_def)

lemma elems_text_join:
  "vs \<noteq> [] \<Longrightarrow> white w \<Longrightarrow> (\<And>v. v \<in> set vs \<Longrightarrow> json_text v (f v)) \<Longrightarrow>
   elems_text vs (join_with (CHR '','' # w) (map f vs))"
proof (induction vs)
  case (Cons v vs)
  show ?case
  proof (cases "vs = []")
    case True
    then show ?thesis using Cons.prems elems_last [of v "f v" "[]"] by simp
  next
    case False
    then have "elems_text vs (join_with (CHR '','' # w) (map f vs))" using Cons by simp
    then show ?thesis
      using False Cons.prems elems_more [of v "f v" "[]" w vs]
      by (simp add: join_with_Cons)
  qed
qed simp

lemma members_text_lits:
  "kvs \<noteq> [] \<Longrightarrow> white w \<Longrightarrow> white w' \<Longrightarrow> (\<And>kv. kv \<in> set kvs \<Longrightarrow> str_lit (fst kv) (g (fst kv))) \<Longrightarrow>
   (\<And>kv. kv \<in> set kvs \<Longrightarrow> json_text (snd kv) (f (snd kv))) \<Longrightarrow>
   members_text kvs (join_with (CHR '','' # w') (map (\<lambda>kv. g (fst kv) @ CHR '':'' # w @ f (snd kv)) kvs))"
proof (induction kvs)
  case (Cons kv kvs)
  obtain k v where kv: "kv = (k, v)" by (cases kv)
  have v: "str_lit k (g k)" "json_text v (f v)" using Cons.prems(4,5) [of kv] kv by simp_all
  show ?case
  proof (cases "kvs = []")
    case True
    then show ?thesis
      using Cons.prems(2,3) v kv members_last [of k "g k" "[]" w v "f v" "[]"] by simp
  next
    case False
    then have "members_text kvs (join_with (CHR '','' # w') (map (\<lambda>kv. g (fst kv) @ CHR '':'' # w @ f (snd kv)) kvs))"
      using Cons by simp
    then show ?thesis
      using False kv Cons.prems(2,3) v members_more [OF v(1) white_Nil _ v(2) white_Nil, of w w' kvs]
      by (simp add: join_with_Cons)
  qed
qed simp

lemma members_text_join:
  "kvs \<noteq> [] \<Longrightarrow> white w \<Longrightarrow> white w' \<Longrightarrow> (\<And>kv. kv \<in> set kvs \<Longrightarrow> json_text (snd kv) (f (snd kv))) \<Longrightarrow>
   members_text kvs (join_with (CHR '','' # w') (map (\<lambda>kv. quote (fst kv) @ CHR '':'' # w @ f (snd kv)) kvs))"
  using members_text_lits [of kvs w w' quote f] by simp

theorem dumps_text: "plain v \<Longrightarrow> json_text v (dumps v)"
proof (induction v rule: dumps.induct)
  case (6 vs)
  then show ?case
    using text_arr [of "[]" vs "join_with '','' (map dumps vs)"] text_arr_empty [of "[]"]
    using elems_text_join [of vs "[]" dumps] by (cases "vs = []") simp_all
next
  case (7 kvs)
  show ?case
  proof (cases "kvs = []")
    case True
    then show ?thesis using text_obj_empty [of "[]"] by simp
  next
    case False
    have "members_text kvs (join_with '','' (map (\<lambda>kv. quote (fst kv) @ '':'' @ dumps (snd kv)) kvs))"
      using False 7 members_text_join [of kvs "[]" "[]" dumps] by simp
    then show ?thesis using text_obj [OF white_Nil] 7 by simp
  qed
qed (auto intro: text_null text_true text_false text_int text_str)

section \<open>Canonical form\<close>

lemma keys_canon: "keys (sort_key fst (map (\<lambda>kv. (fst kv, canon (snd kv))) kvs)) = sort (keys kvs)"
  for kvs :: json_object
proof -
  have "map fst (sort_key fst ps) = sort (map fst ps)" for ps :: json_object
    by (rule properties_for_sort [symmetric]) simp_all
  from this [of "map (\<lambda>kv. (fst kv, canon (snd kv))) kvs"] show ?thesis
    by (simp add: comp_def)
qed

lemma plain_canon: "plain v \<Longrightarrow> plain (canon v)"
proof (induction v rule: canon.induct)
  case (2 kvs)
  then show ?case by (auto simp: keys_canon distinct_sort)
qed auto

lemma sort_key_stable_idem: "sort_key f (sort_key f xs) = sort_key f xs"
  by (simp add: sort_key_id_if_sorted)

lemma canon_idem: "canon (canon v) = canon v"
proof (induction v rule: canon.induct)
  case (2 kvs)
  let ?g = "\<lambda>kv. (fst kv, canon (snd kv))"
  have "map ?g (sort_key fst (map ?g kvs)) = sort_key fst (map ?g kvs)"
    using 2 by (intro map_idI) auto
  then show ?case by (simp add: sort_key_stable_idem)
qed auto

lemma stable_json_canon: "stable_json (canon v) = stable_json v"
  by (simp add: stable_json_def canon_idem)

abbreviation canon_object :: "json_object \<Rightarrow> json_object" where
  "canon_object kvs \<equiv> sort_key fst (map (\<lambda>kv. (fst kv, canon (snd kv))) kvs)"

lemma map_of_canon:
  assumes "distinct (keys kvs)"
  shows "map_of (canon_object kvs) k = map_option canon (map_of kvs k)"
proof -
  let ?f = "map (\<lambda>kv. (fst kv, canon (snd kv))) kvs"
  have "map_of (sort_key fst ?f) = map_of ?f"
    using assms by (intro map_of_permute) (simp_all add: comp_def keys_canon)
  then show ?thesis by (simp only: map_of_map_snd)
qed

lemma dict_get_none_canon:
  "distinct (keys kvs) \<Longrightarrow> dict_get_none (canon_object kvs) k = canon (dict_get_none kvs k)"
  by (simp add: dict_get_none_def map_of_canon split: option.splits)

theorem stable_json_roundtrip:
  assumes "accepts_distinct hook" and "plain v" and "white w"
  shows "loads hook (stable_json v @ w) = Inr (canon v)"
  using loads_text [OF assms(1) dumps_text [OF plain_canon [OF assms(2)]] white_Nil assms(3)]
  by (simp add: stable_json_def)

text \<open>The printed form determines the value up to the order of its keys.\<close>

definition plain_hook :: pairs_hook where
  "plain_hook kvs = Inr (JObj kvs)"

lemma accepts_plain_hook: "accepts_distinct plain_hook"
  by (simp add: accepts_distinct_def plain_hook_def)

corollary stable_json_inject:
  assumes "plain v" and "plain w"
  shows "stable_json v = stable_json w \<longleftrightarrow> canon v = canon w"
proof
  assume "stable_json v = stable_json w"
  then show "canon v = canon w"
    using stable_json_roundtrip [OF accepts_plain_hook assms(1) white_Nil]
      stable_json_roundtrip [OF accepts_plain_hook assms(2) white_Nil] by simp
qed (simp add: stable_json_def)

section \<open>Hooks\<close>

lemma fold_update_distinct:
  "distinct (keys (acc @ kvs)) \<Longrightarrow> fold (\<lambda>(k, v). AList.update k v) kvs acc = acc @ kvs"
proof (induction kvs arbitrary: acc)
  case (Cons kv kvs)
  then show ?case by (cases kv) (simp add: update_fresh)
qed simp

lemma accepts_dict_hook: "accepts_distinct dict_hook"
  unfolding accepts_distinct_def dict_hook_def using fold_update_distinct [of "[]"] by auto

section \<open>The fuel of \<open>loads\<close> is enough\<close>

lemma p_string_shorter: "p_string s = Some (t, r) \<Longrightarrow> length r < length s"
proof (induction s arbitrary: t r rule: p_string.induct)
  case (2 c cs)
  then show ?case
    by (fastforce split: if_splits list.splits option.splits dest: unicode_escape_shorter)
qed simp

lemma p_fraction_shorter: "p_fraction s = Some (t, r) \<Longrightarrow> length r < length s"
  by (auto simp: p_fraction_def length_dropWhile_le less_Suc_eq_le split: list.splits if_splits)

lemma p_exponent_shorter: "p_exponent s = Some (x, r) \<Longrightarrow> length r < length s"
  using length_dropWhile_le [of is_digit "tl (tl s)"] length_dropWhile_le [of is_digit "tl s"]
  by (auto simp: p_exponent_def Let_def split: list.splits if_splits)

lemma p_unsigned_shorter: "p_unsigned neg s = Some (v, r) \<Longrightarrow> length r < length s"
proof (cases s)
  case (Cons c cs)
  assume p: "p_unsigned neg s = Some (v, r)"
  define rest where "rest = (if c = CHR ''0'' then cs else dropWhile is_digit s)"
  have digit: "is_digit c" using p Cons by (auto simp: p_unsigned_def split: if_splits)
  then have "length rest < length s"
    using Cons length_dropWhile_le [of is_digit cs] by (auto simp: rest_def)
  moreover have "length r \<le> length rest"
    using p Cons digit
    by (auto simp: p_unsigned_def rest_def Let_def split: option.splits prod.splits if_splits
        dest!: p_fraction_shorter p_exponent_shorter)
  ultimately show ?thesis by simp
qed (simp add: p_unsigned_def)

lemma p_number_shorter: "p_number s = Inr (v, r) \<Longrightarrow> length r < length s"
  by (cases s) (auto simp: p_number_def split: option.splits if_splits dest: p_unsigned_shorter)

lemma p_keyword_shorter: "p_keyword s = Some (v, r) \<Longrightarrow> length r < length s"
  by (cases s) (auto simp: p_keyword_def is_prefix_def split: if_splits)

lemma tl_skip_ws_shorter: "skip_ws s \<noteq> [] \<Longrightarrow> length (tl (skip_ws s)) < length s"
  using skip_ws_length [of s] by (cases "skip_ws s") auto

lemma skip_ws_Cons_shorter: "skip_ws s = c # cs \<Longrightarrow> length cs < length s"
  using skip_ws_length [of s] by simp

lemma parse_shorter:
  "p_value hook n s = Inr (v, r) \<Longrightarrow> length r < length s"
  "p_elems hook n s = Inr (vs, r) \<Longrightarrow> length r < length s"
  "p_members hook n s = Inr (kvs, r) \<Longrightarrow> length r < length s"
proof (induction hook n s and hook n s and hook n s arbitrary: v r and vs r and kvs r
    rule: p_value_p_elems_p_members.induct)
  case (2 hook n s)
  show ?case
  proof (cases s)
    case (Cons c cs)
    note IH = "2.IH" [OF Cons]
    consider "c = dquote" | "c = CHR ''{''" | "c = CHR ''[''"
      | "c \<noteq> dquote" "c \<noteq> CHR ''{''" "c \<noteq> CHR ''[''" by blast
    then show ?thesis
    proof cases
      case 1
      then show ?thesis using "2.prems" Cons by (auto split: option.splits dest: p_string_shorter)
    next
      case 2
      then show ?thesis
        using "2.prems" Cons IH(1) skip_ws_length [of cs] tl_skip_ws_shorter [of cs]
        by (fastforce simp: bindE_eq_Inr split: if_splits)
    next
      case 3
      then show ?thesis
        using "2.prems" Cons IH(2) skip_ws_length [of cs] tl_skip_ws_shorter [of cs]
        by (fastforce simp: bindE_eq_Inr split: if_splits)
    next
      case 4
      then show ?thesis using "2.prems" Cons
        by (auto split: option.splits dest: p_number_shorter p_keyword_shorter)
    qed
  qed (use "2.prems" in simp)
next
  case (4 hook n s)
  from "4.prems" obtain v1 r1 where v1: "p_value hook n s = Inr (v1, r1)"
    by (auto simp: bindE_eq_Inr)
  with "4.prems" obtain c cs where ws: "skip_ws r1 = c # cs"
    by (cases "skip_ws r1") auto
  have less: "length cs < length s"
    using "4.IH"(1) [OF v1] skip_ws_Cons_shorter [OF ws] by simp
  show ?case
  proof (cases "c = CHR '',''")
    case True
    then obtain vs' where "p_elems hook n (skip_ws cs) = Inr (vs', r)"
      using "4.prems" v1 ws by (auto simp: bindE_eq_Inr)
    from "4.IH"(2) [OF v1 refl ws True this] show ?thesis
      using less skip_ws_length [of cs] by simp
  next
    case False
    then show ?thesis using "4.prems" v1 ws less by (auto split: if_splits)
  qed
next
  case (6 hook n s)
  from "6.prems" obtain qs k r1 where s: "s = dquote # qs" and k: "p_string qs = Some (k, r1)"
    and colon: "skip_ws r1 \<noteq> []" "hd (skip_ws r1) = CHR '':''"
    by (auto split: list.splits option.splits if_splits)
  let ?s' = "skip_ws (tl (skip_ws r1))"
  from "6.prems" s k colon obtain v1 r2 where v1: "p_value hook n ?s' = Inr (v1, r2)"
    by (auto simp: bindE_eq_Inr)
  with "6.prems" s k colon obtain c cs where ws: "skip_ws r2 = c # cs"
    by (cases "skip_ws r2") auto
  have "length r2 < length ?s'" using "6.IH"(1) [OF s _ k refl _ v1] colon by simp
  then have less: "length cs < length s"
    using skip_ws_Cons_shorter [OF ws] skip_ws_length [of "tl (skip_ws r1)"]
      tl_skip_ws_shorter [OF colon(1)] p_string_shorter [OF k] s by simp
  show ?case
  proof (cases "c = CHR '',''")
    case True
    then obtain kvs' where "p_members hook n (skip_ws cs) = Inr (kvs', r)"
      using "6.prems" s k colon v1 ws by (auto simp: bindE_eq_Inr)
    from "6.IH"(2) [OF s _ k refl _ v1 refl ws True this] show ?thesis
      using less skip_ws_length [of cs] colon by simp
  next
    case False
    then show ?thesis using "6.prems" s k colon v1 ws less by (auto split: if_splits)
  qed
qed simp_all

text \<open>
  A nested value uses two units of fuel for at least one character of text, so
  \<open>2 * length s + 2\<close> never runs out: \<open>JSON_Fuel\<close> is no result of \<open>loads\<close>.
\<close>

definition never_fuel :: "pairs_hook \<Rightarrow> bool" where
  "never_fuel hook \<longleftrightarrow> (\<forall>kvs. hook kvs \<noteq> Inl JSON_Fuel)"

lemma p_number_not_fuel: "p_number s \<noteq> Inl JSON_Fuel"
  by (auto simp: p_number_def split: option.splits)

lemma parse_enough_fuel:
  assumes "never_fuel hook"
  shows "2 * length s < n \<Longrightarrow> p_value hook n s \<noteq> Inl JSON_Fuel"
    and "2 * length s + 1 < n \<Longrightarrow> p_elems hook n s \<noteq> Inl JSON_Fuel"
    and "2 * length s + 1 < n \<Longrightarrow> p_members hook n s \<noteq> Inl JSON_Fuel"
proof (induction n arbitrary: s)
  case (Suc n)
  note hook = assms [unfolded never_fuel_def]
  {
    case 1
    show ?case
    proof (cases s)
      case (Cons c cs)
      then have "2 * length (skip_ws cs) + 1 < n" using 1 skip_ws_length [of cs] by simp
      then have "p_elems hook n (skip_ws cs) \<noteq> Inl JSON_Fuel"
        "p_members hook n (skip_ws cs) \<noteq> Inl JSON_Fuel" by (rule Suc.IH)+
      then show ?thesis using Cons hook p_number_not_fuel [of s]
        by (auto simp: bindE_eq_Inl split: option.splits prod.splits if_splits)
    qed simp
  next
    case 2
    then have v: "p_value hook n s \<noteq> Inl JSON_Fuel" by (intro Suc.IH) simp
    have "p_elems hook n (skip_ws cs) \<noteq> Inl JSON_Fuel"
      if "p_value hook n s = Inr (v1, r1)" and "skip_ws r1 = c # cs" for v1 r1 c cs
    proof (rule Suc.IH)
      show "2 * length (skip_ws cs) + 1 < n"
        using 2 parse_shorter(1) [OF that(1)] skip_ws_Cons_shorter [OF that(2)] skip_ws_length [of cs]
        by linarith
    qed
    with v show ?case by (auto simp: bindE_eq_Inl split: list.splits if_splits prod.splits)
  next
    case 3
    show ?case
    proof (rule notI)
      assume fuel: "p_members hook (Suc n) s = Inl JSON_Fuel"
      then obtain qs k r1 where s: "s = dquote # qs" and k: "p_string qs = Some (k, r1)"
        and colon: "skip_ws r1 \<noteq> []" "hd (skip_ws r1) = CHR '':''"
        by (auto split: list.splits option.splits if_splits)
      let ?s' = "skip_ws (tl (skip_ws r1))"
      have less: "length ?s' + 2 < length s"
        using p_string_shorter [OF k] tl_skip_ws_shorter [OF colon(1)] s
          skip_ws_length [of "tl (skip_ws r1)"] by simp
      then have v: "p_value hook n ?s' \<noteq> Inl JSON_Fuel" using 3 by (intro Suc.IH) simp
      then obtain v1 r2 where v1: "p_value hook n ?s' = Inr (v1, r2)"
        using fuel s k colon by (auto simp: bindE_eq_Inl)
      then obtain c cs where ws: "skip_ws r2 = c # cs"
        using fuel s k colon by (cases "skip_ws r2") auto
      have "length (skip_ws cs) < length ?s'"
        using parse_shorter(1) [OF v1] skip_ws_Cons_shorter [OF ws] skip_ws_length [of cs] by linarith
      then have "p_members hook n (skip_ws cs) \<noteq> Inl JSON_Fuel"
        using 3 less by (intro Suc.IH) linarith
      then show False using fuel s k colon v1 ws by (auto simp: bindE_eq_Inl split: if_splits)
    qed
  }
qed simp_all

theorem loads_enough_fuel: "never_fuel hook \<Longrightarrow> loads hook s \<noteq> Inl JSON_Fuel"
  using parse_enough_fuel(1) [of hook "skip_ws s" "2 * length s + 2"] skip_ws_length [of s]
  by (auto simp: loads_def bindE_eq_Inl split: prod.splits if_splits)

end
