(* ===== verification/Utf8.thy ===== *)
theory Utf8
  imports Json_Text
begin

text \<open>
  Well-formed UTF-8 (the byte ranges of RFC 3629), as \<open>bytes.decode("utf-8")\<close> requires, and
  the fact that printing a value whose strings are well formed gives well-formed text.
\<close>

definition byte_in :: "nat \<Rightarrow> nat \<Rightarrow> char \<Rightarrow> bool" where
  "byte_in lo hi c \<longleftrightarrow> lo \<le> char_code c \<and> char_code c \<le> hi"

definition second_ok :: "char \<Rightarrow> char \<Rightarrow> bool" where
  \<comment> \<open>the first continuation byte after a given lead byte\<close>
  "second_ok c d \<longleftrightarrow>
    (if char_code c = 224 then byte_in 160 191 d
     else if char_code c = 237 then byte_in 128 159 d
     else if char_code c = 240 then byte_in 144 191 d
     else if char_code c = 244 then byte_in 128 143 d
     else byte_in 128 191 d)"

fun utf8_valid :: "string \<Rightarrow> bool" where
  "utf8_valid [] = True"
| "utf8_valid (c # cs) =
    (if char_code c < 128 then utf8_valid cs
     else if byte_in 194 223 c then
       (case cs of d # ds \<Rightarrow> second_ok c d \<and> utf8_valid ds | _ \<Rightarrow> False)
     else if byte_in 224 239 c then
       (case cs of d # d2 # ds \<Rightarrow> second_ok c d \<and> byte_in 128 191 d2 \<and> utf8_valid ds | _ \<Rightarrow> False)
     else if byte_in 240 244 c then
       (case cs of d # d2 # d3 # ds \<Rightarrow>
          second_ok c d \<and> byte_in 128 191 d2 \<and> byte_in 128 191 d3 \<and> utf8_valid ds
        | _ \<Rightarrow> False)
     else False)"

lemma utf8_valid_append: "utf8_valid s \<Longrightarrow> utf8_valid (s @ t) = utf8_valid t"
proof (induction s rule: utf8_valid.induct)
  case (2 c cs)
  then show ?case by (auto split: if_splits list.splits)
qed simp

lemma utf8_valid_ascii: "\<forall>c \<in> set s. char_code c < 128 \<Longrightarrow> utf8_valid s"
  by (induction s) auto

text \<open>Escaping touches ASCII characters only.\<close>

lemma escape_char_ascii: "char_code c < 128 \<Longrightarrow> \<forall>d \<in> set (escape_char c). char_code d < 128"
proof -
  have hex: "char_code (hex_digit n) < 128" for n
  proof -
    have "list_all (\<lambda>c. char_code c < 128) ''0123456789abcdef''" by code_simp
    moreover have "hex_digit n \<in> set ''0123456789abcdef''"
      unfolding hex_digit_def by (rule nth_mem) simp
    ultimately show ?thesis unfolding list_all_iff by blast
  qed
  have u: "char_code CHR ''u'' = 117" "char_code CHR ''r'' = 114" "char_code CHR ''b'' = 98"
    by (simp_all add: char_code_def)
  assume "char_code c < 128"
  then show ?thesis by (auto simp: escape_char_def char_code_CHR u hex)
qed

lemma escape_char_id: "128 \<le> char_code c \<Longrightarrow> escape_char c = [c]"
proof -
  have codes: "char_code CHR 0x0C = 12" "char_code CHR 0x08 = 8" by (simp_all add: char_code_def)
  assume "128 \<le> char_code c"
  then have "c \<noteq> dquote \<and> c \<noteq> backslash \<and> c \<noteq> CHR 0x0A \<and> c \<noteq> CHR 0x0D \<and> c \<noteq> CHR 0x09
      \<and> c \<noteq> CHR 0x0C \<and> c \<noteq> CHR 0x08 \<and> \<not> char_code c < 32"
    unfolding char_code_inject [symmetric] by (auto simp: char_code_CHR codes)
  then show ?thesis by (simp add: escape_char_def)
qed

lemma second_ok_high: "second_ok c d \<Longrightarrow> 128 \<le> char_code d"
  by (auto simp: second_ok_def byte_in_def split: if_splits)

lemma escape_continuation:
  "second_ok c d \<Longrightarrow> escape_char d = [d]"
  "byte_in 128 191 d \<Longrightarrow> escape_char d = [d]"
  by (auto simp: byte_in_def intro: escape_char_id second_ok_high)

lemma utf8_valid_escape: "utf8_valid s \<Longrightarrow> utf8_valid (concat (map escape_char s))"
proof (induction s rule: utf8_valid.induct)
  case (2 c cs)
  show ?case
  proof (cases "char_code c < 128")
    case True
    then have "utf8_valid (escape_char c)" by (intro utf8_valid_ascii escape_char_ascii)
    then show ?thesis using 2 True by (simp add: utf8_valid_append)
  next
    case False
    then have "escape_char c = [c]" by (simp add: escape_char_id)
    then show ?thesis using 2 False
      by (auto simp: escape_continuation split: if_splits list.splits)
  qed
qed simp

lemma utf8_valid_quote: "utf8_valid s \<Longrightarrow> utf8_valid (quote s)"
  by (simp add: quote_def char_code_CHR utf8_valid_append utf8_valid_escape)

lemma utf8_valid_nat_str: "utf8_valid (nat_str n)"
  using nat_str_digits [of n] by (intro utf8_valid_ascii) (auto simp: is_digit_def)

lemma utf8_valid_int_str: "utf8_valid (int_str i)"
  by (simp add: int_str_def utf8_valid_nat_str char_code_CHR)

fun utf8_json :: "json \<Rightarrow> bool" where
  "utf8_json (JStr s) = utf8_valid s"
| "utf8_json (JArr vs) = (\<forall>v \<in> set vs. utf8_json v)"
| "utf8_json (JObj kvs) = (\<forall>kv \<in> set kvs. utf8_valid (fst kv) \<and> utf8_json (snd kv))"
| "utf8_json _ = True"

lemma utf8_valid_join:
  "utf8_valid sep \<Longrightarrow> \<forall>s \<in> set ss. utf8_valid s \<Longrightarrow> utf8_valid (join_with sep ss)"
proof (induction sep ss rule: join_with.induct)
  case (3 sep x y ys)
  then show ?case by (simp add: utf8_valid_append)
qed simp_all

lemma utf8_valid_dumps: "plain v \<Longrightarrow> utf8_json v \<Longrightarrow> utf8_valid (dumps v)"
proof (induction v rule: dumps.induct)
  case (6 vs)
  have "utf8_valid (join_with '','' (map dumps vs))"
    using 6 by (intro utf8_valid_join) (auto simp: char_code_CHR)
  then show ?case by (simp add: char_code_CHR utf8_valid_append)
next
  case (7 kvs)
  have "utf8_valid (join_with '','' (map (\<lambda>kv. quote (fst kv) @ '':'' @ dumps (snd kv)) kvs))"
    using 7 by (intro utf8_valid_join) (auto simp: char_code_CHR utf8_valid_append utf8_valid_quote)
  then show ?case by (simp add: char_code_CHR utf8_valid_append)
qed (simp_all add: utf8_valid_int_str utf8_valid_quote utf8_valid_ascii char_code_def)

lemma utf8_json_canon: "utf8_json v \<Longrightarrow> utf8_json (canon v)"
  by (induction v rule: canon.induct) auto

theorem utf8_valid_stable_json: "plain v \<Longrightarrow> utf8_json v \<Longrightarrow> utf8_valid (stable_json v)"
  by (simp add: stable_json_def utf8_valid_dumps plain_canon utf8_json_canon)

end
