(* ===== verification/Budget_Money.thy ===== *)
theory Budget_Money
  imports Complex_Main Json
begin

text \<open>
  Dollars to micro-dollars: \<open>usd_to_microusd\<close> and \<open>usd_to_microusd_ceiling\<close> of \<open>scripts/eval/memory_budget_journal.py\<close>, with the part of
  \<open>decimal.Decimal\<close> they use: the constructor on the text of a value, and multiplication
  under the default context (28 digits, half-even, exponents within 999999), which is where
  an amount of more than 28 significant digits is silently rounded.
\<close>

definition micro_usd_per_usd :: int where
  "micro_usd_per_usd = 1000000"

datatype decimal = Dec int int | Dec_Not_Finite

section \<open>The constructor\<close>

definition dec_ws :: "char \<Rightarrow> bool" where
  "dec_ws c \<longleftrightarrow> is_ws c \<or> c = CHR 0x0B \<or> c = CHR 0x0C"

definition strip :: "(char \<Rightarrow> bool) \<Rightarrow> string \<Rightarrow> string" where
  "strip p s = rev (dropWhile p (rev (dropWhile p s)))"

definition lower_char :: "char \<Rightarrow> char" where
  "lower_char c = (if 65 \<le> char_code c \<and> char_code c \<le> 90 then char_of (char_code c + 32) else c)"

definition dec_special :: "string \<Rightarrow> bool" where
  "dec_special s \<longleftrightarrow>
    s = ''inf'' \<or> s = ''infinity'' \<or>
    (is_prefix ''nan'' s \<and> list_all is_digit (drop 3 s)) \<or>
    (is_prefix ''snan'' s \<and> list_all is_digit (drop 4 s))"

text \<open>digits, optional fraction, optional exponent; at least one digit before the exponent\<close>

definition dec_finite :: "bool \<Rightarrow> string \<Rightarrow> decimal option" where
  "dec_finite neg s =
    (let ip = takeWhile is_digit s; r = dropWhile is_digit s;
         point = (r \<noteq> [] \<and> hd r = CHR ''.'');
         fp = (if point then takeWhile is_digit (tl r) else []);
         r' = (if point then dropWhile is_digit (tl r) else r);
         m = int (nat_of_digits (ip @ fp));
         sm = (if neg then - m else m)
     in if ip = [] \<and> fp = [] then None
        else if r' = [] then Some (Dec sm (- int (length fp)))
        else (case p_exponent r' of
                Some (x, []) \<Rightarrow> Some (Dec sm (x - int (length fp)))
              | _ \<Rightarrow> None))"

definition dec_of_str :: "string \<Rightarrow> decimal option" where
  "dec_of_str s0 =
    (let s = filter (\<lambda>c. c \<noteq> CHR ''_'') (strip dec_ws s0);
         signed = (s \<noteq> [] \<and> (hd s = CHR ''+'' \<or> hd s = CHR ''-''));
         neg = (s \<noteq> [] \<and> hd s = CHR ''-'');
         body = (if signed then tl s else s)
     in if dec_special (map lower_char body) then Some Dec_Not_Finite else dec_finite neg body)"

text \<open>\<open>Decimal(str(value))\<close>; \<open>None\<close> is \<open>decimal.InvalidOperation\<close>.\<close>

fun decimal_of :: "json \<Rightarrow> decimal option" where
  "decimal_of (JInt i) = Some (Dec i 0)"
| "decimal_of (JFloat (FDec m e)) = Some (Dec m e)"
| "decimal_of (JFloat FNegZero) = Some (Dec 0 0)"
| "decimal_of (JFloat _) = Some Dec_Not_Finite"
| "decimal_of (JStr s) = dec_of_str s"
| "decimal_of _ = None"

section \<open>Arithmetic under the default context\<close>

definition dec_prec :: int where "dec_prec = 28"
definition dec_emax :: int where "dec_emax = 999999"
definition dec_etiny :: int where "dec_etiny = - 1000026"

definition dec_digits :: "int \<Rightarrow> int" where
  "dec_digits m = int (length (nat_str (nat m)))"

text \<open>m / 10^k, half to even (m not negative)\<close>

definition round_half_even :: "int \<Rightarrow> nat \<Rightarrow> int" where
  "round_half_even m k =
    (let q = m div 10 ^ k; r = m mod 10 ^ k
     in if 2 * r < 10 ^ k then q else if 10 ^ k < 2 * r then q + 1
        else if even q then q else q + 1)"

text \<open>The rounding of an exact non-negative result to the context.\<close>

definition dec_fix :: "int \<Rightarrow> int \<Rightarrow> (int \<times> int) result" where
  "dec_fix m e =
    (if m = 0 then Inr (0, 0)
     else if dec_emax < dec_digits m + e - 1 then Inl Decimal_Overflow
     else
       (let lo = max (dec_digits m + e - dec_prec) dec_etiny
        in if lo \<le> e then Inr (m, e)
           else
             (let c = round_half_even m (nat (lo - e))
              in if 10 ^ 28 \<le> c \<and> dec_emax < dec_prec + lo then Inl Decimal_Overflow
                 else Inr (c, lo))))"

definition dec_scaled :: "int \<Rightarrow> int \<Rightarrow> (int \<times> int) result" where
  "dec_scaled m e = dec_fix (m * micro_usd_per_usd) e"

definition dec_integral :: "int \<times> int \<Rightarrow> bool" where
  "dec_integral p = (case p of (m, e) \<Rightarrow> 0 \<le> e \<or> m mod 10 ^ nat (- e) = 0)"

definition dec_int :: "int \<times> int \<Rightarrow> int" where
  "dec_int p = (case p of (m, e) \<Rightarrow> if 0 \<le> e then m * 10 ^ nat e else m div 10 ^ nat (- e))"

definition dec_ceiling :: "int \<times> int \<Rightarrow> int" where
  "dec_ceiling p =
    (case p of (m, e) \<Rightarrow> if 0 \<le> e then m * 10 ^ nat e else - ((- m) div 10 ^ nat (- e)))"

section \<open>The conversions\<close>

definition cost_error :: "string \<Rightarrow> py_error" where
  "cost_error m = Validation_Error ''budget cost'' m"

definition usd_to_microusd :: "json \<Rightarrow> int result" where
  "usd_to_microusd v =
    (if is_bool v then Inl (cost_error ''boolean is not a monetary value'')
     else case decimal_of v of
       None \<Rightarrow> Inl (cost_error ''invalid decimal'')
     | Some Dec_Not_Finite \<Rightarrow> Inl (cost_error ''expected a finite non-negative value'')
     | Some (Dec m e) \<Rightarrow>
         if m < 0 then Inl (cost_error ''expected a finite non-negative value'')
         else bindE (dec_scaled m e) (\<lambda>s.
           if \<not> dec_integral s
           then Inl (cost_error ''requires precision no finer than one micro-USD'')
           else Inr (dec_int s)))"

definition usd_to_microusd_ceiling :: "json \<Rightarrow> int result" where
  "usd_to_microusd_ceiling v =
    (if is_bool v then Inl (cost_error ''boolean is not a monetary value'')
     else case decimal_of v of
       None \<Rightarrow> Inl (cost_error ''invalid decimal'')
     | Some Dec_Not_Finite \<Rightarrow> Inl (cost_error ''expected a finite non-negative value'')
     | Some (Dec m e) \<Rightarrow>
         if m < 0 then Inl (cost_error ''expected a finite non-negative value'')
         else bindE (dec_scaled m e) (\<lambda>s. Inr (dec_ceiling s)))"

section \<open>What the conversions compute\<close>

definition dec_rat :: "int \<Rightarrow> int \<Rightarrow> rat" where
  "dec_rat m e = of_int m * 10 powi e"

lemma nat_str_less: "n < 10 ^ length (nat_str n)"
proof (induction n rule: nat_str.induct)
  case (1 n)
  show ?case
  proof (cases "n < 10")
    case True
    then show ?thesis by (subst nat_str.simps) simp
  next
    case False
    then have "n div 10 < 10 ^ length (nat_str (n div 10))" using 1 by simp
    then have "n < 10 * 10 ^ length (nat_str (n div 10))" by (simp add: div_less_iff_less_mult mult.commute)
    then show ?thesis using False by (subst nat_str.simps) simp
  qed
qed

lemma nat_str_length_le: "n < 10 ^ k \<Longrightarrow> 0 < k \<Longrightarrow> length (nat_str n) \<le> k"
proof (induction n arbitrary: k rule: nat_str.induct)
  case (1 n)
  show ?case
  proof (cases "n < 10")
    case True
    then show ?thesis using 1 by (subst nat_str.simps) simp
  next
    case False
    obtain j where k: "k = Suc j" using 1(3) by (cases k) auto
    then have "0 < j" using False 1(2) by (cases j) auto
    note k = k this
    then have "n div 10 < 10 ^ j" using 1(2) by (simp add: div_less_iff_less_mult mult.commute)
    then have "length (nat_str (n div 10)) \<le> j" using 1(1) False k by simp
    then show ?thesis using False k by (subst nat_str.simps) simp
  qed
qed

lemma dec_digits_le: "0 \<le> m \<Longrightarrow> m < 10 ^ k \<Longrightarrow> 0 < k \<Longrightarrow> dec_digits m \<le> int k"
  using nat_str_length_le [of "nat m" k] by (simp add: dec_digits_def nat_less_iff)

lemma round_half_even_exact: "round_half_even (a * 10 ^ k) k = a"
  by (simp add: round_half_even_def)

text \<open>
  Up to 28 significant digits the multiplication is exact: the six zeros it appends absorb
  the rounding.
\<close>

lemma dec_scaled_exact:
  assumes scaled: "dec_scaled m e = Inr (c, x)" and "0 \<le> m" and "m < 10 ^ 28" and "dec_etiny \<le> e"
  shows "dec_rat c x = dec_rat m (e + 6)"
proof (cases "m = 0")
  case True
  then show ?thesis using scaled by (auto simp: dec_scaled_def dec_fix_def dec_rat_def)
next
  case False
  let ?m = "m * micro_usd_per_usd"
  let ?lo = "max (dec_digits ?m + e - dec_prec) dec_etiny"
  have m: "?m = m * 10 ^ 6" by (simp add: micro_usd_per_usd_def)
  have exact: "dec_rat ?m e = dec_rat m (e + 6)"
    by (simp add: dec_rat_def micro_usd_per_usd_def power_int_add)
  have "?m < 10 ^ 34" using assms(3) by (simp add: m)
  then have "dec_digits ?m \<le> 34"
    using dec_digits_le [of ?m 34] assms(2) by (simp add: micro_usd_per_usd_def)
  then have lo: "?lo \<le> e + 6" using assms(4) by (simp add: dec_prec_def)
  show ?thesis
  proof (cases "?lo \<le> e")
    case True
    then have "c = ?m \<and> x = e"
      using scaled False by (auto simp: dec_scaled_def dec_fix_def Let_def micro_usd_per_usd_def split: if_splits)
    then show ?thesis using exact by simp
  next
    case inexact: False
    define k where "k = nat (?lo - e)"
    have "0 \<le> ?lo - e" using inexact by linarith
    then have k: "int k = ?lo - e" by (simp add: k_def)
    then have "k \<le> 6" using lo by linarith
    note k = this k
    have "?m = (m * 10 ^ (6 - k)) * 10 ^ k"
      using k(1) by (simp add: m mult.assoc flip: power_add)
    then have "round_half_even ?m k = m * 10 ^ (6 - k)" by (metis round_half_even_exact)
    then have cx: "c = m * 10 ^ (6 - k)" "x = e + int k"
      using scaled False inexact k
      by (auto simp: dec_scaled_def dec_fix_def Let_def micro_usd_per_usd_def k_def split: if_splits)
    have "(10 :: rat) ^ (6 - k) * 10 powi (e + int k) = 10 powi (e + 6)"
    proof -
      have "(10 :: rat) ^ (6 - k) = 10 powi int (6 - k)" by (simp only: power_int_of_nat)
      moreover have "int (6 - k) + (e + int k) = e + 6" using k(1) by simp
      moreover have "(10 :: rat) powi (int (6 - k) + (e + int k)) = 10 powi int (6 - k) * 10 powi (e + int k)"
        by (rule power_int_add) simp
      ultimately show ?thesis by (simp only:)
    qed
    then show ?thesis by (simp add: dec_rat_def cx mult.assoc)
  qed
qed

lemma powi_neg_nat: "x < 0 \<Longrightarrow> (10 :: rat) powi x = 1 / 10 ^ nat (- x)"
  by (simp add: power_int_def power_one_over inverse_eq_divide)

lemma dec_int_rat: "dec_integral (c, x) \<Longrightarrow> of_int (dec_int (c, x)) = dec_rat c x"
proof (cases "0 \<le> x")
  case True
  then show ?thesis by (simp add: dec_int_def dec_rat_def power_int_def)
next
  case False
  assume "dec_integral (c, x)"
  with False have "c = (c div 10 ^ nat (- x)) * 10 ^ nat (- x)"
    by (auto simp: dec_integral_def)
  then have "(of_int c :: rat) = of_int (c div 10 ^ nat (- x)) * 10 ^ nat (- x)"
    by (metis of_int_mult of_int_numeral of_int_power)
  with False show ?thesis by (simp add: dec_int_def dec_rat_def powi_neg_nat)
qed

lemma dec_ceiling_rat: "dec_ceiling (c, x) = \<lceil>dec_rat c x\<rceil>"
proof (cases "0 \<le> x")
  case True
  then have "dec_rat c x = of_int (c * 10 ^ nat x)" by (simp add: dec_rat_def power_int_def)
  then have "\<lceil>dec_rat c x\<rceil> = c * 10 ^ nat x" by (simp only: ceiling_of_int)
  with True show ?thesis by (simp add: dec_ceiling_def)
next
  case False
  then have "dec_rat c x = of_int c / of_int (10 ^ nat (- x))"
    by (simp add: dec_rat_def powi_neg_nat)
  then have "\<lceil>dec_rat c x\<rceil> = - ((- c) div 10 ^ nat (- x))" by (simp only: ceiling_divide_eq_div)
  with False show ?thesis by (simp add: dec_ceiling_def)
qed

end
