(* ===== verification/Budget_Records.thy ===== *)
theory Budget_Records
  imports Sha256 Utf8 Budget_Money
begin

text \<open>
  The records of \<open>scripts/eval/memory_budget_journal.py\<close> and their validation: the authority
  a journal is opened with, the identity of a transaction, and the schema checks that read
  both out of a JSON document. A validated identity is a HOL record here where the code
  passes the checked dictionary on; \<open>authority_json\<close> and \<open>identity_json\<close> give the dictionary back.
\<close>

definition journal_schema_version :: int where "journal_schema_version = 1"
definition zero_head_sha256 :: string where "zero_head_sha256 = replicate 64 (CHR ''0'')"
definition max_journal_bytes :: nat where "max_journal_bytes = 8 * 1024 * 1024"
definition max_user_authority_usd :: int where "max_user_authority_usd = 2000"
definition max_user_authority_microusd :: int where
  "max_user_authority_microusd = max_user_authority_usd * micro_usd_per_usd"

section \<open>Field checks\<close>

fun is_hash :: "json \<Rightarrow> bool" where
  "is_hash (JStr s) = is_hash_str s"
| "is_hash _ = False"

definition require_hash :: "json \<Rightarrow> string \<Rightarrow> string result" where
  "require_hash v w =
    (case v of
       JStr s \<Rightarrow> if is_hash_str s then Inr s else fail w ''expected lowercase SHA-256 hex''
     | _ \<Rightarrow> fail w ''expected lowercase SHA-256 hex'')"

definition require_text :: "json \<Rightarrow> string \<Rightarrow> nat \<Rightarrow> string result" where
  "require_text v w maximum =
    (case v of
       JStr s \<Rightarrow>
         if s = [] \<or> maximum < length s then fail w ''expected non-empty UTF-8 text'' else Inr s
     | _ \<Rightarrow> fail w ''expected non-empty UTF-8 text'')"

definition require_integer :: "json \<Rightarrow> string \<Rightarrow> int \<Rightarrow> int result" where
  "require_integer v w minimum =
    (case int_value v of
       Some i \<Rightarrow> if i < minimum then fail w ''expected integer'' else Inr i
     | None \<Rightarrow> fail w ''expected integer'')"

definition exact_object :: "json \<Rightarrow> string \<Rightarrow> string list \<Rightarrow> json_object result" where
  "exact_object v w ks =
    (case v of
       JObj kvs \<Rightarrow>
         if set (keys kvs) \<noteq> set ks then fail w ''field mismatch'' else Inr kvs
     | _ \<Rightarrow> fail w ''expected an object'')"

section \<open>The authority\<close>

record budget_authority =
  auth_manifest_sha256 :: string
  auth_model_fingerprint :: string
  auth_provider_identity :: string
  total_cost_microusd :: int
  total_metered_tokens :: int

definition validate_authority :: "budget_authority \<Rightarrow> unit result" where
  "validate_authority a =
    bindE (require_hash (JStr (auth_manifest_sha256 a)) ''budget authority.manifest_sha256'') (\<lambda>_.
    bindE (require_hash (JStr (auth_model_fingerprint a)) ''budget authority.model_fingerprint'') (\<lambda>_.
    bindE (require_text (JStr (auth_provider_identity a)) ''budget authority.provider_identity'' 256) (\<lambda>_.
    bindE (require_integer (JInt (total_cost_microusd a)) ''budget authority.total_cost_microusd'' 1) (\<lambda>_.
    bindE (require_integer (JInt (total_metered_tokens a)) ''budget authority.total_metered_tokens'' 1) (\<lambda>_.
    if max_user_authority_microusd < total_cost_microusd a
    then fail ''budget authority.total_cost_microusd'' ''must not exceed the user authority''
    else Inr ())))))"

definition authority_json :: "budget_authority \<Rightarrow> json" where
  "authority_json a = JObj
    [(''manifest_sha256'', JStr (auth_manifest_sha256 a)),
     (''model_fingerprint'', JStr (auth_model_fingerprint a)),
     (''provider_identity'', JStr (auth_provider_identity a)),
     (''total_cost_microusd'', JInt (total_cost_microusd a)),
     (''total_metered_tokens'', JInt (total_metered_tokens a))]"

definition authority_record :: "budget_authority \<Rightarrow> json result" where
  "authority_record a = bindE (validate_authority a) (\<lambda>_. Inr (authority_json a))"

definition validate_authority_record :: "json \<Rightarrow> string \<Rightarrow> budget_authority result" where
  "validate_authority_record v w =
    bindE (exact_object v w
      [''manifest_sha256'', ''model_fingerprint'', ''provider_identity'',
       ''total_cost_microusd'', ''total_metered_tokens'']) (\<lambda>r.
    bindE (require_hash (field r ''manifest_sha256'') (w @ ''.manifest_sha256'')) (\<lambda>m.
    bindE (require_hash (field r ''model_fingerprint'') (w @ ''.model_fingerprint'')) (\<lambda>f.
    bindE (require_text (field r ''provider_identity'') (w @ ''.provider_identity'') 256) (\<lambda>p.
    bindE (require_integer (field r ''total_cost_microusd'') (w @ ''.total_cost_microusd'') 1) (\<lambda>c.
    bindE (require_integer (field r ''total_metered_tokens'') (w @ ''.total_metered_tokens'') 1) (\<lambda>t.
    let a = \<lparr>auth_manifest_sha256 = m, auth_model_fingerprint = f, auth_provider_identity = p,
             total_cost_microusd = c, total_metered_tokens = t\<rparr>
    in bindE (validate_authority a) (\<lambda>_. Inr a)))))))"

section \<open>The identity of a transaction\<close>

record budget_transaction =
  run_id :: string
  manifest_sha256 :: string
  model_fingerprint :: string
  harness_fingerprint :: string
  provider_identity :: string
  max_cost_microusd :: int
  max_metered_tokens :: int

definition validate_transaction :: "budget_transaction \<Rightarrow> unit result" where
  "validate_transaction t =
    bindE (require_text (JStr (run_id t)) ''budget transaction.run_id'' 1024) (\<lambda>_.
    bindE (require_hash (JStr (manifest_sha256 t)) ''budget transaction.manifest_sha256'') (\<lambda>_.
    bindE (require_hash (JStr (model_fingerprint t)) ''budget transaction.model_fingerprint'') (\<lambda>_.
    bindE (require_hash (JStr (harness_fingerprint t)) ''budget transaction.harness_fingerprint'') (\<lambda>_.
    bindE (require_text (JStr (provider_identity t)) ''budget transaction.provider_identity'' 256) (\<lambda>_.
    bindE (require_integer (JInt (max_cost_microusd t)) ''budget transaction.max_cost_microusd'' 1) (\<lambda>_.
    bindE (require_integer (JInt (max_metered_tokens t)) ''budget transaction.max_metered_tokens'' 1) (\<lambda>_.
    Inr ())))))))"

definition identity_json :: "budget_transaction \<Rightarrow> json" where
  "identity_json t = JObj
    [(''run_id'', JStr (run_id t)),
     (''manifest_sha256'', JStr (manifest_sha256 t)),
     (''model_fingerprint'', JStr (model_fingerprint t)),
     (''harness_fingerprint'', JStr (harness_fingerprint t)),
     (''provider_identity'', JStr (provider_identity t)),
     (''max_cost_microusd'', JInt (max_cost_microusd t)),
     (''max_metered_tokens'', JInt (max_metered_tokens t))]"

definition transaction_record :: "budget_transaction \<Rightarrow> json result" where
  "transaction_record t = bindE (validate_transaction t) (\<lambda>_. Inr (identity_json t))"

definition validate_identity_record :: "json \<Rightarrow> string \<Rightarrow> budget_transaction result" where
  "validate_identity_record v w =
    bindE (exact_object v w
      [''run_id'', ''manifest_sha256'', ''model_fingerprint'', ''harness_fingerprint'',
       ''provider_identity'', ''max_cost_microusd'', ''max_metered_tokens'']) (\<lambda>r.
    bindE (require_text (field r ''run_id'') (w @ ''.run_id'') 1024) (\<lambda>i.
    bindE (require_hash (field r ''manifest_sha256'') (w @ ''.manifest_sha256'')) (\<lambda>m.
    bindE (require_hash (field r ''model_fingerprint'') (w @ ''.model_fingerprint'')) (\<lambda>f.
    bindE (require_hash (field r ''harness_fingerprint'') (w @ ''.harness_fingerprint'')) (\<lambda>h.
    bindE (require_text (field r ''provider_identity'') (w @ ''.provider_identity'') 256) (\<lambda>p.
    bindE (require_integer (field r ''max_cost_microusd'') (w @ ''.max_cost_microusd'') 1) (\<lambda>c.
    bindE (require_integer (field r ''max_metered_tokens'') (w @ ''.max_metered_tokens'') 1) (\<lambda>k.
    let t = \<lparr>run_id = i, manifest_sha256 = m, model_fingerprint = f, harness_fingerprint = h,
             provider_identity = p, max_cost_microusd = c, max_metered_tokens = k\<rparr>
    in bindE (validate_transaction t) (\<lambda>_. Inr t)))))))))"

section \<open>Reading a payload\<close>

text \<open>\<open>_unique_json\<close>: a UTF-8 JSON object in which no object repeats a key.\<close>

fun first_duplicate :: "string list \<Rightarrow> string list \<Rightarrow> string option" where
  "first_duplicate seen [] = None"
| "first_duplicate seen (k # ks) =
    (if k \<in> set seen then Some k else first_duplicate (k # seen) ks)"

definition unique_hook :: pairs_hook where
  "unique_hook kvs =
    (case first_duplicate [] (keys kvs) of None \<Rightarrow> Inr (JObj kvs) | Some k \<Rightarrow> Inl (JSON_Duplicate k))"

definition unique_json :: "string \<Rightarrow> string \<Rightarrow> json result" where
  "unique_json payload w =
    (if \<not> utf8_valid payload then fail w ''invalid JSON''
     else case loads unique_hook payload of
       Inl (JSON_Duplicate k) \<Rightarrow> fail w ''duplicate field''
     | Inl _ \<Rightarrow> fail w ''invalid JSON''
     | Inr v \<Rightarrow> if is_dict v then Inr v else fail w ''expected a JSON object'')"

section \<open>Lemmas\<close>

lemma is_hash_iff: "is_hash v \<longleftrightarrow> (\<exists>s. v = JStr s \<and> is_hash_str s)"
  by (cases v) auto

lemma require_hash_Inr [check_simps]: "require_hash v w = Inr s \<longleftrightarrow> v = JStr s \<and> is_hash_str s"
  by (auto simp: require_hash_def split: json.splits)

lemma require_text_Inr [check_simps]:
  "require_text v w n = Inr s \<longleftrightarrow> v = JStr s \<and> s \<noteq> [] \<and> length s \<le> n"
  by (auto simp: require_text_def split: json.splits)

lemma require_integer_Inr [check_simps]:
  "require_integer v w n = Inr i \<longleftrightarrow> v = JInt i \<and> n \<le> i"
  by (cases v) (auto simp: require_integer_def)

lemma exact_object_Inr [check_simps]:
  "exact_object v w ks = Inr kvs \<longleftrightarrow> v = JObj kvs \<and> set (keys kvs) = set ks"
  by (auto simp: exact_object_def split: json.splits)

definition authority_ok :: "budget_authority \<Rightarrow> bool" where
  "authority_ok a \<longleftrightarrow>
    is_hash_str (auth_manifest_sha256 a) \<and> is_hash_str (auth_model_fingerprint a) \<and>
    auth_provider_identity a \<noteq> [] \<and> length (auth_provider_identity a) \<le> 256 \<and>
    1 \<le> total_cost_microusd a \<and> total_cost_microusd a \<le> max_user_authority_microusd \<and>
    1 \<le> total_metered_tokens a"

definition identity_ok :: "budget_transaction \<Rightarrow> bool" where
  "identity_ok t \<longleftrightarrow>
    run_id t \<noteq> [] \<and> length (run_id t) \<le> 1024 \<and>
    is_hash_str (manifest_sha256 t) \<and> is_hash_str (model_fingerprint t) \<and>
    is_hash_str (harness_fingerprint t) \<and>
    provider_identity t \<noteq> [] \<and> length (provider_identity t) \<le> 256 \<and>
    1 \<le> max_cost_microusd t \<and> 1 \<le> max_metered_tokens t"

lemma validate_authority_Inr [check_simps]: "validate_authority a = Inr u \<longleftrightarrow> authority_ok a"
  by (auto simp: validate_authority_def authority_ok_def result_simps check_simps)

lemma validate_transaction_Inr [check_simps]: "validate_transaction t = Inr u \<longleftrightarrow> identity_ok t"
  by (auto simp: validate_transaction_def identity_ok_def result_simps check_simps)

lemma authority_json_keys:
  "\<exists>kvs. authority_json a = JObj kvs \<and> set (keys kvs) =
     {''manifest_sha256'', ''model_fingerprint'', ''provider_identity'',
      ''total_cost_microusd'', ''total_metered_tokens''}"
  by (simp add: authority_json_def)

text \<open>Reading back what \<open>record()\<close> wrote.\<close>

lemma validate_authority_json: "authority_ok a \<Longrightarrow> validate_authority_record (authority_json a) w = Inr a"
  by (simp add: validate_authority_record_def authority_json_def result_simps check_simps
      dict_get_none_def authority_ok_def Let_def)

lemma validate_identity_json: "identity_ok t \<Longrightarrow> validate_identity_record (identity_json t) w = Inr t"
  by (simp add: validate_identity_record_def identity_json_def result_simps check_simps
      dict_get_none_def identity_ok_def Let_def)

text \<open>The path in a message does not decide whether a record is accepted.\<close>

lemma validate_identity_where:
  "validate_identity_record v w = Inr t \<longleftrightarrow> validate_identity_record v w' = Inr t"
  unfolding validate_identity_record_def
  by (simp only: bindE_eq_Inr check_simps Let_def)

lemma validate_identity_ok: "validate_identity_record v w = Inr t \<Longrightarrow> identity_ok t"
  by (auto simp: validate_identity_record_def result_simps check_simps Let_def)

lemma validate_authority_ok: "validate_authority_record v w = Inr a \<Longrightarrow> authority_ok a"
  by (auto simp: validate_authority_record_def result_simps check_simps Let_def)

subsection \<open>Key order does not matter\<close>

lemma require_canon [simp]:
  "require_hash (canon v) w = require_hash v w"
  "require_text (canon v) w n = require_text v w n"
  "require_integer (canon v) w i = require_integer v w i"
  by (cases v; simp add: require_hash_def require_text_def require_integer_def)+

lemma exact_object_canon:
  "exact_object (canon v) w ks = bindE (exact_object v w ks) (\<lambda>kvs. Inr (canon_object kvs))"
  by (cases v) (simp_all add: exact_object_def image_image)

lemma exact_object_plain:
  assumes "plain v" and "exact_object v w ks = Inr kvs"
  shows "dict_get_none (canon_object kvs) k = canon (dict_get_none kvs k)"
  using assms by (intro dict_get_none_canon) (simp add: exact_object_Inr)

lemma validate_identity_canon:
  assumes "plain v"
  shows "validate_identity_record (canon v) w = validate_identity_record v w"
  unfolding validate_identity_record_def exact_object_canon bindE_assoc bindE_Inr
  by (rule bindE_cong [OF refl]) (simp only: exact_object_plain [OF assms] require_canon)

lemma validate_authority_canon:
  assumes "plain v"
  shows "validate_authority_record (canon v) w = validate_authority_record v w"
  unfolding validate_authority_record_def exact_object_canon bindE_assoc bindE_Inr
  by (rule bindE_cong [OF refl]) (simp only: exact_object_plain [OF assms] require_canon)

text \<open>A dictionary is determined by its keys and what they map to.\<close>

lemma sort_key_fst_unique:
  assumes "distinct (keys xs)" and "distinct (keys ys)" and "map_of xs = map_of ys"
  shows "sort_key fst xs = sort_key fst (ys :: (string \<times> 'v) list)"
proof -
  have "set xs = set ys" using assms by (simp add: map_of_inject_set)
  moreover have "distinct xs" "distinct ys" using assms(1,2) by (simp_all add: distinct_map)
  ultimately have "mset xs = mset ys" by (simp add: set_eq_iff_mset_eq_distinct)
  moreover have "inj_on fst (set xs)" using assms(1) by (simp add: distinct_map)
  ultimately show ?thesis by (intro sort_key_eq_sort_key)
qed

lemma canon_object_eq:
  assumes "distinct (keys xs)" and "distinct (keys ys)" and "map_of xs = map_of ys"
  shows "canon (JObj xs) = canon (JObj ys)"
proof -
  have "canon_object xs = canon_object ys"
    using assms by (intro sort_key_fst_unique) (simp_all add: comp_def map_of_map_snd fun_eq_iff)
  then show ?thesis by simp
qed

lemma dict_get_none_Some: "dict_get_none kvs k = v \<Longrightarrow> v \<noteq> JNull \<Longrightarrow> map_of kvs k = Some v"
  by (auto simp: dict_get_none_def split: option.splits)

lemma map_of_outside: "k \<notin> set (keys kvs) \<Longrightarrow> map_of kvs k = None"
  by (simp add: map_of_eq_None_iff)

text \<open>
  The dictionary the code hashes and the one rebuilt from the record are the same JSON text.
\<close>

lemma identity_canon:
  assumes "plain v" and "validate_identity_record v w = Inr t"
  shows "canon v = canon (identity_json t)"
proof -
  obtain kvs where v: "v = JObj kvs"
    and ks: "set (keys kvs) = set [''run_id'', ''manifest_sha256'', ''model_fingerprint'',
      ''harness_fingerprint'', ''provider_identity'', ''max_cost_microusd'', ''max_metered_tokens'']"
    and vals: "field kvs ''run_id'' = JStr (run_id t)"
      "field kvs ''manifest_sha256'' = JStr (manifest_sha256 t)"
      "field kvs ''model_fingerprint'' = JStr (model_fingerprint t)"
      "field kvs ''harness_fingerprint'' = JStr (harness_fingerprint t)"
      "field kvs ''provider_identity'' = JStr (provider_identity t)"
      "field kvs ''max_cost_microusd'' = JInt (max_cost_microusd t)"
      "field kvs ''max_metered_tokens'' = JInt (max_metered_tokens t)"
    using assms(2)
    unfolding validate_identity_record_def
    by (auto simp only: result_simps check_simps Let_def sum.inject budget_transaction.simps)
  define ivs where "ivs = (case identity_json t of JObj xs \<Rightarrow> xs | _ \<Rightarrow> [])"
  then have i: "identity_json t = JObj ivs" and iks: "set (keys ivs) = set (keys kvs)"
    and idist: "distinct (keys ivs)"
    unfolding ks by (simp_all add: identity_json_def)
  have kget:
    "map_of kvs ''run_id'' = Some (JStr (run_id t))"
    "map_of kvs ''manifest_sha256'' = Some (JStr (manifest_sha256 t))"
    "map_of kvs ''model_fingerprint'' = Some (JStr (model_fingerprint t))"
    "map_of kvs ''harness_fingerprint'' = Some (JStr (harness_fingerprint t))"
    "map_of kvs ''provider_identity'' = Some (JStr (provider_identity t))"
    "map_of kvs ''max_cost_microusd'' = Some (JInt (max_cost_microusd t))"
    "map_of kvs ''max_metered_tokens'' = Some (JInt (max_metered_tokens t))"
    by (rule dict_get_none_Some, rule vals, simp)+
  have iget:
    "map_of ivs ''run_id'' = Some (JStr (run_id t))"
    "map_of ivs ''manifest_sha256'' = Some (JStr (manifest_sha256 t))"
    "map_of ivs ''model_fingerprint'' = Some (JStr (model_fingerprint t))"
    "map_of ivs ''harness_fingerprint'' = Some (JStr (harness_fingerprint t))"
    "map_of ivs ''provider_identity'' = Some (JStr (provider_identity t))"
    "map_of ivs ''max_cost_microusd'' = Some (JInt (max_cost_microusd t))"
    "map_of ivs ''max_metered_tokens'' = Some (JInt (max_metered_tokens t))"
    by (simp_all add: ivs_def identity_json_def)
  have "map_of kvs k = map_of ivs k" for k
  proof (cases "k \<in> set (keys kvs)")
    case True
    then consider "k = ''run_id''" | "k = ''manifest_sha256''" | "k = ''model_fingerprint''"
      | "k = ''harness_fingerprint''" | "k = ''provider_identity''" | "k = ''max_cost_microusd''"
      | "k = ''max_metered_tokens''"
      by (simp only: ks list.set insert_iff empty_iff) satx
    then show ?thesis by cases (simp_all only: kget iget)
  next
    case False
    then show ?thesis using iks by (metis map_of_outside)
  qed
  then have same: "map_of kvs = map_of ivs" by blast
  have "distinct (keys kvs)" using assms(1) v by simp
  then show ?thesis unfolding v i by (rule canon_object_eq [OF _ idist same])
qed

corollary identity_sha256:
  "plain v \<Longrightarrow> validate_identity_record v w = Inr t \<Longrightarrow>
   canonical_sha256 v = canonical_sha256 (identity_json t)"
  by (simp add: canonical_sha256_def stable_json_def identity_canon)

end
