(* ===== verification/Budget_Replay.thy ===== *)
theory Budget_Replay
  imports Budget_Records
begin

text \<open>
  The replay of a journal document, \<open>_replay_document\<close> of
  \<open>scripts/eval/memory_budget_journal.py\<close>: every event is checked against the hash chain and
  moves one transaction through its states, and the exposure of all transactions is checked
  against the authority after each event. The loop body is \<open>replay_event\<close>, one definition per
  branch of the action, so that each branch has the checks of the source in their order.
\<close>

section \<open>Replayed state\<close>

datatype txn_state = Reserved | Request_Authorized | Committed | Aborted_Pre_Request

fun state_name :: "txn_state \<Rightarrow> string" where
  "state_name Reserved = ''reserved''"
| "state_name Request_Authorized = ''request_authorized''"
| "state_name Committed = ''committed''"
| "state_name Aborted_Pre_Request = ''aborted_pre_request''"

record resume_event =
  re_revision :: int
  re_head_sha256 :: string
  re_trials :: "string list"
  re_evidence_sha256 :: string
  re_failure_receipt_sha256 :: string

record transaction =
  transaction_id :: string
  identity :: budget_transaction
  identity_sha256 :: string
  txn_state :: txn_state
  reservation_revision :: int
  reservation_head_sha256 :: string
  authorization_revision :: "int option"
  authorization_head_sha256 :: "string option"
  commit_revision :: "int option"
  commit_head_sha256 :: "string option"
  actual_cost_microusd :: "int option"
  actual_metered_tokens :: "int option"
  evidence_sha256 :: "string option"
  resume_events :: "resume_event list"

type_synonym transactions = "(string \<times> transaction) list"

record journal_state =
  js_journal_id :: string
  js_authority :: budget_authority
  js_revision :: int
  js_head_sha256 :: string
  js_transactions :: transactions

section \<open>Identifiers\<close>

definition journal_id_of :: "budget_authority \<Rightarrow> string" where
  "journal_id_of a = canonical_sha256 (JObj
     [(''schema_version'', JInt journal_schema_version), (''authority'', authority_json a)])"

definition transaction_id_of :: "string \<Rightarrow> int \<Rightarrow> budget_transaction \<Rightarrow> string" where
  "transaction_id_of jid revn ident = canonical_sha256 (JObj
     [(''journal_id'', JStr jid), (''reservation_revision'', JInt revn),
      (''identity'', identity_json ident)])"

definition initial_document :: "budget_authority \<Rightarrow> json result" where
  "initial_document a =
    bindE (authority_record a) (\<lambda>r. Inr (JObj
      [(''schema_version'', JInt journal_schema_version),
       (''journal_id'', JStr (journal_id_of a)),
       (''authority'', r),
       (''revision'', JInt 0),
       (''head_sha256'', JStr zero_head_sha256),
       (''events'', JArr [])]))"

section \<open>Exposure\<close>

definition exposure_of :: "int option \<Rightarrow> int \<Rightarrow> txn_state \<Rightarrow> int" where
  \<comment> \<open>what a transaction counts for: its actual usage once settled, its maximum before\<close>
  "exposure_of actual maximum s =
    (case s of
       Committed \<Rightarrow> (case actual of Some x \<Rightarrow> x | None \<Rightarrow> 0)
     | Reserved \<Rightarrow> maximum
     | Request_Authorized \<Rightarrow> maximum
     | Aborted_Pre_Request \<Rightarrow> 0)"

definition cost_exposure :: "transaction \<Rightarrow> int" where
  "cost_exposure t = exposure_of (actual_cost_microusd t) (max_cost_microusd (identity t)) (txn_state t)"

definition token_exposure :: "transaction \<Rightarrow> int" where
  "token_exposure t =
     exposure_of (actual_metered_tokens t) (max_metered_tokens (identity t)) (txn_state t)"

definition exposure_cost :: "transactions \<Rightarrow> int" where
  "exposure_cost txns = sum_list (map (cost_exposure \<circ> snd) txns)"

definition exposure_tokens :: "transactions \<Rightarrow> int" where
  "exposure_tokens txns = sum_list (map (token_exposure \<circ> snd) txns)"

definition check_exposure :: "budget_authority \<Rightarrow> string \<Rightarrow> transactions \<Rightarrow> unit result" where
  "check_exposure a w txns =
    (if total_cost_microusd a < exposure_cost txns then fail w ''cost exposure exceeds authority''
     else if total_metered_tokens a < exposure_tokens txns
     then fail w ''token exposure exceeds authority''
     else Inr ())"

section \<open>The branches of the action\<close>

datatype action =
  Act_Reserved | Act_Request_Authorized | Act_Committed | Act_Aborted | Act_Trial_Resume

fun action_name :: "action \<Rightarrow> string" where
  "action_name Act_Reserved = ''reserved''"
| "action_name Act_Request_Authorized = ''request_authorized''"
| "action_name Act_Committed = ''committed''"
| "action_name Act_Aborted = ''aborted_pre_request''"
| "action_name Act_Trial_Resume = ''trial_resume_authorized''"

definition action_of :: "json \<Rightarrow> string \<Rightarrow> action result" where
  \<comment> \<open>\<open>action not in {...}\<close>: a list or a dictionary is not hashable\<close>
  "action_of v w =
    (if \<not> hashable v then Inl (Type_Error ''unhashable type'')
     else if v = JStr ''reserved'' then Inr Act_Reserved
     else if v = JStr ''request_authorized'' then Inr Act_Request_Authorized
     else if v = JStr ''committed'' then Inr Act_Committed
     else if v = JStr ''aborted_pre_request'' then Inr Act_Aborted
     else if v = JStr ''trial_resume_authorized'' then Inr Act_Trial_Resume
     else fail (w @ ''.action'') ''unsupported transition'')"

definition new_transaction :: "string \<Rightarrow> budget_transaction \<Rightarrow> int \<Rightarrow> string \<Rightarrow> transaction" where
  "new_transaction tid ident i head =
    \<lparr>transaction_id = tid, identity = ident,
     identity_sha256 = canonical_sha256 (identity_json ident), txn_state = Reserved,
     reservation_revision = i, reservation_head_sha256 = head,
     authorization_revision = None, authorization_head_sha256 = None,
     commit_revision = None, commit_head_sha256 = None,
     actual_cost_microusd = None, actual_metered_tokens = None,
     evidence_sha256 = None, resume_events = []\<rparr>"

definition run_is_live :: "string \<Rightarrow> transactions \<Rightarrow> bool" where
  "run_is_live r txns \<longleftrightarrow>
    list_ex (\<lambda>(_, t). run_id (identity t) = r \<and> txn_state t \<noteq> Aborted_Pre_Request) txns"

definition apply_reserved ::
  "string \<Rightarrow> string \<Rightarrow> int \<Rightarrow> string \<Rightarrow> string \<Rightarrow> budget_transaction \<Rightarrow> json \<Rightarrow> json \<Rightarrow>
   transactions \<Rightarrow> transactions result" where
  "apply_reserved jid w i head tid ident cost tokens txns =
    (if map_of txns tid \<noteq> None then fail w ''transaction was reserved more than once''
     else if run_is_live (run_id ident) txns
     then fail w ''run id already has a non-aborted transaction''
     else if tid \<noteq> transaction_id_of jid i ident
     then fail (w @ ''.transaction_id'') ''does not bind identity and revision''
     else if cost \<noteq> JNull \<or> tokens \<noteq> JNull
     then fail w ''reservation cannot contain actual usage''
     else Inr (AList.update tid (new_transaction tid ident i head) txns))"

definition apply_authorized ::
  "string \<Rightarrow> int \<Rightarrow> string \<Rightarrow> json \<Rightarrow> json \<Rightarrow> transaction \<Rightarrow> transaction result" where
  "apply_authorized w i head cost tokens t =
    (if txn_state t \<noteq> Reserved then fail w ''authorization requires reserved state''
     else if cost \<noteq> JNull \<or> tokens \<noteq> JNull
     then fail w ''authorization cannot contain actual usage''
     else Inr (t\<lparr>txn_state := Request_Authorized, authorization_revision := Some i,
                authorization_head_sha256 := Some head\<rparr>))"

definition apply_aborted :: "string \<Rightarrow> json \<Rightarrow> json \<Rightarrow> transaction \<Rightarrow> transaction result" where
  "apply_aborted w cost tokens t =
    (if txn_state t \<noteq> Reserved then fail w ''pre-request abort requires reserved state''
     else if cost \<noteq> JNull \<or> tokens \<noteq> JNull
     then fail w ''pre-request abort cannot contain actual usage''
     else Inr (t\<lparr>txn_state := Aborted_Pre_Request\<rparr>))"

fun trial_name :: "json \<Rightarrow> string option" where
  "trial_name (JStr s) = (if 0 < str_len s \<and> str_len s \<le> 200 then Some s else None)"
| "trial_name _ = None"

definition resume_trials :: "json \<Rightarrow> int \<Rightarrow> string list option" where
  \<comment> \<open>the payload checks of a trial resume; the trials it names\<close>
  "resume_trials v n =
    (case v of
       JObj kvs \<Rightarrow>
         if set (keys kvs) \<noteq> {''trials'', ''attempt'', ''evidence_sha256'', ''failure_receipt_sha256''}
         then None
         else (case field kvs ''trials'' of
           JArr ts \<Rightarrow>
             if ts = [] \<or> 3 < length ts then None
             else (case those (map trial_name ts) of
               None \<Rightarrow> None
             | Some names \<Rightarrow>
                 if \<not> distinct names \<or> \<not> py_eq (field kvs ''attempt'') (JInt (n + 2)) then None
                 else Some names)
         | _ \<Rightarrow> None)
     | _ \<Rightarrow> None)"

definition apply_resume ::
  "string \<Rightarrow> int \<Rightarrow> string \<Rightarrow> json \<Rightarrow> json \<Rightarrow> json \<Rightarrow> transaction \<Rightarrow> transaction result" where
  "apply_resume w i head resume cost tokens t =
    (if txn_state t \<noteq> Request_Authorized
     then fail w ''trial resume requires request_authorized state''
     else if cost \<noteq> JNull \<or> tokens \<noteq> JNull
     then fail w ''trial resume cannot contain actual usage''
     else case resume_trials resume (int (length (resume_events t))) of
       None \<Rightarrow> fail w ''trial resume payload is invalid''
     | Some names \<Rightarrow>
         (case resume of
            JObj kvs \<Rightarrow>
              bindE (require_hash (field kvs ''evidence_sha256'') (w @ ''.resume.evidence_sha256'')) (\<lambda>ev.
              bindE (require_hash (field kvs ''failure_receipt_sha256'')
                (w @ ''.resume.failure_receipt_sha256'')) (\<lambda>fr.
              if 1 \<le> length (resume_events t) then fail w ''trial resume budget is exhausted''
              else Inr (t\<lparr>resume_events := resume_events t @
                [\<lparr>re_revision = i, re_head_sha256 = head, re_trials = names,
                  re_evidence_sha256 = ev, re_failure_receipt_sha256 = fr\<rparr>]\<rparr>)))
          | _ \<Rightarrow> fail w ''trial resume payload is invalid''))"

definition apply_committed ::
  "string \<Rightarrow> int \<Rightarrow> string \<Rightarrow> json \<Rightarrow> json \<Rightarrow> json \<Rightarrow> transaction \<Rightarrow> transaction result" where
  "apply_committed w i head evidence cost tokens t =
    (if txn_state t \<noteq> Request_Authorized
     then fail w ''commit requires request_authorized state''
     else
       bindE (require_integer cost (w @ ''.actual_cost_microusd'') 0) (\<lambda>c.
       bindE (require_integer tokens (w @ ''.actual_metered_tokens'') 0) (\<lambda>k.
       if max_cost_microusd (identity t) < c
       then fail w ''actual cost exceeds transaction maximum''
       else if max_metered_tokens (identity t) < k
       then fail w ''actual tokens exceed transaction maximum''
       else
         bindE (if evidence = JNull then Inr None
                else bindE (require_hash evidence (w @ ''.evidence_sha256'')) (\<lambda>h. Inr (Some h))) (\<lambda>ev.
         Inr (t\<lparr>txn_state := Committed, commit_revision := Some i, commit_head_sha256 := Some head,
               actual_cost_microusd := Some c, actual_metered_tokens := Some k,
               evidence_sha256 := ev\<rparr>)))))"

definition apply_known ::
  "string \<Rightarrow> int \<Rightarrow> string \<Rightarrow> action \<Rightarrow> json_object \<Rightarrow> transaction \<Rightarrow> transaction result" where
  "apply_known w i head act e t =
    (let cost = field e ''actual_cost_microusd''; tokens = field e ''actual_metered_tokens''
     in case act of
          Act_Request_Authorized \<Rightarrow> apply_authorized w i head cost tokens t
        | Act_Aborted \<Rightarrow> apply_aborted w cost tokens t
        | Act_Trial_Resume \<Rightarrow> apply_resume w i head (field e ''resume'') cost tokens t
        | _ \<Rightarrow> apply_committed w i head (field e ''evidence_sha256'') cost tokens t)"

definition apply_action ::
  "string \<Rightarrow> string \<Rightarrow> int \<Rightarrow> string \<Rightarrow> action \<Rightarrow> string \<Rightarrow> budget_transaction \<Rightarrow> json_object \<Rightarrow>
   transactions \<Rightarrow> transactions result" where
  "apply_action jid w i head act tid ident e txns =
    (if act = Act_Reserved
     then apply_reserved jid w i head tid ident
            (field e ''actual_cost_microusd'') (field e ''actual_metered_tokens'') txns
     else case map_of txns tid of
       None \<Rightarrow> fail w ''transition refers to an unknown transaction''
     | Some t \<Rightarrow>
         if ident \<noteq> identity t then fail w ''transaction identity drift''
         else bindE (apply_known w i head act e t) (\<lambda>t'. Inr (AList.update tid t' txns)))"

section \<open>One event\<close>

definition event_where :: "nat \<Rightarrow> string" where
  "event_where i = ''budget journal.events['' @ nat_str (i - 1) @ '']''"

definition event_action_is :: "json \<Rightarrow> string \<Rightarrow> bool" where
  "event_action_is raw a \<longleftrightarrow>
    (case raw of JObj kvs \<Rightarrow> dict_get_none kvs ''action'' = JStr a | _ \<Rightarrow> False)"

definition resume_shaped :: "json \<Rightarrow> bool" where
  "resume_shaped raw \<longleftrightarrow> event_action_is raw ''trial_resume_authorized''"

definition evidence_shaped :: "json \<Rightarrow> bool" where
  "evidence_shaped raw \<longleftrightarrow>
    event_action_is raw ''committed'' \<and>
    (case raw of JObj kvs \<Rightarrow> ''evidence_sha256'' \<in> set (keys kvs) | _ \<Rightarrow> False)"

definition event_keys :: "json \<Rightarrow> string list" where
  "event_keys raw =
    [''revision'', ''previous_head_sha256'', ''action'', ''transaction_id'', ''identity'',
     ''actual_cost_microusd'', ''actual_metered_tokens'', ''recorded_at_unix_ns'', ''event_sha256'']
    @ (if resume_shaped raw then [''resume''] else [])
    @ (if evidence_shaped raw then [''evidence_sha256''] else [])"

definition event_without_hash :: "json_object \<Rightarrow> json_object" where
  "event_without_hash e = filter (\<lambda>kv. fst kv \<noteq> ''event_sha256'') e"

definition check_frame :: "string \<Rightarrow> nat \<Rightarrow> string \<Rightarrow> json \<Rightarrow> (json_object \<times> string) result" where
  \<comment> \<open>schema, contiguity and hash chain; the event and its hash\<close>
  "check_frame w i head raw =
    bindE (exact_object raw w (event_keys raw)) (\<lambda>e.
    bindE (require_integer (field e ''revision'') (w @ ''.revision'') 1) (\<lambda>r.
    if r \<noteq> int i then fail (w @ ''.revision'') ''is not contiguous''
    else
      bindE (require_hash (field e ''previous_head_sha256'') (w @ ''.previous_head_sha256'')) (\<lambda>p.
      if p \<noteq> head then fail (w @ ''.previous_head_sha256'') ''hash chain is broken''
      else
        bindE (require_hash (field e ''event_sha256'') (w @ ''.event_sha256'')) (\<lambda>h.
        if h \<noteq> canonical_sha256 (JObj (event_without_hash e))
        then fail (w @ ''.event_sha256'') ''does not bind event''
        else Inr (e, h)))))"

definition replay_framed ::
  "string \<Rightarrow> budget_authority \<Rightarrow> nat \<Rightarrow> transactions \<Rightarrow> json_object \<times> string \<Rightarrow>
   (transactions \<times> string) result" where
  "replay_framed jid a i txns = (\<lambda>(e, h).
    let w = event_where i
    in bindE (action_of (field e ''action'') w) (\<lambda>act.
       bindE (require_hash (field e ''transaction_id'') (w @ ''.transaction_id'')) (\<lambda>tid.
       bindE (validate_identity_record (field e ''identity'') (w @ ''.identity'')) (\<lambda>ident.
       bindE (require_integer (field e ''recorded_at_unix_ns'') (w @ ''.recorded_at_unix_ns'') 1) (\<lambda>_.
       bindE (apply_action jid w (int i) h act tid ident e txns) (\<lambda>txns'.
       bindE (check_exposure a w txns') (\<lambda>_.
       Inr (txns', h))))))))"

definition replay_event ::
  "string \<Rightarrow> budget_authority \<Rightarrow> nat \<times> json \<Rightarrow> transactions \<times> string \<Rightarrow>
   (transactions \<times> string) result" where
  "replay_event jid a = (\<lambda>(i, raw) (txns, head).
    bindE (check_frame (event_where i) i head raw) (replay_framed jid a i txns))"

section \<open>The document\<close>

definition document_keys :: "string list" where
  "document_keys =
    [''schema_version'', ''journal_id'', ''authority'', ''revision'', ''head_sha256'', ''events'']"

definition replay_fields :: "json_object \<Rightarrow> journal_state result" where
  "replay_fields v =
    (if \<not> py_eq (field v ''schema_version'') (JInt journal_schema_version)
     then fail ''budget journal.schema_version'' ''unsupported schema''
     else
       bindE (validate_authority_record (field v ''authority'') ''budget journal.authority'') (\<lambda>a.
       bindE (require_hash (field v ''journal_id'') ''budget journal.journal_id'') (\<lambda>jid.
       if jid \<noteq> journal_id_of a then fail ''budget journal.journal_id'' ''does not bind authority''
       else
         (case field v ''events'' of
            JArr events \<Rightarrow>
              bindE (require_integer (field v ''revision'') ''budget journal.revision'' 0) (\<lambda>revn.
              if revn \<noteq> int (length events)
              then fail ''budget journal.revision'' ''does not equal event count''
              else
                bindE (foldE (replay_event jid a) (enumerate 1 events) ([], zero_head_sha256))
                  (\<lambda>(txns, head).
                bindE (require_hash (field v ''head_sha256'') ''budget journal.head_sha256'') (\<lambda>h.
                if h \<noteq> head
                then fail ''budget journal.head_sha256'' ''does not match the event chain''
                else Inr \<lparr>js_journal_id = jid, js_authority = a, js_revision = revn,
                          js_head_sha256 = head, js_transactions = txns\<rparr>)))
          | _ \<Rightarrow> fail ''budget journal.events'' ''expected an array''))))"

definition replay_document :: "json \<Rightarrow> journal_state result" where
  "replay_document document =
    bindE (exact_object document ''budget journal'' document_keys) replay_fields"

section \<open>Receipts and checkpoints\<close>

record receipt =
  rc_journal_id :: string
  rc_journal_revision :: int
  rc_journal_head_sha256 :: string
  rc_transaction :: transaction

definition transaction_receipt_from_state :: "journal_state \<Rightarrow> string \<Rightarrow> receipt result" where
  \<comment> \<open>the receipt projects the fields of the transaction, without evidence and resume events\<close>
  "transaction_receipt_from_state st tid =
    bindE (require_hash (JStr tid) ''budget transaction id'') (\<lambda>_.
    case map_of (js_transactions st) tid of
      None \<Rightarrow> fail ''budget transaction'' ''is unknown''
    | Some t \<Rightarrow> Inr \<lparr>rc_journal_id = js_journal_id st, rc_journal_revision = js_revision st,
                    rc_journal_head_sha256 = js_head_sha256 st,
                    rc_transaction = t\<lparr>evidence_sha256 := None, resume_events := []\<rparr>\<rparr>)"

definition reopen_checkpoint_transaction :: "string \<Rightarrow> string \<Rightarrow> receipt result" where
  "reopen_checkpoint_transaction payload tid =
    (if payload = [] \<or> max_journal_bytes < length payload
     then fail ''budget checkpoint'' ''size is empty or exceeds the safety limit''
     else
       bindE (unique_json payload ''budget checkpoint'') (\<lambda>document.
       bindE (replay_document document) (\<lambda>st. transaction_receipt_from_state st tid)))"

definition validate_checkpoint_payload :: "string \<Rightarrow> journal_state result" where
  "validate_checkpoint_payload payload =
    bindE (unique_json payload ''budget journal checkpoint'') replay_document"

section \<open>What each branch accepts\<close>

lemma action_of_Inr [check_simps]: "action_of v w = Inr act \<longleftrightarrow> v = JStr (action_name act)"
proof
  assume "action_of v w = Inr act"
  then show "v = JStr (action_name act)"
    by (auto simp: action_of_def split: if_splits)
next
  assume "v = JStr (action_name act)"
  then show "action_of v w = Inr act"
    by (cases act) (simp_all add: action_of_def hashable_def)
qed

lemma check_frame_Inr:
  "check_frame w i head raw = Inr (e, h) \<longleftrightarrow>
     raw = JObj e \<and> set (keys e) = set (event_keys raw) \<and> field e ''revision'' = JInt (int i) \<and>
     1 \<le> i \<and> field e ''previous_head_sha256'' = JStr head \<and> is_hash_str head \<and>
     field e ''event_sha256'' = JStr h \<and> h = canonical_sha256 (JObj (event_without_hash e))"
  by (auto simp: check_frame_def result_simps check_simps)

lemma check_exposure_Inr [check_simps]:
  "check_exposure a w txns = Inr u \<longleftrightarrow>
     exposure_cost txns \<le> total_cost_microusd a \<and> exposure_tokens txns \<le> total_metered_tokens a"
  by (auto simp: check_exposure_def)

lemma apply_reserved_Inr [check_simps]:
  "apply_reserved jid w i head tid ident c k txns = Inr txns' \<longleftrightarrow>
     map_of txns tid = None \<and> \<not> run_is_live (run_id ident) txns \<and> tid = transaction_id_of jid i ident \<and>
     c = JNull \<and> k = JNull \<and> txns' = txns @ [(tid, new_transaction tid ident i head)]"
  by (auto simp: apply_reserved_def update_fresh map_of_eq_None_iff)

lemma apply_authorized_Inr [check_simps]:
  "apply_authorized w i head c k t = Inr t' \<longleftrightarrow>
     txn_state t = Reserved \<and> c = JNull \<and> k = JNull \<and>
     t' = t\<lparr>txn_state := Request_Authorized, authorization_revision := Some i,
            authorization_head_sha256 := Some head\<rparr>"
  by (auto simp: apply_authorized_def)

lemma apply_aborted_Inr [check_simps]:
  "apply_aborted w c k t = Inr t' \<longleftrightarrow>
     txn_state t = Reserved \<and> c = JNull \<and> k = JNull \<and> t' = t\<lparr>txn_state := Aborted_Pre_Request\<rparr>"
  by (auto simp: apply_aborted_def)

lemma trial_names:
  "those (map trial_name ts) = Some ns \<longleftrightarrow>
     ts = map JStr ns \<and> (\<forall>s \<in> set ns. 0 < str_len s \<and> str_len s \<le> 200)"
proof (induction ts arbitrary: ns)
  case (Cons u ts)
  then show ?case by (cases u; cases ns) (auto split: option.splits)
qed auto

text \<open>The nested tests of the code, with the fields as variables.\<close>

lemma trials_test:
  "(if A then None else case F of
      JArr ts \<Rightarrow> if ts = [] \<or> 3 < length ts then None
                else (case those (map trial_name ts) of None \<Rightarrow> None
                  | Some names \<Rightarrow> if \<not> distinct names \<or> \<not> B then None else Some names)
    | _ \<Rightarrow> None) = Some ns \<longleftrightarrow>
   \<not> A \<and> F = JArr (map JStr ns) \<and> ns \<noteq> [] \<and> length ns \<le> 3 \<and>
   (\<forall>s \<in> set ns. 0 < str_len s \<and> str_len s \<le> 200) \<and> distinct ns \<and> B"
proof (cases F)
  case (JArr ts)
  show ?thesis
  proof (cases "those (map trial_name ts)")
    case None
    then have "\<not> (ts = map JStr ns \<and> (\<forall>s \<in> set ns. 0 < str_len s \<and> str_len s \<le> 200))"
      by (simp add: trial_names [symmetric])
    with None JArr show ?thesis by auto
  next
    case (Some ms)
    then have ts: "ts = map JStr ms" and "\<forall>s \<in> set ms. 0 < str_len s \<and> str_len s \<le> 200"
      by (simp_all add: trial_names)
    moreover have "map JStr ms = map JStr ns \<longleftrightarrow> ms = ns"
      by (simp add: inj_map_eq_map inj_def)
    ultimately show ?thesis using Some JArr by auto
  qed
qed auto

lemma resume_trials_Some:
  "resume_trials v n = Some names \<longleftrightarrow>
     (\<exists>kvs. v = JObj kvs \<and>
        set (keys kvs) = {''trials'', ''attempt'', ''evidence_sha256'', ''failure_receipt_sha256''} \<and>
        field kvs ''trials'' = JArr (map JStr names) \<and> names \<noteq> [] \<and> length names \<le> 3 \<and>
        (\<forall>s \<in> set names. 0 < str_len s \<and> str_len s \<le> 200) \<and> distinct names \<and>
        py_eq (field kvs ''attempt'') (JInt (n + 2)))"
proof (cases v)
  case (JObj kvs)
  show ?thesis unfolding resume_trials_def JObj json.case trials_test by blast
qed (simp_all add: resume_trials_def)

lemma resume_test:
  "(if \<not> A then Inl e1 else if \<not> B then Inl e2 else case R of None \<Rightarrow> Inl e3
    | Some names \<Rightarrow> (case resume of JObj kvs \<Rightarrow>
        bindE (require_hash (f kvs) w1) (\<lambda>ev. bindE (require_hash (g kvs) w2) (\<lambda>fr.
          if 1 \<le> length rs then Inl e4 else Inr (h names ev fr)))
      | _ \<Rightarrow> Inl e5)) = Inr t' \<longleftrightarrow>
   A \<and> B \<and> rs = [] \<and> (\<exists>names kvs ev fr. R = Some names \<and> resume = JObj kvs \<and>
     f kvs = JStr ev \<and> is_hash_str ev \<and> g kvs = JStr fr \<and> is_hash_str fr \<and> t' = h names ev fr)"
proof (cases R)
  case (Some names)
  then show ?thesis
    by (cases resume; cases rs) (auto simp: bindE_eq_Inr require_hash_Inr)
qed simp

lemma apply_resume_Inr [check_simps]:
  "apply_resume w i head resume c k t = Inr t' \<longleftrightarrow>
     txn_state t = Request_Authorized \<and> (c = JNull \<and> k = JNull) \<and> resume_events t = [] \<and>
     (\<exists>names kvs ev fr. resume_trials resume 0 = Some names \<and> resume = JObj kvs \<and>
        field kvs ''evidence_sha256'' = JStr ev \<and> is_hash_str ev \<and>
        field kvs ''failure_receipt_sha256'' = JStr fr \<and> is_hash_str fr \<and>
        t' = t\<lparr>resume_events := [\<lparr>re_revision = i, re_head_sha256 = head, re_trials = names,
              re_evidence_sha256 = ev, re_failure_receipt_sha256 = fr\<rparr>]\<rparr>)"
  unfolding apply_resume_def de_Morgan_conj [symmetric] resume_test
  by (rule conj_cong [OF refl], rule conj_cong [OF refl], rule conj_cong [OF refl])
    (simp only: list.size of_nat_0 append_Nil int_ops)

lemma commit_test:
  "(if \<not> A then Inl e1 else
      bindE (require_integer c w1 0) (\<lambda>cost. bindE (require_integer k w2 0) (\<lambda>tokens.
        if mc < cost then Inl e2 else if mk < tokens then Inl e3
        else bindE (if ev = JNull then Inr None
                    else bindE (require_hash ev w3) (\<lambda>h. Inr (Some h))) (\<lambda>x. Inr (h cost tokens x))))) =
   Inr t' \<longleftrightarrow>
   A \<and> (\<exists>cost tokens x. c = JInt cost \<and> 0 \<le> cost \<and> cost \<le> mc \<and>
     k = JInt tokens \<and> 0 \<le> tokens \<and> tokens \<le> mk \<and>
     (ev = JNull \<and> x = None \<or> (\<exists>h. ev = JStr h \<and> is_hash_str h \<and> x = Some h)) \<and>
     t' = h cost tokens x)"
proof -
  have if_Inl: "(if b then Inl e else m) = Inr z \<longleftrightarrow> \<not> b \<and> m = Inr z" for b e z and m :: "'x result"
    by simp
  have seal: "(if ev = JNull then Inr None else bindE (require_hash ev w3) (\<lambda>h. Inr (Some h))) = Inr x \<longleftrightarrow>
    ev = JNull \<and> x = None \<or> (\<exists>h. ev = JStr h \<and> is_hash_str h \<and> x = Some h)" for x
    by (auto simp: bindE_eq_Inr require_hash_Inr)
  show ?thesis
    unfolding if_Inl bindE_eq_Inr seal require_integer_Inr not_less not_not sum.inject by blast
qed

lemma apply_committed_Inr [check_simps]:
  "apply_committed w i head evidence c k t = Inr t' \<longleftrightarrow>
     txn_state t = Request_Authorized \<and>
     (\<exists>cost tokens ev. c = JInt cost \<and> 0 \<le> cost \<and> cost \<le> max_cost_microusd (identity t) \<and>
        k = JInt tokens \<and> 0 \<le> tokens \<and> tokens \<le> max_metered_tokens (identity t) \<and>
        (evidence = JNull \<and> ev = None \<or> (\<exists>h. evidence = JStr h \<and> is_hash_str h \<and> ev = Some h)) \<and>
        t' = t\<lparr>txn_state := Committed, commit_revision := Some i, commit_head_sha256 := Some head,
               actual_cost_microusd := Some cost, actual_metered_tokens := Some tokens,
               evidence_sha256 := ev\<rparr>)"
  unfolding apply_committed_def commit_test by (rule refl)

lemma apply_action_reserved:
  "apply_action jid w i head Act_Reserved tid ident e txns = Inr txns' \<longleftrightarrow>
     map_of txns tid = None \<and> \<not> run_is_live (run_id ident) txns \<and> tid = transaction_id_of jid i ident \<and>
     field e ''actual_cost_microusd'' = JNull \<and> field e ''actual_metered_tokens'' = JNull \<and>
     txns' = txns @ [(tid, new_transaction tid ident i head)]"
  by (simp add: apply_action_def apply_reserved_Inr)

lemma apply_action_known:
  assumes "act \<noteq> Act_Reserved"
  shows "apply_action jid w i head act tid ident e txns = Inr txns' \<longleftrightarrow>
     (\<exists>t t'. map_of txns tid = Some t \<and> ident = identity t \<and> apply_known w i head act e t = Inr t' \<and>
        txns' = AList.update tid t' txns)"
  using assms by (cases "map_of txns tid") (auto simp: apply_action_def bindE_eq_Inr)

lemmas apply_known_simps =
  apply_known_def [where act = Act_Request_Authorized, unfolded action.case Let_def]
  apply_known_def [where act = Act_Aborted, unfolded action.case Let_def]
  apply_known_def [where act = Act_Trial_Resume, unfolded action.case Let_def]
  apply_known_def [where act = Act_Committed, unfolded action.case Let_def]

lemma replay_event_Inr:
  "replay_event jid a (i, raw) (txns, head) = Inr (txns', h) \<longleftrightarrow>
     (\<exists>e act tid ident now. check_frame (event_where i) i head raw = Inr (e, h) \<and>
        field e ''action'' = JStr (action_name act) \<and>
        field e ''transaction_id'' = JStr tid \<and> is_hash_str tid \<and>
        validate_identity_record (field e ''identity'') (event_where i @ ''.identity'') = Inr ident \<and>
        field e ''recorded_at_unix_ns'' = JInt now \<and> 1 \<le> now \<and>
        apply_action jid (event_where i) (int i) h act tid ident e txns = Inr txns' \<and>
        exposure_cost txns' \<le> total_cost_microusd a \<and>
        exposure_tokens txns' \<le> total_metered_tokens a)"
  unfolding replay_event_def replay_framed_def Let_def
  by (simp only: prod.case bindE_eq_Inr check_simps split_paired_Ex sum.inject prod.inject) blast

end
