(* ===== verification/Budget_Ledger.thy ===== *)
theory Budget_Ledger
  imports Budget_Records
begin

text \<open>
  The contract of the budget journal, free of hashes, revisions and JSON: a ledger maps a
  transaction identifier to the identity it was reserved for and to its phase. What a caller
  may rely on is proved here, for every run of the step relation; \<open>Budget_Refinement\<close> shows
  that a document the code accepts is such a run.
\<close>

section \<open>Ledgers\<close>

datatype phase = Held | Spending bool | Settled "int \<times> int" | Released

type_synonym entry = "budget_transaction \<times> phase"
type_synonym ledger = "string \<Rightarrow> entry option"

datatype ledger_label =
    Reserve string budget_transaction
  | Authorize string
  | Resume string
  | Commit string int int
  | Abort string

fun label_id :: "ledger_label \<Rightarrow> string" where
  "label_id (Reserve k _) = k"
| "label_id (Authorize k) = k"
| "label_id (Resume k) = k"
| "label_id (Commit k _ _) = k"
| "label_id (Abort k) = k"

text \<open>What an entry may still cost, or has cost: by the maximum or by the settled usage.\<close>

fun phase_usage :: "int \<Rightarrow> (int \<times> int \<Rightarrow> int) \<Rightarrow> phase \<Rightarrow> int" where
  "phase_usage maximum used Held = maximum"
| "phase_usage maximum used (Spending _) = maximum"
| "phase_usage maximum used (Settled u) = used u"
| "phase_usage maximum used Released = 0"

definition entry_cost :: "entry \<Rightarrow> int" where
  "entry_cost e = phase_usage (max_cost_microusd (fst e)) fst (snd e)"

definition entry_tokens :: "entry \<Rightarrow> int" where
  "entry_tokens e = phase_usage (max_metered_tokens (fst e)) snd (snd e)"

definition ledger_sum :: "(entry \<Rightarrow> int) \<Rightarrow> ledger \<Rightarrow> int" where
  "ledger_sum f L = (\<Sum>k \<in> dom L. f (the (L k)))"

definition affordable :: "budget_authority \<Rightarrow> ledger \<Rightarrow> bool" where
  "affordable a L \<longleftrightarrow>
    ledger_sum entry_cost L \<le> total_cost_microusd a \<and>
    ledger_sum entry_tokens L \<le> total_metered_tokens a"

definition run_free :: "string \<Rightarrow> ledger \<Rightarrow> bool" where
  "run_free r L \<longleftrightarrow> (\<forall>k i p. L k = Some (i, p) \<longrightarrow> run_id i = r \<longrightarrow> p = Released)"

inductive ledger_step :: "budget_authority \<Rightarrow> ledger \<Rightarrow> ledger_label \<Rightarrow> ledger \<Rightarrow> bool" for a where
  reserve: "L k = None \<Longrightarrow> identity_ok i \<Longrightarrow> run_free (run_id i) L \<Longrightarrow> affordable a (L(k \<mapsto> (i, Held))) \<Longrightarrow>
    ledger_step a L (Reserve k i) (L(k \<mapsto> (i, Held)))"
| authorize: "L k = Some (i, Held) \<Longrightarrow>
    ledger_step a L (Authorize k) (L(k \<mapsto> (i, Spending False)))"
| resume: "L k = Some (i, Spending False) \<Longrightarrow>
    ledger_step a L (Resume k) (L(k \<mapsto> (i, Spending True)))"
| commit: "L k = Some (i, Spending b) \<Longrightarrow> 0 \<le> c \<Longrightarrow> c \<le> max_cost_microusd i \<Longrightarrow>
    0 \<le> t \<Longrightarrow> t \<le> max_metered_tokens i \<Longrightarrow>
    ledger_step a L (Commit k c t) (L(k \<mapsto> (i, Settled (c, t))))"
| abort: "L k = Some (i, Held) \<Longrightarrow>
    ledger_step a L (Abort k) (L(k \<mapsto> (i, Released)))"

inductive_cases step_ReserveE: "ledger_step a L (Reserve k i) L'"
inductive_cases step_AuthorizeE: "ledger_step a L (Authorize k) L'"
inductive_cases step_AbortE: "ledger_step a L (Abort k) L'"
inductive_simps step_Authorize: "ledger_step a L (Authorize k) L'"
inductive_simps step_Commit: "ledger_step a L (Commit k c t) L'"

inductive ledger_run :: "budget_authority \<Rightarrow> ledger \<Rightarrow> ledger_label list \<Rightarrow> ledger \<Rightarrow> bool" for a where
  run_nil: "ledger_run a L [] L"
| run_snoc: "ledger_run a L ls M \<Longrightarrow> ledger_step a M l N \<Longrightarrow> ledger_run a L (ls @ [l]) N"

inductive_cases run_nilE: "ledger_run a L [] M"
inductive_cases run_snocE: "ledger_run a L (ls @ [l]) M"

section \<open>Sums over a ledger\<close>

lemma ledger_sum_update:
  assumes "finite (dom L)"
  shows "ledger_sum f (L(k \<mapsto> e)) = ledger_sum f L - (case L k of None \<Rightarrow> 0 | Some d \<Rightarrow> f d) + f e"
proof -
  have "(\<Sum>j \<in> dom L - {k}. f (the ((L(k \<mapsto> e)) j))) = (\<Sum>j \<in> dom L - {k}. f (the (L j)))"
    by (rule sum.cong) auto
  moreover have "ledger_sum f L = (case L k of None \<Rightarrow> 0 | Some d \<Rightarrow> f d) + (\<Sum>j \<in> dom L - {k}. f (the (L j)))"
  proof (cases "L k")
    case None
    then have "dom L - {k} = dom L" by auto
    with None show ?thesis by (simp add: ledger_sum_def)
  next
    case (Some d)
    then have "k \<in> dom L" by auto
    with Some show ?thesis by (simp add: ledger_sum_def sum.remove [OF assms])
  qed
  moreover have "ledger_sum f (L(k \<mapsto> e)) = f e + (\<Sum>j \<in> dom L - {k}. f (the ((L(k \<mapsto> e)) j)))"
    unfolding ledger_sum_def using assms by (simp add: sum.insert_remove)
  ultimately show ?thesis by linarith
qed

lemma ledger_sum_nonneg:
  assumes "\<And>k e. L k = Some e \<Longrightarrow> 0 \<le> f e"
  shows "0 \<le> ledger_sum f L"
  unfolding ledger_sum_def using assms by (intro sum_nonneg) auto

lemma ledger_sum_member:
  assumes "finite (dom L)" and "\<And>k e. L k = Some e \<Longrightarrow> 0 \<le> f e" and "L k = Some e"
  shows "f e \<le> ledger_sum f L"
proof -
  have "f (the (L k)) \<le> (\<Sum>j \<in> dom L. f (the (L j)))"
    using assms by (intro member_le_sum) auto
  then show ?thesis using assms(3) by (simp add: ledger_sum_def)
qed

section \<open>The invariant of a ledger\<close>

definition entry_ok :: "entry \<Rightarrow> bool" where
  "entry_ok e \<longleftrightarrow> identity_ok (fst e) \<and>
    (case snd e of Settled (c, t) \<Rightarrow>
       0 \<le> c \<and> c \<le> max_cost_microusd (fst e) \<and> 0 \<le> t \<and> t \<le> max_metered_tokens (fst e)
     | _ \<Rightarrow> True)"

definition one_live :: "ledger \<Rightarrow> bool" where
  \<comment> \<open>a run id has at most one transaction that is not released\<close>
  "one_live L \<longleftrightarrow> (\<forall>k k' i i' p p'. L k = Some (i, p) \<longrightarrow> L k' = Some (i', p') \<longrightarrow>
     run_id i = run_id i' \<longrightarrow> p \<noteq> Released \<longrightarrow> p' \<noteq> Released \<longrightarrow> k = k')"

definition ledger_ok :: "budget_authority \<Rightarrow> ledger \<Rightarrow> bool" where
  "ledger_ok a L \<longleftrightarrow>
    finite (dom L) \<and> (\<forall>k e. L k = Some e \<longrightarrow> entry_ok e) \<and> one_live L \<and> affordable a L"

lemma entry_ok_usage: "entry_ok e \<Longrightarrow> 0 \<le> entry_cost e \<and> 0 \<le> entry_tokens e"
  by (cases e; cases "snd e")
    (auto simp: entry_ok_def entry_cost_def entry_tokens_def identity_ok_def)

lemma one_live_update:
  assumes "one_live L" and "L k = Some (i, p)" and "p \<noteq> Released"
  shows "one_live (L(k \<mapsto> (i, q)))"
  using assms unfolding one_live_def fun_upd_apply by (metis (no_types, lifting) option.inject prod.inject)

lemma one_live_reserve:
  assumes "one_live L" and "run_free (run_id i) L"
  shows "one_live (L(k \<mapsto> (i, p)))"
  using assms unfolding one_live_def run_free_def fun_upd_apply
  by (metis (no_types, lifting) option.inject prod.inject)

lemma affordable_shrink:
  assumes "finite (dom L)" and "affordable a L" and "L k = Some e"
    and "entry_cost e' \<le> entry_cost e" and "entry_tokens e' \<le> entry_tokens e"
  shows "affordable a (L(k \<mapsto> e'))"
  using assms by (simp add: affordable_def ledger_sum_update)

lemma usage_simps [simp]:
  "entry_cost (i, p) = phase_usage (max_cost_microusd i) fst p"
  "entry_tokens (i, p) = phase_usage (max_metered_tokens i) snd p"
  by (simp_all add: entry_cost_def entry_tokens_def)

lemma identity_ok_max: "identity_ok i \<Longrightarrow> 0 \<le> max_cost_microusd i \<and> 0 \<le> max_metered_tokens i"
  by (simp add: identity_ok_def)

lemma ledger_ok_empty: "authority_ok a \<Longrightarrow> ledger_ok a Map.empty"
  by (simp add: ledger_ok_def one_live_def affordable_def ledger_sum_def authority_ok_def)

text \<open>A phase moves on within its exposure: one lemma for every step after the reservation.\<close>

lemma ledger_ok_move:
  assumes ok: "ledger_ok a L" and k: "L k = Some (i, p)" and live: "p \<noteq> Released"
    and e: "entry_ok (i, q)"
    and "phase_usage (max_cost_microusd i) fst q \<le> phase_usage (max_cost_microusd i) fst p"
    and "phase_usage (max_metered_tokens i) snd q \<le> phase_usage (max_metered_tokens i) snd p"
  shows "ledger_ok a (L(k \<mapsto> (i, q)))"
proof -
  have "one_live (L(k \<mapsto> (i, q)))"
    using ok k live by (intro one_live_update) (auto simp: ledger_ok_def)
  moreover have "affordable a (L(k \<mapsto> (i, q)))"
    using assms by (intro affordable_shrink [where e = "(i, p)"]) (auto simp: ledger_ok_def)
  ultimately show ?thesis using ok e by (simp add: ledger_ok_def)
qed

theorem ledger_step_ok: "ledger_step a L l L' \<Longrightarrow> ledger_ok a L \<Longrightarrow> ledger_ok a L'"
proof (induction rule: ledger_step.induct)
  case (reserve L k i)
  then show ?case unfolding ledger_ok_def
    by (intro conjI one_live_reserve) (simp_all add: entry_ok_def)
next
  case (authorize L k i)
  then show ?case by (intro ledger_ok_move) (auto simp: ledger_ok_def entry_ok_def)
next
  case (resume L k i)
  then show ?case by (intro ledger_ok_move) (auto simp: ledger_ok_def entry_ok_def)
next
  case (commit L k i b c t)
  then have "identity_ok i" by (auto simp: ledger_ok_def entry_ok_def)
  with commit show ?case by (intro ledger_ok_move) (auto simp: entry_ok_def)
next
  case (abort L k i)
  then have "identity_ok i" by (auto simp: ledger_ok_def entry_ok_def)
  with abort show ?case
    by (intro ledger_ok_move) (auto simp: entry_ok_def dest: identity_ok_max)
qed

theorem ledger_run_ok: "ledger_run a L ls M \<Longrightarrow> ledger_ok a L \<Longrightarrow> ledger_ok a M"
  by (induction rule: ledger_run.induct) (auto intro: ledger_step_ok)

section \<open>A run is paid for once\<close>

text \<open>The identity a label spends on, and how often a run was allowed to spend.\<close>

fun authorized_run :: "ledger \<Rightarrow> ledger_label \<Rightarrow> string option" where
  "authorized_run L (Authorize k) = (case L k of Some (i, _) \<Rightarrow> Some (run_id i) | None \<Rightarrow> None)"
| "authorized_run L _ = None"

fun spent :: "phase \<Rightarrow> bool" where
  "spent (Spending _) = True"
| "spent (Settled _) = True"
| "spent _ = False"

definition run_spent :: "string \<Rightarrow> ledger \<Rightarrow> bool" where
  "run_spent r L \<longleftrightarrow> (\<exists>k i p. L k = Some (i, p) \<and> run_id i = r \<and> spent p)"

lemma spent_not_released: "spent p \<Longrightarrow> p \<noteq> Released"
  by auto

text \<open>An authorised transaction never becomes free again: its identity and its debt stay.\<close>

theorem step_keeps_spent:
  "ledger_step a L l L' \<Longrightarrow> L k = Some (i, p) \<Longrightarrow> spent p \<Longrightarrow> \<exists>q. L' k = Some (i, q) \<and> spent q"
  by (induction rule: ledger_step.induct) auto

lemma step_keeps_run_spent: "ledger_step a L l L' \<Longrightarrow> run_spent r L \<Longrightarrow> run_spent r L'"
  unfolding run_spent_def using step_keeps_spent by fast

lemma run_keeps_run_spent: "ledger_run a L ls M \<Longrightarrow> run_spent r L \<Longrightarrow> run_spent r M"
  by (induction rule: ledger_run.induct) (auto intro: step_keeps_run_spent)

text \<open>An authorization makes its run spent, and needs that it was not.\<close>

lemma authorize_spends:
  assumes "ledger_step a L l L'" and "authorized_run L l = Some r" and "one_live L"
  shows "\<not> run_spent r L" and "run_spent r L'"
proof -
  from assms(2) obtain k i p where l: "l = Authorize k" and k: "L k = Some (i, p)" and r: "r = run_id i"
    by (cases "(L, l)" rule: authorized_run.cases) (auto split: option.splits)
  with assms(1) have p: "p = Held" and L': "L' = L(k \<mapsto> (i, Spending False))"
    by (auto simp: step_Authorize)
  show "run_spent r L'" unfolding run_spent_def L' r by (intro exI [of _ k]) auto
  show "\<not> run_spent r L"
  proof
    assume "run_spent r L"
    then obtain k' i' p' where "L k' = Some (i', p')" "run_id i' = r" "spent p'"
      by (auto simp: run_spent_def)
    then have "k' = k" using k r p \<open>one_live L\<close> unfolding one_live_def
      by (metis phase.distinct(5) spent_not_released)
    then show False using \<open>spent p'\<close> \<open>L k' = _\<close> k p by simp
  qed
qed

text \<open>The authorizations of a run along a trace, with the ledger each was taken in.\<close>

inductive authorizations :: "budget_authority \<Rightarrow> string \<Rightarrow> ledger \<Rightarrow> ledger_label list \<Rightarrow> ledger \<Rightarrow> nat \<Rightarrow> bool"
  for a r where
  auth_nil: "authorizations a r L [] L 0"
| auth_snoc: "authorizations a r L ls M n \<Longrightarrow> ledger_step a M l N \<Longrightarrow>
    authorizations a r L (ls @ [l]) N (if authorized_run M l = Some r then n + 1 else n)"

lemma run_authorizations: "ledger_run a L ls M \<Longrightarrow> \<exists>n. authorizations a r L ls M n"
  by (induction rule: ledger_run.induct) (auto intro: authorizations.intros)

lemma authorizations_run: "authorizations a r L ls M n \<Longrightarrow> ledger_run a L ls M"
  by (induction rule: authorizations.induct) (auto intro: ledger_run.intros)

theorem authorized_at_most_once:
  assumes "authorizations a r L ls M n" and "ledger_ok a L"
  shows "n \<le> 1 \<and> (n = 1 \<longrightarrow> run_spent r M)"
  using assms
proof (induction rule: authorizations.induct)
  case (auth_snoc L ls M n l N)
  have "one_live M"
    using ledger_run_ok [OF authorizations_run [OF auth_snoc.hyps(1)] auth_snoc.prems]
    by (simp add: ledger_ok_def)
  with auth_snoc authorize_spends [OF auth_snoc.hyps(2)] show ?case
    by (auto dest: step_keeps_run_spent)
qed simp

section \<open>Settled cost\<close>

definition settled_cost :: "ledger \<Rightarrow> int" where
  "settled_cost L = ledger_sum (\<lambda>(i, p). case p of Settled (c, _) \<Rightarrow> c | _ \<Rightarrow> 0) L"

theorem settled_within:
  assumes "ledger_ok a L"
  shows "settled_cost L \<le> total_cost_microusd a"
proof -
  have "settled_cost L \<le> ledger_sum entry_cost L"
    unfolding settled_cost_def ledger_sum_def
  proof (rule sum_mono)
    fix k assume "k \<in> dom L"
    then obtain i p where k: "L k = Some (i, p)" by auto
    then have "entry_ok (i, p)" using assms by (auto simp: ledger_ok_def)
    then show "(case the (L k) of (i, p) \<Rightarrow> case p of Settled (c, _) \<Rightarrow> c | _ \<Rightarrow> 0)
        \<le> entry_cost (the (L k))"
      using k by (cases p) (auto simp: entry_ok_def dest: identity_ok_max)
  qed
  then show ?thesis using assms by (simp add: ledger_ok_def affordable_def)
qed

end
