(* ===== verification/Hash_Chain.thy ===== *)
theory Hash_Chain
  imports Sha256
begin

text \<open>
  The interface of a hash-chained log and what it gives: two logs of the same length that end
  in the same head hold the same entries, unless two different texts with the same SHA-256
  digest are in hand. The budget journal is the instance (\<open>Budget_Refinement\<close>).
\<close>

definition collision :: "string set \<Rightarrow> bool" where
  \<comment> \<open>two texts of the set that only a broken digest gives the same value\<close>
  "collision T \<longleftrightarrow> (\<exists>x \<in> T. \<exists>y \<in> T. x \<noteq> y \<and> sha256_hex x = sha256_hex y)"

lemma collisionI: "x \<in> T \<Longrightarrow> y \<in> T \<Longrightarrow> x \<noteq> y \<Longrightarrow> sha256_hex x = sha256_hex y \<Longrightarrow> collision T"
  unfolding collision_def by blast

lemma collision_mono: "collision S \<Longrightarrow> S \<subseteq> T \<Longrightarrow> collision T"
  unfolding collision_def by blast

locale hash_chain =
  fixes linked :: "nat \<Rightarrow> string \<Rightarrow> 'e \<Rightarrow> string \<Rightarrow> bool"
    and entry_text :: "'e \<Rightarrow> string"
    and norm :: "'e \<Rightarrow> 'n"
  assumes own_digest: "linked i h e g \<Longrightarrow> g = sha256_hex (entry_text e)"
    and text_binds: "linked i h e g \<Longrightarrow> linked i' h' e' g' \<Longrightarrow> entry_text e = entry_text e' \<Longrightarrow>
      h = h' \<and> norm e = norm e'"
begin

fun chained :: "nat \<Rightarrow> string \<Rightarrow> 'e list \<Rightarrow> string \<Rightarrow> bool" where
  "chained i h [] g \<longleftrightarrow> h = g"
| "chained i h (e # es) g \<longleftrightarrow> (\<exists>m. linked i h e m \<and> chained (Suc i) m es g)"

lemma chained_snoc:
  "chained i h (es @ [e]) g \<longleftrightarrow> (\<exists>m. chained i h es m \<and> linked (i + length es) m e g)"
  by (induction es arbitrary: i h) auto

theorem chain_binds:
  assumes "chained i h es g" and "chained i h es' g" and "length es = length es'"
  shows "map norm es = map norm es' \<or> collision (entry_text ` (set es \<union> set es'))"
  using assms(3,1,2)
proof (induction es es' arbitrary: g rule: rev_induct2)
  case (4 e es e' es')
  then obtain m m' where c: "chained i h es m" "chained i h es' m'"
    and l: "linked (i + length es) m e g" "linked (i + length es') m' e' g"
    by (auto simp: chained_snoc)
  show ?case
  proof (cases "entry_text e = entry_text e'")
    case True
    from text_binds [OF l True] have m: "m = m'" and n: "norm e = norm e'" by simp_all
    have "map norm es = map norm es' \<or> collision (entry_text ` (set es \<union> set es'))"
      using 4 c m by simp
    moreover have "entry_text ` (set es \<union> set es') \<subseteq> entry_text ` (set (es @ [e]) \<union> set (es' @ [e']))"
      by auto
    ultimately show ?thesis using n collision_mono by fastforce
  next
    case False
    moreover have "sha256_hex (entry_text e) = sha256_hex (entry_text e')"
      using l own_digest by metis
    ultimately show ?thesis
      by (intro disjI2 collisionI [of "entry_text e" _ "entry_text e'"]) auto
  qed
qed simp_all

end

end
