(* ===== verification/Budget_Refinement.thy ===== *)
theory Budget_Refinement
  imports Budget_Replay Budget_Ledger Hash_Chain
begin

text \<open>
  The replay of \<open>Budget_Replay\<close> implements the ledger of \<open>Budget_Ledger\<close>: the invariant of the
  replayed transactions, the ledger they stand for, and the simulation of one event and of a
  whole document.
\<close>

section \<open>The ledger of a list of transactions\<close>

definition phase_of :: "transaction \<Rightarrow> phase" where
  "phase_of t = (case txn_state t of
     Reserved \<Rightarrow> Held
   | Request_Authorized \<Rightarrow> Spending (resume_events t \<noteq> [])
   | Committed \<Rightarrow> Settled (the (actual_cost_microusd t), the (actual_metered_tokens t))
   | Aborted_Pre_Request \<Rightarrow> Released)"

definition entry_of :: "transaction \<Rightarrow> entry" where
  "entry_of t = (identity t, phase_of t)"

definition ledger_of :: "transactions \<Rightarrow> ledger" where
  "ledger_of txns k = map_option entry_of (map_of txns k)"

fun event_label :: "json \<Rightarrow> ledger_label option" where
  \<comment> \<open>what an accepted event asks of the ledger\<close>
  "event_label (JObj e) =
    (case (field e ''transaction_id'', field e ''action'') of
       (JStr k, JStr act) \<Rightarrow>
         if act = ''reserved'' then
           (case validate_identity_record (field e ''identity'') [] of
              Inr i \<Rightarrow> Some (Reserve k i) | Inl _ \<Rightarrow> None)
         else if act = ''request_authorized'' then Some (Authorize k)
         else if act = ''aborted_pre_request'' then Some (Abort k)
         else if act = ''trial_resume_authorized'' then Some (Resume k)
         else if act = ''committed'' then
           (case (field e ''actual_cost_microusd'', field e ''actual_metered_tokens'') of
              (JInt c, JInt t) \<Rightarrow> Some (Commit k c t) | _ \<Rightarrow> None)
         else None
     | _ \<Rightarrow> None)"
| "event_label _ = None"

section \<open>The invariant of a replayed transaction\<close>

definition settled_fields_empty :: "transaction \<Rightarrow> bool" where
  "settled_fields_empty t \<longleftrightarrow>
    commit_revision t = None \<and> commit_head_sha256 t = None \<and> actual_cost_microusd t = None \<and>
    actual_metered_tokens t = None \<and> evidence_sha256 t = None"

definition authorization_fields :: "int \<Rightarrow> transaction \<Rightarrow> bool" where
  "authorization_fields n t \<longleftrightarrow> (\<exists>r h. authorization_revision t = Some r \<and>
     authorization_head_sha256 t = Some h \<and> reservation_revision t < r \<and> r \<le> n)"

fun state_fields :: "int \<Rightarrow> transaction \<Rightarrow> txn_state \<Rightarrow> bool" where
  "state_fields n t Reserved \<longleftrightarrow>
     authorization_revision t = None \<and> authorization_head_sha256 t = None \<and>
     settled_fields_empty t \<and> resume_events t = []"
| "state_fields n t Aborted_Pre_Request \<longleftrightarrow>
     authorization_revision t = None \<and> authorization_head_sha256 t = None \<and>
     settled_fields_empty t \<and> resume_events t = []"
| "state_fields n t Request_Authorized \<longleftrightarrow>
     authorization_fields n t \<and> settled_fields_empty t \<and> length (resume_events t) \<le> 1"
| "state_fields n t Committed \<longleftrightarrow>
     authorization_fields n t \<and> length (resume_events t) \<le> 1 \<and>
     (\<exists>r h c k. commit_revision t = Some r \<and> commit_head_sha256 t = Some h \<and>
        the (authorization_revision t) < r \<and> r \<le> n \<and>
        actual_cost_microusd t = Some c \<and> 0 \<le> c \<and> c \<le> max_cost_microusd (identity t) \<and>
        actual_metered_tokens t = Some k \<and> 0 \<le> k \<and> k \<le> max_metered_tokens (identity t))"

definition txn_ok :: "string \<Rightarrow> int \<Rightarrow> string \<Rightarrow> transaction \<Rightarrow> bool" where
  "txn_ok jid n k t \<longleftrightarrow>
    transaction_id t = k \<and> is_hash_str k \<and> k = transaction_id_of jid (reservation_revision t) (identity t) \<and>
    identity_ok (identity t) \<and> identity_sha256 t = canonical_sha256 (identity_json (identity t)) \<and>
    1 \<le> reservation_revision t \<and> reservation_revision t \<le> n \<and> state_fields n t (txn_state t)"

definition txns_ok :: "string \<Rightarrow> int \<Rightarrow> transactions \<Rightarrow> bool" where
  "txns_ok jid n txns \<longleftrightarrow>
    distinct (keys txns) \<and> (\<forall>(k, t) \<in> set txns. txn_ok jid n k t) \<and>
    sorted_wrt (<) (map (reservation_revision \<circ> snd) txns)"

lemma txns_okD:
  "txns_ok jid n txns \<Longrightarrow> map_of txns k = Some t \<Longrightarrow> txn_ok jid n k t"
  unfolding txns_ok_def by (fastforce dest: map_of_SomeD)

lemma authorization_fields_mono: "authorization_fields n t \<Longrightarrow> n \<le> m \<Longrightarrow> authorization_fields m t"
  by (force simp: authorization_fields_def)

lemma state_fields_mono: "state_fields n t s \<Longrightarrow> n \<le> m \<Longrightarrow> state_fields m t s"
  by (cases s) (force intro: authorization_fields_mono)+

lemma txn_ok_mono: "txn_ok jid n k t \<Longrightarrow> n \<le> m \<Longrightarrow> txn_ok jid m k t"
  by (auto simp: txn_ok_def intro: state_fields_mono)

lemma txns_ok_empty: "txns_ok jid n []"
  by (simp add: txns_ok_def)

subsection \<open>Transactions and entries\<close>

lemma ledger_of_update: "ledger_of (AList.update k t txns) = (ledger_of txns)(k \<mapsto> entry_of t)"
  by (simp add: ledger_of_def fun_eq_iff update_conv')

lemma ledger_of_append:
  "map_of txns k = None \<Longrightarrow> ledger_of (txns @ [(k, t)]) = (ledger_of txns)(k \<mapsto> entry_of t)"
  using ledger_of_update [of k t txns] by (simp add: update_fresh map_of_eq_None_iff)

lemma dom_ledger_of: "dom (ledger_of txns) = set (keys txns)"
  by (force simp: ledger_of_def dom_def map_of_eq_None_iff dest: map_of_SomeD)

lemma ledger_sum_of:
  assumes "distinct (keys txns)"
  shows "ledger_sum f (ledger_of txns) = sum_list (map (f \<circ> entry_of \<circ> snd) txns)"
proof -
  have "sum_list (map (f \<circ> entry_of \<circ> snd) txns) = (\<Sum>kt \<in> set txns. f (entry_of (snd kt)))"
    using assms by (simp add: sum_list_distinct_conv_sum_set distinct_map comp_def)
  also have "\<dots> = (\<Sum>kt \<in> set txns. f (the (ledger_of txns (fst kt))))"
    using assms by (intro sum.cong) (auto simp: ledger_of_def)
  also have "\<dots> = (\<Sum>k \<in> fst ` set txns. f (the (ledger_of txns k)))"
    using assms by (simp add: sum.reindex distinct_map)
  also have "\<dots> = ledger_sum f (ledger_of txns)"
    by (simp add: ledger_sum_def dom_ledger_of)
  finally show ?thesis by simp
qed

lemma exposure_entry:
  assumes "txn_ok jid n k t"
  shows "cost_exposure t = entry_cost (entry_of t)" and "token_exposure t = entry_tokens (entry_of t)"
  using assms
  by (cases "txn_state t"; force simp: txn_ok_def cost_exposure_def token_exposure_def
      exposure_of_def entry_of_def phase_of_def)+

lemma exposure_ledger:
  assumes "txns_ok jid n txns"
  shows "exposure_cost txns = ledger_sum entry_cost (ledger_of txns)"
    and "exposure_tokens txns = ledger_sum entry_tokens (ledger_of txns)"
proof -
  have eqs: "map (cost_exposure \<circ> snd) txns = map (entry_cost \<circ> entry_of \<circ> snd) txns"
    "map (token_exposure \<circ> snd) txns = map (entry_tokens \<circ> entry_of \<circ> snd) txns"
    using assms by (auto simp: txns_ok_def exposure_entry)
  have "distinct (keys txns)" using assms by (simp add: txns_ok_def)
  then show "exposure_cost txns = ledger_sum entry_cost (ledger_of txns)"
    "exposure_tokens txns = ledger_sum entry_tokens (ledger_of txns)"
    by (simp_all only: exposure_cost_def exposure_tokens_def ledger_sum_of eqs)
qed

lemma run_is_live_iff:
  assumes "distinct (keys txns)"
  shows "run_is_live r txns \<longleftrightarrow> \<not> run_free r (ledger_of txns)"
proof -
  have "phase_of t = Released \<longleftrightarrow> txn_state t = Aborted_Pre_Request" for t
    by (simp add: phase_of_def split: txn_state.split)
  then show ?thesis
    using assms
    by (auto simp: run_is_live_def run_free_def list_ex_iff ledger_of_def entry_of_def
        map_of_eq_Some_iff)
qed

section \<open>One event\<close>

lemma txns_ok_update:
  assumes ok: "txns_ok jid n txns" and k: "map_of txns k = Some t"
    and t': "txn_ok jid (n + 1) k t'" and same: "reservation_revision t' = reservation_revision t"
  shows "txns_ok jid (n + 1) (AList.update k t' txns)"
proof -
  have known: "k \<in> set (keys txns)" using k by (metis map_of_eq_None_iff not_Some_eq set_map)
  have "map (reservation_revision \<circ> snd) (AList.update k t' txns) = map (reservation_revision \<circ> snd) txns"
    using k same by (induction txns) auto
  moreover have "txn_ok jid (n + 1) j u" if "(j, u) \<in> set (AList.update k t' txns)" for j u
  proof -
    have "distinct (keys (AList.update k t' txns))"
      using ok known by (simp add: keys_update_known txns_ok_def)
    with that have "(if j = k then Some t' else map_of txns j) = Some u"
      by (simp add: update_conv' map_of_eq_Some_iff [symmetric] split: if_splits)
    then show ?thesis
      using t' txn_ok_mono [OF txns_okD [OF ok]] by (auto split: if_splits)
  qed
  ultimately show ?thesis using ok known by (auto simp: txns_ok_def keys_update_known)
qed

lemma txns_ok_reserve:
  assumes ok: "txns_ok jid n txns" and k: "map_of txns k = None"
    and t: "txn_ok jid (n + 1) k t" and r: "reservation_revision t = n + 1"
  shows "txns_ok jid (n + 1) (txns @ [(k, t)])"
proof -
  have "\<forall>(j, u) \<in> set txns. reservation_revision u \<le> n"
    using ok by (auto simp: txns_ok_def txn_ok_def)
  then show ?thesis
    using ok k t r
    by (fastforce simp: txns_ok_def sorted_wrt_append map_of_eq_None_iff intro: txn_ok_mono)
qed

lemma is_hash_transaction_id [simp]: "is_hash_str (transaction_id_of jid n i)"
  by (simp add: transaction_id_of_def)

text \<open>Each branch keeps the invariant and takes the step its label names.\<close>

lemma known_step:
  assumes ok: "txns_ok jid n txns" and k: "map_of txns k = Some t"
    and t': "state_fields (n + 1) t' (txn_state t')"
    and same: "transaction_id t' = transaction_id t" "identity t' = identity t"
      "identity_sha256 t' = identity_sha256 t" "reservation_revision t' = reservation_revision t"
  shows "txns_ok jid (n + 1) (AList.update k t' txns)"
proof (rule txns_ok_update [OF ok k _ same(4)])
  have "txn_ok jid n k t" by (rule txns_okD [OF ok k])
  then show "txn_ok jid (n + 1) k t'" using t' same by (simp add: txn_ok_def)
qed

lemma apply_known_same:
  assumes "apply_known w n h act e t = Inr t'" and "act \<noteq> Act_Reserved"
  shows "transaction_id t' = transaction_id t" "identity t' = identity t"
    "identity_sha256 t' = identity_sha256 t" "reservation_revision t' = reservation_revision t"
  using assms by (cases act; auto simp: apply_known_simps check_simps)+

lemma apply_known_fields:
  assumes "txn_ok jid n k t" and "apply_known w (n + 1) h act e t = Inr t'" and "act \<noteq> Act_Reserved"
  shows "state_fields (n + 1) t' (txn_state t')"
  using assms
  by (cases act) (auto simp: apply_known_simps check_simps txn_ok_def authorization_fields_def
      settled_fields_empty_def)

lemma new_transaction_ok:
  assumes "identity_ok i" and "0 \<le> n"
  shows "txn_ok jid (n + 1) (transaction_id_of jid (n + 1) i)
    (new_transaction (transaction_id_of jid (n + 1) i) i (n + 1) h)"
  using assms by (simp add: txn_ok_def new_transaction_def transaction_id_of_def settled_fields_empty_def)

lemma phase_new: "entry_of (new_transaction k i r h) = (i, Held)"
  by (simp add: entry_of_def phase_of_def new_transaction_def)

lemma apply_action_ok:
  assumes ok: "txns_ok jid n txns" and n: "0 \<le> n" and i: "identity_ok i"
    and act: "apply_action jid w (n + 1) h act k i e txns = Inr txns'"
  shows "txns_ok jid (n + 1) txns'"
proof (cases "act = Act_Reserved")
  case True
  with act have k: "map_of txns k = None" "k = transaction_id_of jid (n + 1) i"
    and txns': "txns' = txns @ [(k, new_transaction k i (n + 1) h)]"
    by (auto simp only: apply_action_reserved)
  show ?thesis unfolding txns'
    using txns_ok_reserve [OF ok k(1)] new_transaction_ok [OF i n] k(2)
    by (simp add: new_transaction_def)
next
  case False
  with act obtain t t' where k: "map_of txns k = Some t" and txns': "txns' = AList.update k t' txns"
    and step: "apply_known w (n + 1) h act e t = Inr t'"
    by (auto simp: apply_action_known)
  show ?thesis unfolding txns'
    using apply_known_fields [OF txns_okD [OF ok k] step False] apply_known_same [OF step False]
    by (intro known_step [OF ok k]) simp_all
qed

text \<open>The label of an event of each action.\<close>

lemma event_label_action:
  assumes "field e ''transaction_id'' = JStr k" and "field e ''action'' = JStr (action_name act)"
    and "validate_identity_record (field e ''identity'') w' = Inr i"
  shows "act = Act_Reserved \<Longrightarrow> event_label (JObj e) = Some (Reserve k i)"
    and "act = Act_Request_Authorized \<Longrightarrow> event_label (JObj e) = Some (Authorize k)"
    and "act = Act_Aborted \<Longrightarrow> event_label (JObj e) = Some (Abort k)"
    and "act = Act_Trial_Resume \<Longrightarrow> event_label (JObj e) = Some (Resume k)"
    and "act = Act_Committed \<Longrightarrow> field e ''actual_cost_microusd'' = JInt c \<Longrightarrow>
      field e ''actual_metered_tokens'' = JInt t \<Longrightarrow> event_label (JObj e) = Some (Commit k c t)"
proof -
  have i: "validate_identity_record (field e ''identity'') [] = Inr i"
    using assms(3) by (simp only: validate_identity_where [of _ "[]" _ w'])
  show "act = Act_Reserved \<Longrightarrow> event_label (JObj e) = Some (Reserve k i)"
    using assms i by simp
  show "act = Act_Request_Authorized \<Longrightarrow> event_label (JObj e) = Some (Authorize k)"
    and "act = Act_Aborted \<Longrightarrow> event_label (JObj e) = Some (Abort k)"
    and "act = Act_Trial_Resume \<Longrightarrow> event_label (JObj e) = Some (Resume k)"
    and "act = Act_Committed \<Longrightarrow> field e ''actual_cost_microusd'' = JInt c \<Longrightarrow>
      field e ''actual_metered_tokens'' = JInt t \<Longrightarrow> event_label (JObj e) = Some (Commit k c t)"
    using assms by simp_all
qed

lemma apply_action_step:
  assumes ok: "txns_ok jid n txns" and n: "0 \<le> n" and i: "identity_ok i"
    and act: "apply_action jid w (n + 1) h act k i e txns = Inr txns'"
    and afford: "exposure_cost txns' \<le> total_cost_microusd a" "exposure_tokens txns' \<le> total_metered_tokens a"
    and e: "field e ''transaction_id'' = JStr k" "field e ''action'' = JStr (action_name act)"
      "validate_identity_record (field e ''identity'') w' = Inr i"
  shows "\<exists>l. event_label (JObj e) = Some l \<and> ledger_step a (ledger_of txns) l (ledger_of txns')"
proof (cases "act = Act_Reserved")
  case True
  with act have k: "map_of txns k = None" and live: "\<not> run_is_live (run_id i) txns"
    and txns': "txns' = txns @ [(k, new_transaction k i (n + 1) h)]"
    by (auto simp only: apply_action_reserved)
  have ok': "txns_ok jid (n + 1) txns'" by (rule apply_action_ok [OF ok n i act])
  have L: "ledger_of txns' = (ledger_of txns)(k \<mapsto> (i, Held))"
    unfolding txns' ledger_of_append [OF k] phase_new by (rule refl)
  have "affordable a (ledger_of txns')"
    using afford exposure_ledger [OF ok'] by (simp add: affordable_def)
  moreover have "run_free (run_id i) (ledger_of txns)"
    using live ok run_is_live_iff by (auto simp: txns_ok_def)
  ultimately have "ledger_step a (ledger_of txns) (Reserve k i) (ledger_of txns')"
    unfolding L using k i by (intro ledger_step.reserve) (simp_all add: ledger_of_def)
  then show ?thesis using event_label_action(1) [OF e True] by blast
next
  case False
  with act obtain t t' where k: "map_of txns k = Some t" and ti: "identity t = i"
    and txns': "txns' = AList.update k t' txns" and step: "apply_known w (n + 1) h act e t = Inr t'"
    by (auto simp: apply_action_known)
  have t: "state_fields n t (txn_state t)" using txns_okD [OF ok k] by (simp add: txn_ok_def)
  have L: "ledger_of txns k = Some (i, phase_of t)" using k ti by (simp add: ledger_of_def entry_of_def)
  have L': "ledger_of txns' = (ledger_of txns)(k \<mapsto> entry_of t')"
    unfolding txns' by (rule ledger_of_update)
  show ?thesis
  proof (cases act)
    case Act_Request_Authorized
    with step t ti have "phase_of t = Held" "entry_of t' = (i, Spending False)"
      by (auto simp: apply_known_simps apply_authorized_Inr phase_of_def entry_of_def)
    with L L' event_label_action(2) [OF e] Act_Request_Authorized show ?thesis
      by (auto intro!: ledger_step.authorize)
  next
    case Act_Aborted
    with step t ti have "phase_of t = Held" "entry_of t' = (i, Released)"
      by (auto simp: apply_known_simps apply_aborted_Inr phase_of_def entry_of_def)
    with L L' event_label_action(3) [OF e] Act_Aborted show ?thesis
      by (auto intro!: ledger_step.abort)
  next
    case Act_Trial_Resume
    with step t ti have "phase_of t = Spending False" "entry_of t' = (i, Spending True)"
      by (auto simp: apply_known_simps apply_resume_Inr phase_of_def entry_of_def)
    with L L' event_label_action(4) [OF e] Act_Trial_Resume show ?thesis
      by (auto intro!: ledger_step.resume)
  next
    case Act_Committed
    with step t ti obtain c u where "phase_of t = Spending (resume_events t \<noteq> [])"
      and "entry_of t' = (i, Settled (c, u))" and "field e ''actual_cost_microusd'' = JInt c"
      and "field e ''actual_metered_tokens'' = JInt u" and "0 \<le> c" and "c \<le> max_cost_microusd i"
      and "0 \<le> u" and "u \<le> max_metered_tokens i"
      by (auto simp: apply_known_simps apply_committed_Inr phase_of_def entry_of_def)
    with L L' event_label_action(5) [OF e] Act_Committed show ?thesis
      by (auto intro!: ledger_step.commit)
  qed (use False in simp)
qed

lemma replay_event_ok:
  assumes ok: "txns_ok jid (int n) txns"
    and ev: "replay_event jid a (Suc n, raw) (txns, head) = Inr (txns', h)"
  shows "txns_ok jid (int (Suc n)) txns'"
    and "\<exists>l. event_label raw = Some l \<and> ledger_step a (ledger_of txns) l (ledger_of txns')"
proof -
  from ev obtain e act k i where e: "raw = JObj e" "field e ''transaction_id'' = JStr k"
      "field e ''action'' = JStr (action_name act)"
      "validate_identity_record (field e ''identity'') (event_where (Suc n) @ ''.identity'') = Inr i"
    and act: "apply_action jid (event_where (Suc n)) (int n + 1) h act k i e txns = Inr txns'"
    and afford: "exposure_cost txns' \<le> total_cost_microusd a" "exposure_tokens txns' \<le> total_metered_tokens a"
    by (auto simp only: replay_event_Inr check_frame_Inr of_nat_Suc add.commute)
  have i: "identity_ok i" by (rule validate_identity_ok [OF e(4)])
  show "txns_ok jid (int (Suc n)) txns'"
    using apply_action_ok [OF ok _ i act] by (simp add: add.commute)
  show "\<exists>l. event_label raw = Some l \<and> ledger_step a (ledger_of txns) l (ledger_of txns')"
    unfolding e(1) by (rule apply_action_step [OF ok _ i act afford e(2,3,4)]) simp
qed

section \<open>A document\<close>

abbreviation replay_events ::
  "string \<Rightarrow> budget_authority \<Rightarrow> json list \<Rightarrow> (transactions \<times> string) result" where
  "replay_events jid a es \<equiv> foldE (replay_event jid a) (enumerate 1 es) ([], zero_head_sha256)"

lemma replay_events_snoc:
  "replay_events jid a (es @ [e]) =
     bindE (replay_events jid a es) (replay_event jid a (Suc (length es), e))"
  by (cases "replay_events jid a es")
    (simp_all add: enumerate_append_eq foldE_append bindE_def split: sum.splits)

theorem replay_events_ok:
  assumes "replay_events jid a es = Inr (txns, h)"
  shows "txns_ok jid (int (length es)) txns"
    and "\<exists>ls. map event_label es = map Some ls \<and> ledger_run a Map.empty ls (ledger_of txns)"
  using assms
proof (induction es arbitrary: txns h rule: rev_induct)
  case Nil
  case 1
  then show ?case by (simp add: txns_ok_empty)
  case 2
  then have "txns = []" by simp
  then have "ledger_of txns = Map.empty" by (simp add: ledger_of_def fun_eq_iff)
  then show ?case using run_nil by force
next
  case (snoc e es)
  have split: "\<exists>s g. replay_events jid a es = Inr (s, g) \<and>
      replay_event jid a (Suc (length es), e) (s, g) = Inr (txns, h)"
    if "replay_events jid a (es @ [e]) = Inr (txns, h)" for txns h
    using that by (simp only: replay_events_snoc bindE_eq_Inr split_paired_Ex)
  case 1
  from split [OF this] obtain s g where s: "replay_events jid a es = Inr (s, g)"
    and e: "replay_event jid a (Suc (length es), e) (s, g) = Inr (txns, h)" by blast
  show ?case using replay_event_ok(1) [OF snoc.IH(1) [OF s] e] by simp
  case 2
  from split [OF this] obtain s g where s: "replay_events jid a es = Inr (s, g)"
    and e: "replay_event jid a (Suc (length es), e) (s, g) = Inr (txns, h)" by blast
  obtain ls where ls: "map event_label es = map Some ls" "ledger_run a Map.empty ls (ledger_of s)"
    using snoc.IH(2) [OF s] by blast
  obtain l where "event_label e = Some l" "ledger_step a (ledger_of s) l (ledger_of txns)"
    using replay_event_ok(2) [OF snoc.IH(1) [OF s] e] by blast
  with ls show ?case by (intro exI [of _ "ls @ [l]"]) (auto intro: run_snoc)
qed

lemma replay_document_Inr:
  "replay_document d = Inr st \<longleftrightarrow>
     (\<exists>v events. d = JObj v \<and> set (keys v) = set document_keys \<and>
        py_eq (field v ''schema_version'') (JInt journal_schema_version) \<and>
        validate_authority_record (field v ''authority'') ''budget journal.authority'' = Inr (js_authority st) \<and>
        field v ''journal_id'' = JStr (js_journal_id st) \<and> js_journal_id st = journal_id_of (js_authority st) \<and>
        field v ''events'' = JArr events \<and> field v ''revision'' = JInt (js_revision st) \<and>
        js_revision st = int (length events) \<and>
        replay_events (js_journal_id st) (js_authority st) events = Inr (js_transactions st, js_head_sha256 st) \<and>
        field v ''head_sha256'' = JStr (js_head_sha256 st) \<and> is_hash_str (js_head_sha256 st))"
proof -
  have arr: "(case F of JArr es \<Rightarrow> m es | _ \<Rightarrow> Inl e) = Inr z \<longleftrightarrow> (\<exists>es. F = JArr es \<and> m es = Inr z)"
    for F e z and m :: "json list \<Rightarrow> 'x result"
    by (cases F) auto
  have if_Inl: "(if b then Inl e else m) = Inr z \<longleftrightarrow> \<not> b \<and> m = Inr z" for b e z and m :: "'x result"
    by simp
  have st: "Inr \<lparr>js_journal_id = jid, js_authority = a, js_revision = r, js_head_sha256 = h,
      js_transactions = x\<rparr> = Inr st \<longleftrightarrow> js_journal_id st = jid \<and> js_authority st = a \<and>
      js_revision st = r \<and> js_head_sha256 st = h \<and> js_transactions st = x" for jid a r h x
    by (cases st) auto
  have jid: "is_hash_str (journal_id_of a)" for a by (simp add: journal_id_of_def)
  show ?thesis
    unfolding replay_document_def replay_fields_def
    by (simp only: bindE_eq_Inr exact_object_Inr arr if_Inl check_simps split_paired_Ex prod.case st)
      (use jid in fastforce)
qed

text \<open>An accepted document is a run of the ledger from the empty one, within its authority.\<close>

theorem replay_document_run:
  assumes "replay_document d = Inr st"
  shows "authority_ok (js_authority st)"
    and "txns_ok (js_journal_id st) (js_revision st) (js_transactions st)"
    and "\<exists>v es ls. d = JObj v \<and> field v ''events'' = JArr es \<and> map event_label es = map Some ls \<and>
      ledger_run (js_authority st) Map.empty ls (ledger_of (js_transactions st))"
    and "ledger_ok (js_authority st) (ledger_of (js_transactions st))"
proof -
  from assms obtain v es where d: "d = JObj v" "field v ''events'' = JArr es"
    and a: "validate_authority_record (field v ''authority'') ''budget journal.authority'' = Inr (js_authority st)"
    and n: "js_revision st = int (length es)"
    and run: "replay_events (js_journal_id st) (js_authority st) es = Inr (js_transactions st, js_head_sha256 st)"
    unfolding replay_document_Inr by blast
  show ok: "authority_ok (js_authority st)" by (rule validate_authority_ok [OF a])
  show "txns_ok (js_journal_id st) (js_revision st) (js_transactions st)"
    using replay_events_ok(1) [OF run] by (simp only: n)
  obtain ls where ls: "map event_label es = map Some ls"
    "ledger_run (js_authority st) Map.empty ls (ledger_of (js_transactions st))"
    using replay_events_ok(2) [OF run] by blast
  then show "\<exists>v es ls. d = JObj v \<and> field v ''events'' = JArr es \<and> map event_label es = map Some ls \<and>
      ledger_run (js_authority st) Map.empty ls (ledger_of (js_transactions st))"
    using d by blast
  show "ledger_ok (js_authority st) (ledger_of (js_transactions st))"
    by (rule ledger_run_ok [OF ls(2) ledger_ok_empty [OF ok]])
qed

section \<open>The head of a document binds its events\<close>

definition event_text :: "json \<Rightarrow> string" where
  \<comment> \<open>the text whose digest the event carries\<close>
  "event_text raw = (case raw of JObj e \<Rightarrow> stable_json (JObj (event_without_hash e)) | _ \<Rightarrow> [])"

definition event_linked :: "nat \<Rightarrow> string \<Rightarrow> json \<Rightarrow> string \<Rightarrow> bool" where
  "event_linked i h raw g \<longleftrightarrow> plain raw \<and> (\<exists>w e. check_frame w i h raw = Inr (e, g))"

lemma map_of_without_hash:
  "map_of (event_without_hash e) k = (if k = ''event_sha256'' then None else map_of e k)"
  by (induction e) (auto simp: event_without_hash_def)

lemma distinct_without_hash: "distinct (keys e) \<Longrightarrow> distinct (keys (event_without_hash e))"
  by (induction e) (auto simp: event_without_hash_def)

lemma plain_without_hash: "plain (JObj e) \<Longrightarrow> plain (JObj (event_without_hash e))"
  using distinct_without_hash [of e] by (auto simp: event_without_hash_def)

lemma event_text_binds:
  assumes "event_linked i h raw g" and "event_linked i' h' raw' g'" and "event_text raw = event_text raw'"
  shows "h = h' \<and> canon raw = canon raw'"
proof -
  from assms(1) obtain e where e: "raw = JObj e" "plain (JObj e)" "field e ''previous_head_sha256'' = JStr h"
    "field e ''event_sha256'' = JStr g" "g = sha256_hex (event_text raw)"
    by (auto simp only: event_linked_def check_frame_Inr event_text_def json.case canonical_sha256_def)
  from assms(2) obtain e' where e': "raw' = JObj e'" "plain (JObj e')" "field e' ''previous_head_sha256'' = JStr h'"
    "field e' ''event_sha256'' = JStr g'" "g' = sha256_hex (event_text raw')"
    by (auto simp only: event_linked_def check_frame_Inr event_text_def json.case canonical_sha256_def)
  let ?m = "map (\<lambda>kv. (fst kv, canon (snd kv)))"
  have d: "distinct (keys e)" "distinct (keys e')" using e(2) e'(2) by simp_all
  have "canon (JObj (event_without_hash e)) = canon (JObj (event_without_hash e'))"
    using assms(3) e(1,2) e'(1,2) by (simp only: event_text_def json.case stable_json_inject plain_without_hash)
  then have "canon_object (event_without_hash e) = canon_object (event_without_hash e')" by simp
  then have rest: "map_option canon (map_of e k) = map_option canon (map_of e' k)" if "k \<noteq> ''event_sha256''" for k
    using map_of_canon [OF distinct_without_hash [OF d(1)], of k]
      map_of_canon [OF distinct_without_hash [OF d(2)], of k] that
    by (simp only: map_of_without_hash if_False)
  have own: "map_of e ''event_sha256'' = Some (JStr g)" "map_of e' ''event_sha256'' = Some (JStr g')"
    using e(4) e'(4) by (auto intro!: dict_get_none_Some)
  have "g = g'" using e(5) e'(5) assms(3) by simp
  then have "map_option canon (map_of e k) = map_option canon (map_of e' k)" for k
    using rest own by (cases "k = ''event_sha256''") simp_all
  then have "map_of (?m e) = map_of (?m e')" by (simp only: map_of_map_snd fun_eq_iff) simp
  then have "sort_key fst (?m e) = sort_key fst (?m e')"
    using d by (intro sort_key_fst_unique) (simp_all add: comp_def)
  moreover have "h = h'"
  proof -
    have "map_of e ''previous_head_sha256'' = Some (JStr h)" "map_of e' ''previous_head_sha256'' = Some (JStr h')"
      using e(3) e'(3) by (auto intro!: dict_get_none_Some)
    then show ?thesis using rest [of "''previous_head_sha256''"] by simp
  qed
  ultimately show ?thesis using e(1) e'(1) by simp
qed

interpretation journal_chain: hash_chain event_linked event_text canon
proof
  show "g = sha256_hex (event_text raw)" if "event_linked i h raw g" for i h raw g
    using that by (auto simp only: event_linked_def check_frame_Inr event_text_def json.case canonical_sha256_def)
qed (rule event_text_binds)

lemma replay_events_chained:
  "replay_events jid a es = Inr (txns, h) \<Longrightarrow> \<forall>e \<in> set es. plain e \<Longrightarrow>
   journal_chain.chained 1 zero_head_sha256 es h"
proof (induction es arbitrary: txns h rule: rev_induct)
  case (snoc e es)
  then obtain s g where s: "replay_events jid a es = Inr (s, g)"
    and e: "replay_event jid a (Suc (length es), e) (s, g) = Inr (txns, h)"
    by (auto simp only: replay_events_snoc bindE_eq_Inr)
  from e obtain w v where "check_frame w (Suc (length es)) g e = Inr (v, h)"
    by (auto simp only: replay_event_Inr)
  then have "event_linked (1 + length es) g e h" using snoc.prems(2) by (auto simp: event_linked_def)
  then show ?case using snoc.IH [OF s] snoc.prems(2) by (auto simp: journal_chain.chained_snoc)
qed simp

end
