(* ===== verification/Budget_Canon.thy ===== *)
theory Budget_Canon
  imports Budget_Refinement
begin

text \<open>
  The replay does not see the order of dictionary keys, so the document in memory and the one
  read back from disk (which is its canonical form) replay to the same state; and the replay
  of a document with one more event is one step from the replay of the document.
\<close>

section \<open>Canonical form\<close>

lemma canon_atoms [simp]:
  "canon v = JNull \<longleftrightarrow> v = JNull" "canon v = JStr s \<longleftrightarrow> v = JStr s" "canon v = JInt n \<longleftrightarrow> v = JInt n"
  by (cases v; simp)+

lemma hashable_canon [simp]: "hashable (canon v) = hashable v"
  by (cases v) (simp_all add: hashable_def)

lemma action_of_canon [simp]: "action_of (canon v) w = action_of v w"
  by (simp add: action_of_def)

lemma py_eq_int_canon [simp]: "py_eq (canon v) (JInt n) = py_eq v (JInt n)"
  by (cases v) simp_all

lemma trial_name_canon [simp]: "trial_name (canon v) = trial_name v"
  by (cases v) simp_all

lemma field_canon:
  "plain (JObj e) \<Longrightarrow> field (canon_object e) k = canon (field e k)"
  by (simp add: dict_get_none_canon)

lemma set_keys_canon [simp]: "set (keys (canon_object e)) = set (keys e)"
  by (simp add: image_image)

lemma plain_field: "plain (JObj e) \<Longrightarrow> plain (field e k)"
  by (auto simp: dict_get_none_def split: option.split dest: map_of_SomeD)

lemma resume_trials_canon:
  assumes "plain v"
  shows "resume_trials (canon v) n = resume_trials v n"
proof (cases v)
  case (JObj kvs)
  have p: "plain (JObj kvs)" using assms JObj by simp
  have arr: "(case canon F of JArr ts \<Rightarrow> if ts = [] \<or> 3 < length ts then None
        else (case those (map trial_name ts) of None \<Rightarrow> None | Some names \<Rightarrow> m names) | _ \<Rightarrow> None) =
      (case F of JArr ts \<Rightarrow> if ts = [] \<or> 3 < length ts then None
        else (case those (map trial_name ts) of None \<Rightarrow> None | Some names \<Rightarrow> m names) | _ \<Rightarrow> None)"
    for F and m :: "string list \<Rightarrow> string list option"
    by (cases F) (simp_all add: comp_def)
  show ?thesis
    unfolding JObj resume_trials_def canon.simps json.case set_keys_canon field_canon [OF p]
      arr py_eq_int_canon by (rule refl)
qed (simp_all add: resume_trials_def)

lemma resume_object_canon:
  assumes "plain v"
  shows "(case canon v of JObj kvs \<Rightarrow>
      bindE (require_hash (field kvs k1) w1) (\<lambda>ev. bindE (require_hash (field kvs k2) w2) (m ev)) | _ \<Rightarrow> z) =
    (case v of JObj kvs \<Rightarrow>
      bindE (require_hash (field kvs k1) w1) (\<lambda>ev. bindE (require_hash (field kvs k2) w2) (m ev)) | _ \<Rightarrow> z)"
proof (cases v)
  case (JObj kvs)
  then have p: "plain (JObj kvs)" using assms by simp
  show ?thesis unfolding JObj canon.simps json.case field_canon [OF p] require_canon by (rule refl)
qed simp_all

lemma apply_known_canon:
  assumes p: "plain (JObj e)"
  shows "apply_known w i head act (canon_object e) t = apply_known w i head act e t"
proof (cases act)
  case Act_Trial_Resume
  have r: "plain (field e ''resume'')" by (rule plain_field [OF p])
  show ?thesis
    unfolding Act_Trial_Resume apply_known_simps apply_resume_def field_canon [OF p]
      resume_trials_canon [OF r] canon_atoms resume_object_canon [OF r] by (rule refl)
qed (simp_all only: apply_known_def Let_def action.case field_canon [OF p] apply_authorized_def
    apply_aborted_def apply_committed_def canon_atoms require_canon)

lemma apply_action_canon:
  assumes p: "plain (JObj e)"
  shows "apply_action jid w i head act tid ident (canon_object e) txns =
    apply_action jid w i head act tid ident e txns"
  unfolding apply_action_def apply_known_canon [OF p] field_canon [OF p] apply_reserved_def canon_atoms
  by (rule refl)

lemma event_keys_canon:
  assumes "plain raw"
  shows "event_keys (canon raw) = event_keys raw"
proof (cases raw)
  case (JObj e)
  then have p: "plain (JObj e)" using assms by simp
  show ?thesis
    unfolding JObj event_keys_def resume_shaped_def evidence_shaped_def event_action_is_def canon.simps
      json.case field_canon [OF p] canon_atoms set_keys_canon by (rule refl)
qed (simp_all add: event_keys_def resume_shaped_def evidence_shaped_def event_action_is_def)

lemma canon_without_hash:
  assumes p: "plain (JObj e)"
  shows "canon (JObj (event_without_hash (canon_object e))) = canon (JObj (event_without_hash e))"
proof -
  let ?m = "map (\<lambda>kv. (fst kv, canon (snd kv)))"
  have d: "distinct (keys e)" using p by simp
  have d': "distinct (keys (canon_object e))" using d by (simp add: keys_canon distinct_sort)
  have "map_of (?m (event_without_hash (canon_object e))) = map_of (?m (event_without_hash e))"
    by (simp only: map_of_map_snd map_of_without_hash map_of_canon [OF d] fun_eq_iff)
      (simp add: option.map_comp comp_def canon_idem)
  then have "sort_key fst (?m (event_without_hash (canon_object e))) = sort_key fst (?m (event_without_hash e))"
    using distinct_without_hash [OF d] distinct_without_hash [OF d']
    by (intro sort_key_fst_unique) (simp_all add: comp_def)
  then show ?thesis by simp
qed

lemma check_frame_canon:
  assumes p: "plain raw"
  shows "check_frame w i head (canon raw) =
    bindE (check_frame w i head raw) (\<lambda>(e, h). Inr (canon_object e, h))"
proof (cases raw)
  case (JObj e)
  then have pe: "plain (JObj e)" using p by simp
  have ks: "event_keys (JObj (canon_object e)) = event_keys (JObj e)"
    using event_keys_canon [OF pe] by simp
  have h: "canonical_sha256 (JObj (event_without_hash (canon_object e))) =
      canonical_sha256 (JObj (event_without_hash e))"
    by (simp only: canonical_sha256_def stable_json_def canon_without_hash [OF pe])
  show ?thesis
    unfolding JObj check_frame_def canon.simps exact_object_def json.case ks set_keys_canon
    by (simp only: if_distrib [of "\<lambda>m. bindE m _"] bindE_Inl bindE_Inr bindE_assoc field_canon [OF pe]
        require_canon h prod.case)
qed (simp_all add: check_frame_def exact_object_def)

lemma replay_framed_canon:
  assumes p: "plain (JObj e)"
  shows "replay_framed jid a i txns (canon_object e, h) = replay_framed jid a i txns (e, h)"
  unfolding replay_framed_def prod.case Let_def
  by (simp only: field_canon [OF p] action_of_canon require_canon
      validate_identity_canon [OF plain_field [OF p]] apply_action_canon [OF p])

lemma replay_event_canon:
  assumes p: "plain raw"
  shows "replay_event jid a (i, canon raw) s = replay_event jid a (i, raw) s"
proof (cases s)
  case (Pair txns head)
  show ?thesis
    unfolding Pair replay_event_def prod.case check_frame_canon [OF p] bindE_assoc
  proof (rule bindE_cong [OF refl], clarify)
    fix e h assume "check_frame (event_where i) i head raw = Inr (e, h)"
    then have "raw = JObj e" by (simp only: check_frame_Inr)
    then show "bindE (Inr (canon_object e, h)) (replay_framed jid a i txns) =
        replay_framed jid a i txns (e, h)"
      using p by (simp only: bindE_Inr replay_framed_canon)
  qed
qed

lemma replay_events_canon:
  assumes "\<forall>e \<in> set es. plain e"
  shows "replay_events jid a (map canon es) = replay_events jid a es"
  using assms
proof (induction es rule: rev_induct)
  case (snoc e es)
  then have IH: "replay_events jid a (map canon es) = replay_events jid a es" and "plain e" by simp_all
  have "replay_event jid a (i, canon e) = replay_event jid a (i, e)" for i
    by (rule ext) (rule replay_event_canon [OF \<open>plain e\<close>])
  then show ?case using IH
    by (simp only: map_append list.map replay_events_snoc length_map)
qed simp

lemma replay_fields_canon:
  assumes p: "plain (JObj v)"
  shows "replay_fields (canon_object v) = replay_fields v"
proof -
  have a: "plain (field v ''authority'')" and e: "plain (field v ''events'')"
    by (rule plain_field [OF p])+
  show ?thesis
  proof (cases "field v ''events''")
    case (JArr es)
    then have es: "\<forall>e \<in> set es. plain e" using e by simp
    show ?thesis
      unfolding replay_fields_def field_canon [OF p] py_eq_int_canon validate_authority_canon [OF a]
        require_canon JArr canon.simps json.case length_map replay_events_canon [OF es] by (rule refl)
  qed (simp_all only: replay_fields_def field_canon [OF p] py_eq_int_canon validate_authority_canon [OF a]
      require_canon canon.simps json.case)
qed

theorem replay_document_canon:
  assumes "plain d"
  shows "replay_document (canon d) = replay_document d"
  using assms
  by (cases d) (simp_all only: replay_document_def exact_object_def canon.simps json.case
      set_keys_canon bindE_Inl bindE_Inr replay_fields_canon if_distrib [of "\<lambda>m. bindE m replay_fields"])

end
