(* ===== verification/Py_State.thy ===== *)
theory Py_State
  imports Py_Prelude
begin

text \<open>
  Methods that change an object and the world around it, and may raise: a function from the
  state to a result and the state left behind. As in Python, what was changed before an
  exception stays changed.
\<close>

type_synonym ('s, 'a) op = "'s \<Rightarrow> 'a result \<times> 's"

definition returnS :: "'a \<Rightarrow> ('s, 'a) op" where
  "returnS x s = (Inr x, s)"

definition raiseS :: "py_error \<Rightarrow> ('s, 'a) op" where
  "raiseS e s = (Inl e, s)"

definition liftS :: "'a result \<Rightarrow> ('s, 'a) op" where
  "liftS r s = (r, s)"

definition bindS :: "('s, 'a) op \<Rightarrow> ('a \<Rightarrow> ('s, 'b) op) \<Rightarrow> ('s, 'b) op" where
  "bindS m f s = (case m s of (Inl e, t) \<Rightarrow> (Inl e, t) | (Inr x, t) \<Rightarrow> f x t)"

definition getS :: "('s \<Rightarrow> 'a) \<Rightarrow> ('s, 'a) op" where
  "getS f s = (Inr (f s), s)"

definition modifyS :: "('s \<Rightarrow> 's) \<Rightarrow> ('s, unit) op" where
  "modifyS f s = (Inr (), f s)"

text \<open>\<open>except BaseException: h; raise\<close>\<close>

definition on_errorS :: "('s, 'a) op \<Rightarrow> ('s \<Rightarrow> 's) \<Rightarrow> ('s, 'a) op" where
  "on_errorS m h s = (case m s of (Inl e, t) \<Rightarrow> (Inl e, h t) | (Inr x, t) \<Rightarrow> (Inr x, t))"

definition whenS :: "bool \<Rightarrow> py_error \<Rightarrow> ('s, unit) op" where
  \<comment> \<open>\<open>if b: raise e\<close>\<close>
  "whenS b e s = (if b then (Inl e, s) else (Inr (), s))"

named_theorems op_simps \<open>running a method\<close>

lemma bindS_eq_Inr [op_simps]:
  "bindS m f s = (Inr y, u) \<longleftrightarrow> (\<exists>x t. m s = (Inr x, t) \<and> f x t = (Inr y, u))"
  by (auto simp: bindS_def split: prod.splits sum.splits)

lemma bindS_eq_Inl [op_simps]:
  "bindS m f s = (Inl e, u) \<longleftrightarrow>
     m s = (Inl e, u) \<or> (\<exists>x t. m s = (Inr x, t) \<and> f x t = (Inl e, u))"
  by (auto simp: bindS_def split: prod.splits sum.splits)

lemma returnS_eq [op_simps]: "returnS x s = (r, t) \<longleftrightarrow> r = Inr x \<and> t = s"
  by (auto simp: returnS_def)

lemma raiseS_eq [op_simps]: "raiseS e s = (r, t) \<longleftrightarrow> r = Inl e \<and> t = s"
  by (auto simp: raiseS_def)

lemma liftS_eq [op_simps]: "liftS q s = (r, t) \<longleftrightarrow> q = r \<and> t = s"
  by (auto simp: liftS_def)

lemma getS_eq [op_simps]: "getS f s = (r, t) \<longleftrightarrow> r = Inr (f s) \<and> t = s"
  by (auto simp: getS_def)

lemma modifyS_eq [op_simps]: "modifyS g s = (r, t) \<longleftrightarrow> r = Inr () \<and> t = g s"
  by (auto simp: modifyS_def)

lemma whenS_eq [op_simps]:
  "whenS b e s = (Inr u, t) \<longleftrightarrow> \<not> b \<and> t = s"
  "whenS b e s = (Inl e', t) \<longleftrightarrow> b \<and> e' = e \<and> t = s"
  by (auto simp: whenS_def)

text \<open>Running forwards, for evaluation and for proofs that know every step.\<close>

named_theorems op_run \<open>the result of one step\<close>

lemma bindS_run [op_run]:
  "m s = (Inr x, t) \<Longrightarrow> bindS m f s = f x t"
  "m s = (Inl e, t) \<Longrightarrow> bindS m f s = (Inl e, t)"
  by (simp_all add: bindS_def)

lemma op_value [op_run]:
  "returnS x s = (Inr x, s)" "raiseS e s = (Inl e, s)" "liftS q s = (q, s)"
  "getS f s = (Inr (f s), s)" "modifyS g s = (Inr (), g s)"
  by (simp_all add: returnS_def raiseS_def liftS_def getS_def modifyS_def)

lemma whenS_run [op_run]: "\<not> b \<Longrightarrow> whenS b e s = (Inr (), s)" "b \<Longrightarrow> whenS b e s = (Inl e, s)"
  by (simp_all add: whenS_def)

text \<open>Steps that only look, or check.\<close>

definition pure_op :: "('s, 'a) op \<Rightarrow> bool" where
  "pure_op m \<longleftrightarrow> (\<forall>s. snd (m s) = s)"

lemma pure_opI: "(\<And>s r t. m s = (r, t) \<Longrightarrow> t = s) \<Longrightarrow> pure_op m"
  unfolding pure_op_def by (metis prod.collapse)

lemma pure_opD: "pure_op m \<Longrightarrow> m s = (r, t) \<Longrightarrow> t = s"
  unfolding pure_op_def by (metis snd_conv)

lemma pure_op_simps [simp]:
  "pure_op (returnS x)" "pure_op (raiseS e)" "pure_op (liftS q)" "pure_op (getS f)" "pure_op (whenS b e)"
  by (auto simp: pure_op_def returnS_def raiseS_def liftS_def getS_def whenS_def)

lemma bindS_pureE:
  assumes "bindS m f s = (r, t)" and "pure_op m"
  obtains (raised) e where "m s = (Inl e, s)" and "r = Inl e" and "t = s"
    | (returned) x where "m s = (Inr x, s)" and "f x s = (r, t)"
proof -
  obtain q u where m: "m s = (q, u)" by fastforce
  have u: "u = s" by (rule pure_opD [OF assms(2) m])
  show thesis
  proof (cases q)
    case (Inl e)
    then show thesis using m assms(1) u by (intro raised [of e]) (simp_all add: bindS_def)
  next
    case (Inr x)
    then show thesis using m assms(1) u by (intro returned [of x]) (simp_all add: bindS_def)
  qed
qed

lemma pure_op_bindS:
  assumes "pure_op m" and "\<And>x. pure_op (f x)"
  shows "pure_op (bindS m f)"
proof (rule pure_opI)
  fix s r t assume "bindS m f s = (r, t)"
  then show "t = s" by (elim bindS_pureE [OF _ assms(1)]) (auto intro: pure_opD [OF assms(2)])
qed

text \<open>\<open>for x in xs: acc = f(x, acc)\<close> over a state, and a loop that returns nothing.\<close>

fun foldS :: "('a \<Rightarrow> 'b \<Rightarrow> ('s, 'b) op) \<Rightarrow> 'a list \<Rightarrow> 'b \<Rightarrow> ('s, 'b) op" where
  "foldS f [] acc = returnS acc"
| "foldS f (x # xs) acc = bindS (f x acc) (foldS f xs)"

definition forS :: "('a \<Rightarrow> ('s, unit) op) \<Rightarrow> 'a list \<Rightarrow> ('s, unit) op" where
  "forS f xs = foldS (\<lambda>x _. f x) xs ()"

text \<open>
  Steps that keep a property of the state, whether they return or raise. The rules follow the
  structure of a method, so the proof for a method is their repeated application.
\<close>

definition keeps :: "('s \<Rightarrow> bool) \<Rightarrow> ('s, 'a) op \<Rightarrow> bool" where
  "keeps P m \<longleftrightarrow> (\<forall>s. P s \<longrightarrow> P (snd (m s)))"

named_theorems keeps_intro \<open>which methods keep a property\<close>

lemma keepsI:
  assumes "\<And>s r t. P s \<Longrightarrow> m s = (r, t) \<Longrightarrow> P t"
  shows "keeps P m"
  unfolding keeps_def
proof (intro allI impI)
  fix s assume "P s"
  then show "P (snd (m s))" using assms [of s "fst (m s)" "snd (m s)"] by simp
qed

lemma keepsD: "keeps P m \<Longrightarrow> P s \<Longrightarrow> m s = (r, t) \<Longrightarrow> P t"
  unfolding keeps_def by (drule spec [of _ s]) simp

lemma keeps_pure: "pure_op m \<Longrightarrow> keeps P m"
  by (simp add: keeps_def pure_op_def)

lemma keeps_value [keeps_intro]:
  "keeps P (returnS x)" "keeps P (raiseS e)" "keeps P (liftS q)" "keeps P (getS f)" "keeps P (whenS b e)"
  by (simp_all add: keeps_pure)

lemma keeps_bind [keeps_intro]:
  assumes "keeps P m" and "\<And>x. keeps P (f x)"
  shows "keeps P (bindS m f)"
  unfolding keeps_def
proof (intro allI impI)
  fix s assume "P s"
  then have "P (snd (m s))" using assms(1) by (simp add: keeps_def)
  then show "P (snd (bindS m f s))"
    using assms(2) by (cases "fst (m s)") (simp_all add: bindS_def case_prod_beta keeps_def)
qed

lemma keeps_modify [keeps_intro]: "(\<And>s. P s \<Longrightarrow> P (g s)) \<Longrightarrow> keeps P (modifyS g)"
  by (simp add: keeps_def modifyS_def)

lemma keeps_foldS [keeps_intro]: "(\<And>x acc. keeps P (f x acc)) \<Longrightarrow> keeps P (foldS f xs acc)"
  by (induction xs arbitrary: acc) (auto intro: keeps_intro)

lemma keeps_forS [keeps_intro]: "(\<And>x. keeps P (f x)) \<Longrightarrow> keeps P (forS f xs)"
  unfolding forS_def by (rule keeps_foldS)

lemma keeps_conj: "keeps P m \<Longrightarrow> keeps Q m \<Longrightarrow> keeps (\<lambda>s. P s \<and> Q s) m"
  by (simp add: keeps_def)

end
