(* ===== verification/Budget_Journal.thy ===== *)
theory Budget_Journal
  imports Budget_Replay Py_State
begin

text \<open>
  The class \<open>BudgetJournal\<close> of \<open>scripts/eval/memory_budget_journal.py\<close>, operation by operation,
  over the state it keeps and the directory it works in. The directory holds three names (the
  journal, its lock and its temporary file); what the operating system decides is part of the
  state: who holds the lock, how many bytes a \<open>write\<close> takes, which calls fail, and where the
  fault hook raises. What a power loss leaves is part of the state too: the bytes of a file that
  are on the disk (\<open>f_durable\<close>, set by \<open>fsync\<close>; none are known to be there before it) and the
  entries the disk may have for the journal (\<open>survivors\<close>: a rename adds one, the \<open>fsync\<close> of the
  directory leaves the present one only). \<open>Budget_Durability\<close> proves what survives.
\<close>

section \<open>The directory\<close>

datatype file_kind = Regular | Directory | Symlink | Special

record inode =
  f_kind :: file_kind
  f_nlink :: nat
  f_uid :: int
  f_mode :: nat
  f_opens :: bool
  f_data :: string
  f_durable :: string

record dir_info =
  d_is_dir :: bool
  d_identity :: "int \<times> int"
  d_uid :: int
  d_mode :: nat

record world =
  has_flock :: bool
  euid :: int
  parent_stat :: "dir_info option"
  parent_open :: dir_info
  lock_busy :: bool
  journal_file :: "inode option"
  lock_file :: "inode option"
  temp_file :: "inode option"
  survivors :: "inode option list"
  write_sizes :: "nat list"
  failing :: "string list"
  clock :: int

record journal =
  jn_authority :: budget_authority
  dir_open :: bool
  lock_open :: bool
  jn_document :: "json option"
  jn_state :: "journal_state option"

type_synonym jstate = "journal \<times> world"
type_synonym 'a jop = "(jstate, 'a) op"

abbreviation get_journal :: "(journal \<Rightarrow> 'a) \<Rightarrow> 'a jop" where
  "get_journal f \<equiv> getS (f \<circ> fst)"

abbreviation get_world :: "(world \<Rightarrow> 'a) \<Rightarrow> 'a jop" where
  "get_world f \<equiv> getS (f \<circ> snd)"

abbreviation set_journal :: "(journal \<Rightarrow> journal) \<Rightarrow> unit jop" where
  "set_journal f \<equiv> modifyS (apfst f)"

abbreviation set_world :: "(world \<Rightarrow> world) \<Rightarrow> unit jop" where
  "set_world f \<equiv> modifyS (apsnd f)"

definition new_inode :: "int \<Rightarrow> inode" where
  \<comment> \<open>\<open>os.open(..., O_CREAT, 0o600)\<close>\<close>
  "new_inode uid = \<lparr>f_kind = Regular, f_nlink = 1, f_uid = uid, f_mode = 384, f_opens = True,
     f_data = [], f_durable = []\<rparr>"

definition init_journal :: "budget_authority \<Rightarrow> journal result" where
  "init_journal a = bindE (validate_authority a) (\<lambda>_. Inr
    \<lparr>jn_authority = a, dir_open = False, lock_open = False, jn_document = None, jn_state = None\<rparr>)"

section \<open>Inspecting the directory\<close>

text \<open>The permission bits are written in decimal: 384 is 0600, 63 is 077, 18 is 022.\<close>

unbundle bit_operations_syntax

definition mode_violation :: "nat \<Rightarrow> nat \<Rightarrow> bool" where
  "mode_violation st_mode bits \<longleftrightarrow> (take_bit 12 st_mode AND bits) \<noteq> 0"

definition validate_regular :: "inode \<Rightarrow> int \<Rightarrow> string \<Rightarrow> unit result" where
  "validate_regular f uid w =
    (if f_kind f \<noteq> Regular then fail w ''must be a regular file''
     else if f_nlink f \<noteq> 1 then fail w ''hard links are forbidden''
     else if f_uid f \<noteq> uid then fail w ''must be owned by the current user''
     else if mode_violation (f_mode f) 63 then fail w ''permissions must be 0600 or stricter''
     else Inr ())"

definition open_nofollow_result :: "inode \<Rightarrow> bool \<Rightarrow> bool" where
  \<comment> \<open>a symbolic link is not followed, a directory is not opened for writing\<close>
  "open_nofollow_result f writing \<longleftrightarrow>
    f_opens f \<and> f_kind f \<noteq> Symlink \<and> (writing \<longrightarrow> f_kind f \<noteq> Directory)"

definition os_call :: "string \<Rightarrow> unit jop" where
  \<comment> \<open>a system call that may fail\<close>
  "os_call name =
    bindS (get_world failing) (\<lambda>fs. whenS (name \<in> set fs) (OS_Error name))"

definition entry_exists :: "(world \<Rightarrow> inode option) \<Rightarrow> bool jop" where
  "entry_exists entry =
    bindS (get_world failing) (\<lambda>fs.
    bindS (whenS (''inspect'' \<in> set fs) (Validation_Error ''budget journal'' ''cannot inspect'')) (\<lambda>_.
    get_world (\<lambda>w. entry w \<noteq> None)))"

definition reject_temporary :: "unit jop" where
  "reject_temporary =
    bindS (entry_exists temp_file) (\<lambda>found.
    whenS found (Validation_Error ''budget journal''
      ''incomplete temporary file requires manual inspection''))"

function read_loop :: "string \<Rightarrow> nat \<Rightarrow> string \<Rightarrow> string result" where
  \<comment> \<open>what is left of the file, how much was read, and the chunks so far\<close>
  "read_loop rest observed chunks =
    (let chunk = take (min 65536 (max_journal_bytes + 1 - observed)) rest
     in if chunk = [] then Inr chunks
        else if max_journal_bytes < observed + length chunk
        then fail ''budget journal'' ''exceeds the safety limit''
        else read_loop (drop (length chunk) rest) (observed + length chunk) (chunks @ chunk))"
  by pat_completeness auto
termination by (relation "measure (\<lambda>(rest, _). length rest)") auto

declare read_loop.simps [simp del]

definition read_document :: "json jop" where
  "read_document =
    bindS (get_world journal_file) (\<lambda>entry.
    case entry of
      None \<Rightarrow> raiseS (Validation_Error ''budget journal'' ''cannot open'')
    | Some f \<Rightarrow>
        bindS (whenS (\<not> open_nofollow_result f False) (Validation_Error ''budget journal'' ''cannot open'')) (\<lambda>_.
        bindS (get_world euid) (\<lambda>uid.
        bindS (liftS (validate_regular f uid ''budget journal'')) (\<lambda>_.
        bindS (whenS (f_data f = [] \<or> max_journal_bytes < length (f_data f))
          (Validation_Error ''budget journal'' ''size is empty or exceeds the safety limit'')) (\<lambda>_.
        bindS (os_call ''read'') (\<lambda>_.
        bindS (liftS (read_loop (f_data f) 0 [])) (\<lambda>payload.
        liftS (unique_json payload ''budget journal''))))))))"

section \<open>Writing\<close>

fun write_all :: "nat list \<Rightarrow> string \<Rightarrow> string \<times> bool" where
  \<comment> \<open>what reaches the file when the calls of \<open>os.write\<close> take so many bytes each; \<open>0\<close> is a short write\<close>
  "write_all sizes [] = ([], True)"
| "write_all [] (c # p) = (c # p, True)"
| "write_all (n # sizes) (c # p) =
     (if n = 0 then ([], False)
      else let (written, ok) = write_all sizes (drop n (c # p)) in (take n (c # p) @ written, ok))"

definition fault_hook :: "string \<Rightarrow> unit jop" where
  "fault_hook point =
    bindS (get_world failing) (\<lambda>fs. whenS (point \<in> set fs) (Fault_Raised point))"

definition create_temporary :: "unit jop" where
  "create_temporary =
    bindS (get_world (\<lambda>w. temp_file w \<noteq> None \<or> ''create'' \<in> set (failing w))) (\<lambda>refused.
    bindS (whenS refused (Validation_Error ''budget journal'' ''cannot create temporary file'')) (\<lambda>_.
    set_world (\<lambda>w. w\<lparr>temp_file := Some (new_inode (euid w))\<rparr>)))"

definition write_temporary :: "string \<Rightarrow> unit jop" where
  "write_temporary payload =
    bindS (get_world write_sizes) (\<lambda>sizes.
    case write_all sizes payload of (written, ok) \<Rightarrow>
      bindS (set_world (\<lambda>w. w\<lparr>temp_file := map_option (f_data_update (\<lambda>_. written)) (temp_file w)\<rparr>)) (\<lambda>_.
      whenS (\<not> ok) (Validation_Error ''budget journal'' ''short write'')))"

definition fsync_temporary :: "unit jop" where
  \<comment> \<open>\<open>os.fsync\<close> of the file: its bytes are on the disk\<close>
  "fsync_temporary =
    bindS (os_call ''fsync'') (\<lambda>_.
    set_world (\<lambda>w. w\<lparr>temp_file := map_option (\<lambda>f. f\<lparr>f_durable := f_data f\<rparr>) (temp_file w)\<rparr>))"

definition validate_temporary :: "unit jop" where
  "validate_temporary =
    bindS (get_world temp_file) (\<lambda>entry. bindS (get_world euid) (\<lambda>uid.
    case entry of
      Some f \<Rightarrow> liftS (validate_regular f uid ''budget journal temporary file'')
    | None \<Rightarrow> raiseS Assertion_Error))"

definition replace_journal :: "unit jop" where
  "replace_journal =
    bindS (os_call ''replace'') (\<lambda>_.
    set_world (\<lambda>w. w\<lparr>journal_file := temp_file w, survivors := temp_file w # survivors w, temp_file := None\<rparr>))"

definition fsync_directory :: "unit jop" where
  \<comment> \<open>\<open>os.fsync\<close> of the directory: the entry of the journal is on the disk\<close>
  "fsync_directory =
    bindS (os_call ''fsync_directory'') (\<lambda>_.
    set_world (\<lambda>w. w\<lparr>survivors := [journal_file w]\<rparr>))"

definition persist :: "json \<Rightarrow> unit jop" where
  "persist document =
    (let payload = stable_json document @ [newline]
     in bindS (whenS (max_journal_bytes < length payload)
          (Validation_Error ''budget journal'' ''serialized journal exceeds the safety limit'')) (\<lambda>_.
        bindS create_temporary (\<lambda>_.
        bindS (write_temporary payload) (\<lambda>_.
        bindS fsync_temporary (\<lambda>_.
        bindS validate_temporary (\<lambda>_.
        bindS (fault_hook ''after_temporary_fsync'') (\<lambda>_.
        bindS replace_journal (\<lambda>_.
        bindS (fault_hook ''after_atomic_replace'') (\<lambda>_.
        fsync_directory)))))))))"

section \<open>Opening and closing\<close>

definition close_journal :: "jstate \<Rightarrow> jstate" where
  "close_journal = apfst (\<lambda>j. j\<lparr>lock_open := False, dir_open := False\<rparr>)"

definition check_parent :: "dir_info \<Rightarrow> int \<Rightarrow> unit result" where
  "check_parent d uid =
    (if \<not> d_is_dir d then fail ''budget journal parent'' ''is not a directory''
     else if d_uid d \<noteq> uid then fail ''budget journal parent'' ''must be owned by the current user''
     else if mode_violation (d_mode d) 18
     then fail ''budget journal parent'' ''must not be group/world writable''
     else Inr ())"

definition check_opened_parent :: "dir_info \<Rightarrow> dir_info \<Rightarrow> int \<Rightarrow> unit result" where
  "check_opened_parent d0 d uid =
    (if \<not> d_is_dir d then fail ''budget journal parent'' ''opened object is not a directory''
     else if d_identity d \<noteq> d_identity d0 then fail ''budget journal parent'' ''changed while opening''
     else if d_uid d \<noteq> uid
     then fail ''budget journal parent'' ''opened directory is not owned by current user''
     else if mode_violation (d_mode d) 18
     then fail ''budget journal parent'' ''opened directory is group/world writable''
     else Inr ())"

definition open_lock :: "unit jop" where
  "open_lock =
    bindS (set_world (\<lambda>w. if lock_file w = None then w\<lparr>lock_file := Some (new_inode (euid w))\<rparr> else w)) (\<lambda>_.
    bindS (get_world lock_file) (\<lambda>entry. bindS (get_world euid) (\<lambda>uid.
    case entry of
      None \<Rightarrow> raiseS Assertion_Error
    | Some f \<Rightarrow>
        bindS (whenS (\<not> open_nofollow_result f True) (Validation_Error ''budget journal lock'' ''cannot open'')) (\<lambda>_.
        liftS (validate_regular f uid ''budget journal lock'')))))"

definition take_lock :: "unit jop" where
  "take_lock =
    bindS open_lock (\<lambda>_.
    bindS (set_journal (\<lambda>j. j\<lparr>lock_open := True\<rparr>)) (\<lambda>_.
    bindS (get_world lock_busy) (\<lambda>busy.
    whenS busy (Validation_Error ''budget journal lock'' ''another local runner holds it''))))"

definition load_document :: "unit jop" where
  \<comment> \<open>the existing journal, or a new one that is written before it is used\<close>
  "load_document =
    bindS (entry_exists journal_file) (\<lambda>found.
    if found then bindS read_document (\<lambda>d. set_journal (\<lambda>j. j\<lparr>jn_document := Some d\<rparr>))
    else
      bindS (get_journal jn_authority) (\<lambda>a.
      bindS (liftS (initial_document a)) (\<lambda>d.
      bindS (set_journal (\<lambda>j. j\<lparr>jn_document := Some d\<rparr>)) (\<lambda>_. persist d))))"

definition adopt_document :: "unit jop" where
  "adopt_document =
    bindS (get_journal jn_document) (\<lambda>doc.
    case doc of
      None \<Rightarrow> raiseS Assertion_Error
    | Some d \<Rightarrow>
        bindS (liftS (replay_document d)) (\<lambda>st.
        bindS (set_journal (\<lambda>j. j\<lparr>jn_state := Some st\<rparr>)) (\<lambda>_.
        bindS (get_journal jn_authority) (\<lambda>a.
        bindS (liftS (validate_authority a)) (\<lambda>_.
        whenS (js_authority st \<noteq> a)
          (Validation_Error ''budget journal authority'' ''experiment identity or limits drifted''))))))"

definition enter :: "unit jop" where
  "enter =
    bindS (get_world has_flock) (\<lambda>posix.
    bindS (whenS (\<not> posix) (Validation_Error ''budget journal lock'' ''requires POSIX flock'')) (\<lambda>_.
    bindS (get_world parent_stat) (\<lambda>parent.
    bindS (get_world euid) (\<lambda>uid.
    case parent of
      None \<Rightarrow> raiseS (OS_Error ''parent'')
    | Some d \<Rightarrow>
        bindS (liftS (check_parent d uid)) (\<lambda>_.
        on_errorS
          (bindS (os_call ''open_directory'') (\<lambda>_.
           bindS (set_journal (\<lambda>j. j\<lparr>dir_open := True\<rparr>)) (\<lambda>_.
           bindS (get_world parent_open) (\<lambda>opened.
           bindS (liftS (check_opened_parent d opened uid)) (\<lambda>_.
           bindS take_lock (\<lambda>_.
           bindS reject_temporary (\<lambda>_.
           bindS load_document (\<lambda>_. adopt_document))))))))
          close_journal)))))"

section \<open>Appending an event\<close>

definition require_open :: "journal_state jop" where
  "require_open =
    bindS (get_journal (\<lambda>j. dir_open j \<and> lock_open j)) (\<lambda>fds.
    bindS (get_journal jn_state) (\<lambda>st.
    case (fds, st) of
      (True, Some s) \<Rightarrow> returnS s
    | _ \<Rightarrow> raiseS (Validation_Error ''budget journal'' ''is not open with an exclusive lock'')))"

definition same_head :: "journal_state \<Rightarrow> journal_state \<Rightarrow> bool" where
  "same_head s t \<longleftrightarrow>
    js_revision s = js_revision t \<and> js_head_sha256 s = js_head_sha256 t \<and> js_journal_id s = js_journal_id t"

definition drift_error :: py_error where
  "drift_error = Validation_Error ''budget journal'' ''revision or head drift while lock is held''"

definition reobserve :: "unit jop" where
  "reobserve =
    bindS reject_temporary (\<lambda>_.
    bindS read_document (\<lambda>current.
    bindS (liftS (replay_document current)) (\<lambda>current_state.
    bindS (get_journal jn_state) (\<lambda>st.
    bindS (whenS (case st of None \<Rightarrow> True | Some s \<Rightarrow> \<not> same_head current_state s) drift_error) (\<lambda>_.
    set_journal (\<lambda>j. j\<lparr>jn_document := Some current, jn_state := Some current_state\<rparr>))))))"

record event_fields =
  ev_action :: action
  ev_transaction_id :: string
  ev_identity :: budget_transaction
  ev_actual_cost :: json
  ev_actual_tokens :: json
  ev_resume :: "json option"
  ev_evidence :: "string option"

definition event_body :: "journal_state \<Rightarrow> int \<Rightarrow> event_fields \<Rightarrow> json_object" where
  "event_body st now ev =
    [(''revision'', JInt (js_revision st + 1)),
     (''previous_head_sha256'', JStr (js_head_sha256 st)),
     (''action'', JStr (action_name (ev_action ev))),
     (''transaction_id'', JStr (ev_transaction_id ev)),
     (''identity'', identity_json (ev_identity ev)),
     (''actual_cost_microusd'', ev_actual_cost ev),
     (''actual_metered_tokens'', ev_actual_tokens ev),
     (''recorded_at_unix_ns'', JInt now)]
    @ (case ev_resume ev of None \<Rightarrow> [] | Some r \<Rightarrow> [(''resume'', r)])
    @ (case ev_evidence ev of None \<Rightarrow> [] | Some h \<Rightarrow> [(''evidence_sha256'', JStr h)])"

definition sealed_event :: "json_object \<Rightarrow> json_object" where
  "sealed_event body = body @ [(''event_sha256'', JStr (canonical_sha256 (JObj body)))]"

definition extend_document :: "json_object \<Rightarrow> int \<Rightarrow> json_object \<Rightarrow> json_object" where
  "extend_document doc n event =
    AList.update ''events'' (JArr (case field doc ''events'' of JArr es \<Rightarrow> es @ [JObj event] | _ \<Rightarrow> [JObj event]))
     (AList.update ''head_sha256'' (field event ''event_sha256'')
       (AList.update ''revision'' (JInt n) doc))"

definition transaction_op :: "string \<Rightarrow> transaction jop" where
  "transaction_op tid =
    bindS require_open (\<lambda>st.
    bindS (liftS (require_hash (JStr tid) ''budget transaction id'')) (\<lambda>_.
    case map_of (js_transactions st) tid of
      None \<Rightarrow> raiseS (Validation_Error ''budget transaction'' ''is unknown'')
    | Some t \<Rightarrow> returnS t))"

definition receipt_op :: "string \<Rightarrow> receipt jop" where
  "receipt_op tid =
    bindS (transaction_op tid) (\<lambda>_.
    bindS require_open (\<lambda>st. liftS (transaction_receipt_from_state st tid)))"

definition append_event :: "event_fields \<Rightarrow> receipt jop" where
  "append_event ev =
    bindS require_open (\<lambda>_.
    bindS reobserve (\<lambda>_.
    bindS (get_journal (\<lambda>j. (jn_document j, jn_state j))) (\<lambda>mem.
    case mem of
      (Some (JObj doc), Some st) \<Rightarrow>
        bindS (get_world clock) (\<lambda>now.
        let event = sealed_event (event_body st now ev);
            updated = JObj (extend_document doc (js_revision st + 1) event)
        in bindS (liftS (replay_document updated)) (\<lambda>updated_state.
           bindS (persist updated) (\<lambda>_.
           bindS (set_journal (\<lambda>j. j\<lparr>jn_document := Some updated, jn_state := Some updated_state\<rparr>)) (\<lambda>_.
           receipt_op (ev_transaction_id ev)))))
    | _ \<Rightarrow> raiseS Assertion_Error)))"

section \<open>The transitions a caller asks for\<close>

definition plain_event :: "action \<Rightarrow> string \<Rightarrow> budget_transaction \<Rightarrow> event_fields" where
  "plain_event act tid i =
    \<lparr>ev_action = act, ev_transaction_id = tid, ev_identity = i, ev_actual_cost = JNull,
     ev_actual_tokens = JNull, ev_resume = None, ev_evidence = None\<rparr>"

definition check_identity_authority :: "budget_transaction \<Rightarrow> budget_authority \<Rightarrow> unit result" where
  "check_identity_authority i a =
    (if manifest_sha256 i \<noteq> auth_manifest_sha256 a
     then fail ''budget transaction identity'' ''manifest_sha256 does not match journal authority''
     else if model_fingerprint i \<noteq> auth_model_fingerprint a
     then fail ''budget transaction identity'' ''model_fingerprint does not match journal authority''
     else if provider_identity i \<noteq> auth_provider_identity a
     then fail ''budget transaction identity'' ''provider_identity does not match journal authority''
     else Inr ())"

definition live_transactions :: "string \<Rightarrow> transactions \<Rightarrow> transaction list" where
  "live_transactions r txns =
    filter (\<lambda>t. run_id (identity t) = r \<and> txn_state t \<noteq> Aborted_Pre_Request) (map snd txns)"

definition reserve :: "budget_transaction \<Rightarrow> receipt jop" where
  "reserve transaction =
    bindS require_open (\<lambda>st.
    bindS (liftS (validate_transaction transaction)) (\<lambda>_.
    bindS (liftS (check_identity_authority transaction (js_authority st))) (\<lambda>_.
    let existing = live_transactions (run_id transaction) (js_transactions st)
    in if existing \<noteq> [] then
         let current = last existing
         in if identity_sha256 current \<noteq> canonical_sha256 (identity_json transaction)
            then raiseS (Validation_Error ''budget transaction''
              ''run id is already bound to a different transaction identity'')
            else (case txn_state current of
              Reserved \<Rightarrow> receipt_op (transaction_id current)
            | Request_Authorized \<Rightarrow> raiseS (Validation_Error ''budget transaction''
                ''request is already authorized; automatic or implicit retry is forbidden'')
            | _ \<Rightarrow> raiseS (Validation_Error ''budget transaction'' ''run identity is already committed''))
       else append_event (plain_event Act_Reserved
              (transaction_id_of (js_journal_id st) (js_revision st + 1) transaction) transaction))))"

definition require_cas :: "int \<Rightarrow> string \<Rightarrow> unit jop" where
  "require_cas revision head =
    bindS require_open (\<lambda>st.
    whenS (revision \<noteq> js_revision st \<or> head \<noteq> js_head_sha256 st)
      (Validation_Error ''budget journal CAS'' ''revision or head mismatch''))"

definition authorize_request :: "string \<Rightarrow> int \<Rightarrow> string \<Rightarrow> receipt jop" where
  "authorize_request tid revision head =
    bindS (transaction_op tid) (\<lambda>current.
    bindS (require_cas revision head) (\<lambda>_.
    if txn_state current \<noteq> Reserved then
      raiseS (Validation_Error ''budget transaction''
        (if txn_state current = Request_Authorized
         then ''authorization already exists; retry is forbidden''
         else ''only a reservation may be authorized''))
    else append_event (plain_event Act_Request_Authorized tid (identity current))))"

definition resume_payload :: "string list \<Rightarrow> nat \<Rightarrow> string \<Rightarrow> string \<Rightarrow> json" where
  "resume_payload trials n evidence failure = JObj
    [(''trials'', JArr (map JStr trials)), (''attempt'', JInt (int n + 2)),
     (''evidence_sha256'', JStr evidence), (''failure_receipt_sha256'', JStr failure)]"

definition authorize_trial_resume ::
  "string \<Rightarrow> string list \<Rightarrow> string \<Rightarrow> string \<Rightarrow> int \<Rightarrow> string \<Rightarrow> receipt jop" where
  "authorize_trial_resume tid trials evidence failure revision head =
    bindS (transaction_op tid) (\<lambda>current.
    bindS (require_cas revision head) (\<lambda>_.
    if txn_state current \<noteq> Request_Authorized
    then raiseS (Validation_Error ''budget transaction'' ''trial resume requires request_authorized state'')
    else if 1 \<le> length (resume_events current)
    then raiseS (Validation_Error ''budget transaction'' ''trial resume budget is exhausted'')
    else append_event ((plain_event Act_Trial_Resume tid (identity current))
           \<lparr>ev_resume := Some (resume_payload trials (length (resume_events current)) evidence failure)\<rparr>)))"

definition commit_transaction :: "string \<Rightarrow> int \<Rightarrow> int \<Rightarrow> string option \<Rightarrow> receipt jop" where
  "commit_transaction tid cost tokens evidence =
    bindS (transaction_op tid) (\<lambda>current.
    bindS (liftS (require_integer (JInt cost) ''budget commit.actual_cost_microusd'' 0)) (\<lambda>_.
    bindS (liftS (require_integer (JInt tokens) ''budget commit.actual_metered_tokens'' 0)) (\<lambda>_.
    bindS (liftS (case evidence of None \<Rightarrow> Inr []
      | Some h \<Rightarrow> require_hash (JStr h) ''budget commit.evidence_sha256'')) (\<lambda>_.
    if txn_state current = Committed then
      (if actual_cost_microusd current = Some cost \<and> actual_metered_tokens current = Some tokens \<and>
          transaction.evidence_sha256 current = evidence
       then receipt_op tid
       else raiseS (Validation_Error ''budget transaction'' ''committed usage may only be replayed identically''))
    else if txn_state current \<noteq> Request_Authorized
    then raiseS (Validation_Error ''budget transaction'' ''commit requires request_authorized state'')
    else append_event ((plain_event Act_Committed tid (identity current))
           \<lparr>ev_actual_cost := JInt cost, ev_actual_tokens := JInt tokens, ev_evidence := evidence\<rparr>)))))"

definition document_events :: "json \<Rightarrow> json list" where
  "document_events d =
    (case d of JObj kvs \<Rightarrow> (case field kvs ''events'' of JArr es \<Rightarrow> es | _ \<Rightarrow> []) | _ \<Rightarrow> [])"

definition event_authorizes :: "json \<Rightarrow> string \<Rightarrow> bool" where
  "event_authorizes e tid \<longleftrightarrow>
    (case e of JObj kvs \<Rightarrow> field kvs ''action'' = JStr ''request_authorized'' \<and>
       field kvs ''transaction_id'' = JStr tid
     | _ \<Rightarrow> False)"

definition adopt_durable_authorization :: "string \<Rightarrow> bool jop" where
  "adopt_durable_authorization tid =
    bindS (get_journal (\<lambda>j. (jn_document j, jn_state j))) (\<lambda>mem.
    case mem of
      (Some doc, Some st) \<Rightarrow>
        bindS reject_temporary (\<lambda>_.
        bindS read_document (\<lambda>current.
        bindS (liftS (replay_document current)) (\<lambda>current_state.
        if same_head current_state st then returnS False
        else
          let ours = document_events doc; events = document_events current
          in if js_journal_id current_state = js_journal_id st \<and>
                length events = length ours + 1 \<and>
                py_eq (JArr (take (length ours) events)) (JArr ours) \<and>
                event_authorizes (last events) tid
             then bindS (set_journal (\<lambda>j. j\<lparr>jn_document := Some current, jn_state := Some current_state\<rparr>))
                    (\<lambda>_. returnS True)
             else raiseS drift_error)))
    | _ \<Rightarrow> raiseS Assertion_Error)"

definition abort_pre_request :: "string \<Rightarrow> receipt jop" where
  "abort_pre_request tid =
    bindS (transaction_op tid) (\<lambda>current0.
    if txn_state current0 = Aborted_Pre_Request then receipt_op tid
    else
      bindS (if txn_state current0 = Reserved then adopt_durable_authorization tid else returnS False) (\<lambda>adopted.
      bindS (if adopted then transaction_op tid else returnS current0) (\<lambda>current.
      if txn_state current \<noteq> Reserved then raiseS Transaction_Not_Abortable
      else append_event (plain_event Act_Aborted tid (identity current)))))"

section \<open>Reading the journal\<close>

definition transaction_evidence :: "string \<Rightarrow> string option jop" where
  "transaction_evidence tid = bindS (transaction_op tid) (\<lambda>t. returnS (transaction.evidence_sha256 t))"

definition resume_events_op :: "string \<Rightarrow> resume_event list jop" where
  "resume_events_op tid = bindS (transaction_op tid) (\<lambda>t. returnS (resume_events t))"

definition transaction_receipts :: "receipt list jop" where
  "transaction_receipts =
    bindS require_open (\<lambda>st.
    liftS (mapE (\<lambda>t. transaction_receipt_from_state st (transaction_id t))
      (sort_key reservation_revision (map snd (js_transactions st)))))"

record snapshot =
  sn_journal_id :: string
  sn_authority :: budget_authority
  sn_revision :: int
  sn_head_sha256 :: string
  committed_cost :: int
  committed_tokens :: int
  unsettled_cost :: int
  unsettled_tokens :: int
  total_exposure_cost :: int
  total_exposure_tokens :: int
  transaction_states :: "(txn_state \<times> nat) list"

definition committed_sum :: "(transaction \<Rightarrow> int option) \<Rightarrow> transactions \<Rightarrow> int" where
  "committed_sum f txns =
    sum_list (map (\<lambda>t. case f t of Some x \<Rightarrow> x | None \<Rightarrow> 0)
      (filter (\<lambda>t. txn_state t = Committed) (map snd txns)))"

definition unsettled_sum :: "(budget_transaction \<Rightarrow> int) \<Rightarrow> transactions \<Rightarrow> int" where
  "unsettled_sum f txns =
    sum_list (map (f \<circ> identity)
      (filter (\<lambda>t. txn_state t = Reserved \<or> txn_state t = Request_Authorized) (map snd txns)))"

definition count_states :: "transactions \<Rightarrow> (txn_state \<times> nat) list" where
  "count_states txns =
    fold (\<lambda>t m. AList.update (txn_state t) (case map_of m (txn_state t) of None \<Rightarrow> 1 | Some n \<Rightarrow> n + 1) m)
      (map snd txns) []"

definition snapshot_of :: "journal_state \<Rightarrow> snapshot" where
  "snapshot_of st =
    (let txns = js_transactions st;
         cc = committed_sum actual_cost_microusd txns; ct = committed_sum actual_metered_tokens txns;
         uc = unsettled_sum max_cost_microusd txns; ut = unsettled_sum max_metered_tokens txns
     in \<lparr>sn_journal_id = js_journal_id st, sn_authority = js_authority st, sn_revision = js_revision st,
         sn_head_sha256 = js_head_sha256 st, committed_cost = cc, committed_tokens = ct,
         unsettled_cost = uc, unsettled_tokens = ut, total_exposure_cost = cc + uc,
         total_exposure_tokens = ct + ut, transaction_states = count_states txns\<rparr>)"

definition snapshot_op :: "snapshot jop" where
  "snapshot_op = bindS require_open (\<lambda>st. returnS (snapshot_of st))"

definition checkpoint_payload :: "string jop" where
  "checkpoint_payload =
    bindS require_open (\<lambda>_.
    bindS reobserve (\<lambda>_.
    bindS (get_journal jn_document) (\<lambda>doc.
    case doc of
      None \<Rightarrow> raiseS Assertion_Error
    | Some d \<Rightarrow> returnS (stable_json d @ [newline]))))"

end
