(* ===== verification/Budget_Append.thy ===== *)
theory Budget_Append
  imports Budget_Canon Budget_Journal
begin

text \<open>
  What \<open>_append\<close> does to a document: the event it seals passes the frame checks of the replay, so
  the replay of the longer document is one \<open>apply_action\<close> away from the replay of the old one,
  accepted or refused by the state machine alone.
\<close>

section \<open>The fields of an extended document\<close>

lemma field_update: "field (AList.update k v kvs) j = (if j = k then v else field kvs j)"
  by (simp add: dict_get_none_def update_conv')

lemma keys_update: "set (keys (AList.update k v kvs)) = insert k (set (keys kvs))"
  by (induction kvs) auto

lemma field_extend:
  "field (extend_document doc n ev) ''revision'' = JInt n"
  "field (extend_document doc n ev) ''head_sha256'' = field ev ''event_sha256''"
  "field (extend_document doc n ev) ''schema_version'' = field doc ''schema_version''"
  "field (extend_document doc n ev) ''authority'' = field doc ''authority''"
  "field (extend_document doc n ev) ''journal_id'' = field doc ''journal_id''"
  "field doc ''events'' = JArr es \<Longrightarrow> field (extend_document doc n ev) ''events'' = JArr (es @ [JObj ev])"
  by (simp_all add: extend_document_def field_update)

lemma keys_extend: "set (keys doc) = set document_keys \<Longrightarrow> set (keys (extend_document doc n ev)) = set document_keys"
  unfolding extend_document_def keys_update document_keys_def list.set by (simp only: insert_absorb2 insert_commute)

section \<open>The fields of a sealed event\<close>

definition ev_shape :: "event_fields \<Rightarrow> bool" where
  \<comment> \<open>only a resume carries a payload, only a commit may carry evidence\<close>
  "ev_shape ev \<longleftrightarrow> (ev_resume ev = None \<longleftrightarrow> ev_action ev \<noteq> Act_Trial_Resume) \<and>
    (ev_evidence ev \<noteq> None \<longrightarrow> ev_action ev = Act_Committed)"

lemma field_body:
  "field (event_body st now ev) ''revision'' = JInt (js_revision st + 1)"
  "field (event_body st now ev) ''previous_head_sha256'' = JStr (js_head_sha256 st)"
  "field (event_body st now ev) ''action'' = JStr (action_name (ev_action ev))"
  "field (event_body st now ev) ''transaction_id'' = JStr (ev_transaction_id ev)"
  "field (event_body st now ev) ''identity'' = identity_json (ev_identity ev)"
  "field (event_body st now ev) ''actual_cost_microusd'' = ev_actual_cost ev"
  "field (event_body st now ev) ''actual_metered_tokens'' = ev_actual_tokens ev"
  "field (event_body st now ev) ''recorded_at_unix_ns'' = JInt now"
  "field (event_body st now ev) ''resume'' = (case ev_resume ev of None \<Rightarrow> JNull | Some r \<Rightarrow> r)"
  "field (event_body st now ev) ''evidence_sha256'' = (case ev_evidence ev of None \<Rightarrow> JNull | Some h \<Rightarrow> JStr h)"
  by (simp_all add: event_body_def dict_get_none_def split: option.split)

lemma keys_body:
  "keys (event_body st now ev) =
    [''revision'', ''previous_head_sha256'', ''action'', ''transaction_id'', ''identity'',
     ''actual_cost_microusd'', ''actual_metered_tokens'', ''recorded_at_unix_ns'']
    @ (if ev_resume ev = None then [] else [''resume''])
    @ (if ev_evidence ev = None then [] else [''evidence_sha256''])"
  by (simp add: event_body_def split: option.split)

lemma own_hash_fresh: "''event_sha256'' \<notin> set (keys (event_body st now ev))"
  unfolding keys_body by simp

lemma distinct_body: "distinct (keys (event_body st now ev))"
  unfolding keys_body by simp

lemma without_hash_sealed: "event_without_hash (sealed_event (event_body st now ev)) = event_body st now ev"
proof -
  have "filter (\<lambda>kv. fst kv \<noteq> ''event_sha256'') xs = xs" if "''event_sha256'' \<notin> set (keys xs)"
    for xs :: json_object
    using that by (induction xs) auto
  from this [OF own_hash_fresh] show ?thesis
    by (simp only: event_without_hash_def sealed_event_def filter_append) simp
qed

lemma field_sealed:
  "k \<noteq> ''event_sha256'' \<Longrightarrow> field (sealed_event (event_body st now ev)) k = field (event_body st now ev) k"
  "field (sealed_event (event_body st now ev)) ''event_sha256'' =
     JStr (canonical_sha256 (JObj (event_body st now ev)))"
proof -
  have other: "map_of (xs @ [(j, v)]) k = map_of xs k" if "k \<noteq> j" for xs :: json_object and j v k
    using that by (simp add: map_add_def split: option.split)
  show "k \<noteq> ''event_sha256'' \<Longrightarrow>
      field (sealed_event (event_body st now ev)) k = field (event_body st now ev) k"
    unfolding sealed_event_def dict_get_none_def by (simp only: other not_False_eq_True)
  have "map_of (xs @ [(j, v)]) j = Some v" if "j \<notin> set (keys xs)" for xs :: json_object and j v
    using map_of_outside [OF that] by (simp add: map_add_def)
  from this [OF own_hash_fresh]
  show "field (sealed_event (event_body st now ev)) ''event_sha256'' =
     JStr (canonical_sha256 (JObj (event_body st now ev)))"
    by (simp only: sealed_event_def dict_get_none_def option.case)
qed

lemma keys_sealed:
  "keys (sealed_event (event_body st now ev)) = keys (event_body st now ev) @ [''event_sha256'']"
  by (simp add: sealed_event_def)

lemma sealed_shape:
  assumes "ev_shape ev"
  shows "set (keys (sealed_event (event_body st now ev))) =
    set (event_keys (JObj (sealed_event (event_body st now ev))))"
proof -
  let ?e = "sealed_event (event_body st now ev)"
  have act: "field ?e ''action'' = JStr (action_name (ev_action ev))"
    by (simp add: field_sealed field_body)
  have resume: "resume_shaped (JObj ?e) \<longleftrightarrow> ev_resume ev \<noteq> None"
    using assms by (cases "ev_action ev") (simp_all add: resume_shaped_def event_action_is_def act ev_shape_def)
  have seal: "''evidence_sha256'' \<in> set (keys ?e) \<longleftrightarrow> ev_evidence ev \<noteq> None"
    unfolding keys_sealed keys_body by simp
  have evidence: "evidence_shaped (JObj ?e) \<longleftrightarrow> ev_evidence ev \<noteq> None"
    unfolding evidence_shaped_def event_action_is_def json.case act seal
    using assms by (cases "ev_action ev") (auto simp: ev_shape_def)
  have swap: "(if b then [x] else []) = (if \<not> b then [] else [x])" for b and x :: string by simp
  show ?thesis
    unfolding event_keys_def resume evidence keys_sealed keys_body set_append list.set swap not_not
    by (simp only: Un_insert_right Un_insert_left Un_empty_right Un_empty_left Un_ac insert_commute)
qed

lemma check_frame_sealed:
  assumes "ev_shape ev" and "is_hash_str (js_head_sha256 st)" and "js_revision st = int n"
  shows "check_frame w (Suc n) (js_head_sha256 st) (JObj (sealed_event (event_body st now ev))) =
    Inr (sealed_event (event_body st now ev), canonical_sha256 (JObj (event_body st now ev)))"
  unfolding check_frame_Inr using assms sealed_shape [OF assms(1)]
  by (simp add: field_sealed field_body without_hash_sealed)

section \<open>One more event\<close>

definition next_state :: "journal_state \<Rightarrow> string \<Rightarrow> transactions \<Rightarrow> journal_state" where
  "next_state st h txns = st\<lparr>js_revision := js_revision st + 1, js_head_sha256 := h, js_transactions := txns\<rparr>"

definition ev_known :: "event_fields \<Rightarrow> bool" where
  "ev_known ev \<longleftrightarrow> ev_shape ev \<and> is_hash_str (ev_transaction_id ev) \<and> identity_ok (ev_identity ev)"

definition event_result :: "journal_state \<Rightarrow> int \<Rightarrow> event_fields \<Rightarrow> transactions result" where
  \<comment> \<open>what the state machine makes of the event that would be appended\<close>
  "event_result st now ev =
    (let event = sealed_event (event_body st now ev); w = event_where (Suc (nat (js_revision st)))
     in bindE (apply_action (js_journal_id st) w (js_revision st + 1) (canonical_sha256 (JObj (event_body st now ev)))
          (ev_action ev) (ev_transaction_id ev) (ev_identity ev) event (js_transactions st)) (\<lambda>txns.
        bindE (check_exposure (js_authority st) w txns) (\<lambda>_. Inr txns)))"

lemma replay_document_head:
  assumes "replay_document d = Inr st"
  shows "is_hash_str (js_head_sha256 st)" and "0 \<le> js_revision st"
  using assms unfolding replay_document_Inr by auto

lemma replay_event_sealed:
  assumes ev: "ev_known ev" and now: "1 \<le> now"
    and st: "is_hash_str (js_head_sha256 st)" "js_revision st = int n"
  shows "replay_event (js_journal_id st) (js_authority st)
      (Suc n, JObj (sealed_event (event_body st now ev))) (js_transactions st, js_head_sha256 st) =
    bindE (event_result st now ev) (\<lambda>txns. Inr (txns, canonical_sha256 (JObj (event_body st now ev))))"
proof -
  have shape: "ev_shape ev" and tid: "is_hash_str (ev_transaction_id ev)" and i: "identity_ok (ev_identity ev)"
    using ev by (simp_all add: ev_known_def)
  let ?e = "sealed_event (event_body st now ev)"
  have f: "field ?e ''action'' = JStr (action_name (ev_action ev))"
    "field ?e ''transaction_id'' = JStr (ev_transaction_id ev)"
    "field ?e ''identity'' = identity_json (ev_identity ev)" "field ?e ''recorded_at_unix_ns'' = JInt now"
    by (simp_all add: field_sealed field_body)
  have ok: "action_of (JStr (action_name (ev_action ev))) w = Inr (ev_action ev)"
    "require_hash (JStr (ev_transaction_id ev)) w = Inr (ev_transaction_id ev)"
    "require_integer (JInt now) w 1 = Inr now" for w
    using tid now by (simp_all add: check_simps)
  show ?thesis
    unfolding replay_event_def prod.case check_frame_sealed [OF shape st] bindE_Inr
      replay_framed_def Let_def f ok validate_identity_json [OF i] event_result_def bindE_assoc st(2)
    by (simp only: nat_int of_nat_Suc add.commute)
qed

theorem replay_extend:
  assumes st: "replay_document (JObj doc) = Inr st" and ev: "ev_known ev" and now: "1 \<le> now"
  shows "replay_document (JObj (extend_document doc (js_revision st + 1) (sealed_event (event_body st now ev)))) =
    bindE (event_result st now ev)
      (\<lambda>txns. Inr (next_state st (canonical_sha256 (JObj (event_body st now ev))) txns))"
proof -
  let ?ev = "sealed_event (event_body st now ev)" and ?h = "canonical_sha256 (JObj (event_body st now ev))"
  let ?doc = "extend_document doc (js_revision st + 1) ?ev"
  from st obtain es where keys: "set (keys doc) = set document_keys"
    and v: "py_eq (field doc ''schema_version'') (JInt journal_schema_version)"
      "validate_authority_record (field doc ''authority'') ''budget journal.authority'' = Inr (js_authority st)"
      "field doc ''journal_id'' = JStr (js_journal_id st)" "js_journal_id st = journal_id_of (js_authority st)"
    and es: "field doc ''events'' = JArr es" and n: "js_revision st = int (length es)"
    and run: "replay_events (js_journal_id st) (js_authority st) es = Inr (js_transactions st, js_head_sha256 st)"
    unfolding replay_document_Inr by auto
  have head: "is_hash_str (js_head_sha256 st)" by (rule replay_document_head [OF st])
  have jid: "require_hash (JStr (js_journal_id st)) w = Inr (js_journal_id st)" for w
    unfolding v(4) by (simp add: check_simps journal_id_of_def)
  have ints: "require_integer (JInt (int (length es) + 1)) w 0 = Inr (int (length es) + 1)" for w
    by (simp add: check_simps)
  have hash: "require_hash (JStr ?h) w = Inr ?h" for w by (simp add: check_simps)
  have obj: "exact_object (JObj ?doc) w document_keys = Inr ?doc" for w
    by (simp only: exact_object_Inr keys_extend [OF keys])
  have all: "replay_events (js_journal_id st) (js_authority st) (es @ [JObj ?ev]) =
      bindE (event_result st now ev) (\<lambda>txns. Inr (txns, ?h))"
    unfolding replay_events_snoc run bindE_Inr by (rule replay_event_sealed [OF ev now head n])
  have len: "int (length es) + 1 = int (length (es @ [JObj ?ev]))" by simp
  have "replay_document (JObj ?doc) =
      bindE (event_result st now ev) (\<lambda>txns. Inr \<lparr>js_journal_id = js_journal_id st,
        js_authority = js_authority st, js_revision = js_revision st + 1, js_head_sha256 = ?h,
        js_transactions = txns\<rparr>)"
    unfolding replay_document_def obj bindE_Inr replay_fields_def field_extend(1-5) field_extend(6) [OF es]
      v(2,3) jid json.case all
    using v(1) v(4) n
    by (simp add: field_sealed check_simps bindE_assoc ints hash)
  then show ?thesis by (cases st) (simp add: next_state_def)
qed

end
