(* ===== verification/Codec.thy ===== *)
theory Codec
  imports Py_Prelude
begin

text \<open>
  The interface of a durable text format: what is written is read back up to a normal form,
  which is written the same way. Every file the control plane rewrites (the budget journal, the
  contract ledgers) is one; each interpretation is in the theory of its format.
\<close>

locale codec =
  fixes enc :: "'v \<Rightarrow> string" and dec :: "string \<Rightarrow> 'e + 'v"
    and norm :: "'v \<Rightarrow> 'v" and storable :: "'v \<Rightarrow> bool"
  assumes dec_enc: "storable v \<Longrightarrow> dec (enc v) = Inr (norm v)"
    and norm_storable: "storable v \<Longrightarrow> storable (norm v)"
    and enc_norm: "storable v \<Longrightarrow> enc (norm v) = enc v"
begin

lemma enc_eq_iff: "storable v \<Longrightarrow> storable w \<Longrightarrow> enc v = enc w \<longleftrightarrow> norm v = norm w"
  by (metis dec_enc enc_norm sum.inject(2))

lemma reread: "storable v \<Longrightarrow> dec (enc v) = Inr u \<Longrightarrow> storable u \<and> enc u = enc v"
  by (metis dec_enc enc_norm norm_storable sum.inject(2))

text \<open>Reading and writing any number of times changes neither the text nor the value.\<close>

lemma reread_twice: "storable v \<Longrightarrow> dec (enc v) = Inr u \<Longrightarrow> dec (enc u) = Inr u"
  by (metis reread)

end

end
