(* ===== verification/Budget_Durability.thy ===== *)
theory Budget_Durability
  imports Budget_Append Codec
begin

text \<open>
  What the journal file holds after an operation, whatever system call fails and wherever the
  fault hook raises: the document it held before, or that document with one more event that the
  ledger allows. A result is returned only in the second case, or when nothing had to change. And what
  a power loss can leave after a document was written.
\<close>

section \<open>The journal file\<close>

definition journal_text :: "json \<Rightarrow> string" where
  "journal_text d = stable_json d @ [newline]"

definition storable :: "json \<Rightarrow> bool" where
  "storable d \<longleftrightarrow> plain d \<and> utf8_json d \<and> is_dict d"

lemma accepts_unique_hook: "accepts_distinct unique_hook"
proof -
  have "distinct (rev seen @ ks) \<Longrightarrow> first_duplicate seen ks = None" for seen ks
    by (induction ks arbitrary: seen) auto
  from this [of "[]"] show ?thesis by (simp add: accepts_distinct_def unique_hook_def)
qed

lemma is_dict_canon [simp]: "is_dict (canon d) = is_dict d"
  by (cases d) simp_all

lemma unique_json_text:
  assumes "storable d"
  shows "unique_json (journal_text d) w = Inr (canon d)"
proof -
  have "utf8_valid (journal_text d)"
    using assms utf8_valid_append [of "stable_json d" "[newline]"]
    by (simp add: journal_text_def storable_def utf8_valid_stable_json char_code_def)
  moreover have "loads unique_hook (journal_text d) = Inr (canon d)"
    unfolding journal_text_def using assms
    by (intro stable_json_roundtrip [OF accepts_unique_hook]) (simp_all add: storable_def white_def is_ws_def)
  ultimately show ?thesis using assms by (simp add: unique_json_def storable_def)
qed

interpretation journal_codec: codec journal_text "\<lambda>p. unique_json p w" canon storable
proof
  show "unique_json (journal_text v) w = Inr (canon v)" if "storable v" for v
    by (rule unique_json_text [OF that])
  show "storable (canon v)" if "storable v" for v
    using that by (simp add: storable_def plain_canon utf8_json_canon)
  show "journal_text (canon v) = journal_text v" for v
    by (simp add: journal_text_def stable_json_canon)
qed

section \<open>Reading and writing\<close>

lemma write_all_prefix: "write_all sizes p = (q, ok) \<Longrightarrow> \<exists>r. p = q @ r \<and> (ok \<longrightarrow> r = [])"
proof (induction sizes p arbitrary: q ok rule: write_all.induct)
  case (3 n sizes c p)
  show ?case
  proof (cases "n = 0")
    case False
    obtain u b where u: "write_all sizes (drop n (c # p)) = (u, b)" by fastforce
    with 3 False obtain r where "drop n (c # p) = u @ r" "b \<longrightarrow> r = []" by blast
    moreover have "q = take n (c # p) @ u" "ok = b" using 3(2) u False by simp_all
    ultimately show ?thesis by (metis append.assoc append_take_drop_id)
  qed (use 3 in auto)
qed simp_all

lemma read_loop_all:
  "observed + length rest \<le> max_journal_bytes \<Longrightarrow> read_loop rest observed chunks = Inr (chunks @ rest)"
proof (induction rest observed chunks rule: read_loop.induct)
  case (1 rest observed chunks)
  show ?case
  proof (cases "rest = []")
    case False
    let ?c = "take (min 65536 (max_journal_bytes + 1 - observed)) rest"
    have c: "?c \<noteq> []" using False 1(2) by (simp add: max_journal_bytes_def)
    have le: "\<not> max_journal_bytes < observed + length ?c" using 1(2) by simp
    have "read_loop (drop (length ?c) rest) (observed + length ?c) (chunks @ ?c) =
        Inr ((chunks @ ?c) @ drop (length ?c) rest)"
      using 1(2) by (intro 1(1) [OF refl c le]) simp
    moreover have "(chunks @ ?c) @ drop (length ?c) rest = chunks @ rest"
      by (simp add: append_take_drop_id) (metis append_take_drop_id length_take min_def nle_le take_all_iff drop_eq_Nil)
    ultimately show ?thesis
      using c le by (subst read_loop.simps) (simp add: Let_def del: length_take)
  qed (subst read_loop.simps, simp)
qed

lemma read_loop_refuses:
  "observed \<le> max_journal_bytes \<Longrightarrow> max_journal_bytes < observed + length rest \<Longrightarrow>
   read_loop rest observed chunks = fail ''budget journal'' ''exceeds the safety limit''"
proof (induction rest observed chunks rule: read_loop.induct)
  case (1 rest observed chunks)
  let ?c = "take (min 65536 (max_journal_bytes + 1 - observed)) rest"
  have c: "?c \<noteq> []" using 1(2,3) by auto
  show ?case
  proof (cases "max_journal_bytes < observed + length ?c")
    case False
    have "read_loop (drop (length ?c) rest) (observed + length ?c) (chunks @ ?c) =
        fail ''budget journal'' ''exceeds the safety limit''"
      using False 1(2,3) by (intro 1(1) [OF refl c False]) auto
    then show ?thesis using c False by (subst read_loop.simps) (simp add: Let_def del: length_take)
  next
    case True
    then show ?thesis using c by (subst read_loop.simps) (simp add: Let_def del: length_take)
  qed
qed

definition file_good :: "inode \<Rightarrow> int \<Rightarrow> bool" where
  "file_good f uid \<longleftrightarrow> open_nofollow_result f False \<and> validate_regular f uid ''budget journal'' = Inr ()"

text \<open>Reading a good file gives the document it was written from.\<close>

lemma read_document_good:
  assumes "journal_file w = Some f" and "f_data f = journal_text d" and "storable d"
    and "read_document (j, w) = (r, s)"
  shows "s = (j, w) \<and> (\<forall>v. r = Inr v \<longrightarrow> v = canon d)"
proof -
  have dec: "unique_json (journal_text d) ''budget journal'' = Inr (canon d)"
    by (rule unique_json_text [OF assms(3)])
  show ?thesis
  proof (cases r)
    case (Inl e)
    then show ?thesis using assms(4)
      by (auto simp: read_document_def assms(1) os_call_def op_simps)
  next
    case (Inr v)
    with assms(4) have len: "length (journal_text d) \<le> max_journal_bytes" and "s = (j, w)"
      and "read_loop (journal_text d) 0 [] = Inr p \<Longrightarrow> unique_json p ''budget journal'' = Inr v" for p
      by (auto simp: read_document_def assms(1,2) os_call_def op_simps)
    moreover have "read_loop (journal_text d) 0 [] = Inr (journal_text d)"
      using read_loop_all [of 0 "journal_text d" "[]"] len by simp
    ultimately show ?thesis using dec Inr by simp
  qed
qed

lemma read_document_state: "read_document s = (r, t) \<Longrightarrow> t = s"
  by (cases r; cases "journal_file (snd s)")
    (auto simp: read_document_def os_call_def op_simps)

lemma reject_temporary_state: "reject_temporary s = (r, t) \<Longrightarrow> t = s"
  by (cases r) (auto simp: reject_temporary_def entry_exists_def op_simps)

text \<open>The file \<open>persist\<close> puts in place.\<close>

definition written_file :: "int \<Rightarrow> json \<Rightarrow> inode" where
  "written_file uid d = (new_inode uid)\<lparr>f_data := journal_text d, f_durable := journal_text d\<rparr>"

definition installs :: "json \<Rightarrow> jstate \<Rightarrow> jstate \<Rightarrow> bool" where
  \<comment> \<open>only the temporary file changed, or the document is in place\<close>
  "installs d s t \<longleftrightarrow> fst t = fst s \<and> euid (snd t) = euid (snd s) \<and> clock (snd t) = clock (snd s) \<and>
    (journal_file (snd t) = journal_file (snd s) \<or> journal_file (snd t) = Some (written_file (euid (snd s)) d))"

lemma persist_installs:
  assumes "persist d s = (r, t)"
  shows "installs d s t"
    and "r = Inr u \<Longrightarrow> journal_file (snd t) = Some (written_file (euid (snd s)) d) \<and> temp_file (snd t) = None \<and>
      length (journal_text d) \<le> max_journal_bytes"
proof -
  obtain q ok where q: "write_all (write_sizes (snd s)) (journal_text d) = (q, ok)" by fastforce
  have whole: "q = journal_text d" if ok using write_all_prefix [OF q] that by simp
  note steps = persist_def journal_text_def [symmetric] Let_def create_temporary_def write_temporary_def
    os_call_def validate_temporary_def fault_hook_def replace_journal_def op_simps installs_def written_file_def
    fsync_temporary_def fsync_directory_def
  show "installs d s t"
    using assms q whole
    by (cases r; cases s) (auto simp: steps split: prod.splits option.splits)
  show "journal_file (snd t) = Some (written_file (euid (snd s)) d) \<and> temp_file (snd t) = None \<and>
      length (journal_text d) \<le> max_journal_bytes" if "r = Inr u"
    using assms q whole that
    by (cases s) (auto simp: steps split: prod.splits option.splits)
qed

text \<open>
  What a reader may find after a power loss: the bytes on the disk of any entry the directory may
  have for the journal. The bytes of the file a running process sees may be more recent.
\<close>

definition after_power_loss :: "world \<Rightarrow> string option set" where
  "after_power_loss w = map_option f_durable ` set (survivors w)"

definition file_bytes :: "world \<Rightarrow> string option" where
  "file_bytes w = map_option f_data (journal_file w)"

lemma persist_durable:
  assumes "persist d s = (r, t)"
  shows "after_power_loss (snd t) \<subseteq> insert (file_bytes (snd t)) (after_power_loss (snd s))"
    and "r = Inr u \<Longrightarrow> after_power_loss (snd t) = {file_bytes (snd t)}"
proof -
  obtain q ok where q: "write_all (write_sizes (snd s)) (journal_text d) = (q, ok)" by fastforce
  note steps = persist_def journal_text_def [symmetric] Let_def create_temporary_def write_temporary_def
    os_call_def validate_temporary_def fault_hook_def replace_journal_def op_simps after_power_loss_def file_bytes_def
    fsync_temporary_def fsync_directory_def
  show "after_power_loss (snd t) \<subseteq> insert (file_bytes (snd t)) (after_power_loss (snd s))"
    using assms q
    by (cases r; cases s) (auto simp: steps split: prod.splits option.splits)
  show "after_power_loss (snd t) = {file_bytes (snd t)}" if "r = Inr u"
    using assms q that
    by (cases s) (auto simp: steps split: prod.splits option.splits)
qed

section \<open>An extended document can be stored\<close>

definition ev_text :: "event_fields \<Rightarrow> bool" where
  \<comment> \<open>the strings of an event are Unicode text, its payload is JSON without floats\<close>
  "ev_text ev \<longleftrightarrow>
    utf8_valid (run_id (ev_identity ev)) \<and> utf8_valid (provider_identity (ev_identity ev)) \<and>
    plain (ev_actual_cost ev) \<and> utf8_json (ev_actual_cost ev) \<and>
    plain (ev_actual_tokens ev) \<and> utf8_json (ev_actual_tokens ev) \<and>
    (\<forall>v. ev_resume ev = Some v \<longrightarrow> plain v \<and> utf8_json v) \<and>
    (\<forall>h. ev_evidence ev = Some h \<longrightarrow> utf8_valid h)"

lemma hex_char_ascii: "hex_char c \<Longrightarrow> char_code c < 128"
  by (auto simp: hex_char_def is_digit_def)

lemma utf8_hash [simp]: "is_hash_str h \<Longrightarrow> utf8_valid h"
  by (rule utf8_valid_ascii) (simp add: is_hash_str_def hex_char_ascii)

lemma utf8_literal: "list_all (\<lambda>c. char_code c < 128) s \<Longrightarrow> utf8_valid s"
  by (rule utf8_valid_ascii) (simp add: list_all_iff)

lemma utf8_action_name [simp]: "utf8_valid (action_name act)"
  by (rule utf8_literal, cases act) (simp_all add: char_code_def)

lemma storable_update:
  assumes "storable (JObj kvs)" and "plain v" and "utf8_json v" and "utf8_valid k"
  shows "storable (JObj (AList.update k v kvs))"
proof -
  have "set (AList.update k v kvs) \<subseteq> insert (k, v) (set kvs)" for kvs
    by (induction kvs) auto
  from subsetD [OF this] show ?thesis using assms by (fastforce simp: storable_def distinct_update)
qed

lemma plain_identity: "plain (identity_json i)"
  by (simp add: identity_json_def)

lemma utf8_identity:
  "identity_ok i \<Longrightarrow> utf8_valid (run_id i) \<Longrightarrow> utf8_valid (provider_identity i) \<Longrightarrow> utf8_json (identity_json i)"
  by (simp add: identity_json_def identity_ok_def utf8_literal char_code_def)

lemma utf8_body_keys: "\<forall>k \<in> set (keys (event_body st now ev)). utf8_valid k"
  unfolding keys_body by (simp add: utf8_literal char_code_def)

lemma storable_event:
  assumes "ev_known ev" and "ev_text ev" and "is_hash_str (js_head_sha256 st)"
  shows "plain (JObj (sealed_event (event_body st now ev)))"
    and "utf8_json (JObj (sealed_event (event_body st now ev)))"
proof -
  let ?b = "event_body st now ev"
  have vals: "\<forall>kv \<in> set ?b. plain (snd kv) \<and> utf8_json (snd kv)"
    using assms utf8_identity [of "ev_identity ev"]
    by (auto simp: event_body_def ev_text_def ev_known_def plain_identity split: option.splits)
  have "distinct (keys (sealed_event ?b))"
    using distinct_body own_hash_fresh by (simp add: keys_sealed del: set_map)
  with vals show "plain (JObj (sealed_event ?b))" by (auto simp: sealed_event_def)
  have "utf8_valid ''event_sha256''" by (simp add: utf8_literal char_code_def)
  with vals utf8_body_keys [of st now ev] show "utf8_json (JObj (sealed_event ?b))"
    by (auto simp: sealed_event_def)
qed

lemma storable_extend:
  assumes doc: "storable (JObj doc)" and es: "field doc ''events'' = JArr es"
    and ev: "ev_known ev" "ev_text ev" "is_hash_str (js_head_sha256 st)"
  shows "storable (JObj (extend_document doc n (sealed_event (event_body st now ev))))"
proof -
  have "plain (field doc ''events'')" "utf8_json (field doc ''events'')"
    using doc by (auto simp: storable_def dict_get_none_def split: option.split dest: map_of_SomeD)
  then show ?thesis
    unfolding extend_document_def es json.case field_sealed
    using doc storable_event [OF ev, of now]
    by (intro storable_update) (auto simp: es utf8_literal char_code_def)
qed

section \<open>What the disk says\<close>

definition disk_state :: "world \<Rightarrow> journal_state option" where
  \<comment> \<open>the state a reader of the journal file replays\<close>
  "disk_state w = (case journal_file w of None \<Rightarrow> None | Some f \<Rightarrow>
     (case bindE (unique_json (f_data f) []) replay_document of Inr st \<Rightarrow> Some st | Inl _ \<Rightarrow> None))"

definition holds :: "world \<Rightarrow> json \<Rightarrow> journal_state \<Rightarrow> bool" where
  "holds w d st \<longleftrightarrow> storable d \<and> replay_document d = Inr st \<and>
    (\<exists>f. journal_file w = Some f \<and> f_data f = journal_text d)"

definition disk_ok :: "world \<Rightarrow> bool" where
  "disk_ok w \<longleftrightarrow> journal_file w = None \<or> (\<exists>d st. holds w d st)"

lemma holds_state: "holds w d st \<Longrightarrow> disk_state w = Some st"
  by (auto simp: holds_def disk_state_def unique_json_text replay_document_canon storable_def)

lemma holds_canon: "holds w d st \<Longrightarrow> holds w (canon d) st"
  by (auto simp: holds_def storable_def plain_canon utf8_json_canon replay_document_canon
      journal_text_def stable_json_canon)

lemma holds_file: "journal_file w' = journal_file w \<Longrightarrow> holds w' d st = holds w d st"
  by (simp add: holds_def)

lemma disk_file: "journal_file w' = journal_file w \<Longrightarrow> disk_ok w' = disk_ok w \<and> disk_state w' = disk_state w"
  by (simp add: disk_ok_def holds_def disk_state_def)

section \<open>Observing and appending\<close>

lemma reobserve_cases:
  assumes ok: "disk_ok w" and run: "reobserve (j, w) = (r, (j', w'))"
  shows "w' = w" and "r = Inl e \<Longrightarrow> j' = j"
    and "r = Inr u \<Longrightarrow> \<exists>d st. holds w d st \<and> temp_file w = None \<and>
      j' = j\<lparr>jn_document := Some d, jn_state := Some st\<rparr>"
proof -
  show "w' = w" and "r = Inl e \<Longrightarrow> j' = j"
    using run by (cases r; auto simp: reobserve_def op_simps apfst_def dest!: read_document_state
      reject_temporary_state)+
  assume r: "r = Inr u"
  from run [unfolded r reobserve_def op_simps] obtain v st s1 s2 where s1: "reject_temporary (j, w) = (Inr (), s1)"
    and s2: "read_document s1 = (Inr v, s2)" and st: "replay_document v = Inr st"
    and s3: "(j', w') = apfst (\<lambda>j. j\<lparr>jn_document := Some v, jn_state := Some st\<rparr>) s2"
    by (auto dest: sym)
  have "s1 = (j, w)" "s2 = (j, w)"
    using read_document_state [OF s2] reject_temporary_state [OF s1] by simp_all
  then have temp: "reject_temporary (j, w) = (Inr (), (j, w))"
    and v: "read_document (j, w) = (Inr v, (j, w))"
    and j': "j' = j\<lparr>jn_document := Some v, jn_state := Some st\<rparr>"
    using s1 s2 s3 by simp_all
  from v have "journal_file w \<noteq> None"
    by (cases "journal_file w") (auto simp: read_document_def op_simps)
  with ok obtain d sd where d: "holds w d sd" by (auto simp: disk_ok_def)
  then have "v = canon d" using read_document_good [OF _ _ _ v] by (auto simp: holds_def)
  moreover have "sd = st" using d st calculation
    by (auto simp: holds_def storable_def replay_document_canon)
  moreover have "temp_file w = None"
    using temp by (auto simp: reject_temporary_def entry_exists_def op_simps)
  ultimately show "\<exists>d st. holds w d st \<and> temp_file w = None \<and>
      j' = j\<lparr>jn_document := Some d, jn_state := Some st\<rparr>"
    using d j' by (intro exI [of _ v] exI [of _ st]) (auto intro: holds_canon)
qed

lemma replay_clock:
  assumes "replay_document (JObj doc) = Inr st" and "ev_known ev"
    and "replay_document (JObj (extend_document doc (js_revision st + 1) (sealed_event (event_body st now ev)))) = Inr st'"
  shows "1 \<le> now"
proof -
  from assms(1) obtain es where es: "field doc ''events'' = JArr es"
    unfolding replay_document_Inr by auto
  from assms(3) obtain s g where "replay_events (js_journal_id st') (js_authority st')
      (es @ [JObj (sealed_event (event_body st now ev))]) = Inr (s, g)"
    unfolding replay_document_Inr json.inject by (auto simp only: field_extend(6) [OF es] json.inject)
  then obtain x y i where "replay_event (js_journal_id st') (js_authority st')
      (i, JObj (sealed_event (event_body st now ev))) (x, y) = Inr (s, g)"
    by (auto simp only: replay_events_snoc bindE_eq_Inr)
  then show ?thesis
    unfolding replay_event_Inr check_frame_Inr by (auto simp: field_sealed field_body)
qed

text \<open>
  What an append leaves: nothing new on disk, or one more event; with a result, the latter, in
  memory as well.
\<close>

definition untouched :: "jstate \<Rightarrow> jstate \<Rightarrow> bool" where
  \<comment> \<open>the journal file is as it was; the memory is as it was or what the file says\<close>
  "untouched s t \<longleftrightarrow> journal_file (snd t) = journal_file (snd s) \<and> jn_authority (fst t) = jn_authority (fst s) \<and>
    (jn_state (fst t) = jn_state (fst s) \<or> jn_state (fst t) = disk_state (snd s))"

definition advances :: "event_fields \<Rightarrow> jstate \<Rightarrow> jstate \<Rightarrow> bool" where
  \<comment> \<open>the journal file holds one more event, which the state machine accepted\<close>
  "advances ev s t \<longleftrightarrow> jn_authority (fst t) = jn_authority (fst s) \<and>
    (\<exists>st now txns. disk_state (snd s) = Some st \<and> event_result st now ev = Inr txns \<and>
       disk_state (snd t) = Some (next_state st (canonical_sha256 (JObj (event_body st now ev))) txns) \<and>
       (jn_state (fst t) = disk_state (snd s) \<or> jn_state (fst t) = disk_state (snd t)))"

lemma holds_written:
  "storable d \<Longrightarrow> replay_document d = Inr st \<Longrightarrow> journal_file w = Some (written_file uid d) \<Longrightarrow> holds w d st"
  by (simp add: holds_def written_file_def)

lemma require_open_state: "require_open s = (r, t) \<Longrightarrow> t = s \<and> (\<forall>st. r = Inr st \<longrightarrow> jn_state (fst s) = Some st)"
  by (cases r; cases "jn_state (fst s)")
    (auto simp: require_open_def op_simps split: bool.splits)

lemma transaction_op_state:
  "transaction_op tid s = (r, t) \<Longrightarrow>
     t = s \<and> (\<forall>x. r = Inr x \<longrightarrow> (\<exists>st. jn_state (fst s) = Some st \<and> map_of (js_transactions st) tid = Some x))"
proof (cases r)
  case (Inr x)
  assume "transaction_op tid s = (r, t)"
  with Inr obtain st s1 where s1: "require_open s = (Inr st, s1)"
    and x: "(case map_of (js_transactions st) tid of
        None \<Rightarrow> raiseS (Validation_Error ''budget transaction'' ''is unknown'') | Some t \<Rightarrow> returnS t) s1 = (Inr x, t)"
    by (auto simp: transaction_op_def op_simps)
  with require_open_state [OF s1] Inr show ?thesis
    by (cases "map_of (js_transactions st) tid") (auto simp: op_simps)
next
  case (Inl e)
  assume run: "transaction_op tid s = (r, t)"
  have "t = s" if "(case map_of (js_transactions st) tid of
      None \<Rightarrow> raiseS (Validation_Error ''budget transaction'' ''is unknown'') | Some t \<Rightarrow> returnS t) s = (Inl e, t)" for st
    using that by (cases "map_of (js_transactions st) tid") (auto simp: op_simps)
  with run Inl show ?thesis
    by (auto simp: transaction_op_def op_simps dest!: require_open_state)
qed

lemma receipt_op_state:
  assumes "receipt_op tid s = (r, t)"
  shows "t = s" and "r = Inr rc \<Longrightarrow> \<exists>st. jn_state (fst s) = Some st \<and> transaction_receipt_from_state st tid = Inr rc"
  using assms
  by (cases r; auto simp: receipt_op_def op_simps dest!: transaction_op_state require_open_state)+

theorem append_outcome:
  assumes ok: "disk_ok w" and ev: "ev_known ev" "ev_text ev"
    and run: "append_event ev (j, w) = (r, t)"
  shows "untouched (j, w) t \<and> (\<exists>e. r = Inl e) \<or> disk_ok (snd t) \<and> advances ev (j, w) t \<and>
    (\<forall>rc. r = Inr rc \<longrightarrow> (\<exists>st. jn_state (fst t) = Some st \<and> disk_state (snd t) = Some st \<and>
      transaction_receipt_from_state st (ev_transaction_id ev) = Inr rc))"
proof -
  obtain r0 s0 where ro: "require_open (j, w) = (r0, s0)" by (rule prod.exhaust)
  then have s0: "s0 = (j, w)" by (simp add: require_open_state)
  obtain r1 j1 w1 where re: "reobserve (j, w) = (r1, (j1, w1))" by (metis prod_cases3)
  note w1 = reobserve_cases(1) [OF ok re]
  show ?thesis
  proof (cases "\<exists>x u. r0 = Inr x \<and> r1 = Inr u")
    case False
    then have "t = (j, w) \<and> (\<exists>e. r = Inl e)"
      using run ro re s0 w1 reobserve_cases(2) [OF ok re]
      by (cases r0; cases r1) (auto simp: append_event_def bindS_def)
    then show ?thesis by (auto simp: untouched_def)
  next
    case True
    then obtain d st where d: "holds w d st"
      and j1: "j1 = j\<lparr>jn_document := Some d, jn_state := Some st\<rparr>"
      using reobserve_cases(3) [OF ok re] by blast
    from d obtain doc where doc: "d = JObj doc" by (cases d) (auto simp: holds_def storable_def)
    have rep: "replay_document (JObj doc) = Inr st" and sto: "storable (JObj doc)"
      using d doc by (simp_all add: holds_def)
    then obtain es where es: "field doc ''events'' = JArr es"
      unfolding replay_document_Inr by auto
    let ?e = "sealed_event (event_body st (clock w) ev)"
    let ?d' = "JObj (extend_document doc (js_revision st + 1) ?e)"
    have rest: "bindS (liftS (replay_document ?d')) (\<lambda>updated_state.
        bindS (persist ?d') (\<lambda>_.
        bindS (set_journal (\<lambda>j. j\<lparr>jn_document := Some ?d', jn_state := Some updated_state\<rparr>)) (\<lambda>_.
        receipt_op (ev_transaction_id ev)))) (j1, w) = (r, t)"
      using run True ro re s0 w1 j1 doc by (auto simp: append_event_def bindS_def op_value Let_def)
    have mem: "jn_state j1 = disk_state w" "jn_authority j1 = jn_authority j"
      using j1 holds_state [OF d] by simp_all
    show ?thesis
    proof (cases "replay_document ?d'")
      case (Inl e)
      then have "t = (j1, w) \<and> (\<exists>e. r = Inl e)" using rest by (auto simp: bindS_def op_value)
      then show ?thesis using mem by (auto simp: untouched_def)
    next
      case (Inr st')
      have now: "1 \<le> clock w" by (rule replay_clock [OF rep ev(1) Inr])
      from Inr obtain txns where txns: "event_result st (clock w) ev = Inr txns"
        and st': "st' = next_state st (canonical_sha256 (JObj (event_body st (clock w) ev))) txns"
        unfolding replay_extend [OF rep ev(1) now] by (auto simp: bindE_eq_Inr)
      have sto': "storable ?d'"
        by (rule storable_extend [OF sto es ev replay_document_head(1) [OF rep]])
      obtain r2 j2 w2 where per: "persist ?d' (j1, w) = (r2, (j2, w2))" by (metis prod_cases3)
      have inst: "installs ?d' (j1, w) (j2, w2)" by (rule persist_installs(1) [OF per])
      show ?thesis
      proof (cases r2)
        case (Inl e)
        then have t: "t = (j1, w2)" and r: "\<exists>e. r = Inl e"
          using rest Inr per inst by (auto simp: bindS_def op_value installs_def)
        show ?thesis
        proof (cases "journal_file w2 = journal_file w")
          case True
          then show ?thesis using t r mem by (auto simp: untouched_def)
        next
          case False
          with inst have "holds w2 ?d' st'"
            by (intro holds_written [OF sto' Inr]) (auto simp: installs_def)
          then have "disk_state w2 = Some st'" "disk_ok w2" by (auto simp: holds_state disk_ok_def)
          then show ?thesis using t r mem txns st' holds_state [OF d] unfolding advances_def
            by (intro disjI2) auto
        qed
      next
        case (Inr u)
        have "journal_file w2 = Some (written_file (euid w) ?d')"
          using persist_installs(2) [OF per Inr] by simp
        then have h: "holds w2 ?d' st'" by (rule holds_written [OF sto' \<open>replay_document ?d' = Inr st'\<close>])
        let ?j = "j2\<lparr>jn_document := Some ?d', jn_state := Some st'\<rparr>"
        have rc: "receipt_op (ev_transaction_id ev) (?j, w2) = (r, t)"
          using rest \<open>replay_document ?d' = Inr st'\<close> per Inr by (auto simp: bindS_def op_value)
        have t: "t = (?j, w2)" by (rule receipt_op_state(1) [OF rc])
        have j2: "j2 = j1" using inst by (simp add: installs_def)
        have "disk_state w2 = Some st'" "disk_ok w2" using h by (auto simp: holds_state disk_ok_def)
        then show ?thesis
          using t j2 mem txns st' holds_state [OF d] receipt_op_state(2) [OF rc] unfolding advances_def
          by (intro disjI2) auto
      qed
    qed
  qed
qed

end
