(* ===== verification/Budget_Session.thy ===== *)
theory Budget_Session
  imports Budget_Durability
begin

text \<open>
  Whole sessions of a budget journal: calls whose results the caller sees, failures of any
  system call in between, processes that end and open the journal again. The journal file is
  the only thing that survives, so what it promises is stated over every such history.
\<close>

section \<open>Text of the identities\<close>

definition identity_text :: "budget_transaction \<Rightarrow> bool" where
  "identity_text i \<longleftrightarrow> utf8_valid (run_id i) \<and> utf8_valid (provider_identity i)"

lemma utf8_field: "utf8_json (JObj e) \<Longrightarrow> utf8_json (field e k)"
  by (fastforce simp: dict_get_none_def split: option.split dest: map_of_SomeD)

lemma validate_identity_text:
  assumes "validate_identity_record v w = Inr i" and "utf8_json v"
  shows "identity_text i"
proof -
  obtain kvs where v: "v = JObj kvs" and "field kvs ''run_id'' = JStr (run_id i)"
      "field kvs ''provider_identity'' = JStr (provider_identity i)"
    using assms(1) unfolding validate_identity_record_def
    by (auto simp only: result_simps check_simps Let_def sum.inject budget_transaction.simps)
  moreover have "utf8_json (field kvs ''run_id'')" "utf8_json (field kvs ''provider_identity'')"
    using assms(2) unfolding v by (rule utf8_field)+
  ultimately show ?thesis by (simp add: identity_text_def)
qed

abbreviation txns_text :: "transactions \<Rightarrow> bool" where
  "txns_text txns \<equiv> \<forall>(k, t) \<in> set txns. identity_text (identity t)"

lemma apply_action_text:
  assumes "apply_action jid w n h act k i e txns = Inr txns'" and "txns_text txns" and "identity_text i"
  shows "txns_text txns'"
proof (cases "act = Act_Reserved")
  case True
  then show ?thesis using assms by (auto simp: apply_action_reserved new_transaction_def)
next
  case False
  with assms(1) obtain t t' where k: "map_of txns k = Some t" and i: "i = identity t"
    and step: "apply_known w n h act e t = Inr t'" and txns': "txns' = AList.update k t' txns"
    by (auto simp: apply_action_known)
  have "identity t' = i" using apply_known_same(2) [OF step False] i by simp
  moreover have "set (AList.update k t' txns) \<subseteq> insert (k, t') (set txns)" for txns
    by (induction txns) auto
  ultimately show ?thesis unfolding txns' using assms(2,3) by fastforce
qed

lemma replay_events_text:
  "replay_events jid a es = Inr (txns, h) \<Longrightarrow> \<forall>e \<in> set es. utf8_json e \<Longrightarrow> txns_text txns"
proof (induction es arbitrary: txns h rule: rev_induct)
  case (snoc e es)
  then obtain s g where s: "replay_events jid a es = Inr (s, g)"
    and e: "replay_event jid a (Suc (length es), e) (s, g) = Inr (txns, h)"
    by (auto simp only: replay_events_snoc bindE_eq_Inr)
  from e obtain kvs w n act k i where raw: "e = JObj kvs"
    and i: "validate_identity_record (field kvs ''identity'') w = Inr i"
    and act: "apply_action jid (event_where (Suc (length es))) n h act k i kvs s = Inr txns"
    by (auto simp only: replay_event_Inr check_frame_Inr)
  have "utf8_json (field kvs ''identity'')" using snoc.prems(2) raw by (intro utf8_field) simp
  then have "identity_text i" by (rule validate_identity_text [OF i])
  moreover have "txns_text s" using snoc.IH [OF s] snoc.prems(2) by simp
  ultimately show ?case by (intro apply_action_text [OF act])
qed simp

section \<open>States that were read from a stored document\<close>

definition stored_state :: "journal_state \<Rightarrow> bool" where
  "stored_state st \<longleftrightarrow> (\<exists>d. storable d \<and> replay_document d = Inr st)"

definition ledger_st :: "journal_state \<Rightarrow> ledger" where
  "ledger_st st = ledger_of (js_transactions st)"

lemma stored_stateD:
  assumes "stored_state st"
  shows "txns_ok (js_journal_id st) (js_revision st) (js_transactions st)"
    and "txns_text (js_transactions st)" and "ledger_ok (js_authority st) (ledger_st st)"
    and "is_hash_str (js_head_sha256 st)" and "0 \<le> js_revision st"
proof -
  obtain d where d: "storable d" "replay_document d = Inr st" using assms by (auto simp: stored_state_def)
  show "txns_ok (js_journal_id st) (js_revision st) (js_transactions st)"
    "ledger_ok (js_authority st) (ledger_st st)"
    using replay_document_run [OF d(2)] by (simp_all add: ledger_st_def)
  show "is_hash_str (js_head_sha256 st)" "0 \<le> js_revision st"
    using replay_document_head [OF d(2)] by simp_all
  from d(2) obtain v es where v: "d = JObj v" "field v ''events'' = JArr es"
    and run: "replay_events (js_journal_id st) (js_authority st) es = Inr (js_transactions st, js_head_sha256 st)"
    unfolding replay_document_Inr by blast
  have "utf8_json (field v ''events'')" using d(1) v(1) by (intro utf8_field) (simp add: storable_def)
  then have "\<forall>e \<in> set es. utf8_json e" unfolding v(2) by simp
  then show "txns_text (js_transactions st)" by (rule replay_events_text [OF run])
qed

lemma stored_transaction:
  assumes "stored_state st" and "map_of (js_transactions st) k = Some t"
  shows "txn_ok (js_journal_id st) (js_revision st) k t" and "is_hash_str k"
    and "identity_ok (identity t)" and "identity_text (identity t)"
    and "ledger_st st k = Some (identity t, phase_of t)"
proof -
  note st = stored_stateD [OF assms(1)]
  show t: "txn_ok (js_journal_id st) (js_revision st) k t" by (rule txns_okD [OF st(1) assms(2)])
  then show "is_hash_str k" and "identity_ok (identity t)" by (simp_all add: txn_ok_def)
  show "identity_text (identity t)" using st(2) map_of_SomeD [OF assms(2)] by auto
  show "ledger_st st k = Some (identity t, phase_of t)"
    using assms(2) by (simp add: ledger_st_def ledger_of_def entry_of_def)
qed

lemma disk_stored: "disk_ok w \<Longrightarrow> disk_state w = Some st \<Longrightarrow> stored_state st"
proof -
  assume "disk_ok w" and st: "disk_state w = Some st"
  then obtain d sd where d: "holds w d sd" by (auto simp: disk_ok_def disk_state_def)
  then have "sd = st" using holds_state [OF d] st by simp
  then show "stored_state st" using d by (auto simp: stored_state_def holds_def)
qed

section \<open>The ledger step of an appended event\<close>

definition ev_label :: "event_fields \<Rightarrow> ledger_label option" where
  "ev_label ev =
    (case ev_action ev of
       Act_Reserved \<Rightarrow> Some (Reserve (ev_transaction_id ev) (ev_identity ev))
     | Act_Request_Authorized \<Rightarrow> Some (Authorize (ev_transaction_id ev))
     | Act_Aborted \<Rightarrow> Some (Abort (ev_transaction_id ev))
     | Act_Trial_Resume \<Rightarrow> Some (Resume (ev_transaction_id ev))
     | Act_Committed \<Rightarrow> (case (ev_actual_cost ev, ev_actual_tokens ev) of
         (JInt c, JInt t) \<Rightarrow> Some (Commit (ev_transaction_id ev) c t) | _ \<Rightarrow> None))"

lemma event_result_step:
  assumes st: "stored_state st" and ev: "ev_known ev" and res: "event_result st now ev = Inr txns"
  shows "\<exists>l. ev_label ev = Some l \<and> ledger_step (js_authority st) (ledger_st st) l (ledger_of txns)"
proof -
  let ?e = "sealed_event (event_body st now ev)"
  note s = stored_stateD [OF st]
  have i: "identity_ok (ev_identity ev)" using ev by (simp add: ev_known_def)
  from res have act: "apply_action (js_journal_id st) (event_where (Suc (nat (js_revision st))))
      (js_revision st + 1) (canonical_sha256 (JObj (event_body st now ev))) (ev_action ev)
      (ev_transaction_id ev) (ev_identity ev) ?e (js_transactions st) = Inr txns"
    and afford: "exposure_cost txns \<le> total_cost_microusd (js_authority st)"
      "exposure_tokens txns \<le> total_metered_tokens (js_authority st)"
    by (auto simp: event_result_def Let_def bindE_eq_Inr check_exposure_Inr)
  have f: "field ?e ''transaction_id'' = JStr (ev_transaction_id ev)"
    "field ?e ''action'' = JStr (action_name (ev_action ev))"
    "validate_identity_record (field ?e ''identity'') [] = Inr (ev_identity ev)"
    by (simp_all add: field_sealed field_body validate_identity_json [OF i])
  from apply_action_step [OF s(1) s(5) i act afford f]
  obtain l where l: "event_label (JObj ?e) = Some l" "ledger_step (js_authority st) (ledger_st st) l (ledger_of txns)"
    by (auto simp: ledger_st_def)
  have "ev_label ev = event_label (JObj ?e)"
  proof (cases "ev_action ev")
    case Act_Committed
    with act obtain c t where "ev_actual_cost ev = JInt c" "ev_actual_tokens ev = JInt t"
      by (auto simp: apply_action_known apply_known_simps apply_committed_Inr field_sealed field_body)
    then show ?thesis
      using Act_Committed event_label_action(5) [OF f Act_Committed, of c t]
      by (simp add: ev_label_def field_sealed field_body)
  qed (simp_all only: ev_label_def action.case event_label_action [OF f])
  with l show ?thesis by auto
qed

text \<open>One state leads to another along the ledger, under the same authority.\<close>

definition leads :: "journal_state \<Rightarrow> journal_state \<Rightarrow> bool" where
  "leads s t \<longleftrightarrow> js_authority s = js_authority t \<and>
    (\<exists>ls. ledger_run (js_authority s) (ledger_st s) ls (ledger_st t))"

lemma ledger_run_append: "ledger_run a M ls N \<Longrightarrow> ledger_run a L ks M \<Longrightarrow> ledger_run a L (ks @ ls) N"
  by (induction rule: ledger_run.induct) (auto simp flip: append_assoc intro: ledger_run.intros)

lemma leads_refl [simp]: "leads s s"
  unfolding leads_def by (auto intro: run_nil)

lemma leads_trans: "leads s t \<Longrightarrow> leads t u \<Longrightarrow> leads s u"
  unfolding leads_def by (metis ledger_run_append)

lemma leads_step:
  "js_authority s = js_authority t \<Longrightarrow> ledger_step (js_authority s) (ledger_st s) l (ledger_st t) \<Longrightarrow> leads s t"
  unfolding leads_def using run_snoc [OF run_nil] by blast

lemma run_keeps_phase:
  assumes "ledger_run a L ls M" and "L k = Some (i, p)"
  shows "p = Released \<Longrightarrow> M k = Some (i, Released)"
    and "spent p \<Longrightarrow> \<exists>q. M k = Some (i, q) \<and> spent q"
proof -
  have step: "ledger_step a L l M \<Longrightarrow> L k = Some (i, Released) \<Longrightarrow> M k = Some (i, Released)" for L l M
    by (induction rule: ledger_step.induct) auto
  show "p = Released \<Longrightarrow> M k = Some (i, Released)"
    using assms by (induction rule: ledger_run.induct) (auto intro: step)
  show "spent p \<Longrightarrow> \<exists>q. M k = Some (i, q) \<and> spent q"
    using assms by (induction arbitrary: p rule: ledger_run.induct) (blast dest: step_keeps_spent)+
qed

section \<open>Calls\<close>

datatype call =
    Call_Reserve budget_transaction
  | Call_Authorize string int string
  | Call_Resume string "string list" string string int string
  | Call_Commit string int int "string option"
  | Call_Abort string

fun run_call :: "call \<Rightarrow> receipt jop" where
  "run_call (Call_Reserve i) = reserve i"
| "run_call (Call_Authorize tid n h) = authorize_request tid n h"
| "run_call (Call_Resume tid trials ev fr n h) = authorize_trial_resume tid trials ev fr n h"
| "run_call (Call_Commit tid c t ev) = commit_transaction tid c t ev"
| "run_call (Call_Abort tid) = abort_pre_request tid"

fun call_text :: "call \<Rightarrow> bool" where
  \<comment> \<open>the arguments are Unicode strings\<close>
  "call_text (Call_Reserve i) = identity_text i"
| "call_text (Call_Resume tid trials ev fr n h) = (utf8_valid ev \<and> utf8_valid fr \<and> (\<forall>s \<in> set trials. utf8_valid s))"
| "call_text _ = True"

fun call_label :: "call \<Rightarrow> ledger_label \<Rightarrow> bool" where
  \<comment> \<open>the step of the ledger a call asks for\<close>
  "call_label (Call_Reserve i) l \<longleftrightarrow> (\<exists>k. l = Reserve k i)"
| "call_label (Call_Authorize tid n h) l \<longleftrightarrow> l = Authorize tid"
| "call_label (Call_Resume tid trials ev fr n h) l \<longleftrightarrow> l = Resume tid"
| "call_label (Call_Commit tid c t ev) l \<longleftrightarrow> l = Commit tid c t"
| "call_label (Call_Abort tid) l \<longleftrightarrow> l = Abort tid"

definition appends :: "call \<Rightarrow> receipt result \<Rightarrow> jstate \<Rightarrow> jstate \<Rightarrow> bool" where
  \<comment> \<open>the file moved by the step the call asks for; a result is the receipt of the new state\<close>
  "appends c r s t \<longleftrightarrow> disk_ok (snd t) \<and> jn_authority (fst t) = jn_authority (fst s) \<and>
    (\<exists>st st' l. disk_state (snd s) = Some st \<and> disk_state (snd t) = Some st' \<and>
       js_authority st' = js_authority st \<and> call_label c l \<and>
       ledger_step (js_authority st) (ledger_st st) l (ledger_st st') \<and>
       (jn_state (fst t) = Some st \<or> jn_state (fst t) = Some st') \<and>
       (\<forall>rc. r = Inr rc \<longrightarrow> jn_state (fst t) = Some st' \<and>
          transaction_receipt_from_state st' (label_id l) = Inr rc))"

definition memory_answer :: "string \<Rightarrow> receipt result \<Rightarrow> jstate \<Rightarrow> bool" where
  \<comment> \<open>the receipt of a state that is already in memory\<close>
  "memory_answer tid r s \<longleftrightarrow>
    (\<exists>st rc. r = Inr rc \<and> jn_state (fst s) = Some st \<and> transaction_receipt_from_state st tid = Inr rc)"

lemma append_call:
  assumes ok: "disk_ok w" and ev: "ev_known ev" "ev_text ev"
    and run: "append_event ev (j, w) = (r, t)"
    and lab: "\<And>l. ev_label ev = Some l \<Longrightarrow> call_label c l"
  shows "untouched (j, w) t \<and> (\<exists>e. r = Inl e) \<or> appends c r (j, w) t"
proof -
  consider "untouched (j, w) t \<and> (\<exists>e. r = Inl e)"
    | "disk_ok (snd t)" "advances ev (j, w) t" "\<forall>rc. r = Inr rc \<longrightarrow> (\<exists>st. jn_state (fst t) = Some st \<and>
        disk_state (snd t) = Some st \<and> transaction_receipt_from_state st (ev_transaction_id ev) = Inr rc)"
    using append_outcome [OF ok ev run] by blast
  then show ?thesis
  proof cases
    case 2
    then obtain st now txns where st: "disk_state w = Some st" and res: "event_result st now ev = Inr txns"
      and st': "disk_state (snd t) = Some (next_state st (canonical_sha256 (JObj (event_body st now ev))) txns)"
      and mem: "jn_state (fst t) = disk_state w \<or> jn_state (fst t) = disk_state (snd t)"
      and auth: "jn_authority (fst t) = jn_authority j"
      by (auto simp: advances_def)
    obtain l where l: "ev_label ev = Some l" "ledger_step (js_authority st) (ledger_st st) l (ledger_of txns)"
      using event_result_step [OF disk_stored [OF ok st] ev(1) res] by blast
    have id: "label_id l = ev_transaction_id ev"
      using l(1) by (auto simp: ev_label_def split: action.splits json.splits)
    have "appends c r (j, w) t"
      unfolding appends_def
    proof (intro conjI exI)
      show "disk_state (snd (j, w)) = Some st" using st by simp
      show "disk_state (snd t) = Some (next_state st (canonical_sha256 (JObj (event_body st now ev))) txns)"
        by (rule st')
      show "call_label c l" by (rule lab [OF l(1)])
      show "ledger_step (js_authority st) (ledger_st st) l
          (ledger_st (next_state st (canonical_sha256 (JObj (event_body st now ev))) txns))"
        using l(2) by (simp add: ledger_st_def next_state_def)
      show "\<forall>rc. r = Inr rc \<longrightarrow> jn_state (fst t) = Some (next_state st (canonical_sha256 (JObj (event_body st now ev))) txns) \<and>
          transaction_receipt_from_state (next_state st (canonical_sha256 (JObj (event_body st now ev))) txns)
            (label_id l) = Inr rc"
        using 2(3) st' id by auto
    qed (use 2(1) auth mem st st' in \<open>auto simp: next_state_def\<close>)
    then show ?thesis ..
  qed blast
qed

text \<open>The memory of an object: read from a stored document, and not ahead of the file.\<close>

definition memory_ok :: "jstate \<Rightarrow> bool" where
  "memory_ok s \<longleftrightarrow> (\<forall>st. jn_state (fst s) = Some st \<longrightarrow> stored_state st \<and>
    (\<exists>sd. disk_state (snd s) = Some sd \<and> leads st sd))"

definition session_ok :: "jstate \<Rightarrow> bool" where
  "session_ok s \<longleftrightarrow> disk_ok (snd s) \<and> memory_ok s"

lemma untouched_ok:
  assumes "session_ok s" and "untouched s t"
  shows "session_ok t" and "disk_state (snd t) = disk_state (snd s)"
proof -
  from assms(2) have f: "disk_ok (snd t) = disk_ok (snd s) \<and> disk_state (snd t) = disk_state (snd s)"
    by (intro disk_file) (simp add: untouched_def)
  then show "disk_state (snd t) = disk_state (snd s)" by simp
  have "disk_ok (snd s)" using assms(1) by (simp add: session_ok_def)
  from disk_stored [OF this] show "session_ok t"
    using assms f unfolding session_ok_def memory_ok_def untouched_def by auto
qed

lemma appends_ok:
  assumes "session_ok s" and "appends c r s t"
  shows "session_ok t"
proof -
  from assms(2) obtain st st' where "disk_state (snd s) = Some st" "disk_state (snd t) = Some st'"
    "disk_ok (snd t)" "leads st st'" "jn_state (fst t) = Some st \<or> jn_state (fst t) = Some st'"
    unfolding appends_def by (metis leads_step)
  moreover have "disk_ok (snd s)" using assms(1) by (simp add: session_ok_def)
  ultimately show ?thesis
    unfolding session_ok_def memory_ok_def using disk_stored by auto
qed

lemma untouched_refl [simp]: "untouched s s"
  by (simp add: untouched_def)

subsection \<open>The outcome of each call\<close>

fun memory_answers :: "call \<Rightarrow> receipt \<Rightarrow> journal_state \<Rightarrow> bool" where
  \<comment> \<open>the call had been granted before: the receipt of the present state is returned again\<close>
  "memory_answers (Call_Reserve i) rc st \<longleftrightarrow> (\<exists>k t. map_of (js_transactions st) k = Some t \<and>
     txn_state t = Reserved \<and> run_id (identity t) = run_id i \<and>
     identity_sha256 t = canonical_sha256 (identity_json i) \<and> transaction_receipt_from_state st k = Inr rc)"
| "memory_answers (Call_Commit tid c k ev) rc st \<longleftrightarrow> (\<exists>t. map_of (js_transactions st) tid = Some t \<and>
     txn_state t = Committed \<and> actual_cost_microusd t = Some c \<and> actual_metered_tokens t = Some k \<and>
     transaction.evidence_sha256 t = ev \<and> transaction_receipt_from_state st tid = Inr rc)"
| "memory_answers (Call_Abort tid) rc st \<longleftrightarrow> (\<exists>t. map_of (js_transactions st) tid = Some t \<and>
     txn_state t = Aborted_Pre_Request \<and> transaction_receipt_from_state st tid = Inr rc)"
| "memory_answers _ rc st \<longleftrightarrow> False"

definition call_outcome :: "call \<Rightarrow> receipt result \<Rightarrow> jstate \<Rightarrow> jstate \<Rightarrow> bool" where
  "call_outcome c r s t \<longleftrightarrow>
    untouched s t \<and> (\<forall>rc. r = Inr rc \<longrightarrow> (\<exists>st. jn_state (fst s) = Some st \<and> memory_answers c rc st)) \<or>
    appends c r s t"

lemma outcome_raised: "call_outcome c (Inl e) s s"
  by (simp add: call_outcome_def)

lemma pure_require_open [simp]: "pure_op require_open"
  using require_open_state by (blast intro: pure_opI)

lemma pure_transaction_op [simp]: "pure_op (transaction_op tid)"
  using transaction_op_state by (blast intro: pure_opI)

lemma pure_receipt_op [simp]: "pure_op (receipt_op tid)"
  using receipt_op_state(1) by (blast intro: pure_opI)

lemma pure_require_cas [simp]: "pure_op (require_cas n h)"
  unfolding require_cas_def by (intro pure_op_bindS) simp_all

lemma transaction_op_Inr:
  assumes "memory_ok s" and "transaction_op tid s = (Inr t, s)"
  obtains st where "jn_state (fst s) = Some st" and "map_of (js_transactions st) tid = Some t"
    and "stored_state st"
  using assms transaction_op_state [OF assms(2)] by (auto simp: memory_ok_def)

lemma plain_event_known:
  assumes "stored_state st" and "map_of (js_transactions st) tid = Some t" and "act \<noteq> Act_Trial_Resume"
  shows "ev_known (plain_event act tid (identity t))" and "ev_text (plain_event act tid (identity t))"
  using stored_transaction [OF assms(1,2)] assms(3)
  by (simp_all add: ev_known_def ev_text_def ev_shape_def plain_event_def identity_text_def)

lemma append_outcome_call:
  assumes "session_ok s" and "ev_known ev" and "ev_text ev" and "append_event ev s = (r, t)"
    and "\<And>l. ev_label ev = Some l \<Longrightarrow> call_label c l"
  shows "call_outcome c r s t"
  using append_call [of "snd s" ev "fst s" r t c] assms by (auto simp: call_outcome_def session_ok_def)

text \<open>The calls look at the memory, then either answer, raise, or append one event.\<close>

lemma authorize_outcome:
  assumes ok: "session_ok s" and run: "run_call (Call_Authorize tid n h) s = (r, t)"
  shows "call_outcome (Call_Authorize tid n h) r s t"
  using run unfolding run_call.simps authorize_request_def
proof (elim bindS_pureE)
  fix cur assume cur: "transaction_op tid s = (Inr cur, s)"
    and go: "(if txn_state cur \<noteq> Reserved then raiseS (Validation_Error ''budget transaction''
        (if txn_state cur = Request_Authorized then ''authorization already exists; retry is forbidden''
         else ''only a reservation may be authorized''))
      else append_event (plain_event Act_Request_Authorized tid (identity cur))) s = (r, t)"
  obtain st where st: "stored_state st" "map_of (js_transactions st) tid = Some cur"
    using ok cur by (auto simp: session_ok_def elim: transaction_op_Inr)
  show ?thesis
  proof (cases "txn_state cur = Reserved")
    case True
    then show ?thesis using go plain_event_known [OF st, of Act_Request_Authorized]
      by (intro append_outcome_call [OF ok]) (auto simp: ev_label_def plain_event_def)
  qed (use go in \<open>auto simp: op_simps outcome_raised\<close>)
qed (simp_all add: outcome_raised)

lemma resume_payload_text:
  assumes "utf8_valid ev" and "utf8_valid fr" and "\<forall>s \<in> set trials. utf8_valid s"
  shows "plain (resume_payload trials n ev fr) \<and> utf8_json (resume_payload trials n ev fr)"
  using assms by (auto simp: resume_payload_def utf8_literal char_code_def)

lemma resume_outcome:
  assumes ok: "session_ok s" and run: "run_call (Call_Resume tid trials ev fr n h) s = (r, t)"
    and chars: "call_text (Call_Resume tid trials ev fr n h)"
  shows "call_outcome (Call_Resume tid trials ev fr n h) r s t"
  using run unfolding run_call.simps authorize_trial_resume_def
proof (elim bindS_pureE)
  fix cur :: transaction
  let ?e = "(plain_event Act_Trial_Resume tid (identity cur))
      \<lparr>ev_resume := Some (resume_payload trials (length (resume_events cur)) ev fr)\<rparr>"
  assume cur: "transaction_op tid s = (Inr cur, s)"
    and go: "(if txn_state cur \<noteq> Request_Authorized
      then raiseS (Validation_Error ''budget transaction'' ''trial resume requires request_authorized state'')
      else if 1 \<le> length (resume_events cur)
      then raiseS (Validation_Error ''budget transaction'' ''trial resume budget is exhausted'')
      else append_event ?e) s = (r, t)"
  obtain st where st: "stored_state st" "map_of (js_transactions st) tid = Some cur"
    using ok cur by (auto simp: session_ok_def elim: transaction_op_Inr)
  have ev: "ev_known ?e" "ev_text ?e"
    using stored_transaction [OF st] resume_payload_text [of ev fr trials] chars
    by (auto simp: ev_known_def ev_text_def ev_shape_def plain_event_def identity_text_def)
  show ?thesis
  proof (cases "txn_state cur = Request_Authorized \<and> \<not> 1 \<le> length (resume_events cur)")
    case True
    then show ?thesis using go by (intro append_outcome_call [OF ok ev]) (auto simp: ev_label_def plain_event_def)
  qed (use go in \<open>auto simp: op_simps outcome_raised split: if_splits\<close>)
qed (simp_all add: outcome_raised)

lemma commit_outcome:
  assumes ok: "session_ok s" and run: "run_call (Call_Commit tid c k ev) s = (r, t)"
  shows "call_outcome (Call_Commit tid c k ev) r s t"
  using run unfolding run_call.simps commit_transaction_def
proof (elim bindS_pureE)
  fix cur :: transaction and x
  let ?e = "(plain_event Act_Committed tid (identity cur))
      \<lparr>ev_actual_cost := JInt c, ev_actual_tokens := JInt k, ev_evidence := ev\<rparr>"
  assume cur: "transaction_op tid s = (Inr cur, s)"
    and x: "liftS (case ev of None \<Rightarrow> Inr [] | Some h \<Rightarrow> require_hash (JStr h) ''budget commit.evidence_sha256'') s = (Inr x, s)"
    and go: "(if txn_state cur = Committed then
        (if actual_cost_microusd cur = Some c \<and> actual_metered_tokens cur = Some k \<and>
            transaction.evidence_sha256 cur = ev
         then receipt_op tid
         else raiseS (Validation_Error ''budget transaction'' ''committed usage may only be replayed identically''))
      else if txn_state cur \<noteq> Request_Authorized
      then raiseS (Validation_Error ''budget transaction'' ''commit requires request_authorized state'')
      else append_event ?e) s = (r, t)"
  obtain st where mem: "jn_state (fst s) = Some st" and st: "stored_state st" "map_of (js_transactions st) tid = Some cur"
    using ok cur by (auto simp: session_ok_def elim: transaction_op_Inr)
  have ev: "ev_known ?e" "ev_text ?e"
    using stored_transaction [OF st] x
    by (auto simp: ev_known_def ev_text_def ev_shape_def plain_event_def identity_text_def op_simps check_simps
        split: option.splits)
  consider (answer) "txn_state cur = Committed" "receipt_op tid s = (r, t)" "actual_cost_microusd cur = Some c"
      "actual_metered_tokens cur = Some k" "transaction.evidence_sha256 cur = ev"
    | (raised) e where "r = Inl e" "t = s" | (append) "append_event ?e s = (r, t)"
    using go by (auto simp: op_simps split: if_splits)
  then show ?thesis
  proof cases
    case answer
    then have "t = s" by (simp add: receipt_op_state)
    then show ?thesis using answer mem st(2) receipt_op_state(2) [OF answer(2)] by (auto simp: call_outcome_def)
  next
    case append
    then show ?thesis by (intro append_outcome_call [OF ok ev]) (auto simp: ev_label_def plain_event_def)
  qed (simp add: outcome_raised)
qed (simp_all add: outcome_raised)

lemma live_transaction:
  assumes "stored_state st" and "live_transactions r (js_transactions st) \<noteq> []"
  shows "\<exists>k. map_of (js_transactions st) k = Some (last (live_transactions r (js_transactions st))) \<and>
    transaction_id (last (live_transactions r (js_transactions st))) = k \<and>
    run_id (identity (last (live_transactions r (js_transactions st)))) = r"
proof -
  let ?t = "last (live_transactions r (js_transactions st))"
  have "?t \<in> set (live_transactions r (js_transactions st))" using assms(2) by (rule last_in_set)
  then obtain k where k: "(k, ?t) \<in> set (js_transactions st)" and r: "run_id (identity ?t) = r"
    by (auto simp: live_transactions_def)
  have "distinct (keys (js_transactions st))" using stored_stateD(1) [OF assms(1)] by (simp add: txns_ok_def)
  with k have "map_of (js_transactions st) k = Some ?t" by simp
  moreover from this have "transaction_id ?t = k"
    using stored_transaction(1) [OF assms(1)] by (auto simp: txn_ok_def)
  ultimately show ?thesis using r by blast
qed

lemma reserve_outcome:
  assumes ok: "session_ok s" and run: "run_call (Call_Reserve i) s = (r, t)" and chars: "call_text (Call_Reserve i)"
  shows "call_outcome (Call_Reserve i) r s t"
  using run unfolding run_call.simps reserve_def Let_def
proof (elim bindS_pureE)
  fix st :: journal_state and u
  let ?live = "live_transactions (run_id i) (js_transactions st)"
  let ?e = "plain_event Act_Reserved (transaction_id_of (js_journal_id st) (js_revision st + 1) i) i"
  assume open_st: "require_open s = (Inr st, s)" and u: "liftS (validate_transaction i) s = (Inr u, s)"
    and go: "(if ?live \<noteq> [] then
        if identity_sha256 (last ?live) \<noteq> canonical_sha256 (identity_json i)
        then raiseS (Validation_Error ''budget transaction''
          ''run id is already bound to a different transaction identity'')
        else (case txn_state (last ?live) of
          Reserved \<Rightarrow> receipt_op (transaction_id (last ?live))
        | Request_Authorized \<Rightarrow> raiseS (Validation_Error ''budget transaction''
            ''request is already authorized; automatic or implicit retry is forbidden'')
        | _ \<Rightarrow> raiseS (Validation_Error ''budget transaction'' ''run identity is already committed''))
      else append_event ?e) s = (r, t)"
  have mem: "jn_state (fst s) = Some st" using require_open_state [OF open_st] by simp
  then have st: "stored_state st" using ok by (simp add: session_ok_def memory_ok_def)
  have ev: "ev_known ?e" "ev_text ?e"
    using u chars by (auto simp: ev_known_def ev_text_def ev_shape_def plain_event_def identity_text_def
        op_simps check_simps)
  consider (answer) "?live \<noteq> []" "identity_sha256 (last ?live) = canonical_sha256 (identity_json i)"
      "txn_state (last ?live) = Reserved" "receipt_op (transaction_id (last ?live)) s = (r, t)"
    | (raised) e where "r = Inl e" "t = s" | (append) "append_event ?e s = (r, t)"
    using go by (auto simp: op_simps split: if_splits txn_state.splits)
  then show ?thesis
  proof cases
    case answer
    then have t: "t = s" by (simp add: receipt_op_state)
    obtain k where k: "map_of (js_transactions st) k = Some (last ?live)" "transaction_id (last ?live) = k"
      "run_id (identity (last ?live)) = run_id i"
      using live_transaction [OF st answer(1)] by blast
    have "\<exists>st. jn_state (fst s) = Some st \<and> memory_answers (Call_Reserve i) rc st" if "r = Inr rc" for rc
      using receipt_op_state(2) [OF answer(4) that] mem k answer(2,3) by auto
    then show ?thesis using t by (simp add: call_outcome_def)
  next
    case append
    then show ?thesis by (intro append_outcome_call [OF ok ev]) (auto simp: ev_label_def plain_event_def)
  qed (simp add: outcome_raised)
qed (simp_all add: outcome_raised)

lemma adopt_cases:
  assumes ok: "session_ok s" and run: "adopt_durable_authorization tid s = (r, t)"
  shows "untouched s t" and "session_ok t" and "r = Inr False \<Longrightarrow> t = s"
proof -
  obtain q s1 where q: "reject_temporary s = (q, s1)" by (rule prod.exhaust)
  have s1: "s1 = s" by (rule reject_temporary_state [OF q])
  obtain v s2 where v: "read_document s = (v, s2)" by (rule prod.exhaust)
  have s2: "s2 = s" by (rule read_document_state [OF v])
  have all: "t = s \<and> r \<noteq> Inr True \<or> (\<exists>d st. v = Inr d \<and> replay_document d = Inr st \<and> r = Inr True \<and>
      t = apfst (\<lambda>j. j\<lparr>jn_document := Some d, jn_state := Some st\<rparr>) s)"
    using run q v s1 s2 unfolding adopt_durable_authorization_def
    by (auto simp: bindS_def op_value Let_def split: sum.splits option.splits if_splits)
  have t: "t = s \<or> (\<exists>d st. jn_state (fst t) = Some st \<and> disk_state (snd s) = Some st \<and>
      t = apfst (\<lambda>j. j\<lparr>jn_document := Some d, jn_state := Some st\<rparr>) s)"
  proof (cases "t = s")
    case False
    with all obtain d st where d: "v = Inr d" "replay_document d = Inr st"
      and t: "t = apfst (\<lambda>j. j\<lparr>jn_document := Some d, jn_state := Some st\<rparr>) s" by blast
    have rd: "read_document (fst s, snd s) = (Inr d, s)" using v d s2 by simp
    then have "journal_file (snd s) \<noteq> None"
      by (cases "journal_file (snd s)"; cases s) (auto simp: read_document_def op_simps)
    with ok obtain d0 sd where d0: "holds (snd s) d0 sd" by (auto simp: session_ok_def disk_ok_def)
    then have "d = canon d0" using read_document_good [OF _ _ _ rd] by (auto simp: holds_def)
    with d0 d have "sd = st" by (auto simp: holds_def storable_def replay_document_canon)
    then show ?thesis using t holds_state [OF d0] by (intro disjI2 exI [of _ d] exI [of _ st]) (cases s; simp)
  qed simp
  then show u: "untouched s t" by (cases s) (auto simp: untouched_def)
  show "session_ok t" by (rule untouched_ok(1) [OF ok u])
  show "r = Inr False \<Longrightarrow> t = s" using all by auto
qed

lemma outcome_after_untouched:
  assumes "untouched s t" and "call_outcome (Call_Abort tid) r t u"
    and "\<And>rc. r = Inr rc \<Longrightarrow> \<not> untouched t u"
  shows "call_outcome (Call_Abort tid) r s u"
proof -
  have f: "disk_state (snd t) = disk_state (snd s)" "jn_authority (fst t) = jn_authority (fst s)"
    using assms(1) disk_file [of "snd t" "snd s"] by (auto simp: untouched_def)
  from assms(2) consider "untouched t u" | "appends (Call_Abort tid) r t u" by (auto simp: call_outcome_def)
  then show ?thesis
  proof cases
    case 1
    then have "untouched s u" using assms(1) f by (auto simp: untouched_def)
    then show ?thesis using assms(3) 1 by (auto simp: call_outcome_def)
  next
    case 2
    then have "appends (Call_Abort tid) r s u" using f by (simp add: appends_def)
    then show ?thesis by (simp add: call_outcome_def)
  qed
qed

lemma append_not_untouched:
  assumes "session_ok s" and "ev_known ev" and "ev_text ev" and "append_event ev s = (r, t)"
    and "\<And>l. ev_label ev = Some l \<Longrightarrow> call_label c l"
  shows "untouched s t \<and> (\<exists>e. r = Inl e) \<or> appends c r s t"
  using append_call [of "snd s" ev "fst s" r t c] assms by (simp add: session_ok_def)

lemma abort_outcome:
  assumes ok: "session_ok s" and run: "run_call (Call_Abort tid) s = (r, t)"
  shows "call_outcome (Call_Abort tid) r s t"
  using run unfolding run_call.simps abort_pre_request_def
proof (elim bindS_pureE)
  fix cur0 :: transaction
  let ?rest = "\<lambda>adopted. bindS (if adopted then transaction_op tid else returnS cur0) (\<lambda>current.
      if txn_state current \<noteq> Reserved then raiseS Transaction_Not_Abortable
      else append_event (plain_event Act_Aborted tid (identity current)))"
  assume cur0: "transaction_op tid s = (Inr cur0, s)"
    and go: "(if txn_state cur0 = Aborted_Pre_Request then receipt_op tid
      else bindS (if txn_state cur0 = Reserved then adopt_durable_authorization tid else returnS False) ?rest) s = (r, t)"
  obtain st where mem: "jn_state (fst s) = Some st" and st: "stored_state st" "map_of (js_transactions st) tid = Some cur0"
    using ok cur0 by (auto simp: session_ok_def elim: transaction_op_Inr)
  show ?thesis
  proof (cases "txn_state cur0 = Aborted_Pre_Request")
    case True
    then have rc: "receipt_op tid s = (r, t)" using go by simp
    then show ?thesis
      using receipt_op_state [OF rc] mem st(2) True by (auto simp: call_outcome_def)
  next
    case False
    obtain a s1 where a: "(if txn_state cur0 = Reserved then adopt_durable_authorization tid else returnS False) s = (a, s1)"
      by (rule prod.exhaust)
    have s1: "untouched s s1" "session_ok s1"
      using a adopt_cases [OF ok] ok by (auto simp: op_simps split: if_splits)
    show ?thesis
    proof (cases a)
      case (Inl e)
      then show ?thesis using go False a s1(1) by (auto simp: bindS_def call_outcome_def)
    next
      case (Inr adopted)
      with go False a have rest: "?rest adopted s1 = (r, t)" by (simp add: bindS_def)
      have pure: "pure_op (if adopted then transaction_op tid else returnS cur0)" by simp
      have same: "s1 = s" if "\<not> adopted"
        using a Inr that adopt_cases(3) [OF ok] by (auto simp: op_simps split: if_splits)
      from rest pure show ?thesis
      proof (cases rule: bindS_pureE)
        case raised
        then show ?thesis using s1(1) by (auto simp: call_outcome_def)
      next
        case (returned cur)
        have "transaction_op tid s1 = (Inr cur, s1)"
          using returned(1) same cur0 by (cases adopted) (auto simp: op_simps)
        then obtain st1 where st1: "stored_state st1" "map_of (js_transactions st1) tid = Some cur"
          using s1(2) by (auto simp: session_ok_def elim: transaction_op_Inr)
        show ?thesis
        proof (cases "txn_state cur = Reserved")
          case True
          with returned(2) have app: "append_event (plain_event Act_Aborted tid (identity cur)) s1 = (r, t)" by simp
          have "untouched s1 t \<and> (\<exists>e. r = Inl e) \<or> appends (Call_Abort tid) r s1 t"
            using plain_event_known [OF st1, of Act_Aborted]
            by (intro append_not_untouched [OF s1(2) _ _ app]) (auto simp: ev_label_def plain_event_def)
          then show ?thesis
          proof
            assume "untouched s1 t \<and> (\<exists>e. r = Inl e)"
            then show ?thesis by (intro outcome_after_untouched [OF s1(1)]) (auto simp: call_outcome_def)
          next
            assume ap: "appends (Call_Abort tid) r s1 t"
            have "disk_state (snd s1) = disk_state (snd s)" "jn_authority (fst s1) = jn_authority (fst s)"
              using s1(1) untouched_ok(2) [OF ok s1(1)] by (auto simp: untouched_def)
            then show ?thesis using ap by (simp add: call_outcome_def appends_def)
          qed
        qed (use returned(2) s1(1) in \<open>auto simp: op_simps call_outcome_def\<close>)
      qed
    qed
  qed
qed (simp_all add: outcome_raised)

theorem call_has_outcome:
  assumes "session_ok s" and "call_text c" and "run_call c s = (r, t)"
  shows "call_outcome c r s t"
  using assms by (cases c) (simp_all only: reserve_outcome authorize_outcome resume_outcome commit_outcome abort_outcome)

section \<open>Opening the journal\<close>

definition disk_ledger :: "world \<Rightarrow> ledger" where
  "disk_ledger w = (case disk_state w of None \<Rightarrow> Map.empty | Some st \<Rightarrow> ledger_st st)"

definition initial_state :: "budget_authority \<Rightarrow> journal_state" where
  "initial_state a = \<lparr>js_journal_id = journal_id_of a, js_authority = a, js_revision = 0,
     js_head_sha256 = zero_head_sha256, js_transactions = []\<rparr>"

lemma zero_head_hash: "is_hash_str zero_head_sha256"
  by (simp add: is_hash_str_def zero_head_sha256_def hex_char_def is_digit_def char_code_def)

lemma initial_document_stored:
  assumes "authority_ok a" and "utf8_valid (auth_provider_identity a)"
  obtains d where "initial_document a = Inr d" and "storable d" and "replay_document d = Inr (initial_state a)"
proof -
  have rec: "authority_record a = Inr (authority_json a)"
    using assms(1) by (simp add: authority_record_def bindE_eq_Inr check_simps)
  let ?v = "[(''schema_version'', JInt journal_schema_version), (''journal_id'', JStr (journal_id_of a)),
    (''authority'', authority_json a), (''revision'', JInt 0), (''head_sha256'', JStr zero_head_sha256),
    (''events'', JArr [])]"
  have hash: "is_hash_str (journal_id_of a)" by (simp add: journal_id_of_def)
  have "plain (authority_json a)" "utf8_json (authority_json a)"
    using assms by (simp_all add: authority_json_def authority_ok_def utf8_literal char_code_def)
  then have "storable (JObj ?v)"
    using hash zero_head_hash by (simp add: storable_def utf8_literal char_code_def)
  moreover have "replay_document (JObj ?v) = Inr (initial_state a)"
    unfolding replay_document_Inr
    using validate_authority_json [OF assms(1)] zero_head_hash
    by (intro exI [of _ ?v] exI [of _ "[]"])
      (simp add: document_keys_def dict_get_none_def initial_state_def dec_eq_def insert_commute)
  ultimately show thesis by (intro that [of "JObj ?v"]) (simp_all add: initial_document_def rec)
qed

lemma ledger_initial: "ledger_st (initial_state a) = Map.empty"
  by (simp add: ledger_st_def initial_state_def ledger_of_def fun_eq_iff)

definition fresh_open :: "jstate \<Rightarrow> bool" where
  \<comment> \<open>an object that has not replayed anything yet, for an authority that can be recorded\<close>
  "fresh_open s \<longleftrightarrow> jn_state (fst s) = None \<and> authority_ok (jn_authority (fst s)) \<and>
    utf8_valid (auth_provider_identity (jn_authority (fst s))) \<and> disk_ok (snd s)"

definition quiet :: "jstate \<Rightarrow> jstate \<Rightarrow> bool" where
  "quiet s t \<longleftrightarrow> journal_file (snd t) = journal_file (snd s) \<and> jn_state (fst t) = jn_state (fst s) \<and>
    jn_authority (fst t) = jn_authority (fst s)"

lemma quiet_fresh: "quiet s t \<Longrightarrow> fresh_open s \<Longrightarrow> fresh_open t \<and> disk_ledger (snd t) = disk_ledger (snd s)"
  using disk_file [of "snd t" "snd s"] by (auto simp: quiet_def fresh_open_def disk_ledger_def)

lemma quiet_trans: "quiet s t \<Longrightarrow> quiet t u \<Longrightarrow> quiet s u"
  by (simp add: quiet_def)

lemma take_lock_quiet: "take_lock s = (r, t) \<Longrightarrow> quiet s t"
  by (cases s; cases r) (auto simp: take_lock_def open_lock_def op_simps quiet_def split: option.splits)

lemma fresh_session: "fresh_open s \<Longrightarrow> session_ok s"
  by (simp add: fresh_open_def session_ok_def memory_ok_def)

definition loaded :: "jstate \<Rightarrow> bool" where
  "loaded s \<longleftrightarrow> (\<exists>d st. jn_document (fst s) = Some d \<and> replay_document d = Inr st \<and> disk_state (snd s) = Some st)"

lemma disk_none: "journal_file w = None \<Longrightarrow> disk_ledger w = Map.empty \<and> disk_ok w"
  by (simp add: disk_ledger_def disk_state_def disk_ok_def)

lemma entry_exists_state: "entry_exists e s = (r, t) \<Longrightarrow> t = s \<and> (\<forall>b. r = Inr b \<longrightarrow> b = (e (snd s) \<noteq> None))"
  by (cases r) (auto simp: entry_exists_def op_simps)

lemma load_existing:
  assumes fresh: "fresh_open s" and entry: "journal_file (snd s) \<noteq> None"
    and run: "bindS read_document (\<lambda>d. set_journal (\<lambda>j. j\<lparr>jn_document := Some d\<rparr>)) s = (r, t)"
  shows "quiet s t" and "r = Inr u \<Longrightarrow> loaded t"
proof -
  from fresh entry obtain d0 st where d0: "holds (snd s) d0 st" by (auto simp: fresh_open_def disk_ok_def)
  obtain v s1 where v: "read_document s = (v, s1)" by (rule prod.exhaust)
  then have rd: "read_document (fst s, snd s) = (v, s1)" by simp
  have s1: "s1 = s" by (rule read_document_state [OF v])
  have val: "d = canon d0" if "v = Inr d" for d
    using read_document_good [OF _ _ _ rd] d0 that by (auto simp: holds_def)
  show "quiet s t" using run v s1 by (cases v; cases s) (auto simp: bindS_def op_value quiet_def)
  assume "r = Inr u"
  with run v s1 obtain d where d: "v = Inr d" and t: "t = apfst (\<lambda>j. j\<lparr>jn_document := Some d\<rparr>) s"
    by (cases v) (auto simp: bindS_def op_value)
  have "replay_document d = Inr st" using val [OF d] d0 by (auto simp: holds_def storable_def replay_document_canon)
  then show "loaded t" using t holds_state [OF d0] by (cases s) (auto simp: loaded_def)
qed

lemma load_new:
  assumes fresh: "fresh_open s" and entry: "journal_file (snd s) = None"
    and run: "bindS (get_journal jn_authority) (\<lambda>a. bindS (liftS (initial_document a)) (\<lambda>d.
      bindS (set_journal (\<lambda>j. j\<lparr>jn_document := Some d\<rparr>)) (\<lambda>_. persist d))) s = (r, t)"
  shows "fresh_open t \<and> disk_ledger (snd t) = Map.empty" and "r = Inr u \<Longrightarrow> loaded t"
proof -
  let ?a = "jn_authority (fst s)"
  obtain d where d: "initial_document ?a = Inr d" "storable d" "replay_document d = Inr (initial_state ?a)"
    using initial_document_stored fresh by (auto simp: fresh_open_def)
  let ?s1 = "apfst (\<lambda>j. j\<lparr>jn_document := Some d\<rparr>) s"
  from run d(1) have p: "persist d ?s1 = (r, t)" by (simp add: bindS_def op_value)
  note inst = persist_installs(1) [OF p]
  have mem: "jn_state (fst t) = None" "jn_authority (fst t) = ?a" "jn_document (fst t) = Some d"
    using inst fresh by (cases s; simp add: installs_def fresh_open_def)+
  show "fresh_open t \<and> disk_ledger (snd t) = Map.empty"
  proof (cases "journal_file (snd t) = None")
    case True
    then show ?thesis using disk_none [OF True] mem fresh by (simp add: fresh_open_def)
  next
    case False
    then have "holds (snd t) d (initial_state ?a)"
      using inst entry by (intro holds_written [OF d(2,3)]) (auto simp: installs_def)
    then have "disk_state (snd t) = Some (initial_state ?a)" "disk_ok (snd t)"
      by (auto simp: holds_state disk_ok_def)
    then show ?thesis using mem fresh by (simp add: fresh_open_def disk_ledger_def ledger_initial)
  qed
  assume "r = Inr u"
  then have "journal_file (snd t) = Some (written_file (euid (snd ?s1)) d)"
    using persist_installs(2) [OF p] by blast
  then show "loaded t"
    using holds_state [OF holds_written [OF d(2,3)]] d(3) mem(3) unfolding loaded_def by blast
qed

lemma load_document_cases:
  assumes fresh: "fresh_open s" and run: "load_document s = (r, t)"
  shows "fresh_open t \<and> disk_ledger (snd t) = disk_ledger (snd s)" and "r = Inr u \<Longrightarrow> loaded t"
proof -
  obtain b s1 where b: "entry_exists journal_file s = (b, s1)" by (rule prod.exhaust)
  note s1 = entry_exists_state [OF b]
  have "fresh_open t \<and> disk_ledger (snd t) = disk_ledger (snd s) \<and> (r = Inr u \<longrightarrow> loaded t)"
  proof (cases b)
    case (Inl e)
    then show ?thesis using run b s1 fresh by (auto simp: load_document_def bindS_def)
  next
    case (Inr found)
    show ?thesis
    proof (cases "journal_file (snd s) = None")
      case True
      then show ?thesis
        using load_new [OF fresh True, of r t] run b s1 Inr disk_none [OF True]
        by (simp add: load_document_def bindS_def [of "entry_exists journal_file"])
    next
      case False
      then show ?thesis
        using load_existing [OF fresh False, of r t] run b s1 Inr quiet_fresh [OF _ fresh]
        by (simp add: load_document_def bindS_def [of "entry_exists journal_file"])
    qed
  qed
  then show "fresh_open t \<and> disk_ledger (snd t) = disk_ledger (snd s)" and "r = Inr u \<Longrightarrow> loaded t" by blast+
qed

lemma adopt_document_cases:
  assumes "session_ok s" and "loaded s" and "adopt_document s = (r, t)"
  shows "session_ok t \<and> snd t = snd s"
proof -
  from assms(2) obtain d st where d: "jn_document (fst s) = Some d" "replay_document d = Inr st"
    "disk_state (snd s) = Some st" by (auto simp: loaded_def)
  let ?t = "apfst (\<lambda>j. j\<lparr>jn_state := Some st\<rparr>) s"
  have "t = ?t"
    using assms(3) d unfolding adopt_document_def
    by (cases s; cases "validate_authority (jn_authority (fst s))")
      (auto simp: bindS_def op_value whenS_def split: if_splits)
  then show ?thesis
    using assms(1) d(3) disk_stored [of "snd s" st]
    by (cases s) (auto simp: session_ok_def memory_ok_def)
qed

lemma enter_cases:
  assumes fresh: "fresh_open s" and run: "enter s = (r, t)"
  shows "session_ok t \<and> disk_ledger (snd t) = disk_ledger (snd s)"
proof -
  have close: "session_ok (close_journal u) = session_ok u" "snd (close_journal u) = snd u" for u
    by (cases u; simp add: close_journal_def session_ok_def memory_ok_def)+
  have load: "session_ok v \<and> disk_ledger (snd v) = disk_ledger (snd u)"
    if "fresh_open u" "bindS load_document (\<lambda>_. adopt_document) u = (q, v)" for q u v
  proof -
    obtain x u1 where x: "load_document u = (x, u1)" by (rule prod.exhaust)
    note c = load_document_cases [OF that(1) x]
    show ?thesis
    proof (cases x)
      case (Inl e)
      then show ?thesis using that(2) x c(1) fresh_session by (auto simp: bindS_def)
    next
      case (Inr y)
      then have "adopt_document u1 = (q, v)" using that(2) x by (simp add: bindS_def)
      then show ?thesis using adopt_document_cases [of u1 q v] c Inr fresh_session by auto
    qed
  qed
  have body: "session_ok v \<and> disk_ledger (snd v) = disk_ledger (snd u)"
    if "fresh_open u" "bindS take_lock (\<lambda>_. bindS reject_temporary (\<lambda>_. bindS load_document (\<lambda>_. adopt_document))) u = (q, v)"
    for q u v
  proof -
    obtain x u1 where x: "take_lock u = (x, u1)" by (rule prod.exhaust)
    have u1: "fresh_open u1 \<and> disk_ledger (snd u1) = disk_ledger (snd u)"
      by (rule quiet_fresh [OF take_lock_quiet [OF x] that(1)])
    obtain y u2 where y: "reject_temporary u1 = (y, u2)" by (rule prod.exhaust)
    have u2: "u2 = u1" by (rule reject_temporary_state [OF y])
    show ?thesis
      using that(2) x y u1 u2 load [of u1 q v] fresh_session
      by (cases x; cases y) (auto simp: bindS_def)
  qed
  show ?thesis
  proof (cases "has_flock (snd s) \<and> (\<exists>d. parent_stat (snd s) = Some d \<and> check_parent d (euid (snd s)) = Inr ())")
    case False
    then have "t = s"
      using run unfolding enter_def
      by (cases "parent_stat (snd s)"; cases r) (auto simp: op_simps)
    then show ?thesis using fresh fresh_session by simp
  next
    case True
    let ?s1 = "apfst (\<lambda>j. j\<lparr>dir_open := True\<rparr>) s"
    have s1: "fresh_open ?s1 \<and> disk_ledger (snd ?s1) = disk_ledger (snd s)"
      by (rule quiet_fresh [OF _ fresh]) (cases s, simp add: quiet_def)
    obtain d where d: "parent_stat (snd s) = Some d" "check_parent d (euid (snd s)) = Inr ()" using True by blast
    let ?lock = "bindS take_lock (\<lambda>_. bindS reject_temporary (\<lambda>_. bindS load_document (\<lambda>_. adopt_document)))"
    let ?opened = "bindS (get_world parent_open) (\<lambda>opened.
      bindS (liftS (check_opened_parent d opened (euid (snd s)))) (\<lambda>_. ?lock))"
    let ?m = "bindS (os_call ''open_directory'') (\<lambda>_. bindS (set_journal (\<lambda>j. j\<lparr>dir_open := True\<rparr>)) (\<lambda>_. ?opened))"
    have "on_errorS ?m close_journal s = (r, t)"
      using run True d unfolding enter_def by (simp add: bindS_def [of "getS _"] bindS_def [of "whenS _ _"]
          bindS_def [of "liftS _"] op_value whenS_def)
    then obtain q v where v: "?m s = (q, v)" and t: "t = v \<or> t = close_journal v"
      by (cases "?m s"; cases "fst (?m s)") (auto simp: on_errorS_def)
    have "session_ok v \<and> disk_ledger (snd v) = disk_ledger (snd s)"
      using v
    proof (rule bindS_pureE)
      assume "bindS (set_journal (\<lambda>j. j\<lparr>dir_open := True\<rparr>)) (\<lambda>_. ?opened) s = (q, v)"
      then have "bindS (liftS (check_opened_parent d (parent_open (snd s)) (euid (snd s)))) (\<lambda>_. ?lock) ?s1 = (q, v)"
        by (simp add: bindS_def [of "modifyS _"] bindS_def [of "getS _"] op_value)
      then show ?thesis
        by (rule bindS_pureE) (use body [OF conjunct1 [OF s1]] s1 fresh_session in simp_all)
    qed (use fresh fresh_session in \<open>simp_all add: os_call_def pure_op_bindS\<close>)
    then show ?thesis using t close [of v] by (elim disjE) (simp_all only:)
  qed
qed

section \<open>Sessions\<close>

type_synonym history = "(call \<times> receipt result) list"

inductive session :: "jstate \<Rightarrow> history \<Rightarrow> jstate \<Rightarrow> bool" for s where
  session_start: "session s [] s"
| session_call: "session s h u \<Longrightarrow> call_text c \<Longrightarrow> run_call c u = (r, t) \<Longrightarrow> session s (h @ [(c, r)]) t"
| session_world: \<comment> \<open>anything but the journal file changes: the clock, what fails, the temporary file\<close>
    "session s h (j, w) \<Longrightarrow> journal_file w' = journal_file w \<Longrightarrow> session s h (j, w')"
| session_reopen: \<comment> \<open>the process ended, and another one opens the journal\<close>
    "session s h (j, w) \<Longrightarrow> jn_state j' = None \<Longrightarrow> authority_ok (jn_authority j') \<Longrightarrow>
     utf8_valid (auth_provider_identity (jn_authority j')) \<Longrightarrow> enter (j', w) = (r, t) \<Longrightarrow> session s h t"
| session_close: "session s h u \<Longrightarrow> session s h (close_journal u)"

inductive_cases session_emptyE: "session s [] t"

text \<open>One relation for whatever the disk does over a session.\<close>

definition disk_leads :: "world \<Rightarrow> world \<Rightarrow> bool" where
  "disk_leads v w \<longleftrightarrow> (\<exists>a ls. ledger_run a (disk_ledger v) ls (disk_ledger w))"

lemma appends_disk:
  assumes "appends c r s t"
  obtains st st' l where "disk_state (snd s) = Some st" and "call_label c l"
    and "ledger_step (js_authority st) (disk_ledger (snd s)) l (disk_ledger (snd t))"
    and "disk_state (snd t) = Some st'" and "js_authority st' = js_authority st"
    and "\<And>rc. r = Inr rc \<Longrightarrow> transaction_receipt_from_state st' (label_id l) = Inr rc"
  using assms unfolding appends_def disk_ledger_def by auto

lemma call_session_ok:
  assumes ok: "session_ok u" and "call_text c" and "run_call c u = (r, t)"
  shows "session_ok t"
proof -
  from call_has_outcome [OF assms] consider "untouched u t" | "appends c r u t"
    by (auto simp: call_outcome_def)
  then show ?thesis using untouched_ok(1) [OF ok] appends_ok [OF ok] by cases
qed

theorem session_keeps_ok: "session s h t \<Longrightarrow> session_ok s \<Longrightarrow> session_ok t"
proof (induction rule: session.induct)
  case (session_call h u c r t)
  then show ?case by (intro call_session_ok [of u c r t]) simp_all
next
  case (session_world h j w w')
  then have f: "disk_ok w' = disk_ok w" "disk_state w' = disk_state w" using disk_file by blast+
  have "session_ok (j, w)" using session_world.IH session_world.prems by blast
  then show ?case unfolding session_ok_def memory_ok_def fst_conv snd_conv f .
next
  case (session_reopen h j w j' r t)
  then have "fresh_open (j', w)" by (simp add: fresh_open_def session_ok_def)
  then show ?case using enter_cases session_reopen.hyps(5) by blast
next
  case (session_close h u)
  then have "session_ok u" by blast
  then show ?case unfolding session_ok_def memory_ok_def by (simp add: close_journal_def)
qed

text \<open>A property of the disk that single ledger steps keep is kept by every session.\<close>

lemma session_disk:
  assumes "session s h t" and "session_ok s" and "P (disk_ledger (snd s))"
    and "\<And>a L l L'. ledger_step a L l L' \<Longrightarrow> P L \<Longrightarrow> P L'"
  shows "P (disk_ledger (snd t))"
  using assms(1,2,3)
proof (induction rule: session.induct)
  case (session_call h u c r t)
  have "session_ok u" by (rule session_keeps_ok [OF session_call.hyps(1) session_call.prems(1)])
  from call_has_outcome [OF this session_call.hyps(2,3)]
  consider "untouched u t" | "appends c r u t" by (auto simp: call_outcome_def)
  then show ?case
  proof cases
    case 1
    then have "disk_ledger (snd t) = disk_ledger (snd u)"
      using disk_file [of "snd t" "snd u"] by (simp add: untouched_def disk_ledger_def)
    then show ?thesis using session_call by simp
  next
    case 2
    then show ?thesis using session_call assms(4) by (auto elim!: appends_disk)
  qed
next
  case (session_world h j w w')
  then show ?case using disk_file [of w' w] by (simp add: disk_ledger_def)
next
  case (session_reopen h j w j' r t)
  have "session_ok (j, w)" by (rule session_keeps_ok [OF session_reopen.hyps(1) session_reopen.prems(1)])
  then have "fresh_open (j', w)" using session_reopen.hyps by (simp add: fresh_open_def session_ok_def)
  then show ?case using enter_cases session_reopen by fastforce
qed (simp_all add: close_journal_def)

text \<open>What a returned result says of the disk.\<close>

lemma authorize_granted:
  assumes ok: "session_ok u" and run: "run_call (Call_Authorize tid n h) u = (Inr rc, t)"
  obtains i where "disk_ledger (snd u) tid = Some (i, Held)"
    and "disk_ledger (snd t) = (disk_ledger (snd u))(tid \<mapsto> (i, Spending False))"
    and "identity (rc_transaction rc) = i" and "one_live (disk_ledger (snd u))"
proof -
  have "appends (Call_Authorize tid n h) (Inr rc) u t"
    using call_has_outcome [OF ok _ run] by (simp add: call_outcome_def)
  then obtain st st' where st: "disk_state (snd u) = Some st"
    and step: "ledger_step (js_authority st) (disk_ledger (snd u)) (Authorize tid) (disk_ledger (snd t))"
    and st': "disk_state (snd t) = Some st'" and rc: "transaction_receipt_from_state st' tid = Inr rc"
    by (auto elim!: appends_disk)
  from step obtain i where i: "disk_ledger (snd u) tid = Some (i, Held)"
    and t: "disk_ledger (snd t) = (disk_ledger (snd u))(tid \<mapsto> (i, Spending False))"
    by (auto simp: step_Authorize)
  from rc obtain x where x: "map_of (js_transactions st') tid = Some x" "identity (rc_transaction rc) = identity x"
    by (auto simp: transaction_receipt_from_state_def bindE_eq_Inr split: option.splits)
  have "disk_ledger (snd t) tid = Some (identity x, phase_of x)"
    using x(1) st' by (simp add: disk_ledger_def ledger_st_def ledger_of_def entry_of_def)
  then have "identity (rc_transaction rc) = i" using t x(2) by simp
  moreover have "stored_state st" using ok st by (auto simp: session_ok_def intro: disk_stored)
  then have "one_live (disk_ledger (snd u))"
    using stored_stateD(3) st by (auto simp: ledger_ok_def disk_ledger_def)
  ultimately show thesis using that i t by blast
qed

fun grants_run :: "string \<Rightarrow> call \<times> receipt result \<Rightarrow> bool" where
  \<comment> \<open>a granted authorization of a request of the run\<close>
  "grants_run r (Call_Authorize tid n h, Inr rc) \<longleftrightarrow> run_id (identity (rc_transaction rc)) = r"
| "grants_run r _ \<longleftrightarrow> False"

lemma step_run_spent: "ledger_step a L l L' \<Longrightarrow> run_spent r L \<Longrightarrow> run_spent r L'"
  by (rule step_keeps_run_spent)

theorem session_grants_once:
  assumes "session s h t" and "session_ok s"
  shows "length (filter (grants_run r) h) \<le> 1 \<and>
    (filter (grants_run r) h \<noteq> [] \<longrightarrow> run_spent r (disk_ledger (snd t)))"
  using assms
proof (induction rule: session.induct)
  case (session_call h u c res t)
  have ok: "session_ok u" by (rule session_keeps_ok [OF session_call.hyps(1) session_call.prems])
  have IH: "length (filter (grants_run r) h) \<le> 1" "filter (grants_run r) h \<noteq> [] \<Longrightarrow> run_spent r (disk_ledger (snd u))"
    using session_call.IH session_call.prems by blast+
  have keep: "run_spent r (disk_ledger (snd u)) \<Longrightarrow> run_spent r (disk_ledger (snd t))"
    using session_disk [OF session.session_call [OF session_start session_call.hyps(2,3)] ok, of "run_spent r"]
      step_keeps_run_spent by blast
  show ?case
  proof (cases "grants_run r (c, res)")
    case True
    then obtain tid n hd rc where c: "c = Call_Authorize tid n hd" and res: "res = Inr rc"
      and r: "run_id (identity (rc_transaction rc)) = r"
      by (cases "(r, (c, res))" rule: grants_run.cases) auto
    have run: "run_call (Call_Authorize tid n hd) u = (Inr rc, t)"
      using session_call.hyps(3) unfolding c res .
    obtain i where i: "disk_ledger (snd u) tid = Some (i, Held)" "run_id i = r" "one_live (disk_ledger (snd u))"
      and t: "disk_ledger (snd t) = (disk_ledger (snd u))(tid \<mapsto> (i, Spending False))"
      using authorize_granted [OF ok run] r by metis
    have step: "ledger_step a (disk_ledger (snd u)) (Authorize tid) (disk_ledger (snd t))" for a
      using i(1) t by (auto simp: step_Authorize)
    have "\<not> run_spent r (disk_ledger (snd u))" "run_spent r (disk_ledger (snd t))"
      using authorize_spends [OF step _ i(3)] i(1,2) by simp_all
    then show ?thesis using IH True by auto
  next
    case False
    then show ?thesis using IH keep by auto
  qed
next
  case (session_world h j w w')
  then show ?case using disk_file [of w' w] by (simp add: disk_ledger_def)
next
  case (session_reopen h j w j' res t)
  have "session_ok (j, w)" by (rule session_keeps_ok [OF session_reopen.hyps(1) session_reopen.prems])
  then have "fresh_open (j', w)" using session_reopen.hyps by (simp add: fresh_open_def session_ok_def)
  then show ?case using enter_cases session_reopen by fastforce
qed (simp_all add: close_journal_def)

text \<open>A transaction is released or spent on, never both.\<close>

fun grants_transaction :: "string \<Rightarrow> call \<times> receipt result \<Rightarrow> bool" where
  "grants_transaction k (Call_Authorize tid n h, Inr rc) \<longleftrightarrow> tid = k"
| "grants_transaction k _ \<longleftrightarrow> False"

fun releases_transaction :: "string \<Rightarrow> call \<times> receipt result \<Rightarrow> bool" where
  "releases_transaction k (Call_Abort tid, Inr rc) \<longleftrightarrow> tid = k"
| "releases_transaction k _ \<longleftrightarrow> False"

definition released_in :: "string \<Rightarrow> ledger \<Rightarrow> bool" where
  "released_in k L \<longleftrightarrow> (\<exists>i. L k = Some (i, Released))"

definition spent_in :: "string \<Rightarrow> ledger \<Rightarrow> bool" where
  "spent_in k L \<longleftrightarrow> (\<exists>i p. L k = Some (i, p) \<and> spent p)"

lemma step_released: "ledger_step a L l L' \<Longrightarrow> released_in k L \<Longrightarrow> released_in k L'"
  unfolding released_in_def by (induction rule: ledger_step.induct) auto

lemma step_spent: "ledger_step a L l L' \<Longrightarrow> spent_in k L \<Longrightarrow> spent_in k L'"
  unfolding spent_in_def using step_keeps_spent by fast

lemma released_not_spent: "released_in k L \<Longrightarrow> \<not> spent_in k L"
  by (auto simp: released_in_def spent_in_def)

lemma abort_granted:
  assumes ok: "session_ok u" and run: "run_call (Call_Abort tid) u = (Inr rc, t)"
  shows "released_in tid (disk_ledger (snd t))"
proof -
  from call_has_outcome [OF ok _ run] consider
    (memory) st where "untouched u t" "jn_state (fst u) = Some st" "memory_answers (Call_Abort tid) rc st"
    | (append) "appends (Call_Abort tid) (Inr rc) u t"
    by (auto simp: call_outcome_def)
  then show ?thesis
  proof cases
    case memory
    then obtain x where x: "map_of (js_transactions st) tid = Some x" "txn_state x = Aborted_Pre_Request" by auto
    obtain sd where sd: "disk_state (snd u) = Some sd" "leads st sd"
      using ok memory(2) by (auto simp: session_ok_def memory_ok_def)
    have "ledger_st st tid = Some (identity x, Released)"
      using x by (simp add: ledger_st_def ledger_of_def entry_of_def phase_of_def)
    then have "ledger_st sd tid = Some (identity x, Released)"
      using sd(2) run_keeps_phase(1) unfolding leads_def by blast
    then show ?thesis
      using untouched_ok(2) [OF ok memory(1)] sd(1) by (simp add: released_in_def disk_ledger_def)
  next
    case append
    then obtain a where "ledger_step a (disk_ledger (snd u)) (Abort tid) (disk_ledger (snd t))"
      by (auto elim!: appends_disk)
    then show ?thesis by (auto elim!: step_AbortE simp: released_in_def)
  qed
qed

theorem session_released_or_spent:
  assumes "session s h t" and "session_ok s"
  shows "(list_ex (grants_transaction k) h \<longrightarrow> spent_in k (disk_ledger (snd t))) \<and>
    (list_ex (releases_transaction k) h \<longrightarrow> released_in k (disk_ledger (snd t)))"
  using assms
proof (induction rule: session.induct)
  case (session_call h u c res t)
  have ok: "session_ok u" by (rule session_keeps_ok [OF session_call.hyps(1) session_call.prems])
  note one = session_disk [OF session.session_call [OF session_start session_call.hyps(2,3)] ok]
  have "spent_in k (disk_ledger (snd u)) \<Longrightarrow> spent_in k (disk_ledger (snd t))"
    "released_in k (disk_ledger (snd u)) \<Longrightarrow> released_in k (disk_ledger (snd t))"
    using one [of "spent_in k"] one [of "released_in k"] step_spent step_released by blast+
  moreover have "spent_in k (disk_ledger (snd t))" if "grants_transaction k (c, res)"
  proof -
    from that obtain n hd rc where "c = Call_Authorize k n hd" "res = Inr rc"
      by (cases "(k, (c, res))" rule: grants_transaction.cases) auto
    then obtain i where "disk_ledger (snd t) = (disk_ledger (snd u))(k \<mapsto> (i, Spending False))"
      using authorize_granted [OF ok, of k n hd rc t] session_call.hyps(3) by blast
    then show ?thesis by (simp add: spent_in_def)
  qed
  moreover have "released_in k (disk_ledger (snd t))" if "releases_transaction k (c, res)"
  proof -
    from that obtain rc where "c = Call_Abort k" "res = Inr rc"
      by (cases "(k, (c, res))" rule: releases_transaction.cases) auto
    then show ?thesis using abort_granted [OF ok, of k rc t] session_call.hyps(3) by auto
  qed
  ultimately show ?case using session_call.IH session_call.prems by auto
next
  case (session_world h j w w')
  then show ?case using disk_file [of w' w] by (simp add: disk_ledger_def)
next
  case (session_reopen h j w j' res t)
  have "session_ok (j, w)" by (rule session_keeps_ok [OF session_reopen.hyps(1) session_reopen.prems])
  then have "fresh_open (j', w)" using session_reopen.hyps by (simp add: fresh_open_def session_ok_def)
  then show ?case using enter_cases session_reopen by fastforce
qed (simp_all add: close_journal_def)

end
