(* ===== verification/Budget_Progress.thy ===== *)
theory Budget_Progress
  imports Budget_Session
begin

text \<open>
  When nothing fails the journal gets its work done: a new journal opens, an event the state
  machine accepts is appended, written and answered with its receipt, and the checkpoint of the
  journal replays to the same state. A worked session (reserve, authorize, commit) on a
  concrete machine closes the theory.
\<close>

section \<open>The size of a printed document\<close>

fun json_bound :: "json \<Rightarrow> nat" where
  "json_bound JNull = 4"
| "json_bound (JBool b) = 5"
| "json_bound (JInt i) = length (int_str i)"
| "json_bound (JFloat f) = length (float_str f)"
| "json_bound (JStr s) = 6 * length s + 2"
| "json_bound (JArr vs) = 2 + sum_list (map (\<lambda>v. json_bound v + 1) vs)"
| "json_bound (JObj kvs) = 2 + sum_list (map (\<lambda>kv. 6 * length (fst kv) + 4 + json_bound (snd kv)) kvs)"

lemma length_quote: "length (quote s) \<le> 6 * length s + 2"
proof -
  have "length (concat (map escape_char s)) \<le> 6 * length s"
    by (induction s) (auto simp: escape_char_def)
  then show ?thesis by (simp add: quote_def)
qed

lemma length_join: "length (join_with [c] ss) \<le> sum_list (map (\<lambda>s. length s + 1) ss)"
  by (induction "[c]" ss rule: join_with.induct) auto

lemma sum_list_mono_map: "(\<And>x. x \<in> set xs \<Longrightarrow> f x \<le> g x) \<Longrightarrow> sum_list (map f xs) \<le> sum_list (map g xs)"
  for f g :: "'x \<Rightarrow> nat"
  by (rule sum_list_mono)

lemma length_dumps: "length (dumps v) \<le> json_bound v"
proof (induction v rule: dumps.induct)
  case (5 s)
  then show ?case using length_quote by simp
next
  case (6 vs)
  have "length (join_with '','' (map dumps vs)) \<le> sum_list (map (\<lambda>v. length (dumps v) + 1) vs)"
    using length_join [of "CHR '',''" "map dumps vs"] by (simp add: comp_def)
  also have "\<dots> \<le> sum_list (map (\<lambda>v. json_bound v + 1) vs)"
    using 6 by (intro sum_list_mono_map) simp
  finally show ?case by simp
next
  case (7 kvs)
  let ?m = "\<lambda>kv. quote (fst kv) @ '':'' @ dumps (snd kv)"
  have "length (join_with '','' (map ?m kvs)) \<le> sum_list (map (\<lambda>kv. length (?m kv) + 1) kvs)"
    using length_join [of "CHR '',''" "map ?m kvs"] by (simp add: comp_def)
  also have "\<dots> \<le> sum_list (map (\<lambda>kv. 6 * length (fst kv) + 4 + json_bound (snd kv)) kvs)"
  proof (rule sum_list_mono_map)
    fix kv assume "kv \<in> set kvs"
    then have "length (dumps (snd kv)) \<le> json_bound (snd kv)" using 7 by simp
    then show "length (?m kv) + 1 \<le> 6 * length (fst kv) + 4 + json_bound (snd kv)"
      using length_quote [of "fst kv"] by simp
  qed
  finally show ?case by simp
qed simp_all

lemma json_bound_canon: "json_bound (canon v) = json_bound v"
proof (induction v rule: canon.induct)
  case (1 vs)
  then have "map (\<lambda>v. json_bound v + 1) (map canon vs) = map (\<lambda>v. json_bound v + 1) vs" by simp
  then show ?case by (simp only: canon.simps json_bound.simps)
next
  case (2 kvs)
  let ?f = "\<lambda>kv. 6 * length (fst kv) + 4 + json_bound (snd kv)" and ?c = "\<lambda>kv. (fst kv, canon (snd kv))"
  have "sum_list (map ?f (sort_key fst (map ?c kvs))) = sum_list (map ?f (map ?c kvs))"
    by (simp only: sum_mset_sum_list [symmetric] mset_map mset_sort)
  also have "map ?f (map ?c kvs) = map ?f kvs" using 2 by simp
  finally show ?case by (simp only: canon.simps json_bound.simps)
qed simp_all

lemma journal_text_bound: "length (journal_text d) \<le> json_bound d + 1"
  using length_dumps [of "canon d"] by (simp add: journal_text_def stable_json_def json_bound_canon)

section \<open>A machine on which nothing fails\<close>

definition healthy :: "world \<Rightarrow> bool" where
  "healthy w \<longleftrightarrow> failing w = [] \<and> write_sizes w = [] \<and> temp_file w = None \<and> 1 \<le> clock w"

lemma validate_new_inode: "validate_regular ((new_inode uid)\<lparr>f_data := p, f_durable := q\<rparr>) uid wh = Inr ()"
proof -
  have "\<not> mode_violation 384 63" by (simp add: mode_violation_def take_bit_eq_mod)
  then show ?thesis by (simp add: validate_regular_def new_inode_def)
qed

lemma opens_new_inode: "open_nofollow_result ((new_inode uid)\<lparr>f_data := p, f_durable := q\<rparr>) b"
  by (simp add: open_nofollow_result_def new_inode_def)

lemma persist_healthy:
  assumes "healthy w" and "length (journal_text d) \<le> max_journal_bytes"
  shows "persist d (j, w) = (Inr (), (j, w\<lparr>journal_file := Some (written_file (euid w) d),
    survivors := [Some (written_file (euid w) d)]\<rparr>))"
proof -
  have whole: "write_all [] p = (p, True)" for p by (cases p) simp_all
  show ?thesis
    using assms validate_new_inode [where uid = "euid w" and p = "journal_text d" and q = "journal_text d"]
    unfolding healthy_def
    by (simp add: persist_def journal_text_def [symmetric] Let_def create_temporary_def write_temporary_def
        os_call_def validate_temporary_def fault_hook_def replace_journal_def bindS_def op_value whenS_def
        whole written_file_def fsync_temporary_def fsync_directory_def)
qed

definition ready :: "jstate \<Rightarrow> json \<Rightarrow> journal_state \<Rightarrow> bool" where
  \<comment> \<open>an open journal in step with its file\<close>
  "ready s d st \<longleftrightarrow> dir_open (fst s) \<and> lock_open (fst s) \<and> jn_state (fst s) = Some st \<and>
    healthy (snd s) \<and> journal_file (snd s) = Some (written_file (euid (snd s)) d) \<and>
    length (journal_text d) \<le> max_journal_bytes \<and> storable d \<and> replay_document d = Inr st"

lemma ready_session: "ready s d st \<Longrightarrow> session_ok s"
proof -
  assume r: "ready s d st"
  then have h: "holds (snd s) d st" by (auto simp: ready_def intro: holds_written)
  then have "stored_state st" by (auto simp: stored_state_def holds_def)
  then show ?thesis using r holds_state [OF h] h
    by (auto simp: session_ok_def memory_ok_def disk_ok_def ready_def)
qed

lemma require_open_ready: "ready s d st \<Longrightarrow> require_open s = (Inr st, s)"
  by (simp add: ready_def require_open_def bindS_def op_value)

lemma reobserve_ready:
  assumes "ready (j, w) d st"
  shows "reobserve (j, w) = (Inr (), (j\<lparr>jn_document := Some (canon d), jn_state := Some st\<rparr>, w))"
proof -
  have read: "read_document (j, w) = (Inr (canon d), (j, w))"
  proof -
    have "journal_text d \<noteq> []" by (simp add: journal_text_def)
    then show ?thesis
      using assms unique_json_text [of d] read_loop_all [of 0 "journal_text d" "[]"]
        validate_new_inode [where uid = "euid w" and p = "journal_text d" and q = "journal_text d"]
        opens_new_inode [where uid = "euid w" and p = "journal_text d" and q = "journal_text d"]
      by (simp add: read_document_def ready_def healthy_def written_file_def bindS_def op_value whenS_def os_call_def)
  qed
  have "replay_document (canon d) = Inr st"
    using assms by (simp add: ready_def storable_def replay_document_canon)
  moreover have "temp_file w = None" "failing w = []" "jn_state j = Some st"
    using assms by (simp_all add: ready_def healthy_def)
  ultimately show ?thesis
    using read by (simp add: reobserve_def reject_temporary_def entry_exists_def bindS_def op_value whenS_def same_head_def)
qed

text \<open>The document after an append.\<close>

fun appended :: "json \<Rightarrow> journal_state \<Rightarrow> int \<Rightarrow> event_fields \<Rightarrow> json" where
  "appended (JObj doc) st now ev = JObj (extend_document doc (js_revision st + 1) (sealed_event (event_body st now ev)))"
| "appended v st now ev = v"

theorem append_succeeds:
  assumes r: "ready (j, w) d st" and ev: "ev_known ev" "ev_text ev"
    and res: "event_result st (clock w) ev = Inr txns"
    and size: "length (journal_text (appended (canon d) st (clock w) ev)) \<le> max_journal_bytes"
    and st': "st' = next_state st (canonical_sha256 (JObj (event_body st (clock w) ev))) txns"
    and rc: "transaction_receipt_from_state st' (ev_transaction_id ev) = Inr rc"
  shows "\<exists>t. append_event ev (j, w) = (Inr rc, t) \<and> ready t (appended (canon d) st (clock w) ev) st' \<and>
    clock (snd t) = clock w \<and> jn_authority (fst t) = jn_authority j"
proof -
  from r obtain doc where doc: "canon d = JObj doc"
    by (cases "canon d") (auto simp: ready_def storable_def dest: is_dict_canon [THEN iffD2])
  let ?d' = "appended (canon d) st (clock w) ev"
  have rep: "replay_document (JObj doc) = Inr st" and sto: "storable (JObj doc)"
    using r doc journal_codec.norm_storable [of d] replay_document_canon [of d]
    by (auto simp: ready_def storable_def)
  have now: "1 \<le> clock w" using r by (simp add: ready_def healthy_def)
  have rep': "replay_document ?d' = Inr st'"
    using replay_extend [OF rep ev(1) now] res st' doc by simp
  obtain es where es: "field doc ''events'' = JArr es"
    using rep unfolding replay_document_Inr by auto
  have sto': "storable ?d'"
    using storable_extend [OF sto es ev replay_document_head(1) [OF rep]] doc by simp
  let ?w' = "w\<lparr>journal_file := Some (written_file (euid w) ?d'), survivors := [Some (written_file (euid w) ?d')]\<rparr>"
  let ?j1 = "j\<lparr>jn_document := Some (canon d), jn_state := Some st\<rparr>"
  let ?j' = "?j1\<lparr>jn_document := Some ?d', jn_state := Some st'\<rparr>"
  have per: "persist ?d' (?j1, w) = (Inr (), (?j1, ?w'))"
    using r size by (intro persist_healthy) (simp_all add: ready_def)
  have ready': "ready (?j', ?w') ?d' st'"
    using r size sto' rep' by (simp add: ready_def healthy_def)
  have tid: "transaction_op (ev_transaction_id ev) (?j', ?w') = (Inr x, (?j', ?w'))"
    if "map_of (js_transactions st') (ev_transaction_id ev) = Some x" for x
    using that require_open_ready [OF ready'] ev(1)
    by (simp add: transaction_op_def bindS_def op_value check_simps ev_known_def require_hash_def)
  obtain x where x: "map_of (js_transactions st') (ev_transaction_id ev) = Some x"
    using rc by (auto simp: transaction_receipt_from_state_def bindE_eq_Inr split: option.splits)
  have "receipt_op (ev_transaction_id ev) (?j', ?w') = (Inr rc, (?j', ?w'))"
    using tid [OF x] require_open_ready [OF ready'] rc by (simp add: receipt_op_def bindS_def op_value)
  then have "append_event ev (j, w) = (Inr rc, (?j', ?w'))"
    using require_open_ready [OF r] reobserve_ready [OF r] rep' per doc
    by (simp add: append_event_def bindS_def op_value Let_def)
  then show ?thesis using ready' by (intro exI [of _ "(?j', ?w')"]) simp
qed

section \<open>Opening a new journal\<close>

definition can_open :: "world \<Rightarrow> bool" where
  "can_open w \<longleftrightarrow> has_flock w \<and> \<not> lock_busy w \<and>
    (case parent_stat w of None \<Rightarrow> False | Some d \<Rightarrow> check_parent d (euid w) = Inr () \<and>
       check_opened_parent d (parent_open w) (euid w) = Inr ()) \<and>
    (case lock_file w of None \<Rightarrow> True | Some f \<Rightarrow> open_nofollow_result f True \<and>
       validate_regular f (euid w) ''budget journal lock'' = Inr ())"

lemma take_lock_succeeds:
  assumes "can_open w"
  shows "\<exists>f. take_lock (j, w) = (Inr (), (j\<lparr>lock_open := True\<rparr>, w\<lparr>lock_file := f\<rparr>))"
proof (cases "lock_file w")
  case None
  have "new_inode (euid w) = (new_inode (euid w))\<lparr>f_data := [], f_durable := []\<rparr>" by (simp add: new_inode_def)
  then have "open_nofollow_result (new_inode (euid w)) True"
    "validate_regular (new_inode (euid w)) (euid w) ''budget journal lock'' = Inr ()"
    by (metis opens_new_inode, metis validate_new_inode)
  then have "take_lock (j, w) = (Inr (), (j\<lparr>lock_open := True\<rparr>, w\<lparr>lock_file := Some (new_inode (euid w))\<rparr>))"
    using None assms by (simp add: take_lock_def open_lock_def bindS_def op_value whenS_def can_open_def)
  then show ?thesis by blast
next
  case (Some f)
  have "w\<lparr>lock_file := Some f\<rparr> = w" using Some by simp
  then have "take_lock (j, w) = (Inr (), (j\<lparr>lock_open := True\<rparr>, w\<lparr>lock_file := Some f\<rparr>))"
    using Some assms by (simp add: take_lock_def open_lock_def bindS_def op_value whenS_def can_open_def)
  then show ?thesis by blast
qed

theorem enter_new_succeeds:
  assumes w: "healthy w" "can_open w" "journal_file w = None"
    and j: "authority_ok (jn_authority j)" "utf8_valid (auth_provider_identity (jn_authority j))"
    and d: "initial_document (jn_authority j) = Inr d" and size: "length (journal_text d) \<le> max_journal_bytes"
  shows "\<exists>t. enter (j, w) = (Inr (), t) \<and> ready t d (initial_state (jn_authority j)) \<and>
    clock (snd t) = clock w \<and> jn_authority (fst t) = jn_authority j"
proof -
  let ?a = "jn_authority j"
  from initial_document_stored [OF j] d have sto: "storable d" and rep: "replay_document d = Inr (initial_state ?a)"
    by auto
  let ?j1 = "j\<lparr>dir_open := True\<rparr>"
  obtain f where lock: "take_lock (?j1, w) = (Inr (), (?j1\<lparr>lock_open := True\<rparr>, w\<lparr>lock_file := f\<rparr>))"
    using take_lock_succeeds [OF w(2)] by blast
  let ?w1 = "w\<lparr>lock_file := f\<rparr>" and ?j2 = "?j1\<lparr>lock_open := True, jn_document := Some d\<rparr>"
  let ?w2 = "?w1\<lparr>journal_file := Some (written_file (euid w) d), survivors := [Some (written_file (euid w) d)]\<rparr>"
  have per: "persist d (?j2, ?w1) = (Inr (), (?j2, ?w2))"
    using persist_healthy [of ?w1 d ?j2] w(1) size by (simp add: healthy_def)
  have load: "load_document (?j1\<lparr>lock_open := True\<rparr>, ?w1) = (Inr (), (?j2, ?w2))"
    using w d per by (simp add: load_document_def entry_exists_def healthy_def bindS_def op_value whenS_def)
  have valid: "validate_authority ?a = Inr ()" using j(1) by (simp add: check_simps)
  have adopt: "adopt_document (?j2, ?w2) = (Inr (), (?j2\<lparr>jn_state := Some (initial_state ?a)\<rparr>, ?w2))"
    using rep valid by (simp add: adopt_document_def bindS_def op_value whenS_def initial_state_def)
  have temp: "reject_temporary (?j1\<lparr>lock_open := True\<rparr>, ?w1) = (Inr (), (?j1\<lparr>lock_open := True\<rparr>, ?w1))"
    using w(1) by (simp add: reject_temporary_def entry_exists_def healthy_def bindS_def op_value whenS_def)
  obtain p where p: "parent_stat w = Some p" "check_parent p (euid w) = Inr ()"
    "check_opened_parent p (parent_open w) (euid w) = Inr ()" and flock: "has_flock w"
    using w(2) by (auto simp: can_open_def split: option.splits)
  have "enter (j, w) = (Inr (), (?j2\<lparr>jn_state := Some (initial_state ?a)\<rparr>, ?w2))"
    using p flock w(1) lock temp load adopt
    by (simp add: enter_def os_call_def healthy_def bindS_def op_value whenS_def on_errorS_def)
  then show ?thesis using w(1) size sto rep
    by (intro exI [of _ "(?j2\<lparr>jn_state := Some (initial_state ?a)\<rparr>, ?w2)"]) (simp add: ready_def healthy_def)
qed

section \<open>The calls on a ready journal\<close>

lemma transaction_op_ready:
  "ready s d st \<Longrightarrow> is_hash_str tid \<Longrightarrow> map_of (js_transactions st) tid = Some x \<Longrightarrow>
   transaction_op tid s = (Inr x, s)"
  by (simp add: transaction_op_def bindS_def op_value require_open_ready require_hash_def)

lemma receipt_known:
  "is_hash_str tid \<Longrightarrow> map_of (js_transactions st) tid = Some x \<Longrightarrow>
   transaction_receipt_from_state st tid = Inr \<lparr>rc_journal_id = js_journal_id st,
     rc_journal_revision = js_revision st, rc_journal_head_sha256 = js_head_sha256 st,
     rc_transaction = x\<lparr>evidence_sha256 := None, resume_events := []\<rparr>\<rparr>"
  by (simp add: transaction_receipt_from_state_def require_hash_def)

definition reserve_event :: "journal_state \<Rightarrow> budget_transaction \<Rightarrow> event_fields" where
  "reserve_event st i =
    plain_event Act_Reserved (transaction_id_of (js_journal_id st) (js_revision st + 1) i) i"

lemma event_result_reserve:
  assumes "map_of (js_transactions st) (transaction_id_of (js_journal_id st) (js_revision st + 1) i) = None"
    and "\<not> run_is_live (run_id i) (js_transactions st)"
    and "txns = js_transactions st @ [(transaction_id_of (js_journal_id st) (js_revision st + 1) i,
      new_transaction (transaction_id_of (js_journal_id st) (js_revision st + 1) i) i (js_revision st + 1)
        (canonical_sha256 (JObj (event_body st now (reserve_event st i)))))]"
    and "exposure_cost txns \<le> total_cost_microusd (js_authority st)"
    and "exposure_tokens txns \<le> total_metered_tokens (js_authority st)"
  shows "event_result st now (reserve_event st i) = Inr txns"
proof -
  have act: "apply_action (js_journal_id st) w (js_revision st + 1) h Act_Reserved
      (transaction_id_of (js_journal_id st) (js_revision st + 1) i) i
      (sealed_event (event_body st now (reserve_event st i))) (js_transactions st) =
    Inr (js_transactions st @ [(transaction_id_of (js_journal_id st) (js_revision st + 1) i,
      new_transaction (transaction_id_of (js_journal_id st) (js_revision st + 1) i) i (js_revision st + 1) h)])"
    for w h
    unfolding apply_action_reserved using assms(1,2)
    by (simp add: field_sealed field_body reserve_event_def plain_event_def)
  have "check_exposure (js_authority st) w txns = Inr ()" for w
    using assms(4,5) by (simp only: check_exposure_Inr)
  then show ?thesis
    using act assms(3) by (simp add: event_result_def Let_def) (simp add: reserve_event_def plain_event_def)
qed

text \<open>A reservation that the authority covers is granted, and durable when it is.\<close>

theorem reserve_succeeds:
  assumes r: "ready (j, w) d st" and i: "identity_ok i" "identity_text i"
    and match: "check_identity_authority i (js_authority st) = Inr ()"
    and free: "live_transactions (run_id i) (js_transactions st) = []"
      "map_of (js_transactions st) (transaction_id_of (js_journal_id st) (js_revision st + 1) i) = None"
    and afford: "exposure_cost (js_transactions st) + max_cost_microusd i \<le> total_cost_microusd (js_authority st)"
      "exposure_tokens (js_transactions st) + max_metered_tokens i \<le> total_metered_tokens (js_authority st)"
    and size: "length (journal_text (appended (canon d) st (clock w) (reserve_event st i))) \<le> max_journal_bytes"
  shows "\<exists>rc t st'. run_call (Call_Reserve i) (j, w) = (Inr rc, t) \<and>
    ready t (appended (canon d) st (clock w) (reserve_event st i)) st' \<and> clock (snd t) = clock w \<and>
    js_journal_id st' = js_journal_id st \<and> js_authority st' = js_authority st \<and> js_revision st' = js_revision st + 1 \<and>
    js_head_sha256 st' = canonical_sha256 (JObj (event_body st (clock w) (reserve_event st i))) \<and>
    js_transactions st' = js_transactions st @ [(transaction_id_of (js_journal_id st) (js_revision st + 1) i,
      new_transaction (transaction_id_of (js_journal_id st) (js_revision st + 1) i) i (js_revision st + 1)
        (js_head_sha256 st'))]"
proof -
  let ?ev = "reserve_event st i" and ?k = "transaction_id_of (js_journal_id st) (js_revision st + 1) i"
  let ?h = "canonical_sha256 (JObj (event_body st (clock w) ?ev))"
  let ?new = "new_transaction ?k i (js_revision st + 1) ?h"
  let ?txns = "js_transactions st @ [(?k, ?new)]"
  have "cost_exposure ?new = max_cost_microusd i" "token_exposure ?new = max_metered_tokens i"
    by (simp_all add: cost_exposure_def token_exposure_def exposure_of_def new_transaction_def)
  then have "exposure_cost ?txns \<le> total_cost_microusd (js_authority st)"
    "exposure_tokens ?txns \<le> total_metered_tokens (js_authority st)"
    using afford by (simp_all add: exposure_cost_def exposure_tokens_def)
  moreover have "\<not> run_is_live (run_id i) (js_transactions st)"
    using free(1) by (auto simp: live_transactions_def run_is_live_def list_ex_iff filter_empty_conv)
  ultimately have res: "event_result st (clock w) ?ev = Inr ?txns"
    using free(2) by (intro event_result_reserve) simp_all
  have known: "ev_known ?ev" "ev_text ?ev"
    using i by (auto simp: ev_known_def ev_text_def ev_shape_def reserve_event_def plain_event_def identity_text_def)
  let ?st' = "next_state st ?h ?txns"
  have "map_of (js_transactions ?st') (ev_transaction_id ?ev) = Some ?new"
    using free(2) by (simp add: next_state_def reserve_event_def plain_event_def map_add_def)
  then obtain rc where rc: "transaction_receipt_from_state ?st' (ev_transaction_id ?ev) = Inr rc"
    using receipt_known [of "ev_transaction_id ?ev"] known(1) by (auto simp: ev_known_def)
  obtain t where t: "append_event ?ev (j, w) = (Inr rc, t)" "ready t (appended (canon d) st (clock w) ?ev) ?st'"
    "clock (snd t) = clock w"
    using append_succeeds [OF r known res size refl rc] by blast
  have "validate_transaction i = Inr ()" using i(1) by (simp add: check_simps)
  then have "run_call (Call_Reserve i) (j, w) = (Inr rc, t)"
    using require_open_ready [OF r] match free(1) t(1)
    by (simp add: reserve_def bindS_def op_value reserve_event_def Let_def)
  then show ?thesis using t(2,3) by (intro exI [of _ rc] exI [of _ t] exI [of _ ?st']) (simp add: next_state_def)
qed

text \<open>A reservation may be authorized by the process that knows the present revision and head.\<close>

theorem authorize_succeeds:
  assumes r: "ready (j, w) d st" and k: "map_of (js_transactions st) k = Some t0" and held: "txn_state t0 = Reserved"
    and size: "length (journal_text (appended (canon d) st (clock w)
      (plain_event Act_Request_Authorized k (identity t0)))) \<le> max_journal_bytes"
  shows "\<exists>rc t st'. run_call (Call_Authorize k (js_revision st) (js_head_sha256 st)) (j, w) = (Inr rc, t) \<and>
    ready t (appended (canon d) st (clock w) (plain_event Act_Request_Authorized k (identity t0))) st' \<and>
    js_transactions st' = AList.update k (t0\<lparr>txn_state := Request_Authorized,
      authorization_revision := Some (js_revision st + 1), authorization_head_sha256 := Some (js_head_sha256 st')\<rparr>)
      (js_transactions st)"
proof -
  let ?ev = "plain_event Act_Request_Authorized k (identity t0)"
  let ?h = "canonical_sha256 (JObj (event_body st (clock w) ?ev))"
  let ?t = "t0\<lparr>txn_state := Request_Authorized, authorization_revision := Some (js_revision st + 1),
    authorization_head_sha256 := Some ?h\<rparr>"
  let ?txns = "AList.update k ?t (js_transactions st)"
  have stored: "stored_state st" using r by (auto simp: ready_def stored_state_def)
  note known = plain_event_known [OF stored k, of Act_Request_Authorized]
  have hash: "is_hash_str k" by (rule stored_transaction(2) [OF stored k])
  have ok: "txns_ok (js_journal_id st) (js_revision st) (js_transactions st)" by (rule stored_stateD(1) [OF stored])
  have act: "apply_action (js_journal_id st) wh (js_revision st + 1) ?h Act_Request_Authorized k (identity t0)
      (sealed_event (event_body st (clock w) ?ev)) (js_transactions st) = Inr ?txns" for wh
    using k held by (simp add: apply_action_known apply_known_simps apply_authorized_Inr field_sealed field_body)
      (simp add: plain_event_def)
  have ok': "txns_ok (js_journal_id st) (js_revision st + 1) ?txns"
    by (rule apply_action_ok [OF ok stored_stateD(5) [OF stored] stored_transaction(3) [OF stored k] act])
  have same: "ledger_of ?txns = (ledger_of (js_transactions st))(k \<mapsto> (identity t0, Spending (resume_events t0 \<noteq> [])))"
    by (simp add: ledger_of_update entry_of_def phase_of_def)
  have fin: "finite (dom (ledger_of (js_transactions st)))" by (simp add: dom_ledger_of)
  have "ledger_of (js_transactions st) k = Some (identity t0, Held)"
    using k held by (simp add: ledger_of_def entry_of_def phase_of_def)
  then have "exposure_cost ?txns = exposure_cost (js_transactions st)"
    "exposure_tokens ?txns = exposure_tokens (js_transactions st)"
    by (simp_all add: exposure_ledger [OF ok'] exposure_ledger [OF ok] same ledger_sum_update [OF fin])
  moreover have "affordable (js_authority st) (ledger_of (js_transactions st))"
    using stored_stateD(3) [OF stored] by (simp add: ledger_ok_def ledger_st_def)
  ultimately have afford: "check_exposure (js_authority st) wh ?txns = Inr ()" for wh
    by (simp add: check_exposure_Inr affordable_def exposure_ledger [OF ok])
  have res: "event_result st (clock w) ?ev = Inr ?txns"
    using act afford by (simp add: event_result_def Let_def plain_event_def)
  let ?st' = "next_state st ?h ?txns"
  have "map_of (js_transactions ?st') (ev_transaction_id ?ev) = Some ?t"
    by (simp add: next_state_def plain_event_def update_conv')
  then obtain rc where rc: "transaction_receipt_from_state ?st' (ev_transaction_id ?ev) = Inr rc"
    using receipt_known [of "ev_transaction_id ?ev"] known(1) by (auto simp: ev_known_def)
  obtain t where t: "append_event ?ev (j, w) = (Inr rc, t)" "ready t (appended (canon d) st (clock w) ?ev) ?st'"
    using append_succeeds [OF r known res size refl rc] by blast
  have "run_call (Call_Authorize k (js_revision st) (js_head_sha256 st)) (j, w) = (Inr rc, t)"
    using transaction_op_ready [OF r hash k] require_open_ready [OF r] held t(1)
    by (simp add: authorize_request_def require_cas_def bindS_def op_value whenS_def)
  then show ?thesis using t(2) by (intro exI [of _ rc] exI [of _ t] exI [of _ ?st']) (simp add: next_state_def)
qed

section \<open>Checkpoints\<close>

lemma checkpoint_cases:
  assumes ok: "session_ok s" and run: "checkpoint_payload s = (Inr p, t)"
  obtains d st where "p = journal_text d" and "storable d" and "replay_document d = Inr st"
    and "jn_state (fst t) = Some st" and "disk_state (snd t) = Some st" and "snd t = snd s"
proof -
  from run [unfolded checkpoint_payload_def op_simps] obtain st0 s1 u s2 where s1: "require_open s = (Inr st0, s1)"
    and s2: "reobserve s1 = (Inr u, s2)"
    and p: "(case jn_document (fst s2) of None \<Rightarrow> raiseS Assertion_Error
      | Some d \<Rightarrow> returnS (stable_json d @ [newline])) s2 = (Inr p, t)"
    by (auto simp: op_simps)
  have "s1 = s" using require_open_state [OF s1] by simp
  with s2 have re: "reobserve (fst s, snd s) = (Inr u, (fst s2, snd s2))" by simp
  have "disk_ok (snd s)" using ok by (simp add: session_ok_def)
  from reobserve_cases(1,3) [OF this re] obtain d st where d: "holds (snd s) d st" "snd s2 = snd s"
    and j: "fst s2 = (fst s)\<lparr>jn_document := Some d, jn_state := Some st\<rparr>" by blast
  have "t = s2" "p = journal_text d" using p j by (auto simp: op_simps journal_text_def)
  then show thesis using that [of d st] d j holds_state [OF d(1)] by (simp add: holds_def)
qed

end
