(* ===== verification/Budget_Demo.thy ===== *)
theory Budget_Demo
  imports Budget_Progress
begin

text \<open>
  A worked session on a concrete machine: a new journal is opened, a transaction is reserved
  and authorized. It shows that the hypotheses of the session theorems are met by real runs;
  the digests stay symbolic, their shape is all the run depends on.
\<close>

definition demo_hash :: string where "demo_hash = replicate 64 (CHR ''a'')"

definition demo_authority :: budget_authority where
  "demo_authority = \<lparr>auth_manifest_sha256 = demo_hash, auth_model_fingerprint = demo_hash,
     auth_provider_identity = ''provider'', total_cost_microusd = 5000000, total_metered_tokens = 100000\<rparr>"

definition demo_identity :: budget_transaction where
  "demo_identity = \<lparr>run_id = ''run-1'', manifest_sha256 = demo_hash, model_fingerprint = demo_hash,
     harness_fingerprint = demo_hash, provider_identity = ''provider'',
     max_cost_microusd = 2000000, max_metered_tokens = 50000\<rparr>"

definition demo_parent :: dir_info where
  "demo_parent = \<lparr>d_is_dir = True, d_identity = (1, 2), d_uid = 1000, d_mode = 448\<rparr>"

definition demo_world :: world where
  "demo_world = \<lparr>has_flock = True, euid = 1000, parent_stat = Some demo_parent, parent_open = demo_parent,
     lock_busy = False, journal_file = None, lock_file = None, temp_file = None, survivors = [None], write_sizes = [],
     failing = [], clock = 1700000000\<rparr>"

definition demo_journal :: journal where
  "demo_journal = \<lparr>jn_authority = demo_authority, dir_open = False, lock_open = False,
     jn_document = None, jn_state = None\<rparr>"

lemma demo_hash_ok: "is_hash_str demo_hash"
  by (simp add: is_hash_str_def demo_hash_def hex_char_def is_digit_def char_code_def)

lemma demo_authority_ok: "authority_ok demo_authority" "utf8_valid (auth_provider_identity demo_authority)"
  by (simp_all add: demo_authority_def authority_ok_def demo_hash_ok max_user_authority_microusd_def
      max_user_authority_usd_def micro_usd_per_usd_def char_code_def)

lemma demo_identity_ok: "identity_ok demo_identity" "identity_text demo_identity"
  by (simp_all add: demo_identity_def identity_ok_def identity_text_def demo_hash_ok char_code_def)

lemma demo_world_ok: "healthy demo_world" "can_open demo_world" "journal_file demo_world = None"
  by (simp_all add: demo_world_def healthy_def can_open_def demo_parent_def check_parent_def
      check_opened_parent_def mode_violation_def take_bit_eq_mod)

section \<open>Sizes\<close>

lemma int_str_short:
  assumes "0 \<le> i" and "i < 10000000000"
  shows "length (int_str i) \<le> 10"
  using nat_str_length_le [of "nat i" 10] assms by (simp add: int_str_def nat_less_iff)

lemma hash_length: "is_hash_str h \<Longrightarrow> length h = 64"
  by (simp add: is_hash_str_def)

lemma json_bound_update:
  "json_bound (JObj (AList.update k v kvs)) \<le> json_bound (JObj kvs) + 6 * length k + 4 + json_bound v"
  by (induction kvs) auto

lemma json_bound_field: "json_bound (field kvs k) \<le> json_bound (JObj kvs) + 4"
  by (induction kvs) (auto simp: dict_get_none_def)

lemma appended_bound:
  assumes "storable d" and "0 \<le> js_revision st" and "js_revision st < 1000000"
  shows "json_bound (appended (canon d) st now ev) \<le>
    2 * json_bound d + json_bound (JObj (sealed_event (event_body st now ev))) + 1000"
proof -
  obtain doc where doc: "canon d = JObj doc"
    using assms(1) by (cases "canon d") (auto simp: storable_def dest: is_dict_canon [THEN iffD2])
  have b: "json_bound (JObj doc) = json_bound d" using json_bound_canon [of d] doc by simp
  let ?e = "sealed_event (event_body st now ev)"
  have h: "json_bound (field ?e ''event_sha256'') = 386"
    using hash_length [OF is_hash_canonical [of "JObj (event_body st now ev)"]] by (simp add: field_sealed)
  have n: "json_bound (JInt (js_revision st + 1)) \<le> 10" using assms(2,3) int_str_short [of "js_revision st + 1"] by simp
  let ?es = "JArr (case field doc ''events'' of JArr es \<Rightarrow> es @ [JObj ?e] | _ \<Rightarrow> [JObj ?e])"
  have es: "json_bound ?es \<le> json_bound (JObj doc) + json_bound (JObj ?e) + 10"
    using json_bound_field [of doc "''events''"] by (cases "field doc ''events''") simp_all
  let ?d1 = "AList.update ''revision'' (JInt (js_revision st + 1)) doc"
  let ?d2 = "AList.update ''head_sha256'' (field ?e ''event_sha256'') ?d1"
  have "json_bound (JObj ?d1) \<le> json_bound (JObj doc) + 62"
    using json_bound_update [of "''revision''" "JInt (js_revision st + 1)" doc] n by simp
  moreover have "json_bound (JObj ?d2) \<le> json_bound (JObj ?d1) + 456"
    using json_bound_update [of "''head_sha256''" "field ?e ''event_sha256''" ?d1] h by simp
  moreover have "json_bound (JObj (AList.update ''events'' ?es ?d2)) \<le> json_bound (JObj ?d2) + 40 + json_bound ?es"
    using json_bound_update [of "''events''" ?es ?d2] by simp
  moreover have "appended (canon d) st now ev = JObj (AList.update ''events'' ?es ?d2)"
    by (simp only: doc appended.simps extend_document_def)
  ultimately show ?thesis using es b by simp
qed

text \<open>Authorities and identities whose texts are short enough for any journal with few events.\<close>

definition small_authority :: "budget_authority \<Rightarrow> bool" where
  "small_authority a \<longleftrightarrow> authority_ok a \<and> utf8_valid (auth_provider_identity a) \<and>
    length (auth_provider_identity a) \<le> 20 \<and> total_metered_tokens a < 10000000000"

definition small_identity :: "budget_transaction \<Rightarrow> bool" where
  "small_identity i \<longleftrightarrow> identity_ok i \<and> identity_text i \<and> length (run_id i) \<le> 60 \<and>
    length (provider_identity i) \<le> 20 \<and> max_cost_microusd i < 10000000000 \<and> max_metered_tokens i < 10000000000"

lemma small_event_bound:
  assumes i: "small_identity i" and k: "is_hash_str k" and h: "is_hash_str (js_head_sha256 st)"
    and n: "0 \<le> js_revision st" "js_revision st < 1000000" and c: "0 \<le> now" "now < 10000000000"
  shows "json_bound (JObj (sealed_event (event_body st now (plain_event act k i)))) \<le> 6500"
proof -
  let ?ev = "plain_event act k i"
  have hash: "length (canonical_sha256 v) = 64" for v by (rule hash_length) simp
  have ints: "length (int_str (js_revision st + 1)) \<le> 10" "length (int_str now) \<le> 10"
    "length (int_str (max_cost_microusd i)) \<le> 10" "length (int_str (max_metered_tokens i)) \<le> 10"
    using n c i by (simp_all add: int_str_short small_identity_def identity_ok_def)
  have a: "length (action_name act) \<le> 30" by (cases act) simp_all
  have "length (manifest_sha256 i) = 64" "length (model_fingerprint i) = 64" "length (harness_fingerprint i) = 64"
    using i by (simp_all add: small_identity_def identity_ok_def hash_length)
  then have i: "json_bound (identity_json i) \<le> 2800"
    using ints i by (simp add: identity_json_def small_identity_def)
  show ?thesis
    using k h [THEN hash_length] hash_length [OF k] ints a i hash
    by (simp add: sealed_event_def event_body_def plain_event_def)
qed

section \<open>Opening, reserving, authorizing\<close>

lemma small_opened:
  assumes w: "healthy w" "can_open w" "journal_file w = None" and a: "small_authority (jn_authority j)"
  shows "\<exists>t d. enter (j, w) = (Inr (), t) \<and> ready t d (initial_state (jn_authority j)) \<and>
     clock (snd t) = clock w \<and> json_bound d \<le> 3000"
proof -
  let ?a = "jn_authority j"
  have ok: "authority_ok ?a" "utf8_valid (auth_provider_identity ?a)" using a by (simp_all add: small_authority_def)
  obtain d where d: "initial_document ?a = Inr d"
    using initial_document_stored [OF ok] by blast
  have "authority_record ?a = Inr (authority_json ?a)"
    using ok(1) by (simp add: authority_record_def bindE_eq_Inr check_simps)
  with d have dd: "d = JObj [(''schema_version'', JInt journal_schema_version),
      (''journal_id'', JStr (journal_id_of ?a)), (''authority'', authority_json ?a),
      (''revision'', JInt 0), (''head_sha256'', JStr zero_head_sha256), (''events'', JArr [])]"
    by (simp add: initial_document_def)
  have h: "length (journal_id_of ?a) = 64" by (rule hash_length) (simp add: journal_id_of_def)
  have ints: "length (int_str 1) \<le> 10" "length (int_str 0) \<le> 10" "length (int_str (total_cost_microusd ?a)) \<le> 10"
    "length (int_str (total_metered_tokens ?a)) \<le> 10"
    using a by (simp_all add: int_str_short small_authority_def authority_ok_def max_user_authority_microusd_def
        max_user_authority_usd_def micro_usd_per_usd_def)
  have hashes: "length (auth_manifest_sha256 ?a) = 64" "length (auth_model_fingerprint ?a) = 64"
    using ok(1) by (simp_all add: authority_ok_def hash_length)
  have b: "json_bound d \<le> 3000"
    unfolding dd using h ints hashes a
    by (simp add: journal_schema_version_def authority_json_def zero_head_sha256_def small_authority_def)
  have size: "length (journal_text d) \<le> max_journal_bytes"
    using journal_text_bound [of d] b by (simp add: max_journal_bytes_def)
  show ?thesis using enter_new_succeeds [OF w ok d size] b by auto
qed

text \<open>What the first reservation needs.\<close>

lemma small_first:
  fixes a d w
  defines "st \<equiv> initial_state a"
  assumes r: "ready (j, w) d st" and c: "0 \<le> clock w" "clock w < 10000000000"
    and b: "json_bound d \<le> 3000" and i: "small_identity i" and match: "check_identity_authority i a = Inr ()"
    and afford: "max_cost_microusd i \<le> total_cost_microusd a" "max_metered_tokens i \<le> total_metered_tokens a"
  shows "check_identity_authority i (js_authority st) = Inr ()"
    and "live_transactions (run_id i) (js_transactions st) = []"
    and "map_of (js_transactions st) (transaction_id_of (js_journal_id st) (js_revision st + 1) i) = None"
    and "exposure_cost (js_transactions st) + max_cost_microusd i \<le> total_cost_microusd (js_authority st)"
    and "exposure_tokens (js_transactions st) + max_metered_tokens i \<le> total_metered_tokens (js_authority st)"
    and "length (journal_text (appended (canon d) st (clock w) (reserve_event st i))) \<le> max_journal_bytes"
    and "json_bound (appended (canon d) st (clock w) (reserve_event st i)) \<le> 14000"
proof -
  have st: "js_revision st = 0" "js_transactions st = []" "is_hash_str (js_head_sha256 st)" "js_authority st = a"
    by (simp_all add: st_def initial_state_def zero_head_hash)
  let ?k = "transaction_id_of (js_journal_id st) (js_revision st + 1) i"
  show "check_identity_authority i (js_authority st) = Inr ()" "live_transactions (run_id i) (js_transactions st) = []"
    "map_of (js_transactions st) ?k = None"
    "exposure_cost (js_transactions st) + max_cost_microusd i \<le> total_cost_microusd (js_authority st)"
    "exposure_tokens (js_transactions st) + max_metered_tokens i \<le> total_metered_tokens (js_authority st)"
    unfolding st using match afford by (simp_all add: live_transactions_def exposure_cost_def exposure_tokens_def)
  show bound: "json_bound (appended (canon d) st (clock w) (reserve_event st i)) \<le> 14000"
    using appended_bound [of d st "clock w" "reserve_event st i"] r b st c
      small_event_bound [OF i, of ?k st "clock w" Act_Reserved] by (simp add: ready_def reserve_event_def)
  then show "length (journal_text (appended (canon d) st (clock w) (reserve_event st i))) \<le> max_journal_bytes"
    using journal_text_bound [of "appended (canon d) st (clock w) (reserve_event st i)"]
    by (simp add: max_journal_bytes_def)
qed

lemma small_reserve:
  assumes r: "ready (j, w) d (initial_state a)" and c: "0 \<le> clock w" "clock w < 10000000000"
    and b: "json_bound d \<le> 3000" and i: "small_identity i" and match: "check_identity_authority i a = Inr ()"
    and afford: "max_cost_microusd i \<le> total_cost_microusd a" "max_metered_tokens i \<le> total_metered_tokens a"
  obtains rc k j1 w1 d1 st where "run_call (Call_Reserve i) (j, w) = (Inr rc, (j1, w1))"
    and "ready (j1, w1) d1 st" and "clock w1 = clock w" and "js_revision st = 1"
    and "js_transactions st = [(k, new_transaction k i 1 (js_head_sha256 st))]"
    and "is_hash_str (js_head_sha256 st)" and "is_hash_str k" and "json_bound d1 \<le> 14000"
proof -
  let ?st = "initial_state a"
  let ?k = "transaction_id_of (js_journal_id ?st) (js_revision ?st + 1) i"
  let ?d1 = "appended (canon d) ?st (clock w) (reserve_event ?st i)"
  have st: "js_revision ?st = 0" "js_transactions ?st = []" by (simp_all add: initial_state_def)
  have ok: "identity_ok i" "identity_text i" using i by (simp_all add: small_identity_def)
  note f = small_first [OF r c b i match afford]
  obtain rc t st1 where run: "run_call (Call_Reserve i) (j, w) = (Inr rc, t)" and r1: "ready t ?d1 st1"
    and w1: "clock (snd t) = clock w" and n: "js_revision st1 = js_revision ?st + 1"
    and h: "js_head_sha256 st1 = canonical_sha256 (JObj (event_body ?st (clock w) (reserve_event ?st i)))"
    and ts: "js_transactions st1 = js_transactions ?st @ [(?k, new_transaction ?k i (js_revision ?st + 1) (js_head_sha256 st1))]"
    using reserve_succeeds [OF r ok f(1-6)] by blast
  obtain j1 w1' where t: "t = (j1, w1')" by (rule prod.exhaust)
  show ?thesis
    using run r1 w1 n h ts f(7) unfolding t by (intro that [of rc j1 w1' ?d1 st1 ?k]) (simp_all add: st)
qed

lemma small_authorize:
  assumes r: "ready (j, w) d st" and c: "0 \<le> clock w" "clock w < 10000000000" and n: "js_revision st = 1"
    and t: "js_transactions st = [(k, new_transaction k i 1 (js_head_sha256 st))]"
    and h: "is_hash_str (js_head_sha256 st)" "is_hash_str k" and b: "json_bound d \<le> 14000" and i: "small_identity i"
  shows "\<exists>rc u. run_call (Call_Authorize k (js_revision st) (js_head_sha256 st)) (j, w) = (Inr rc, u)"
proof -
  let ?t0 = "new_transaction k i 1 (js_head_sha256 st)"
  let ?ev = "plain_event Act_Request_Authorized k (identity ?t0)"
  have k: "map_of (js_transactions st) k = Some ?t0" by (simp add: t)
  have "json_bound (appended (canon d) st (clock w) ?ev) \<le> 40000"
    using appended_bound [of d st "clock w" ?ev] r b n h c
      small_event_bound [OF i, of k st "clock w" Act_Request_Authorized] by (simp add: ready_def new_transaction_def)
  then have size: "length (journal_text (appended (canon d) st (clock w) ?ev)) \<le> max_journal_bytes"
    using journal_text_bound [of "appended (canon d) st (clock w) ?ev"] by (simp add: max_journal_bytes_def)
  show ?thesis using authorize_succeeds [OF r k _ size] by (auto simp: new_transaction_def)
qed

lemma ready_disk: "ready (j, w) d st \<Longrightarrow> disk_ledger w = ledger_st st"
proof -
  assume r: "ready (j, w) d st"
  have "disk_state w = Some st" using r by (intro holds_state [of _ d]) (auto simp: ready_def intro: holds_written)
  then show ?thesis by (simp add: disk_ledger_def)
qed

section \<open>The run\<close>

lemma demo_match: "check_identity_authority demo_identity demo_authority = Inr ()"
  by (simp add: check_identity_authority_def demo_identity_def demo_authority_def)

lemma demo_small: "small_authority demo_authority" "small_identity demo_identity"
  using demo_authority_ok demo_identity_ok
  by (simp_all add: small_authority_def small_identity_def demo_authority_def demo_identity_def)

lemma demo_clock: "0 \<le> clock demo_world" "clock demo_world < 10000000000"
  by (simp_all add: demo_world_def)

lemma demo_opened:
  "\<exists>t d. enter (demo_journal, demo_world) = (Inr (), t) \<and> ready t d (initial_state demo_authority) \<and>
     clock (snd t) = clock demo_world \<and> json_bound d \<le> 3000"
proof -
  have j: "jn_authority demo_journal = demo_authority" by (simp add: demo_journal_def)
  show ?thesis using small_opened [OF demo_world_ok, of demo_journal] demo_small(1) unfolding j by blast
qed

lemma demo_afford: "max_cost_microusd demo_identity \<le> total_cost_microusd demo_authority"
    "max_metered_tokens demo_identity \<le> total_metered_tokens demo_authority"
  by (simp_all add: demo_identity_def demo_authority_def)

lemma demo_first:
  assumes "ready (j, w) d (initial_state demo_authority)" and "clock w = clock demo_world" and "json_bound d \<le> 3000"
  shows "check_identity_authority demo_identity (js_authority (initial_state demo_authority)) = Inr ()"
    and "live_transactions (run_id demo_identity) (js_transactions (initial_state demo_authority)) = []"
    and "map_of (js_transactions (initial_state demo_authority)) (transaction_id_of (js_journal_id (initial_state demo_authority))
      (js_revision (initial_state demo_authority) + 1) demo_identity) = None"
    and "exposure_cost (js_transactions (initial_state demo_authority)) + max_cost_microusd demo_identity
      \<le> total_cost_microusd (js_authority (initial_state demo_authority))"
    and "exposure_tokens (js_transactions (initial_state demo_authority)) + max_metered_tokens demo_identity
      \<le> total_metered_tokens (js_authority (initial_state demo_authority))"
    and "length (journal_text (appended (canon d) (initial_state demo_authority) (clock w)
      (reserve_event (initial_state demo_authority) demo_identity))) \<le> max_journal_bytes"
  using small_first [OF assms(1) _ _ assms(3) demo_small(2) demo_match demo_afford] demo_clock unfolding assms(2) by simp_all

text \<open>Opened, then reserved.\<close>

lemma demo_reserve_runs:
  assumes r: "ready (j, w) d (initial_state demo_authority)" and c: "clock w = clock demo_world"
    and b: "json_bound d \<le> 3000"
  obtains rc k j1 w1 d1 st where "run_call (Call_Reserve demo_identity) (j, w) = (Inr rc, (j1, w1))"
    and "ready (j1, w1) d1 st" and "clock w1 = clock demo_world" and "js_revision st = 1"
    and "js_transactions st = [(k, new_transaction k demo_identity 1 (js_head_sha256 st))]"
    and "is_hash_str (js_head_sha256 st)" and "is_hash_str k" and "json_bound d1 \<le> 14000"
  using small_reserve [OF r _ _ b demo_small(2) demo_match demo_afford that] demo_clock
  unfolding c by blast

lemma demo_reserved:
  obtains rc k j w d st where
    "session (demo_journal, demo_world) [(Call_Reserve demo_identity, Inr rc)] (j, w)"
    and "ready (j, w) d st" and "clock w = clock demo_world" and "js_revision st = 1"
    and "js_transactions st = [(k, new_transaction k demo_identity 1 (js_head_sha256 st))]"
    and "is_hash_str (js_head_sha256 st)" and "is_hash_str k" and "json_bound d \<le> 14000"
proof -
  let ?s = "(demo_journal, demo_world)"
  obtain j w d where o1: "enter ?s = (Inr (), (j, w))" and r: "ready (j, w) d (initial_state demo_authority)"
    and c: "clock w = clock demo_world" and b: "json_bound d \<le> 3000"
    using demo_opened by auto
  obtain rc k j1 w1 d1 st where c1: "run_call (Call_Reserve demo_identity) (j, w) = (Inr rc, (j1, w1))"
    and st: "ready (j1, w1) d1 st" "clock w1 = clock demo_world" "js_revision st = 1"
      "js_transactions st = [(k, new_transaction k demo_identity 1 (js_head_sha256 st))]"
      "is_hash_str (js_head_sha256 st)" "is_hash_str k" "json_bound d1 \<le> 14000"
    by (rule demo_reserve_runs [OF r c b])
  have "session ?s [] (j, w)"
    by (rule session_reopen [OF session_start _ _ _ o1]) (simp_all add: demo_journal_def demo_authority_ok)
  then have "session ?s [(Call_Reserve demo_identity, Inr rc)] (j1, w1)"
    using session_call [of ?s "[]" "(j, w)" "Call_Reserve demo_identity" "Inr rc" "(j1, w1)"] c1 demo_identity_ok by simp
  then show ?thesis by (rule that [OF _ st])
qed

text \<open>And authorized: each call returned a receipt.\<close>

theorem demo_session:
  "\<exists>rc rc' k n h t. session (demo_journal, demo_world)
     [(Call_Reserve demo_identity, Inr rc), (Call_Authorize k n h, Inr rc')] t \<and>
     run_id (identity (rc_transaction rc')) = run_id demo_identity"
proof -
  obtain rc k j w d st where s: "session (demo_journal, demo_world) [(Call_Reserve demo_identity, Inr rc)] (j, w)"
    and r: "ready (j, w) d st" and c: "clock w = clock demo_world" and n: "js_revision st = 1"
    and t: "js_transactions st = [(k, new_transaction k demo_identity 1 (js_head_sha256 st))]"
    and h: "is_hash_str (js_head_sha256 st)" "is_hash_str k" and b: "json_bound d \<le> 14000"
    by (rule demo_reserved)
  have "0 \<le> clock w" "clock w < 10000000000" using demo_clock c by simp_all
  from small_authorize [OF r this n t h b demo_small(2)]
  obtain rc' u where c2: "run_call (Call_Authorize k (js_revision st) (js_head_sha256 st)) (j, w) = (Inr rc', u)" by blast
  have run: "session (demo_journal, demo_world)
      [(Call_Reserve demo_identity, Inr rc), (Call_Authorize k (js_revision st) (js_head_sha256 st), Inr rc')] u"
    using session_call [OF s _ c2] by simp
  obtain i where "disk_ledger w k = Some (i, Held)" "identity (rc_transaction rc') = i"
    using authorize_granted [OF ready_session [OF r] c2] by (metis snd_conv)
  moreover have "disk_ledger w k = Some (demo_identity, Held)"
    unfolding ready_disk [OF r] by (simp add: ledger_st_def ledger_of_def t phase_new)
  ultimately have "run_id (identity (rc_transaction rc')) = run_id demo_identity" by simp
  with run show ?thesis by blast
qed

lemma demo_document:
  obtains d st k where "replay_document d = Inr st" and "storable d"
    and "js_transactions st = [(k, new_transaction k demo_identity 1 (js_head_sha256 st))]"
proof -
  obtain rc k j w d st where "ready (j, w) d st"
    and "js_transactions st = [(k, new_transaction k demo_identity 1 (js_head_sha256 st))]"
    by (rule demo_reserved)
  then show ?thesis by (intro that [of d st k]) (simp_all add: ready_def)
qed

lemma demo_start: "session_ok (demo_journal, demo_world)"
  by (simp add: session_ok_def memory_ok_def disk_ok_def demo_journal_def demo_world_def)

end

