(* ===== verification/Budget_Power_Loss.thy ===== *)
theory Budget_Power_Loss
  imports Budget_Session
begin

text \<open>
  What a call of the journal leaves for a power loss. A call writes at most once, through
  \<open>_persist\<close>, and returns a receipt of a written state only when \<open>_persist\<close> returned: then both
  its \<open>fsync\<close> calls were made.
\<close>

section \<open>Methods that write at most once\<close>

definition keeps_world :: "'a jop \<Rightarrow> bool" where
  "keeps_world m \<longleftrightarrow> (\<forall>s r t. m s = (r, t) \<longrightarrow> snd t = snd s)"

definition writes_once :: "'a jop \<Rightarrow> bool" where
  \<comment> \<open>the directory is as it was, or as one \<open>_persist\<close> left it, which returned if the method did\<close>
  "writes_once m \<longleftrightarrow> (\<forall>s r t. m s = (r, t) \<longrightarrow> snd t = snd s \<or>
    (\<exists>d j j' q. persist d (j, snd s) = (q, (j', snd t)) \<and> (\<forall>x. r = Inr x \<longrightarrow> q = Inr ())))"

named_theorems written \<open>how often a method writes\<close>

lemma keeps_world_steps [written]:
  "keeps_world (returnS x)" "keeps_world (raiseS e)" "keeps_world (liftS q)" "keeps_world (getS f)"
  "keeps_world (whenS b e)" "keeps_world (set_journal g)"
  by (auto simp: keeps_world_def op_simps whenS_def)

lemma keeps_world_bind [written]: "keeps_world m \<Longrightarrow> (\<And>x. keeps_world (f x)) \<Longrightarrow> keeps_world (bindS m f)"
  unfolding keeps_world_def by (fastforce simp: bindS_def split: prod.splits sum.splits)

lemma keeps_world_if [written]: "(b \<Longrightarrow> keeps_world m) \<Longrightarrow> (\<not> b \<Longrightarrow> keeps_world n) \<Longrightarrow> keeps_world (if b then m else n)"
  by simp

lemma writes_once_keeps: "keeps_world m \<Longrightarrow> writes_once m"
  by (simp add: keeps_world_def writes_once_def)

lemma writes_once_bind [written]: "keeps_world m \<Longrightarrow> (\<And>x. writes_once (f x)) \<Longrightarrow> writes_once (bindS m f)"
  unfolding writes_once_def
proof (intro allI impI)
  fix s r t
  assume m: "keeps_world m" and f: "\<And>x. \<forall>s r t. f x s = (r, t) \<longrightarrow> snd t = snd s \<or>
      (\<exists>d j j' q. persist d (j, snd s) = (q, (j', snd t)) \<and> (\<forall>x. r = Inr x \<longrightarrow> q = Inr ()))"
    and run: "bindS m f s = (r, t)"
  obtain q u where q: "m s = (q, u)" by (rule prod.exhaust)
  then have "snd u = snd s" using m unfolding keeps_world_def by blast
  then show "snd t = snd s \<or>
      (\<exists>d j j' q. persist d (j, snd s) = (q, (j', snd t)) \<and> (\<forall>x. r = Inr x \<longrightarrow> q = Inr ()))"
  proof (cases q)
    case (Inr x)
    then have "f x u = (r, t)" using run q by (simp add: bindS_def)
    with f [rule_format, of x u r t] \<open>snd u = snd s\<close> show ?thesis by simp
  qed (use run q \<open>snd u = snd s\<close> in \<open>simp add: bindS_def\<close>)
qed

lemma writes_once_if [written]: "(b \<Longrightarrow> writes_once m) \<Longrightarrow> (\<not> b \<Longrightarrow> writes_once n) \<Longrightarrow> writes_once (if b then m else n)"
  by simp

lemma writes_once_persist [written]:
  assumes "\<And>x. keeps_world (f x)"
  shows "writes_once (bindS (persist d) f)"
  unfolding writes_once_def
proof (intro allI impI)
  fix s r t
  assume run: "bindS (persist d) f s = (r, t)"
  obtain q j w where p: "persist d s = (q, (j, w))" by (metis prod_cases3)
  then have "persist d (fst s, snd s) = (q, (j, w))" by simp
  moreover have "snd t = w \<and> (\<forall>x. r = Inr x \<longrightarrow> q = Inr ())"
  proof (cases q)
    case (Inr u)
    then have "f u (j, w) = (r, t)" using run p by (simp add: bindS_def)
    then have "snd t = w" using assms [of u] unfolding keeps_world_def by (metis snd_conv)
    then show ?thesis using Inr by simp
  qed (use run p in \<open>auto simp: bindS_def\<close>)
  ultimately show "snd t = snd s \<or>
      (\<exists>d j j' q. persist d (j, snd s) = (q, (j', snd t)) \<and> (\<forall>x. r = Inr x \<longrightarrow> q = Inr ()))"
    by blast
qed

section \<open>The methods of the journal\<close>

lemma keeps_world_reads [written]:
  "keeps_world require_open" "keeps_world reject_temporary" "keeps_world read_document" "keeps_world reobserve"
  "keeps_world (transaction_op tid)" "keeps_world (receipt_op tid)" "keeps_world (require_cas n h)"
  "keeps_world (adopt_durable_authorization tid)"
proof -
  show o: "keeps_world require_open"
    unfolding require_open_def by (intro written) (auto intro: written split: bool.split option.split)
  show t: "keeps_world reject_temporary"
    unfolding reject_temporary_def entry_exists_def by (intro written)
  show d: "keeps_world read_document"
    unfolding read_document_def os_call_def by (intro written) (auto intro!: written split: option.split)
  show "keeps_world reobserve"
    unfolding reobserve_def by (intro written t d)
  show x: "keeps_world (transaction_op tid)" for tid
    unfolding transaction_op_def by (intro written o) (auto intro: written split: option.split)
  show "keeps_world (receipt_op tid)"
    unfolding receipt_op_def by (intro written o x)
  show "keeps_world (require_cas n h)"
    unfolding require_cas_def by (intro written o)
  show "keeps_world (adopt_durable_authorization tid)"
    unfolding adopt_durable_authorization_def Let_def
    by (intro written) (auto intro!: written t d split: option.split)
qed

lemma append_writes_once [written]: "writes_once (append_event ev)"
  unfolding append_event_def Let_def
  by (intro written) (auto intro!: written intro: writes_once_keeps written split: option.split json.split)

lemma call_writes_once: "writes_once (run_call c)"
proof (cases c)
  case (Call_Reserve i)
  show ?thesis unfolding Call_Reserve run_call.simps reserve_def Let_def
    by (intro written) (auto intro!: written intro: writes_once_keeps written split: txn_state.split)
next
  case (Call_Authorize tid n h)
  show ?thesis unfolding Call_Authorize run_call.simps authorize_request_def
    by (intro written) (auto intro: writes_once_keeps written)
next
  case (Call_Resume tid trials ev fr n h)
  show ?thesis unfolding Call_Resume run_call.simps authorize_trial_resume_def
    by (intro written) (auto intro: writes_once_keeps written)
next
  case (Call_Commit tid c t ev)
  show ?thesis unfolding Call_Commit run_call.simps commit_transaction_def
    by (intro written) (auto intro: writes_once_keeps written)
next
  case (Call_Abort tid)
  show ?thesis unfolding Call_Abort run_call.simps abort_pre_request_def
    by (intro written) (auto intro!: written intro: writes_once_keeps written)
qed

section \<open>After a power loss\<close>

lemma step_moves: "ledger_step a L l M \<Longrightarrow> M \<noteq> L"
  by (induction rule: ledger_step.induct) (metis fun_upd_same option.distinct(1) option.inject prod.inject phase.distinct phase.inject)+

lemma appends_moves: "appends c r s t \<Longrightarrow> snd t \<noteq> snd s"
  unfolding appends_def using step_moves by (metis option.inject)

lemma call_after_power_loss:
  assumes "run_call c s = (r, t)"
  shows "after_power_loss (snd t) \<subseteq> insert (file_bytes (snd t)) (after_power_loss (snd s))"
    and "appends c r s t \<Longrightarrow> r = Inr rc \<Longrightarrow> after_power_loss (snd t) = {file_bytes (snd t)}"
proof -
  from call_writes_once assms have w: "snd t = snd s \<or>
      (\<exists>d j j' q. persist d (j, snd s) = (q, (j', snd t)) \<and> (\<forall>x. r = Inr x \<longrightarrow> q = Inr ()))"
    unfolding writes_once_def by blast
  then show "after_power_loss (snd t) \<subseteq> insert (file_bytes (snd t)) (after_power_loss (snd s))"
    using persist_durable(1) by fastforce
  show "after_power_loss (snd t) = {file_bytes (snd t)}" if "appends c r s t" "r = Inr rc"
    using w appends_moves [OF that(1)] that(2) persist_durable(2) by fastforce
qed

end
