(* ===== verification/Budget_Properties.thy ===== *)
theory Budget_Properties
  imports Budget_Demo Budget_Canon Budget_Power_Loss
begin

text \<open>
  What the budget journal promises its callers, stated over the definitions that model
  \<open>scripts/eval/memory_budget_journal.py\<close>. The proofs rest on the components' lemmas; each
  property with hypotheses is applied to a concrete run.
\<close>

section \<open>Sessions\<close>

text \<open>C7: over any sequence of calls, reopenings and faults, at most one authorization of a
  request is granted for a run, and once it is granted the run has spent in the journal file.\<close>

theorem run_requested_once:
  assumes "session s h t" and "session_ok s"
  shows "length (filter (grants_run r) h) \<le> 1 \<and>
    (filter (grants_run r) h \<noteq> [] \<longrightarrow> run_spent r (disk_ledger (snd t)))"
  using assms by (rule session_grants_once)

theorem run_requested_once_witness:
  "\<exists>h t. session (demo_journal, demo_world) h t \<and> length (filter (grants_run ''run-1'') h) = 1 \<and>
     run_spent ''run-1'' (disk_ledger (snd t))"
proof -
  obtain rc rc' k n h t where s: "session (demo_journal, demo_world)
      [(Call_Reserve demo_identity, Inr rc), (Call_Authorize k n h, Inr rc')] t"
    and r: "run_id (identity (rc_transaction rc')) = run_id demo_identity"
    using demo_session by blast
  have "run_id demo_identity = ''run-1''" by (simp add: demo_identity_def)
  then show ?thesis
    using run_requested_once [OF s demo_start, of "''run-1''"] s r by (intro exI conjI) auto
qed

text \<open>C8: a reservation that was released by \<open>abort_pre_request\<close> is never spent and one that was
  authorized is never released: no transaction has both receipts in a session.\<close>

theorem release_excludes_request:
  assumes "session s h t" and "session_ok s"
  shows "\<not> (list_ex (grants_transaction k) h \<and> list_ex (releases_transaction k) h)"
  using session_released_or_spent [OF assms, of k] released_not_spent by blast

theorem release_excludes_request_witness:
  "\<exists>h k t. session (demo_journal, demo_world) h t \<and> list_ex (grants_transaction k) h \<and>
     \<not> list_ex (releases_transaction k) h"
proof -
  obtain rc rc' k n h t where s: "session (demo_journal, demo_world)
      [(Call_Reserve demo_identity, Inr rc), (Call_Authorize k n h, Inr rc')] t"
    using demo_session by blast
  show ?thesis
    using release_excludes_request [OF s demo_start, of k] s by (intro exI conjI) auto
qed

text \<open>C9: every call on a journal ends in one of two ways. Either the journal file is as it was, and
  a receipt is only returned when the transaction, in the state the journal has in memory, already
  was where the call would bring it; that state can lag behind the file after a call that failed late.
  Or the file advanced by exactly the ledger step the call asks for, and a receipt is the one of the state
  now in the file, which is on the disk: both \<open>fsync\<close> calls of \<open>_persist\<close> were made, so these bytes
  are all that a power loss can leave. A failed write, lock, rename or sync is no third way: whatever the
  outcome, a power loss leaves what it could have left before the call, or the file as it now is, whole.\<close>

theorem call_is_atomic:
  assumes "session_ok s" and "call_text c" and "run_call c s = (r, t)"
  shows "(untouched s t \<and> (\<forall>rc. r = Inr rc \<longrightarrow> (\<exists>st. jn_state (fst s) = Some st \<and> memory_answers c rc st)) \<or>
      appends c r s t \<and> (\<forall>rc. r = Inr rc \<longrightarrow> after_power_loss (snd t) = {file_bytes (snd t)})) \<and>
    after_power_loss (snd t) \<subseteq> insert (file_bytes (snd t)) (after_power_loss (snd s))"
  using call_has_outcome [OF assms] call_after_power_loss [OF assms(3)] by (auto simp: call_outcome_def)

theorem call_is_atomic_witness:
  "\<exists>s t rc. run_call (Call_Reserve demo_identity) s = (Inr rc, t) \<and> appends (Call_Reserve demo_identity) (Inr rc) s t \<and>
     after_power_loss (snd t) = {file_bytes (snd t)} \<and> (\<forall>st. jn_state (fst s) = Some st \<longrightarrow> js_transactions st = [])"
proof -
  obtain j w d where r: "ready (j, w) d (initial_state demo_authority)" and b: "json_bound d \<le> 3000"
    and c: "clock w = clock demo_world"
    using demo_opened by auto
  obtain rc t where run: "run_call (Call_Reserve demo_identity) (j, w) = (Inr rc, t)"
    by (rule demo_reserve_runs [OF r c b])
  have empty: "js_transactions (initial_state demo_authority) = []" by (simp add: initial_state_def)
  have none: "\<not> memory_answers (Call_Reserve demo_identity) rc (initial_state demo_authority)"
    by (simp add: empty live_transactions_def)
  have j: "jn_state (fst (j, w)) = Some (initial_state demo_authority)" using r by (simp add: ready_def)
  have "appends (Call_Reserve demo_identity) (Inr rc) (j, w) t \<and> after_power_loss (snd t) = {file_bytes (snd t)}"
    using call_is_atomic [OF ready_session [OF r] _ run] none demo_identity_ok j by auto
  moreover have "\<forall>st. jn_state (fst (j, w)) = Some st \<longrightarrow> js_transactions st = []"
    using j empty by simp
  ultimately show ?thesis using run by blast
qed

text \<open>C15: a fresh reservation is granted while the journal has room. An open journal in step with its
  file, on a machine where nothing fails, accepts the reservation of a valid identity that matches the
  authority, whose run has no live transaction, and whose maxima fit in what the authority has left,
  provided that the document with the new event is within the 8 MiB \<open>_persist\<close> allows and that the id
  made of the journal, the revision and the identity (a SHA-256) is not taken. A full journal refuses
  an affordable reservation.\<close>

theorem reservation_granted:
  assumes "ready (j, w) d st" and "identity_ok i" and "identity_text i"
    and "check_identity_authority i (js_authority st) = Inr ()"
    and "live_transactions (run_id i) (js_transactions st) = []"
    and "map_of (js_transactions st) (transaction_id_of (js_journal_id st) (js_revision st + 1) i) = None"
    and "exposure_cost (js_transactions st) + max_cost_microusd i \<le> total_cost_microusd (js_authority st)"
    and "exposure_tokens (js_transactions st) + max_metered_tokens i \<le> total_metered_tokens (js_authority st)"
    and "length (journal_text (appended (canon d) st (clock w) (reserve_event st i))) \<le> max_journal_bytes"
  shows "\<exists>rc t st'. reserve i (j, w) = (Inr rc, t) \<and> disk_state (snd t) = Some st' \<and>
    js_revision st' = js_revision st + 1 \<and>
    ledger_of (js_transactions st') = (ledger_of (js_transactions st))
      (transaction_id_of (js_journal_id st) (js_revision st + 1) i \<mapsto> (i, Held))"
proof -
  let ?k = "transaction_id_of (js_journal_id st) (js_revision st + 1) i"
  obtain rc t st' where run: "reserve i (j, w) = (Inr rc, t)"
    and r: "ready t (appended (canon d) st (clock w) (reserve_event st i)) st'"
    and n: "js_revision st' = js_revision st + 1"
    and t: "js_transactions st' = js_transactions st @
      [(?k, new_transaction ?k i (js_revision st + 1) (js_head_sha256 st'))]"
    using reserve_succeeds [OF assms] unfolding run_call.simps by blast
  have s: "disk_state (snd t) = Some st'"
    using r by (intro holds_state [of _ "appended (canon d) st (clock w) (reserve_event st i)"])
      (auto simp: ready_def intro: holds_written)
  have l: "ledger_of (js_transactions st') = (ledger_of (js_transactions st))(?k \<mapsto> (i, Held))"
    by (simp only: t ledger_of_append [OF assms(6)] phase_new)
  show ?thesis
    by (rule exI [of _ rc], rule exI [of _ t], rule exI [of _ st']) (intro conjI run s n l)
qed

theorem reservation_granted_witness:
  "\<exists>j w rc t st'. reserve demo_identity (j, w) = (Inr rc, t) \<and> disk_state (snd t) = Some st' \<and> js_revision st' = 1"
proof -
  obtain j w d where r: "ready (j, w) d (initial_state demo_authority)" and b: "json_bound d \<le> 3000"
    and c: "clock w = clock demo_world"
    using demo_opened by auto
  note f = demo_first [OF r c b]
  show ?thesis
    using reservation_granted [OF r demo_identity_ok f] unfolding initial_state_def by simp blast
qed

section \<open>Documents\<close>

text \<open>C10: what \<open>_replay_document\<close> accepts is a run of the budget ledger: each event of the
  document is one step of it, in order, and the transactions it returns are the ledger the run
  ends in.\<close>

theorem replay_implements_ledger:
  assumes "replay_document d = Inr st"
  shows "\<exists>v es ls. d = JObj v \<and> field v ''events'' = JArr es \<and> map event_label es = map Some ls \<and>
    ledger_run (js_authority st) Map.empty ls (ledger_of (js_transactions st))"
  using replay_document_run(3) [OF assms] .

theorem replay_implements_ledger_witness:
  "\<exists>d st k. replay_document d = Inr st \<and> ledger_of (js_transactions st) k = Some (demo_identity, Held) \<and>
     (\<exists>v es ls. d = JObj v \<and> field v ''events'' = JArr es \<and> map event_label es = map Some ls \<and>
       ledger_run (js_authority st) Map.empty ls (ledger_of (js_transactions st)))"
proof -
  obtain d st k where d: "replay_document d = Inr st"
    and t: "js_transactions st = [(k, new_transaction k demo_identity 1 (js_head_sha256 st))]"
    by (rule demo_document)
  have "ledger_of (js_transactions st) k = Some (demo_identity, Held)" by (simp add: ledger_of_def t phase_new)
  with replay_implements_ledger [OF d] d show ?thesis by blast
qed

text \<open>C11: no document that replays exceeds its authority: the committed actual values and the
  maxima of everything reserved or authorized together stay within the user's totals, which in
  turn stay within the hard limit of the code.\<close>

theorem replayed_exposure_within_authority:
  assumes "replay_document d = Inr st"
  shows "0 \<le> exposure_cost (js_transactions st) \<and>
    exposure_cost (js_transactions st) \<le> total_cost_microusd (js_authority st) \<and>
    exposure_tokens (js_transactions st) \<le> total_metered_tokens (js_authority st) \<and>
    total_cost_microusd (js_authority st) \<le> 2000 * 1000000"
proof -
  note run = replay_document_run [OF assms]
  have "0 \<le> ledger_sum entry_cost (ledger_of (js_transactions st))"
    using run(4) by (intro ledger_sum_nonneg) (auto simp: ledger_ok_def dest: entry_ok_usage)
  then show ?thesis
    using run by (simp add: exposure_ledger [OF run(2)] ledger_ok_def affordable_def authority_ok_def
        max_user_authority_microusd_def max_user_authority_usd_def micro_usd_per_usd_def)
qed

theorem replayed_exposure_within_authority_witness:
  "\<exists>d st. replay_document d = Inr st \<and> exposure_cost (js_transactions st) = 2000000 \<and>
     exposure_cost (js_transactions st) \<le> total_cost_microusd (js_authority st)"
proof -
  obtain d st k where d: "replay_document d = Inr st"
    and t: "js_transactions st = [(k, new_transaction k demo_identity 1 (js_head_sha256 st))]"
    by (rule demo_document)
  have "exposure_cost (js_transactions st) = 2000000"
    by (simp add: t exposure_cost_def new_transaction_def cost_exposure_def exposure_of_def demo_identity_def)
  with replayed_exposure_within_authority [OF d] d show ?thesis by blast
qed

text \<open>C12: the head of the hash chain binds the whole history: two documents without floats (the
  journal writes none) of the same number of events that replay to the same head hold the same
  events, key order aside, unless two different event texts with the same SHA-256 digest are among them.\<close>

theorem head_binds_history:
  assumes "replay_document (JObj v) = Inr st" and "replay_document (JObj v') = Inr st'"
    and "plain (JObj v)" and "plain (JObj v')"
    and "js_revision st = js_revision st'" and "js_head_sha256 st = js_head_sha256 st'"
  shows "canon (field v ''events'') = canon (field v' ''events'') \<or>
    (\<exists>es es'. field v ''events'' = JArr es \<and> field v' ''events'' = JArr es' \<and>
       collision (event_text ` (set es \<union> set es')))"
proof -
  obtain es where es: "field v ''events'' = JArr es" "js_revision st = int (length es)"
    "replay_events (js_journal_id st) (js_authority st) es = Inr (js_transactions st, js_head_sha256 st)"
    using assms(1) unfolding replay_document_Inr by auto
  obtain es' where es': "field v' ''events'' = JArr es'" "js_revision st' = int (length es')"
    "replay_events (js_journal_id st') (js_authority st') es' = Inr (js_transactions st', js_head_sha256 st')"
    using assms(2) unfolding replay_document_Inr by auto
  have p: "\<forall>e \<in> set es. plain e" "\<forall>e \<in> set es'. plain e"
    using plain_field [OF assms(3), of "''events''"] plain_field [OF assms(4), of "''events''"] es(1) es'(1)
    by simp_all
  have "map canon es = map canon es' \<or> collision (event_text ` (set es \<union> set es'))"
    using replay_events_chained [OF es(3) p(1)] replay_events_chained [OF es'(3) p(2)] assms(5,6) es(2) es'(2)
    by (intro journal_chain.chain_binds) simp_all
  then show ?thesis using es(1) es'(1) by auto
qed

theorem head_binds_history_witness:
  "\<exists>v st. replay_document (JObj v) = Inr st \<and> js_transactions st \<noteq> [] \<and>
     (canon (field v ''events'') = canon (field v ''events'') \<or>
     (\<exists>es es'. field v ''events'' = JArr es \<and> field v ''events'' = JArr es' \<and>
       collision (event_text ` (set es \<union> set es'))))"
proof -
  obtain d st k where d: "replay_document d = Inr st" and p: "storable d"
    and t: "js_transactions st = [(k, new_transaction k demo_identity 1 (js_head_sha256 st))]"
    by (rule demo_document)
  then obtain v where v: "d = JObj v" by (auto simp only: replay_document_Inr)
  have "plain (JObj v)" using p v by (simp add: storable_def)
  from head_binds_history [OF d [unfolded v] d [unfolded v] this this refl refl]
  show ?thesis using d v t by (intro exI [of _ v] exI [of _ st]) simp
qed

text \<open>Replay does not depend on the order of the keys in any object of the document, so a
  document means the same however it was serialized.\<close>

theorem replay_ignores_key_order:
  assumes "plain d" and "plain d'" and "canon d = canon d'"
  shows "replay_document d = replay_document d'"
  using replay_document_canon [OF assms(1)] replay_document_canon [OF assms(2)] assms(3) by simp

theorem replay_ignores_key_order_witness:
  "\<exists>d st. replay_document d = Inr st \<and> js_transactions st \<noteq> [] \<and> replay_document (canon d) = Inr st"
proof -
  obtain d st k where d: "replay_document d = Inr st" and p: "storable d"
    and t: "js_transactions st = [(k, new_transaction k demo_identity 1 (js_head_sha256 st))]"
    by (rule demo_document)
  have "plain d" using p by (simp add: storable_def)
  then have "replay_document (canon d) = replay_document d"
    by (intro replay_ignores_key_order) (simp_all add: plain_canon canon_idem)
  then show ?thesis using d t by (intro exI [of _ d] exI [of _ st]) simp
qed

text \<open>C13: appending is replaying. The document that \<open>_append\<close> would write replays exactly when
  the state machine accepts the new event in the replayed state, with the same error otherwise,
  and then it replays to the next state.\<close>

theorem append_agrees_with_replay:
  assumes "replay_document (JObj doc) = Inr st" and "ev_known ev" and "1 \<le> now"
  shows "replay_document (JObj (extend_document doc (js_revision st + 1) (sealed_event (event_body st now ev)))) =
    bindE (event_result st now ev)
      (\<lambda>txns. Inr (next_state st (canonical_sha256 (JObj (event_body st now ev))) txns))"
  using assms by (rule replay_extend)

theorem append_agrees_with_replay_witness:
  "\<exists>doc st ev. replay_document (JObj doc) = Inr st \<and> ev_action ev = Act_Request_Authorized \<and>
     replay_document (JObj (extend_document doc (js_revision st + 1) (sealed_event (event_body st 1700000000 ev)))) =
     bindE (event_result st 1700000000 ev)
      (\<lambda>txns. Inr (next_state st (canonical_sha256 (JObj (event_body st 1700000000 ev))) txns))"
proof -
  obtain d st k where d: "replay_document d = Inr st" and p: "storable d"
    and t: "js_transactions st = [(k, new_transaction k demo_identity 1 (js_head_sha256 st))]"
    by (rule demo_document)
  then obtain v where v: "d = JObj v" by (auto simp only: replay_document_Inr)
  let ?ev = "plain_event Act_Request_Authorized k demo_identity"
  have st: "stored_state st" using d p by (auto simp: stored_state_def)
  have k: "map_of (js_transactions st) k = Some (new_transaction k demo_identity 1 (js_head_sha256 st))" by (simp add: t)
  have "ev_known ?ev"
    using plain_event_known(1) [OF st k, of Act_Request_Authorized] by (simp add: new_transaction_def)
  from append_agrees_with_replay [OF d [unfolded v] this, of 1700000000] d v show ?thesis
    by (intro exI [of _ v] exI [of _ st] exI [of _ ?ev]) (simp add: plain_event_def)
qed

text \<open>The journal file is a faithful copy: the bytes \<open>_persist\<close> writes for a document parse
  back, through the duplicate-rejecting parser, to the same document up to key order, and replay
  to the same state.\<close>

theorem journal_file_roundtrip:
  assumes "plain d" and "utf8_json d" and "is_dict d"
  shows "bindE (unique_json (stable_json d @ [newline]) w) replay_document = replay_document d"
proof -
  have "storable d" using assms by (simp add: storable_def)
  from unique_json_text [OF this] show ?thesis
    using replay_document_canon [OF assms(1)] by (simp add: journal_text_def)
qed

theorem journal_file_roundtrip_witness:
  "\<exists>d st. replay_document d = Inr st \<and> js_transactions st \<noteq> [] \<and>
     bindE (unique_json (stable_json d @ [newline]) ''budget journal'') replay_document = Inr st"
proof -
  obtain d st k where d: "replay_document d = Inr st" and p: "storable d"
    and t: "js_transactions st = [(k, new_transaction k demo_identity 1 (js_head_sha256 st))]"
    by (rule demo_document)
  have "bindE (unique_json (stable_json d @ [newline]) ''budget journal'') replay_document = Inr st"
    using journal_file_roundtrip [of d] p d by (simp add: storable_def)
  moreover have "js_transactions st \<noteq> []" by (simp add: t)
  ultimately show ?thesis using d by blast
qed

text \<open>C14: a checkpoint reopens. What \<open>checkpoint_payload\<close> returns is accepted by
  \<open>validate_checkpoint_payload\<close>, replays to the state of the journal file, and, when it is within the
  8 MiB that both \<open>_persist\<close> and the reader allow, yields for every transaction the receipt the
  journal gives.\<close>

theorem checkpoint_reopens:
  assumes "session_ok s" and "checkpoint_payload s = (Inr p, t)"
  shows "\<exists>st. disk_state (snd t) = Some st \<and> validate_checkpoint_payload p = Inr st \<and>
    (length p \<le> max_journal_bytes \<longrightarrow>
      (\<forall>tid. reopen_checkpoint_transaction p tid = transaction_receipt_from_state st tid))"
proof -
  obtain d st where d: "p = journal_text d" "storable d" "replay_document d = Inr st"
    and disk: "disk_state (snd t) = Some st"
    using checkpoint_cases [OF assms] by metis
  have u: "unique_json p w = Inr (canon d)" for w using unique_json_text [OF d(2)] d(1) by simp
  have r: "replay_document (canon d) = Inr st"
    using replay_document_canon d(2,3) by (simp add: storable_def)
  have "p \<noteq> []" by (simp add: d(1) journal_text_def)
  then show ?thesis
    using disk by (auto simp: u r validate_checkpoint_payload_def reopen_checkpoint_transaction_def)
qed

theorem checkpoint_reopens_witness:
  "\<exists>s p t st. checkpoint_payload s = (Inr p, t) \<and> disk_state (snd t) = Some st \<and>
     js_transactions st \<noteq> [] \<and> validate_checkpoint_payload p = Inr st"
proof -
  obtain rc k j w d st where r: "ready (j, w) d st"
    and t: "js_transactions st = [(k, new_transaction k demo_identity 1 (js_head_sha256 st))]"
    by (rule demo_reserved)
  have "\<exists>p u. checkpoint_payload (j, w) = (Inr p, u) \<and> disk_state (snd u) = Some st"
    using require_open_ready [OF r] reobserve_ready [OF r] r
    by (auto simp: checkpoint_payload_def op_simps intro!: holds_state [of _ d])
      (auto simp: ready_def intro: holds_written)
  then obtain p u where p: "checkpoint_payload (j, w) = (Inr p, u)" and u: "disk_state (snd u) = Some st" by blast
  from checkpoint_reopens [OF ready_session [OF r] p] p u t show ?thesis by fastforce
qed

text \<open>The read loop ends for every file and is exact: a file within the limit is read whole,
  in chunks of at most 65536 bytes, and a larger one is refused.\<close>

theorem journal_read_bounded:
  "read_loop data 0 [] =
    (if length data \<le> max_journal_bytes then Inr data
     else fail ''budget journal'' ''exceeds the safety limit'')"
  using read_loop_all [of 0 data "[]"] read_loop_refuses [of 0 data "[]"] by auto

section \<open>Money\<close>

lemmas decimal_eval = dec_of_str_def dec_finite_def Let_def strip_def dec_ws_def is_ws_def lower_char_def
  dec_special_def is_digit_def char_code_def is_prefix_def nat_of_digits_def digit_of_def usd_to_microusd_def
  usd_to_microusd_ceiling_def dec_scaled_def dec_fix_def dec_digits_def nat_str.simps micro_usd_per_usd_def
  dec_emax_def dec_etiny_def dec_prec_def round_half_even_def dec_integral_def dec_int_def dec_ceiling_def

text \<open>For a decimal of at most 28 significant digits, \<open>usd_to_microusd\<close> is exact: it answers
  the integer number of micro-dollars when there is one and refuses otherwise.\<close>

theorem usd_to_microusd_exact:
  assumes "is_bool v = False" and "decimal_of v = Some (Dec m e)" and "0 \<le> m" and "m < 10 ^ 28"
    and "dec_etiny \<le> e" and "usd_to_microusd v = Inr n"
  shows "of_int n = dec_rat m e * 1000000"
proof -
  obtain c x where s: "dec_scaled m e = Inr (c, x)" and i: "dec_integral (c, x)" and n: "n = dec_int (c, x)"
    using assms(1,2,3,6) by (auto simp: usd_to_microusd_def bindE_eq_Inr split: if_splits)
  have "dec_rat c x = dec_rat m (e + 6)" by (rule dec_scaled_exact [OF s assms(3-5)])
  also have "dec_rat m (e + 6) = dec_rat m e * 1000000" by (simp add: dec_rat_def power_int_add)
  finally show ?thesis using dec_int_rat [OF i] n by simp
qed

theorem usd_to_microusd_exact_witness:
  "usd_to_microusd (JStr ''12.345678'') = Inr 12345678 \<and> (12345678 :: rat) = dec_rat 12345678 (- 6) * 1000000"
proof -
  have d: "decimal_of (JStr ''12.345678'') = Some (Dec 12345678 (- 6))" by (simp add: decimal_eval)
  have u: "usd_to_microusd (JStr ''12.345678'') = Inr 12345678" by (simp add: decimal_eval)
  show ?thesis using usd_to_microusd_exact [OF _ d _ _ _ u] u by (simp add: dec_etiny_def)
qed

text \<open>C16: for a decimal of at most 28 significant digits, its exponent within what the decimal
  context can hold, \<open>usd_to_microusd_ceiling\<close> is the least whole number of micro-dollars that covers
  the amount.\<close>

theorem usd_to_microusd_ceiling_covers:
  assumes "is_bool v = False" and "decimal_of v = Some (Dec m e)" and "0 \<le> m" and "m < 10 ^ 28"
    and "dec_etiny \<le> e" and "usd_to_microusd_ceiling v = Inr n"
  shows "n = \<lceil>dec_rat m e * 1000000\<rceil>"
proof -
  obtain c x where s: "dec_scaled m e = Inr (c, x)" and n: "n = dec_ceiling (c, x)"
    using assms(1,2,3,6) by (auto simp: usd_to_microusd_ceiling_def bindE_eq_Inr split: if_splits)
  have "dec_rat c x = dec_rat m (e + 6)" by (rule dec_scaled_exact [OF s assms(3-5)])
  also have "dec_rat m (e + 6) = dec_rat m e * 1000000" by (simp add: dec_rat_def power_int_add)
  finally show ?thesis using dec_ceiling_rat [of c x] n by simp
qed

theorem usd_to_microusd_ceiling_covers_witness:
  "usd_to_microusd_ceiling (JStr ''0.0000001'') = Inr 1 \<and> (1 :: int) = \<lceil>dec_rat 1 (- 7) * 1000000\<rceil>"
proof -
  have d: "decimal_of (JStr ''0.0000001'') = Some (Dec 1 (- 7))" by (simp add: decimal_eval)
  have u: "usd_to_microusd_ceiling (JStr ''0.0000001'') = Inr 1" by (simp add: decimal_eval)
  show ?thesis using usd_to_microusd_ceiling_covers [OF _ d _ _ _ u] u by (simp add: dec_etiny_def)
qed

text \<open>Past 28 digits the product is rounded by the decimal context before the ceiling is
  taken, so the ceiling can be below the amount: 1.00000000000000000000000000000001 dollars are
  accounted as 1000000 micro-dollars.\<close>

theorem usd_to_microusd_ceiling_rounds_down:
  "usd_to_microusd_ceiling (JStr ''1.00000000000000000000000000000001'') = Inr 1000000 \<and>
   decimal_of (JStr ''1.00000000000000000000000000000001'') = Some (Dec (10 ^ 32 + 1) (- 32)) \<and>
   (1000000 :: rat) < dec_rat (10 ^ 32 + 1) (- 32) * 1000000"
proof -
  have "usd_to_microusd_ceiling (JStr ''1.00000000000000000000000000000001'') = Inr 1000000" by (simp add: decimal_eval)
  moreover have "decimal_of (JStr ''1.00000000000000000000000000000001'') = Some (Dec (10 ^ 32 + 1) (- 32))" by (simp add: decimal_eval)
  moreover have "(1000000 :: rat) < dec_rat (10 ^ 32 + 1) (- 32) * 1000000"
    by (simp add: dec_rat_def power_int_minus field_simps)
  ultimately show ?thesis by blast
qed

end
