(* ===== verification/Py_Float.thy ===== *)
theory Py_Float
  imports Complex_Main Json "HOL-Library.Log_Nat"
begin

text \<open>
  IEEE double arithmetic as far as the budget checks of \<open>scripts/eval\<close> use it: rounding a
  rational to the nearest double (ties to even, gradual underflow, overflow to infinity), and
  sums, differences, products and comparisons of doubles. Rounding is monotone and keeps what
  already is a double, which is why a comparison of a rounded product with a double decides
  the exact comparison.
\<close>

section \<open>Rounding\<close>

definition binade :: "rat \<Rightarrow> int" where
  \<comment> \<open>the exponent of the leading bit of a positive number\<close>
  "binade x =
    (case quotient_of x of (p, q) \<Rightarrow>
       let e = int (floorlog 2 (nat p)) - int (floorlog 2 (nat q))
       in if 2 powi e \<le> x then e else e - 1)"

definition round_even :: "rat \<Rightarrow> int" where
  "round_even x =
    (let f = \<lfloor>x\<rfloor>; d = x - of_int f
     in if d < 1 / 2 then f else if 1 / 2 < d then f + 1 else if even f then f else f + 1)"

definition ulp_exponent :: "rat \<Rightarrow> int" where
  "ulp_exponent x = max (binade x - 52) (- 1074)"

definition round_pos :: "rat \<Rightarrow> rat" where
  "round_pos x = of_int (round_even (x / 2 powi ulp_exponent x)) * 2 powi ulp_exponent x"

definition round_double :: "rat \<Rightarrow> rat" where
  "round_double x = (if x = 0 then 0 else if x < 0 then - round_pos (- x) else round_pos x)"

lemma binade_bounds:
  assumes "0 < x"
  shows "2 powi binade x \<le> x" and "x < 2 powi (binade x + 1)"
proof -
  obtain p q where pq: "quotient_of x = (p, q)" by (cases "quotient_of x")
  have q: "0 < q" using pq by (rule quotient_of_denom_pos)
  have x: "x = of_int p / of_int q" using pq by (rule quotient_of_div)
  have p: "0 < p" using assms x q by (simp add: zero_less_divide_iff)
  define lp lq where l: "lp = floorlog 2 (nat p)" "lq = floorlog 2 (nat q)"
  have bp: "2 ^ (lp - 1) \<le> nat p" "nat p < 2 ^ lp" and bq: "2 ^ (lq - 1) \<le> nat q" "nat q < 2 ^ lq"
    using floorlog_bounds [of "nat p" 2] floorlog_bounds [of "nat q" 2] p q by (simp_all add: l)
  have pos: "0 < lp" "0 < lq" using bp(2) bq(2) p q by (auto intro: gr0I)
  have P: "2 powi (int lp - 1) \<le> (of_int p :: rat)" "(of_int p :: rat) < 2 powi int lp"
    and Q: "2 powi (int lq - 1) \<le> (of_int q :: rat)" "(of_int q :: rat) < 2 powi int lq"
  proof -
    have r: "(2 :: rat) powi (int n - 1) = of_nat (2 ^ (n - 1))" if "0 < n" for n
      using that by (simp add: power_int_def nat_diff_distrib)
    have s: "of_nat (nat i) = (of_int i :: rat)" if "0 < i" for i using that by simp
    show "2 powi (int lp - 1) \<le> (of_int p :: rat)" "2 powi (int lq - 1) \<le> (of_int q :: rat)"
      unfolding r [OF pos(1)] r [OF pos(2)] s [OF p, symmetric] s [OF q, symmetric]
      using bp(1) bq(1) by (simp_all only: of_nat_le_iff)
    have t: "(2 :: rat) powi int n = of_nat (2 ^ n)" for n by simp
    show "(of_int p :: rat) < 2 powi int lp" "(of_int q :: rat) < 2 powi int lq"
      unfolding t s [OF p, symmetric] s [OF q, symmetric] using bp(2) bq(2) by (simp_all only: of_nat_less_iff)
  qed
  define e where e: "e = int lp - int lq"
  have q': "(0 :: rat) < of_int q" using q by simp
  have up: "x < 2 powi (e + 1)"
  proof -
    have "x < 2 powi int lp / of_int q" using P(2) q' by (simp add: x divide_strict_right_mono)
    also have "\<dots> \<le> 2 powi int lp / 2 powi (int lq - 1)" using Q(1) q' by (intro divide_left_mono) simp_all
    also have "\<dots> = 2 powi (e + 1)" by (simp add: e power_int_diff power_int_add)
    finally show ?thesis .
  qed
  have lo: "2 powi (e - 1) < x"
  proof -
    have eq: "e - 1 = (int lp - 1) - int lq" by (simp add: e)
    have "2 powi (e - 1) = (2 :: rat) powi (int lp - 1) / 2 powi int lq"
      unfolding eq by (rule power_int_diff) simp
    also have "\<dots> < 2 powi (int lp - 1) / of_int q" using Q(2) q' by (intro divide_strict_left_mono) simp_all
    also have "\<dots> \<le> x" using P(1) q' by (simp add: x divide_right_mono)
    finally show ?thesis .
  qed
  have b: "binade x = (if 2 powi e \<le> x then e else e - 1)" by (simp add: binade_def pq Let_def e l)
  show "2 powi binade x \<le> x" "x < 2 powi (binade x + 1)" using up lo b by (auto simp: less_imp_le)
qed

lemma power_int_less_exp: "(2 :: rat) powi i < 2 powi j \<longleftrightarrow> i < j"
  using power_int_strict_increasing [of i j "2 :: rat"] power_int_increasing [of j i "2 :: rat"] by (cases "i < j") auto

lemma binade_mono:
  assumes "0 < x" and "x \<le> y"
  shows "binade x \<le> binade y"
proof -
  have "(2 :: rat) powi binade x < 2 powi (binade y + 1)"
    using binade_bounds(1) [OF assms(1)] binade_bounds(2) [of y] assms by linarith
  then show ?thesis by (simp add: power_int_less_exp)
qed

lemma binade_unique:
  assumes "2 powi e \<le> x" and "x < 2 powi (e + 1)"
  shows "binade x = e"
proof -
  have x: "0 < x" using assms(1) by (meson less_le_trans zero_less_numeral zero_less_power_int)
  have "(2 :: rat) powi e < 2 powi (binade x + 1)" "(2 :: rat) powi binade x < 2 powi (e + 1)"
    using assms binade_bounds [OF x] by linarith+
  then show ?thesis by (simp add: power_int_less_exp)
qed

lemma round_even_int [simp]: "round_even (of_int n) = n"
  by (simp add: round_even_def Let_def)

lemma round_even_range: "\<lfloor>x\<rfloor> \<le> round_even x \<and> round_even x \<le> \<lfloor>x\<rfloor> + 1"
  by (simp add: round_even_def Let_def)

lemma round_even_mono:
  assumes "x \<le> y"
  shows "round_even x \<le> round_even y"
proof (cases "\<lfloor>x\<rfloor> < \<lfloor>y\<rfloor>")
  case True
  then show ?thesis using round_even_range [of x] round_even_range [of y] by linarith
next
  case False
  then have "\<lfloor>x\<rfloor> = \<lfloor>y\<rfloor>" using floor_mono [OF assms] by linarith
  then show ?thesis using assms by (auto simp: round_even_def Let_def)
qed

lemma round_even_le_int: "x \<le> of_int n \<Longrightarrow> round_even x \<le> n"
  using round_even_mono [of x "of_int n"] by simp

lemma round_even_ge_int: "of_int n \<le> x \<Longrightarrow> n \<le> round_even x"
  using round_even_mono [of "of_int n" x] by simp

lemma two_powi_nat: "0 \<le> i \<Longrightarrow> (2 :: rat) powi i = of_int (2 ^ nat i)"
  by (simp add: power_int_def)

lemma round_pos_upper:
  assumes "0 < x"
  shows "round_pos x \<le> 2 powi max (binade x + 1) (ulp_exponent x)"
proof -
  let ?k = "ulp_exponent x" and ?m = "max (binade x + 1) (ulp_exponent x)"
  have m: "0 \<le> ?m - ?k" by simp
  have "(2 :: rat) powi (binade x + 1) \<le> 2 powi ?m" by (intro power_int_increasing) simp_all
  then have "x < 2 powi ?m" using binade_bounds(2) [OF assms] by linarith
  then have "x / 2 powi ?k \<le> 2 powi ?m / 2 powi ?k" by (intro divide_right_mono) simp_all
  also have "\<dots> = of_int (2 ^ nat (?m - ?k))" using two_powi_nat [OF m] by (simp add: power_int_diff)
  finally have "x / 2 powi ?k \<le> of_int (2 ^ nat (?m - ?k))" .
  then have "round_even (x / 2 powi ?k) \<le> 2 ^ nat (?m - ?k)" by (rule round_even_le_int)
  then have "(of_int (round_even (x / 2 powi ?k)) :: rat) \<le> 2 powi (?m - ?k)"
    using two_powi_nat [OF m] by (metis of_int_le_iff)
  then show ?thesis by (simp add: round_pos_def power_int_diff pos_le_divide_eq)
qed

lemma round_pos_lower:
  assumes "0 < x" and "- 1074 \<le> binade x - 52"
  shows "2 powi binade x \<le> round_pos x"
proof -
  have k: "ulp_exponent x = binade x - 52" using assms(2) by (simp add: ulp_exponent_def)
  have "of_int (2 ^ 52) \<le> x / 2 powi ulp_exponent x"
    using binade_bounds(1) [OF assms(1)] by (simp add: k power_int_diff pos_le_divide_eq)
  then have "2 ^ 52 \<le> round_even (x / 2 powi ulp_exponent x)" by (rule round_even_ge_int)
  then have "(of_int (2 ^ 52) :: rat) \<le> of_int (round_even (x / 2 powi ulp_exponent x))" by (simp only: of_int_le_iff)
  then show ?thesis by (simp add: round_pos_def k power_int_diff pos_divide_le_eq)
qed

lemma round_pos_mono:
  assumes x: "0 < x" and le: "x \<le> y"
  shows "round_pos x \<le> round_pos y"
proof (cases "ulp_exponent x = ulp_exponent y")
  case True
  then show ?thesis
    using le by (simp add: round_pos_def round_even_mono divide_right_mono)
next
  case False
  then have k: "ulp_exponent x < ulp_exponent y"
    using binade_mono [OF x le] by (auto simp: ulp_exponent_def)
  then have y: "ulp_exponent y = binade y - 52" "- 1074 \<le> binade y - 52" "binade x < binade y"
    by (auto simp: ulp_exponent_def max_def split: if_splits)
  have "round_pos x \<le> 2 powi max (binade x + 1) (ulp_exponent x)" by (rule round_pos_upper [OF x])
  also have "\<dots> \<le> 2 powi binade y" using y k by (intro power_int_increasing) auto
  also have "\<dots> \<le> round_pos y" using x le y by (intro round_pos_lower) auto
  finally show ?thesis .
qed

lemma round_pos_nonneg: "0 < x \<Longrightarrow> 0 \<le> round_pos x"
  unfolding round_pos_def by (intro mult_nonneg_nonneg) (simp_all add: round_even_ge_int)

lemma round_double_mono:
  assumes "x \<le> y"
  shows "round_double x \<le> round_double y"
  using assms round_pos_mono [of x y] round_pos_mono [of "- y" "- x"] round_pos_nonneg [of y] round_pos_nonneg [of "- x"]
  by (auto simp: round_double_def)

lemma round_pos_exact:
  assumes "0 < x" and "x = of_int n * 2 powi k" and "ulp_exponent x \<le> k"
  shows "round_pos x = x"
proof -
  have "x / 2 powi ulp_exponent x = of_int n * 2 powi (k - ulp_exponent x)"
    by (subst assms(2)) (simp add: power_int_diff)
  also have "\<dots> = of_int (n * 2 ^ nat (k - ulp_exponent x))" using assms(3) by (simp add: two_powi_nat)
  finally have i: "x / 2 powi ulp_exponent x = of_int (n * 2 ^ nat (k - ulp_exponent x))" .
  have "round_pos x = of_int (n * 2 ^ nat (k - ulp_exponent x)) * 2 powi ulp_exponent x"
    unfolding round_pos_def i round_even_int ..
  then show ?thesis by (metis i nonzero_eq_divide_eq power_int_not_zero zero_neq_numeral)
qed

lemma round_pos_idem:
  assumes "0 < x"
  shows "round_double (round_pos x) = round_pos x"
proof (cases "round_pos x = 0")
  case False
  let ?k = "ulp_exponent x" and ?r = "round_pos x"
  have r: "0 < ?r" using False round_pos_nonneg [OF assms] by simp
  have up: "?r \<le> 2 powi max (binade x + 1) ?k" by (rule round_pos_upper [OF assms])
  have form: "?r = of_int (round_even (x / 2 powi ?k)) * 2 powi ?k" by (simp add: round_pos_def)
  have "round_pos ?r = ?r"
  proof (cases "?r = 2 powi max (binade x + 1) ?k")
    case True
    let ?m = "max (binade x + 1) ?k"
    have "binade ?r = ?m" unfolding True by (rule binade_unique) (simp_all add: power_int_less_exp)
    then have "ulp_exponent ?r \<le> ?m" by (auto simp: ulp_exponent_def)
    then show ?thesis using r True by (intro round_pos_exact [of _ 1 ?m]) simp_all
  next
    case False
    then have "?r < 2 powi max (binade x + 1) ?k" using up by simp
    then have "(2 :: rat) powi binade ?r < 2 powi max (binade x + 1) ?k" using binade_bounds(1) [OF r] by simp
    then have "binade ?r < max (binade x + 1) ?k" by (simp only: power_int_less_exp)
    then have "ulp_exponent ?r \<le> ?k" by (auto simp: ulp_exponent_def)
    then show ?thesis by (rule round_pos_exact [OF r form])
  qed
  then show ?thesis using r by (simp add: round_double_def)
qed (simp add: round_double_def)

lemma round_double_idem [simp]: "round_double (round_double x) = round_double x"
proof (cases "0 < x")
  case True
  then show ?thesis using round_pos_idem [OF True] by (simp add: round_double_def)
next
  case False
  show ?thesis
  proof (cases "x = 0")
    case False
    with \<open>\<not> 0 < x\<close> have n: "0 < - x" by simp
    have "round_double (- round_pos (- x)) = - round_double (round_pos (- x))"
      using round_pos_nonneg [OF n] by (auto simp: round_double_def)
    then show ?thesis using round_pos_idem [OF n] n by (simp add: round_double_def)
  qed (simp add: round_double_def)
qed

section \<open>Doubles\<close>

definition double_limit :: rat where
  \<comment> \<open>the first value that is infinite\<close>
  "double_limit = 2 ^ 1024"

datatype double = Fin rat | Pos_Inf | Neg_Inf | Nan

definition to_double :: "rat \<Rightarrow> double" where
  "to_double x =
    (let r = round_double x
     in if double_limit \<le> r then Pos_Inf else if r \<le> - double_limit then Neg_Inf else Fin r)"

fun float_of :: "json \<Rightarrow> double" where
  \<comment> \<open>\<open>float(v)\<close> of a number that does not overflow\<close>
  "float_of (JInt i) = to_double (of_int i)"
| "float_of (JFloat (FDec m e)) = to_double (of_int m * 10 powi e)"
| "float_of (JFloat FNegZero) = Fin 0"
| "float_of (JFloat FInf) = Pos_Inf"
| "float_of (JFloat FNegInf) = Neg_Inf"
| "float_of _ = Nan"

fun d_less_eq :: "double \<Rightarrow> double \<Rightarrow> bool" where
  "d_less_eq (Fin x) (Fin y) \<longleftrightarrow> x \<le> y"
| "d_less_eq Nan y \<longleftrightarrow> False"
| "d_less_eq x Nan \<longleftrightarrow> False"
| "d_less_eq x Pos_Inf \<longleftrightarrow> True"
| "d_less_eq Neg_Inf y \<longleftrightarrow> True"
| "d_less_eq x y \<longleftrightarrow> False"

definition d_less :: "double \<Rightarrow> double \<Rightarrow> bool" where
  "d_less x y \<longleftrightarrow> d_less_eq x y \<and> \<not> d_less_eq y x"

fun d_add :: "double \<Rightarrow> double \<Rightarrow> double" where
  "d_add (Fin x) (Fin y) = to_double (x + y)"
| "d_add Nan y = Nan"
| "d_add x Nan = Nan"
| "d_add Pos_Inf Neg_Inf = Nan"
| "d_add Neg_Inf Pos_Inf = Nan"
| "d_add Pos_Inf y = Pos_Inf"
| "d_add Neg_Inf y = Neg_Inf"
| "d_add x y = y"

fun d_neg :: "double \<Rightarrow> double" where
  "d_neg (Fin x) = Fin (- x)" | "d_neg Pos_Inf = Neg_Inf" | "d_neg Neg_Inf = Pos_Inf" | "d_neg Nan = Nan"

definition d_sub :: "double \<Rightarrow> double \<Rightarrow> double" where
  "d_sub x y = d_add x (d_neg y)"

fun d_mul :: "double \<Rightarrow> double \<Rightarrow> double" where
  "d_mul (Fin x) (Fin y) = to_double (x * y)"
| "d_mul Nan y = Nan"
| "d_mul x Nan = Nan"
| "d_mul (Fin x) y = (if x = 0 then Nan else if 0 < x then y else d_neg y)"
| "d_mul x (Fin y) = (if y = 0 then Nan else if 0 < y then x else d_neg x)"
| "d_mul x y = (if x = y then Pos_Inf else Neg_Inf)"

definition d_min :: "double \<Rightarrow> double \<Rightarrow> double" where
  \<comment> \<open>Python's \<open>min(x, y)\<close>\<close>
  "d_min x y = (if d_less y x then y else x)"

text \<open>A finite double is a fixed point of the rounding.\<close>

definition is_double :: "double \<Rightarrow> bool" where
  "is_double d \<longleftrightarrow> (\<forall>x. d = Fin x \<longrightarrow> round_double x = x \<and> \<bar>x\<bar> < double_limit)"

lemma is_double_to_double [simp]: "is_double (to_double x)"
  by (auto simp: is_double_def to_double_def Let_def)

lemma double_limit_pos: "0 < double_limit"
  by (simp add: double_limit_def)

lemma is_double_float_of [simp]: "is_double (float_of v)"
proof (cases "v = JFloat FNegZero")
  case True
  then show ?thesis by (simp add: is_double_def round_double_def double_limit_pos)
next
  case False
  then show ?thesis
    by (cases v rule: float_of.cases) (simp_all only: float_of.simps is_double_to_double, simp_all add: is_double_def)
qed

text \<open>Comparing a rounded result with a double decides the exact comparison.\<close>

lemma to_double_less:
  assumes "d_less (to_double x) (Fin y)" and "is_double (Fin y)"
  shows "x < y"
proof (rule ccontr)
  assume "\<not> x < y"
  then have "y \<le> round_double x" and "- double_limit < y"
    using round_double_mono [of y x] assms(2) by (auto simp: is_double_def)
  then show False using assms(1) by (auto simp: to_double_def Let_def d_less_def split: if_splits)
qed

lemma d_less_eq_finite: "is_double (Fin y) \<Longrightarrow> d_less_eq (to_double x) (Fin y) \<Longrightarrow> round_double x \<le> y"
  by (auto simp: to_double_def Let_def is_double_def split: if_splits)

section \<open>Conversion of integers\<close>

definition float_overflows :: "int \<Rightarrow> bool" where
  \<comment> \<open>\<open>float(i)\<close> raises \<open>OverflowError\<close>: the value rounds to a power beyond the largest double\<close>
  "float_overflows i \<longleftrightarrow> 2 ^ 1024 - 2 ^ 970 \<le> \<bar>i\<bar>"

lemma round_even_le_half: "x < of_int n + 1 / 2 \<Longrightarrow> round_even x \<le> n"
proof -
  assume x: "x < of_int n + 1 / 2"
  then have "\<lfloor>x\<rfloor> \<le> n" by linarith
  then show ?thesis
  proof (cases "\<lfloor>x\<rfloor> = n")
    case True
    then show ?thesis using x by (simp add: round_even_def Let_def)
  next
    case False
    then show ?thesis using \<open>\<lfloor>x\<rfloor> \<le> n\<close> round_even_range [of x] by linarith
  qed
qed

lemma round_pos_below_limit:
  assumes "0 < x" and "x < 2 ^ 1024 - 2 ^ 970"
  shows "round_pos x < double_limit"
proof -
  have lim: "double_limit = 2 powi 1024" by (simp only: double_limit_def) simp
  have "x < 2 powi 1024" using assms(2) by simp
  then have "(2 :: rat) powi binade x < 2 powi 1024" using binade_bounds(1) [OF assms(1)] by linarith
  then have b: "binade x < 1024" by (simp only: power_int_less_exp)
  show ?thesis
  proof (cases "binade x < 1023")
    case True
    have "round_pos x \<le> 2 powi max (binade x + 1) (ulp_exponent x)" by (rule round_pos_upper [OF assms(1)])
    also have "\<dots> < 2 powi 1024" using True unfolding power_int_less_exp by (auto simp: ulp_exponent_def)
    finally show ?thesis by (simp only: lim)
  next
    case False
    then have k: "ulp_exponent x = 971" using b by (simp add: ulp_exponent_def)
    have "x / 2 powi 971 < of_int (2 ^ 53 - 1) + 1 / 2" using assms(2) by (simp add: field_simps)
    then have "round_even (x / 2 powi 971) \<le> 2 ^ 53 - 1" by (rule round_even_le_half)
    then have "(of_int (round_even (x / 2 powi 971)) :: rat) \<le> of_int (2 ^ 53 - 1)" by (simp only: of_int_le_iff)
    then have "round_pos x \<le> of_int (2 ^ 53 - 1) * 2 powi 971"
      unfolding round_pos_def k by (intro mult_right_mono) simp_all
    also have "\<dots> < double_limit" by (simp add: double_limit_def)
    finally show ?thesis .
  qed
qed

lemma float_of_int_finite:
  assumes "\<not> float_overflows i"
  shows "float_of (JInt i) = Fin (round_double (of_int i))"
proof -
  have i: "\<bar>of_int i\<bar> < (2 ^ 1024 - 2 ^ 970 :: rat)"
  proof -
    have "\<bar>i\<bar> < 2 ^ 1024 - 2 ^ 970" using assms by (simp only: float_overflows_def not_le)
    then have "(of_int \<bar>i\<bar> :: rat) < of_int (2 ^ 1024 - 2 ^ 970)" by (simp only: of_int_less_iff)
    then show ?thesis by (simp only: of_int_abs of_int_diff of_int_power of_int_numeral)
  qed
  have "\<bar>round_double (of_int i)\<bar> < double_limit"
  proof (cases i "0 :: int" rule: linorder_cases)
    case less
    then have p: "0 < - (of_int i :: rat)" by simp
    have "round_pos (- of_int i) < double_limit" using i less by (intro round_pos_below_limit [OF p]) (simp only: abs_of_neg of_int_less_0_iff)
    then show ?thesis using less round_pos_nonneg [OF p] by (simp add: round_double_def)
  next
    case equal
    then show ?thesis by (simp add: round_double_def double_limit_pos)
  next
    case greater
    then have p: "0 < (of_int i :: rat)" by simp
    have "round_pos (of_int i) < double_limit" using i greater by (intro round_pos_below_limit [OF p]) (simp only: abs_of_pos of_int_0_less_iff)
    then show ?thesis using greater round_pos_nonneg [OF p] by (simp add: round_double_def)
  qed
  then show ?thesis by (auto simp: to_double_def Let_def)
qed

text \<open>Small integers are doubles.\<close>

lemma round_double_small_int:
  assumes "\<bar>i\<bar> < 2 ^ 53"
  shows "round_double (of_int i) = of_int i"
proof -
  have pos: "round_pos (of_int n) = of_int n" if n: "0 < n" "n < 2 ^ 53" for n
  proof -
    have p: "0 < (of_int n :: rat)" using n by simp
    have "(of_int n :: rat) < of_int (2 ^ 53)" using n(2) by (simp only: of_int_less_iff)
    then have "(2 :: rat) powi binade (of_int n) < 2 powi 53" using binade_bounds(1) [OF p] by simp
    then have "binade (of_int n) < 53" by (simp only: power_int_less_exp)
    then show ?thesis by (intro round_pos_exact [OF p, of _ 0]) (auto simp: ulp_exponent_def)
  qed
  show ?thesis using pos [of i] pos [of "- i"] assms by (auto simp: round_double_def)
qed

lemma float_of_small_int: "\<bar>i\<bar> < 2 ^ 53 \<Longrightarrow> float_of (JInt i) = Fin (of_int i)"
proof -
  assume i: "\<bar>i\<bar> < 2 ^ 53"
  have "(2 :: int) ^ 53 \<le> 2 ^ 1024 - 2 ^ 970" by simp
  then have "\<not> float_overflows i" using i unfolding float_overflows_def by linarith
  from float_of_int_finite [OF this] round_double_small_int [OF i] show ?thesis by simp
qed

end
