(* ===== verification/Checks.thy ===== *)
theory Checks
  imports Py_Float
begin

text \<open>
  The vocabulary of the schema validators of \<open>scripts/eval\<close>: reading a required field at a
  type, membership in a set of names (which raises on a value that cannot be hashed), number
  tests, and the shapes of strings the validators ask for. Every rule of \<open>check_simps\<close> says
  what follows from a check that passed.
\<close>

section \<open>Reading fields\<close>

fun as_str :: "json \<Rightarrow> string option" where
  "as_str (JStr s) = Some s" | "as_str _ = None"

fun as_list :: "json \<Rightarrow> json list option" where
  "as_list (JArr vs) = Some vs" | "as_list _ = None"

fun as_bool :: "json \<Rightarrow> bool option" where
  "as_bool (JBool b) = Some b" | "as_bool _ = None"

definition require_as :: "(json \<Rightarrow> 'a option) \<Rightarrow> json_object \<Rightarrow> string \<Rightarrow> string \<Rightarrow> 'a result" where
  \<comment> \<open>the field \<open>k\<close> of the mapping, which must be there and have the type\<close>
  "require_as as kvs k w =
    (case map_of kvs k of
       None \<Rightarrow> fail w ''missing required field''
     | Some v \<Rightarrow>
         (case as v of
            None \<Rightarrow> fail (w @ ''.'' @ k) ''expected another type''
          | Some x \<Rightarrow> Inr x))"

definition get_default :: "json_object \<Rightarrow> string \<Rightarrow> json \<Rightarrow> json" where
  \<comment> \<open>\<open>d.get(k, v)\<close>\<close>
  "get_default kvs k v = (case map_of kvs k of None \<Rightarrow> v | Some x \<Rightarrow> x)"

section \<open>Sequences of checks\<close>

definition raise_if :: "bool \<Rightarrow> string \<Rightarrow> string \<Rightarrow> unit result" where
  \<comment> \<open>\<open>if bad: raise ValidationError\<close>\<close>
  "raise_if bad w m = (if bad then fail w m else Inr ())"

abbreviation seqE :: "unit result list \<Rightarrow> unit result" where
  \<comment> \<open>one check after the other; the first that fails is raised\<close>
  "seqE cs \<equiv> forE id cs"

lemma raise_if_Inr [check_simps]: "raise_if bad w m = Inr u \<longleftrightarrow> \<not> bad"
  by (simp add: raise_if_def)

section \<open>Membership in a set of names\<close>

definition one_of :: "json \<Rightarrow> string list \<Rightarrow> bool result" where
  "one_of v names =
    (if hashable v then Inr (list_ex (\<lambda>s. v = JStr s) names) else Inl (Type_Error ''unhashable type''))"

definition require_one_of :: "json \<Rightarrow> string list \<Rightarrow> string \<Rightarrow> string \<Rightarrow> unit result" where
  "require_one_of v names w m = bindE (one_of v names) (\<lambda>ok. requireE ok (Validation_Error w m))"

fun all_one_of :: "json list \<Rightarrow> string list \<Rightarrow> bool result" where
  \<comment> \<open>\<open>all(v in names for v in vs)\<close>, which stops at the first that is not\<close>
  "all_one_of [] names = Inr True"
| "all_one_of (v # vs) names = bindE (one_of v names) (\<lambda>ok. if ok then all_one_of vs names else Inr False)"

section \<open>Strings\<close>

fun nonempty_str :: "json \<Rightarrow> bool" where
  "nonempty_str (JStr s) \<longleftrightarrow> s \<noteq> []" | "nonempty_str _ \<longleftrightarrow> False"

definition hex_str :: "nat \<Rightarrow> string \<Rightarrow> bool" where
  \<comment> \<open>\<open>re.fullmatch(r"[0-9a-f]{n}", s)\<close>\<close>
  "hex_str n s \<longleftrightarrow> length s = n \<and> list_all hex_char s"

fun hex_json :: "nat \<Rightarrow> json \<Rightarrow> bool" where
  "hex_json n (JStr s) \<longleftrightarrow> hex_str n s" | "hex_json n _ \<longleftrightarrow> False"

fun occurs_in :: "string \<Rightarrow> string \<Rightarrow> bool" where
  \<comment> \<open>\<open>t in s\<close>\<close>
  "occurs_in t [] \<longleftrightarrow> t = []"
| "occurs_in t (c # s) \<longleftrightarrow> is_prefix t (c # s) \<or> occurs_in t s"

fun split_at_char :: "char \<Rightarrow> string \<Rightarrow> string list" where
  \<comment> \<open>\<open>s.split(c)\<close>\<close>
  "split_at_char c [] = [[]]"
| "split_at_char c (d # s) =
    (if d = c then [] # split_at_char c s
     else (case split_at_char c s of p # ps \<Rightarrow> (d # p) # ps | [] \<Rightarrow> [[d]]))"

lemma split_at_char_neq [simp]: "split_at_char c s \<noteq> []"
  by (induction s) (auto split: list.splits)

lemma join_split_at_char: "join_with [c] (split_at_char c s) = s"
proof (induction s)
  case (Cons d s)
  obtain p ps where s: "split_at_char c s = p # ps" using split_at_char_neq [of c s] by (cases "split_at_char c s") auto
  show ?case using Cons s by (cases ps) auto
qed simp

lemma split_at_char_free: "p \<in> set (split_at_char c s) \<Longrightarrow> c \<notin> set p"
  by (induction s arbitrary: p) (auto split: list.splits if_splits)

lemma split_at_char_plain: "c \<notin> set s \<Longrightarrow> split_at_char c s = [s]"
  by (induction s) auto

lemma split_at_char_append:
  "split_at_char c (s @ c # t) = split_at_char c s @ split_at_char c t"
proof (induction s)
  case (Cons d s)
  then show ?case by (cases "split_at_char c s") auto
qed simp

lemma split_join:
  "ps \<noteq> [] \<Longrightarrow> (\<And>p. p \<in> set ps \<Longrightarrow> c \<notin> set p) \<Longrightarrow> split_at_char c (join_with [c] ps) = ps"
  by (induction "[c]" ps rule: join_with.induct) (auto simp: split_at_char_plain split_at_char_append)

section \<open>White space and line breaks of Python strings\<close>

text \<open>
  The number of bytes of the character at the head of a UTF-8 string when \<open>str.isspace\<close> holds
  of it, and when \<open>str.splitlines\<close> breaks a line there; \<open>0\<close> otherwise.
\<close>

fun space_bytes :: "string \<Rightarrow> nat" where
  "space_bytes [] = 0"
| "space_bytes (c # s) =
    (let x = char_code c; y = (case s of [] \<Rightarrow> 0 | d # _ \<Rightarrow> char_code d);
         z = (case s of _ # e # _ \<Rightarrow> char_code e | _ \<Rightarrow> 0)
     in if (9 \<le> x \<and> x \<le> 13) \<or> (28 \<le> x \<and> x \<le> 32) then 1
        else if x = 0xC2 \<and> (y = 0x85 \<or> y = 0xA0) then 2
        else if x = 0xE1 \<and> y = 0x9A \<and> z = 0x80 then 3
        else if x = 0xE2 \<and> y = 0x80 \<and> ((0x80 \<le> z \<and> z \<le> 0x8A) \<or> z = 0xA8 \<or> z = 0xA9 \<or> z = 0xAF) then 3
        else if x = 0xE2 \<and> y = 0x81 \<and> z = 0x9F then 3
        else if x = 0xE3 \<and> y = 0x80 \<and> z = 0x80 then 3
        else 0)"

function blank :: "string \<Rightarrow> bool" where
  \<comment> \<open>\<open>not s.strip()\<close>\<close>
  "blank s = (if s = [] then True else if space_bytes s = 0 then False else blank (drop (space_bytes s) s))"
  by pat_completeness auto
termination by (relation "measure length") (auto simp: diff_less)

declare blank.simps [simp del]

fun break_bytes :: "string \<Rightarrow> nat" where
  "break_bytes [] = 0"
| "break_bytes (c # s) =
    (let x = char_code c; y = (case s of [] \<Rightarrow> 0 | d # _ \<Rightarrow> char_code d);
         z = (case s of _ # e # _ \<Rightarrow> char_code e | _ \<Rightarrow> 0)
     in if x = 13 \<and> y = 10 then 2
        else if (10 \<le> x \<and> x \<le> 13) \<or> (28 \<le> x \<and> x \<le> 30) then 1
        else if x = 0xC2 \<and> y = 0x85 then 2
        else if x = 0xE2 \<and> y = 0x80 \<and> (z = 0xA8 \<or> z = 0xA9) then 3
        else 0)"

function split_lines :: "string \<Rightarrow> string \<Rightarrow> string list" where
  \<comment> \<open>\<open>s.splitlines()\<close>; the first argument is the line read so far\<close>
  "split_lines acc s =
    (if s = [] then (if acc = [] then [] else [acc])
     else if break_bytes s = 0 then split_lines (acc @ [hd s]) (tl s)
     else acc # split_lines [] (drop (break_bytes s) s))"
  by pat_completeness auto
termination by (relation "measure (\<lambda>(_, s). length s)") (auto simp: diff_less)

declare split_lines.simps [simp del]

section \<open>Numbers\<close>

fun is_number :: "json \<Rightarrow> bool" where
  \<comment> \<open>\<open>isinstance(v, (int, float)) and not isinstance(v, bool)\<close>\<close>
  "is_number (JInt _) = True" | "is_number (JFloat _) = True" | "is_number _ = False"

definition finite_double :: "double \<Rightarrow> bool" where
  "finite_double d \<longleftrightarrow> (case d of Fin _ \<Rightarrow> True | _ \<Rightarrow> False)"

definition is_finite :: "json \<Rightarrow> bool result" where
  \<comment> \<open>\<open>math.isfinite(float(v))\<close> of a number\<close>
  "is_finite v =
    (case v of
       JInt i \<Rightarrow> if float_overflows i then Inl Overflow_Error else Inr True
     | _ \<Rightarrow> Inr (finite_double (float_of v)))"

fun is_negative :: "json \<Rightarrow> bool" where
  "is_negative (JInt i) = (i < 0)"
| "is_negative (JFloat (FDec m e)) = (m < 0)"
| "is_negative (JFloat FNegInf) = True"
| "is_negative _ = False"

fun is_positive :: "json \<Rightarrow> bool" where
  "is_positive (JInt i) = (0 < i)"
| "is_positive (JFloat (FDec m e)) = (0 < m)"
| "is_positive (JFloat FInf) = True"
| "is_positive _ = False"

fun above_one :: "json \<Rightarrow> bool" where
  "above_one (JInt i) = (1 < i)"
| "above_one (JFloat (FDec m e)) = dec_less 1 0 m e"
| "above_one (JFloat FInf) = True"
| "above_one _ = False"

definition require_number ::
  "json \<Rightarrow> (json \<Rightarrow> bool) \<Rightarrow> string \<Rightarrow> string \<Rightarrow> unit result" where
  \<comment> \<open>a finite number within the bounds\<close>
  "require_number v within_bounds w m =
    (if \<not> is_number v then fail w m
     else bindE (is_finite v) (\<lambda>finite.
       requireE (finite \<and> within_bounds v) (Validation_Error w m)))"

section \<open>What a passed check says\<close>

lemma as_str_iff [check_simps]: "as_str v = Some s \<longleftrightarrow> v = JStr s"
  by (cases v) auto

lemma as_list_iff [check_simps]: "as_list v = Some vs \<longleftrightarrow> v = JArr vs"
  by (cases v) auto

lemma as_object_iff [check_simps]: "as_object v = Some kvs \<longleftrightarrow> v = JObj kvs"
  by (cases v) auto

lemma as_bool_iff [check_simps]: "as_bool v = Some b \<longleftrightarrow> v = JBool b"
  by (cases v) auto

lemma int_value_iff [check_simps]: "int_value v = Some i \<longleftrightarrow> v = JInt i"
  by (cases v) auto

lemma require_as_Inr [check_simps]:
  "require_as as kvs k w = Inr x \<longleftrightarrow> (\<exists>v. map_of kvs k = Some v \<and> as v = Some x)"
  by (auto simp: require_as_def split: option.splits)

lemma field_present: "map_of kvs k = Some v \<Longrightarrow> field kvs k = v"
  by (simp add: dict_get_none_def)

lemma require_as_field: "require_as as kvs k w = Inr x \<Longrightarrow> as (field kvs k) = Some x"
  by (auto simp: require_as_Inr dict_get_none_def)

lemma one_of_True [check_simps]: "one_of v names = Inr True \<longleftrightarrow> (\<exists>s \<in> set names. v = JStr s)"
  by (auto simp: one_of_def hashable_def list_ex_iff)

lemma require_one_of_Inr [check_simps]:
  "require_one_of v names w m = Inr u \<longleftrightarrow> (\<exists>s \<in> set names. v = JStr s)"
  by (auto simp: require_one_of_def bindE_eq_Inr check_simps one_of_def hashable_def list_ex_iff)

lemma all_one_of_True [check_simps]:
  "all_one_of vs names = Inr True \<longleftrightarrow> (\<forall>v \<in> set vs. \<exists>s \<in> set names. v = JStr s)"
  by (induction vs) (auto simp: bindE_eq_Inr check_simps one_of_def hashable_def list_ex_iff split: if_splits)

lemma nonempty_str_iff [check_simps]: "nonempty_str v \<longleftrightarrow> (\<exists>s. v = JStr s \<and> s \<noteq> [])"
  by (cases v) auto

lemma hex_json_iff [check_simps]: "hex_json n v \<longleftrightarrow> (\<exists>s. v = JStr s \<and> hex_str n s)"
  by (cases v) auto

lemma require_number_Inr [check_simps]:
  "require_number v ok w m = Inr u \<longleftrightarrow> is_number v \<and> is_finite v = Inr True \<and> ok v"
  by (auto simp: require_number_def bindE_eq_Inr)

lemma is_finite_double: "is_number v \<Longrightarrow> is_finite v = Inr True \<Longrightarrow> \<exists>x. float_of v = Fin x \<and> is_double (Fin x)"
proof -
  assume v: "is_number v" "is_finite v = Inr True"
  have "\<exists>x. float_of v = Fin x"
  proof (cases v)
    case (JInt i)
    then show ?thesis using v float_of_int_finite [of i] by (auto simp: is_finite_def split: if_splits)
  next
    case (JFloat f)
    then show ?thesis using v by (auto simp: is_finite_def finite_double_def split: double.splits)
  qed (use v in simp_all)
  then show ?thesis by (metis is_double_float_of)
qed

lemma is_finite_small: "\<bar>i\<bar> < 2 ^ 53 \<Longrightarrow> is_finite (JInt i) = Inr True"
proof -
  assume i: "\<bar>i\<bar> < 2 ^ 53"
  have "(2 :: int) ^ 53 \<le> 2 ^ 1024 - 2 ^ 970" by simp
  then have "\<not> float_overflows i" using i unfolding float_overflows_def by linarith
  then show ?thesis by (simp add: is_finite_def)
qed

text \<open>What a passed sequence of checks says, check by check.\<close>

lemmas seq_checks = forE_eq_Inr list.set ball_simps id_apply bindE_eq_Inr check_simps

end
