(* ===== verification/Artifact_Paths.thy ===== *)
theory Artifact_Paths
  imports Checks
begin

text \<open>
  \<open>safe_posix_relative_path\<close> of \<open>scripts/eval/model.py\<close>, with the part of \<open>PurePosixPath\<close> it
  uses, and what an accepted path is good for: joined to any directory it names something
  strictly below that directory, whatever the directory's own spelling.
\<close>

definition slash :: char where "slash = CHR ''/''"

section \<open>\<open>PurePosixPath\<close>\<close>

definition posix_root :: "string \<Rightarrow> string" where
  \<comment> \<open>two leading slashes are kept, any other number is one\<close>
  "posix_root s =
    (if \<not> is_prefix [slash] s then []
     else if is_prefix [slash, slash] s \<and> \<not> is_prefix [slash, slash, slash] s then [slash, slash]
     else [slash])"

definition posix_parts :: "string \<Rightarrow> string list" where
  "posix_parts s = filter (\<lambda>p. p \<noteq> [] \<and> p \<noteq> ''.'') (split_at_char slash s)"

definition as_posix :: "string \<Rightarrow> string" where
  "as_posix s =
    (if posix_root s = [] \<and> posix_parts s = [] then ''.''
     else posix_root s @ join_with [slash] (posix_parts s))"

section \<open>The check\<close>

definition safe_posix_relative_path :: "json \<Rightarrow> string \<Rightarrow> string list result" where
  \<comment> \<open>the parts of the path\<close>
  "safe_posix_relative_path v w =
    (case v of
       JStr s \<Rightarrow>
         if s = [] \<or> backslash \<in> set s then fail w ''expected a canonical relative POSIX path''
         else if list_ex (\<lambda>p. p \<in> {[], ''.'', ''..''}) (split_at_char slash s)
         then fail w ''expected a canonical relative POSIX path''
         else if posix_root s \<noteq> [] \<or> as_posix s \<noteq> s
         then fail w ''expected a canonical relative POSIX path''
         else Inr (posix_parts s)
     | _ \<Rightarrow> fail w ''expected a canonical relative POSIX path'')"

definition is_safe_posix_relative_path :: "json \<Rightarrow> string \<Rightarrow> bool" where
  "is_safe_posix_relative_path v w = (case safe_posix_relative_path v w of Inr _ \<Rightarrow> True | Inl _ \<Rightarrow> False)"

section \<open>What is accepted\<close>

definition safe_parts :: "string list \<Rightarrow> bool" where
  "safe_parts ps \<longleftrightarrow> ps \<noteq> [] \<and>
    (\<forall>p \<in> set ps. p \<noteq> [] \<and> p \<noteq> ''.'' \<and> p \<noteq> ''..'' \<and> slash \<notin> set p \<and> backslash \<notin> set p)"

lemma set_join_with: "set (join_with sep ps) \<subseteq> set sep \<union> (\<Union>p \<in> set ps. set p)"
  by (induction sep ps rule: join_with.induct) auto

lemma set_in_join: "p \<in> set ps \<Longrightarrow> set p \<subseteq> set (join_with sep ps)"
  by (induction sep ps rule: join_with.induct) auto

text \<open>The last check is implied by the earlier ones.\<close>

lemma canonical_posix:
  assumes "s \<noteq> []" and "\<not> list_ex (\<lambda>p. p \<in> {[], ''.'', ''..''}) (split_at_char slash s)"
  shows "posix_root s = []" and "as_posix s = s" and "posix_parts s = split_at_char slash s"
proof -
  have "hd s \<noteq> slash"
  proof
    assume "hd s = slash"
    then have "[] \<in> set (split_at_char slash s)" using assms(1) by (cases s) auto
    then show False using assms(2) by (auto simp: list_ex_iff)
  qed
  then show root: "posix_root s = []" using assms(1) by (cases s) (auto simp: posix_root_def is_prefix_def)
  show parts: "posix_parts s = split_at_char slash s"
    using assms(2) unfolding posix_parts_def by (intro filter_True) (auto simp: list_ex_iff)
  show "as_posix s = s" by (simp add: as_posix_def root parts join_split_at_char)
qed

lemma safe_path_Inr [check_simps]:
  "safe_posix_relative_path v w = Inr ps \<longleftrightarrow> safe_parts ps \<and> v = JStr (join_with [slash] ps)"
proof
  assume l: "safe_posix_relative_path v w = Inr ps"
  then obtain s where v: "v = JStr s" by (auto simp: safe_posix_relative_path_def split: json.splits)
  with l have s: "s \<noteq> []" "backslash \<notin> set s" "\<not> list_ex (\<lambda>p. p \<in> {[], ''.'', ''..''}) (split_at_char slash s)"
    and ps: "ps = posix_parts s"
    by (auto simp: safe_posix_relative_path_def split: if_splits)
  have eq: "ps = split_at_char slash s" using canonical_posix(3) [OF s(1,3)] ps by simp
  then have "safe_parts ps"
    using s(2,3) set_in_join [of _ ps "[slash]"] split_at_char_free [of _ slash s]
    by (auto simp: safe_parts_def list_ex_iff join_split_at_char)
  then show "safe_parts ps \<and> v = JStr (join_with [slash] ps)"
    by (simp add: v eq join_split_at_char)
next
  assume r: "safe_parts ps \<and> v = JStr (join_with [slash] ps)"
  let ?s = "join_with [slash] ps"
  have split: "split_at_char slash ?s = ps" using r by (intro split_join) (auto simp: safe_parts_def)
  obtain p qs where ps: "ps = p # qs" "p \<noteq> []" using r by (cases ps) (auto simp: safe_parts_def)
  have ne: "?s \<noteq> []" using ps by (cases qs) auto
  have "backslash \<noteq> slash" by (simp add: slash_def)
  then have "backslash \<notin> set ?s" using set_join_with [of "[slash]" ps] r by (auto simp: safe_parts_def)
  moreover have bad: "\<not> list_ex (\<lambda>p. p \<in> {[], ''.'', ''..''}) (split_at_char slash ?s)"
    using r by (auto simp: split list_ex_iff safe_parts_def)
  ultimately show "safe_posix_relative_path v w = Inr ps"
    using ne r canonical_posix [OF ne bad] split by (simp add: safe_posix_relative_path_def)
qed

lemma safe_path_iff: "is_safe_posix_relative_path v w \<longleftrightarrow> (\<exists>ps. safe_parts ps \<and> v = JStr (join_with [slash] ps))"
  using safe_path_Inr [of v w]
  by (cases "safe_posix_relative_path v w") (auto simp: is_safe_posix_relative_path_def)

section \<open>Where an accepted path leads\<close>

fun walk :: "string list \<Rightarrow> string list \<Rightarrow> string list" where
  \<comment> \<open>how a file system follows a path from a directory, given as the names above it\<close>
  "walk dir [] = dir"
| "walk dir (p # ps) =
    (if p = [] \<or> p = ''.'' then walk dir ps
     else if p = ''..'' then walk (butlast dir) ps
     else walk (dir @ [p]) ps)"

lemma walk_safe: "\<forall>p \<in> set ps. p \<noteq> [] \<and> p \<noteq> ''.'' \<and> p \<noteq> ''..'' \<Longrightarrow> walk dir ps = dir @ ps"
  by (induction ps arbitrary: dir) auto

text \<open>C21: an accepted path is relative and canonical, and following it from any directory ends
  strictly below that directory: it can not escape the workspace it is joined to.\<close>

theorem safe_path_stays_below:
  assumes "safe_posix_relative_path v w = Inr ps"
  shows "\<exists>s. v = JStr s \<and> split_at_char slash s = ps \<and> walk dir (split_at_char slash s) = dir @ ps \<and> ps \<noteq> []"
proof -
  have ps: "safe_parts ps" "v = JStr (join_with [slash] ps)" using assms by (simp_all add: check_simps)
  have "split_at_char slash (join_with [slash] ps) = ps"
    using ps(1) by (intro split_join) (auto simp: safe_parts_def)
  then show ?thesis using ps walk_safe [of ps dir] by (auto simp: safe_parts_def)
qed

theorem safe_path_stays_below_witness:
  "walk [''workspace''] (split_at_char slash ''docs/plan.md'') = [''workspace'', ''docs'', ''plan.md'']"
proof -
  have "safe_posix_relative_path (JStr ''docs/plan.md'') [] = Inr [''docs'', ''plan.md'']"
    by (simp add: safe_path_Inr safe_parts_def slash_def)
  from safe_path_stays_below [OF this, of "[''workspace'']"] show ?thesis by simp
qed

end
