(* ===== verification/Artifact_Rollout.thy ===== *)
theory Artifact_Rollout
  imports Artifact_Paths
begin

text \<open>
  The rollout validators of \<open>scripts/eval/model.py\<close>: the success checks of a task, the treatment
  activation receipt, the metrics, and the rollout record whose judgement must agree with its
  parts. Where the code loops over a Python set of keys the model takes one order; only the
  path in the message of the first error depends on it.
\<close>

section \<open>Success checks\<close>

definition check_types :: "string list" where
  "check_types = [''file_exists'', ''file_absent'', ''contains'', ''contains_casefold'', ''contains_any'',
     ''not_contains'', ''not_contains_casefold'', ''min_lines'', ''log_contains'', ''log_not_contains'',
     ''debug_log_contains'', ''debug_log_not_contains'', ''debug_tool_input_contains'',
     ''debug_tool_input_not_contains'', ''assistant_contains'', ''validator'']"

definition path_kinds :: "string list" where
  "path_kinds = [''contains'', ''contains_casefold'', ''contains_any'', ''not_contains'',
     ''not_contains_casefold'', ''min_lines'']"

definition text_kinds :: "string list" where
  "text_kinds = [''contains'', ''contains_casefold'', ''not_contains'', ''not_contains_casefold'',
     ''log_contains'', ''log_not_contains'', ''debug_log_contains'', ''debug_log_not_contains'',
     ''debug_tool_input_contains'', ''debug_tool_input_not_contains'', ''assistant_contains'']"

definition validator_path_ok :: "string \<Rightarrow> bool" where
  "validator_path_ok s =
    (case safe_posix_relative_path (JStr s) [] of
       Inr ps \<Rightarrow> take 2 ps = [''evals'', ''validators'']
     | Inl _ \<Rightarrow> False)"

fun int_between :: "int \<Rightarrow> int \<Rightarrow> json \<Rightarrow> bool" where
  "int_between lo hi (JInt i) \<longleftrightarrow> lo \<le> i \<and> i \<le> hi" | "int_between lo hi _ \<longleftrightarrow> False"

definition validate_check :: "json_object \<Rightarrow> string \<Rightarrow> unit result" where
  "validate_check check w =
    bindE (require_as as_str check ''type'' w) (\<lambda>kind.
    seqE
     [raise_if (kind \<notin> set check_types) (w @ ''.type'') ''unsupported check'',
      if is_prefix ''file_'' kind \<or> kind \<in> set path_kinds
      then bindE (require_as as_str check ''path'' w) (\<lambda>path.
        raise_if (\<not> is_safe_posix_relative_path (JStr path) w) (w @ ''.path'') ''must be a safe workspace-relative path'')
      else Inr (),
      if kind \<in> set text_kinds then bindE (require_as as_str check ''text'' w) (\<lambda>_. Inr ()) else Inr (),
      if kind \<in> {''debug_tool_input_contains'', ''debug_tool_input_not_contains''}
      then bindE (require_as as_str check ''tool'' w) (\<lambda>tool.
        raise_if (tool = []) (w @ ''.tool'') ''must not be empty'')
      else Inr (),
      if kind = ''contains_any''
      then bindE (require_as as_list check ''texts'' w) (\<lambda>texts.
        raise_if (texts = [] \<or> \<not> list_all nonempty_str texts) (w @ ''.texts'') ''expected non-empty string list'')
      else Inr (),
      if kind = ''min_lines''
      then bindE (require_as as_int check ''minimum'' w) (\<lambda>minimum.
        raise_if (minimum < 0) (w @ ''.minimum'') ''must be >= 0'')
      else Inr (),
      if kind = ''validator''
      then bindE (require_as as_str check ''validator'' w) (\<lambda>validator.
        seqE
         [raise_if (\<not> validator_path_ok validator) (w @ ''.validator'') ''must be a safe path below evals/validators'',
          raise_if (\<not> int_between 1 120 (get_default check ''timeout_seconds'' (JInt 30)))
            (w @ ''.timeout_seconds'') ''expected integer in [1, 120]''])
      else Inr ()])"

section \<open>The treatment activation receipt\<close>

definition activation_execution :: "json \<Rightarrow> string \<Rightarrow> unit result" where
  "activation_execution v w =
    (case v of
       JObj r \<Rightarrow> seqE
        [raise_if (set (keys r) \<noteq> {''run_id'', ''suite_id'', ''task_id'', ''trial'', ''harness_config_id''})
           (w @ ''.execution'') ''expected exactly its fields'',
         forE (\<lambda>k. raise_if (\<not> nonempty_str (field r k)) (w @ ''.execution.'' @ k) ''expected non-empty string'')
           [''run_id'', ''suite_id'', ''task_id'', ''harness_config_id''],
         raise_if (case int_value (field r ''trial'') of Some i \<Rightarrow> i < 0 | None \<Rightarrow> True)
           (w @ ''.execution.trial'') ''expected integer >= 0'']
     | _ \<Rightarrow> fail (w @ ''.execution'') ''expected exactly its fields'')"

definition activation_artifacts :: "json \<Rightarrow> string \<Rightarrow> unit result" where
  "activation_artifacts v w =
    (case v of
       JObj r \<Rightarrow> seqE
        [raise_if (set (keys r) \<noteq> {''events_sha256'', ''transcript_sha256'', ''tinykg_binary_sha256''})
           (w @ ''.artifacts'') ''expected exactly its fields'',
         forE (\<lambda>k. raise_if (\<not> hex_json 64 (field r k)) (w @ ''.artifacts.'' @ k) ''invalid SHA-256'')
           [''events_sha256'', ''transcript_sha256'', ''tinykg_binary_sha256'']]
     | _ \<Rightarrow> fail (w @ ''.artifacts'') ''expected exactly its fields'')"

text \<open>One turn of the loop over the trace; the state is the phases so far and the last finish.\<close>

definition activation_event :: "string \<Rightarrow> nat \<times> json \<Rightarrow> json list \<times> int \<Rightarrow> (json list \<times> int) result" where
  "activation_event w ev s =
    (let wi = w @ ''.trace['' @ nat_str (fst ev) @ '']''
     in case snd ev of
       JObj e \<Rightarrow>
         bindE (seqE
          [raise_if (set (keys e) \<noteq> {''phase'', ''tool_use_id'', ''started_sequence'', ''finished_sequence'',
             ''input_sha256'', ''result_sha256''}) wi ''invalid lifecycle event schema'',
           raise_if (\<not> nonempty_str (field e ''tool_use_id'')) (wi @ ''.tool_use_id'') ''expected non-empty string'']) (\<lambda>_.
         case (int_value (field e ''started_sequence''), int_value (field e ''finished_sequence'')) of
           (Some started, Some finished) \<Rightarrow>
             if started \<le> snd s \<or> finished \<le> started then fail wi ''lifecycle sequences are not ordered''
             else bindE (forE (\<lambda>k. raise_if (\<not> hex_json 64 (field e k)) (wi @ ''.'' @ k) ''invalid SHA-256'')
                    [''input_sha256'', ''result_sha256'']) (\<lambda>_.
                  Inr (fst s @ [field e ''phase''], finished))
         | _ \<Rightarrow> fail wi ''lifecycle sequences are not ordered'')
     | _ \<Rightarrow> fail wi ''invalid lifecycle event schema'')"

definition completed_task :: "json \<Rightarrow> bool" where
  "completed_task v =
    (case v of
       JObj t \<Rightarrow> set (keys t) = {''id'', ''kind'', ''status''} \<and>
         (case int_value (field t ''id'') of Some i \<Rightarrow> 0 < i | None \<Rightarrow> False) \<and>
         field t ''kind'' = JStr ''task'' \<and> field t ''status'' = JStr ''completed''
     | _ \<Rightarrow> False)"

definition node_id_set :: "json \<Rightarrow> bool" where
  \<comment> \<open>a non-empty list of positive integers that is its own \<open>sorted(set(...))\<close>\<close>
  "node_id_set v =
    (case v of
       JArr ids \<Rightarrow> ids \<noteq> [] \<and>
         list_all (\<lambda>x. case int_value x of Some i \<Rightarrow> 0 < i | None \<Rightarrow> False) ids \<and>
         (let ns = map (\<lambda>x. case int_value x of Some i \<Rightarrow> i | None \<Rightarrow> 0) ids in ns = sort (remdups ns))
     | _ \<Rightarrow> False)"

definition activation_store :: "json_object \<Rightarrow> string \<Rightarrow> unit result" where
  "activation_store store w = seqE
    [raise_if (set (keys store) \<noteq> {''present'', ''relative_path'', ''manifest_sha256'', ''packet_schema'',
        ''packet_sha256'', ''verification_node_ids''} \<or> field store ''present'' \<noteq> JBool True)
       (w @ ''.store'') ''invalid persistent store receipt'',
     raise_if (field store ''relative_path'' \<noteq> JStr ''.home/.metacodes/kg/store.kg'')
       (w @ ''.store.relative_path'') ''unexpected path'',
     raise_if (field store ''packet_schema'' \<noteq> JStr ''tinykg-agent-retrieval-v1'')
       (w @ ''.store.packet_schema'') ''unsupported schema'',
     forE (\<lambda>k. raise_if (\<not> hex_json 64 (field store k)) (w @ ''.store.'' @ k) ''invalid SHA-256'')
       [''manifest_sha256'', ''packet_sha256''],
     raise_if (\<not> node_id_set (field store ''verification_node_ids''))
       (w @ ''.store.verification_node_ids'') ''invalid node id set'']"

definition activation_tinykg :: "json_object \<Rightarrow> json list \<Rightarrow> json_object \<Rightarrow> string \<Rightarrow> unit result" where
  "activation_tinykg r trace store w =
    bindE (seqE
     [raise_if (field r ''expectation'' \<noteq> JStr ''persistent_task_lifecycle'')
        (w @ ''.expectation'') ''TinyKG arm requires persistent task lifecycle'',
      raise_if (\<not> completed_task (field r ''task'')) (w @ ''.task'') ''invalid completed task identity'',
      raise_if (length trace \<noteq> 3) (w @ ''.trace'') ''expected three lifecycle events'']) (\<lambda>_.
    bindE (foldE (activation_event w) (enumerate 0 trace) ([], - 1)) (\<lambda>(phases, _).
    seqE
     [raise_if (phases \<noteq> [JStr ''created'', JStr ''claimed'', JStr ''completed''])
        (w @ ''.trace'') ''expected created, claimed, completed'',
      activation_store store w]))"

definition activation_baseline :: "json_object \<Rightarrow> json list \<Rightarrow> json_object \<Rightarrow> string \<Rightarrow> unit result" where
  "activation_baseline r trace store w = seqE
    [raise_if (field r ''expectation'' \<noteq> JStr ''persistent_tinykg_lifecycle_absent'')
       (w @ ''.expectation'') ''baseline arm must prove treatment absence'',
     raise_if (trace \<noteq> [] \<or> field r ''task'' \<noteq> JNull \<or>
         \<not> py_eq (JObj store) (JObj [(''present'', JBool False)]))
       w ''baseline arm contains persistent treatment evidence'']"

definition receipt_keys :: "string set" where
  "receipt_keys = {''schema_version'', ''contract'', ''arm_id'', ''expectation'', ''status'', ''execution'',
     ''artifacts'', ''trace'', ''task'', ''store''}"

definition validate_activation :: "json \<Rightarrow> string \<Rightarrow> string option \<Rightarrow> unit result" where
  "validate_activation v w expected_arm =
    (case v of
       JObj r \<Rightarrow>
         bindE (seqE
          [raise_if (set (keys r) \<noteq> receipt_keys) w ''expected exactly its fields'',
           raise_if (\<not> py_eq (field r ''schema_version'') (JInt 1)) (w @ ''.schema_version'') ''expected 1'',
           raise_if (field r ''contract'' \<noteq> JStr ''metacodes-treatment-activation-v1'')
             (w @ ''.contract'') ''unsupported contract'',
           require_one_of (field r ''arm_id'') [''codex_style'', ''claude_style'', ''tinykg''] (w @ ''.arm_id'') ''unknown arm'',
           raise_if (case expected_arm of None \<Rightarrow> False | Some a \<Rightarrow> field r ''arm_id'' \<noteq> JStr a)
             (w @ ''.arm_id'') ''expected another arm'',
           raise_if (field r ''status'' \<noteq> JStr ''verified'') (w @ ''.status'') ''expected verified'',
           activation_execution (field r ''execution'') w,
           activation_artifacts (field r ''artifacts'') w]) (\<lambda>_.
         case (field r ''trace'', field r ''store'') of
           (JArr trace, JObj store) \<Rightarrow>
             if field r ''arm_id'' = JStr ''tinykg'' then activation_tinykg r trace store w
             else activation_baseline r trace store w
         | (JArr trace, _) \<Rightarrow> fail (w @ ''.store'') ''expected object''
         | _ \<Rightarrow> fail (w @ ''.trace'') ''expected array'')
     | _ \<Rightarrow> fail w ''expected object'')"

section \<open>Metrics\<close>

function finite_numbers :: "json \<Rightarrow> string \<Rightarrow> unit result" where
  "finite_numbers (JFloat f) w =
     raise_if (\<not> finite_double (float_of (JFloat f))) w ''non-finite numbers are not valid evaluation data''"
| "finite_numbers (JObj kvs) w = forE (\<lambda>kv. finite_numbers (snd kv) (w @ ''.'' @ fst kv)) kvs"
| "finite_numbers (JArr vs) w =
     forE (\<lambda>iv. finite_numbers (snd iv) (w @ ''['' @ nat_str (fst iv) @ '']'')) (enumerate 0 vs)"
| "finite_numbers JNull w = Inr ()"
| "finite_numbers (JBool b) w = Inr ()"
| "finite_numbers (JInt i) w = Inr ()"
| "finite_numbers (JStr s) w = Inr ()"
  by pat_completeness auto

lemma size_enumerate_member: "iv \<in> set (enumerate n vs) \<Longrightarrow> size (snd iv) < Suc (size_list size vs)"
proof -
  assume "iv \<in> set (enumerate n vs)"
  then have "snd iv \<in> set vs" by (metis imageI list.set_map map_snd_enumerate)
  then show ?thesis by (simp add: size_list_estimation' le_imp_less_Suc)
qed

termination finite_numbers
proof (relation "measure (\<lambda>(v, w). size v)", goal_cases)
  case (2 kvs w kv)
  then show ?case using size_snd_member [of kv kvs] by simp
next
  case (3 vs w iv)
  then show ?case using size_enumerate_member [of iv 0 vs] by simp
qed simp

definition validate_metric :: "json_object \<Rightarrow> string \<Rightarrow> bool \<Rightarrow> unit result" where
  "validate_metric metrics k integer =
    (let v = field metrics k
     in if v = JNull then Inr ()
        else if integer
        then raise_if (case int_value v of Some i \<Rightarrow> i < 0 | None \<Rightarrow> True)
               (''metrics.'' @ k) ''expected integer >= 0 or null''
        else require_number v (\<lambda>x. \<not> is_negative x) (''metrics.'' @ k) ''expected finite number >= 0 or null'')"

definition integer_metrics :: "string list" where
  "integer_metrics = [''input_tokens'', ''output_tokens'', ''cache_read_tokens'', ''cache_write_tokens'',
     ''model_request_count'', ''compact_request_count'', ''tool_calls'', ''tool_successes'',
     ''model_tool_errors'', ''harness_tool_errors'', ''harness_errors'', ''network_errors'',
     ''permission_denials'', ''policy_violations'', ''policy_decisions'', ''retries'', ''turns'']"

definition number_metrics :: "string list" where
  "number_metrics = [''cost_usd'', ''wall_time_ms'', ''model_header_latency_ms'', ''model_request_time_ms'',
     ''compact_request_time_ms'', ''tool_time_ms'', ''tool_stage_time_ms'', ''tool_parallelism_factor'',
     ''harness_time_ms'']"

section \<open>The rollout\<close>

definition status_of :: "json_object \<Rightarrow> json" where
  "status_of r = field r ''status''"

definition judgement_follows :: "string \<Rightarrow> json \<Rightarrow> json \<Rightarrow> json \<Rightarrow> json \<Rightarrow> bool \<Rightarrow> bool \<Rightarrow> unit result" where
  \<comment> \<open>the judgement against the statuses of execution, outcome, trajectory and evaluator\<close>
  "judgement_follows w execution outcome trajectory evaluator valid trustworthy =
    (let expected_valid = (execution = JStr ''completed'' \<and> evaluator = JStr ''ready'');
         expected_trustworthy = (expected_valid \<and> outcome = JStr ''pass'' \<and> trajectory = JStr ''pass'')
     in seqE
        [raise_if (valid \<noteq> expected_valid) (w @ ''.judgement.valid_for_scoring'') ''inconsistent with execution/evaluator'',
         raise_if (trustworthy \<noteq> expected_trustworthy) (w @ ''.judgement.trustworthy_success'') ''inconsistent with component statuses'',
         raise_if (evaluator = JStr ''invalid'' \<and> outcome \<noteq> JStr ''unscored'')
           (w @ ''.outcome.status'') ''invalid evaluator requires unscored outcome''])"

definition validate_statuses :: "json_object \<Rightarrow> string \<Rightarrow> unit result" where
  \<comment> \<open>the statuses of the parts, and the judgement that must follow from them\<close>
  "validate_statuses d w =
    bindE (require_as as_object d ''execution'' w) (\<lambda>execution.
    bindE (require_one_of (status_of execution) [''completed'', ''invalid''] (w @ ''.execution.status'') ''expected completed|invalid'') (\<lambda>_.
    bindE (require_as as_object d ''outcome'' w) (\<lambda>outcome.
    bindE (require_one_of (status_of outcome) [''pass'', ''fail'', ''unscored''] (w @ ''.outcome.status'') ''expected pass|fail|unscored'') (\<lambda>_.
    bindE (require_as as_object d ''trajectory'' w) (\<lambda>trajectory.
    bindE (require_one_of (status_of trajectory) [''pass'', ''fail'', ''unscored''] (w @ ''.trajectory.status'') ''expected pass|fail|unscored'') (\<lambda>_.
    bindE (require_as as_object d ''evaluator'' w) (\<lambda>evaluator.
    bindE (require_one_of (status_of evaluator) [''ready'', ''invalid''] (w @ ''.evaluator.status'') ''expected ready|invalid'') (\<lambda>_.
    bindE (require_as as_str evaluator ''fingerprint'' (w @ ''.evaluator'')) (\<lambda>_.
    bindE (require_as as_object d ''readiness'' w) (\<lambda>readiness.
    bindE (require_one_of (status_of readiness) [''pass'', ''fail''] (w @ ''.readiness.status'') ''expected pass|fail'') (\<lambda>_.
    bindE (require_as as_object d ''judgement'' w) (\<lambda>judgement.
    bindE (require_as as_bool judgement ''valid_for_scoring'' (w @ ''.judgement'')) (\<lambda>valid.
    bindE (require_as as_bool judgement ''trustworthy_success'' (w @ ''.judgement'')) (\<lambda>trustworthy.
    judgement_follows w (status_of execution) (status_of outcome) (status_of trajectory) (status_of evaluator)
      valid trustworthy))))))))))))))"

definition validate_runtime_budget :: "json \<Rightarrow> string \<Rightarrow> unit result" where
  "validate_runtime_budget v w =
    (case v of
       JNull \<Rightarrow> Inr ()
     | JObj b \<Rightarrow> seqE
        [raise_if (set (keys b) \<noteq> {''max_metered_tokens'', ''max_cost_usd''}) w ''expected exactly its fields'',
         raise_if (case int_value (field b ''max_metered_tokens'') of Some i \<Rightarrow> i \<le> 0 | None \<Rightarrow> True)
           (w @ ''.max_metered_tokens'') ''expected integer > 0'',
         require_number (field b ''max_cost_usd'') is_positive (w @ ''.max_cost_usd'') ''expected finite number > 0'']
     | _ \<Rightarrow> fail w ''expected object or null'')"

definition attribution_sources :: "string list" where
  "attribution_sources = [''E'', ''T'', ''C'', ''L'', ''O'', ''V'', ''G'', ''model'', ''benchmark'', ''grader'', ''unattributed'']"

definition validate_attribution :: "string \<Rightarrow> nat \<times> json \<Rightarrow> unit result" where
  "validate_attribution w iv =
    (let wi = w @ ''.attribution['' @ nat_str (fst iv) @ '']''
     in case snd iv of
       JObj item \<Rightarrow>
         bindE (require_as as_str item ''source'' wi) (\<lambda>source.
         seqE
          [raise_if (source \<notin> set attribution_sources) (wi @ ''.source'') ''unknown'',
           raise_if (case int_value (get_default item ''count'' (JInt 1)) of Some i \<Rightarrow> i < 0 | None \<Rightarrow> True)
             (wi @ ''.count'') ''expected integer >= 0'',
           if field item ''confidence'' = JNull then Inr ()
           else require_number (field item ''confidence'') (\<lambda>x. \<not> is_negative x \<and> \<not> above_one x)
             (wi @ ''.confidence'') ''expected finite number in [0, 1]''])
     | _ \<Rightarrow> fail wi ''expected object'')"

definition validate_identity :: "json_object \<Rightarrow> string \<Rightarrow> unit result" where
  \<comment> \<open>the fields before the statuses\<close>
  "validate_identity d w =
    bindE (raise_if (\<not> py_eq (field d ''schema_version'') (JInt 1)) (w @ ''.schema_version'') ''expected 1'') (\<lambda>_.
    bindE (forE (\<lambda>k. bindE (require_as as_str d k w) (\<lambda>_. Inr ())) [''run_id'', ''suite_id'', ''task_id'']) (\<lambda>_.
    bindE (require_as as_str d ''task_fingerprint'' w) (\<lambda>fp.
    bindE (raise_if (fp = []) (w @ ''.task_fingerprint'') ''must not be empty'') (\<lambda>_.
    bindE (require_as as_str d ''task_fingerprint_provenance'' w) (\<lambda>provenance.
    bindE (raise_if (provenance \<notin> {''recorded_at_execution'', ''runner_frozen_before_execution'', ''inferred_from_current_suite''})
      (w @ ''.task_fingerprint_provenance'') ''unsupported provenance'') (\<lambda>_.
    bindE (require_as as_int d ''trial'' w) (\<lambda>trial.
    raise_if (is_bool (field d ''trial'') \<or> trial < 0) (w @ ''.trial'') ''must be >= 0'')))))))"

definition validate_origin :: "json_object \<Rightarrow> string \<Rightarrow> unit result" where
  \<comment> \<open>model, harness and the budget the harness ran under\<close>
  "validate_origin d w =
    bindE (require_as as_object d ''model'' w) (\<lambda>model.
    bindE (require_as as_object d ''harness'' w) (\<lambda>harness.
    bindE (forE (\<lambda>k. bindE (require_as as_str model k (w @ ''.model'')) (\<lambda>_. Inr ())) [''provider'', ''id'']) (\<lambda>_.
    bindE (forE (\<lambda>k. bindE (require_as as_str harness k (w @ ''.harness'')) (\<lambda>_. Inr ())) [''config_id'', ''revision'']) (\<lambda>_.
    validate_runtime_budget (field harness ''runtime_budget'') (w @ ''.harness.runtime_budget'')))))"

definition validate_rollout :: "json_object \<Rightarrow> string \<Rightarrow> unit result" where
  "validate_rollout d w =
    bindE (validate_identity d w) (\<lambda>_.
    bindE (validate_statuses d w) (\<lambda>_.
    bindE (require_as as_object d ''metrics'' w) (\<lambda>metrics.
    bindE (finite_numbers (JObj metrics) (w @ ''.metrics'')) (\<lambda>_.
    bindE (forE (\<lambda>k. validate_metric metrics k True) integer_metrics) (\<lambda>_.
    bindE (forE (\<lambda>k. validate_metric metrics k False) number_metrics) (\<lambda>_.
    bindE (validate_origin d w) (\<lambda>_.
    bindE (require_as as_list d ''attribution'' w) (\<lambda>attribution.
    bindE (forE (validate_attribution w) (enumerate 0 attribution)) (\<lambda>_.
    case map_of d ''treatment_activation'' of
      None \<Rightarrow> Inr ()
    | Some v \<Rightarrow> validate_activation v (w @ ''.treatment_activation'') None)))))))))"

end
