(* ===== verification/Json_Floats.thy ===== *)
theory Json_Floats
  imports Json_Text
begin

text \<open>
  The floats of a JSON text. A float is the decimal its \<open>repr\<close> shows, without a trailing zero;
  what \<open>float.__repr__\<close> writes (plain, with a point inside, with leading zeros, or with an exponent)
  is read back as that float.
\<close>

fun normal_float :: "pyfloat \<Rightarrow> bool" where
  \<comment> \<open>a finite float, its decimal in normal form\<close>
  "normal_float (FDec m e) \<longleftrightarrow> m = 0 \<and> e = 0 \<or> m mod 10 \<noteq> 0"
| "normal_float FNegZero \<longleftrightarrow> True"
| "normal_float _ \<longleftrightarrow> False"

section \<open>Digits\<close>

lemma nat_of_digits_append: "nat_of_digits (a @ b) = nat_of_digits a * 10 ^ length b + nat_of_digits b"
proof (induction b rule: rev_induct)
  case Nil
  show ?case by (simp add: nat_of_digits_def)
next
  case (snoc c b)
  then have "nat_of_digits ((a @ b) @ [c]) = nat_of_digits a * 10 ^ length (b @ [c]) + nat_of_digits (b @ [c])"
    unfolding nat_of_digits_snoc by simp
  then show ?case by simp
qed

lemma digit_of_zero: "digit_of CHR ''0'' = 0"
  by (simp add: digit_of_def char_code_CHR)

lemma nat_of_digits_zeros [simp]: "nat_of_digits (replicate n CHR ''0'') = 0"
  by (induction n) (simp_all add: nat_of_digits_def digit_of_zero)

lemma nat_of_digits_zero_Cons: "nat_of_digits (CHR ''0'' # ds) = nat_of_digits ds"
  using nat_of_digits_append [of "''0''" ds] nat_of_digits_zeros [of 1] by simp

lemma strip_zeros_scaled:
  assumes "m mod 10 \<noteq> 0"
  shows "strip_zeros (m * 10 ^ j) (e - int j) = (m, e)"
proof (induction j arbitrary: e)
  case 0
  show ?case using assms by (subst strip_zeros.simps) auto
next
  case (Suc j)
  have "m * 10 ^ Suc j \<noteq> 0" "m * 10 ^ Suc j mod 10 = 0" "m * 10 ^ Suc j div 10 = m * 10 ^ j"
    using assms by auto
  then have "strip_zeros (m * 10 ^ Suc j) (e - int (Suc j)) = strip_zeros (m * 10 ^ j) (e - int (Suc j) + 1)"
    by (subst strip_zeros.simps) simp
  also have "e - int (Suc j) + 1 = e - int j" by simp
  finally show ?case using Suc by simp
qed

abbreviation signed_dec :: "bool \<Rightarrow> nat \<Rightarrow> int \<Rightarrow> pyfloat" where
  "signed_dec neg k e \<equiv> FDec (if neg then - int k else int k) e"

lemma literal_float_scaled:
  assumes "k mod 10 \<noteq> 0" and "nat_of_digits (ip @ fp) = k * 10 ^ j" and "x - int (length fp) = e - int j"
  shows "literal_float neg ip fp x = signed_dec neg k e"
proof -
  have "int k mod 10 \<noteq> 0" using assms(1) by (metis of_nat_eq_0_iff of_nat_mod of_nat_numeral)
  then have m: "int k mod 10 \<noteq> 0" "- int k mod 10 \<noteq> 0" by presburger+
  have "k * 10 ^ j \<noteq> 0" using assms(1) by (cases "k = 0") simp_all
  moreover have "int (k * 10 ^ j) = int k * 10 ^ j" "- int (k * 10 ^ j) = - int k * 10 ^ j" by simp_all
  ultimately show ?thesis
    unfolding literal_float_def assms(2,3) Let_def
    by (simp only: strip_zeros_scaled [OF m(1)] strip_zeros_scaled [OF m(2)] if_False if_True split: if_split) simp
qed

section \<open>Reading the parts\<close>

lemma take_digits: "\<forall>c \<in> set ds. is_digit c \<Longrightarrow> r = [] \<or> \<not> is_digit (hd r) \<Longrightarrow>
  takeWhile is_digit (ds @ r) = ds \<and> dropWhile is_digit (ds @ r) = r"
  by (cases r) (auto simp: takeWhile_append2 takeWhile_eq_all_conv dropWhile_append2 dropWhile_eq_Nil_conv)

lemma p_fraction_digits:
  "\<forall>c \<in> set ds. is_digit c \<Longrightarrow> ds \<noteq> [] \<Longrightarrow> r = [] \<or> \<not> is_digit (hd r) \<Longrightarrow> p_fraction (CHR ''.'' # ds @ r) = Some (ds, r)"
  using take_digits [of ds r] by (auto simp: p_fraction_def)

lemma is_digit_zero: "is_digit CHR ''0''"
  by (simp add: is_digit_def char_code_CHR)

lemma digit_char_neq: "is_digit c \<Longrightarrow> c \<noteq> CHR ''-'' \<and> c \<noteq> CHR ''+'' \<and> c \<noteq> CHR ''.'' \<and> c \<noteq> CHR ''e''"
  unfolding char_code_inject [symmetric] by (auto simp: is_digit_def char_code_def)

lemma p_exponent_str:
  assumes "number_stop r"
  shows "p_exponent (CHR ''e'' # exponent_str x @ r) = Some (x, r)"
proof -
  let ?ds = "nat_str (nat \<bar>x\<bar>)"
  let ?p = "if length ?ds < 2 then CHR ''0'' # ?ds else ?ds"
  have d: "\<forall>c \<in> set ?p. is_digit c" using nat_str_digits [of "nat \<bar>x\<bar>"] is_digit_zero by auto
  have stop: "r = [] \<or> \<not> is_digit (hd r)" using assms by (auto simp: number_stop_def)
  have v: "int (nat_of_digits ?p) = \<bar>x\<bar>" by (simp add: nat_of_digits_zero_Cons)
  have e: "exponent_str x = (if x < 0 then ''-'' else ''+'') @ ?p" by (simp add: exponent_str_def Let_def)
  have ne: "?p \<noteq> []" by simp
  note t = take_digits [OF d stop]
  show ?thesis
    unfolding e p_exponent_def using t v ne by (cases "x < 0") (simp_all add: Let_def del: if_split_asm)
qed

lemma exponent_stop: "\<not> is_digit (hd (CHR ''e'' # s))" "p_fraction (CHR ''e'' # s) = None"
  by (simp_all add: p_fraction_def is_digit_def char_code_CHR)

lemma number_stop_hd: "number_stop r \<Longrightarrow> r = [] \<or> \<not> is_digit (hd r)"
  by (auto simp: number_stop_def)

text \<open>A number whose integer digits do not start with a zero, or are a single zero.\<close>

lemma p_unsigned_digits:
  assumes "\<forall>c \<in> set ip. is_digit c" and "ip \<noteq> []" and "hd ip \<noteq> CHR ''0'' \<or> ip = ''0''"
    and "r = [] \<or> \<not> is_digit (hd r)"
  shows "p_unsigned neg (ip @ r) =
    (case p_fraction r of
       Some (fp, r1) \<Rightarrow>
         (case p_exponent r1 of
            Some (x, r2) \<Rightarrow> Some (JFloat (literal_float neg ip fp x), r2)
          | None \<Rightarrow> Some (JFloat (literal_float neg ip fp 0), r1))
     | None \<Rightarrow>
         (case p_exponent r of
            Some (x, r2) \<Rightarrow> Some (JFloat (literal_float neg ip [] x), r2)
          | None \<Rightarrow> Some (JInt (if neg then - int (nat_of_digits ip) else int (nat_of_digits ip)), r)))"
proof -
  obtain c cs where ip: "ip = c # cs" using assms(2) by (cases ip) auto
  have c: "is_digit c" using assms(1) ip by simp
  show ?thesis
  proof (cases "c = CHR ''0''")
    case True
    then have z: "ip = ''0''" using assms(3) ip by simp
    show ?thesis unfolding z p_unsigned_def by (simp add: Let_def is_digit_zero)
  next
    case False
    have "takeWhile is_digit (c # cs @ r) = c # cs" "dropWhile is_digit (c # cs @ r) = r"
      using take_digits [OF assms(1,4)] ip by simp_all
    then show ?thesis using False c unfolding ip by (simp add: p_unsigned_def Let_def del: takeWhile.simps dropWhile.simps)
  qed
qed

section \<open>Reading a printed float\<close>

lemma p_unsigned_repr:
  assumes k: "k mod 10 \<noteq> 0" and stop: "number_stop r"
  shows "p_unsigned neg (digits_repr (nat_str k) e @ r) = Some (JFloat (signed_dec neg k e), r)"
proof -
  let ?ds = "nat_str k"
  let ?n = "int (length ?ds)"
  let ?p = "?n + e"
  have dig: "\<forall>c \<in> set ?ds. is_digit c" by (rule nat_str_digits)
  have hd: "hd ?ds \<noteq> CHR ''0''" using k by (intro nat_str_hd) (cases k, simp_all)
  have z: "\<forall>c \<in> set (replicate i CHR ''0''). is_digit c" for i using is_digit_zero by auto
  note ends = number_stop_hd [OF stop] p_exponent_stop [OF stop] p_fraction_stop [OF stop]
  have dot: "\<not> is_digit CHR ''.''" by (simp add: is_digit_def char_code_CHR)
  consider "- 4 < ?p" "?p \<le> 0" | "?p \<le> 16" "?n \<le> ?p" | "0 < ?p" "?p < ?n" "?p \<le> 16" | "\<not> (- 4 < ?p \<and> ?p \<le> 16)"
    by linarith
  then show ?thesis
  proof cases
    case 1
    let ?fp = "replicate (nat (- ?p)) CHR ''0'' @ ?ds"
    have t: "digits_repr ?ds e = ''0'' @ CHR ''.'' # ?fp" using 1 by (simp add: digits_repr_def Let_def)
    have f: "p_fraction (CHR ''.'' # ?fp @ r) = Some (?fp, r)"
      using dig is_digit_zero ends(1) by (intro p_fraction_digits) auto
    have "literal_float neg ''0'' ?fp 0 = signed_dec neg k e"
      using 1 by (intro literal_float_scaled [OF k, of _ _ 0]) (simp_all add: nat_of_digits_zero_Cons nat_of_digits_append)
    then show ?thesis
      using p_unsigned_digits [of "''0''" "CHR ''.'' # ?fp @ r" neg] f ends(2) is_digit_zero dot unfolding t by simp
  next
    case 2
    let ?ip = "?ds @ replicate (nat e) CHR ''0''"
    have t: "digits_repr ?ds e = ?ip @ CHR ''.'' # ''0''"
      using 2 by (cases "?ds") (auto simp: digits_repr_def Let_def simp del: nat_str_inject)
    have f: "p_fraction (CHR ''.'' # ''0'' @ r) = Some (''0'', r)"
      using is_digit_zero ends(1) by (intro p_fraction_digits) auto
    have "literal_float neg ?ip ''0'' 0 = signed_dec neg k e"
      using 2 nat_of_digits_zeros [of 1]
      by (intro literal_float_scaled [OF k, of _ _ "Suc (nat e)"]) (simp_all add: nat_of_digits_append)
    moreover have "\<forall>c \<in> set ?ip. is_digit c" using dig z by (simp only: set_append) blast
    moreover have "?ip \<noteq> []" "hd ?ip \<noteq> CHR ''0''" using hd by simp_all
    ultimately have "p_unsigned neg (?ip @ CHR ''.'' # ''0'' @ r) = Some (JFloat (signed_dec neg k e), r)"
      using p_unsigned_digits [of ?ip "CHR ''.'' # ''0'' @ r" neg] f ends(2) dot by simp
    then show ?thesis unfolding t by simp
  next
    case 3
    let ?i = "take (nat ?p) ?ds" and ?f = "drop (nat ?p) ?ds"
    have t: "digits_repr ?ds e = ?i @ CHR ''.'' # ?f" using 3 by (simp add: digits_repr_def Let_def)
    have d: "\<forall>c \<in> set ?i. is_digit c" "\<forall>c \<in> set ?f. is_digit c"
      using dig by (auto dest: in_set_takeD in_set_dropD)
    have ne: "?i \<noteq> []" "?f \<noteq> []" using 3 by auto
    then have h: "hd ?i \<noteq> CHR ''0''" using hd by (simp add: hd_take)
    have f: "p_fraction (CHR ''.'' # ?f @ r) = Some (?f, r)" using d(2) ne(2) ends(1) by (rule p_fraction_digits)
    have "literal_float neg ?i ?f 0 = signed_dec neg k e"
      using 3 by (intro literal_float_scaled [OF k, of _ _ 0]) simp_all
    then show ?thesis
      using p_unsigned_digits [of ?i "CHR ''.'' # ?f @ r" neg] f ends(2) d(1) ne(1) h dot unfolding t by simp
  next
    case 4
    obtain c cs where c: "?ds = c # cs" by (cases ?ds) auto
    have d: "\<forall>x \<in> set [c]. is_digit x" "\<forall>x \<in> set cs. is_digit x" "hd [c] \<noteq> CHR ''0''"
      using dig hd unfolding c by simp_all
    note x = p_exponent_str [OF stop, of "?p - 1"] exponent_stop [of "exponent_str (?p - 1) @ r"]
    have l: "literal_float neg [c] cs (?p - 1) = signed_dec neg k e"
    proof (rule literal_float_scaled [OF k, of _ _ 0])
      show "nat_of_digits ([c] @ cs) = k * 10 ^ 0" using nat_of_digits_nat_str [of k] c by simp
    qed (simp add: c)
    show ?thesis
    proof (cases "cs = []")
      case True
      then have t: "digits_repr ?ds e = [c] @ CHR ''e'' # exponent_str (?p - 1)"
        using 4 c by (auto simp: digits_repr_def Let_def)
      show ?thesis
        using p_unsigned_digits [of "[c]" "CHR ''e'' # exponent_str (?p - 1) @ r" neg] d x l True
        unfolding t by simp
    next
      case False
      then have t: "digits_repr ?ds e = [c] @ CHR ''.'' # cs @ CHR ''e'' # exponent_str (?p - 1)"
        using 4 c by (auto simp: digits_repr_def Let_def)
      have "p_fraction (CHR ''.'' # cs @ CHR ''e'' # exponent_str (?p - 1) @ r) =
          Some (cs, CHR ''e'' # exponent_str (?p - 1) @ r)"
        using d(2) False x(2) by (intro p_fraction_digits) auto
      then show ?thesis
        using p_unsigned_digits [of "[c]" "CHR ''.'' # cs @ CHR ''e'' # exponent_str (?p - 1) @ r" neg] d x l dot
        unfolding t by simp
    qed
  qed
qed

lemma digits_repr_start: "\<exists>c cs. digits_repr (nat_str k) e = c # cs \<and> is_digit c"
proof -
  obtain d ds where d: "nat_str k = d # ds" by (cases "nat_str k") auto
  have "is_digit d" using nat_str_digits [of k] d by simp
  then show ?thesis
    using is_digit_zero by (auto simp: digits_repr_def d Let_def Cons_eq_append_conv take_Cons' split: if_splits)
qed

lemma float_lit_unsigned:
  assumes "q = c # cs" and "is_digit c" and "\<And>r. number_stop r \<Longrightarrow> p_unsigned False (q @ r) = Some (JFloat f, r)"
  shows "float_lit f q"
  using assms p_keyword_number [OF assms(2)] digit_not_punct [OF assms(2)]
  by (auto simp: float_lit_def p_number_def)

lemma float_lit_negative:
  assumes "q = c # cs" and "is_digit c" and "\<And>r. number_stop r \<Longrightarrow> p_unsigned True (q @ r) = Some (JFloat f, r)"
  shows "float_lit f (CHR ''-'' # q)"
  using assms p_keyword_minus [OF assms(2)]
  by (auto simp: float_lit_def p_number_def)

lemma digits_repr_zero: "digits_repr (nat_str 0) 0 = ''0'' @ CHR ''.'' # ''0''"
  by (simp add: digits_repr_def nat_str_0)

lemma p_unsigned_zero:
  assumes "number_stop r"
  shows "p_unsigned neg ((''0'' @ CHR ''.'' # ''0'') @ r) = Some (JFloat (if neg then FNegZero else FDec 0 0), r)"
proof -
  have "p_fraction (CHR ''.'' # ''0'' @ r) = Some (''0'', r)"
    using is_digit_zero number_stop_hd [OF assms] by (intro p_fraction_digits) auto
  moreover have "nat_of_digits ''00'' = 0" using nat_of_digits_zeros [of 2] by (simp add: numeral_eq_Suc)
  moreover have "\<not> is_digit CHR ''.''" by (simp add: is_digit_def char_code_CHR)
  ultimately show ?thesis
    using p_unsigned_digits [of "''0''" "CHR ''.'' # ''0'' @ r" neg] is_digit_zero p_exponent_stop [OF assms]
    by (simp add: literal_float_def)
qed

theorem float_lit_str:
  assumes "normal_float f"
  shows "float_lit f (float_str f)"
proof (cases f)
  case (FDec m e)
  obtain c cs where c: "digits_repr (nat_str (nat \<bar>m\<bar>)) e = c # cs" "is_digit c" using digits_repr_start by blast
  show ?thesis
  proof (cases "m = 0")
    case True
    then show ?thesis
      using assms FDec digits_repr_zero p_unsigned_zero [of _ False] is_digit_zero
      by (auto intro!: float_lit_unsigned)
  next
    case False
    then have "m mod 10 \<noteq> 0" using assms FDec by simp
    then have "\<not> int 10 dvd int (nat \<bar>m\<bar>)" by auto
    then have k: "nat \<bar>m\<bar> mod 10 \<noteq> 0" by (metis int_dvd_int_iff mod_0_imp_dvd)
    show ?thesis
    proof (cases "m < 0")
      case True
      then show ?thesis
        using c p_unsigned_repr [OF k, of _ True e] FDec by (auto intro!: float_lit_negative)
    next
      case False
      then show ?thesis
        using c p_unsigned_repr [OF k, of _ False e] FDec by (auto intro!: float_lit_unsigned)
    qed
  qed
next
  case FNegZero
  have "float_lit FNegZero (CHR ''-'' # ''0'' @ CHR ''.'' # ''0'')"
    using p_unsigned_zero [of _ True] is_digit_zero by (intro float_lit_negative [of _ "CHR ''0''" "''.0''"]) simp_all
  then show ?thesis using FNegZero by simp
qed (use assms in simp_all)

section \<open>Values that are printed and read back\<close>

fun printable :: "json \<Rightarrow> bool" where
  \<comment> \<open>distinct keys at every level, and every float finite\<close>
  "printable (JFloat f) = normal_float f"
| "printable (JArr vs) = (\<forall>v \<in> set vs. printable v)"
| "printable (JObj kvs) = (distinct (keys kvs) \<and> (\<forall>kv \<in> set kvs. printable (snd kv)))"
| "printable _ = True"

lemma printable_canon: "printable v \<Longrightarrow> printable (canon v)"
proof (induction v rule: canon.induct)
  case (2 kvs)
  then show ?case by (auto simp: keys_canon distinct_sort)
qed auto

lemma printable_part: "printable (JObj d) \<Longrightarrow> map_of d k = Some v \<Longrightarrow> printable v"
  by (auto dest: map_of_SomeD)

end
