(* ===== verification/Rollout_File.thy ===== *)
theory Rollout_File
  imports Artifact_Rollout Sha256 Json_Floats
begin

text \<open>
  The rollout file of \<open>scripts/eval/model.py\<close>: the text \<open>write_rollouts\<close> writes (one JSON object
  for each line, keys sorted, default separators) and \<open>parse_rollouts\<close>, which splits a text with
  \<open>str.splitlines\<close>. JSON leaves the Unicode line breaks of strings as they are, so the two agree
  exactly on records free of them.
\<close>

section \<open>The file\<close>

fun dumps_spaced :: "json \<Rightarrow> string" where
  \<comment> \<open>\<open>json.dumps(v, ensure_ascii=False)\<close>\<close>
  "dumps_spaced (JArr vs) = ''['' @ join_with '', '' (map dumps_spaced vs) @ '']''"
| "dumps_spaced (JObj kvs) =
     ''{'' @ join_with '', '' (map (\<lambda>kv. quote (fst kv) @ '': '' @ dumps_spaced (snd kv)) kvs) @ ''}''"
| "dumps_spaced v = dumps v"

definition rollouts_text :: "json_object list \<Rightarrow> string" where
  "rollouts_text rs = concat (map (\<lambda>r. dumps_spaced (canon (JObj r)) @ [newline]) rs)"

definition write_rollouts :: "json_object list \<Rightarrow> string result" where
  \<comment> \<open>what is put in the temporary file that then replaces the target\<close>
  "write_rollouts rs =
    bindE (forE (\<lambda>(i, r). validate_rollout r (''rollouts['' @ nat_str i @ '']'')) (enumerate 0 rs)) (\<lambda>_.
    Inr (rollouts_text rs))"

definition parse_line :: "string \<Rightarrow> nat \<times> string \<Rightarrow> json_object list \<Rightarrow> json_object list result" where
  "parse_line w l acc =
    (let wl = w @ '':'' @ nat_str (fst l)
     in if blank (snd l) then Inr acc
        else case loads dict_hook (snd l) of
          Inl _ \<Rightarrow> fail wl ''invalid JSON''
        | Inr (JObj r) \<Rightarrow> bindE (validate_rollout r wl) (\<lambda>_. Inr (acc @ [r]))
        | Inr _ \<Rightarrow> fail wl ''expected object'')"

definition parse_rollouts :: "string \<Rightarrow> string \<Rightarrow> json_object list result" where
  "parse_rollouts text w =
    bindE (foldE (parse_line w) (enumerate 1 (split_lines [] text)) []) (\<lambda>rs.
    if rs = [] then fail w ''no rollouts'' else Inr rs)"

section \<open>The written text is JSON\<close>

lemma dumps_spaced_text: "printable v \<Longrightarrow> json_text v (dumps_spaced v)"
proof (induction v rule: dumps_spaced.induct)
  case (1 vs)
  have w: "white '' ''" by (simp add: white_def is_ws_def)
  show ?case
    using 1 text_arr [of "[]" vs "join_with '', '' (map dumps_spaced vs)"] text_arr_empty [of "[]"]
      elems_text_join [OF _ w, of vs dumps_spaced]
    by (cases "vs = []") simp_all
next
  case (2 kvs)
  have w: "white '' ''" by (simp add: white_def is_ws_def)
  show ?case
  proof (cases "kvs = []")
    case True
    then show ?thesis using text_obj_empty [of "[]"] by simp
  next
    case False
    then have "members_text kvs (join_with '', '' (map (\<lambda>kv. quote (fst kv) @ '': '' @ dumps_spaced (snd kv)) kvs))"
      using 2 members_text_join [OF _ w w, of kvs dumps_spaced] by simp
    then show ?thesis using text_obj [OF white_Nil] 2 by simp
  qed
qed (auto intro: text_null text_true text_false text_int text_str text_float float_lit_str)

lemma written_line_loads: "printable v \<Longrightarrow> loads dict_hook (dumps_spaced (canon v)) = Inr (canon v)"
  using loads_text [OF accepts_dict_hook dumps_spaced_text [OF printable_canon] white_Nil white_Nil, of v] by simp

section \<open>Line breaks\<close>

text \<open>
  A scan that knows how much of a Unicode line break it has just read: the next state, whether
  a byte completes a break, and whether a byte is a break of its own.
\<close>

definition break_next :: "nat \<Rightarrow> char \<Rightarrow> nat" where
  "break_next q c =
    (if char_code c = 0xC2 then 1 else if char_code c = 0xE2 then 2
     else if q = 2 \<and> char_code c = 0x80 then 3 else 0)"

definition break_last :: "nat \<Rightarrow> char \<Rightarrow> bool" where
  "break_last q c \<longleftrightarrow> q = 1 \<and> char_code c = 0x85 \<or> q = 3 \<and> (char_code c = 0xA8 \<or> char_code c = 0xA9)"

definition break_char :: "char \<Rightarrow> bool" where
  "break_char c \<longleftrightarrow> 10 \<le> char_code c \<and> char_code c \<le> 13 \<or> 28 \<le> char_code c \<and> char_code c \<le> 30"

fun uni_clean :: "nat \<Rightarrow> string \<Rightarrow> bool" where
  "uni_clean q [] = True"
| "uni_clean q (c # s) \<longleftrightarrow> \<not> break_last q c \<and> uni_clean (break_next q c) s"

abbreviation scan :: "nat \<Rightarrow> string \<Rightarrow> nat" where
  "scan q s \<equiv> fold (\<lambda>c q. break_next q c) s q"

lemma uni_clean_append: "uni_clean q (s @ t) \<longleftrightarrow> uni_clean q s \<and> uni_clean (scan q s) t"
  by (induction s arbitrary: q) auto

definition one_line :: "string \<Rightarrow> bool" where
  "one_line s \<longleftrightarrow> uni_clean 0 s \<and> (\<forall>c \<in> set s. \<not> break_char c)"

definition ascii :: "string \<Rightarrow> bool" where
  "ascii s \<longleftrightarrow> (\<forall>c \<in> set s. 32 \<le> char_code c \<and> char_code c < 128)"

lemma ascii_clean:
  assumes "ascii s" and "s \<noteq> []"
  shows "uni_clean q s" and "scan q s = 0" and "\<forall>c \<in> set s. \<not> break_char c"
proof -
  have "uni_clean q s \<and> (q = 0 \<or> s \<noteq> [] \<longrightarrow> scan q s = 0)"
    using assms(1) by (induction s arbitrary: q) (auto simp: ascii_def break_last_def break_next_def)
  then show "uni_clean q s" and "scan q s = 0" using assms(2) by auto
  show "\<forall>c \<in> set s. \<not> break_char c" using assms(1) by (auto simp: ascii_def break_char_def)
qed

text \<open>Pieces that start and end outside any character can be put together.\<close>

definition piece :: "string \<Rightarrow> bool" where
  "piece s \<longleftrightarrow> uni_clean 0 s \<and> scan 0 s = 0 \<and> (\<forall>c \<in> set s. \<not> break_char c)"

lemma piece_append: "piece s \<Longrightarrow> piece t \<Longrightarrow> piece (s @ t)"
  by (auto simp: piece_def uni_clean_append)

lemma piece_ascii: "ascii s \<Longrightarrow> piece s"
  using ascii_clean(1,2) [of s 0] ascii_clean(3) [of s] by (cases "s = []") (auto simp: piece_def)

lemma piece_join: "piece sep \<Longrightarrow> (\<And>s. s \<in> set ss \<Longrightarrow> piece s) \<Longrightarrow> piece (join_with sep ss)"
  by (induction sep ss rule: join_with.induct) (auto intro!: piece_append, simp add: piece_def)

lemma piece_one_line: "piece s \<Longrightarrow> one_line s"
  by (simp add: piece_def one_line_def)

lemma ascii_escape_char:
  assumes "char_code c < 128"
  shows "ascii (escape_char c)" and "escape_char c \<noteq> []"
proof -
  have "ascii [hex_digit n]" for n
  proof -
    have "hex_char (hex_digit n)" by (rule hex_char_hex_digit)
    then show ?thesis by (auto simp: ascii_def hex_char_def is_digit_def)
  qed
  then have h: "32 \<le> char_code (hex_digit n) \<and> char_code (hex_digit n) < 128" for n
    by (simp add: ascii_def)
  have lit: "char_code CHR ''u'' = 117" "char_code CHR ''n'' = 110" "char_code CHR ''r'' = 114"
    "char_code CHR ''t'' = 116" "char_code CHR ''f'' = 102" "char_code CHR ''b'' = 98"
    by (simp_all add: char_code_def)
  show "ascii (escape_char c)" and "escape_char c \<noteq> []"
    using assms h by (auto simp: escape_char_def ascii_def lit char_code_CHR)
qed

lemma escape_char_high: "128 \<le> char_code c \<Longrightarrow> escape_char c = [c]"
proof -
  assume h: "128 \<le> char_code c"
  have "char_code CHR 0x08 = 8" "char_code CHR 0x0C = 12" by (simp_all add: char_code_def)
  with h show ?thesis
    unfolding escape_char_def char_code_inject [symmetric] by (auto simp: char_code_CHR)
qed

lemma escaped_clean:
  "uni_clean q s \<Longrightarrow> uni_clean q (concat (map escape_char s)) \<and>
   scan q (concat (map escape_char s)) = scan q s \<and> (\<forall>c \<in> set (concat (map escape_char s)). \<not> break_char c)"
proof (induction s arbitrary: q)
  case (Cons c s)
  show ?case
  proof (cases "char_code c < 128")
    case True
    note a = ascii_clean(1,2) [OF ascii_escape_char [OF True], of q] ascii_clean(3) [OF ascii_escape_char [OF True]]
    have "break_next q c = 0" using True by (simp add: break_next_def)
    then show ?thesis using Cons a by (simp add: uni_clean_append) blast
  next
    case False
    then have "escape_char c = [c]" "\<not> break_char c" using escape_char_high by (auto simp: break_char_def)
    then show ?thesis using Cons.prems Cons.IH [of "break_next q c"] by auto
  qed
qed simp

text \<open>The values whose strings hold no Unicode line break and end in whole characters.\<close>

definition line_str :: "string \<Rightarrow> bool" where
  "line_str s \<longleftrightarrow> uni_clean 0 s"

fun line_json :: "json \<Rightarrow> bool" where
  "line_json (JStr s) = line_str s"
| "line_json (JArr vs) = (\<forall>v \<in> set vs. line_json v)"
| "line_json (JObj kvs) = (\<forall>kv \<in> set kvs. line_str (fst kv) \<and> line_json (snd kv))"
| "line_json _ = True"

lemma piece_quote: "line_str s \<Longrightarrow> piece (quote s)"
proof -
  assume "line_str s"
  then have c: "uni_clean 0 (concat (map escape_char s))" "\<forall>c \<in> set (concat (map escape_char s)). \<not> break_char c"
    using escaped_clean [of 0 s] by (auto simp: line_str_def)
  have q: "break_next n dquote = 0" "\<not> break_last n dquote" "\<not> break_char dquote" for n
    by (simp_all add: break_next_def break_last_def break_char_def char_code_CHR)
  show ?thesis using c q by (auto simp: piece_def quote_def uni_clean_append)
qed

lemma ascii_int_str: "ascii (int_str i)"
  using nat_str_digits [of "nat i"] nat_str_digits [of "nat (- i)"]
  by (auto simp: ascii_def int_str_def is_digit_def char_code_CHR)

lemma ascii_float_str: "ascii (float_str f)"
proof -
  have d: "32 \<le> char_code c \<and> char_code c < 128" if "is_digit c" for c using that by (simp add: is_digit_def)
  have n: "c \<in> set (nat_str k) \<Longrightarrow> 32 \<le> char_code c \<and> char_code c < 128" for c k using nat_str_digits [of k] d by blast
  have lit: "char_code CHR ''0'' = 48" "char_code CHR ''.'' = 46" "char_code CHR ''e'' = 101" "char_code CHR ''-'' = 45"
    "char_code CHR ''+'' = 43" by (simp_all add: char_code_def)
  have "ascii (exponent_str x)" for x using n by (auto simp: ascii_def exponent_str_def Let_def lit)
  then have x: "c \<in> set (exponent_str x) \<Longrightarrow> 32 \<le> char_code c \<and> char_code c < 128" for c x by (auto simp: ascii_def)
  have r: "ascii (digits_repr (nat_str k) e)" for k e
  proof -
    have h: "nat_str k = d # ds \<Longrightarrow> c \<in> insert d (set ds) \<Longrightarrow> 32 \<le> char_code c \<and> char_code c < 128" for d ds c
      using n [of c k] by simp
    show ?thesis
      using n x h by (cases "nat_str k") (auto simp: ascii_def digits_repr_def Let_def lit dest: in_set_takeD in_set_dropD)
  qed
  then have "ascii (CHR ''-'' # digits_repr (nat_str k) e)" for k e by (simp add: ascii_def lit)
  with r show ?thesis by (cases f) (simp_all add: ascii_def char_code_def)
qed

lemma piece_dumps_spaced: "printable v \<Longrightarrow> line_json v \<Longrightarrow> piece (dumps_spaced v)"
proof (induction v rule: dumps_spaced.induct)
  case (1 vs)
  have a: "piece ''[''" "piece '']''" "piece '', ''" by (simp_all add: piece_ascii ascii_def char_code_def)
  have "piece (join_with '', '' (map dumps_spaced vs))" using 1 a(3) by (intro piece_join) auto
  then have "piece (''['' @ join_with '', '' (map dumps_spaced vs) @ '']'')" using a by (intro piece_append)
  then show ?case by simp
next
  case (2 kvs)
  have a: "piece ''{''" "piece ''}''" "piece '', ''" "piece '': ''" by (simp_all add: piece_ascii ascii_def char_code_def)
  have "piece (quote (fst kv) @ '': '' @ dumps_spaced (snd kv))" if "kv \<in> set kvs" for kv
    using that 2 a(4) piece_quote by (intro piece_append) auto
  then have "piece (join_with '', '' (map (\<lambda>kv. quote (fst kv) @ '': '' @ dumps_spaced (snd kv)) kvs))"
    using a(3) by (intro piece_join) auto
  then have "piece (''{'' @ join_with '', '' (map (\<lambda>kv. quote (fst kv) @ '': '' @ dumps_spaced (snd kv)) kvs) @ ''}'')"
    using a by (intro piece_append)
  then show ?case by simp
qed (auto simp: piece_quote ascii_int_str ascii_float_str intro!: piece_ascii, simp_all add: ascii_def char_code_def)

section \<open>Splitting\<close>

lemma uni_break:
  assumes "uni_clean q s" and "s \<noteq> []" and "\<forall>c \<in> set s. \<not> break_char c"
  shows "break_bytes (s @ newline # r) = 0"
proof -
  obtain c t where s: "s = c # t" using assms(2) by (cases s) auto
  have n: "char_code newline = 10" by (simp add: char_code_CHR)
  have c: "\<not> (10 \<le> char_code c \<and> char_code c \<le> 13)" "\<not> (28 \<le> char_code c \<and> char_code c \<le> 30)"
    using assms(3) s by (auto simp: break_char_def)
  consider "t = []" | d where "t = [d]" | d e u where "t = d # e # u" by (metis list.exhaust)
  then show ?thesis
  proof cases
    case 1
    then show ?thesis using s c n by (auto simp: Let_def)
  next
    case 2
    then show ?thesis using s c n assms(1) by (auto simp: Let_def break_last_def break_next_def)
  next
    case 3
    then show ?thesis using s c n assms(1) by (auto simp: Let_def break_last_def break_next_def split: if_splits)
  qed
qed

lemma split_line:
  "uni_clean q s \<Longrightarrow> \<forall>c \<in> set s. \<not> break_char c \<Longrightarrow>
   split_lines acc (s @ newline # r) = (acc @ s) # split_lines [] r"
proof (induction s arbitrary: q acc)
  case Nil
  have "break_bytes (newline # r) = 1" by (simp add: char_code_CHR)
  then show ?case by (subst split_lines.simps) simp
next
  case (Cons c s)
  have "break_bytes ((c # s) @ newline # r) = 0" using Cons.prems by (intro uni_break [of q]) auto
  moreover have "split_lines (acc @ [c]) (s @ newline # r) = ((acc @ [c]) @ s) # split_lines [] r"
    using Cons.prems by (intro Cons.IH [of "break_next q c"]) auto
  ultimately show ?case by (subst split_lines.simps) (simp del: break_bytes.simps)
qed

lemma split_lines_text:
  "(\<And>l. l \<in> set ls \<Longrightarrow> one_line l) \<Longrightarrow> split_lines [] (concat (map (\<lambda>l. l @ [newline]) ls)) = ls"
proof (induction ls)
  case Nil
  show ?case by (subst split_lines.simps) simp
next
  case (Cons l ls)
  have "one_line l" using Cons.prems by simp
  moreover have "split_lines [] (concat (map (\<lambda>l. l @ [newline]) ls)) = ls" using Cons by simp
  ultimately show ?case using split_line [of 0 l "[]"] by (simp add: one_line_def)
qed

end
