(* ===== verification/Artifact_Properties.thy ===== *)
theory Artifact_Properties
  imports Artifact_Rollout
begin

text \<open>
  What an accepted rollout and an accepted activation receipt are guaranteed to say, with a
  concrete rollout and receipt the validators accept.
\<close>

section \<open>Concrete artifacts\<close>

definition demo_digest :: json where "demo_digest = JStr (replicate 64 (CHR ''0''))"

definition demo_trace_event :: "string \<Rightarrow> int \<Rightarrow> json" where
  "demo_trace_event phase n = JObj [(''phase'', JStr phase), (''tool_use_id'', JStr ''t''),
     (''started_sequence'', JInt n), (''finished_sequence'', JInt (n + 1)),
     (''input_sha256'', demo_digest), (''result_sha256'', demo_digest)]"

definition demo_receipt :: json where
  "demo_receipt = JObj
    [(''schema_version'', JInt 1), (''contract'', JStr ''metacodes-treatment-activation-v1''),
     (''arm_id'', JStr ''tinykg''), (''expectation'', JStr ''persistent_task_lifecycle''), (''status'', JStr ''verified''),
     (''execution'', JObj [(''run_id'', JStr ''r''), (''suite_id'', JStr ''s''), (''task_id'', JStr ''t''),
        (''trial'', JInt 0), (''harness_config_id'', JStr ''h'')]),
     (''artifacts'', JObj [(''events_sha256'', demo_digest), (''transcript_sha256'', demo_digest), (''tinykg_binary_sha256'', demo_digest)]),
     (''trace'', JArr [demo_trace_event ''created'' 0, demo_trace_event ''claimed'' 2, demo_trace_event ''completed'' 4]),
     (''task'', JObj [(''id'', JInt 7), (''kind'', JStr ''task''), (''status'', JStr ''completed'')]),
     (''store'', JObj [(''present'', JBool True), (''relative_path'', JStr ''.home/.metacodes/kg/store.kg''),
        (''manifest_sha256'', demo_digest), (''packet_schema'', JStr ''tinykg-agent-retrieval-v1''),
        (''packet_sha256'', demo_digest), (''verification_node_ids'', JArr [JInt 3, JInt 9])])]"

definition demo_rollout :: json_object where
  "demo_rollout =
    [(''schema_version'', JInt 1), (''run_id'', JStr ''r''), (''suite_id'', JStr ''s''), (''task_id'', JStr ''t''),
     (''task_fingerprint'', JStr ''f''), (''task_fingerprint_provenance'', JStr ''recorded_at_execution''), (''trial'', JInt 0),
     (''execution'', JObj [(''status'', JStr ''completed'')]), (''outcome'', JObj [(''status'', JStr ''pass'')]),
     (''trajectory'', JObj [(''status'', JStr ''pass'')]),
     (''evaluator'', JObj [(''status'', JStr ''ready''), (''fingerprint'', JStr ''e'')]),
     (''readiness'', JObj [(''status'', JStr ''pass'')]),
     (''judgement'', JObj [(''valid_for_scoring'', JBool True), (''trustworthy_success'', JBool True)]),
     (''metrics'', JObj [(''turns'', JInt 3)]),
     (''model'', JObj [(''provider'', JStr ''p''), (''id'', JStr ''m'')]),
     (''harness'', JObj [(''config_id'', JStr ''c''), (''revision'', JStr ''v''),
        (''runtime_budget'', JObj [(''max_metered_tokens'', JInt 1000), (''max_cost_usd'', JInt 2)])]),
     (''attribution'', JArr [JObj [(''source'', JStr ''model''), (''confidence'', JInt 1)]])]"

lemma demo_digest_hex: "hex_json 64 demo_digest"
  by (simp add: demo_digest_def hex_str_def hex_char_def is_digit_def char_code_def list_all_iff)

lemma forE_Cons_Inr: "f x = Inr () \<Longrightarrow> forE f xs = Inr () \<Longrightarrow> forE f (x # xs) = Inr ()"
  by simp

lemma demo_trace_step:
  "snd s < n \<Longrightarrow> activation_event w (i, demo_trace_event p n) s = Inr (fst s @ [JStr p], n + 1)"
  using demo_digest_hex
  by (simp add: activation_event_def demo_trace_event_def raise_if_def dict_get_none_def Let_def insert_commute)

lemma demo_receipt_accepted: "validate_activation demo_receipt w None = Inr ()"
proof -
  have "foldE (activation_event w) (enumerate 0 [demo_trace_event ''created'' 0, demo_trace_event ''claimed'' 2,
      demo_trace_event ''completed'' 4]) ([], - 1) = Inr ([JStr ''created'', JStr ''claimed'', JStr ''completed''], 5)" for w
    by (simp add: demo_trace_step)
  then show ?thesis
    using demo_digest_hex
    by (simp add: validate_activation_def demo_receipt_def receipt_keys_def raise_if_def dict_get_none_def
        require_one_of_def one_of_def hashable_def activation_execution_def activation_artifacts_def
        activation_tinykg_def activation_store_def completed_task_def node_id_set_def dec_eq_def Let_def insert_commute)
qed

lemma demo_rollout_accepted: "validate_rollout demo_rollout w = Inr ()"
  by (simp add: validate_rollout_def demo_rollout_def validate_identity_def validate_statuses_def judgement_follows_def validate_origin_def
      validate_runtime_budget_def validate_metric_def validate_attribution_def integer_metrics_def number_metrics_def
      attribution_sources_def require_as_def require_one_of_def one_of_def hashable_def status_of_def raise_if_def
      require_number_def is_finite_small get_default_def dict_get_none_def dec_eq_def Let_def insert_commute)

section \<open>The judgement of a rollout\<close>

lemma rollout_parts:
  assumes "validate_rollout d w = Inr ()"
  obtains metrics where "validate_statuses d w = Inr ()" and "map_of d ''metrics'' = Some (JObj metrics)"
    and "\<forall>k \<in> set integer_metrics. validate_metric metrics k True = Inr ()"
    and "\<forall>k \<in> set number_metrics. validate_metric metrics k False = Inr ()"
    and "map_of d ''treatment_activation'' = None \<or>
      (\<exists>v. map_of d ''treatment_activation'' = Some v \<and> validate_activation v (w @ ''.treatment_activation'') None = Inr ())"
  using assms by (auto simp: validate_rollout_def bindE_eq_Inr check_simps forE_eq_Inr split: option.splits)

definition part_status :: "json_object \<Rightarrow> string \<Rightarrow> json" where
  \<comment> \<open>\<open>d[k]["status"]\<close>\<close>
  "part_status d k = (case map_of d k of Some (JObj r) \<Rightarrow> field r ''status'' | _ \<Rightarrow> JNull)"

definition judged :: "json_object \<Rightarrow> string \<Rightarrow> json" where
  "judged d k = (case map_of d ''judgement'' of Some (JObj r) \<Rightarrow> field r k | _ \<Rightarrow> JNull)"

lemma status_part: "require_as as_object d k w = Inr r \<Longrightarrow> status_of r = part_status d k"
  by (auto simp: check_simps part_status_def status_of_def)

lemma judged_bool:
  "require_as as_object d ''judgement'' w = Inr r \<Longrightarrow> require_as as_bool r k w' = Inr b \<Longrightarrow> judged d k = JBool b"
  by (auto simp: check_simps judged_def field_present)

lemma judgement_follows_Inr:
  "judgement_follows w ex oc tr ev valid trustworthy = Inr u \<longleftrightarrow>
    valid = (ex = JStr ''completed'' \<and> ev = JStr ''ready'') \<and>
    trustworthy = (ex = JStr ''completed'' \<and> ev = JStr ''ready'' \<and> oc = JStr ''pass'' \<and> tr = JStr ''pass'') \<and>
    (ev = JStr ''invalid'' \<longrightarrow> oc = JStr ''unscored'')"
  unfolding judgement_follows_def Let_def seq_checks by blast

lemma statuses_Inr:
  assumes "validate_statuses d w = Inr ()"
  shows "judged d ''valid_for_scoring'' =
      JBool (part_status d ''execution'' = JStr ''completed'' \<and> part_status d ''evaluator'' = JStr ''ready'')"
    and "judged d ''trustworthy_success'' =
      JBool (part_status d ''execution'' = JStr ''completed'' \<and> part_status d ''evaluator'' = JStr ''ready'' \<and>
        part_status d ''outcome'' = JStr ''pass'' \<and> part_status d ''trajectory'' = JStr ''pass'')"
    and "part_status d ''evaluator'' = JStr ''ready'' \<or>
      part_status d ''evaluator'' = JStr ''invalid'' \<and> part_status d ''outcome'' = JStr ''unscored''"
proof -
  from assms obtain execution outcome trajectory evaluator judgement valid trustworthy u where
    o: "require_as as_object d ''execution'' w = Inr execution" "require_as as_object d ''outcome'' w = Inr outcome"
      "require_as as_object d ''trajectory'' w = Inr trajectory" "require_as as_object d ''evaluator'' w = Inr evaluator"
      "require_as as_object d ''judgement'' w = Inr judgement"
    and j: "require_as as_bool judgement ''valid_for_scoring'' (w @ ''.judgement'') = Inr valid"
      "require_as as_bool judgement ''trustworthy_success'' (w @ ''.judgement'') = Inr trustworthy"
    and e: "require_one_of (status_of evaluator) [''ready'', ''invalid''] (w @ ''.evaluator.status'') ''expected ready|invalid'' = Inr u"
    and c: "judgement_follows w (status_of execution) (status_of outcome) (status_of trajectory) (status_of evaluator)
      valid trustworthy = Inr ()"
    unfolding validate_statuses_def by (elim bindE_InrE) (rule that; assumption)
  note p = o [THEN status_part]
  note c' = c [unfolded judgement_follows_Inr p]
  show "judged d ''valid_for_scoring'' =
      JBool (part_status d ''execution'' = JStr ''completed'' \<and> part_status d ''evaluator'' = JStr ''ready'')"
    by (simp only: judged_bool [OF o(5) j(1)] c')
  show "judged d ''trustworthy_success'' =
      JBool (part_status d ''execution'' = JStr ''completed'' \<and> part_status d ''evaluator'' = JStr ''ready'' \<and>
        part_status d ''outcome'' = JStr ''pass'' \<and> part_status d ''trajectory'' = JStr ''pass'')"
    by (simp only: judged_bool [OF o(5) j(2)] c')
  have "\<exists>s \<in> {''ready'', ''invalid''}. part_status d ''evaluator'' = JStr s"
    using e unfolding p require_one_of_Inr by simp
  then show "part_status d ''evaluator'' = JStr ''ready'' \<or>
      part_status d ''evaluator'' = JStr ''invalid'' \<and> part_status d ''outcome'' = JStr ''unscored''"
    using c' by blast
qed

text \<open>C17: a rollout record can not overstate its result. In every accepted rollout the judgement
  is the one its parts imply: it is scored exactly when it completed under a ready evaluator, it
  is a trustworthy success exactly when it moreover passed on outcome and on trajectory, and an
  invalid evaluator leaves the outcome unscored.\<close>

theorem rollout_judgement_sound:
  assumes "validate_rollout d w = Inr ()"
  shows "judged d ''valid_for_scoring'' =
      JBool (part_status d ''execution'' = JStr ''completed'' \<and> part_status d ''evaluator'' = JStr ''ready'') \<and>
    judged d ''trustworthy_success'' =
      JBool (part_status d ''execution'' = JStr ''completed'' \<and> part_status d ''evaluator'' = JStr ''ready'' \<and>
        part_status d ''outcome'' = JStr ''pass'' \<and> part_status d ''trajectory'' = JStr ''pass'') \<and>
    (part_status d ''evaluator'' = JStr ''invalid'' \<longrightarrow> part_status d ''outcome'' = JStr ''unscored'')"
proof -
  obtain metrics where s: "validate_statuses d w = Inr ()" by (rule rollout_parts [OF assms])
  have "part_status d ''evaluator'' = JStr ''invalid'' \<longrightarrow> part_status d ''outcome'' = JStr ''unscored''"
    using statuses_Inr(3) [OF s] by auto
  then show ?thesis using statuses_Inr(1,2) [OF s] by blast
qed

theorem rollout_judgement_sound_witness:
  "validate_rollout demo_rollout ''rollout'' = Inr () \<and> judged demo_rollout ''trustworthy_success'' = JBool True \<and>
   judged demo_rollout ''trustworthy_success'' =
     JBool (part_status demo_rollout ''execution'' = JStr ''completed'' \<and> part_status demo_rollout ''evaluator'' = JStr ''ready'' \<and>
       part_status demo_rollout ''outcome'' = JStr ''pass'' \<and> part_status demo_rollout ''trajectory'' = JStr ''pass'')"
  using rollout_judgement_sound [OF demo_rollout_accepted] demo_rollout_accepted [of "''rollout''"]
  by (simp add: judged_def demo_rollout_def dict_get_none_def)

text \<open>Every float of a value, at any depth, is finite; the integers of JSON always are.\<close>

fun all_finite :: "json \<Rightarrow> bool" where
  "all_finite (JFloat f) \<longleftrightarrow> (\<exists>x. float_of (JFloat f) = Fin x)"
| "all_finite (JArr vs) \<longleftrightarrow> (\<forall>v \<in> set vs. all_finite v)"
| "all_finite (JObj kvs) \<longleftrightarrow> (\<forall>kv \<in> set kvs. all_finite (snd kv))"
| "all_finite _ \<longleftrightarrow> True"

lemma ball_enumerate: "(\<forall>iv \<in> set (enumerate n vs). P (snd iv)) \<longleftrightarrow> (\<forall>v \<in> set vs. P v)"
proof -
  have "snd ` set (enumerate n vs) = set vs" using map_snd_enumerate [of n vs] by (metis set_map)
  then show ?thesis by (metis image_iff)
qed

lemma finite_numbers_Inr: "finite_numbers v w = Inr () \<longleftrightarrow> all_finite v"
proof (induction v w rule: finite_numbers.induct)
  case (1 f w)
  then show ?case by (simp add: check_simps finite_double_def split: double.split)
next
  case (3 vs w)
  then show ?case using ball_enumerate [of 0 vs all_finite] by (simp add: forE_eq_Inr)
qed (simp_all add: forE_eq_Inr)

text \<open>C20: what the metrics of an accepted rollout hold. Each of the 17 counters the validator lists is
  null or an integer that is not negative, each of the 9 amounts it lists is null or a finite number
  that is not negative, and no float anywhere in the metrics, listed or not and at any depth, is
  infinite or not a number. A metric the validator does not list may be negative.\<close>

theorem rollout_metrics_nonnegative:
  assumes "validate_rollout d w = Inr ()"
  shows "\<exists>metrics. map_of d ''metrics'' = Some (JObj metrics) \<and>
    (\<forall>k \<in> set integer_metrics. field metrics k = JNull \<or> (\<exists>i. field metrics k = JInt i \<and> 0 \<le> i)) \<and>
    (\<forall>k \<in> set number_metrics. field metrics k = JNull \<or>
      is_number (field metrics k) \<and> is_finite (field metrics k) = Inr True \<and> \<not> is_negative (field metrics k)) \<and>
    all_finite (JObj metrics)"
proof -
  obtain metrics where m: "map_of d ''metrics'' = Some (JObj metrics)"
    "\<forall>k \<in> set integer_metrics. validate_metric metrics k True = Inr ()"
    "\<forall>k \<in> set number_metrics. validate_metric metrics k False = Inr ()"
    by (rule rollout_parts [OF assms])
  have "finite_numbers (JObj metrics) (w @ ''.metrics'') = Inr ()"
    using assms m(1) by (auto simp: validate_rollout_def bindE_eq_Inr check_simps simp del: finite_numbers.simps)
  then have "all_finite (JObj metrics)" by (simp only: finite_numbers_Inr)
  moreover have "field metrics k = JNull \<or> (\<exists>i. field metrics k = JInt i \<and> 0 \<le> i)"
    if "validate_metric metrics k True = Inr ()" for k
    using that by (auto simp: validate_metric_def Let_def check_simps split: if_splits option.splits)
  moreover have "field metrics k = JNull \<or>
      is_number (field metrics k) \<and> is_finite (field metrics k) = Inr True \<and> \<not> is_negative (field metrics k)"
    if "validate_metric metrics k False = Inr ()" for k
    using that by (auto simp: validate_metric_def Let_def check_simps split: if_splits)
  ultimately show ?thesis using m by blast
qed

theorem rollout_metrics_nonnegative_witness:
  "\<exists>metrics. map_of demo_rollout ''metrics'' = Some (JObj metrics) \<and> field metrics ''turns'' = JInt 3 \<and>
    (\<forall>k \<in> set integer_metrics. field metrics k = JNull \<or> (\<exists>i. field metrics k = JInt i \<and> 0 \<le> i)) \<and> all_finite (JObj metrics)"
proof -
  obtain metrics where m: "map_of demo_rollout ''metrics'' = Some (JObj metrics)"
    "\<forall>k \<in> set integer_metrics. field metrics k = JNull \<or> (\<exists>i. field metrics k = JInt i \<and> 0 \<le> i)" "all_finite (JObj metrics)"
    using rollout_metrics_nonnegative [OF demo_rollout_accepted] by blast
  have "map_of demo_rollout ''metrics'' = Some (JObj [(''turns'', JInt 3)])" by (simp add: demo_rollout_def)
  with m show ?thesis by (auto simp: dict_get_none_def)
qed

section \<open>The activation receipt\<close>

lemma activation_event_Inr:
  assumes "activation_event w (i, ev) (ps, prior) = Inr (ps', finish)"
  shows "\<exists>e start. ev = JObj e \<and> ps' = ps @ [field e ''phase''] \<and> field e ''started_sequence'' = JInt start \<and>
    field e ''finished_sequence'' = JInt finish \<and> prior < start \<and> start < finish"
  using assms by (auto simp: activation_event_def Let_def bindE_eq_Inr check_simps split: json.splits option.splits if_splits)

definition sequence_of :: "json \<Rightarrow> string \<Rightarrow> int" where
  "sequence_of ev k = (case ev of JObj e \<Rightarrow> (case int_value (field e k) of Some i \<Rightarrow> i | None \<Rightarrow> 0) | _ \<Rightarrow> 0)"

definition phase_name :: "json \<Rightarrow> json" where
  "phase_name ev = (case ev of JObj e \<Rightarrow> field e ''phase'' | _ \<Rightarrow> JNull)"

text \<open>C18: an accepted receipt of the TinyKG arm proves an ordered task lifecycle: exactly three
  events, created, claimed and completed in that order, each finishing after it started and
  starting after the one before finished.\<close>

theorem tinykg_lifecycle_ordered:
  assumes "validate_activation (JObj r) w arm = Inr ()" and "field r ''arm_id'' = JStr ''tinykg''"
  shows "\<exists>e1 e2 e3. field r ''trace'' = JArr [e1, e2, e3] \<and>
    map phase_name [e1, e2, e3] = [JStr ''created'', JStr ''claimed'', JStr ''completed''] \<and>
    0 \<le> sequence_of e1 ''started_sequence'' \<and>
    sorted_wrt (<) [sequence_of e1 ''started_sequence'', sequence_of e1 ''finished_sequence'',
      sequence_of e2 ''started_sequence'', sequence_of e2 ''finished_sequence'',
      sequence_of e3 ''started_sequence'', sequence_of e3 ''finished_sequence'']"
proof -
  obtain trace store where t: "field r ''trace'' = JArr trace" and a: "activation_tinykg r trace store w = Inr ()"
    using assms by (auto simp: validate_activation_def bindE_eq_Inr split: json.splits)
  then obtain n where len: "length trace = 3"
    and f: "foldE (activation_event w) (enumerate 0 trace) ([], - 1) =
      Inr ([JStr ''created'', JStr ''claimed'', JStr ''completed''], n)"
    by (auto simp: activation_tinykg_def bindE_eq_Inr check_simps)
  obtain e1 e2 e3 where e: "trace = [e1, e2, e3]" using len by (auto simp: length_Suc_conv numeral_eq_Suc)
  obtain p1 f1 p2 f2 where s: "activation_event w (0, e1) ([], - 1) = Inr (p1, f1)"
    "activation_event w (1, e2) (p1, f1) = Inr (p2, f2)"
    "activation_event w (2, e3) (p2, f2) = Inr ([JStr ''created'', JStr ''claimed'', JStr ''completed''], n)"
    using f unfolding e by (auto simp: bindE_eq_Inr numeral_eq_Suc)
  show ?thesis
    using activation_event_Inr [OF s(1)] activation_event_Inr [OF s(2)] activation_event_Inr [OF s(3)]
    by (intro exI [of _ e1] exI [of _ e2] exI [of _ e3]) (auto simp: t e phase_name_def sequence_of_def)
qed

theorem tinykg_lifecycle_ordered_witness:
  "\<exists>r e1 e2 e3. demo_receipt = JObj r \<and> field r ''trace'' = JArr [e1, e2, e3] \<and>
    sequence_of e1 ''finished_sequence'' < sequence_of e2 ''started_sequence''"
proof -
  obtain r where r: "demo_receipt = JObj r" "field r ''arm_id'' = JStr ''tinykg''"
    by (simp add: demo_receipt_def dict_get_none_def)
  have "validate_activation (JObj r) [] None = Inr ()" using demo_receipt_accepted r(1) by simp
  from tinykg_lifecycle_ordered [OF this r(2)] r(1) show ?thesis by auto
qed

text \<open>C19: an accepted receipt of a baseline arm carries no trace of the treatment: its trace is
  empty, it names no task, and its store says only that it is not present.\<close>

theorem baseline_has_no_treatment:
  assumes "validate_activation (JObj r) w arm = Inr ()" and "field r ''arm_id'' \<noteq> JStr ''tinykg''"
  shows "field r ''trace'' = JArr [] \<and> field r ''task'' = JNull \<and>
    py_eq (field r ''store'') (JObj [(''present'', JBool False)])"
proof -
  obtain trace store where "field r ''trace'' = JArr trace" "field r ''store'' = JObj store"
    and "activation_baseline r trace store w = Inr ()"
    using assms by (auto simp: validate_activation_def bindE_eq_Inr split: json.splits)
  moreover have "trace = [] \<and> field r ''task'' = JNull \<and> py_eq (JObj store) (JObj [(''present'', JBool False)])"
    using calculation(3) unfolding activation_baseline_def seq_checks by blast
  ultimately show ?thesis by simp
qed

definition demo_baseline :: json_object where
  "demo_baseline =
    [(''schema_version'', JInt 1), (''contract'', JStr ''metacodes-treatment-activation-v1''),
     (''arm_id'', JStr ''codex_style''), (''expectation'', JStr ''persistent_tinykg_lifecycle_absent''), (''status'', JStr ''verified''),
     (''execution'', JObj [(''run_id'', JStr ''r''), (''suite_id'', JStr ''s''), (''task_id'', JStr ''t''),
        (''trial'', JInt 0), (''harness_config_id'', JStr ''h'')]),
     (''artifacts'', JObj [(''events_sha256'', demo_digest), (''transcript_sha256'', demo_digest), (''tinykg_binary_sha256'', demo_digest)]),
     (''trace'', JArr []), (''task'', JNull), (''store'', JObj [(''present'', JBool False)])]"

theorem baseline_has_no_treatment_witness:
  "validate_activation (JObj demo_baseline) ''receipt'' None = Inr () \<and> field demo_baseline ''trace'' = JArr []"
proof -
  have v: "validate_activation (JObj demo_baseline) ''receipt'' None = Inr ()"
    using demo_digest_hex
    by (simp add: validate_activation_def demo_baseline_def receipt_keys_def raise_if_def dict_get_none_def
        require_one_of_def one_of_def hashable_def activation_execution_def activation_artifacts_def
        activation_baseline_def dec_eq_def Let_def insert_commute)
  have "field demo_baseline ''arm_id'' \<noteq> JStr ''tinykg''" by (simp add: demo_baseline_def dict_get_none_def)
  from baseline_has_no_treatment [OF v this] v show ?thesis by blast
qed

end
