(* ===== verification/Rollout_Canon.thy ===== *)
theory Rollout_Canon
  imports Rollout_File Artifact_Properties
begin

text \<open>
  The validators of a rollout look at its fields by name, so sorting the keys of an accepted record,
  at every level, leaves it accepted.
\<close>

section \<open>What a check sees of a value\<close>

lemma canon_shapes [simp]:
  "canon v = JNull \<longleftrightarrow> v = JNull" "canon v = JBool b \<longleftrightarrow> v = JBool b" "canon v = JInt i \<longleftrightarrow> v = JInt i"
  "canon v = JStr s \<longleftrightarrow> v = JStr s" "canon v = JArr [] \<longleftrightarrow> v = JArr []"
  by (cases v; simp)+

lemma canon_reads [simp]:
  "int_value (canon v) = int_value v" "as_int (canon v) = as_int v" "as_str (canon v) = as_str v" "as_bool (canon v) = as_bool v"
  "as_list (canon v) = map_option (map canon) (as_list v)" "as_object (canon v) = map_option canon_object (as_object v)"
  "is_bool (canon v) = is_bool v" "hashable (canon v) = hashable v" "nonempty_str (canon v) = nonempty_str v"
  "hex_json n (canon v) = hex_json n v" "is_number (canon v) = is_number v" "is_finite (canon v) = is_finite v"
  "is_negative (canon v) = is_negative v" "is_positive (canon v) = is_positive v" "above_one (canon v) = above_one v"
  "py_eq (canon v) (JInt i) = py_eq v (JInt i)" "py_eq (canon v) (JBool b) = py_eq v (JBool b)"
  by (cases v; simp add: hashable_def is_finite_def)+

lemma one_of_canon [simp]: "one_of (canon v) names = one_of v names"
  by (simp add: one_of_def)

lemma status_canon: "distinct (keys r) \<Longrightarrow> status_of (canon_object r) = canon (status_of r)"
  by (simp add: status_of_def dict_get_none_canon)

lemma require_one_of_canon [simp]: "require_one_of (canon v) names w m = require_one_of v names w m"
  by (simp add: require_one_of_def)

lemma require_number_canon [simp]:
  "(\<And>x. ok (canon x) = ok x) \<Longrightarrow> require_number (canon v) ok w m = require_number v ok w m"
  by (simp add: require_number_def)

lemma set_keys_sorted [simp]: "set (keys (canon_object kvs)) = set (keys kvs)"
  by (simp only: keys_canon set_sort)

lemma get_default_canon:
  "distinct (keys kvs) \<Longrightarrow> get_default (canon_object kvs) k v = (case map_of kvs k of None \<Rightarrow> v | Some x \<Rightarrow> canon x)"
  by (simp add: get_default_def map_of_canon split: option.split)

lemma require_as_canon:
  "distinct (keys d) \<Longrightarrow>
   require_as as (canon_object d) k w = Inr x \<longleftrightarrow> (\<exists>v. map_of d k = Some v \<and> as (canon v) = Some x)"
  by (auto simp: require_as_Inr map_of_canon)

lemma printable_keys: "printable (JObj d) \<Longrightarrow> distinct (keys d)"
  by simp

lemma printable_object: "printable (JObj d) \<Longrightarrow> map_of d k = Some (JObj r) \<Longrightarrow> printable (JObj r)"
  by (rule printable_part)

lemma printable_field: "printable (JObj d) \<Longrightarrow> printable (field d k)"
  using printable_part [of d k] by (simp add: dict_get_none_def split: option.split del: printable.simps(3))

lemma all_finite_canon: "all_finite (canon v) = all_finite v"
proof (induction v rule: canon.induct)
  case (2 kvs)
  then show ?case by auto
qed auto

text \<open>An accepted list of checks, whatever they are told about where they are.\<close>

lemma forE_enumerate_canon:
  assumes "forE f (enumerate n vs) = Inr ()" and "\<And>i j v. v \<in> set vs \<Longrightarrow> f (i, v) = Inr () \<Longrightarrow> g (j, canon v) = Inr ()"
  shows "forE g (enumerate n (map canon vs)) = Inr ()"
proof -
  have f: "f (i, v) = Inr ()" if "(i, v) \<in> set (enumerate n vs)" for i v using assms(1) that by (auto simp: forE_eq_Inr)
  have "g (j, u) = Inr ()" if "(j, u) \<in> set (enumerate n (map canon vs))" for j u
  proof -
    from that have j: "n \<le> j" "j - n < length vs" "u = canon (vs ! (j - n))" by (auto simp: in_set_enumerate_eq)
    then have "(j, vs ! (j - n)) \<in> set (enumerate n vs)" by (auto simp: in_set_enumerate_eq)
    from f [OF this] have "g (j, canon (vs ! (j - n))) = Inr ()" using assms(2) [OF nth_mem [OF j(2)]] by blast
    then show ?thesis by (simp only: j(3))
  qed
  then show ?thesis by (auto simp: forE_eq_Inr)
qed

section \<open>The parts of a record\<close>

lemma rollout_identity_canon:
  assumes "validate_identity d w = Inr ()" and "printable (JObj d)"
  shows "validate_identity (canon_object d) w' = Inr ()"
  using assms(1) printable_keys [OF assms(2)]
  by (auto simp: validate_identity_def bindE_eq_Inr require_as_Inr map_of_canon check_simps forE_eq_Inr dict_get_none_canon
      simp del: map_of_eq_Some_iff py_eq.simps)

lemma statuses_canon:
  assumes "validate_statuses d w = Inr ()" and "printable (JObj d)"
  shows "validate_statuses (canon_object d) w' = Inr ()"
proof -
  note d = printable_keys [OF assms(2)]
  from assms(1) obtain ex ou tr ev re ju fp valid trusted where m:
      "map_of d ''execution'' = Some (JObj ex)" "map_of d ''outcome'' = Some (JObj ou)" "map_of d ''trajectory'' = Some (JObj tr)"
      "map_of d ''evaluator'' = Some (JObj ev)" "map_of d ''readiness'' = Some (JObj re)" "map_of d ''judgement'' = Some (JObj ju)"
    and f: "map_of ev ''fingerprint'' = Some (JStr fp)" "map_of ju ''valid_for_scoring'' = Some (JBool valid)"
      "map_of ju ''trustworthy_success'' = Some (JBool trusted)"
    and s: "one_of (status_of ex) [''completed'', ''invalid''] = Inr True" "one_of (status_of ou) [''pass'', ''fail'', ''unscored''] = Inr True"
      "one_of (status_of tr) [''pass'', ''fail'', ''unscored''] = Inr True" "one_of (status_of ev) [''ready'', ''invalid''] = Inr True"
      "one_of (status_of re) [''pass'', ''fail''] = Inr True"
    and j: "judgement_follows w (status_of ex) (status_of ou) (status_of tr) (status_of ev) valid trusted = Inr ()"
    by (auto simp: validate_statuses_def bindE_eq_Inr require_as_Inr as_object_iff as_bool_iff as_str_iff require_one_of_def
        simp del: map_of_eq_Some_iff)
  have "distinct (keys r)" if "map_of d k = Some (JObj r)" for k r
    using printable_keys [OF printable_object [OF assms(2) that]] .
  note part = m [THEN this]
  have "judgement_follows w' (canon (status_of ex)) (canon (status_of ou)) (canon (status_of tr)) (canon (status_of ev)) valid trusted = Inr ()"
    using j by (simp add: judgement_follows_Inr)
  then show ?thesis
    using s by (simp add: validate_statuses_def require_as_def map_of_canon [OF d] map_of_canon [OF part(4)]
        map_of_canon [OF part(6)] m f part [THEN status_canon] require_one_of_def del: map_of_eq_Some_iff)
qed

lemma metric_canon: "distinct (keys m) \<Longrightarrow> validate_metric (canon_object m) k b = validate_metric m k b"
  by (simp add: validate_metric_def dict_get_none_canon Let_def)

lemma runtime_budget_canon:
  assumes "validate_runtime_budget v w = Inr ()" and "printable v"
  shows "validate_runtime_budget (canon v) w' = Inr ()"
  using assms by (cases v) (auto simp: validate_runtime_budget_def seq_checks dict_get_none_canon simp del: set_map set_sort map_of_eq_Some_iff)

lemma origin_canon:
  assumes "validate_origin d w = Inr ()" and "printable (JObj d)"
  shows "validate_origin (canon_object d) w' = Inr ()"
proof -
  note d = printable_keys [OF assms(2)]
  from assms(1) obtain mo ha x1 x2 x3 x4 where m: "map_of d ''model'' = Some (JObj mo)" "map_of d ''harness'' = Some (JObj ha)"
    and f: "map_of mo ''provider'' = Some (JStr x1)" "map_of mo ''id'' = Some (JStr x2)"
      "map_of ha ''config_id'' = Some (JStr x3)" "map_of ha ''revision'' = Some (JStr x4)"
    and b: "validate_runtime_budget (field ha ''runtime_budget'') (w @ ''.harness.runtime_budget'') = Inr ()"
    by (auto simp: validate_origin_def bindE_eq_Inr check_simps forE_eq_Inr simp del: map_of_eq_Some_iff)
  note p = m [THEN printable_object [OF assms(2)]]
  note part = p [THEN printable_keys]
  show ?thesis
    using runtime_budget_canon [OF b printable_field [OF p(2)]]
    by (simp add: validate_origin_def require_as_def map_of_canon [OF d] part [THEN map_of_canon] m f
        dict_get_none_canon [OF part(2)] del: map_of_eq_Some_iff)
qed

lemma attribution_canon:
  assumes "validate_attribution w (i, v) = Inr ()" and "printable v"
  shows "validate_attribution w' (j, canon v) = Inr ()"
  using assms
  by (cases v) (auto simp: validate_attribution_def Let_def bindE_eq_Inr require_as_Inr map_of_canon seq_checks dict_get_none_canon
      get_default_canon get_default_def split: if_splits option.splits simp del: map_of_eq_Some_iff)

section \<open>The activation receipt\<close>

lemma activation_execution_canon:
  assumes "activation_execution v w = Inr ()" and "printable v"
  shows "activation_execution (canon v) w' = Inr ()"
  using assms by (cases v) (auto simp: activation_execution_def seq_checks dict_get_none_canon simp del: set_map set_sort map_of_eq_Some_iff)

lemma activation_artifacts_canon:
  assumes "activation_artifacts v w = Inr ()" and "printable v"
  shows "activation_artifacts (canon v) w' = Inr ()"
  using assms by (cases v) (auto simp: activation_artifacts_def seq_checks dict_get_none_canon simp del: set_map set_sort map_of_eq_Some_iff)

lemma activation_event_canon:
  assumes "activation_event w (i, v) (ps, n) = Inr (ps', n')" and "printable v"
  shows "activation_event w' (j, canon v) (map canon ps, n) = Inr (map canon ps', n')"
proof -
  from assms(1) obtain e where v: "v = JObj e" by (cases v) (auto simp: activation_event_def)
  note e = printable_keys [OF assms(2) [unfolded v]]
  from assms(1) obtain a where ab: "int_value (field e ''started_sequence'') = Some a" "int_value (field e ''finished_sequence'') = Some n'"
    unfolding v by (cases "int_value (field e ''started_sequence'')"; cases "int_value (field e ''finished_sequence'')")
      (simp_all add: activation_event_def Let_def bindE_eq_Inr split: if_splits)
  from assms(1) show ?thesis
    unfolding v
    by (simp add: activation_event_def Let_def bindE_eq_Inr raise_if_def ab dict_get_none_canon [OF e] del: set_map set_sort split: if_splits)
      (hypsubst, simp)
qed

lemma activation_events_canon:
  "foldE (activation_event w) (enumerate i vs) (ps, n) = Inr (ps', n') \<Longrightarrow> \<forall>v \<in> set vs. printable v \<Longrightarrow>
   foldE (activation_event w') (enumerate j (map canon vs)) (map canon ps, n) = Inr (map canon ps', n')"
proof (induction vs arbitrary: i j ps n)
  case (Cons v vs)
  from Cons.prems(1) obtain qs m where s: "activation_event w (i, v) (ps, n) = Inr (qs, m)"
    and rest: "foldE (activation_event w) (enumerate (Suc i) vs) (qs, m) = Inr (ps', n')" by (auto simp: bindE_eq_Inr)
  have "activation_event w' (j, canon v) (map canon ps, n) = Inr (map canon qs, m)"
    using activation_event_canon [OF s] Cons.prems(2) by simp
  then show ?case using Cons.IH [OF rest, of "Suc j"] Cons.prems(2) by simp
qed simp

lemma completed_task_canon: "printable v \<Longrightarrow> completed_task (canon v) = completed_task v"
  by (cases v) (auto simp: completed_task_def dict_get_none_canon simp del: set_map set_sort map_of_eq_Some_iff)

lemma node_id_set_canon: "node_id_set (canon v) = node_id_set v"
  by (cases v) (simp_all add: node_id_set_def list_all_iff comp_def)

lemma activation_store_canon:
  assumes "activation_store r w = Inr ()" and "printable (JObj r)"
  shows "activation_store (canon_object r) w' = Inr ()"
  using assms by (auto simp: activation_store_def seq_checks dict_get_none_canon node_id_set_canon simp del: set_map set_sort map_of_eq_Some_iff)

lemma activation_tinykg_canon:
  assumes "activation_tinykg r trace store w = Inr ()" and "printable (JObj r)" and "\<forall>v \<in> set trace. printable v"
    and "printable (JObj store)"
  shows "activation_tinykg (canon_object r) (map canon trace) (canon_object store) w' = Inr ()"
proof -
  note r = printable_keys [OF assms(2)]
  from assms(1) obtain n where s: "field r ''expectation'' = JStr ''persistent_task_lifecycle''" "completed_task (field r ''task'')"
    "length trace = 3" "activation_store store w = Inr ()"
    and f: "foldE (activation_event w) (enumerate 0 trace) ([], - 1) =
      Inr ([JStr ''created'', JStr ''claimed'', JStr ''completed''], n)"
    by (auto simp: activation_tinykg_def bindE_eq_Inr check_simps)
  show ?thesis
    using s activation_events_canon [OF f assms(3), of w' 0] activation_store_canon [OF s(4) assms(4), of w']
      completed_task_canon [OF printable_field [OF assms(2), of "''task''"]]
    by (simp add: activation_tinykg_def dict_get_none_canon [OF r] raise_if_def)
qed

lemma absent_store:
  "py_eq (JObj s) (JObj [(''present'', JBool False)]) \<longleftrightarrow> (\<exists>b. s = [(''present'', b)] \<and> py_eq b (JBool False))"
proof (cases s)
  case (Cons kv kvs)
  then show ?thesis by (cases kvs; cases kv) (auto split: if_splits option.splits)
qed simp

lemma activation_baseline_canon:
  assumes "activation_baseline r trace store w = Inr ()" and "printable (JObj r)"
  shows "activation_baseline (canon_object r) (map canon trace) (canon_object store) w' = Inr ()"
proof -
  from assms(1) obtain b where s: "field r ''expectation'' = JStr ''persistent_tinykg_lifecycle_absent''" "trace = []"
    "field r ''task'' = JNull" "store = [(''present'', b)]" "py_eq b (JBool False)"
    by (auto simp: activation_baseline_def seq_checks absent_store simp del: py_eq.simps)
  have "py_eq (JObj (canon_object store)) (JObj [(''present'', JBool False)])"
    unfolding absent_store using s(4,5) by (simp del: py_eq.simps)
  then show ?thesis
    using s by (simp add: activation_baseline_def dict_get_none_canon [OF printable_keys [OF assms(2)]] raise_if_def del: py_eq.simps)
qed

lemma activation_canon:
  assumes "validate_activation v w None = Inr ()" and "printable v"
  shows "validate_activation (canon v) w' None = Inr ()"
proof -
  from assms(1) obtain r where v: "v = JObj r" by (cases v) (auto simp: validate_activation_def)
  note p = assms(2) [unfolded v] and r = printable_keys [OF assms(2) [unfolded v]]
  from assms(1) obtain trace store where t: "field r ''trace'' = JArr trace" "field r ''store'' = JObj store"
    by (auto simp: v validate_activation_def bindE_eq_Inr split: json.splits)
  have q: "\<forall>u \<in> set trace. printable u" "printable (JObj store)"
    using printable_field [OF p, of "''trace''"] printable_field [OF p, of "''store''"] unfolding t by simp_all
  have t': "field (canon_object r) ''trace'' = JArr (map canon trace)" "field (canon_object r) ''store'' = JObj (canon_object store)"
    using t by (simp_all add: dict_get_none_canon [OF r])
  have arm: "(if field r ''arm_id'' = JStr ''tinykg'' then activation_tinykg r trace store w
      else activation_baseline r trace store w) = Inr ()"
    using assms(1) by (auto simp: v validate_activation_def bindE_eq_Inr t)
  have "(if field (canon_object r) ''arm_id'' = JStr ''tinykg'' then
      activation_tinykg (canon_object r) (map canon trace) (canon_object store) w'
      else activation_baseline (canon_object r) (map canon trace) (canon_object store) w') = Inr ()"
    using arm activation_tinykg_canon [OF _ p q] activation_baseline_canon [OF _ p]
    by (simp add: dict_get_none_canon [OF r] split: if_splits)
  then show ?thesis
    using assms(1) t activation_execution_canon [OF _ printable_field [OF p]] activation_artifacts_canon [OF _ printable_field [OF p]]
    unfolding v canon.simps validate_activation_def json.case t'
    by (auto simp: bindE_eq_Inr seq_checks dict_get_none_canon [OF r] simp del: set_map set_sort map_of_eq_Some_iff py_eq.simps)
qed

section \<open>The record\<close>

theorem rollout_canon:
  assumes "validate_rollout d w = Inr ()" and "printable (JObj d)"
  shows "validate_rollout (canon_object d) w' = Inr ()"
proof -
  note d = printable_keys [OF assms(2)]
  from assms(1) obtain metrics attribution where i: "validate_identity d w = Inr ()" and s: "validate_statuses d w = Inr ()"
    and m: "map_of d ''metrics'' = Some (JObj metrics)" "finite_numbers (JObj metrics) (w @ ''.metrics'') = Inr ()"
      "\<forall>k \<in> set integer_metrics. validate_metric metrics k True = Inr ()"
      "\<forall>k \<in> set number_metrics. validate_metric metrics k False = Inr ()"
    and o: "validate_origin d w = Inr ()"
    and a: "map_of d ''attribution'' = Some (JArr attribution)" "forE (validate_attribution w) (enumerate 0 attribution) = Inr ()"
    and t: "(case map_of d ''treatment_activation'' of None \<Rightarrow> Inr ()
      | Some v \<Rightarrow> validate_activation v (w @ ''.treatment_activation'') None) = Inr ()"
    by (auto simp: validate_rollout_def bindE_eq_Inr check_simps forE_eq_Inr simp del: finite_numbers.simps)
  have mk: "distinct (keys metrics)" using printable_keys [OF printable_object [OF assms(2) m(1)]] .
  have "all_finite (canon (JObj metrics))" using m(2) by (simp only: all_finite_canon finite_numbers_Inr)
  then have fin: "finite_numbers (JObj (canon_object metrics)) u = Inr ()" for u by (simp only: finite_numbers_Inr canon.simps)
  have "\<forall>v \<in> set attribution. printable v" using printable_part [OF assms(2) a(1)] by simp
  then have att: "forE (validate_attribution w') (enumerate 0 (map canon attribution)) = Inr ()"
    using attribution_canon by (intro forE_enumerate_canon [OF a(2)]) blast
  have "validate_activation (canon v) u None = Inr ()" if "map_of d ''treatment_activation'' = Some v" for v u
    using t that activation_canon [OF _ printable_part [OF assms(2) that]] by auto
  then have act: "(case map_of (canon_object d) ''treatment_activation'' of None \<Rightarrow> Inr ()
      | Some v \<Rightarrow> validate_activation v (w' @ ''.treatment_activation'') None) = Inr ()"
    by (auto simp: map_of_canon [OF d] split: option.split)
  have "require_as as_object (canon_object d) ''metrics'' w' = Inr (canon_object metrics)"
    "require_as as_list (canon_object d) ''attribution'' w' = Inr (map canon attribution)"
    using m(1) a(1) by (simp_all add: require_as_canon [OF d])
  moreover have "forE (\<lambda>k. validate_metric (canon_object metrics) k True) integer_metrics = Inr ()"
    "forE (\<lambda>k. validate_metric (canon_object metrics) k False) number_metrics = Inr ()"
    using m(3,4) by (simp_all add: forE_eq_Inr metric_canon [OF mk])
  ultimately show ?thesis
    unfolding validate_rollout_def
    using rollout_identity_canon [OF i assms(2), of w'] statuses_canon [OF s assms(2), of w'] origin_canon [OF o assms(2), of w'] fin att act
    by (simp only: bindE_Inr)
qed

end
