(* ===== verification/Rollout_Properties.thy ===== *)
theory Rollout_Properties
  imports Rollout_Canon
begin

text \<open>
  The rollout file: what \<open>write_rollouts\<close> writes is read back, shown on a record with a float cost,
  and one record that the validator accepts, that is written, and that cannot be read back.
\<close>

section \<open>Reading what was written\<close>

definition written_ok :: "json_object \<Rightarrow> bool" where
  \<comment> \<open>a record the file can hold: no repeated key, no infinite float, no Unicode line break in a string\<close>
  "written_ok r \<longleftrightarrow> printable (JObj r) \<and> line_json (JObj r)"

lemma line_json_canon: "line_json v \<Longrightarrow> line_json (canon v)"
proof (induction v rule: canon.induct)
  case (2 kvs)
  then show ?case by auto
qed auto

lemma written_line:
  assumes "written_ok r"
  shows "one_line (dumps_spaced (canon (JObj r)))" and "\<not> blank (dumps_spaced (canon (JObj r)))"
    and "loads dict_hook (dumps_spaced (canon (JObj r))) = Inr (JObj (canon_object r))"
proof -
  have p: "printable (canon (JObj r))" "line_json (canon (JObj r))"
    using assms printable_canon line_json_canon by (auto simp only: written_ok_def)
  then show "one_line (dumps_spaced (canon (JObj r)))" by (intro piece_one_line piece_dumps_spaced)
  show "\<not> blank (dumps_spaced (canon (JObj r)))"
    by (subst blank.simps) (simp add: char_code_CHR)
  have "printable (JObj r)" using assms by (simp only: written_ok_def)
  from written_line_loads [OF this] show "loads dict_hook (dumps_spaced (canon (JObj r))) = Inr (JObj (canon_object r))"
    by (simp only: canon.simps)
qed

lemma parse_lines:
  "(\<And>r. r \<in> set rs \<Longrightarrow> written_ok r \<and> (\<forall>u. validate_rollout (canon_object r) u = Inr ())) \<Longrightarrow>
   foldE (parse_line w) (enumerate n (map (\<lambda>r. dumps_spaced (canon (JObj r))) rs)) acc = Inr (acc @ map canon_object rs)"
proof (induction rs arbitrary: n acc)
  case (Cons r rs)
  have "parse_line w (n, dumps_spaced (canon (JObj r))) acc = Inr (acc @ [canon_object r])"
    using written_line [of r] Cons.prems by (simp add: parse_line_def Let_def)
  then show ?case using Cons by simp
qed simp

lemma written_records: "write_rollouts rs = Inr out \<Longrightarrow> out = rollouts_text rs \<and> (\<forall>r \<in> set rs. \<exists>u. validate_rollout r u = Inr ())"
proof -
  assume w: "write_rollouts rs = Inr out"
  then have f: "forE (\<lambda>(i, r). validate_rollout r (''rollouts['' @ nat_str i @ '']'')) (enumerate 0 rs) = Inr ()"
    and "out = rollouts_text rs" by (auto simp: write_rollouts_def bindE_eq_Inr)
  moreover have "\<exists>u. validate_rollout r u = Inr ()" if "r \<in> set rs" for r
  proof -
    from that have "r \<in> snd ` set (enumerate 0 rs)" by (metis map_snd_enumerate set_map)
    with f show ?thesis by (fastforce simp: forE_eq_Inr)
  qed
  ultimately show ?thesis by blast
qed

text \<open>C23: a written rollout file is read back. When \<open>write_rollouts\<close> accepts a list of records and
  writes a file, and no string of a record holds one of the three Unicode line breaks that
  \<open>str.splitlines\<close> knows and JSON leaves unescaped (U+0085, U+2028, U+2029), \<open>parse_rollouts\<close>
  accepts the file's text and returns the same records, in order, with the keys of every object
  sorted. Every other record takes part: floats such as \<open>cost_usd\<close> included, provided none outside the
  metrics is infinite or not a number (in the metrics the validator forbids it). An empty list is
  excluded because \<open>parse_rollouts\<close> refuses a file without records.\<close>

theorem rollout_file_roundtrip:
  assumes "write_rollouts rs = Inr out" and "rs \<noteq> []" and "\<forall>r \<in> set rs. written_ok r"
  shows "parse_rollouts out w = Inr (map canon_object rs)"
proof -
  note o = written_records [OF assms(1)]
  have ok: "written_ok r \<and> (\<forall>u. validate_rollout (canon_object r) u = Inr ())" if "r \<in> set rs" for r
    using o assms(3) that rollout_canon by (fastforce simp: written_ok_def simp del: printable.simps)
  have "rollouts_text rs = concat (map (\<lambda>l. l @ [newline]) (map (\<lambda>r. dumps_spaced (canon (JObj r))) rs))"
    by (simp add: rollouts_text_def comp_def)
  moreover have "one_line l" if "l \<in> set (map (\<lambda>r. dumps_spaced (canon (JObj r))) rs)" for l
    using that written_line(1) assms(3) by auto
  ultimately have "split_lines [] out = map (\<lambda>r. dumps_spaced (canon (JObj r))) rs"
    using o by (metis split_lines_text)
  then show ?thesis
    using assms(2) parse_lines [of rs w 1 "[]"] ok by (simp add: parse_rollouts_def)
qed

definition costly_rollout :: json_object where
  \<comment> \<open>the accepted record with a float cost of a quarter of a dollar\<close>
  "costly_rollout = map (\<lambda>(k, v). (k, if k = ''metrics'' then JObj [(''turns'', JInt 3), (''cost_usd'', JFloat (FDec 25 (- 2)))] else v))
    demo_rollout"

lemma quarter: "to_double (1 / 4) = Fin (1 / 4)"
proof -
  have "(2 :: rat) powi (- 2) = 1 / 4" "(2 :: rat) powi (- 2 + 1) = 1 / 2"
    by (simp_all add: power_int_def power2_eq_square)
  then have "binade (1 / 4) = - 2" by (intro binade_unique) simp_all
  then have "ulp_exponent (1 / 4) \<le> - 2" by (simp add: ulp_exponent_def)
  then have "round_pos (1 / 4) = 1 / 4" using \<open>2 powi (- 2) = 1 / 4\<close> by (intro round_pos_exact [of _ 1 "- 2"]) simp_all
  then have "round_double (1 / 4) = 1 / 4" by (simp add: round_double_def)
  then show ?thesis using double_limit_pos by (simp add: to_double_def Let_def double_limit_def)
qed

lemma quarter_cost: "is_finite (JFloat (FDec 25 (- 2))) = Inr True" "finite_double (to_double (25 * 10 powi (- 2)))"
  using quarter by (simp_all add: is_finite_def finite_double_def power_int_def power2_eq_square)

lemma costly_accepted: "validate_rollout costly_rollout w = Inr ()"
  using quarter_cost
  by (simp add: costly_rollout_def demo_rollout_def validate_rollout_def validate_identity_def validate_statuses_def
      judgement_follows_def validate_origin_def
      validate_runtime_budget_def validate_metric_def validate_attribution_def integer_metrics_def number_metrics_def
      attribution_sources_def require_as_def require_one_of_def one_of_def hashable_def status_of_def raise_if_def
      require_number_def is_finite_small get_default_def dict_get_none_def dec_eq_def Let_def insert_commute)

lemma costly_written: "written_ok costly_rollout"
  by (simp add: written_ok_def costly_rollout_def demo_rollout_def line_str_def break_last_def break_next_def char_code_def)

theorem rollout_file_roundtrip_witness:
  "map_of costly_rollout ''metrics'' = Some (JObj [(''turns'', JInt 3), (''cost_usd'', JFloat (FDec 25 (- 2)))]) \<and>
   write_rollouts [costly_rollout] = Inr (rollouts_text [costly_rollout]) \<and>
   parse_rollouts (rollouts_text [costly_rollout]) ''f'' = Inr [canon_object costly_rollout]"
proof -
  have w: "write_rollouts [costly_rollout] = Inr (rollouts_text [costly_rollout])"
    using costly_accepted by (simp add: write_rollouts_def)
  show ?thesis
    using rollout_file_roundtrip [OF w, of "''f''"] w costly_written
    by (simp add: costly_rollout_def demo_rollout_def)
qed

section \<open>Unicode line breaks\<close>

definition line_separator :: string where
  \<comment> \<open>U+2028\<close>
  "line_separator = [CHR 0xE2, CHR 0x80, CHR 0xA8]"

definition separator_rollout :: json_object where
  "separator_rollout = (''a'', JStr line_separator) # demo_rollout"

lemma separator_accepted: "validate_rollout separator_rollout w = Inr ()"
  by (simp add: separator_rollout_def demo_rollout_def validate_rollout_def validate_identity_def validate_statuses_def
      judgement_follows_def validate_origin_def
      validate_runtime_budget_def validate_metric_def validate_attribution_def integer_metrics_def number_metrics_def
      attribution_sources_def require_as_def require_one_of_def one_of_def hashable_def status_of_def raise_if_def
      require_number_def is_finite_small get_default_def dict_get_none_def dec_eq_def Let_def insert_commute)

lemma separator_text:
  "\<exists>rest. rollouts_text [separator_rollout] = ''{'' @ quote ''a'' @ '': '' @ [dquote] @ line_separator @ rest"
proof -
  have le: "fst kv > ''a''" if "kv \<in> set (canon_object demo_rollout)" for kv
    using that by (auto simp: demo_rollout_def less_char_def)
  have "canon_object separator_rollout = (''a'', JStr line_separator) # canon_object demo_rollout"
    using le by (simp add: separator_rollout_def insort_is_Cons less_imp_le)
  moreover have "canon_object demo_rollout \<noteq> []" by (simp add: demo_rollout_def)
  ultimately show ?thesis
    by (simp add: rollouts_text_def join_with_Cons quote_def line_separator_def escape_char_def char_code_def)
qed

text \<open>C24: a record with U+2028 in a string is accepted and written, and the file then cannot be
  read: JSON does not escape the character, and \<open>str.splitlines\<close> breaks the line at it.\<close>

theorem rollout_file_loses_separator:
  "\<exists>text. write_rollouts [separator_rollout] = Inr text \<and> parse_rollouts text ''f'' = fail ''f:1'' ''invalid JSON''"
proof -
  obtain rest where t: "rollouts_text [separator_rollout] = ''{'' @ quote ''a'' @ '': '' @ [dquote] @ line_separator @ rest"
    using separator_text by blast
  let ?l = "''{'' @ quote ''a'' @ '': '' @ [dquote]"
  have "split_lines [] (?l @ line_separator @ rest) = ?l # split_lines [] rest"
    by (simp add: quote_def escape_char_def line_separator_def char_code_def split_lines.simps Let_def)
  moreover have "loads dict_hook ?l = Inl JSON_Decode"
    by (simp add: quote_def escape_char_def char_code_def loads_def skip_ws_def is_ws_def numeral_eq_Suc)
  moreover have "\<not> blank ?l" by (subst blank.simps) (simp add: char_code_def Let_def)
  ultimately have "parse_rollouts (rollouts_text [separator_rollout]) ''f'' = fail ''f:1'' ''invalid JSON''"
    unfolding t by (simp add: parse_rollouts_def parse_line_def Let_def nat_str.simps digit_char_def char_of_def bit_0)
  moreover have "write_rollouts [separator_rollout] = Inr (rollouts_text [separator_rollout])"
    using separator_accepted by (simp add: write_rollouts_def)
  ultimately show ?thesis by blast
qed

end
