(* ===== verification/Artifact_Suite.thy ===== *)
theory Artifact_Suite
  imports Artifact_Rollout
begin

text \<open>
  \<open>validate_suite\<close> of \<open>scripts/eval/model.py\<close>: the grounding of every task of a suite. What the
  code asks the file system about a path joined to the repository root is a record of the
  model: whether the resolved path stays under the root, is a regular file, is a symbolic link.
\<close>

record repository =
  stays_inside :: "string \<Rightarrow> bool"
  regular_file :: "string \<Rightarrow> bool"
  symbolic_link :: "string \<Rightarrow> bool"

definition layers :: "string list" where
  "layers = [''E'', ''T'', ''C'', ''L'', ''O'', ''V'', ''G'']"

definition distinct_strings :: "json list \<Rightarrow> bool" where
  \<comment> \<open>\<open>len(set(vs)) == len(vs)\<close> of strings\<close>
  "distinct_strings vs \<longleftrightarrow> distinct vs"

section \<open>The environment of a task\<close>

definition validate_snapshot :: "json \<Rightarrow> string \<Rightarrow> unit result" where
  "validate_snapshot v w =
    (case v of
       JNull \<Rightarrow> Inr ()
     | JObj s \<Rightarrow> seqE
        [raise_if (set (keys s) \<noteq> {''revision'', ''prefix'', ''paths''}) w ''expected exactly revision, prefix, and paths'',
         raise_if (\<not> hex_json 40 (field s ''revision'')) (w @ ''.revision'') ''expected a full lowercase Git commit id'',
         raise_if (field s ''prefix'' \<noteq> JStr ''.'' \<and> \<not> is_safe_posix_relative_path (field s ''prefix'') (w @ ''.prefix''))
           (w @ ''.prefix'') ''expected . or a safe repository-relative path'',
         raise_if (case field s ''paths'' of
             JArr ps \<Rightarrow> ps = [] \<or> 64 < length ps \<or>
               \<not> list_all (\<lambda>p. is_safe_posix_relative_path p (w @ ''.paths'')) ps \<or> \<not> distinct_strings ps
           | _ \<Rightarrow> True) (w @ ''.paths'') ''expected 1-64 distinct safe paths relative to prefix'']
     | _ \<Rightarrow> fail w ''expected exactly revision, prefix, and paths'')"

definition validate_environment :: "repository \<Rightarrow> json_object \<Rightarrow> string \<Rightarrow> unit result" where
  "validate_environment repo task w =
    bindE (require_as as_object task ''environment'' w) (\<lambda>environment.
    bindE (require_as as_str environment ''reset'' (w @ ''.environment'')) (\<lambda>_.
    bindE (validate_snapshot (field environment ''repository_snapshot'') (w @ ''.environment.repository_snapshot'')) (\<lambda>_.
    case get_default environment ''fixtures'' (JArr []) of
      JArr fixtures \<Rightarrow> seqE
        [raise_if (\<not> list_all nonempty_str fixtures) (w @ ''.environment.fixtures'') ''expected repo-relative path list'',
         forE (\<lambda>f. case f of
             JStr p \<Rightarrow> seqE
               [raise_if (\<not> stays_inside repo p) (w @ ''.environment.fixtures'') ''path escapes repository root'',
                raise_if (\<not> regular_file repo p) (w @ ''.environment.fixtures'') ''file does not exist'']
           | _ \<Rightarrow> Inr ()) fixtures]
    | _ \<Rightarrow> fail (w @ ''.environment.fixtures'') ''expected repo-relative path list'')))"

section \<open>Tools, constraints and checks\<close>

definition validate_tools :: "json_object \<Rightarrow> string \<Rightarrow> unit result" where
  "validate_tools task w =
    bindE (require_as as_object task ''tools'' w) (\<lambda>tools.
    bindE (require_as as_str tools ''profile'' (w @ ''.tools'')) (\<lambda>_.
    bindE (require_as as_list tools ''required'' (w @ ''.tools'')) (\<lambda>required.
    bindE (raise_if (\<not> list_all nonempty_str required) (w @ ''.tools.required'') ''expected tool-name strings'') (\<lambda>_.
    case field tools ''allowed'' of
      JNull \<Rightarrow> Inr ()
    | JArr allowed \<Rightarrow> seqE
        [raise_if (allowed = [] \<or> \<not> list_all nonempty_str allowed \<or> \<not> distinct_strings allowed)
           (w @ ''.tools.allowed'') ''expected distinct tool-name strings'',
         raise_if (set required - set allowed \<noteq> {}) (w @ ''.tools.allowed'') ''missing required tools'']
    | _ \<Rightarrow> fail (w @ ''.tools.allowed'') ''expected distinct tool-name strings''))))"

definition validate_constraints :: "json_object \<Rightarrow> string \<Rightarrow> unit result" where
  "validate_constraints task w =
    bindE (require_as as_object task ''constraints'' w) (\<lambda>constraints.
    bindE (require_as as_int constraints ''timeout_seconds'' (w @ ''.constraints'')) (\<lambda>timeout.
    bindE (raise_if (timeout \<le> 0) (w @ ''.constraints.timeout_seconds'') ''must be > 0'') (\<lambda>_.
    bindE (require_as as_str constraints ''permission_mode'' (w @ ''.constraints'')) (\<lambda>_. Inr ()))))"

definition validate_success_check :: "repository \<Rightarrow> string \<Rightarrow> nat \<times> json \<Rightarrow> unit result" where
  "validate_success_check repo w iv =
    (let wi = w @ ''.success.checks['' @ nat_str (fst iv) @ '']''
     in case snd iv of
       JObj check \<Rightarrow>
         bindE (validate_check check wi) (\<lambda>_.
         if field check ''type'' = JStr ''validator''
         then (case field check ''validator'' of
             JStr p \<Rightarrow> seqE
               [raise_if (\<not> stays_inside repo p) (wi @ ''.validator'') ''escapes repository root'',
                raise_if (\<not> regular_file repo p \<or> symbolic_link repo p) (wi @ ''.validator'') ''regular file does not exist'']
           | _ \<Rightarrow> Inr ())
         else Inr ())
     | _ \<Rightarrow> fail wi ''expected object'')"

definition validate_success :: "repository \<Rightarrow> json_object \<Rightarrow> string \<Rightarrow> unit result" where
  "validate_success repo task w =
    bindE (require_as as_object task ''success'' w) (\<lambda>success.
    bindE (require_as as_list success ''checks'' (w @ ''.success'')) (\<lambda>checks.
    bindE (raise_if (checks = []) (w @ ''.success.checks'') ''deterministic outcome checks required'') (\<lambda>_.
    forE (validate_success_check repo w) (enumerate 0 checks))))"

definition validate_grader :: "json_object \<Rightarrow> string \<Rightarrow> unit result" where
  "validate_grader task w =
    bindE (require_as as_object task ''grader'' w) (\<lambda>grader.
    forE (\<lambda>k. bindE (require_as as_str grader k (w @ ''.grader'')) (\<lambda>_. Inr ())) [''kind'', ''version''])"

section \<open>Trajectory constraints and their rationale\<close>

definition trajectory_fields :: "string set" where
  "trajectory_fields = {''max_turns'', ''max_tool_calls'', ''max_model_tool_errors'', ''max_harness_tool_errors'',
     ''max_permission_denials'', ''min_permission_denials'', ''required_tools'', ''forbidden_tools'', ''min_tool_counts''}"

definition validate_trajectory_field :: "string \<Rightarrow> string \<times> json \<Rightarrow> unit result" where
  "validate_trajectory_field w kv =
    (let k = fst kv; v = snd kv; wk = w @ ''.trajectory_constraints.'' @ k
     in if k \<notin> trajectory_fields then fail (w @ ''.trajectory_constraints'') ''unknown field''
        else if k \<in> {''required_tools'', ''forbidden_tools''}
        then raise_if (case v of JArr vs \<Rightarrow> \<not> list_all nonempty_str vs | _ \<Rightarrow> True) wk ''expected tool-name list''
        else if k = ''min_tool_counts''
        then raise_if (case v of
               JObj counts \<Rightarrow> counts = [] \<or>
                 \<not> list_all (\<lambda>tc. fst tc \<noteq> [] \<and> (case int_value (snd tc) of Some n \<Rightarrow> 0 < n | None \<Rightarrow> False)) counts
             | _ \<Rightarrow> True) wk ''expected non-empty tool-name to positive integer object''
        else raise_if (case as_int v of Some i \<Rightarrow> i < 0 | None \<Rightarrow> True) wk ''expected integer >= 0'')"

definition has_rationale :: "json_object \<Rightarrow> string \<Rightarrow> bool" where
  "has_rationale rationales k = (case field rationales k of JStr s \<Rightarrow> \<not> blank s | _ \<Rightarrow> False)"

definition validate_trajectory :: "json_object \<Rightarrow> string \<Rightarrow> unit result" where
  "validate_trajectory task w =
    (case get_default task ''trajectory_constraints'' (JObj []) of
       JObj trajectory \<Rightarrow>
         bindE (raise_if (trajectory = []) (w @ ''.trajectory_constraints'') ''at least one trajectory check is required'') (\<lambda>_.
         bindE (forE (validate_trajectory_field w) trajectory) (\<lambda>_.
         bindE (require_as as_object task ''trajectory_rationale'' w) (\<lambda>rationales. seqE
          [raise_if (list_ex (\<lambda>k. \<not> has_rationale rationales k) (keys trajectory))
             (w @ ''.trajectory_rationale'') ''missing product rationale'',
           raise_if (set (keys rationales) - set (keys trajectory) \<noteq> {})
             (w @ ''.trajectory_rationale'') ''no matching constraint''])))
     | _ \<Rightarrow> fail (w @ ''.trajectory_constraints'') ''expected object'')"

section \<open>The suite\<close>

definition validate_layers :: "json_object \<Rightarrow> string \<Rightarrow> json list result" where
  "validate_layers task w =
    bindE (require_as as_list task ''layers'' w) (\<lambda>ls.
    bindE (if ls = [] then Inr False else all_one_of ls layers) (\<lambda>ok.
    bindE (raise_if (\<not> ok) (w @ ''.layers'') ''expected non-empty subset'') (\<lambda>_.
    bindE (raise_if (\<not> distinct_strings ls) (w @ ''.layers'') ''duplicate layer'') (\<lambda>_.
    Inr ls))))"

definition validate_task ::
  "repository \<Rightarrow> nat \<times> json \<Rightarrow> string list \<times> string list \<Rightarrow> (string list \<times> string list) result" where
  \<comment> \<open>the ids seen and the warnings so far\<close>
  "validate_task repo iv st =
    (let w = ''suite.tasks['' @ nat_str (fst iv) @ '']''
     in case snd iv of
       JObj task \<Rightarrow>
         bindE (require_as as_str task ''id'' w) (\<lambda>tid.
         bindE (raise_if (tid \<in> set (fst st)) (w @ ''.id'') ''duplicate task id'') (\<lambda>_.
         bindE (require_as as_str task ''scenario'' w) (\<lambda>scenario.
         bindE (raise_if (\<not> stays_inside repo scenario) (w @ ''.scenario'') ''escapes repository root'') (\<lambda>_.
         bindE (raise_if (\<not> regular_file repo scenario) (w @ ''.scenario'') ''file does not exist'') (\<lambda>_.
         bindE (validate_layers task w) (\<lambda>ls.
         bindE (validate_environment repo task w) (\<lambda>_.
         bindE (validate_tools task w) (\<lambda>_.
         bindE (validate_constraints task w) (\<lambda>_.
         bindE (validate_success repo task w) (\<lambda>_.
         bindE (validate_grader task w) (\<lambda>_.
         bindE (validate_trajectory task w) (\<lambda>_.
         Inr (tid # fst st,
           snd st @ (if JStr ''O'' \<in> set ls then [] else [tid @ '': no Observability coverage tag''])
             @ (if JStr ''V'' \<in> set ls then [] else [tid @ '': no Verification coverage tag'']))))))))))))))
     | _ \<Rightarrow> fail w ''expected object'')"

definition validate_suite :: "repository \<Rightarrow> json_object \<Rightarrow> string list result" where
  "validate_suite repo d =
    bindE (raise_if (\<not> py_eq (field d ''schema_version'') (JInt 1)) ''suite.schema_version'' ''expected 1'') (\<lambda>_.
    bindE (require_as as_str d ''suite_id'' ''suite'') (\<lambda>_.
    bindE (require_as as_list d ''tasks'' ''suite'') (\<lambda>tasks.
    bindE (raise_if (tasks = []) ''suite.tasks'' ''at least one grounded task is required'') (\<lambda>_.
    bindE (foldE (validate_task repo) (enumerate 0 tasks) ([], [])) (\<lambda>st.
    Inr (snd st))))))"

section \<open>What an accepted suite guarantees\<close>

definition task_id_of :: "json \<Rightarrow> string option" where
  "task_id_of v = (case v of JObj t \<Rightarrow> as_str (field t ''id'') | _ \<Rightarrow> None)"

definition required_within_allowed :: "json \<Rightarrow> bool" where
  "required_within_allowed v =
    (case v of JObj t \<Rightarrow> (case field t ''tools'' of
        JObj tools \<Rightarrow> (case (field tools ''required'', field tools ''allowed'') of
            (JArr required, JArr allowed) \<Rightarrow> set required \<subseteq> set allowed
          | (JArr required, JNull) \<Rightarrow> True
          | _ \<Rightarrow> False)
      | _ \<Rightarrow> False)
    | _ \<Rightarrow> False)"

definition scenario_grounded :: "repository \<Rightarrow> json \<Rightarrow> bool" where
  "scenario_grounded repo v =
    (case v of JObj t \<Rightarrow> (case field t ''scenario'' of
        JStr s \<Rightarrow> stays_inside repo s \<and> regular_file repo s
      | _ \<Rightarrow> False)
    | _ \<Rightarrow> False)"

definition rationale_complete :: "json \<Rightarrow> bool" where
  \<comment> \<open>every constraint of the trajectory has a rationale, and no rationale is left over\<close>
  "rationale_complete v =
    (case v of JObj t \<Rightarrow> (case (field t ''trajectory_constraints'', field t ''trajectory_rationale'') of
        (JObj cs, JObj rs) \<Rightarrow> cs \<noteq> [] \<and> set (keys rs) = set (keys cs) \<and> (\<forall>k \<in> set (keys cs). has_rationale rs k)
      | _ \<Rightarrow> False)
    | _ \<Rightarrow> False)"

lemma validate_tools_within:
  assumes "validate_tools t w = Inr u"
  shows "required_within_allowed (JObj t)"
proof -
  obtain tools required where t: "field t ''tools'' = JObj tools" "field tools ''required'' = JArr required"
    and a: "(case field tools ''allowed'' of
      JNull \<Rightarrow> Inr ()
    | JArr allowed \<Rightarrow> seqE
        [raise_if (allowed = [] \<or> \<not> list_all nonempty_str allowed \<or> \<not> distinct_strings allowed)
           (w @ ''.tools.allowed'') ''expected distinct tool-name strings'',
         raise_if (set required - set allowed \<noteq> {}) (w @ ''.tools.allowed'') ''missing required tools'']
    | _ \<Rightarrow> fail (w @ ''.tools.allowed'') ''expected distinct tool-name strings'') = Inr u"
    using assms by (auto simp: validate_tools_def bindE_eq_Inr check_simps field_present)
  show ?thesis
    using a by (cases "field tools ''allowed''") (auto simp: required_within_allowed_def t bindE_eq_Inr check_simps)
qed

lemma has_rationale_key: "has_rationale rs k \<Longrightarrow> k \<in> set (keys rs)"
proof (rule ccontr)
  assume "has_rationale rs k" and "k \<notin> set (keys rs)"
  then show False by (simp add: has_rationale_def dict_get_none_def map_of_eq_None_keys [THEN iffD2])
qed

lemma validate_trajectory_complete:
  assumes "validate_trajectory t w = Inr u"
  shows "rationale_complete (JObj t)"
proof -
  obtain cs rs where cs: "get_default t ''trajectory_constraints'' (JObj []) = JObj cs" "cs \<noteq> []"
    and rs: "map_of t ''trajectory_rationale'' = Some (JObj rs)"
    and all: "\<not> list_ex (\<lambda>k. \<not> has_rationale rs k) (keys cs)" "set (keys rs) - set (keys cs) = {}"
    using assms by (auto simp: validate_trajectory_def bindE_eq_Inr check_simps split: json.splits)
  have "field t ''trajectory_constraints'' = JObj cs"
    using cs by (auto simp: get_default_def dict_get_none_def split: option.splits)
  moreover have r: "\<forall>k \<in> set (keys cs). has_rationale rs k" using all(1) by (simp add: list_ex_iff)
  moreover have "set (keys rs) = set (keys cs)" using all(2) r has_rationale_key [of rs] by blast
  ultimately show ?thesis
    using cs(2) field_present [OF rs] by (simp add: rationale_complete_def)
qed

lemma validate_task_Inr:
  assumes "validate_task repo (i, v) st = Inr st'"
  shows "\<exists>tid. task_id_of v = Some tid \<and> tid \<notin> set (fst st) \<and> fst st' = tid # fst st" and "scenario_grounded repo v"
    and "required_within_allowed v" and "rationale_complete v"
proof -
  obtain t where v: "v = JObj t" using assms by (cases v) (auto simp: validate_task_def Let_def)
  obtain tid scenario ls where id: "require_as as_str t ''id'' (''suite.tasks['' @ nat_str i @ '']'') = Inr tid"
    and new: "raise_if (tid \<in> set (fst st)) (''suite.tasks['' @ nat_str i @ ''].id'') ''duplicate task id'' = Inr ()"
    and sc: "require_as as_str t ''scenario'' (''suite.tasks['' @ nat_str i @ '']'') = Inr scenario"
    and inside: "raise_if (\<not> stays_inside repo scenario) (''suite.tasks['' @ nat_str i @ ''].scenario'') ''escapes repository root'' = Inr ()"
    and reg: "raise_if (\<not> regular_file repo scenario) (''suite.tasks['' @ nat_str i @ ''].scenario'') ''file does not exist'' = Inr ()"
    and tools: "validate_tools t (''suite.tasks['' @ nat_str i @ '']'') = Inr ()"
    and traj: "validate_trajectory t (''suite.tasks['' @ nat_str i @ '']'') = Inr ()"
    and st': "fst st' = tid # fst st"
    using assms unfolding v by (auto simp: validate_task_def Let_def bindE_eq_Inr)
  show "\<exists>tid. task_id_of v = Some tid \<and> tid \<notin> set (fst st) \<and> fst st' = tid # fst st"
    using id new st' by (auto simp: v task_id_of_def check_simps field_present)
  show "scenario_grounded repo v"
    using sc inside reg by (auto simp: v scenario_grounded_def check_simps field_present)
  show "required_within_allowed v" using validate_tools_within [OF tools] by (simp add: v)
  show "rationale_complete v" using validate_trajectory_complete [OF traj] by (simp add: v)
qed

definition grounded :: "repository \<Rightarrow> json \<Rightarrow> bool" where
  "grounded repo v \<longleftrightarrow> scenario_grounded repo v \<and> required_within_allowed v \<and> rationale_complete v"

lemma validate_tasks:
  "foldE (validate_task repo) (enumerate n vs) st = Inr st' \<Longrightarrow> distinct (fst st) \<Longrightarrow>
   distinct (fst st') \<and> (\<exists>ids. map task_id_of vs = map Some ids \<and> fst st' = rev ids @ fst st) \<and> (\<forall>v \<in> set vs. grounded repo v)"
proof (induction vs arbitrary: n st)
  case (Cons v vs)
  from Cons.prems(1) obtain s where s: "validate_task repo (n, v) st = Inr s"
    and r: "foldE (validate_task repo) (enumerate (Suc n) vs) s = Inr st'"
    by (auto simp: bindE_eq_Inr)
  note step = validate_task_Inr [OF s]
  obtain tid where tid: "task_id_of v = Some tid" "tid \<notin> set (fst st)" "fst s = tid # fst st" using step(1) by blast
  from Cons.IH [OF r] tid Cons.prems(2) obtain ids where ids: "distinct (fst st')" "map task_id_of vs = map Some ids"
    "fst st' = rev ids @ fst s" "\<forall>v \<in> set vs. grounded repo v" by auto
  then show ?case
    using tid step by (auto simp: grounded_def intro!: exI [of _ "tid # ids"])
qed simp

text \<open>C22: an accepted suite is grounded: its task ids are pairwise distinct; every scenario is a
  regular file under the repository root; the tools a task requires are among those it allows;
  and its trajectory constraints and their rationales match one for one.\<close>

theorem suite_grounded:
  assumes "validate_suite repo d = Inr warnings"
  shows "\<exists>tasks ids. map_of d ''tasks'' = Some (JArr tasks) \<and> tasks \<noteq> [] \<and>
    map task_id_of tasks = map Some ids \<and> distinct ids \<and>
    (\<forall>t \<in> set tasks. scenario_grounded repo t \<and> required_within_allowed t \<and> rationale_complete t)"
proof -
  obtain tasks st where t: "map_of d ''tasks'' = Some (JArr tasks)" "tasks \<noteq> []"
    and f: "foldE (validate_task repo) (enumerate 0 tasks) ([], []) = Inr st"
    using assms by (auto simp: validate_suite_def bindE_eq_Inr check_simps)
  from validate_tasks [OF f] t show ?thesis by (auto simp: grounded_def)
qed

definition demo_suite :: json_object where
  "demo_suite = [(''schema_version'', JInt 1), (''suite_id'', JStr ''s''), (''tasks'', JArr [JObj
     [(''id'', JStr ''t1''), (''scenario'', JStr ''evals/t1.md''), (''layers'', JArr [JStr ''E'', JStr ''O'']),
      (''environment'', JObj [(''reset'', JStr ''fresh'')]),
      (''tools'', JObj [(''profile'', JStr ''p''), (''required'', JArr [JStr ''Read'']), (''allowed'', JArr [JStr ''Edit'', JStr ''Read''])]),
      (''constraints'', JObj [(''timeout_seconds'', JInt 60), (''permission_mode'', JStr ''ask'')]),
      (''success'', JObj [(''checks'', JArr [JObj [(''type'', JStr ''file_exists''), (''path'', JStr ''out.txt'')]])]),
      (''grader'', JObj [(''kind'', JStr ''k''), (''version'', JStr ''1'')]),
      (''trajectory_constraints'', JObj [(''max_turns'', JInt 9)]),
      (''trajectory_rationale'', JObj [(''max_turns'', JStr ''short'')])]])]"

definition demo_repository :: repository where
  "demo_repository = \<lparr>stays_inside = (\<lambda>_. True), regular_file = (\<lambda>p. p = ''evals/t1.md''), symbolic_link = (\<lambda>_. False)\<rparr>"

lemma demo_suite_accepted: "validate_suite demo_repository demo_suite = Inr [''t1: no Verification coverage tag'']"
proof -
  have p: "is_safe_posix_relative_path (JStr ''out.txt'') w" for w
    by (auto simp: safe_path_iff safe_parts_def slash_def intro!: exI [of _ "[''out.txt'']"])
  have b: "\<not> blank ''short''" by (subst blank.simps) (simp add: Let_def char_code_def)
  show ?thesis
    using p b by (simp add: validate_suite_def demo_suite_def demo_repository_def validate_task_def validate_layers_def
      layers_def distinct_strings_def validate_environment_def validate_snapshot_def validate_tools_def
      validate_constraints_def validate_success_def validate_success_check_def validate_check_def check_types_def
      path_kinds_def text_kinds_def validate_grader_def validate_trajectory_def validate_trajectory_field_def
      trajectory_fields_def has_rationale_def require_as_def one_of_def hashable_def get_default_def raise_if_def
      dict_get_none_def dec_eq_def Let_def is_prefix_def)
qed

theorem suite_grounded_witness:
  "validate_suite demo_repository demo_suite = Inr [''t1: no Verification coverage tag''] \<and>
   (\<exists>tasks ids. map_of demo_suite ''tasks'' = Some (JArr tasks) \<and> map task_id_of tasks = map Some ids \<and> distinct ids)"
  using suite_grounded [OF demo_suite_accepted] demo_suite_accepted by blast

end
