(* ===== verification/Experiment_Schedule.thy ===== *)
theory Experiment_Schedule
  imports Checks
begin

text \<open>
  The counterbalanced schedule of \<open>scripts/eval/experiment.py\<close>: cyclic shifts of the arms and of
  the arms with all but the first reversed, repeated for every block of trials. Each arm takes
  each position equally often for any number of arms; each arm follows each other arm equally
  often for the three arms the experiments use, and not in general.
\<close>

definition arm_ids :: "string list" where
  "arm_ids = [''codex_style'', ''claude_style'', ''tinykg'']"

definition shifts :: "'a list \<Rightarrow> 'a list list" where
  \<comment> \<open>\<open>seed[offset:] + seed[:offset]\<close> for each offset\<close>
  "shifts seed = map (\<lambda>k. drop k seed @ take k seed) [0..<length seed]"

definition reversed_tail :: "'a list \<Rightarrow> 'a list" where
  "reversed_tail arms = take 1 arms @ rev (drop 1 arms)"

definition schedule_rows :: "'a list \<Rightarrow> 'a list list" where
  "schedule_rows arms = shifts arms @ shifts (reversed_tail arms)"

definition counterbalanced_schedule :: "string list \<Rightarrow> int \<Rightarrow> (nat \<times> string) list result" where
  "counterbalanced_schedule arms trials =
    (let block = 2 * length arms
     in if length arms < 2 \<or> \<not> distinct arms
        then fail [] ''multi-arm schedule requires distinct arm ids''
        else if trials \<le> 0 \<or> trials mod int block \<noteq> 0
        then fail [] ''trials must be a positive multiple of the block size''
        else Inr (concat (map (\<lambda>t. map (Pair t) (schedule_rows arms ! (t mod block))) [0..<nat trials])))"

section \<open>Shape\<close>

lemma length_shifts [simp]: "length (shifts s) = length s"
  by (simp add: shifts_def)

lemma shift_row: "k < length s \<Longrightarrow> shifts s ! k = drop k s @ take k s"
  by (simp add: shifts_def)

lemma shift_row_nth:
  assumes "k < length s" and "p < length s"
  shows "shifts s ! k ! p = s ! ((k + p) mod length s)"
proof -
  have "shifts s ! k = rotate k s" using assms(1) by (simp add: shift_row rotate_drop_take)
  then show ?thesis using assms by (simp add: nth_rotate)
qed

lemma reversed_tail_simps [simp]:
  "length (reversed_tail arms) = length arms" "set (reversed_tail arms) = set arms"
  "distinct (reversed_tail arms) = distinct arms"
  by (cases arms; simp add: reversed_tail_def)+

lemma length_schedule_rows [simp]: "length (schedule_rows arms) = 2 * length arms"
  by (simp add: schedule_rows_def)

lemma schedule_row:
  assumes "r < 2 * length arms" and "p < length arms"
  shows "schedule_rows arms ! r ! p =
    (if r < length arms then arms ! ((r + p) mod length arms)
     else reversed_tail arms ! ((r - length arms + p) mod length arms))"
  using assms shift_row_nth [of r arms p] shift_row_nth [of "r - length arms" "reversed_tail arms" p]
  by (auto simp: schedule_rows_def nth_append)

lemma length_schedule_row: "r < 2 * length arms \<Longrightarrow> length (schedule_rows arms ! r) = length arms"
  using reversed_tail_simps(1) [of arms]
  by (auto simp: schedule_rows_def nth_append shift_row)

lemma length_concat_const:
  "(\<And>x. x \<in> set xs \<Longrightarrow> length (f x) = n) \<Longrightarrow> length (concat (map f xs)) = n * length xs"
  by (induction xs) auto

lemma nth_concat_const:
  "(\<And>x. x \<in> set xs \<Longrightarrow> length (f x) = n) \<Longrightarrow> t < length xs \<Longrightarrow> p < n \<Longrightarrow>
   concat (map f xs) ! (t * n + p) = f (xs ! t) ! p"
proof (induction xs arbitrary: t)
  case (Cons x xs)
  then show ?case by (cases t) (auto simp: nth_append add.assoc)
qed simp

lemma schedule_Inr:
  assumes "counterbalanced_schedule arms trials = Inr s"
  shows "2 \<le> length arms" "distinct arms" "0 < trials" "trials mod (2 * int (length arms)) = 0"
    and "length s = length arms * nat trials"
    and "\<And>t p. t < nat trials \<Longrightarrow> p < length arms \<Longrightarrow>
      s ! (t * length arms + p) = (t, schedule_rows arms ! (t mod (2 * length arms)) ! p)"
proof -
  let ?n = "length arms"
  let ?f = "\<lambda>t. map (Pair t) (schedule_rows arms ! (t mod (2 * ?n)))"
  show c: "2 \<le> ?n" "distinct arms" "0 < trials" "trials mod (2 * int ?n) = 0"
    using assms by (auto simp: counterbalanced_schedule_def Let_def split: if_splits)
  have s: "s = concat (map ?f [0..<nat trials])"
    using assms by (auto simp: counterbalanced_schedule_def Let_def split: if_splits)
  have m: "t mod (2 * ?n) < 2 * ?n" for t using c(1) by (intro mod_less_divisor) linarith
  have l: "length (?f t) = ?n" for t using m [of t] by (simp add: length_schedule_row)
  show "length s = ?n * nat trials" using length_concat_const [of "[0..<nat trials]" ?f ?n] l s by simp
  show "s ! (t * ?n + p) = (t, schedule_rows arms ! (t mod (2 * ?n)) ! p)" if "t < nat trials" "p < ?n" for t p
    using nth_concat_const [of "[0..<nat trials]" ?f ?n t p] l that m [of t] unfolding s
    by (simp add: length_schedule_row)
qed

section \<open>Counting over blocks\<close>

lemma card_periodic:
  fixes P :: "nat \<Rightarrow> bool"
  assumes "0 < b"
  shows "card {t. t < m * b \<and> P (t mod b)} = m * card {r. r < b \<and> P r}"
proof (induction m)
  case (Suc m)
  have "{t. t < Suc m * b \<and> P (t mod b)} =
      {t. t < m * b \<and> P (t mod b)} \<union> (\<lambda>r. m * b + r) ` {r. r < b \<and> P r}"
  proof (intro equalityI subsetI)
    fix t assume t: "t \<in> {t. t < Suc m * b \<and> P (t mod b)}"
    show "t \<in> {t. t < m * b \<and> P (t mod b)} \<union> (\<lambda>r. m * b + r) ` {r. r < b \<and> P r}"
    proof (cases "t < m * b")
      case False
      then have "t - m * b < b" "t = m * b + (t - m * b)" using t by auto
      moreover from this have "(t - m * b) = t mod b" by (metis mod_less mod_mult_self3)
      ultimately show ?thesis using t by (intro UnI2 image_eqI [of _ _ "t - m * b"]) auto
    qed (use t in simp)
  qed auto
  moreover have "card ((\<lambda>r. m * b + r) ` {r. r < b \<and> P r}) = card {r. r < b \<and> P r}"
    by (intro card_image) (simp add: inj_on_def)
  moreover have "{t. t < m * b \<and> P (t mod b)} \<inter> (\<lambda>r. m * b + r) ` {r. r < b \<and> P r} = {}" by auto
  ultimately show ?case using Suc by (simp add: card_Un_disjoint)
qed simp

lemma card_one_shift:
  assumes "distinct s" and "a \<in> set s" and "p < length s"
  shows "card {k. k < length s \<and> s ! ((k + p) mod length s) = a} = 1"
proof -
  let ?n = "length s"
  have n: "0 < ?n" using assms(3) by linarith
  obtain i where i: "i < ?n" "s ! i = a" using assms(2) by (metis in_set_conv_nth)
  have "{k. k < ?n \<and> s ! ((k + p) mod ?n) = a} = {(i + (?n - p)) mod ?n}"
  proof (intro equalityI subsetI)
    fix k assume "k \<in> {k. k < ?n \<and> s ! ((k + p) mod ?n) = a}"
    then have k: "k < ?n" "(k + p) mod ?n = i" using assms(1) i n by (auto simp: nth_eq_iff_index_eq)
    then have "(i + (?n - p)) mod ?n = (k + p + (?n - p)) mod ?n" by (metis mod_add_left_eq)
    then show "k \<in> {(i + (?n - p)) mod ?n}" using k(1) assms(3) by simp
  next
    fix k assume "k \<in> {(i + (?n - p)) mod ?n}"
    then have k: "k = (i + (?n - p)) mod ?n" by simp
    have "(k + p) mod ?n = (i + (?n - p) + p) mod ?n" unfolding k by (rule mod_add_left_eq)
    then have "(k + p) mod ?n = i" using i(1) assms(3) by simp
    then show "k \<in> {k. k < ?n \<and> s ! ((k + p) mod ?n) = a}" using i n k by simp
  qed
  then show ?thesis by simp
qed

text \<open>C25: the schedule is balanced by position. For any number of distinct arms, over all trials
  each arm is run in each position of the order equally often.\<close>

theorem schedule_balances_positions:
  assumes "counterbalanced_schedule arms trials = Inr s" and "a \<in> set arms" and "p < length arms"
  shows "card {t. t < nat trials \<and> s ! (t * length arms + p) = (t, a)} * length arms = nat trials"
proof -
  let ?n = "length arms"
  note s = schedule_Inr [OF assms(1)]
  let ?P = "\<lambda>r. schedule_rows arms ! r ! p = a"
  obtain m where m: "nat trials = m * (2 * ?n)"
  proof -
    have "int (2 * ?n) dvd trials" using s(4) by (simp add: dvd_eq_mod_eq_0)
    then obtain k where "trials = int (2 * ?n) * k" by (auto simp: dvd_def)
    then have "nat trials = nat k * (2 * ?n)" using s(3) by (simp add: nat_mult_distrib)
    then show thesis by (rule that)
  qed
  have "{r. r < 2 * ?n \<and> ?P r} = {k. k < ?n \<and> arms ! ((k + p) mod ?n) = a} \<union>
      (\<lambda>k. ?n + k) ` {k. k < ?n \<and> reversed_tail arms ! ((k + p) mod ?n) = a}"
  proof (intro equalityI subsetI)
    fix r assume r: "r \<in> {r. r < 2 * ?n \<and> ?P r}"
    then show "r \<in> {k. k < ?n \<and> arms ! ((k + p) mod ?n) = a} \<union>
        (\<lambda>k. ?n + k) ` {k. k < ?n \<and> reversed_tail arms ! ((k + p) mod ?n) = a}"
      using assms(3) by (cases "r < ?n") (auto simp: schedule_row intro!: image_eqI [of _ _ "r - ?n"])
  next
    fix r assume "r \<in> {k. k < ?n \<and> arms ! ((k + p) mod ?n) = a} \<union>
        (\<lambda>k. ?n + k) ` {k. k < ?n \<and> reversed_tail arms ! ((k + p) mod ?n) = a}"
    then show "r \<in> {r. r < 2 * ?n \<and> ?P r}" using assms(3) by (auto simp: schedule_row)
  qed
  moreover have "card ({k. k < ?n \<and> arms ! ((k + p) mod ?n) = a} \<union>
      (\<lambda>k. ?n + k) ` {k. k < ?n \<and> reversed_tail arms ! ((k + p) mod ?n) = a}) =
      card {k. k < ?n \<and> arms ! ((k + p) mod ?n) = a} +
      card ((\<lambda>k. ?n + k) ` {k. k < ?n \<and> reversed_tail arms ! ((k + p) mod ?n) = a})"
    by (intro card_Un_disjoint) auto
  moreover have "card ((\<lambda>k. ?n + k) ` {k. k < ?n \<and> reversed_tail arms ! ((k + p) mod ?n) = a}) = 1"
    using card_one_shift [of "reversed_tail arms" a p] assms(2,3) s(2) by (subst card_image) (simp_all add: inj_on_def)
  ultimately have "card {r. r < 2 * ?n \<and> ?P r} = 2"
    using card_one_shift [OF s(2) assms(2,3)] by simp
  moreover have "{t. t < nat trials \<and> s ! (t * ?n + p) = (t, a)} = {t. t < m * (2 * ?n) \<and> ?P (t mod (2 * ?n))}"
    using s(6) [OF _ assms(3)] by (auto simp: m)
  moreover have "card {t. t < m * (2 * ?n) \<and> ?P (t mod (2 * ?n))} = m * card {r. r < 2 * ?n \<and> ?P r}"
    using s(1) by (intro card_periodic) linarith
  ultimately show ?thesis by (simp add: m)
qed

lemma arm_schedule_exists: "\<exists>s. counterbalanced_schedule arm_ids 12 = Inr s"
  by (simp add: counterbalanced_schedule_def arm_ids_def)

theorem schedule_balances_positions_witness:
  "\<exists>s. counterbalanced_schedule arm_ids 12 = Inr s \<and>
     card {t. t < 12 \<and> s ! (t * 3 + 1) = (t, ''tinykg'')} = 4"
proof -
  obtain s where s: "counterbalanced_schedule arm_ids 12 = Inr s" using arm_schedule_exists by blast
  have l: "length arm_ids = 3" "''tinykg'' \<in> set arm_ids" by (simp_all add: arm_ids_def)
  from schedule_balances_positions [OF s l(2), of 1] l s show ?thesis by simp
qed

section \<open>Carryover\<close>

definition follows :: "(nat \<times> string) list \<Rightarrow> nat \<Rightarrow> nat \<Rightarrow> nat \<Rightarrow> string \<Rightarrow> string \<Rightarrow> bool" where
  \<comment> \<open>in trial \<open>t\<close>, \<open>b\<close> runs right after \<open>a\<close>, which is in position \<open>p\<close>\<close>
  "follows s n t p a b \<longleftrightarrow> s ! (t * n + p) = (t, a) \<and> s ! (t * n + Suc p) = (t, b)"

definition carryovers :: "(nat \<times> string) list \<Rightarrow> nat \<Rightarrow> nat \<Rightarrow> string \<Rightarrow> string \<Rightarrow> nat" where
  \<comment> \<open>how often \<open>b\<close> runs right after \<open>a\<close> in a schedule of \<open>n\<close> arms\<close>
  "carryovers s n trials a b = (\<Sum>p < n - 1. card {t. t < trials \<and> follows s n t p a b})"

lemma carryovers_block:
  assumes "counterbalanced_schedule arms trials = Inr s"
  shows "carryovers s (length arms) (nat trials) a b =
    nat trials div (2 * length arms) *
      (\<Sum>p < length arms - 1. card {r. r < 2 * length arms \<and>
        schedule_rows arms ! r ! p = a \<and> schedule_rows arms ! r ! Suc p = b})"
proof -
  let ?n = "length arms"
  note s = schedule_Inr [OF assms]
  let ?P = "\<lambda>p r. schedule_rows arms ! r ! p = a \<and> schedule_rows arms ! r ! Suc p = b"
  let ?m = "nat trials div (2 * ?n)"
  have "int (nat trials mod (2 * ?n)) = 0" using s(3,4) by (simp add: zmod_int)
  then have m: "nat trials = ?m * (2 * ?n)" by (metis add.right_neutral div_mult_mod_eq of_nat_eq_0_iff)
  have "card {t. t < nat trials \<and> follows s ?n t p a b} = ?m * card {r. r < 2 * ?n \<and> ?P p r}" if "p < ?n - 1" for p
  proof -
    have "follows s ?n t p a b \<longleftrightarrow> ?P p (t mod (2 * ?n))" if t: "t < nat trials" for t
      using s(6) [OF t, of p] s(6) [OF t, of "Suc p"] \<open>p < ?n - 1\<close> by (auto simp: follows_def)
    then have "{t. t < nat trials \<and> follows s ?n t p a b} = {t. t < nat trials \<and> ?P p (t mod (2 * ?n))}" by blast
    also have "\<dots> = {t. t < ?m * (2 * ?n) \<and> ?P p (t mod (2 * ?n))}" by (simp only: m [symmetric])
    finally have "card {t. t < nat trials \<and> follows s ?n t p a b} =
      card {t. t < ?m * (2 * ?n) \<and> ?P p (t mod (2 * ?n))}" by (rule arg_cong)
    also have "\<dots> = ?m * card {r. r < 2 * ?n \<and> ?P p r}"
      using s(1) by (intro card_periodic) linarith
    finally show ?thesis .
  qed
  then show ?thesis by (simp add: carryovers_def sum_distrib_left)
qed

lemma card_below_filter: "card {r :: nat. r < n \<and> P r} = length (filter P [0..<n])"
  by (subst distinct_card [symmetric]) (auto intro: arg_cong [where f = card])

text \<open>C26: for the three arms of the experiments the schedule is balanced by carryover as well:
  over all trials each arm runs right after each other arm equally often, in a third of the
  trials.\<close>

theorem schedule_balances_carryover:
  assumes "counterbalanced_schedule arm_ids trials = Inr s"
    and "a \<in> set arm_ids" and "b \<in> set arm_ids" and "a \<noteq> b"
  shows "carryovers s 3 (nat trials) a b * 3 = nat trials"
proof -
  have n: "length arm_ids = 3" by (simp add: arm_ids_def)
  have rows: "schedule_rows arm_ids =
     [[''codex_style'', ''claude_style'', ''tinykg''], [''claude_style'', ''tinykg'', ''codex_style''],
      [''tinykg'', ''codex_style'', ''claude_style''], [''codex_style'', ''tinykg'', ''claude_style''],
      [''tinykg'', ''claude_style'', ''codex_style''], [''claude_style'', ''codex_style'', ''tinykg'']]"
    by (simp add: schedule_rows_def reversed_tail_def shifts_def arm_ids_def upt_rec)
  have two: "(\<Sum>p < 2. card {r. r < 6 \<and> schedule_rows arm_ids ! r ! p = a \<and> schedule_rows arm_ids ! r ! Suc p = b}) = 2"
    using assms(2-4) unfolding card_below_filter rows
    by (auto simp: arm_ids_def upt_rec numeral_2_eq_2 lessThan_Suc)
  note s = schedule_Inr [OF assms(1), unfolded n]
  have "int (nat trials mod 6) = 0" using s(3,4) by (simp add: zmod_int)
  then have "nat trials = nat trials div 6 * 6" by (metis add.right_neutral div_mult_mod_eq of_nat_eq_0_iff)
  then show ?thesis using carryovers_block [OF assms(1), of a b, unfolded n] two by simp
qed

theorem schedule_balances_carryover_witness:
  "\<exists>s. counterbalanced_schedule arm_ids 12 = Inr s \<and> carryovers s 3 12 ''tinykg'' ''codex_style'' = 4"
proof -
  obtain s where s: "counterbalanced_schedule arm_ids 12 = Inr s" using arm_schedule_exists by blast
  have "carryovers s 3 (nat 12) ''tinykg'' ''codex_style'' * 3 = nat 12"
    by (rule schedule_balances_carryover [OF s]) (simp_all add: arm_ids_def)
  then show ?thesis using s by simp
qed

text \<open>With four arms the accepted schedule is not balanced by carryover: the second arm runs
  right after the first in three trials out of eight, and the third never does.\<close>

theorem schedule_four_arms_unbalanced:
  "\<exists>s. counterbalanced_schedule [''a'', ''b'', ''c'', ''d''] 8 = Inr s \<and>
     carryovers s 4 8 ''a'' ''b'' = 3 \<and> carryovers s 4 8 ''a'' ''c'' = 0"
proof -
  let ?arms = "[''a'', ''b'', ''c'', ''d'']"
  have "\<exists>s. counterbalanced_schedule ?arms 8 = Inr s"
    by (simp add: counterbalanced_schedule_def)
  then obtain s where s: "counterbalanced_schedule ?arms 8 = Inr s" by blast
  have rows: "schedule_rows ?arms =
     [[''a'', ''b'', ''c'', ''d''], [''b'', ''c'', ''d'', ''a''], [''c'', ''d'', ''a'', ''b''], [''d'', ''a'', ''b'', ''c''],
      [''a'', ''d'', ''c'', ''b''], [''d'', ''c'', ''b'', ''a''], [''c'', ''b'', ''a'', ''d''], [''b'', ''a'', ''d'', ''c'']]"
    by (simp add: schedule_rows_def reversed_tail_def shifts_def upt_rec)
  have c: "(\<Sum>p < 3. card {r. r < 8 \<and> schedule_rows ?arms ! r ! p = ''a'' \<and> schedule_rows ?arms ! r ! Suc p = ''b''}) = 3"
    "(\<Sum>p < 3. card {r. r < 8 \<and> schedule_rows ?arms ! r ! p = ''a'' \<and> schedule_rows ?arms ! r ! Suc p = ''c''}) = 0"
    unfolding card_below_filter rows by (simp_all add: upt_rec numeral_3_eq_3 lessThan_Suc)
  have n: "length ?arms = 4" by simp
  have v: "nat 8 div (2 * 4) = 1" "(2 :: nat) * 4 = 8" "(4 :: nat) - 1 = 3" "nat 8 = 8"
    "(8 :: nat) div 8 = 1" by simp_all
  have "carryovers s 4 8 ''a'' ''b'' = 3" "carryovers s 4 8 ''a'' ''c'' = 0"
    using carryovers_block [OF s, of "''a''" "''b''"] carryovers_block [OF s, of "''a''" "''c''"]
    by (simp_all only: n v c mult_0_right mult_1)
  then show ?thesis using s by blast
qed

end
