(* ===== verification/Experiment_Contract.thy ===== *)
theory Experiment_Contract
  imports Artifact_Suite Experiment_Schedule Utf8 Sha256
begin

text \<open>
  \<open>validate_experiment\<close> of \<open>scripts/eval/experiment.py\<close>: the frozen contract of an experiment,
  part by part in the order of the code, and the recursion of a confirmatory experiment into the
  manifest of its calibration. The recursion is fuel: the argument is the depth of Python frames
  left, and \<open>0\<close> is the \<open>RecursionError\<close>. A resolved path is never a symbolic link, so the code's
  test for one on resolved paths is left out.
\<close>

section \<open>Constants\<close>

definition experiment_keys :: "string set" where
  "experiment_keys = {''schema_version'', ''program_id'', ''experiment_id'', ''stage'', ''suite'', ''model'',
     ''trials'', ''arms'', ''common_runtime'', ''schedule'', ''grading'', ''invalid_policy'', ''budget'',
     ''promotion'', ''stop_rules''}"

definition treatment_keys :: "string list" where
  "treatment_keys = [''transcript'', ''compact_summary'', ''memory_markdown'', ''tinykg'', ''task_dag'',
     ''formal_audit'', ''swarm'']"

definition expected_treatments :: "string \<Rightarrow> json option" where
  "expected_treatments arm =
    (let treatment = (\<lambda>markdown tinykg. Some (JObj (zip treatment_keys
          (map JBool [True, True, markdown, tinykg, tinykg, tinykg, False]))))
     in if arm = ''codex_style'' then treatment False False
        else if arm = ''claude_style'' then treatment True False
        else if arm = ''tinykg'' then treatment True True
        else None)"

definition legacy_budget_keys :: "string set" where
  "legacy_budget_keys = {''max_stage_cost_usd'', ''max_stage_tokens'', ''max_aggregate_cost_usd'',
     ''max_aggregate_tokens'', ''paid_rollouts_enabled''}"

definition fixed_rollout_budget_keys :: "string set" where
  "fixed_rollout_budget_keys = {''max_rollout_cost_usd'', ''max_rollout_tokens''}"

definition blind_workspace_checks :: "string list" where
  "blind_workspace_checks = [''file_exists'', ''file_absent'', ''contains'', ''contains_casefold'', ''contains_any'',
     ''not_contains'', ''not_contains_casefold'', ''min_lines'', ''validator'']"

definition confirmatory_prompt_leak_terms :: "string list" where
  "confirmatory_prompt_leak_terms = [''tinykg'', ''codex'', ''claude'', ''long-horizon mechanism'',
     ''configured long-horizon'', ''memory mechanism'', ''arm identity'']"

section \<open>Files\<close>

record experiment_files = repository +
  file_text :: "string \<Rightarrow> string option"
  \<comment> \<open>the bytes of the file at the path joined to the root; \<open>None\<close> is an \<open>OSError\<close>\<close>

definition load_json :: "experiment_files \<Rightarrow> string \<Rightarrow> json_object result" where
  "load_json files p =
    (case file_text files p of
       None \<Rightarrow> fail p ''cannot read JSON''
     | Some s \<Rightarrow>
         if \<not> utf8_valid s then Inl (Value_Error ''invalid UTF-8'')
         else (case loads dict_hook s of
             Inl _ \<Rightarrow> fail p ''cannot read JSON''
           | Inr v \<Rightarrow> (case v of JObj d \<Rightarrow> Inr d | _ \<Rightarrow> fail p ''top-level JSON value must be an object'')))"

text \<open>
  \<open>str.lower\<close> as far as its ASCII characters go: besides the capital letters, the Kelvin sign
  and the dotted capital I have a lower case with an ASCII letter.
\<close>

fun lower :: "string \<Rightarrow> string" where
  "lower [] = []"
| "lower (c # s) =
    (let x = char_code c
     in if 65 \<le> x \<and> x \<le> 90 then char_of (x + 32) # lower s
        else case s of
            d # e # r \<Rightarrow>
              if x = 0xE2 \<and> char_code d = 0x84 \<and> char_code e = 0xAA then CHR ''k'' # lower r
              else if x = 0xC4 \<and> char_code d = 0xB0 then CHR ''i'' # char_of (0xCC :: nat) # char_of (0x87 :: nat) # lower (e # r)
              else c # lower s
          | [d] \<Rightarrow>
              if x = 0xC4 \<and> char_code d = 0xB0 then [CHR ''i'', char_of (0xCC :: nat), char_of (0x87 :: nat)]
              else c # lower s
          | [] \<Rightarrow> [c])"

section \<open>Stage and suite\<close>

definition nonblank_string :: "json \<Rightarrow> string \<Rightarrow> string result" where
  \<comment> \<open>\<open>_non_empty_string\<close>\<close>
  "nonblank_string v w =
    (case v of JStr s \<Rightarrow> if blank s then fail w ''expected non-empty string'' else Inr s
     | _ \<Rightarrow> fail w ''expected non-empty string'')"

definition stage_contract :: "json_object \<Rightarrow> string result" where
  \<comment> \<open>the identity of the manifest and its stage\<close>
  "stage_contract e =
    bindE (raise_if (set (keys e) \<noteq> experiment_keys) ''experiment'' ''must freeze exactly the registered fields'') (\<lambda>_.
    bindE (raise_if (\<not> py_eq (field e ''schema_version'') (JInt 2)) ''experiment.schema_version'' ''expected 2'') (\<lambda>_.
    bindE (nonblank_string (field e ''experiment_id'') ''experiment.experiment_id'') (\<lambda>_.
    bindE (nonblank_string (field e ''program_id'') ''experiment.program_id'') (\<lambda>_.
    case field e ''stage'' of
      JObj stage \<Rightarrow>
        if set (keys stage) \<noteq> {''id'', ''purpose'', ''scoring''} then fail ''experiment.stage'' ''must freeze exactly id, purpose, and scoring''
        else if field stage ''id'' = JStr ''calibration''
        then bindE (raise_if (\<not> py_eq (JObj stage) (JObj [(''id'', JStr ''calibration''),
                 (''purpose'', JStr ''infrastructure_calibration''), (''scoring'', JStr ''non_confirmatory'')]))
               ''experiment.stage'' ''does not match the calibration contract'') (\<lambda>_. Inr ''calibration'')
        else if field stage ''id'' = JStr ''confirmatory''
        then bindE (raise_if (\<not> py_eq (JObj stage) (JObj [(''id'', JStr ''confirmatory''),
                 (''purpose'', JStr ''held_out_repository_pk''), (''scoring'', JStr ''confirmatory'')]))
               ''experiment.stage'' ''does not match the confirmatory contract'') (\<lambda>_. Inr ''confirmatory'')
        else fail ''experiment.stage.id'' ''must be calibration or confirmatory''
    | _ \<Rightarrow> fail ''experiment.stage'' ''must freeze exactly id, purpose, and scoring''))))"

definition check_kinds :: "json_object \<Rightarrow> json list" where
  \<comment> \<open>\<open>{check["type"] for check in task["success"]["checks"]}\<close> of a validated task\<close>
  "check_kinds task =
    (case field task ''success'' of
       JObj success \<Rightarrow> (case field success ''checks'' of
           JArr checks \<Rightarrow> map (\<lambda>v. case v of JObj c \<Rightarrow> field c ''type'' | _ \<Rightarrow> JNull) checks
         | _ \<Rightarrow> [])
     | _ \<Rightarrow> [])"

definition scenario_leaks :: "experiment_files \<Rightarrow> json_object \<Rightarrow> string \<Rightarrow> unit result" where
  "scenario_leaks files task w =
    (case field task ''scenario'' of
       JStr p \<Rightarrow> (case file_text files p of
           None \<Rightarrow> Inl (OS_Error p)
         | Some s \<Rightarrow>
             if \<not> utf8_valid s then Inl (Value_Error ''invalid UTF-8'')
             else raise_if (list_ex (\<lambda>t. occurs_in t (lower s)) confirmatory_prompt_leak_terms)
                    w ''confirmatory prompt leaks treatment terms'')
     | _ \<Rightarrow> Inl (Key_Error ''scenario''))"

definition held_out_task :: "experiment_files \<Rightarrow> json_object \<Rightarrow> string \<Rightarrow> unit result" where
  "held_out_task files task w =
    bindE (raise_if (case get_default task ''environment'' (JObj []) of
        JObj environment \<Rightarrow> field environment ''repository_snapshot'' = JNull | _ \<Rightarrow> False)
      w ''confirmatory task must freeze a repository snapshot'') (\<lambda>_.
    scenario_leaks files task w)"

definition task_contract :: "experiment_files \<Rightarrow> string \<Rightarrow> json \<Rightarrow> unit result" where
  "task_contract files stage v =
    (case v of
       JObj task \<Rightarrow>
         (let w = (case field task ''id'' of JStr s \<Rightarrow> s | _ \<Rightarrow> []);
              version = (if stage = ''calibration'' then ''long-horizon-v1'' else ''long-horizon-repository-v1'')
          in bindE (raise_if (\<not> py_eq (field task ''grader'')
                 (JObj [(''kind'', JStr ''deterministic_workspace''), (''version'', JStr version)]))
               w ''grader does not match the stage'') (\<lambda>_.
             bindE (raise_if (\<not> set (check_kinds task) \<subseteq> JStr ` set blind_workspace_checks)
               w ''blind grading may inspect workspace artifacts only'') (\<lambda>_.
             if stage = ''confirmatory'' then held_out_task files task w else Inr ())))
     | _ \<Rightarrow> Inl (Type_Error ''task''))"

definition suite_tasks :: "json_object \<Rightarrow> json list" where
  "suite_tasks suite = (case field suite ''tasks'' of JArr tasks \<Rightarrow> tasks | _ \<Rightarrow> [])"

definition suite_contract ::
  "experiment_files \<Rightarrow> json_object \<Rightarrow> json_object \<Rightarrow> string \<Rightarrow> unit result" where
  "suite_contract files e suite stage =
    bindE (nonblank_string (field e ''suite'') ''experiment.suite'') (\<lambda>p.
    bindE (raise_if (\<not> stays_inside files p) ''experiment.suite'' ''escapes repository root'') (\<lambda>_.
    bindE (raise_if (\<not> regular_file files p) ''experiment.suite'' ''does not exist'') (\<lambda>_.
    bindE (validate_suite (repository.truncate files) suite) (\<lambda>_.
    bindE (if stage = ''calibration''
           then raise_if (length (suite_tasks suite) \<noteq> 1) ''suite'' ''calibration suite must contain exactly one task''
           else raise_if (\<not> (3 \<le> length (suite_tasks suite) \<and> length (suite_tasks suite) \<le> 5))
                  ''suite'' ''confirmatory suite must contain 3-5 tasks'') (\<lambda>_.
    forE (task_contract files stage) (suite_tasks suite))))))"

section \<open>Model, schedule, arms and runtime\<close>

definition model_contract :: "json_object \<Rightarrow> unit result" where
  "model_contract e =
    (case field e ''model'' of
       JObj m \<Rightarrow> raise_if (\<not> py_eq (JObj m) (JObj [(''provider'', JStr ''anthropic''), (''id'', JStr ''glm-5.2'')]))
         ''experiment.model'' ''must lock model exactly to anthropic/glm-5.2''
     | _ \<Rightarrow> fail ''experiment.model'' ''expected object'')"

definition trials_contract :: "json_object \<Rightarrow> int result" where
  "trials_contract e =
    (case int_value (field e ''trials'') of
       None \<Rightarrow> fail ''experiment.trials'' ''expected integer''
     | Some trials \<Rightarrow> bindE (counterbalanced_schedule arm_ids trials) (\<lambda>_. Inr trials))"

definition arm_contract :: "nat \<times> json \<Rightarrow> string list \<Rightarrow> string list result" where
  \<comment> \<open>one turn of the loop; the state is the ids observed so far\<close>
  "arm_contract iv observed =
    (let w = ''experiment.arms['' @ nat_str (fst iv) @ '']''
     in case snd iv of
       JObj arm \<Rightarrow>
         if set (keys arm) \<noteq> {''id'', ''treatment''} then fail w ''expected exactly id and treatment''
         else bindE (nonblank_string (field arm ''id'') (w @ ''.id'')) (\<lambda>arm_id.
         case field arm ''treatment'' of
           JObj t \<Rightarrow>
             if set (keys t) \<noteq> set treatment_keys then fail (w @ ''.treatment'') ''must freeze exactly the treatment keys''
             else (case expected_treatments arm_id of
                 Some x \<Rightarrow> if py_eq (JObj t) x then Inr (observed @ [arm_id])
                   else fail (w @ ''.treatment'') ''does not match arm''
               | None \<Rightarrow> fail (w @ ''.treatment'') ''does not match arm'')
         | _ \<Rightarrow> fail (w @ ''.treatment'') ''expected object'')
     | _ \<Rightarrow> fail w ''expected object'')"

definition arms_contract :: "json_object \<Rightarrow> unit result" where
  "arms_contract e =
    (case field e ''arms'' of
       JArr arms \<Rightarrow>
         if length arms \<noteq> length arm_ids then fail ''experiment.arms'' ''must define exactly three arms''
         else bindE (foldE arm_contract (enumerate 0 arms) []) (\<lambda>observed.
           raise_if (observed \<noteq> arm_ids) ''experiment.arms'' ''must be ordered exactly'')
     | _ \<Rightarrow> fail ''experiment.arms'' ''must define exactly three arms'')"

definition positive_int :: "json \<Rightarrow> bool" where
  "positive_int v = (case int_value v of Some i \<Rightarrow> 0 < i | None \<Rightarrow> False)"

definition runtime_contract :: "json_object \<Rightarrow> unit result" where
  "runtime_contract e =
    (case field e ''common_runtime'' of
       JObj r \<Rightarrow> seqE
        [raise_if (set (keys r) \<noteq> {''agent_teams'', ''forced_compact_at_tokens'', ''forced_compact_keep_recent'', ''max_turns''})
           ''experiment.common_runtime'' ''contains missing or unknown fields'',
         raise_if (field r ''agent_teams'' \<noteq> JBool False) ''experiment.common_runtime'' ''must keep agent_teams=false'',
         forE (\<lambda>k. raise_if (\<not> positive_int (field r k)) (''experiment.common_runtime.'' @ k) ''expected integer > 0'')
           [''forced_compact_at_tokens'', ''forced_compact_keep_recent'', ''max_turns'']]
     | _ \<Rightarrow> fail ''experiment.common_runtime'' ''expected object'')"

definition frozen_policies :: "json_object \<Rightarrow> unit result" where
  "frozen_policies e = seqE
    [raise_if (\<not> py_eq (field e ''schedule'') (JObj [(''kind'', JStr ''balanced_williams''),
        (''complete_blocks_only'', JBool True), (''task_order'', JStr ''sorted'')]))
       ''experiment.schedule'' ''must freeze the balanced_williams contract'',
     raise_if (\<not> py_eq (field e ''grading'') (JObj [(''blind'', JBool True), (''arm_identity_visible_to_grader'', JBool False)]))
       ''experiment.grading'' ''must be blind to arm identity'',
     raise_if (\<not> py_eq (field e ''invalid_policy'') (JObj [(''exclude_from_scoring'', JBool True), (''abort_after_invalid'', JBool True)]))
       ''experiment.invalid_policy'' ''must exclude and abort fail-closed'']"

definition stop_rules_contract :: "json_object \<Rightarrow> unit result" where
  "stop_rules_contract e = raise_if (\<not> py_eq (field e ''stop_rules'')
      (JObj [(''on_budget_reached'', JStr ''stop_before_next_rollout''),
        (''on_invalid_rollout'', JStr ''checkpoint_then_abort''),
        (''on_infrastructure_failure'', JStr ''mark_invalid_then_abort'')]))
     ''experiment.stop_rules'' ''must freeze fail-closed semantics''"

section \<open>The budget\<close>

definition fixed_rollout_budget :: "json_object \<Rightarrow> bool \<Rightarrow> (double \<times> int) option result" where
  "fixed_rollout_budget budget required =
    (let present = fixed_rollout_budget_keys \<inter> set (keys budget)
     in if present = {}
        then if required then fail ''experiment.budget'' ''must freeze the rollout caps before execution'' else Inr None
        else if present \<noteq> fixed_rollout_budget_keys then fail ''experiment.budget'' ''must provide both rollout caps''
        else bindE (require_number (field budget ''max_rollout_cost_usd'') is_positive
               ''experiment.budget.max_rollout_cost_usd'' ''must be finite and > 0'') (\<lambda>_.
             case int_value (field budget ''max_rollout_tokens'') of
               Some tokens \<Rightarrow>
                 if tokens \<le> 0 then fail ''experiment.budget.max_rollout_tokens'' ''must be an integer > 0''
                 else Inr (Some (float_of (field budget ''max_rollout_cost_usd''), tokens))
             | None \<Rightarrow> fail ''experiment.budget.max_rollout_tokens'' ''must be an integer > 0''))"

definition int_times :: "double \<Rightarrow> int \<Rightarrow> double result" where
  \<comment> \<open>a float times an int, which is converted first\<close>
  "int_times x n = (if float_overflows n then Inl Overflow_Error else Inr (d_mul x (float_of (JInt n))))"

definition capacity_contract :: "double \<Rightarrow> int \<Rightarrow> int \<Rightarrow> double \<times> int \<Rightarrow> unit result" where
  \<comment> \<open>every rollout of the schedule can spend its cap within the stage\<close>
  "capacity_contract stage_cost stage_tokens rollouts cap =
    (if d_less stage_cost (fst cap) \<or> stage_tokens < snd cap
     then fail ''experiment.budget'' ''per-rollout budget cannot exceed its stage budget''
     else bindE (int_times (fst cap) rollouts) (\<lambda>reserve.
       raise_if (d_less_eq stage_cost reserve \<or> stage_tokens \<le> snd cap * rollouts)
         ''experiment.budget'' ''stage budget must strictly cover every fixed per-rollout cap''))"

definition budget_contract :: "json_object \<Rightarrow> int \<Rightarrow> unit result" where
  \<comment> \<open>the second argument is the number of rollouts of the schedule\<close>
  "budget_contract e rollouts =
    (case field e ''budget'' of
       JObj b \<Rightarrow>
         bindE (raise_if (set (keys b) \<notin> {legacy_budget_keys, legacy_budget_keys \<union> fixed_rollout_budget_keys})
           ''experiment.budget'' ''contains missing or unknown fields'') (\<lambda>_.
         bindE (forE (\<lambda>k. require_number (field b k) is_positive (''experiment.budget.'' @ k) ''must be finite and > 0'')
           [''max_stage_cost_usd'', ''max_aggregate_cost_usd'']) (\<lambda>_.
         let stage_cost = float_of (field b ''max_stage_cost_usd'');
             aggregate_cost = float_of (field b ''max_aggregate_cost_usd'')
         in bindE (raise_if (d_less (Fin 2000) aggregate_cost \<or> d_less aggregate_cost stage_cost)
           ''experiment.budget'' ''aggregate budget must be within authority and cover its stage'') (\<lambda>_.
         bindE (forE (\<lambda>k. raise_if (\<not> positive_int (field b k)) (''experiment.budget.'' @ k) ''must be > 0'')
           [''max_stage_tokens'', ''max_aggregate_tokens'']) (\<lambda>_.
         case (int_value (field b ''max_stage_tokens''), int_value (field b ''max_aggregate_tokens'')) of
           (Some stage_tokens, Some aggregate_tokens) \<Rightarrow>
             if aggregate_tokens < stage_tokens then fail ''experiment.budget'' ''aggregate token budget must cover its stage''
             else bindE (raise_if (\<not> is_bool (field b ''paid_rollouts_enabled''))
                 ''experiment.budget.paid_rollouts_enabled'' ''must be boolean'') (\<lambda>_.
               bindE (fixed_rollout_budget b False) (\<lambda>cap.
               case cap of None \<Rightarrow> Inr () | Some c \<Rightarrow> capacity_contract stage_cost stage_tokens rollouts c))
         | _ \<Rightarrow> fail ''experiment.budget'' ''must be > 0''))))
     | _ \<Rightarrow> fail ''experiment.budget'' ''expected object'')"

section \<open>Promotion\<close>

definition experiment_fingerprint :: "json_object \<Rightarrow> json_object \<Rightarrow> string" where
  "experiment_fingerprint e suite = take 16 (canonical_sha256 (JObj [(''experiment'', JObj e), (''suite'', JObj suite)]))"

definition calibration_promotion :: "json_object \<Rightarrow> int \<Rightarrow> unit result" where
  "calibration_promotion promotion rollouts =
    raise_if (\<not> py_eq (JObj promotion) (JObj
      [(''requires_receipt'', JBool False), (''source_experiment_id'', JNull), (''source_experiment'', JNull),
       (''source_experiment_fingerprint'', JNull),
       (''gate'', JObj [(''required_valid_rollouts'', JInt rollouts), (''max_invalid_rollouts'', JInt 0),
         (''require_complete_schedule'', JBool True), (''require_cost_telemetry'', JBool True),
         (''require_token_telemetry'', JBool True)])]))
      ''experiment.promotion'' ''calibration promotion gate is not frozen correctly''"

definition frozen_source :: "json_object \<Rightarrow> bool" where
  "frozen_source promotion \<longleftrightarrow>
    field promotion ''requires_receipt'' = JBool True \<and>
    (case field promotion ''source_experiment_id'' of JStr s \<Rightarrow> \<not> blank s | _ \<Rightarrow> False) \<and>
    (case field promotion ''source_experiment'' of JStr s \<Rightarrow> \<not> blank s | _ \<Rightarrow> False) \<and>
    hex_json 16 (field promotion ''source_experiment_fingerprint'') \<and>
    field promotion ''gate'' = JNull"

definition repository_file :: "experiment_files \<Rightarrow> json \<Rightarrow> string \<Rightarrow> json_object result" where
  \<comment> \<open>the object in the file of a safe repository-relative path\<close>
  "repository_file files v w =
    bindE (safe_posix_relative_path v w) (\<lambda>ps.
    let p = join_with [slash] ps
    in bindE (raise_if (\<not> stays_inside files p) w ''escapes repository root'') (\<lambda>_.
       bindE (raise_if (\<not> regular_file files p) w ''must be a regular file'') (\<lambda>_.
       load_json files p)))"

definition source_matches :: "json_object \<Rightarrow> json_object \<Rightarrow> json_object \<Rightarrow> json_object \<Rightarrow> bool" where
  "source_matches e promotion source source_suite \<longleftrightarrow>
    (case get_default source ''stage'' (JObj []) of
       JObj stage \<Rightarrow> field stage ''id'' = JStr ''calibration'' | _ \<Rightarrow> False) \<and>
    py_eq (field source ''program_id'') (field e ''program_id'') \<and>
    py_eq (field source ''experiment_id'') (field promotion ''source_experiment_id'') \<and>
    JStr (experiment_fingerprint source source_suite) = field promotion ''source_experiment_fingerprint''"

definition confirmatory_promotion ::
  "(json_object \<Rightarrow> json_object \<Rightarrow> unit result) \<Rightarrow> experiment_files \<Rightarrow> json_object \<Rightarrow> json_object \<Rightarrow> unit result" where
  \<comment> \<open>the first argument validates the source manifest\<close>
  "confirmatory_promotion validate files e promotion =
    bindE (raise_if (\<not> frozen_source promotion) ''experiment.promotion''
      ''confirmatory stage must freeze one calibration manifest and receipt'') (\<lambda>_.
    bindE (repository_file files (field promotion ''source_experiment'') ''experiment.promotion.source_experiment'') (\<lambda>source.
    bindE (repository_file files (field source ''suite'') ''calibration source experiment suite'') (\<lambda>source_suite.
    bindE (validate source source_suite) (\<lambda>_.
    raise_if (\<not> source_matches e promotion source source_suite) ''experiment.promotion''
      ''source manifest identity or fingerprint mismatch''))))"

definition promotion_contract ::
  "(json_object \<Rightarrow> json_object \<Rightarrow> unit result) \<Rightarrow> experiment_files \<Rightarrow> json_object \<Rightarrow> string \<Rightarrow> int \<Rightarrow> unit result" where
  "promotion_contract validate files e stage rollouts =
    (case field e ''promotion'' of
       JObj promotion \<Rightarrow>
         if set (keys promotion) \<noteq> {''requires_receipt'', ''source_experiment_id'', ''source_experiment'',
              ''source_experiment_fingerprint'', ''gate''}
         then fail ''experiment.promotion'' ''must freeze its receipt, source manifest, fingerprint, and gate''
         else if stage = ''calibration'' then calibration_promotion promotion rollouts
         else confirmatory_promotion validate files e promotion
     | _ \<Rightarrow> fail ''experiment.promotion'' ''must freeze its receipt, source manifest, fingerprint, and gate'')"

section \<open>The experiment\<close>

definition rollout_count :: "json_object \<Rightarrow> int \<Rightarrow> int" where
  "rollout_count suite trials = int (length (suite_tasks suite)) * trials * int (length arm_ids)"

definition contract_before_promotion ::
  "experiment_files \<Rightarrow> json_object \<Rightarrow> json_object \<Rightarrow> (string \<times> int) result" where
  \<comment> \<open>everything up to the promotion: the stage and the number of rollouts\<close>
  "contract_before_promotion files e suite =
    bindE (stage_contract e) (\<lambda>stage.
    bindE (suite_contract files e suite stage) (\<lambda>_.
    bindE (model_contract e) (\<lambda>_.
    bindE (trials_contract e) (\<lambda>trials.
    bindE (arms_contract e) (\<lambda>_.
    bindE (runtime_contract e) (\<lambda>_.
    bindE (frozen_policies e) (\<lambda>_.
    bindE (budget_contract e (rollout_count suite trials)) (\<lambda>_.
    Inr (stage, rollout_count suite trials)))))))))"

primrec validate_experiment :: "nat \<Rightarrow> experiment_files \<Rightarrow> json_object \<Rightarrow> json_object \<Rightarrow> unit result" where
  "validate_experiment 0 files e suite = Inl Recursion_Error"
| "validate_experiment (Suc n) files e suite =
    bindE (contract_before_promotion files e suite) (\<lambda>(stage, rollouts).
    bindE (promotion_contract (validate_experiment n files) files e stage rollouts) (\<lambda>_.
    stop_rules_contract e))"

end
