(* ===== verification/Experiment_Properties.thy ===== *)
theory Experiment_Properties
  imports Experiment_Contract
begin

text \<open>
  What an accepted experiment guarantees: its budget covers its schedule, its grading is blind,
  and its acceptance needs no more than one level of recursion; and the manifest on which the
  validator recurses for ever.
\<close>

section \<open>The parts of an accepted experiment\<close>

lemma contract_before_promotion_InrE:
  assumes "contract_before_promotion files e suite = Inr r"
  obtains stage trials where "stage_contract e = Inr stage" and "suite_contract files e suite stage = Inr ()"
    and "trials_contract e = Inr trials" and "arms_contract e = Inr ()"
    and "budget_contract e (rollout_count suite trials) = Inr ()" and "r = (stage, rollout_count suite trials)"
proof -
  from assms obtain stage trials where "stage_contract e = Inr stage" "suite_contract files e suite stage = Inr ()"
    "trials_contract e = Inr trials" "arms_contract e = Inr ()"
    "budget_contract e (rollout_count suite trials) = Inr ()" "Inr (stage, rollout_count suite trials) = (Inr r :: (string \<times> int) result)"
    unfolding contract_before_promotion_def by (elim bindE_InrE) (rule that; assumption | simp)
  then show thesis by (intro that) auto
qed

lemma validate_experiment_InrE:
  assumes "validate_experiment n files e suite = Inr u"
  obtains m stage trials where "n = Suc m"
    and "contract_before_promotion files e suite = Inr (stage, rollout_count suite trials)"
    and "stage_contract e = Inr stage" and "suite_contract files e suite stage = Inr ()"
    and "trials_contract e = Inr trials"
    and "budget_contract e (rollout_count suite trials) = Inr ()"
    and "promotion_contract (validate_experiment m files) files e stage (rollout_count suite trials) = Inr ()"
    and "stop_rules_contract e = Inr ()"
proof (cases n)
  case (Suc m)
  with assms obtain stage rollouts where c: "contract_before_promotion files e suite = Inr (stage, rollouts)"
    and p: "promotion_contract (validate_experiment m files) files e stage rollouts = Inr ()"
    and s: "stop_rules_contract e = Inr ()"
    by (auto simp: bindE_eq_Inr)
  show thesis
  proof (rule contract_before_promotion_InrE [OF c])
    fix st trials
    assume parts: "stage_contract e = Inr st" "suite_contract files e suite st = Inr ()" "trials_contract e = Inr trials"
      "budget_contract e (rollout_count suite trials) = Inr ()"
      and r: "(stage, rollouts) = (st, rollout_count suite trials)"
    have "stage = st" "rollouts = rollout_count suite trials" using r by auto
    then show thesis using that [OF Suc] parts c p s by blast
  qed
qed (use assms in simp)

lemma stage_contract_id:
  assumes "stage_contract e = Inr stage"
  shows "\<exists>s. field e ''stage'' = JObj s \<and> field s ''id'' = JStr stage" and "stage \<in> {''calibration'', ''confirmatory''}"
proof -
  obtain s where s: "field e ''stage'' = JObj s"
    using assms by (cases "field e ''stage''") (auto simp: stage_contract_def bindE_eq_Inr)
  then have "field s ''id'' = JStr stage \<and> stage \<in> {''calibration'', ''confirmatory''}"
    using assms by (auto simp: stage_contract_def bindE_eq_Inr split: if_splits)
  then show "\<exists>s. field e ''stage'' = JObj s \<and> field s ''id'' = JStr stage" "stage \<in> {''calibration'', ''confirmatory''}"
    using s by auto
qed

lemma promotion_calibration:
  "promotion_contract v files e ''calibration'' k = promotion_contract v' files e ''calibration'' k"
  by (simp add: promotion_contract_def split: json.splits)

lemma calibration_needs_no_recursion:
  assumes "validate_experiment n files e suite = Inr ()" and "stage_contract e = Inr ''calibration''"
  shows "validate_experiment (Suc k) files e suite = Inr ()"
  using assms(1)
proof (rule validate_experiment_InrE)
  fix m stage trials
  assume a: "n = Suc m" "contract_before_promotion files e suite = Inr (stage, rollout_count suite trials)"
    "stage_contract e = Inr stage" "stop_rules_contract e = Inr ()"
    and p: "promotion_contract (validate_experiment m files) files e stage (rollout_count suite trials) = Inr ()"
  then have "promotion_contract (validate_experiment k files) files e ''calibration'' (rollout_count suite trials) = Inr ()"
    using assms(2) promotion_calibration [of "validate_experiment m files" files e _ "validate_experiment k files"] by simp
  then show ?thesis using a assms(2) by simp
qed

lemma confirmatory_promotion_mono:
  assumes "confirmatory_promotion v files e p = Inr ()"
    and "\<And>source source_suite. v source source_suite = Inr () \<Longrightarrow> source_matches e p source source_suite \<Longrightarrow>
      v' source source_suite = Inr ()"
  shows "confirmatory_promotion v' files e p = Inr ()"
  using assms by (auto simp: confirmatory_promotion_def bindE_eq_Inr check_simps)

lemma source_is_calibration:
  assumes "source_matches e p source source_suite" and "stage_contract source = Inr stage"
  shows "stage = ''calibration''"
proof -
  obtain s where s: "field source ''stage'' = JObj s" "field s ''id'' = JStr stage"
    using stage_contract_id(1) [OF assms(2)] by blast
  then have "get_default source ''stage'' (JObj []) = JObj s"
    by (auto simp: get_default_def dict_get_none_def split: option.splits)
  then show ?thesis using assms(1) s by (simp add: source_matches_def)
qed

text \<open>C29: validation terminates for every manifest it accepts, at once: an experiment accepted at
  any depth of recursion is accepted with two levels, its own and its calibration's.\<close>

theorem accepted_within_two_levels:
  assumes "validate_experiment n files e suite = Inr ()"
  shows "validate_experiment 2 files e suite = Inr ()"
  using assms
proof (rule validate_experiment_InrE)
  fix m stage trials
  assume a: "n = Suc m" "contract_before_promotion files e suite = Inr (stage, rollout_count suite trials)"
    "stage_contract e = Inr stage" "stop_rules_contract e = Inr ()"
    and p: "promotion_contract (validate_experiment m files) files e stage (rollout_count suite trials) = Inr ()"
  have "promotion_contract (validate_experiment 1 files) files e stage (rollout_count suite trials) = Inr ()"
  proof (cases "stage = ''calibration''")
    case True
    then show ?thesis
      using p promotion_calibration [of "validate_experiment m files" files e _ "validate_experiment 1 files"] by simp
  next
    case False
    then obtain q where q: "field e ''promotion'' = JObj q" and c: "confirmatory_promotion (validate_experiment m files) files e q = Inr ()"
      using p by (auto simp: promotion_contract_def split: json.splits if_splits)
    have "validate_experiment 1 files source source_suite = Inr ()"
      if v: "validate_experiment m files source source_suite = Inr ()" and s: "source_matches e q source source_suite"
      for source source_suite
    proof -
      from v obtain st where "stage_contract source = Inr st" by (rule validate_experiment_InrE)
      with s have "stage_contract source = Inr ''calibration''" using source_is_calibration by blast
      then show ?thesis using calibration_needs_no_recursion [OF v, of 0] by simp
    qed
    then have "confirmatory_promotion (validate_experiment 1 files) files e q = Inr ()"
      by (intro confirmatory_promotion_mono [OF c])
    then show ?thesis using p False q by (auto simp: promotion_contract_def split: if_splits)
  qed
  then show ?thesis using a by (simp add: numeral_2_eq_2)
qed

section \<open>The capacity of the budget\<close>

lemma is_positive_float: "is_number v \<Longrightarrow> is_finite v = Inr True \<Longrightarrow> is_positive v \<Longrightarrow> float_of v \<noteq> Nan"
  using is_finite_double by force

lemma budget_contract_InrE:
  assumes "budget_contract e rollouts = Inr u"
  obtains b stage_tokens aggregate_tokens cap where "field e ''budget'' = JObj b"
    and "is_number (field b ''max_stage_cost_usd'')" "is_finite (field b ''max_stage_cost_usd'') = Inr True"
    and "is_number (field b ''max_aggregate_cost_usd'')" "is_finite (field b ''max_aggregate_cost_usd'') = Inr True"
    and "\<not> d_less (Fin 2000) (float_of (field b ''max_aggregate_cost_usd''))"
    and "\<not> d_less (float_of (field b ''max_aggregate_cost_usd'')) (float_of (field b ''max_stage_cost_usd''))"
    and "field b ''max_stage_tokens'' = JInt stage_tokens" "field b ''max_aggregate_tokens'' = JInt aggregate_tokens"
    and "0 < stage_tokens" "stage_tokens \<le> aggregate_tokens"
    and "fixed_rollout_budget b False = Inr cap"
    and "\<And>c. cap = Some c \<Longrightarrow> capacity_contract (float_of (field b ''max_stage_cost_usd'')) stage_tokens rollouts c = Inr ()"
proof -
  obtain b where b: "field e ''budget'' = JObj b"
    using assms by (cases "field e ''budget''") (auto simp: budget_contract_def)
  let ?s = "float_of (field b ''max_stage_cost_usd'')" and ?a = "float_of (field b ''max_aggregate_cost_usd'')"
  have num: "is_number (field b k)" "is_finite (field b k) = Inr True" if "k \<in> {''max_stage_cost_usd'', ''max_aggregate_cost_usd''}" for k
    using assms b that by (auto simp: budget_contract_def Let_def bindE_eq_Inr check_simps forE_eq_Inr)
  have cmp: "\<not> d_less (Fin 2000) ?a" "\<not> d_less ?a ?s"
    using assms b by (auto simp: budget_contract_def Let_def bindE_eq_Inr check_simps)
  have pos: "positive_int (field b k)" if "k \<in> {''max_stage_tokens'', ''max_aggregate_tokens''}" for k
    using assms b that by (auto simp: budget_contract_def Let_def bindE_eq_Inr check_simps forE_eq_Inr)
  obtain st ag where t: "field b ''max_stage_tokens'' = JInt st" "field b ''max_aggregate_tokens'' = JInt ag" "0 < st"
    using pos [of "''max_stage_tokens''"] pos [of "''max_aggregate_tokens''"]
    by (auto simp: positive_int_def check_simps split: option.splits)
  obtain cap where c: "st \<le> ag" "fixed_rollout_budget b False = Inr cap"
    "\<And>c. cap = Some c \<Longrightarrow> capacity_contract ?s st rollouts c = Inr ()"
    using assms b t by (auto simp: budget_contract_def Let_def bindE_eq_Inr split: if_splits option.splits)
  show thesis using that [OF b num num cmp t c] by simp
qed

text \<open>C27: when an accepted experiment sets both caps of a rollout (they are optional, and without
  them nothing is compared) and has fewer than \<open>2 ^ 53\<close> rollouts, its budget covers its whole
  schedule, exactly and not only up to rounding: the cost cap of a rollout times the number of
  rollouts is below the stage's cost, which is within the aggregate and the user's authority of 2000
  dollars; the same for tokens.\<close>

theorem experiment_capacity:
  assumes "validate_experiment n files e suite = Inr ()"
    and "field e ''budget'' = JObj b" and "fixed_rollout_budget b True = Inr (Some (Fin cost, tokens))"
    and "field e ''trials'' = JInt trials" and "\<bar>rollout_count suite trials\<bar> < 2 ^ 53"
  shows "\<exists>stage_cost aggregate_cost stage_tokens aggregate_tokens.
    float_of (field b ''max_stage_cost_usd'') = Fin stage_cost \<and>
    float_of (field b ''max_aggregate_cost_usd'') = Fin aggregate_cost \<and>
    field b ''max_stage_tokens'' = JInt stage_tokens \<and> field b ''max_aggregate_tokens'' = JInt aggregate_tokens \<and>
    cost * of_int (rollout_count suite trials) < stage_cost \<and> stage_cost \<le> aggregate_cost \<and> aggregate_cost \<le> 2000 \<and>
    tokens * rollout_count suite trials < stage_tokens \<and> stage_tokens \<le> aggregate_tokens"
proof -
  let ?n = "rollout_count suite trials"
  have t: "trials_contract e = Inr t \<Longrightarrow> t = trials" for t
    using assms(4) by (auto simp: trials_contract_def bindE_eq_Inr)
  from assms(1) obtain tr where "trials_contract e = Inr tr" "budget_contract e (rollout_count suite tr) = Inr ()"
    by (rule validate_experiment_InrE)
  then have bc: "budget_contract e ?n = Inr ()" using t by simp
  show ?thesis
  proof (rule budget_contract_InrE [OF bc])
    fix b' st ag cap
    assume b': "field e ''budget'' = JObj b'" and f: "fixed_rollout_budget b' False = Inr cap"
      and s: "is_number (field b' ''max_stage_cost_usd'')" "is_finite (field b' ''max_stage_cost_usd'') = Inr True"
      and a: "is_number (field b' ''max_aggregate_cost_usd'')" "is_finite (field b' ''max_aggregate_cost_usd'') = Inr True"
      and cmp: "\<not> d_less (Fin 2000) (float_of (field b' ''max_aggregate_cost_usd''))"
        "\<not> d_less (float_of (field b' ''max_aggregate_cost_usd'')) (float_of (field b' ''max_stage_cost_usd''))"
      and tok: "field b' ''max_stage_tokens'' = JInt st" "field b' ''max_aggregate_tokens'' = JInt ag" "st \<le> ag"
      and cc: "\<And>c. cap = Some c \<Longrightarrow> capacity_contract (float_of (field b' ''max_stage_cost_usd'')) st ?n c = Inr ()"
    have bb: "b' = b" using b' assms(2) by simp
    obtain x where x: "float_of (field b ''max_stage_cost_usd'') = Fin x" "is_double (Fin x)"
      using is_finite_double [OF s] bb by auto
    obtain y where y: "float_of (field b ''max_aggregate_cost_usd'') = Fin y"
      using is_finite_double [OF a] bb by auto
    have "fixed_rollout_budget b False = fixed_rollout_budget b True"
      using assms(3) by (auto simp: fixed_rollout_budget_def Let_def split: if_splits)
    then have "cap = Some (Fin cost, tokens)" using f assms(3) bb by simp
    then have "capacity_contract (Fin x) st ?n (Fin cost, tokens) = Inr ()" using cc x bb by simp
    then have "d_less (to_double (cost * of_int ?n)) (Fin x)" "tokens * ?n < st"
      using float_of_small_int [OF assms(5)]
      by (auto simp: capacity_contract_def int_times_def bindE_eq_Inr check_simps d_less_def to_double_def Let_def
        split: if_splits)
    then show ?thesis using to_double_less [OF _ x(2)] x(1) y cmp tok bb by (auto simp: d_less_def)
  qed
qed

section \<open>Blind grading\<close>

lemma task_contract_held_out:
  assumes "task_contract files stage (JObj task) = Inr ()" and "stage = ''confirmatory''"
  shows "\<exists>w. held_out_task files task w = Inr ()"
proof -
  from assms(1) obtain w where "(if stage = ''confirmatory'' then held_out_task files task w else Inr ()) = Inr ()"
    unfolding task_contract_def json.case Let_def by (elim bindE_InrE) (rule that, assumption)
  then show ?thesis unfolding if_P [OF assms(2)] by blast
qed

text \<open>C28: in an accepted experiment grading is blind: every check of every task inspects the
  workspace only, and no task text of a confirmatory stage names an arm or the mechanism.\<close>

theorem experiment_blind:
  assumes "validate_experiment n files e suite = Inr ()"
  shows "\<exists>stage. stage_contract e = Inr stage \<and> (\<forall>t \<in> set (suite_tasks suite). \<exists>task. t = JObj task \<and>
    set (check_kinds task) \<subseteq> JStr ` set blind_workspace_checks \<and>
    (stage = ''confirmatory'' \<longrightarrow> (\<exists>p s. field task ''scenario'' = JStr p \<and> file_text files p = Some s \<and>
      (\<forall>w \<in> set confirmatory_prompt_leak_terms. \<not> occurs_in w (lower s)))))"
proof -
  from assms obtain stage where st: "stage_contract e = Inr stage" and sc: "suite_contract files e suite stage = Inr ()"
    by (rule validate_experiment_InrE)
  have "\<exists>task. t = JObj task \<and> set (check_kinds task) \<subseteq> JStr ` set blind_workspace_checks \<and>
    (stage = ''confirmatory'' \<longrightarrow> (\<exists>p s. field task ''scenario'' = JStr p \<and> file_text files p = Some s \<and>
      (\<forall>w \<in> set confirmatory_prompt_leak_terms. \<not> occurs_in w (lower s))))"
    if t: "t \<in> set (suite_tasks suite)" for t
  proof -
    have c: "task_contract files stage t = Inr ()"
      using sc t by (auto simp: suite_contract_def bindE_eq_Inr forE_eq_Inr)
    then obtain task where task: "t = JObj task" by (cases t) (auto simp: task_contract_def)
    have k: "set (check_kinds task) \<subseteq> JStr ` set blind_workspace_checks"
      using c by (auto simp: task task_contract_def Let_def bindE_eq_Inr check_simps)
    have "\<exists>p s. field task ''scenario'' = JStr p \<and> file_text files p = Some s \<and>
        (\<forall>w \<in> set confirmatory_prompt_leak_terms. \<not> occurs_in w (lower s))" if st: "stage = ''confirmatory''"
    proof -
      from task_contract_held_out [of files stage task] c task st obtain w where "held_out_task files task w = Inr ()" by auto
      then show ?thesis
        unfolding held_out_task_def
        by (elim bindE_InrE) (auto simp: scenario_leaks_def check_simps list_ex_iff split: json.splits option.splits if_splits)
    qed
    with task k show ?thesis by (intro exI [of _ task] conjI impI)
  qed
  then show ?thesis using st by blast
qed

section \<open>A manifest that is its own source\<close>

text \<open>C30: the validator does not return on a confirmatory manifest that names itself as its
  calibration: the source is validated before its stage and fingerprint are compared, so the
  recursion has no end, whatever depth of frames there is.\<close>

theorem self_reference_recurses:
  assumes "contract_before_promotion files e suite = Inr (''confirmatory'', k)"
    and "field e ''promotion'' = JObj p" and "frozen_source p"
    and "set (keys p) = {''requires_receipt'', ''source_experiment_id'', ''source_experiment'',
      ''source_experiment_fingerprint'', ''gate''}"
    and "repository_file files (field p ''source_experiment'') ''experiment.promotion.source_experiment'' = Inr e"
    and "repository_file files (field e ''suite'') ''calibration source experiment suite'' = Inr suite"
  shows "validate_experiment n files e suite = Inl Recursion_Error"
proof (induction n)
  case (Suc n)
  have "raise_if (\<not> frozen_source p) w m = Inr ()" for w m using assms(3) by (simp add: raise_if_def)
  then have "promotion_contract (validate_experiment n files) files e ''confirmatory'' k = Inl Recursion_Error"
    using assms(2,4-6) Suc by (simp add: promotion_contract_def confirmatory_promotion_def)
  then show ?case using assms(1) by simp
qed simp

end
