(* ===== verification/Experiment_Demo.thy ===== *)
theory Experiment_Demo
  imports Experiment_Properties
begin

text \<open>
  Concrete experiments for the properties of the experiment contract: an accepted calibration
  with one task, and a confirmatory manifest over three tasks that names itself as its source.
\<close>

lemma load_json_dumps:
  assumes "file_text files p = Some (dumps (JObj d))" and "plain (JObj d)" and "utf8_json (JObj d)"
  shows "load_json files p = Inr d"
  using loads_text [OF accepts_dict_hook dumps_text [OF assms(2)] white_Nil white_Nil] assms(1)
    utf8_valid_dumps [OF assms(2,3)]
  by (simp add: load_json_def)

section \<open>A task\<close>

definition demo_task :: "string \<Rightarrow> string \<Rightarrow> json \<Rightarrow> json" where
  "demo_task tid version snapshot = JObj
     [(''id'', JStr tid), (''scenario'', JStr ''evals/t1.md''), (''layers'', JArr [JStr ''O'', JStr ''V'']),
      (''environment'', JObj [(''reset'', JStr ''fresh''), (''repository_snapshot'', snapshot)]),
      (''tools'', JObj [(''profile'', JStr ''p''), (''required'', JArr [])]),
      (''constraints'', JObj [(''timeout_seconds'', JInt 60), (''permission_mode'', JStr ''ask'')]),
      (''success'', JObj [(''checks'', JArr [JObj [(''type'', JStr ''file_exists''), (''path'', JStr ''out.txt'')]])]),
      (''grader'', JObj [(''kind'', JStr ''deterministic_workspace''), (''version'', JStr version)]),
      (''trajectory_constraints'', JObj [(''max_turns'', JInt 9)]),
      (''trajectory_rationale'', JObj [(''max_turns'', JStr ''short'')])]"

definition demo_tasks_suite :: "json list \<Rightarrow> json_object" where
  "demo_tasks_suite tasks = [(''schema_version'', JInt 1), (''suite_id'', JStr ''s''), (''tasks'', JArr tasks)]"

definition demo_snapshot :: json where
  "demo_snapshot = JObj [(''revision'', JStr (replicate 40 (CHR ''a''))), (''prefix'', JStr ''.''), (''paths'', JArr [JStr ''x''])]"

definition demo_root :: repository where
  "demo_root = \<lparr>stays_inside = (\<lambda>_. True), regular_file = (\<lambda>_. True), symbolic_link = (\<lambda>_. False)\<rparr>"

lemma nonblank_letter: "65 \<le> char_code c \<Longrightarrow> char_code c \<le> 122 \<Longrightarrow> \<not> blank (c # s)"
  by (subst blank.simps) (auto simp: Let_def)

lemma safe_simple: "p \<noteq> [] \<Longrightarrow> p \<noteq> ''.'' \<Longrightarrow> p \<noteq> ''..'' \<Longrightarrow> slash \<notin> set p \<Longrightarrow> backslash \<notin> set p \<Longrightarrow>
    is_safe_posix_relative_path (JStr p) w"
  by (auto simp: safe_path_iff safe_parts_def intro!: exI [of _ "[p]"])

lemmas suite_defs = validate_suite_def validate_layers_def
  layers_def distinct_strings_def validate_environment_def validate_snapshot_def validate_tools_def
  validate_constraints_def validate_success_def validate_success_check_def validate_check_def check_types_def
  path_kinds_def text_kinds_def validate_grader_def validate_trajectory_def validate_trajectory_field_def
  trajectory_fields_def has_rationale_def require_as_def one_of_def hashable_def get_default_def raise_if_def
  dict_get_none_def dec_eq_def Let_def is_prefix_def

lemma demo_task_valid:
  assumes "snapshot \<in> {JNull, demo_snapshot}" and "tid \<notin> set (fst st)"
  shows "validate_task demo_root (i, demo_task tid version snapshot) st = Inr (tid # fst st, snd st)"
proof -
  have p: "is_safe_posix_relative_path (JStr p) w" if "p \<in> {''out.txt'', ''x''}" for p w
    using that by (intro safe_simple) (auto simp: slash_def)
  have b: "\<not> blank ''short''" by (intro nonblank_letter) (simp_all add: char_code_def)
  have env: "validate_environment demo_root
      [(''id'', JStr tid), (''scenario'', JStr ''evals/t1.md''), (''layers'', JArr [JStr ''O'', JStr ''V'']),
      (''environment'', JObj [(''reset'', JStr ''fresh''), (''repository_snapshot'', snapshot)]),
      (''tools'', JObj [(''profile'', JStr ''p''), (''required'', JArr [])]),
      (''constraints'', JObj [(''timeout_seconds'', JInt 60), (''permission_mode'', JStr ''ask'')]),
      (''success'', JObj [(''checks'', JArr [JObj [(''type'', JStr ''file_exists''), (''path'', JStr ''out.txt'')]])]),
      (''grader'', JObj [(''kind'', JStr ''deterministic_workspace''), (''version'', JStr version)]),
      (''trajectory_constraints'', JObj [(''max_turns'', JInt 9)]),
      (''trajectory_rationale'', JObj [(''max_turns'', JStr ''short'')])] w = Inr ()" for w
    using assms(1) p [of "''x''"]
    by (auto simp: suite_defs demo_snapshot_def hex_str_def hex_char_def char_code_def insert_commute list_all_iff)
  show ?thesis
    using assms(2) p [of "''out.txt''"] b env unfolding validate_task_def demo_task_def
    by (simp add: suite_defs demo_root_def)
qed

section \<open>Accepted parts\<close>

definition demo_arm :: "string \<Rightarrow> json" where
  "demo_arm arm = JObj [(''id'', JStr arm), (''treatment'', the (expected_treatments arm))]"

definition demo_experiment :: "json \<Rightarrow> json \<Rightarrow> int \<Rightarrow> json_object" where
  "demo_experiment stage promotion trials =
     [(''schema_version'', JInt 2), (''program_id'', JStr ''p''), (''experiment_id'', JStr ''e''), (''stage'', stage),
      (''suite'', JStr ''s.json''), (''model'', JObj [(''provider'', JStr ''anthropic''), (''id'', JStr ''glm-5.2'')]),
      (''trials'', JInt trials), (''arms'', JArr (map demo_arm arm_ids)),
      (''common_runtime'', JObj [(''agent_teams'', JBool False), (''forced_compact_at_tokens'', JInt 5),
        (''forced_compact_keep_recent'', JInt 2), (''max_turns'', JInt 9)]),
      (''schedule'', JObj [(''kind'', JStr ''balanced_williams''), (''complete_blocks_only'', JBool True), (''task_order'', JStr ''sorted'')]),
      (''grading'', JObj [(''blind'', JBool True), (''arm_identity_visible_to_grader'', JBool False)]),
      (''invalid_policy'', JObj [(''exclude_from_scoring'', JBool True), (''abort_after_invalid'', JBool True)]),
      (''budget'', JObj [(''max_stage_cost_usd'', JInt 100), (''max_stage_tokens'', JInt 100), (''max_aggregate_cost_usd'', JInt 200),
        (''max_aggregate_tokens'', JInt 200), (''paid_rollouts_enabled'', JBool True),
        (''max_rollout_cost_usd'', JInt 1), (''max_rollout_tokens'', JInt 1)]),
      (''promotion'', promotion),
      (''stop_rules'', JObj [(''on_budget_reached'', JStr ''stop_before_next_rollout''),
        (''on_invalid_rollout'', JStr ''checkpoint_then_abort''),
        (''on_infrastructure_failure'', JStr ''mark_invalid_then_abort'')])]"

lemma demo_field:
  "field (demo_experiment stage promotion trials) ''stage'' = stage"
  "field (demo_experiment stage promotion trials) ''suite'' = JStr ''s.json''"
  "field (demo_experiment stage promotion trials) ''trials'' = JInt trials"
  "field (demo_experiment stage promotion trials) ''arms'' = JArr (map demo_arm arm_ids)"
  "field (demo_experiment stage promotion trials) ''promotion'' = promotion"
  "field (demo_experiment stage promotion trials) ''schema_version'' = JInt 2"
  "field (demo_experiment stage promotion trials) ''program_id'' = JStr ''p''"
  "field (demo_experiment stage promotion trials) ''experiment_id'' = JStr ''e''"
  by (simp_all add: demo_experiment_def dict_get_none_def)

lemma demo_keys: "set (keys (demo_experiment stage promotion trials)) = experiment_keys"
  by (simp add: demo_experiment_def experiment_keys_def insert_commute)

lemma nonblank_demo: "\<not> blank ''p''" "\<not> blank ''e''" "\<not> blank ''s.json''" "\<not> blank ''codex_style''"
  "\<not> blank ''claude_style''" "\<not> blank ''tinykg''" "\<not> blank ''e.json''"
  by (intro nonblank_letter; simp add: char_code_def)+

definition stage_object :: "string \<Rightarrow> json" where
  "stage_object stage = JObj (if stage = ''calibration''
     then [(''id'', JStr ''calibration''), (''purpose'', JStr ''infrastructure_calibration''), (''scoring'', JStr ''non_confirmatory'')]
     else [(''id'', JStr ''confirmatory''), (''purpose'', JStr ''held_out_repository_pk''), (''scoring'', JStr ''confirmatory'')])"

lemma demo_stage:
  "stage_contract (demo_experiment (stage_object ''calibration'') promotion trials) = Inr ''calibration''"
  "stage_contract (demo_experiment (stage_object ''confirmatory'') promotion trials) = Inr ''confirmatory''"
  unfolding stage_contract_def demo_field demo_keys
  by (simp_all add: stage_object_def nonblank_string_def nonblank_demo
      raise_if_def dict_get_none_def dec_eq_def insert_commute)

lemma demo_model: "model_contract (demo_experiment stage promotion trials) = Inr ()"
  by (simp add: model_contract_def demo_experiment_def dict_get_none_def raise_if_def)

lemma demo_trials: "trials_contract (demo_experiment stage promotion 6) = Inr 6"
  by (simp add: trials_contract_def demo_field counterbalanced_schedule_def arm_ids_def)

lemma demo_arms: "arms_contract (demo_experiment stage promotion trials) = Inr ()"
  unfolding arms_contract_def demo_field
  by (simp add: arm_ids_def demo_arm_def arm_contract_def expected_treatments_def
      treatment_keys_def nonblank_string_def nonblank_demo dict_get_none_def Let_def raise_if_def dec_eq_def insert_commute)

lemma demo_runtime: "runtime_contract (demo_experiment stage promotion trials) = Inr ()"
  by (simp add: runtime_contract_def demo_experiment_def dict_get_none_def raise_if_def positive_int_def insert_commute)

lemma demo_policies: "frozen_policies (demo_experiment stage promotion trials) = Inr ()"
  by (simp add: frozen_policies_def demo_experiment_def dict_get_none_def raise_if_def dec_eq_def)

lemma demo_stop: "stop_rules_contract (demo_experiment stage promotion trials) = Inr ()"
  by (simp add: stop_rules_contract_def demo_experiment_def dict_get_none_def raise_if_def)

definition demo_budget :: json_object where
  "demo_budget = [(''max_stage_cost_usd'', JInt 100), (''max_stage_tokens'', JInt 100), (''max_aggregate_cost_usd'', JInt 200),
     (''max_aggregate_tokens'', JInt 200), (''paid_rollouts_enabled'', JBool True),
     (''max_rollout_cost_usd'', JInt 1), (''max_rollout_tokens'', JInt 1)]"

lemma demo_budget_field: "field (demo_experiment stage promotion trials) ''budget'' = JObj demo_budget"
  by (simp add: demo_experiment_def demo_budget_def dict_get_none_def)

lemma demo_doubles: "to_double 1 = Fin 1" "to_double 100 = Fin 100" "to_double 200 = Fin 200"
  using float_of_small_int [of 1] float_of_small_int [of 100] float_of_small_int [of 200] by simp_all

lemma demo_fixed: "fixed_rollout_budget demo_budget required = Inr (Some (Fin 1, 1))"
  by (simp add: fixed_rollout_budget_def fixed_rollout_budget_keys_def demo_budget_def dict_get_none_def
      require_number_def is_finite_small demo_doubles Let_def insert_commute)

lemma demo_budget_accepted:
  assumes "0 \<le> rollouts" and "rollouts < 100"
  shows "budget_contract (demo_experiment stage promotion trials) rollouts = Inr ()"
proof -
  have f: "float_of (JInt i) = Fin (of_int i)" if "0 \<le> i" "i \<le> 2000" for i using that by (intro float_of_small_int) simp
  have n: "\<not> float_overflows rollouts"
  proof -
    have "(100 :: int) \<le> 2 ^ 1024 - 2 ^ 970" by simp
    then show ?thesis using assms unfolding float_overflows_def by linarith
  qed
  have m: "d_mul (Fin 1) (float_of (JInt rollouts)) = Fin (of_int rollouts)"
    using f [of rollouts] assms float_of_small_int [of rollouts] by simp
  have "capacity_contract (Fin 100) 100 rollouts (Fin 1, 1) = Inr ()"
    using assms n m by (simp add: capacity_contract_def int_times_def d_less_def raise_if_def)
  moreover have "set (keys demo_budget) = legacy_budget_keys \<union> fixed_rollout_budget_keys"
    by (simp add: demo_budget_def legacy_budget_keys_def fixed_rollout_budget_keys_def insert_commute)
  moreover have "field demo_budget ''max_stage_cost_usd'' = JInt 100" "field demo_budget ''max_aggregate_cost_usd'' = JInt 200"
    "field demo_budget ''max_stage_tokens'' = JInt 100" "field demo_budget ''max_aggregate_tokens'' = JInt 200"
    "field demo_budget ''paid_rollouts_enabled'' = JBool True"
    by (simp_all add: demo_budget_def dict_get_none_def)
  ultimately show ?thesis
    by (simp add: budget_contract_def demo_budget_field demo_fixed raise_if_def require_number_def is_finite_small demo_doubles
        Let_def d_less_def positive_int_def)
qed

section \<open>The two experiments\<close>

definition demo_files :: "(string \<Rightarrow> string option) \<Rightarrow> experiment_files" where
  "demo_files text = \<lparr>stays_inside = (\<lambda>_. True), regular_file = (\<lambda>_. True), symbolic_link = (\<lambda>_. False), file_text = text\<rparr>"

lemma demo_files_simps [simp]:
  "stays_inside (demo_files text) p" "regular_file (demo_files text) p" "file_text (demo_files text) = text"
  "repository.truncate (demo_files text) = demo_root"
  by (simp_all add: demo_files_def demo_root_def repository.truncate_def)

lemma demo_suite_valid:
  assumes "tasks = map (\<lambda>tid. demo_task tid version snapshot) tids" and "tids \<noteq> []" and "distinct tids"
    and "snapshot \<in> {JNull, demo_snapshot}"
  shows "validate_suite demo_root (demo_tasks_suite tasks) = Inr []"
proof -
  have "foldE (validate_task demo_root) (enumerate n (map (\<lambda>tid. demo_task tid version snapshot) ts)) (seen, ws) =
      Inr (rev ts @ seen, ws)" if "distinct ts" "set ts \<inter> set seen = {}" for n ts seen ws
    using that
  proof (induction ts arbitrary: n seen)
    case (Cons t ts)
    then show ?case using demo_task_valid [OF assms(4), of t "(seen, ws)"] by simp
  qed simp
  from this [of tids "[]"] assms(1-3) show ?thesis
    by (simp add: validate_suite_def demo_tasks_suite_def raise_if_def require_as_def dict_get_none_def dec_eq_def)
qed

lemma demo_before_promotion:
  assumes "suite_contract files (demo_experiment (stage_object stage) promotion 6) suite stage = Inr ()"
    and "stage \<in> {''calibration'', ''confirmatory''}" and "length (suite_tasks suite) \<le> 5"
  shows "contract_before_promotion files (demo_experiment (stage_object stage) promotion 6) suite =
    Inr (stage, rollout_count suite 6)"
proof -
  have "stage_contract (demo_experiment (stage_object stage) promotion 6) = Inr stage" using assms(2) demo_stage by blast
  moreover have "0 \<le> rollout_count suite 6" "rollout_count suite 6 < 100"
    using assms(3) by (simp_all add: rollout_count_def arm_ids_def)
  ultimately show ?thesis
    using assms(1) by (simp add: contract_before_promotion_def demo_model demo_trials demo_arms demo_runtime demo_policies
        demo_budget_accepted)
qed

definition calibration_suite :: json_object where
  "calibration_suite = demo_tasks_suite [demo_task ''t1'' ''long-horizon-v1'' JNull]"

definition calibration_experiment :: json_object where
  "calibration_experiment = demo_experiment (stage_object ''calibration'') (JObj
     [(''requires_receipt'', JBool False), (''source_experiment_id'', JNull), (''source_experiment'', JNull),
      (''source_experiment_fingerprint'', JNull),
      (''gate'', JObj [(''required_valid_rollouts'', JInt 18), (''max_invalid_rollouts'', JInt 0),
        (''require_complete_schedule'', JBool True), (''require_cost_telemetry'', JBool True),
        (''require_token_telemetry'', JBool True)])]) 6"

lemma suite_tasks_demo [simp]: "suite_tasks (demo_tasks_suite tasks) = tasks"
  by (simp add: suite_tasks_def demo_tasks_suite_def dict_get_none_def)

lemma demo_task_contract:
  "task_contract files ''calibration'' (demo_task tid ''long-horizon-v1'' snapshot) = Inr ()"
  "file_text files ''evals/t1.md'' = Some ''hi'' \<Longrightarrow>
    task_contract files ''confirmatory'' (demo_task tid ''long-horizon-repository-v1'' demo_snapshot) = Inr ()"
  by (simp_all add: task_contract_def demo_task_def check_kinds_def blind_workspace_checks_def held_out_task_def
      scenario_leaks_def confirmatory_prompt_leak_terms_def demo_snapshot_def dict_get_none_def get_default_def raise_if_def
      is_prefix_def char_code_def Let_def)

lemma calibration_accepted:
  "validate_experiment (Suc n) (demo_files text) calibration_experiment calibration_suite = Inr ()"
proof -
  let ?f = "demo_files text"
  have "validate_suite demo_root calibration_suite = Inr []"
    unfolding calibration_suite_def by (rule demo_suite_valid [of _ "''long-horizon-v1''" JNull "[''t1'']"]) simp_all
  then have "suite_contract ?f calibration_experiment calibration_suite ''calibration'' = Inr ()"
    by (simp add: suite_contract_def calibration_experiment_def demo_field nonblank_string_def nonblank_demo raise_if_def
        calibration_suite_def demo_task_contract)
  then have "contract_before_promotion ?f calibration_experiment calibration_suite =
      Inr (''calibration'', rollout_count calibration_suite 6)"
    unfolding calibration_experiment_def by (intro demo_before_promotion) (simp_all add: calibration_suite_def)
  moreover have "rollout_count calibration_suite 6 = 18"
    by (simp add: rollout_count_def calibration_suite_def arm_ids_def)
  ultimately show ?thesis
    by (simp add: calibration_experiment_def demo_stop demo_field promotion_contract_def calibration_promotion_def
        raise_if_def dec_eq_def insert_commute)
qed

theorem experiment_capacity_witness:
  "\<exists>stage_cost. float_of (field demo_budget ''max_stage_cost_usd'') = Fin stage_cost \<and> 1 * of_int 18 < stage_cost"
proof -
  have r: "rollout_count calibration_suite 6 = 18"
    by (simp add: rollout_count_def calibration_suite_def arm_ids_def)
  have b: "field calibration_experiment ''budget'' = JObj demo_budget" "field calibration_experiment ''trials'' = JInt 6"
    unfolding calibration_experiment_def by (rule demo_budget_field, rule demo_field)
  from experiment_capacity [OF calibration_accepted [of 0 "\<lambda>_. None"] b(1) demo_fixed b(2)] show ?thesis unfolding r by auto
qed

theorem experiment_blind_witness:
  "\<exists>task. suite_tasks calibration_suite = [JObj task] \<and> set (check_kinds task) \<subseteq> JStr ` set blind_workspace_checks"
  using experiment_blind [OF calibration_accepted [of 0 "\<lambda>_. None"]] by (auto simp: calibration_suite_def)

definition self_promotion :: json_object where
  "self_promotion = [(''requires_receipt'', JBool True), (''source_experiment_id'', JStr ''e''),
     (''source_experiment'', JStr ''e.json''), (''source_experiment_fingerprint'', JStr (replicate 16 (CHR ''a''))),
     (''gate'', JNull)]"

definition self_experiment :: json_object where
  "self_experiment = demo_experiment (stage_object ''confirmatory'') (JObj self_promotion) 6"

definition self_suite :: json_object where
  "self_suite = demo_tasks_suite (map (\<lambda>tid. demo_task tid ''long-horizon-repository-v1'' demo_snapshot) [''t1'', ''t2'', ''t3''])"

definition self_files :: experiment_files where
  "self_files = demo_files (\<lambda>p. if p = ''e.json'' then Some (dumps (JObj self_experiment))
     else if p = ''s.json'' then Some (dumps (JObj self_suite)) else Some ''hi'')"

lemma self_storable: "plain (JObj self_experiment)" "utf8_json (JObj self_experiment)"
  "plain (JObj self_suite)" "utf8_json (JObj self_suite)"
  by (simp_all add: self_experiment_def self_suite_def demo_experiment_def demo_tasks_suite_def demo_task_def demo_snapshot_def
      self_promotion_def stage_object_def demo_arm_def arm_ids_def expected_treatments_def treatment_keys_def Let_def
      char_code_def utf8_valid_ascii)

lemma demo_safe_path: "p \<in> {''e.json'', ''s.json''} \<Longrightarrow> safe_posix_relative_path (JStr p) w = Inr [p]"
  by (auto simp: safe_posix_relative_path_def posix_root_def posix_parts_def as_posix_def slash_def is_prefix_def)

lemma self_repository_file:
  "repository_file self_files (JStr ''e.json'') w = Inr self_experiment"
  "repository_file self_files (JStr ''s.json'') w = Inr self_suite"
proof -
  have "load_json self_files ''e.json'' = Inr self_experiment" "load_json self_files ''s.json'' = Inr self_suite"
    using self_storable by (intro load_json_dumps; simp add: self_files_def)+
  then show "repository_file self_files (JStr ''e.json'') w = Inr self_experiment"
    "repository_file self_files (JStr ''s.json'') w = Inr self_suite"
    using demo_safe_path [of "''e.json''"] demo_safe_path [of "''s.json''"]
    by (simp_all add: repository_file_def self_files_def raise_if_def)
qed

section \<open>An accepted confirmatory experiment\<close>

definition held_out_promotion :: json_object where
  "held_out_promotion = [(''requires_receipt'', JBool True), (''source_experiment_id'', JStr ''e''),
     (''source_experiment'', JStr ''e.json''),
     (''source_experiment_fingerprint'', JStr (experiment_fingerprint calibration_experiment calibration_suite)),
     (''gate'', JNull)]"

definition held_out_experiment :: json_object where
  "held_out_experiment = demo_experiment (stage_object ''confirmatory'') (JObj held_out_promotion) 6"

definition held_out_files :: experiment_files where
  "held_out_files = demo_files (\<lambda>p. if p = ''e.json'' then Some (dumps (JObj calibration_experiment))
     else if p = ''s.json'' then Some (dumps (JObj calibration_suite)) else Some ''hi'')"

lemma held_out_suite_contract:
  assumes "file_text (demo_files text) ''evals/t1.md'' = Some ''hi''"
  shows "suite_contract (demo_files text) (demo_experiment stage promotion trials) self_suite ''confirmatory'' = Inr ()"
proof -
  have "validate_suite demo_root self_suite = Inr []"
    unfolding self_suite_def
    by (rule demo_suite_valid [of _ "''long-horizon-repository-v1''" demo_snapshot "[''t1'', ''t2'', ''t3'']"]) simp_all
  then show ?thesis
    using assms by (simp add: suite_contract_def demo_field nonblank_string_def nonblank_demo raise_if_def
        self_suite_def demo_task_contract)
qed

lemma held_out_repository_file:
  "repository_file held_out_files (JStr ''e.json'') w = Inr calibration_experiment"
  "repository_file held_out_files (JStr ''s.json'') w = Inr calibration_suite"
proof -
  have "plain (JObj calibration_experiment)" "utf8_json (JObj calibration_experiment)"
    "plain (JObj calibration_suite)" "utf8_json (JObj calibration_suite)"
    by (simp_all add: calibration_experiment_def calibration_suite_def demo_experiment_def demo_tasks_suite_def demo_task_def
        stage_object_def demo_arm_def arm_ids_def expected_treatments_def treatment_keys_def Let_def char_code_def utf8_valid_ascii)
  then have "load_json held_out_files ''e.json'' = Inr calibration_experiment"
    "load_json held_out_files ''s.json'' = Inr calibration_suite"
    by (intro load_json_dumps; simp add: held_out_files_def)+
  then show "repository_file held_out_files (JStr ''e.json'') w = Inr calibration_experiment"
    "repository_file held_out_files (JStr ''s.json'') w = Inr calibration_suite"
    using demo_safe_path [of "''e.json''"] demo_safe_path [of "''s.json''"]
    by (simp_all add: repository_file_def held_out_files_def raise_if_def)
qed

lemma hex_fingerprint: "hex_str 16 (experiment_fingerprint e suite)"
  using is_hash_canonical [of "JObj [(''experiment'', JObj e), (''suite'', JObj suite)]"]
  by (auto simp: experiment_fingerprint_def is_hash_str_def hex_str_def list_all_iff dest: in_set_takeD)

lemma held_out_accepted: "validate_experiment (Suc (Suc n)) held_out_files held_out_experiment self_suite = Inr ()"
proof -
  have before: "contract_before_promotion held_out_files held_out_experiment self_suite =
      Inr (''confirmatory'', rollout_count self_suite 6)"
    unfolding held_out_experiment_def held_out_files_def
    by (intro demo_before_promotion held_out_suite_contract) (simp_all add: self_suite_def)
  have p: "field held_out_experiment ''promotion'' = JObj held_out_promotion"
    and pid: "field held_out_experiment ''program_id'' = JStr ''p''"
    unfolding held_out_experiment_def by (rule demo_field)+
  have f: "field held_out_promotion ''source_experiment'' = JStr ''e.json''"
    "field held_out_promotion ''source_experiment_id'' = JStr ''e''"
    "field held_out_promotion ''source_experiment_fingerprint'' = JStr (experiment_fingerprint calibration_experiment calibration_suite)"
    "field held_out_promotion ''requires_receipt'' = JBool True" "field held_out_promotion ''gate'' = JNull"
    by (simp_all add: held_out_promotion_def dict_get_none_def)
  have c: "field calibration_experiment ''suite'' = JStr ''s.json''" "field calibration_experiment ''program_id'' = JStr ''p''"
    "field calibration_experiment ''experiment_id'' = JStr ''e''"
    unfolding calibration_experiment_def by (rule demo_field)+
  have "get_default calibration_experiment ''stage'' (JObj []) = stage_object ''calibration''"
    by (simp add: calibration_experiment_def demo_experiment_def get_default_def)
  then have m: "source_matches held_out_experiment held_out_promotion calibration_experiment calibration_suite"
    unfolding source_matches_def f c pid by (simp add: stage_object_def dict_get_none_def)
  have fr: "frozen_source held_out_promotion"
    unfolding frozen_source_def f by (simp add: nonblank_demo hex_fingerprint)
  have v: "validate_experiment (Suc n) held_out_files calibration_experiment calibration_suite = Inr ()"
    unfolding held_out_files_def by (rule calibration_accepted)
  have "confirmatory_promotion (validate_experiment (Suc n) held_out_files) held_out_files held_out_experiment held_out_promotion = Inr ()"
    unfolding confirmatory_promotion_def f
    by (simp only: fr m v held_out_repository_file c raise_if_def bindE_Inr not_True_eq_False if_False)
  moreover have "set (keys held_out_promotion) = {''requires_receipt'', ''source_experiment_id'', ''source_experiment'',
      ''source_experiment_fingerprint'', ''gate''}"
    by (simp add: held_out_promotion_def insert_commute)
  ultimately have "promotion_contract (validate_experiment (Suc n) held_out_files) held_out_files held_out_experiment
      ''confirmatory'' (rollout_count self_suite 6) = Inr ()"
    unfolding promotion_contract_def p by simp
  moreover have "stop_rules_contract held_out_experiment = Inr ()"
    unfolding held_out_experiment_def by (rule demo_stop)
  ultimately show ?thesis
    by (simp only: validate_experiment.simps(2) [of "Suc n"] before bindE_Inr case_prod_conv)
qed

theorem accepted_within_two_levels_witness:
  "validate_experiment 2 held_out_files held_out_experiment self_suite = Inr ()"
  by (rule accepted_within_two_levels [OF held_out_accepted [of 6]])

section \<open>The manifest that names itself\<close>

theorem self_reference_recurses_witness:
  "validate_experiment 1000 self_files self_experiment self_suite = Inl Recursion_Error"
proof (rule self_reference_recurses)
  show "contract_before_promotion self_files self_experiment self_suite = Inr (''confirmatory'', rollout_count self_suite 6)"
    unfolding self_experiment_def self_files_def
    by (intro demo_before_promotion held_out_suite_contract) (simp_all add: self_suite_def)
  show "field self_experiment ''promotion'' = JObj self_promotion" unfolding self_experiment_def by (rule demo_field)
  show "frozen_source self_promotion"
    by (simp add: frozen_source_def self_promotion_def dict_get_none_def nonblank_demo hex_str_def list_all_iff hex_char_def char_code_def)
  show "set (keys self_promotion) = {''requires_receipt'', ''source_experiment_id'', ''source_experiment'',
      ''source_experiment_fingerprint'', ''gate''}"
    by (simp add: self_promotion_def insert_commute)
  have f: "field self_promotion ''source_experiment'' = JStr ''e.json''" "field self_experiment ''suite'' = JStr ''s.json''"
    unfolding self_experiment_def by (simp add: self_promotion_def dict_get_none_def, rule demo_field)
  show "repository_file self_files (field self_promotion ''source_experiment'') ''experiment.promotion.source_experiment'' = Inr self_experiment"
    "repository_file self_files (field self_experiment ''suite'') ''calibration source experiment suite'' = Inr self_suite"
    unfolding f by (rule self_repository_file)+
qed

end
