(* ===== verification/Experiment_Plan.thy ===== *)
theory Experiment_Plan
  imports Experiment_Demo
begin

text \<open>
  The promotion receipt, the identities and environments of the arms, and the dry-run plan of
  \<open>scripts/eval/experiment.py\<close>. The hashes and paths of the binaries, which the code reads from
  the file system and from the binaries themselves, are arguments.
\<close>

section \<open>The promotion receipt\<close>

definition receipt_gate :: "json \<Rightarrow> unit result" where
  "receipt_gate v =
    (case v of
       JObj gate \<Rightarrow>
         if set (keys gate) \<noteq> {''required_valid_rollouts'', ''valid_rollouts'', ''invalid_rollouts'', ''complete_schedule'',
              ''cost_telemetry_rollouts'', ''token_telemetry_rollouts''}
         then fail ''receipt.gate'' ''fields are invalid''
         else (case int_value (field gate ''required_valid_rollouts'') of
             None \<Rightarrow> fail ''receipt.gate'' ''calibration gate did not pass''
           | Some required \<Rightarrow>
               raise_if (required \<le> 0 \<or> \<not> py_eq (field gate ''valid_rollouts'') (JInt required) \<or>
                   \<not> py_eq (field gate ''invalid_rollouts'') (JInt 0) \<or>
                   field gate ''complete_schedule'' \<noteq> JBool True \<or>
                   \<not> py_eq (field gate ''cost_telemetry_rollouts'') (JInt required) \<or>
                   \<not> py_eq (field gate ''token_telemetry_rollouts'') (JInt required))
                 ''receipt.gate'' ''calibration gate did not pass'')
     | _ \<Rightarrow> fail ''receipt.gate'' ''fields are invalid'')"

definition receipt_usage :: "json \<Rightarrow> (double \<times> int) result" where
  "receipt_usage v =
    (case v of
       JObj usage \<Rightarrow>
         if set (keys usage) \<noteq> {''cost_usd'', ''tokens''} then fail ''receipt.usage'' ''fields are invalid''
         else bindE (require_number (field usage ''cost_usd'') (\<lambda>x. \<not> is_negative x) ''receipt.usage'' ''must be finite and non-negative'') (\<lambda>_.
           case int_value (field usage ''tokens'') of
             Some tokens \<Rightarrow>
               if tokens < 0 then fail ''receipt.usage'' ''must be finite and non-negative''
               else Inr (float_of (field usage ''cost_usd''), tokens)
           | None \<Rightarrow> fail ''receipt.usage'' ''must be finite and non-negative'')
     | _ \<Rightarrow> fail ''receipt.usage'' ''fields are invalid'')"

definition receipt_source_budget :: "json \<Rightarrow> double \<times> int \<Rightarrow> (double \<times> int) result" where
  \<comment> \<open>the caps of the calibration stage, which its usage must be below\<close>
  "receipt_source_budget v usage =
    (case v of
       JObj b \<Rightarrow>
         if set (keys b) \<noteq> {''max_stage_cost_usd'', ''max_stage_tokens''} then fail ''receipt.source_budget'' ''fields are invalid''
         else bindE (require_number (field b ''max_stage_cost_usd'') is_positive ''receipt'' ''exceeds its calibration stage budget'') (\<lambda>_.
           case int_value (field b ''max_stage_tokens'') of
             None \<Rightarrow> fail ''receipt'' ''exceeds its calibration stage budget''
           | Some cap \<Rightarrow>
               if cap \<le> 0 \<or> d_less_eq (float_of (field b ''max_stage_cost_usd'')) (fst usage) \<or> cap \<le> snd usage
               then fail ''receipt'' ''exceeds its calibration stage budget''
               else Inr (float_of (field b ''max_stage_cost_usd''), cap))
     | _ \<Rightarrow> fail ''receipt.source_budget'' ''fields are invalid'')"

definition aggregate_covers :: "json_object \<Rightarrow> double \<times> int \<Rightarrow> unit result" where
  \<comment> \<open>the caps of both stages against the aggregate of the validated experiment\<close>
  "aggregate_covers e caps =
    (case field e ''budget'' of
       JObj b \<Rightarrow>
         (case (int_value (field b ''max_stage_tokens''), int_value (field b ''max_aggregate_tokens'')) of
            (Some stage, Some aggregate) \<Rightarrow>
              raise_if (d_less (float_of (field b ''max_aggregate_cost_usd''))
                   (d_add (fst caps) (float_of (field b ''max_stage_cost_usd''))) \<or> aggregate < snd caps + stage)
                ''receipt'' ''calibration and confirmatory stage caps exceed aggregate budget''
          | _ \<Rightarrow> Inl (Type_Error ''budget tokens''))
     | _ \<Rightarrow> Inl (Type_Error ''budget''))"

definition receipt_checkpoints :: "json \<Rightarrow> unit result" where
  "receipt_checkpoints v =
    (case v of
       JObj c \<Rightarrow> seqE
        [raise_if (set (keys c) \<noteq> set arm_ids) ''receipt'' ''must bind all three checkpoints'',
         forE (\<lambda>kv. raise_if (\<not> hex_json 64 (snd kv)) ''receipt'' ''checkpoint SHA-256 is invalid'') c]
     | _ \<Rightarrow> fail ''receipt'' ''must bind all three checkpoints'')"

record execution_identity =
  metacodes_sha256 :: string
  tinykg_sha256 :: string
  formal_kernel_fingerprint :: string
  harness_revision :: string

definition identity_object :: "execution_identity \<Rightarrow> json" where
  "identity_object x = JObj [(''metacodes_sha256'', JStr (metacodes_sha256 x)), (''tinykg_sha256'', JStr (tinykg_sha256 x)),
     (''formal_kernel_fingerprint'', JStr (formal_kernel_fingerprint x)), (''harness_revision'', JStr (harness_revision x))]"

definition receipt_identity ::
  "json_object \<Rightarrow> json_object \<Rightarrow> execution_identity \<Rightarrow> string \<Rightarrow> unit result" where
  "receipt_identity r e x source_fingerprint =
    seqE
     [raise_if (set (keys r) \<noteq> {''schema_version'', ''program_id'', ''source_experiment_id'', ''source_experiment_fingerprint'',
         ''stage'', ''eligible'', ''gate'', ''usage'', ''source_budget'', ''identity'', ''checkpoint_sha256''})
        ''receipt'' ''contains missing or unknown fields'',
      raise_if (\<not> py_eq (field r ''schema_version'') (JInt 2)) ''receipt'' ''schema version is unsupported'',
      case field e ''stage'' of
        JObj stage \<Rightarrow> raise_if (field stage ''id'' \<noteq> JStr ''confirmatory'') ''receipt'' ''only valid for confirmatory execution''
      | _ \<Rightarrow> Inl (Type_Error ''experiment''),
      raise_if (\<not> py_eq (field r ''program_id'') (field e ''program_id''))
        ''receipt'' ''does not authorize this experiment program'',
      case field e ''promotion'' of
        JObj promotion \<Rightarrow>
          raise_if (\<not> py_eq (field r ''source_experiment_id'') (field promotion ''source_experiment_id'') \<or>
              field r ''stage'' \<noteq> JStr ''calibration'' \<or> field r ''eligible'' \<noteq> JBool True)
            ''receipt'' ''does not authorize this experiment program''
      | _ \<Rightarrow> Inl (Type_Error ''experiment''),
      raise_if (field r ''source_experiment_fingerprint'' \<noteq> JStr source_fingerprint) ''receipt'' ''source fingerprint mismatch'',
      raise_if (\<not> py_eq (field r ''identity'') (identity_object x)) ''receipt'' ''binary or revision identity mismatch'']"

definition validate_promotion_receipt ::
  "json_object \<Rightarrow> json_object \<Rightarrow> execution_identity \<Rightarrow> string \<Rightarrow> (double \<times> int) result" where
  "validate_promotion_receipt r e x source_fingerprint =
    bindE (receipt_identity r e x source_fingerprint) (\<lambda>_.
    bindE (receipt_gate (field r ''gate'')) (\<lambda>_.
    bindE (receipt_usage (field r ''usage'')) (\<lambda>usage.
    bindE (receipt_source_budget (field r ''source_budget'') usage) (\<lambda>caps.
    bindE (aggregate_covers e caps) (\<lambda>_.
    bindE (receipt_checkpoints (field r ''checkpoint_sha256'')) (\<lambda>_.
    Inr usage))))))"

section \<open>Arms\<close>

definition arm_config_ids ::
  "json_object \<Rightarrow> json_object \<Rightarrow> execution_identity \<Rightarrow> (string \<times> string) list result" where
  \<comment> \<open>the experiment id is a string in a validated experiment\<close>
  "arm_config_ids e suite x =
    bindE (forE (\<lambda>(label, sha). raise_if (\<not> hex_str 64 sha) label ''SHA-256 must contain 64 hex characters'')
      [(''metacodes'', metacodes_sha256 x), (''TinyKG dependency'', tinykg_sha256 x),
       (''formal kernel artifact'', formal_kernel_fingerprint x)]) (\<lambda>_.
    case field e ''experiment_id'' of
      JStr experiment_id \<Rightarrow>
        Inr (map (\<lambda>arm. (arm, experiment_id @ '':'' @ arm @ '':'' @ experiment_fingerprint e suite @ '':mc-'' @ metacodes_sha256 x
          @ '':kg-'' @ tinykg_sha256 x @ '':fk-'' @ formal_kernel_fingerprint x)) arm_ids)
    | _ \<Rightarrow> Inl (Type_Error ''experiment_id''))"

record dependency_paths =
  tinykg_path :: string
  kernel_path :: string
  kernel_sha256 :: string

definition arm_runtime_env ::
  "json_object \<Rightarrow> string \<Rightarrow> dependency_paths \<Rightarrow> (string \<times> string) list result" where
  "arm_runtime_env e arm d =
    (if arm \<notin> set arm_ids then fail arm ''unknown long-horizon arm''
     else case field e ''common_runtime'' of
       JObj runtime \<Rightarrow>
         (case (int_value (field runtime ''forced_compact_at_tokens''), int_value (field runtime ''forced_compact_keep_recent''),
                int_value (field runtime ''max_turns'')) of
            (Some compact_at, Some compact_keep, Some max_turns) \<Rightarrow> Inr
              ([(''METACODES_LONG_HORIZON_ARM'', arm), (''METACODES_FORCE_COMPACT_AT'', int_str compact_at),
                (''METACODES_FORCE_COMPACT_KEEP'', int_str compact_keep), (''METACODES_MAX_TURNS'', int_str max_turns)] @
               (if arm = ''tinykg''
                then [(''METACODES_KG_TRANSPORT'', ''cli-exclusive''), (''METACODES_KG_BIN'', tinykg_path d),
                      (''METACODES_FORMAL_KERNEL_PATH'', kernel_path d), (''METACODES_FORMAL_KERNEL_SHA256'', kernel_sha256 d)]
                else []))
          | _ \<Rightarrow> Inl (Type_Error ''common_runtime''))
     | _ \<Rightarrow> Inl (Type_Error ''common_runtime''))"

section \<open>The dry-run plan\<close>

record plan_row =
  sequence_number :: nat
  row_trial :: nat
  order_position :: nat
  row_arm :: string
  row_task :: string
  timeout_seconds :: json
  row_cost_cap :: double
  row_token_cap :: int
  harness_config_id :: string
  runtime_env :: "(string \<times> string) list"

definition plan_capacity ::
  "json_object \<Rightarrow> int \<Rightarrow> double \<times> int \<Rightarrow> double \<Rightarrow> int \<Rightarrow> unit result" where
  \<comment> \<open>what is left of the budget after what was used covers every cap\<close>
  "plan_capacity b rollouts cap used_cost used_tokens =
    bindE (int_times (fst cap) rollouts) (\<lambda>reserve.
    case (int_value (field b ''max_stage_tokens''), int_value (field b ''max_aggregate_tokens'')) of
      (Some stage, Some aggregate) \<Rightarrow>
        (let cost = d_min (d_sub (float_of (field b ''max_stage_cost_usd'')) used_cost)
               (d_sub (float_of (field b ''max_aggregate_cost_usd'')) used_cost);
             tokens = min (stage - used_tokens) (aggregate - used_tokens)
         in raise_if (d_less_eq cost reserve \<or> tokens \<le> snd cap * rollouts) ''plan''
              ''budget carryover cannot reserve the complete fixed-cap schedule'')
    | _ \<Rightarrow> Inl (Type_Error ''budget''))"

definition task_timeout :: "json_object \<Rightarrow> string \<Rightarrow> json" where
  \<comment> \<open>\<open>tasks[task_id]["constraints"]["timeout_seconds"]\<close> of a validated suite\<close>
  "task_timeout suite tid =
    (case rev (filter (\<lambda>t. task_id_of t = Some tid) (suite_tasks suite)) of
       t # _ \<Rightarrow> (case t of JObj task \<Rightarrow> (case field task ''constraints'' of JObj c \<Rightarrow> field c ''timeout_seconds'' | _ \<Rightarrow> JNull) | _ \<Rightarrow> JNull)
     | [] \<Rightarrow> JNull)"

definition plan_task_ids :: "json_object \<Rightarrow> string list" where
  \<comment> \<open>\<open>sorted({task["id"]: task for task in suite["tasks"]})\<close>\<close>
  "plan_task_ids suite = sort (remdups (List.map_filter task_id_of (suite_tasks suite)))"

definition plan_row_of ::
  "json_object \<Rightarrow> json_object \<Rightarrow> double \<times> int \<Rightarrow> (string \<times> string) list \<Rightarrow> dependency_paths \<Rightarrow>
   nat \<times> (nat \<times> string) \<times> string \<Rightarrow> plan_row result" where
  "plan_row_of e suite cap config_ids d q =
    (case q of (position, (trial, arm), tid) \<Rightarrow>
      bindE (arm_runtime_env e arm d) (\<lambda>env.
      case map_of config_ids arm of
        None \<Rightarrow> Inl (Key_Error arm)
      | Some config_id \<Rightarrow> Inr
          \<lparr>sequence_number = 0, row_trial = trial, order_position = position, row_arm = arm, row_task = tid,
           timeout_seconds = task_timeout suite tid, row_cost_cap = fst cap, row_token_cap = snd cap,
           harness_config_id = config_id, runtime_env = env\<rparr>))"

definition plan_slots :: "(nat \<times> string) list \<Rightarrow> string list \<Rightarrow> (nat \<times> (nat \<times> string) \<times> string) list" where
  \<comment> \<open>the loop over the schedule and, inside it, over the tasks\<close>
  "plan_slots schedule tids =
    concat (map (\<lambda>(i, s). map (\<lambda>tid. (i mod length arm_ids, s, tid)) tids) (enumerate 0 schedule))"

definition plan_rows ::
  "json_object \<Rightarrow> json_object \<Rightarrow> double \<times> int \<Rightarrow> (string \<times> string) list \<Rightarrow> dependency_paths \<Rightarrow>
   (nat \<times> string) list \<Rightarrow> plan_row list result" where
  "plan_rows e suite cap config_ids d schedule =
    mapE (\<lambda>(i, q). bindE (plan_row_of e suite cap config_ids d q) (\<lambda>row. Inr (row\<lparr>sequence_number := i\<rparr>)))
      (enumerate 0 (plan_slots schedule (plan_task_ids suite)))"

definition build_dry_run_plan ::
  "json_object \<Rightarrow> json_object \<Rightarrow> bool \<Rightarrow> execution_identity \<Rightarrow> dependency_paths \<Rightarrow> string \<Rightarrow> double \<Rightarrow> int \<Rightarrow> plan_row list result" where
  \<comment> \<open>the third argument: the binary is an executable file\<close>
  "build_dry_run_plan e suite executable x d revision used_cost used_tokens =
    bindE (raise_if (\<not> executable) ''plan'' ''binary is not executable'') (\<lambda>_.
    bindE (raise_if (blank revision) ''plan'' ''multi-arm revision must be non-empty'') (\<lambda>_.
    bindE (raise_if (\<not> finite_double used_cost \<or> d_less used_cost (Fin 0) \<or> used_tokens < 0) ''plan''
      ''budget usage offsets must be non-negative'') (\<lambda>_.
    case (field e ''budget'', int_value (field e ''trials'')) of
      (JObj b, Some trials) \<Rightarrow>
        bindE (fixed_rollout_budget b True) (\<lambda>cap.
        case cap of
          None \<Rightarrow> Inl (Type_Error ''cannot unpack'')
        | Some c \<Rightarrow>
            bindE (counterbalanced_schedule arm_ids trials) (\<lambda>schedule.
            bindE (plan_capacity b (int (length (suite_tasks suite)) * int (length schedule)) c used_cost used_tokens) (\<lambda>_.
            bindE (arm_config_ids e suite x) (\<lambda>config_ids.
            plan_rows e suite c config_ids d schedule))))
    | _ \<Rightarrow> Inl (Type_Error ''experiment''))))"

end
