(* ===== verification/Experiment_Plan_Properties.thy ===== *)
theory Experiment_Plan_Properties
  imports Experiment_Plan
begin

text \<open>
  What the plan of an experiment guarantees: the two stages stay within the user's authority,
  configuration ids bind what they name, a baseline arm knows nothing of the treatment's
  binaries, and the rows of the plan are every trial of every arm and task, once.
\<close>

section \<open>Both stages within the authority\<close>

lemma not_negative_float: "is_number v \<Longrightarrow> \<not> is_negative v \<Longrightarrow> float_of v = Fin x \<Longrightarrow> 0 \<le> x"
proof -
  assume v: "is_number v" "\<not> is_negative v" "float_of v = Fin x"
  have nn: "0 \<le> q \<Longrightarrow> to_double q = Fin x \<Longrightarrow> 0 \<le> x" for q
    using round_double_mono [of 0 q] by (auto simp: to_double_def Let_def round_double_def split: if_splits)
  show ?thesis
  proof (cases v)
    case (JInt i)
    then show ?thesis using v nn [of "of_int i"] by simp
  next
    case (JFloat f)
    then show ?thesis
    proof (cases f)
      case (FDec m k)
      then show ?thesis using v JFloat nn [of "of_int m * 10 powi k"] by simp
    qed (use v JFloat in auto)
  qed (use v in simp_all)
qed

lemma receipt_usage_Inr:
  assumes "receipt_usage v = Inr (cost, tokens)"
  shows "\<exists>c. cost = Fin c \<and> 0 \<le> c" and "0 \<le> tokens"
proof -
  obtain u where u: "v = JObj u" using assms by (cases v) (auto simp: receipt_usage_def)
  from assms have n: "is_number (field u ''cost_usd'')" "is_finite (field u ''cost_usd'') = Inr True" "\<not> is_negative (field u ''cost_usd'')"
    and c: "cost = float_of (field u ''cost_usd'')" and t: "0 \<le> tokens"
    by (auto simp: u receipt_usage_def bindE_eq_Inr check_simps split: if_splits option.splits)
  show "\<exists>c. cost = Fin c \<and> 0 \<le> c" using is_finite_double [OF n(1,2)] not_negative_float [OF n(1,3)] c by auto
  show "0 \<le> tokens" by (rule t)
qed

lemma receipt_source_budget_Inr:
  assumes "receipt_source_budget v (cost, tokens) = Inr (cap, token_cap)"
  shows "\<exists>x. cap = Fin x" and "d_less_eq cap cost \<Longrightarrow> False" and "tokens < token_cap"
proof -
  obtain b where b: "v = JObj b" using assms by (cases v) (auto simp: receipt_source_budget_def)
  from assms have n: "is_number (field b ''max_stage_cost_usd'')" "is_finite (field b ''max_stage_cost_usd'') = Inr True"
    and c: "cap = float_of (field b ''max_stage_cost_usd'')" and l: "\<not> d_less_eq cap cost" and t: "tokens < token_cap"
    by (auto simp: b receipt_source_budget_def bindE_eq_Inr check_simps split: if_splits option.splits)
  show "\<exists>x. cap = Fin x" using is_finite_double [OF n] c by auto
  show "d_less_eq cap cost \<Longrightarrow> False" "tokens < token_cap" using l t by auto
qed

text \<open>C31: what a calibration has spent and the whole confirmatory stage together stay within the
  aggregate budget and the user's authority, when the receipt and the experiment are accepted:
  the sum of cost and stage cap, as the machine rounds it, is at most the aggregate, which is at
  most 2000 dollars; tokens are below theirs exactly.\<close>

theorem two_stages_within_authority:
  assumes "validate_promotion_receipt r e x fingerprint = Inr (cost, tokens)"
    and "validate_experiment n files e suite = Inr ()" and "field e ''budget'' = JObj b"
  shows "\<exists>c s a stage_tokens aggregate_tokens. cost = Fin c \<and> 0 \<le> c \<and>
    float_of (field b ''max_stage_cost_usd'') = Fin s \<and> float_of (field b ''max_aggregate_cost_usd'') = Fin a \<and>
    round_double (c + s) \<le> a \<and> a \<le> 2000 \<and>
    field b ''max_stage_tokens'' = JInt stage_tokens \<and> field b ''max_aggregate_tokens'' = JInt aggregate_tokens \<and>
    0 \<le> tokens \<and> tokens + stage_tokens < aggregate_tokens"
proof -
  from assms(1) obtain cap token_cap where u: "receipt_usage (field r ''usage'') = Inr (cost, tokens)"
    and sb: "receipt_source_budget (field r ''source_budget'') (cost, tokens) = Inr (cap, token_cap)"
    and ac: "aggregate_covers e (cap, token_cap) = Inr ()"
    by (auto simp: validate_promotion_receipt_def bindE_eq_Inr)
  from assms(2) obtain trials where "budget_contract e (rollout_count suite trials) = Inr ()"
    by (rule validate_experiment_InrE)
  then show ?thesis
  proof (rule budget_contract_InrE)
    fix b' st ag
    assume b': "field e ''budget'' = JObj b'"
      and s: "is_number (field b' ''max_stage_cost_usd'')" "is_finite (field b' ''max_stage_cost_usd'') = Inr True"
      and a: "is_number (field b' ''max_aggregate_cost_usd'')" "is_finite (field b' ''max_aggregate_cost_usd'') = Inr True"
      and cmp: "\<not> d_less (Fin 2000) (float_of (field b' ''max_aggregate_cost_usd''))"
      and tok: "field b' ''max_stage_tokens'' = JInt st" "field b' ''max_aggregate_tokens'' = JInt ag"
    have bb: "b' = b" using b' assms(3) by simp
    obtain xs where xs: "float_of (field b ''max_stage_cost_usd'') = Fin xs" using is_finite_double [OF s] bb by auto
    obtain xa where xa: "float_of (field b ''max_aggregate_cost_usd'') = Fin xa" "is_double (Fin xa)"
      using is_finite_double [OF a] bb by auto
    obtain c where c: "cost = Fin c" "0 \<le> c" using receipt_usage_Inr(1) [OF u] by blast
    obtain y where "cap = Fin y" using receipt_source_budget_Inr(1) [OF sb] by blast
    moreover from this have "\<not> y \<le> c" using receipt_source_budget_Inr(2) [OF sb] c(1) by auto
    ultimately have y: "cap = Fin y" "c < y" by auto
    have "\<not> d_less (Fin xa) (to_double (y + xs))" and t: "token_cap + st \<le> ag"
      using ac assms(3) bb tok xs xa(1) y(1) by (auto simp: aggregate_covers_def check_simps)
    then have "d_less_eq (to_double (y + xs)) (Fin xa)"
      by (auto simp: d_less_def to_double_def Let_def split: if_splits)
    then have "round_double (y + xs) \<le> xa" by (rule d_less_eq_finite [OF xa(2)])
    moreover have "round_double (c + xs) \<le> round_double (y + xs)" using y(2) by (intro round_double_mono) simp
    moreover have "xa \<le> 2000" using cmp bb xa(1) by (auto simp: d_less_def)
    ultimately show ?thesis
      using c xs xa(1) tok t bb receipt_usage_Inr(2) [OF u] receipt_source_budget_Inr(3) [OF sb] by auto
  qed
qed

section \<open>Configuration ids\<close>

lemma arm_config_ids_Inr:
  assumes "arm_config_ids e suite x = Inr ids"
  shows "\<exists>eid. field e ''experiment_id'' = JStr eid \<and> ids = map (\<lambda>arm. (arm, eid @ '':'' @ arm @ '':'' @
      experiment_fingerprint e suite @ '':mc-'' @ metacodes_sha256 x @ '':kg-'' @ tinykg_sha256 x @ '':fk-'' @
      formal_kernel_fingerprint x)) arm_ids"
    and "length (metacodes_sha256 x) = 64" "length (tinykg_sha256 x) = 64" "length (formal_kernel_fingerprint x) = 64"
  using assms by (auto simp: arm_config_ids_def bindE_eq_Inr forE_eq_Inr check_simps hex_str_def split: json.splits)

lemma last_separator:
  "c \<notin> set a \<Longrightarrow> c \<notin> set b \<Longrightarrow> u @ c # a = v @ c # b \<Longrightarrow> u = v \<and> a = b"
proof (induction a arbitrary: b rule: rev_induct)
  case Nil
  then show ?case by (cases b rule: rev_cases) auto
next
  case (snoc x a)
  then show ?case by (cases b rule: rev_cases) auto
qed

lemma length_fingerprint: "length (experiment_fingerprint e suite) = 16"
  using is_hash_canonical [of "JObj [(''experiment'', JObj e), (''suite'', JObj suite)]"]
  by (simp add: experiment_fingerprint_def is_hash_str_def)

text \<open>A configuration id determines what it was made of: two arms with the same id are the
  same arm of experiments with the same id and fingerprint, run on the same three binaries.\<close>

theorem config_id_binds:
  assumes "arm_config_ids e suite x = Inr ids" and "arm_config_ids e' suite' x' = Inr ids'"
    and "(arm, config_id) \<in> set ids" and "(arm', config_id) \<in> set ids'"
  shows "arm = arm' \<and> field e ''experiment_id'' = field e' ''experiment_id'' \<and>
    experiment_fingerprint e suite = experiment_fingerprint e' suite' \<and>
    metacodes_sha256 x = metacodes_sha256 x' \<and> tinykg_sha256 x = tinykg_sha256 x' \<and>
    formal_kernel_fingerprint x = formal_kernel_fingerprint x'"
proof -
  note i = arm_config_ids_Inr [OF assms(1)] and i' = arm_config_ids_Inr [OF assms(2)]
  let ?tail = "\<lambda>e suite x. '':'' @ experiment_fingerprint e suite @ '':mc-'' @ metacodes_sha256 x @ '':kg-'' @
    tinykg_sha256 x @ '':fk-'' @ formal_kernel_fingerprint x"
  obtain eid eid' where e: "field e ''experiment_id'' = JStr eid" "field e' ''experiment_id'' = JStr eid'"
    and arms: "arm \<in> set arm_ids" "arm' \<in> set arm_ids"
    and eq: "(eid @ '':'' @ arm) @ ?tail e suite x = (eid' @ '':'' @ arm') @ ?tail e' suite' x'"
    using i(1) i'(1) assms(3,4) by auto
  have len: "length (?tail e suite x) = length (?tail e' suite' x')" using i(2-4) i'(2-4) length_fingerprint by simp
  have front: "eid @ '':'' @ arm = eid' @ '':'' @ arm'" and tails: "?tail e suite x = ?tail e' suite' x'"
    using iffD1 [OF append_eq_append_conv [OF disjI2 [OF len]] eq] by blast+
  have "CHR '':'' \<notin> set arm" "CHR '':'' \<notin> set arm'" using arms by (auto simp: arm_ids_def)
  then have "eid = eid' \<and> arm = arm'" using front last_separator by simp
  moreover have "experiment_fingerprint e suite = experiment_fingerprint e' suite' \<and>
    metacodes_sha256 x = metacodes_sha256 x' \<and> tinykg_sha256 x = tinykg_sha256 x' \<and>
    formal_kernel_fingerprint x = formal_kernel_fingerprint x'"
    using tails i(2-4) i'(2-4) length_fingerprint by (simp add: append_eq_append_conv)
  ultimately show ?thesis using e by simp
qed

section \<open>Environments\<close>

text \<open>The environment of a baseline arm does not depend on the treatment's binaries: it is the
  same whatever their paths and hashes are, and none of its variables is one of the treatment.\<close>

theorem baseline_env_isolated:
  assumes "arm_runtime_env e arm d = Inr env" and "arm \<noteq> ''tinykg''"
  shows "arm_runtime_env e arm d' = Inr env \<and> distinct (map fst env) \<and>
    set (map fst env) \<inter> {''METACODES_KG_TRANSPORT'', ''METACODES_KG_BIN'', ''METACODES_FORMAL_KERNEL_PATH'',
      ''METACODES_FORMAL_KERNEL_SHA256''} = {}"
  using assms by (auto simp: arm_runtime_env_def split: if_splits json.splits option.splits)

section \<open>The rows of the plan\<close>

lemma schedule_row_perm:
  assumes "r < 2 * length arms" and "distinct arms"
  shows "distinct (schedule_rows arms ! r)" and "set (schedule_rows arms ! r) = set arms"
proof -
  have *: "distinct (shifts s ! k) \<and> set (shifts s ! k) = set s" if "k < length s" "distinct s" for k and s :: "'b list"
  proof -
    have "shifts s ! k = rotate k s" using that(1) by (simp add: shift_row rotate_drop_take)
    then show ?thesis using that(2) by simp
  qed
  show "distinct (schedule_rows arms ! r)" "set (schedule_rows arms ! r) = set arms"
    using assms * [of r arms] * [of "r - length arms" "reversed_tail arms"]
    by (auto simp: schedule_rows_def nth_append)
qed

lemma distinct_concat_pairs:
  "distinct ts \<Longrightarrow> (\<And>t. t \<in> set ts \<Longrightarrow> distinct (f t)) \<Longrightarrow> distinct (concat (map (\<lambda>t. map (Pair t) (f t)) ts))"
  by (induction ts) (auto simp: distinct_map inj_on_def)

lemma schedule_once:
  assumes "counterbalanced_schedule arms trials = Inr s"
  shows "distinct s" and "set s = {..<nat trials} \<times> set arms"
proof -
  note c = schedule_Inr(1,2) [OF assms]
  let ?f = "\<lambda>t. schedule_rows arms ! (t mod (2 * length arms))"
  have s: "s = concat (map (\<lambda>t. map (Pair t) (?f t)) [0..<nat trials])"
    using assms by (auto simp: counterbalanced_schedule_def Let_def split: if_splits)
  have m: "t mod (2 * length arms) < 2 * length arms" for t using c(1) by (intro mod_less_divisor) linarith
  show "distinct s" unfolding s using schedule_row_perm(1) [OF m c(2)] by (intro distinct_concat_pairs) auto
  show "set s = {..<nat trials} \<times> set arms" unfolding s using schedule_row_perm(2) [OF m c(2)] by auto
qed

abbreviation slot_key :: "nat \<times> (nat \<times> string) \<times> string \<Rightarrow> nat \<times> string \<times> string" where
  "slot_key q \<equiv> (fst (fst (snd q)), snd (fst (snd q)), snd (snd q))"

lemma plan_slots_once:
  assumes "distinct s" and "distinct tids"
  shows "distinct (map slot_key (plan_slots s tids))"
    and "set (map slot_key (plan_slots s tids)) = {(t, a, tid). (t, a) \<in> set s \<and> tid \<in> set tids}"
    and "length (plan_slots s tids) = length s * length tids"
proof -
  let ?g = "\<lambda>(i, q). map (\<lambda>tid. (fst q, snd q, tid)) tids"
  have m: "map slot_key (plan_slots s tids) = concat (map (\<lambda>q. map (\<lambda>tid. (fst q, snd q, tid)) tids) s)"
  proof -
    have "map slot_key (concat (map (\<lambda>(i, s). map (\<lambda>tid. (i mod length arm_ids, s, tid)) tids) (enumerate n s))) =
        concat (map (\<lambda>q. map (\<lambda>tid. (fst q, snd q, tid)) tids) s)" for n
      by (induction s arbitrary: n) (simp_all add: comp_def)
    then show ?thesis by (simp add: plan_slots_def)
  qed
  show "distinct (map slot_key (plan_slots s tids))"
    unfolding m using assms by (induction s) (auto simp: distinct_map inj_on_def)
  show "set (map slot_key (plan_slots s tids)) = {(t, a, tid). (t, a) \<in> set s \<and> tid \<in> set tids}"
    unfolding m by force
  have "length (map slot_key (plan_slots s tids)) = length s * length tids"
    unfolding m by (induction s) simp_all
  then show "length (plan_slots s tids) = length s * length tids" by simp
qed

abbreviation row_key :: "plan_row \<Rightarrow> nat \<times> string \<times> string" where
  "row_key row \<equiv> (row_trial row, row_arm row, row_task row)"

lemma plan_row_of_key:
  "plan_row_of e suite cap ids d q = Inr row \<Longrightarrow> row_key row = slot_key q \<and> arm_runtime_env e (row_arm row) d = Inr (runtime_env row)"
  by (cases q) (auto simp: plan_row_of_def bindE_eq_Inr split: option.splits)

lemma plan_rows_keys:
  assumes "mapE (\<lambda>(i, q). bindE (plan_row_of e suite cap ids d q) (\<lambda>row. Inr (row\<lparr>sequence_number := i\<rparr>))) (enumerate n qs) = Inr rows"
  shows "map row_key rows = map slot_key qs \<and> map sequence_number rows = [n..<n + length qs] \<and>
    (\<forall>row \<in> set rows. arm_runtime_env e (row_arm row) d = Inr (runtime_env row))"
  using assms
proof (induction qs arbitrary: n rows)
  case (Cons q qs)
  then obtain row rest where r: "plan_row_of e suite cap ids d q = Inr row"
    "mapE (\<lambda>(i, q). bindE (plan_row_of e suite cap ids d q) (\<lambda>row. Inr (row\<lparr>sequence_number := i\<rparr>))) (enumerate (Suc n) qs) = Inr rest"
    "rows = row\<lparr>sequence_number := n\<rparr> # rest"
    by (auto simp: bindE_eq_Inr)
  have key: "row_key row = slot_key q" "arm_runtime_env e (row_arm row) d = Inr (runtime_env row)"
    using plan_row_of_key [OF r(1)] by blast+
  have upt: "[n..<n + length (q # qs)] = n # [Suc n..<Suc n + length qs]" by (simp add: upt_rec)
  show ?case using Cons.IH [OF r(2)] key unfolding r(3) upt by simp
qed simp

lemma build_dry_run_plan_Inr:
  assumes "build_dry_run_plan e suite executable x d revision used_cost used_tokens = Inr rows"
  shows "\<exists>trials schedule cap ids. field e ''trials'' = JInt trials \<and>
    counterbalanced_schedule arm_ids trials = Inr schedule \<and> plan_rows e suite cap ids d schedule = Inr rows"
  using assms by (fastforce simp: build_dry_run_plan_def bindE_eq_Inr check_simps split: json.splits option.splits)

text \<open>The rows of a plan are the whole experiment, once: every trial of every arm and task is
  one row and there is no other; rows are numbered from 0 in order, and each carries the
  environment of its arm.\<close>

theorem plan_is_complete:
  assumes "build_dry_run_plan e suite executable x d revision used_cost used_tokens = Inr rows"
  shows "\<exists>trials. field e ''trials'' = JInt trials \<and>
    distinct (map (\<lambda>row. (row_trial row, row_arm row, row_task row)) rows) \<and>
    set (map (\<lambda>row. (row_trial row, row_arm row, row_task row)) rows) =
      {(t, arm, tid). t < nat trials \<and> arm \<in> set arm_ids \<and> tid \<in> set (plan_task_ids suite)} \<and>
    map sequence_number rows = [0..<length rows] \<and>
    (\<forall>row \<in> set rows. arm_runtime_env e (row_arm row) d = Inr (runtime_env row))"
proof -
  obtain trials schedule cap ids where t: "field e ''trials'' = JInt trials"
    and s: "counterbalanced_schedule arm_ids trials = Inr schedule"
    and r: "plan_rows e suite cap ids d schedule = Inr rows"
    using build_dry_run_plan_Inr [OF assms] by blast
  let ?slots = "plan_slots schedule (plan_task_ids suite)"
  have k: "map row_key rows = map slot_key ?slots" "map sequence_number rows = [0..<length ?slots]"
    "\<forall>row \<in> set rows. arm_runtime_env e (row_arm row) d = Inr (runtime_env row)"
    using plan_rows_keys [OF r [unfolded plan_rows_def]] by simp_all
  have l: "length rows = length ?slots" using arg_cong [OF k(1), of length] by simp
  have "distinct (plan_task_ids suite)" by (simp add: plan_task_ids_def)
  note once = plan_slots_once [OF schedule_once(1) [OF s] this]
  have "distinct (map row_key rows)" unfolding k(1) by (rule once(1))
  moreover have "set (map row_key rows) = {(t, arm, tid). t < nat trials \<and> arm \<in> set arm_ids \<and> tid \<in> set (plan_task_ids suite)}"
    unfolding k(1) once(2) schedule_once(2) [OF s] by auto
  ultimately show ?thesis using t k(2,3) l by (intro exI [of _ trials]) (simp only: simp_thms)
qed

section \<open>Concrete runs\<close>

definition demo_identity :: execution_identity where
  "demo_identity = \<lparr>metacodes_sha256 = replicate 64 (CHR ''a''), tinykg_sha256 = replicate 64 (CHR ''b''),
     formal_kernel_fingerprint = replicate 64 (CHR ''c''), harness_revision = ''r''\<rparr>"

definition demo_paths :: dependency_paths where
  "demo_paths = \<lparr>tinykg_path = ''/k'', kernel_path = ''/f'', kernel_sha256 = ''0''\<rparr>"

lemma demo_config_ids: "\<exists>ids. arm_config_ids calibration_experiment suite demo_identity = Inr ids \<and> map fst ids = arm_ids"
  unfolding arm_config_ids_def calibration_experiment_def demo_field
  by (simp add: demo_identity_def raise_if_def hex_str_def list_all_iff hex_char_def char_code_def arm_ids_def)

theorem config_id_binds_witness:
  "\<exists>ids config_id. arm_config_ids calibration_experiment calibration_suite demo_identity = Inr ids \<and>
     (''tinykg'', config_id) \<in> set ids \<and> (''codex_style'', config_id) \<notin> set ids"
proof -
  obtain ids where i: "arm_config_ids calibration_experiment calibration_suite demo_identity = Inr ids"
    and k: "map fst ids = arm_ids"
    using demo_config_ids [of calibration_suite] by blast
  have "''tinykg'' \<in> set (map fst ids)" by (simp add: k arm_ids_def)
  then obtain c where c: "(''tinykg'', c) \<in> set ids" by auto
  have "(''codex_style'', c) \<notin> set ids" using config_id_binds [OF i i c] by auto
  with i c show ?thesis by blast
qed

lemma demo_env: "arm \<in> set arm_ids \<Longrightarrow> \<exists>env. arm_runtime_env calibration_experiment arm d = Inr env"
  by (simp add: arm_runtime_env_def calibration_experiment_def demo_experiment_def dict_get_none_def)

theorem baseline_env_isolated_witness:
  "\<exists>env. arm_runtime_env calibration_experiment ''claude_style'' demo_paths = Inr env \<and>
     arm_runtime_env calibration_experiment ''claude_style'' (demo_paths\<lparr>tinykg_path := ''/other''\<rparr>) = Inr env"
proof -
  obtain env where e: "arm_runtime_env calibration_experiment ''claude_style'' demo_paths = Inr env"
    using demo_env [of "''claude_style''"] by (auto simp: arm_ids_def)
  from baseline_env_isolated [OF e] e show ?thesis by (intro exI [of _ env]) simp
qed

lemma demo_plan_capacity: "plan_capacity demo_budget 18 (Fin 1, 1) (Fin 0) 0 = Inr ()"
proof -
  have d: "to_double 18 = Fin 18" using float_of_small_int [of 18] by simp
  have n: "\<not> float_overflows 18"
  proof -
    have "(18 :: int) < 2 ^ 1024 - 2 ^ 970" by simp
    then show ?thesis unfolding float_overflows_def by linarith
  qed
  show ?thesis
    by (simp add: plan_capacity_def int_times_def d n demo_doubles demo_budget_def dict_get_none_def d_sub_def d_min_def
        d_less_def raise_if_def)
qed

lemma mapE_Inr: "(\<And>x. x \<in> set xs \<Longrightarrow> \<exists>y. f x = Inr y) \<Longrightarrow> \<exists>ys. mapE f xs = Inr ys"
  by (induction xs) (force simp: bindE_eq_Inr)+

lemma snd_in_enumerate: "(i, q) \<in> set (enumerate n qs) \<Longrightarrow> q \<in> set qs"
  by (metis image_eqI list.set_map map_snd_enumerate snd_conv)

lemma demo_plan: "\<exists>rows. build_dry_run_plan calibration_experiment calibration_suite True demo_identity demo_paths ''r'' (Fin 0) 0 = Inr rows"
proof -
  obtain ids where i: "arm_config_ids calibration_experiment calibration_suite demo_identity = Inr ids"
    and k: "map fst ids = arm_ids"
    using demo_config_ids [of calibration_suite] by blast
  obtain s where s: "counterbalanced_schedule arm_ids 6 = Inr s"
    by (simp add: counterbalanced_schedule_def arm_ids_def)
  have l: "length s = 18" using schedule_Inr(5) [OF s] by (simp add: arm_ids_def)
  have f: "field calibration_experiment ''budget'' = JObj demo_budget" "field calibration_experiment ''trials'' = JInt 6"
    unfolding calibration_experiment_def by (rule demo_budget_field, rule demo_field)
  have "\<exists>row. plan_row_of calibration_experiment calibration_suite (Fin 1, 1) ids demo_paths q = Inr row"
    if "q \<in> set (plan_slots s tids)" for q tids
  proof -
    have "snd (fst (snd q)) \<in> set arm_ids"
      using that schedule_once(2) [OF s] in_set_enumerate_eq [of _ 0 s] by (force simp: plan_slots_def dest: nth_mem)
    moreover from this obtain c where "map_of ids (snd (fst (snd q))) = Some c"
      using k by (metis map_of_eq_None_iff option.exhaust list.set_map)
    ultimately show ?thesis using demo_env [of "snd (fst (snd q))" demo_paths]
      by (cases q) (auto simp: plan_row_of_def)
  qed
  then have "\<exists>rows. plan_rows calibration_experiment calibration_suite (Fin 1, 1) ids demo_paths s = Inr rows"
    unfolding plan_rows_def using snd_in_enumerate by (intro mapE_Inr) (fastforce simp: bindE_eq_Inr)
  moreover have "\<not> blank ''r''" by (intro nonblank_letter) (simp_all add: char_code_def)
  moreover have "suite_tasks calibration_suite = [demo_task ''t1'' ''long-horizon-v1'' JNull]"
    by (simp add: calibration_suite_def)
  ultimately show ?thesis
    using i s l demo_plan_capacity
    by (simp add: build_dry_run_plan_def f demo_fixed raise_if_def finite_double_def d_less_def del: One_nat_def)
qed

theorem plan_is_complete_witness:
  "\<exists>rows. build_dry_run_plan calibration_experiment calibration_suite True demo_identity demo_paths ''r'' (Fin 0) 0 = Inr rows \<and>
     map sequence_number rows = [0..<length rows]"
  using demo_plan plan_is_complete by blast

definition demo_receipt_of :: "json_object \<Rightarrow> json_object" where
  "demo_receipt_of promotion = [(''schema_version'', JInt 2), (''program_id'', JStr ''p''),
     (''source_experiment_id'', field promotion ''source_experiment_id''),
     (''source_experiment_fingerprint'', field promotion ''source_experiment_fingerprint''),
     (''stage'', JStr ''calibration''), (''eligible'', JBool True),
     (''gate'', JObj [(''required_valid_rollouts'', JInt 18), (''valid_rollouts'', JInt 18), (''invalid_rollouts'', JInt 0),
       (''complete_schedule'', JBool True), (''cost_telemetry_rollouts'', JInt 18), (''token_telemetry_rollouts'', JInt 18)]),
     (''usage'', JObj [(''cost_usd'', JInt 1), (''tokens'', JInt 3)]),
     (''source_budget'', JObj [(''max_stage_cost_usd'', JInt 100), (''max_stage_tokens'', JInt 100)]),
     (''identity'', identity_object demo_identity),
     (''checkpoint_sha256'', JObj (map (\<lambda>arm. (arm, JStr (replicate 64 (CHR ''d'')))) arm_ids))]"

lemma demo_promotion_accepted:
  "validate_promotion_receipt (demo_receipt_of held_out_promotion) held_out_experiment demo_identity
     (experiment_fingerprint calibration_experiment calibration_suite) = Inr (Fin 1, 3)"
proof -
  let ?r = "demo_receipt_of held_out_promotion" and ?fp = "experiment_fingerprint calibration_experiment calibration_suite"
  have f: "field held_out_promotion ''source_experiment_id'' = JStr ''e''"
    "field held_out_promotion ''source_experiment_fingerprint'' = JStr ?fp"
    by (simp_all add: held_out_promotion_def dict_get_none_def)
  have e: "field held_out_experiment ''stage'' = stage_object ''confirmatory''"
    "field held_out_experiment ''promotion'' = JObj held_out_promotion"
    "field held_out_experiment ''program_id'' = JStr ''p''"
    "field held_out_experiment ''budget'' = JObj demo_budget"
    unfolding held_out_experiment_def by (rule demo_field demo_budget_field)+
  have "receipt_identity ?r held_out_experiment demo_identity ?fp = Inr ()"
    unfolding receipt_identity_def e demo_receipt_of_def stage_object_def prod.case json.case f
    by (simp add: stage_object_def identity_object_def f dict_get_none_def raise_if_def dec_eq_def insert_commute)
  moreover have "receipt_gate (field ?r ''gate'') = Inr ()"
    by (simp add: demo_receipt_of_def receipt_gate_def dict_get_none_def raise_if_def dec_eq_def insert_commute)
  moreover have "receipt_usage (field ?r ''usage'') = Inr (Fin 1, 3)"
    by (simp add: demo_receipt_of_def receipt_usage_def dict_get_none_def require_number_def is_finite_small demo_doubles)
  moreover have "receipt_source_budget (field ?r ''source_budget'') (Fin 1, 3) = Inr (Fin 100, 100)"
    by (simp add: demo_receipt_of_def receipt_source_budget_def dict_get_none_def require_number_def is_finite_small demo_doubles)
  moreover have "aggregate_covers held_out_experiment (Fin 100, 100) = Inr ()"
    unfolding aggregate_covers_def e
    by (simp add: demo_budget_def dict_get_none_def raise_if_def d_less_def demo_doubles)
  moreover have "receipt_checkpoints (field ?r ''checkpoint_sha256'') = Inr ()"
    by (simp add: demo_receipt_of_def receipt_checkpoints_def dict_get_none_def arm_ids_def raise_if_def hex_str_def
        list_all_iff hex_char_def char_code_def)
  ultimately show ?thesis by (simp add: validate_promotion_receipt_def)
qed

theorem two_stages_within_authority_witness:
  "\<exists>s a. float_of (field demo_budget ''max_stage_cost_usd'') = Fin s \<and>
     float_of (field demo_budget ''max_aggregate_cost_usd'') = Fin a \<and> round_double (1 + s) \<le> a \<and> a \<le> 2000"
proof -
  have b: "field held_out_experiment ''budget'' = JObj demo_budget"
    unfolding held_out_experiment_def by (rule demo_budget_field)
  from two_stages_within_authority [OF demo_promotion_accepted held_out_accepted [of 0] b] show ?thesis by auto
qed

end
