(* ===== verification/Py_Values.thy ===== *)
theory Py_Values
  imports Checks
begin

text \<open>
  The conversions of Python's built-in types that the runners and the protocol rely on: \<open>str\<close>,
  \<open>int\<close> and \<open>float\<close> of a JSON value, iteration, reading a key of a dictionary, the shortest
  decimal of a double, and \<open>sum\<close> over doubles.
\<close>

section \<open>\<open>str\<close> and \<open>int\<close> of a JSON value\<close>

text \<open>
  \<open>str(v)\<close>, where strings inside containers are printed by \<open>repr\<close>; characters beyond ASCII are
  kept as they are.
\<close>

definition repr_char :: "char \<Rightarrow> char \<Rightarrow> string" where
  "repr_char q c =
    (if c = q \<or> c = backslash then [backslash, c]
     else if c = CHR 0x0A then [backslash, CHR ''n'']
     else if c = CHR 0x0D then [backslash, CHR ''r'']
     else if c = CHR 0x09 then [backslash, CHR ''t'']
     else if char_code c < 32 \<or> char_code c = 127
     then [backslash, CHR ''x'', hex_digit (char_code c div 16), hex_digit (char_code c mod 16)]
     else [c])"

definition repr_str :: "string \<Rightarrow> string" where
  "repr_str s =
    (let q = (if CHR 0x27 \<in> set s \<and> dquote \<notin> set s then dquote else CHR 0x27)
     in q # concat (map (repr_char q) s) @ [q])"

function py_repr :: "json \<Rightarrow> string" where
  "py_repr (JStr s) = repr_str s"
| "py_repr (JInt i) = int_str i"
| "py_repr (JBool b) = (if b then ''True'' else ''False'')"
| "py_repr JNull = ''None''"
| "py_repr (JFloat f) = (case f of FInf \<Rightarrow> ''inf'' | FNegInf \<Rightarrow> ''-inf'' | FNan \<Rightarrow> ''nan'' | _ \<Rightarrow> float_str f)"
| "py_repr (JArr vs) = ''['' @ join_with '', '' (map py_repr vs) @ '']''"
| "py_repr (JObj kvs) = ''{'' @ join_with '', '' (map (\<lambda>kv. repr_str (fst kv) @ '': '' @ py_repr (snd kv)) kvs) @ ''}''"
  by pat_completeness auto
termination
proof (relation "measure size", goal_cases)
  case (2 vs v)
  then show ?case by (simp add: size_list_estimation' le_imp_less_Suc)
next
  case (3 kvs kv)
  then show ?case using size_snd_member [of kv kvs] by simp
qed simp

fun py_str :: "json \<Rightarrow> string" where
  "py_str (JStr s) = s"
| "py_str v = py_repr v"

definition truncate_dec :: "int \<Rightarrow> int \<Rightarrow> int" where
  \<comment> \<open>the integer part of \<open>m * 10 ^ e\<close>, towards zero\<close>
  "truncate_dec m e = (if 0 \<le> e then m * 10 ^ nat e else sgn m * (\<bar>m\<bar> div 10 ^ nat (- e)))"

definition int_text :: "string \<Rightarrow> int option" where
  \<comment> \<open>an optional sign and ASCII digits; \<open>int\<close> also takes white space, underscores and other digits\<close>
  "int_text s =
    (let d = (if s \<noteq> [] \<and> hd s \<in> {CHR ''-'', CHR ''+''} then tl s else s)
     in if d = [] \<or> \<not> list_all is_digit d then None
        else Some ((if hd s = CHR ''-'' then - 1 else 1) * int (nat_of_digits d)))"

fun py_int :: "json \<Rightarrow> int result" where
  "py_int (JInt i) = Inr i"
| "py_int (JBool b) = Inr (if b then 1 else 0)"
| "py_int (JFloat (FDec m e)) = Inr (truncate_dec m e)"
| "py_int (JFloat FNegZero) = Inr 0"
| "py_int (JFloat FNan) = Inl (Value_Error ''cannot convert float NaN to integer'')"
| "py_int (JFloat _) = Inl Overflow_Error"
| "py_int (JStr s) = (case int_text s of Some i \<Rightarrow> Inr i | None \<Rightarrow> Inl (Value_Error ''invalid literal for int()''))"
| "py_int v = Inl (Type_Error ''int() argument'')"

fun py_iter :: "json \<Rightarrow> json list result" where
  \<comment> \<open>\<open>tuple(v)\<close>; a string gives its characters (here its bytes)\<close>
  "py_iter (JArr vs) = Inr vs"
| "py_iter (JObj kvs) = Inr (map JStr (keys kvs))"
| "py_iter (JStr s) = Inr (map (\<lambda>c. JStr [c]) s)"
| "py_iter v = Inl (Type_Error ''object is not iterable'')"

section \<open>Reading a dictionary\<close>

fun get_of :: "json \<Rightarrow> string \<Rightarrow> json result" where
  \<comment> \<open>\<open>v.get(k)\<close>\<close>
  "get_of (JObj d) k = Inr (field d k)"
| "get_of v k = Inl (Attribute_Error ''get'')"

fun item_of :: "json \<Rightarrow> string \<Rightarrow> json result" where
  \<comment> \<open>\<open>v[k]\<close> with a string key\<close>
  "item_of (JObj d) k = (case map_of d k of None \<Rightarrow> Inl (Key_Error k) | Some v \<Rightarrow> Inr v)"
| "item_of v k = Inl (Type_Error ''not subscriptable with a string'')"

fun truthy :: "json \<Rightarrow> bool" where
  \<comment> \<open>\<open>bool(v)\<close>\<close>
  "truthy JNull = False"
| "truthy (JBool b) = b"
| "truthy (JInt i) = (i \<noteq> 0)"
| "truthy (JFloat (FDec m e)) = (m \<noteq> 0)"
| "truthy (JFloat FNegZero) = False"
| "truthy (JFloat _) = True"
| "truthy (JStr s) = (s \<noteq> [])"
| "truthy (JArr vs) = (vs \<noteq> [])"
| "truthy (JObj d) = (d \<noteq> [])"

section \<open>Doubles\<close>

fun py_float :: "json \<Rightarrow> double result" where
  \<comment> \<open>\<open>float(v)\<close>; of the strings, which \<open>float\<close> also parses, none reaches the code modelled here\<close>
  "py_float (JInt i) = (if float_overflows i then Inl Overflow_Error else Inr (float_of (JInt i)))"
| "py_float (JFloat f) = Inr (float_of (JFloat f))"
| "py_float (JBool b) = Inr (Fin (if b then 1 else 0))"
| "py_float v = Inl (Type_Error ''float() argument'')"

text \<open>
  \<open>sum\<close> of doubles. Until Python 3.11 it rounds after every addition; from 3.12 on it carries the
  rounding errors in a second double that is added at the end. The scripts support both (3.9 is
  their floor), so which one runs is an argument.
\<close>

definition d_abs_le :: "double \<Rightarrow> double \<Rightarrow> bool" where
  "d_abs_le x y \<longleftrightarrow>
    (case (x, y) of
       (Fin a, Fin b) \<Rightarrow> \<bar>a\<bar> \<le> \<bar>b\<bar>
     | (Nan, _) \<Rightarrow> False
     | (_, Nan) \<Rightarrow> False
     | (_, Fin _) \<Rightarrow> False
     | _ \<Rightarrow> True)"

definition sum_step :: "double \<Rightarrow> double \<times> double \<Rightarrow> double \<times> double" where
  \<comment> \<open>the total and the compensation after one more item\<close>
  "sum_step x st =
    (let t = d_add (fst st) x
     in (t, d_add (snd st)
           (if d_abs_le x (fst st) then d_add (d_sub (fst st) t) x else d_add (d_sub x t) (fst st))))"

definition py_sum :: "bool \<Rightarrow> double list \<Rightarrow> double" where
  "py_sum compensated xs =
    (if compensated
     then (case fold sum_step xs (Fin 0, Fin 0) of
         (s, c) \<Rightarrow> if c \<noteq> Fin 0 \<and> finite_double c then d_add s c else s)
     else foldl d_add (Fin 0) xs)"

section \<open>The shortest decimal of a double\<close>

definition ten_exponent :: "rat \<Rightarrow> int" where
  \<comment> \<open>the exponent of the leading decimal digit of a positive number\<close>
  "ten_exponent x =
    (case quotient_of x of (p, q) \<Rightarrow>
       let e = int (length (nat_str (nat p))) - int (length (nat_str (nat q)))
       in if 10 powi e \<le> x then e else e - 1)"

definition repr_candidates :: "rat \<Rightarrow> nat \<Rightarrow> (int \<times> int) list" where
  \<comment> \<open>the decimals of \<open>p\<close> digits around \<open>x\<close> that read back as \<open>x\<close>, the closest first\<close>
  "repr_candidates x p =
    (let e = ten_exponent x - (int p - 1); y = x / 10 powi e; lo = \<lfloor>y\<rfloor>; hi = \<lceil>y\<rceil>;
         near = (if y - of_int lo < of_int hi - y \<or> (y - of_int lo = of_int hi - y \<and> even lo)
                 then [(lo, e), (hi, e)] else [(hi, e), (lo, e)])
     in filter (\<lambda>(m, e). round_double (of_int m * 10 powi e) = x) near)"

definition exact_decimal :: "rat \<Rightarrow> int \<times> int" where
  \<comment> \<open>all the digits of a double\<close>
  "exact_decimal x =
    (let k = ulp_exponent x; n = round_even (x / 2 powi k)
     in if 0 \<le> k then (n * 2 ^ nat k, 0) else (n * 5 ^ nat (- k), k))"

definition repr_pos :: "rat \<Rightarrow> int \<times> int" where
  \<comment> \<open>17 digits are always enough, so the exact decimal is only a formal last resort\<close>
  "repr_pos x =
    (case concat (map (repr_candidates x) [1..<18]) of c # _ \<Rightarrow> c | [] \<Rightarrow> exact_decimal x)"

fun double_json :: "double \<Rightarrow> json" where
  \<comment> \<open>a computed double as a JSON value, with the digits \<open>repr\<close> prints; the sign of zero is lost\<close>
  "double_json (Fin x) =
    (if x = 0 then JFloat (FDec 0 0)
     else if 0 < x then (case repr_pos x of (m, e) \<Rightarrow> JFloat (FDec m e))
     else (case repr_pos (- x) of (m, e) \<Rightarrow> JFloat (FDec (- m) e)))"
| "double_json Pos_Inf = JFloat FInf"
| "double_json Neg_Inf = JFloat FNegInf"
| "double_json Nan = JFloat FNan"

lemma exact_decimal_value:
  assumes "0 < x" and "round_double x = x" and "exact_decimal x = (m, e)"
  shows "of_int m * 10 powi e = x"
proof -
  let ?k = "ulp_exponent x" and ?n = "round_even (x / 2 powi ulp_exponent x)"
  have x: "of_int ?n * 2 powi ?k = x"
    using assms(1,2) by (simp add: round_double_def round_pos_def)
  show ?thesis
  proof (cases "0 \<le> ?k")
    case True
    then have "of_int m * 10 powi e = of_int ?n * (2 :: rat) powi ?k"
      using assms(3) by (auto simp: exact_decimal_def Let_def two_powi_nat)
    then show ?thesis using x by simp
  next
    case False
    then have me: "m = ?n * 5 ^ nat (- ?k)" "e = ?k" using assms(3) by (auto simp: exact_decimal_def Let_def)
    have "(10 :: rat) powi ?k = 2 powi ?k * 5 powi ?k" by (simp flip: power_int_mult_distrib)
    moreover have "(5 :: rat) powi ?k = inverse (5 ^ nat (- ?k))" using False by (simp add: power_int_def power_one_over inverse_eq_divide)
    ultimately have "of_int m * 10 powi e = of_int ?n * (2 :: rat) powi ?k" by (simp add: me)
    then show ?thesis using x by simp
  qed
qed

lemma repr_pos_reads_back:
  assumes "0 < x" and "round_double x = x" and "repr_pos x = (m, e)"
  shows "round_double (of_int m * 10 powi e) = x"
proof (cases "concat (map (repr_candidates x) [1..<18])")
  case Nil
  then have "exact_decimal x = (m, e)" using assms(3) by (simp only: repr_pos_def list.case)
  then show ?thesis using exact_decimal_value [OF assms(1,2)] assms(2) by simp
next
  case (Cons c cs)
  then have "c \<in> set (concat (map (repr_candidates x) [1..<18]))" by simp
  moreover have "c = (m, e)" using assms(3) Cons by (simp only: repr_pos_def list.case)
  ultimately show ?thesis by (auto simp: repr_candidates_def Let_def)
qed

lemma round_double_minus: "round_double (- x) = - round_double x"
  by (simp add: round_double_def)

lemma to_double_fixed: "round_double y = x \<Longrightarrow> \<bar>x\<bar> < double_limit \<Longrightarrow> to_double y = Fin x"
  by (auto simp: to_double_def Let_def)

lemma float_of_double_json [simp]:
  assumes "is_double d"
  shows "float_of (double_json d) = d"
proof (cases d)
  case (Fin x)
  then have x: "round_double x = x" "\<bar>x\<bar> < double_limit" using assms by (simp_all add: is_double_def)
  consider "x = 0" | "0 < x" | "x < 0" by linarith
  then show ?thesis
  proof cases
    case 1
    then show ?thesis using Fin double_limit_pos by (simp add: to_double_def round_double_def)
  next
    case 2
    obtain m e where me: "repr_pos x = (m, e)" by (rule prod.exhaust)
    show ?thesis using to_double_fixed [OF repr_pos_reads_back [OF 2 x(1) me] x(2)] 2 Fin me by simp
  next
    case 3
    obtain m e where me: "repr_pos (- x) = (m, e)" by (rule prod.exhaust)
    have "round_double (of_int m * 10 powi e) = - x"
      using 3 x(1) by (intro repr_pos_reads_back [OF _ _ me]) (simp_all add: round_double_minus)
    then have "round_double (of_int (- m) * 10 powi e) = x" by (simp add: round_double_minus)
    then show ?thesis using to_double_fixed [OF _ x(2)] 3 Fin me by simp
  qed
qed simp_all

end
