(* ===== verification/Runner_Fingerprints.thy ===== *)
theory Runner_Fingerprints
  imports Experiment_Contract Py_Values
begin

text \<open>
  The identities of \<open>scripts/eval/e2e_adapter.py\<close> that freeze what a rollout runs on: the hashes
  of every input of a task, the grader, the environment and the harness. What the code reads from
  the file system, from git and from the interpreter is the record \<open>host\<close>.
\<close>

record host = experiment_files +
  resolved_path :: "string \<Rightarrow> string"
    \<comment> \<open>the resolved path relative to the root, of a path that stays inside\<close>
  git_listing :: "string \<Rightarrow> string list \<Rightarrow> (string \<times> string) option"
    \<comment> \<open>the commit a revision verifies to and the listing of its paths; \<open>None\<close> when git fails\<close>
  platform_name :: string
  python_release :: string

definition evaluation_contract_version :: int where
  "evaluation_contract_version = 4"

definition short_fingerprint :: "json \<Rightarrow> string" where
  "short_fingerprint v = take 16 (canonical_sha256 v)"

section \<open>Hashed files\<close>

definition hash_input :: "('a host_scheme) \<Rightarrow> string \<Rightarrow> (string \<times> string) result" where
  \<comment> \<open>the resolved relative path and the digest of a file\<close>
  "hash_input h p =
    (if \<not> stays_inside h p then fail p ''cannot fingerprint execution input''
     else case file_text h p of
       None \<Rightarrow> fail p ''cannot fingerprint execution input''
     | Some s \<Rightarrow> Inr (resolved_path h p, sha256_hex s))"

fun path_of :: "json \<Rightarrow> string result" where
  \<comment> \<open>the operand of \<open>repo_root / v\<close>\<close>
  "path_of (JStr s) = Inr s"
| "path_of v = Inl (Type_Error ''unsupported operand for /'')"

definition add_hash :: "string \<times> string \<Rightarrow> json_object \<Rightarrow> json_object" where
  "add_hash kv result = AList.update (fst kv) (JStr (snd kv)) result"

definition sorted_object :: "json_object \<Rightarrow> json_object" where
  \<comment> \<open>\<open>dict(sorted(d.items()))\<close>\<close>
  "sorted_object d = sort_key fst d"

definition task_checks :: "json_object \<Rightarrow> json list result" where
  \<comment> \<open>\<open>task["success"]["checks"]\<close>\<close>
  "task_checks task =
    bindE (item_of (JObj task) ''success'') (\<lambda>success. bindE (item_of success ''checks'') py_iter)"

definition validator_paths :: "json list \<Rightarrow> string list result" where
  \<comment> \<open>\<open>check["validator"]\<close> of the checks of type \<open>validator\<close>\<close>
  "validator_paths checks =
    foldE (\<lambda>check acc.
      bindE (get_of check ''type'') (\<lambda>t.
      if t \<noteq> JStr ''validator'' then Inr acc
      else bindE (item_of check ''validator'') (\<lambda>v. bindE (path_of v) (\<lambda>p. Inr (acc @ [p]))))) checks []"

definition validator_hash :: "('a host_scheme) \<Rightarrow> json \<Rightarrow> json_object \<Rightarrow> json_object result" where
  \<comment> \<open>one check of the loop\<close>
  "validator_hash h check result =
    bindE (get_of check ''type'') (\<lambda>t.
    if t \<noteq> JStr ''validator'' then Inr result
    else bindE (item_of check ''validator'') (\<lambda>v. bindE (path_of v) (\<lambda>p.
      if \<not> stays_inside h p \<or> \<not> regular_file h p then fail p ''cannot fingerprint validator''
      else case file_text h p of
        None \<Rightarrow> fail p ''cannot fingerprint validator''
      | Some s \<Rightarrow> Inr (add_hash (resolved_path h p, sha256_hex s) result))))"

definition validator_hashes :: "('a host_scheme) \<Rightarrow> json_object \<Rightarrow> json_object result" where
  "validator_hashes h task =
    bindE (task_checks task) (\<lambda>checks.
    bindE (foldE (validator_hash h) checks []) (\<lambda>result. Inr (sorted_object result)))"

definition grader_fingerprint :: "('a host_scheme) \<Rightarrow> json_object \<Rightarrow> string result" where
  "grader_fingerprint h task =
    bindE (item_of (JObj task) ''grader'') (\<lambda>grader.
    bindE (item_of (JObj task) ''success'') (\<lambda>success.
    bindE (item_of success ''checks'') (\<lambda>checks.
    bindE (validator_hashes h task) (\<lambda>validators.
    Inr (short_fingerprint (JObj ([(''evaluation_contract_version'', JInt evaluation_contract_version),
        (''grader'', grader), (''checks'', checks)] @
       (if validators = [] then [] else [(''validator_sha256'', JObj validators)]))))))))"

section \<open>Execution inputs\<close>

definition with_suffix_conf :: "string \<Rightarrow> string" where
  \<comment> \<open>\<open>path.with_suffix(".conf")\<close>: the suffix of the last component, when it has one, is replaced\<close>
  "with_suffix_conf p =
    (let name = last (split_at_char slash p);
         parent = take (length p - length name) p;
         after = takeWhile (\<lambda>c. c \<noteq> CHR ''.'') (rev name);
         stem_dot = take (length name - length after) name
     in if stem_dot = [] \<or> length stem_dot = 1 \<or> after = [] then p @ ''.conf''
        else parent @ butlast stem_dot @ ''.conf'')"

definition strip_slashes :: "string \<Rightarrow> string" where
  \<comment> \<open>\<open>s.strip("/")\<close>\<close>
  "strip_slashes s = rev (dropWhile (\<lambda>c. c = slash) (rev (dropWhile (\<lambda>c. c = slash) s)))"

fun text_of :: "json \<Rightarrow> string result" where
  \<comment> \<open>the receiver of a \<open>str\<close> method\<close>
  "text_of (JStr s) = Inr s"
| "text_of v = Inl (Attribute_Error ''strip'')"

definition listing_lines :: "string \<Rightarrow> string list" where
  \<comment> \<open>\<open>bytes.splitlines\<close>, up to empty lines\<close>
  "listing_lines s = concat (map (split_at_char (CHR 0x0D)) (split_at_char newline s))"

definition forbidden_entry :: "string \<Rightarrow> bool" where
  "forbidden_entry l \<longleftrightarrow> is_prefix ''120000 '' l \<or> occurs_in '' commit '' l"

definition snapshot_hash :: "('a host_scheme) \<Rightarrow> json \<Rightarrow> (string \<times> string) result" where
  "snapshot_hash h snapshot =
    bindE (item_of snapshot ''revision'') (\<lambda>revision.
    bindE (item_of snapshot ''prefix'') (\<lambda>v. bindE (text_of v) (\<lambda>raw.
    let prefix = strip_slashes raw
    in bindE (item_of snapshot ''paths'') (\<lambda>v. bindE (py_iter v) (\<lambda>items.
       bindE (mapE (\<lambda>i. bindE (text_of i) (\<lambda>s. Inr (prefix @ slash # strip_slashes s))) items) (\<lambda>paths.
       case git_listing h (py_str revision) paths of
         None \<Rightarrow> fail ''repository snapshot'' ''cannot fingerprint''
       | Some (verified, listing) \<Rightarrow>
           if JStr verified \<noteq> revision \<or> listing = []
           then fail ''repository snapshot'' ''revision or sparse paths are unavailable''
           else if list_ex forbidden_entry (listing_lines listing)
           then fail ''repository snapshot'' ''may contain regular files only''
           else Inr (''git:'' @ py_str revision @ '':'' @ prefix, sha256_hex listing)))))))"

definition input_paths :: "('a host_scheme) \<Rightarrow> json_object \<Rightarrow> string list result" where
  \<comment> \<open>the scenario, its companion, the fixtures and the validators\<close>
  "input_paths h task =
    bindE (item_of (JObj task) ''scenario'') (\<lambda>v. bindE (path_of v) (\<lambda>scenario.
    bindE (case get_default task ''environment'' (JObj []) of
        JObj d \<Rightarrow> py_iter (get_default d ''fixtures'' (JArr []))
      | _ \<Rightarrow> Inl (Attribute_Error ''get'')) (\<lambda>fixtures.
    bindE (mapE path_of fixtures) (\<lambda>fixtures.
    bindE (task_checks task) (\<lambda>checks.
    bindE (validator_paths checks) (\<lambda>validators.
    let companion = with_suffix_conf scenario
    in Inr (scenario # (if regular_file h companion then [companion] else []) @ fixtures @ validators)))))))"

definition execution_input_hashes :: "('a host_scheme) \<Rightarrow> json_object \<Rightarrow> json_object result" where
  "execution_input_hashes h task =
    bindE (input_paths h task) (\<lambda>ps.
    bindE (foldE (\<lambda>p result. bindE (hash_input h p) (\<lambda>kv. Inr (add_hash kv result))) ps []) (\<lambda>result.
    bindE (get_of (get_default task ''environment'' (JObj [])) ''repository_snapshot'') (\<lambda>snapshot.
    if snapshot = JNull then Inr (sorted_object result)
    else bindE (snapshot_hash h snapshot) (\<lambda>kv. Inr (sorted_object (add_hash kv result))))))"

section \<open>Fingerprints\<close>

definition permission_aliases :: "(string \<times> string) list" where
  "permission_aliases =
    [(''bypassPermissions'', ''bypass_permissions''), (''dontAsk'', ''dont_ask''), (''acceptEdits'', ''accept_edits''),
     (''prompt'', ''default''), (''bypass'', ''bypass_permissions'')]"

definition canonical_permission_mode :: "json \<Rightarrow> json result" where
  "canonical_permission_mode v =
    (if \<not> hashable v then Inl (Type_Error ''unhashable type'')
     else Inr (case v of
         JStr s \<Rightarrow> (case map_of permission_aliases s of None \<Rightarrow> v | Some t \<Rightarrow> JStr t)
       | _ \<Rightarrow> v))"

definition task_permission :: "json_object \<Rightarrow> json result" where
  \<comment> \<open>\<open>_canonical_permission_mode(task["constraints"]["permission_mode"])\<close>\<close>
  "task_permission task =
    bindE (item_of (JObj task) ''constraints'') (\<lambda>c.
    bindE (item_of c ''permission_mode'') canonical_permission_mode)"

definition task_fingerprint :: "json_object \<Rightarrow> json_object \<Rightarrow> string" where
  "task_fingerprint task inputs = short_fingerprint (JObj [(''task'', JObj task), (''execution_inputs'', JObj inputs)])"

definition environment_fingerprint :: "('a host_scheme) \<Rightarrow> json_object \<Rightarrow> json_object \<Rightarrow> string result" where
  "environment_fingerprint h task inputs =
    bindE (item_of (JObj task) ''environment'') (\<lambda>environment.
    Inr (short_fingerprint (JObj [(''environment'', environment), (''execution_inputs'', JObj inputs),
      (''platform'', JStr (platform_name h)), (''python'', JStr (python_release h))])))"

definition model_fingerprint_of :: "json \<Rightarrow> json \<Rightarrow> string" where
  "model_fingerprint_of provider model = short_fingerprint (JObj [(''provider'', provider), (''id'', model)])"

definition grounding_fingerprints :: "('a host_scheme) \<Rightarrow> json_object \<Rightarrow> json_object result" where
  "grounding_fingerprints h task =
    bindE (execution_input_hashes h task) (\<lambda>inputs.
    bindE (grader_fingerprint h task) (\<lambda>grader.
    bindE (environment_fingerprint h task inputs) (\<lambda>environment.
    bindE (task_permission task) (\<lambda>permission.
    Inr [(''task_fingerprint'', JStr (task_fingerprint task inputs)), (''grader_fingerprint'', JStr grader),
         (''environment_fingerprint'', JStr environment), (''permission_mode'', permission)]))))"

definition harness_fingerprint_of ::
  "string \<Rightarrow> string \<Rightarrow> string \<Rightarrow> json \<Rightarrow> json \<Rightarrow> string" where
  "harness_fingerprint_of config_id revision binary permission profile =
    short_fingerprint (JObj [(''config_id'', JStr config_id), (''revision'', JStr revision),
      (''binary_sha256'', JStr (sha256_hex binary)), (''permission_mode'', permission), (''tool_profile'', profile)])"

definition comparison_fingerprints ::
  "('a host_scheme) \<Rightarrow> json_object \<Rightarrow> json \<Rightarrow> json \<Rightarrow> string \<Rightarrow> string \<Rightarrow> json \<Rightarrow> string option \<Rightarrow> json_object result" where
  \<comment> \<open>provider, model, configuration, revision, permission mode, and the bytes of the binary\<close>
  "comparison_fingerprints h task provider model config_id revision permission binary =
    bindE (canonical_permission_mode permission) (\<lambda>canonical.
    bindE (task_permission task) (\<lambda>expected.
    bindE (raise_if (\<not> py_eq canonical expected) ''task'' ''runtime permission does not match the grounded suite'') (\<lambda>_.
    bindE (execution_input_hashes h task) (\<lambda>inputs.
    case binary of
      None \<Rightarrow> Inl (OS_Error ''binary'')
    | Some bytes \<Rightarrow>
        bindE (grader_fingerprint h task) (\<lambda>grader.
        bindE (item_of (JObj task) ''tools'') (\<lambda>tools.
        bindE (item_of tools ''profile'') (\<lambda>profile.
        bindE (environment_fingerprint h task inputs) (\<lambda>environment.
        Inr [(''permission_mode'', canonical), (''task_fingerprint'', JStr (task_fingerprint task inputs)),
             (''grader_fingerprint'', JStr grader), (''model_fingerprint'', JStr (model_fingerprint_of provider model)),
             (''harness_fingerprint'', JStr (harness_fingerprint_of config_id revision bytes canonical profile)),
             (''environment_fingerprint'', JStr environment)]))))))))"

end
