(* ===== verification/Runner_Budget.thy ===== *)
theory Runner_Budget
  imports Experiment_Plan Runner_Fingerprints Budget_Journal
begin

text \<open>
  What the multi-arm runner of \<open>scripts/eval/paired_runner.py\<close> computes about money: the usage of
  the rollouts collected so far against the caps of the stage and of the aggregate, the allowance
  of the next rollout, and the authority and transaction identity it hands to the budget journal.
  The first argument of what sums doubles selects the \<open>sum\<close> of the interpreter (see \<open>Py_Values\<close>).
\<close>

definition token_metrics :: "string list" where
  "token_metrics = [''input_tokens'', ''output_tokens'', ''cache_read_tokens'', ''cache_write_tokens'']"

type_synonym collected = "(string \<times> json_object list) list"

definition all_rows :: "collected \<Rightarrow> json_object list" where
  "all_rows c = concat (map snd c)"

section \<open>Usage\<close>

definition metric_of :: "json_object \<Rightarrow> string \<Rightarrow> json result" where
  \<comment> \<open>\<open>item.get("metrics", {}).get(k)\<close>\<close>
  "metric_of r k = get_of (get_default r ''metrics'' (JObj [])) k"

definition metric_item :: "json_object \<Rightarrow> string \<Rightarrow> json result" where
  \<comment> \<open>\<open>item["metrics"][k]\<close>\<close>
  "metric_item r k = bindE (item_of (JObj r) ''metrics'') (\<lambda>m. item_of m k)"

definition float_or_zero :: "json \<Rightarrow> double result" where
  "float_or_zero v = (if truthy v then py_float v else Inr (Fin 0))"

definition int_or_zero :: "json \<Rightarrow> int result" where
  "int_or_zero v = (if truthy v then py_int v else Inr 0)"

definition usage_of ::
  "(json_object \<Rightarrow> string \<Rightarrow> json result) \<Rightarrow> (json \<Rightarrow> double result) \<Rightarrow> (json \<Rightarrow> int result) \<Rightarrow> json_object list \<Rightarrow>
   (double list \<times> int) result" where
  \<comment> \<open>the costs of the rows, and the sum of their tokens\<close>
  "usage_of get as_cost as_tokens rows =
    bindE (mapE (\<lambda>r. bindE (get r ''cost_usd'') as_cost) rows) (\<lambda>costs.
    bindE (mapE (\<lambda>(r, k). bindE (get r k) as_tokens) (List.product rows token_metrics)) (\<lambda>tokens.
    Inr (costs, sum_list tokens)))"

definition rollout_metered_tokens :: "json_object \<Rightarrow> int result" where
  "rollout_metered_tokens r =
    bindE (mapE (\<lambda>k. bindE (metric_item r k) py_int) token_metrics) (\<lambda>ts. Inr (sum_list ts))"

definition missing_metrics :: "json_object list \<Rightarrow> string list \<Rightarrow> bool result" where
  \<comment> \<open>some row has one of the metrics absent or null\<close>
  "missing_metrics rows ks =
    bindE (mapE (\<lambda>(r, k). metric_of r k) (List.product rows ks)) (\<lambda>vs. Inr (JNull \<in> set vs))"

definition require_budget ::
  "bool \<Rightarrow> json_object list \<Rightarrow> double \<Rightarrow> int \<Rightarrow> double option \<Rightarrow> int option \<Rightarrow> unit result" where
  "require_budget fl rows used_cost used_tokens max_cost max_tokens =
    bindE (if max_cost = None then Inr False else missing_metrics rows [''cost_usd'']) (\<lambda>missing.
    bindE (raise_if missing ''cost budget'' ''telemetry missing for rollouts'') (\<lambda>_.
    bindE (if max_tokens = None then Inr False else missing_metrics rows token_metrics) (\<lambda>missing.
    bindE (raise_if missing ''token budget'' ''telemetry missing for rollouts'') (\<lambda>_.
    bindE (usage_of metric_of float_or_zero int_or_zero rows) (\<lambda>(costs, tokens).
    let cost = d_add used_cost (py_sum fl costs)
    in bindE (raise_if (case max_cost of None \<Rightarrow> False | Some m \<Rightarrow> d_less_eq m cost)
         ''budget'' ''cumulative cost budget reached'') (\<lambda>_.
       raise_if (case max_tokens of None \<Rightarrow> False | Some m \<Rightarrow> m \<le> used_tokens + tokens)
         ''budget'' ''cumulative token budget reached''))))))"

definition require_rollout_reservation ::
  "json_object list \<Rightarrow> double \<Rightarrow> int \<Rightarrow> double \<Rightarrow> int \<Rightarrow> double option \<Rightarrow> int option \<Rightarrow> unit result" where
  \<comment> \<open>here the costs are added one by one\<close>
  "require_rollout_reservation rows used_cost used_tokens next_cost next_tokens max_cost max_tokens =
    bindE (foldE (\<lambda>r acc.
        let metrics = (if truthy (field r ''metrics'') then field r ''metrics'' else JObj [])
        in bindE (get_of metrics ''cost_usd'') (\<lambda>v. bindE (float_or_zero v) (\<lambda>c.
           bindE (mapE (\<lambda>k. bindE (get_of metrics k) int_or_zero) token_metrics) (\<lambda>ts.
           Inr (d_add (fst acc) c, snd acc + sum_list ts))))) rows (used_cost, used_tokens)) (\<lambda>(cost, tokens).
    bindE (raise_if (case max_cost of None \<Rightarrow> False | Some m \<Rightarrow> d_less m (d_add cost next_cost))
      ''budget'' ''next rollout would exceed the cumulative cost cap'') (\<lambda>_.
    raise_if (case max_tokens of None \<Rightarrow> False | Some m \<Rightarrow> m < tokens + next_tokens)
      ''budget'' ''next rollout would exceed the cumulative token cap''))"

section \<open>Stage and aggregate\<close>

text \<open>What was used before this run: of the stage, and of the aggregate.\<close>

record prior_usage =
  stage_prior_cost :: double
  stage_prior_tokens :: int
  aggregate_prior_cost :: double
  aggregate_prior_tokens :: int

definition budget_float :: "json_object \<Rightarrow> string \<Rightarrow> double result" where
  "budget_float budget k = bindE (item_of (JObj budget) k) py_float"

definition budget_int :: "json_object \<Rightarrow> string \<Rightarrow> int result" where
  "budget_int budget k = bindE (item_of (JObj budget) k) py_int"

definition require_multi_budget :: "bool \<Rightarrow> collected \<Rightarrow> json_object \<Rightarrow> prior_usage \<Rightarrow> unit result" where
  "require_multi_budget fl c budget p =
    bindE (budget_float budget ''max_stage_cost_usd'') (\<lambda>stage_cost.
    bindE (budget_int budget ''max_stage_tokens'') (\<lambda>stage_tokens.
    bindE (require_budget fl (all_rows c) (stage_prior_cost p) (stage_prior_tokens p) (Some stage_cost) (Some stage_tokens)) (\<lambda>_.
    bindE (budget_float budget ''max_aggregate_cost_usd'') (\<lambda>aggregate_cost.
    bindE (budget_int budget ''max_aggregate_tokens'') (\<lambda>aggregate_tokens.
    require_budget fl (all_rows c) (aggregate_prior_cost p) (aggregate_prior_tokens p)
      (Some aggregate_cost) (Some aggregate_tokens))))))"

definition remaining_multi_budget ::
  "bool \<Rightarrow> collected \<Rightarrow> json_object \<Rightarrow> prior_usage \<Rightarrow> (double \<times> int) result" where
  "remaining_multi_budget fl c budget p =
    bindE (usage_of metric_item py_float py_int (all_rows c)) (\<lambda>(costs, observed_tokens).
    let observed_cost = py_sum fl costs
    in bindE (budget_float budget ''max_stage_cost_usd'') (\<lambda>stage_cost.
       bindE (budget_float budget ''max_aggregate_cost_usd'') (\<lambda>aggregate_cost.
       bindE (budget_int budget ''max_stage_tokens'') (\<lambda>stage_tokens.
       bindE (budget_int budget ''max_aggregate_tokens'') (\<lambda>aggregate_tokens.
       let cost = d_min (d_sub (d_sub stage_cost (stage_prior_cost p)) observed_cost)
             (d_sub (d_sub aggregate_cost (aggregate_prior_cost p)) observed_cost);
           tokens = min (stage_tokens - stage_prior_tokens p - observed_tokens)
             (aggregate_tokens - aggregate_prior_tokens p - observed_tokens)
       in if \<not> finite_double cost \<or> d_less_eq cost (Fin 0) \<or> tokens \<le> 0
          then fail ''budget'' ''runtime rollout budget is exhausted''
          else Inr (cost, tokens))))))"

definition remaining_schedule_count ::
  "json_object \<Rightarrow> string list \<Rightarrow> (string \<Rightarrow> (string \<times> int) list) \<Rightarrow> int result" where
  "remaining_schedule_count e tids completed =
    bindE (item_of (JObj e) ''trials'') (\<lambda>v.
    case int_value v of
      None \<Rightarrow> Inl (Type_Error ''trials'')
    | Some trials \<Rightarrow>
        bindE (counterbalanced_schedule arm_ids trials) (\<lambda>schedule.
        Inr (int (length (filter (\<lambda>((trial, arm), tid). (tid, int trial) \<notin> set (completed arm))
          (List.product schedule tids))))))"

definition require_remaining_schedule_capacity ::
  "bool \<Rightarrow> collected \<Rightarrow> json_object \<Rightarrow> int \<Rightarrow> prior_usage \<Rightarrow> (double \<times> int) result" where
  "require_remaining_schedule_capacity fl c budget rollouts p =
    bindE (fixed_rollout_budget budget True) (\<lambda>fixed.
    case fixed of
      None \<Rightarrow> Inl Assertion_Error
    | Some cap \<Rightarrow>
        bindE (remaining_multi_budget fl c budget p) (\<lambda>(cost, tokens).
        bindE (int_times (fst cap) rollouts) (\<lambda>required_cost.
        if d_less_eq cost required_cost \<or> tokens \<le> snd cap * rollouts
        then fail ''budget'' ''remaining multi-arm schedule is not budget-feasible before network''
        else Inr cap)))"

section \<open>The cap a rollout ran under\<close>

definition harness_of :: "json_object \<Rightarrow> string \<Rightarrow> json result" where
  \<comment> \<open>\<open>rollout.get("harness", {}).get(k)\<close>\<close>
  "harness_of r k = get_of (get_default r ''harness'' (JObj [])) k"

definition runtime_budget_json :: "double \<times> int \<Rightarrow> json" where
  "runtime_budget_json cap =
    JObj [(''max_metered_tokens'', JInt (snd cap)), (''max_cost_usd'', double_json (fst cap))]"

definition require_runtime_budget_provenance :: "json_object \<Rightarrow> double \<times> int \<Rightarrow> bool \<Rightarrow> unit result" where
  "require_runtime_budget_provenance r cap require_usage =
    bindE (harness_of r ''runtime_budget'') (\<lambda>actual.
    bindE (raise_if (\<not> py_eq actual (runtime_budget_json cap)) ''runtime budget''
      ''does not match the sealed execution allowance'') (\<lambda>_.
    if \<not> require_usage then Inr ()
    else
      bindE (missing_metrics [r] (''cost_usd'' # token_metrics)) (\<lambda>missing.
      bindE (raise_if missing ''runtime budget'' ''telemetry is missing'') (\<lambda>_.
      bindE (bindE (metric_item r ''cost_usd'') py_float) (\<lambda>cost.
      bindE (rollout_metered_tokens r) (\<lambda>tokens.
      raise_if (\<not> finite_double cost \<or> d_less (fst cap) cost \<or> snd cap < tokens)
        ''runtime budget'' ''normalized rollout exceeded its sealed fixed budget''))))))"

section \<open>The journal's authority and transactions\<close>

definition json_at :: "json_object \<Rightarrow> string list \<Rightarrow> json result" where
  \<comment> \<open>\<open>d[k1][k2]...\<close>\<close>
  "json_at d ks = foldE (\<lambda>k v. item_of v k) ks (JObj d)"

definition text_at :: "json_object \<Rightarrow> string list \<Rightarrow> string result" where
  \<comment> \<open>a value the validation of the experiment and of the suite made a string\<close>
  "text_at d ks = bindE (json_at d ks) (\<lambda>v. case v of JStr s \<Rightarrow> Inr s | _ \<Rightarrow> Inl (Type_Error ''str''))"

definition multi_arm_budget_authority ::
  "json_object \<Rightarrow> json_object \<Rightarrow> prior_usage \<Rightarrow> budget_authority result" where
  "multi_arm_budget_authority e suite p =
    bindE (json_at e [''budget'']) (\<lambda>budget.
    bindE (item_of budget ''max_stage_cost_usd'') (\<lambda>v. bindE (usd_to_microusd v) (\<lambda>stage_limit.
    bindE (item_of budget ''max_aggregate_cost_usd'') (\<lambda>v. bindE (usd_to_microusd v) (\<lambda>aggregate_limit.
    bindE (usd_to_microusd_ceiling (double_json (stage_prior_cost p))) (\<lambda>stage_prior.
    bindE (usd_to_microusd_ceiling (double_json (aggregate_prior_cost p))) (\<lambda>aggregate_prior.
    bindE (bindE (item_of budget ''max_stage_tokens'') py_int) (\<lambda>stage_tokens.
    bindE (bindE (item_of budget ''max_aggregate_tokens'') py_int) (\<lambda>aggregate_tokens.
    let cost = min (stage_limit - stage_prior) (aggregate_limit - aggregate_prior);
        tokens = min (stage_tokens - stage_prior_tokens p) (aggregate_tokens - aggregate_prior_tokens p)
    in bindE (raise_if (cost \<le> 0 \<or> tokens \<le> 0) ''paid budget journal'' ''authority is exhausted'') (\<lambda>_.
       bindE (json_at e [''experiment_id'']) (\<lambda>experiment.
       bindE (json_at e [''stage'', ''id'']) (\<lambda>stage.
       bindE (json_at suite [''suite_id'']) (\<lambda>suite_id.
       bindE (json_at e [''model'']) (\<lambda>model.
       bindE (text_at e [''model'', ''provider'']) (\<lambda>provider.
       Inr \<lparr>auth_manifest_sha256 = canonical_sha256 (JObj
               [(''contract'', JStr ''metacodes-multi-arm-budget-authority-v1''), (''experiment_id'', experiment),
                (''stage_id'', stage), (''experiment_sha256'', JStr (canonical_sha256 (JObj e))), (''suite_id'', suite_id),
                (''suite_sha256'', JStr (canonical_sha256 (JObj suite))),
                (''stage_prior_cost_microusd'', JInt stage_prior),
                (''stage_prior_metered_tokens'', JInt (stage_prior_tokens p)),
                (''aggregate_prior_cost_microusd'', JInt aggregate_prior),
                (''aggregate_prior_metered_tokens'', JInt (aggregate_prior_tokens p)),
                (''effective_total_cost_microusd'', JInt cost), (''effective_total_metered_tokens'', JInt tokens)]),
            auth_model_fingerprint = canonical_sha256 model,
            auth_provider_identity = provider,
            total_cost_microusd = cost, total_metered_tokens = tokens\<rparr>)))))))))))))))"

definition slot_run_id :: "string \<Rightarrow> string \<Rightarrow> string \<Rightarrow> string \<Rightarrow> int \<Rightarrow> string" where
  "slot_run_id experiment stage arm tid trial =
    experiment @ '':'' @ stage @ '':'' @ arm @ '':'' @ tid @ '':'' @ int_str trial"

text \<open>The identities frozen for one run of the experiment, and the cap of each of its rollouts.\<close>

record run_contract =
  rc_experiment :: json_object
  rc_suite :: json_object
  rc_authority :: budget_authority
  rc_identity :: execution_identity
  rc_paths :: dependency_paths
  rc_kernel :: json_object
  rc_config_ids :: "(string \<times> string) list"
  rc_cap :: "double \<times> int"
  rc_prior :: prior_usage
  rc_compensated :: bool

definition multi_arm_budget_transaction ::
  "run_contract \<Rightarrow> json_object \<Rightarrow> string \<Rightarrow> int \<Rightarrow> (string \<times> string) list \<Rightarrow> double \<times> int \<Rightarrow>
   budget_transaction result" where
  "multi_arm_budget_transaction c task arm trial env cap =
    (case map_of (rc_config_ids c) arm of
       None \<Rightarrow> Inl (Key_Error arm)
     | Some config_id \<Rightarrow>
        bindE (text_at (rc_experiment c) [''experiment_id'']) (\<lambda>experiment.
        bindE (text_at (rc_experiment c) [''stage'', ''id'']) (\<lambda>stage.
        bindE (text_at task [''id'']) (\<lambda>tid.
        bindE (usd_to_microusd (double_json (fst cap))) (\<lambda>cost.
        Inr \<lparr>run_id = slot_run_id experiment stage arm tid trial,
             manifest_sha256 = auth_manifest_sha256 (rc_authority c),
             model_fingerprint = auth_model_fingerprint (rc_authority c),
             harness_fingerprint = canonical_sha256 (JObj
               [(''contract'', JStr ''metacodes-multi-arm-budget-transaction-v1''), (''experiment_id'', JStr experiment),
                (''stage_id'', JStr stage), (''arm_id'', JStr arm), (''task_id'', JStr tid),
                (''task_sha256'', JStr (canonical_sha256 (JObj task))), (''trial'', JInt trial),
                (''revision'', JStr (harness_revision (rc_identity c))), (''config_id'', JStr config_id),
                (''metacodes_sha256'', JStr (metacodes_sha256 (rc_identity c))),
                (''tinykg_sha256'', JStr (tinykg_sha256 (rc_identity c))),
                (''formal_kernel_fingerprint'', JStr (formal_kernel_fingerprint (rc_identity c))),
                (''runtime_env'', JObj (map (apsnd JStr) (sort_key fst env))),
                (''max_cost_microusd'', JInt cost), (''max_metered_tokens'', JInt (snd cap))]),
             provider_identity = auth_provider_identity (rc_authority c),
             max_cost_microusd = cost,
             max_metered_tokens = snd cap\<rparr>)))))"

section \<open>Caps on the command line\<close>

definition validate_budget_caps ::
  "double \<Rightarrow> int \<Rightarrow> double option \<Rightarrow> int option \<Rightarrow> double option \<Rightarrow> int option \<Rightarrow> unit result" where
  "validate_budget_caps used_cost used_tokens max_cost max_tokens rollout_cost rollout_tokens = seqE
    [raise_if (\<not> finite_double used_cost \<or> d_less used_cost (Fin 0) \<or> used_tokens < 0)
       ''budget'' ''usage offsets must be non-negative'',
     raise_if ((rollout_cost = None) \<noteq> (rollout_tokens = None)) ''budget'' ''requires both cost and token caps'',
     raise_if (case rollout_cost of None \<Rightarrow> False | Some c \<Rightarrow> \<not> finite_double c \<or> d_less_eq c (Fin 0))
       ''budget'' ''per-rollout max cost must be finite and > 0'',
     raise_if (case rollout_tokens of None \<Rightarrow> False | Some n \<Rightarrow> n \<le> 0)
       ''budget'' ''per-rollout max metered tokens must be > 0'',
     raise_if (case (rollout_cost, max_cost) of (Some c, Some m) \<Rightarrow> d_less m c | _ \<Rightarrow> False)
       ''budget'' ''per-rollout max cost exceeds the cumulative cap'',
     raise_if (case (rollout_tokens, max_tokens) of (Some n, Some m) \<Rightarrow> m < n | _ \<Rightarrow> False)
       ''budget'' ''per-rollout max metered tokens exceeds the cumulative cap'',
     raise_if (case max_cost of None \<Rightarrow> False | Some m \<Rightarrow> \<not> finite_double m \<or> d_less_eq m (Fin 0))
       ''budget'' ''max cumulative cost must be > 0'',
     raise_if (case max_tokens of None \<Rightarrow> False | Some m \<Rightarrow> m \<le> 0) ''budget'' ''max cumulative tokens must be > 0'']"

definition alternating_schedule :: "int \<Rightarrow> (nat \<times> string) list result" where
  "alternating_schedule trials =
    (if trials \<le> 0 then fail ''schedule'' ''trials must be > 0''
     else Inr (concat (map (\<lambda>t. map (Pair t) (if even t then [''baseline'', ''candidate''] else [''candidate'', ''baseline'']))
       [0..<nat trials])))"

definition scenario_selector :: "string list \<Rightarrow> string result" where
  "scenario_selector tids =
    (if tids = [] then fail ''scenario selector'' ''requires at least one task''
     else if list_ex (\<lambda>t. CHR '','' \<in> set t) tids then fail ''scenario selector'' ''ids cannot contain commas''
     else Inr (join_with '','' (sort tids)))"

end
