(* ===== verification/Runner_Checkpoint.thy ===== *)
theory Runner_Checkpoint
  imports Runner_Budget Artifact_Rollout
begin

text \<open>
  The rows of a checkpoint of \<open>scripts/eval/paired_runner.py\<close>: the identity a persisted rollout must
  have, its receipt in the budget journal, and how a rollout that may not be scored is marked. The
  receipt of \<open>treatment_activation.py\<close> is bound to its rollout here; how it is derived from the
  workspace is the argument \<open>attest\<close>.
\<close>

section \<open>Editing a rollout\<close>

fun take_points :: "nat \<Rightarrow> string \<Rightarrow> string" where
  \<comment> \<open>\<open>s[:n]\<close>: a continuation byte belongs to the character before it\<close>
  "take_points n [] = []"
| "take_points n (c # s) =
    (if 0x80 \<le> char_code c \<and> char_code c < 0xC0 then c # take_points n s
     else if n = 0 then [] else c # take_points (n - 1) s)"

definition edit_object :: "string \<Rightarrow> (json_object \<Rightarrow> json_object result) \<Rightarrow> json_object \<Rightarrow> json_object result" where
  \<comment> \<open>an edit of the object that \<open>d.setdefault(k, {})\<close> returns\<close>
  "edit_object k f d =
    (case get_default d k (JObj []) of
       JObj x \<Rightarrow> bindE (f x) (\<lambda>y. Inr (AList.update k (JObj y) d))
     | _ \<Rightarrow> Inl (Type_Error ''item assignment''))"

definition edit_item :: "string \<Rightarrow> (json_object \<Rightarrow> json_object result) \<Rightarrow> json_object \<Rightarrow> json_object result" where
  \<comment> \<open>an edit of the object \<open>d[k]\<close>\<close>
  "edit_item k f d = (if map_of d k = None then Inl (Key_Error k) else edit_object k f d)"

definition put :: "string \<Rightarrow> json \<Rightarrow> json_object \<Rightarrow> json_object result" where
  "put k v d = Inr (AList.update k v d)"

definition append_to :: "string \<Rightarrow> json \<Rightarrow> json_object \<Rightarrow> json_object result" where
  \<comment> \<open>\<open>d.setdefault(k, []).append(v)\<close>\<close>
  "append_to k v d =
    (case get_default d k (JArr []) of
       JArr vs \<Rightarrow> Inr (AList.update k (JArr (vs @ [v])) d)
     | _ \<Rightarrow> Inl (Attribute_Error ''append''))"

definition add_reason :: "string \<Rightarrow> json_object \<Rightarrow> json_object result" where
  \<comment> \<open>\<open>reasons = execution.setdefault("invalid_reasons", [])\<close>, and the reason unless it is there\<close>
  "add_reason s execution =
    (case get_default execution ''invalid_reasons'' (JArr []) of
       JArr vs \<Rightarrow> Inr (AList.update ''invalid_reasons'' (JArr (if JStr s \<in> set vs then vs else vs @ [JStr s])) execution)
     | _ \<Rightarrow> Inl (Attribute_Error ''append''))"

definition invalid_execution :: "string \<Rightarrow> json_object \<Rightarrow> json_object result" where
  "invalid_execution reason x = bindE (put ''status'' (JStr ''invalid'') x) (add_reason reason)"

definition unscored_judgement :: "json_object \<Rightarrow> json_object result" where
  "unscored_judgement x =
    bindE (put ''valid_for_scoring'' (JBool False) x) (put ''trustworthy_success'' (JBool False))"

definition attribution_json :: "string \<Rightarrow> string \<Rightarrow> string \<Rightarrow> json" where
  "attribution_json code source detail = JObj
    [(''code'', JStr code), (''source'', JStr source), (''count'', JInt 1), (''confidence'', JFloat (FDec 1 0)),
     (''detail'', JStr (take_points 512 detail))]"

definition mark_runtime_budget_invalid :: "string \<Rightarrow> json_object \<Rightarrow> json_object result" where
  "mark_runtime_budget_invalid detail r =
    bindE (edit_object ''execution'' (invalid_execution ''runtime_budget_contract_violation'') r) (\<lambda>r.
    bindE (edit_object ''judgement'' unscored_judgement r) (\<lambda>r.
    append_to ''attribution'' (attribution_json ''runtime_budget_contract_violation'' ''O'' detail) r))"

definition has_code :: "string \<Rightarrow> json \<Rightarrow> bool" where
  "has_code code v = (case v of JObj d \<Rightarrow> field d ''code'' = JStr code | _ \<Rightarrow> False)"

definition mark_treatment_activation_invalid :: "string \<Rightarrow> json_object \<Rightarrow> json_object result" where
  "mark_treatment_activation_invalid detail r =
    bindE (edit_object ''execution'' (invalid_execution ''treatment_activation_failed'') r) (\<lambda>r.
    bindE (edit_object ''judgement'' unscored_judgement r) (\<lambda>r.
    bindE (py_iter (get_default r ''attribution'' (JArr []))) (\<lambda>vs.
    if list_ex (has_code ''treatment_activation_failed'') vs
    then Inr (if map_of r ''attribution'' = None then AList.update ''attribution'' (JArr []) r else r)
    else append_to ''attribution'' (attribution_json ''treatment_activation_failed'' ''L'' detail) r)))"

section \<open>The treatment receipt of a rollout\<close>

type_synonym attestation = "string \<Rightarrow> string \<Rightarrow> json result"
  \<comment> \<open>\<open>attest_treatment_activation\<close> of a workspace and an arm\<close>

definition workspace_from_rollout :: "json_object \<Rightarrow> string result" where
  "workspace_from_rollout r =
    (case field r ''artifacts'' of
       JObj a \<Rightarrow>
         (case field a ''workspace'' of
            JStr s \<Rightarrow> if s = [] then fail ''rollout'' ''workspace is missing for treatment activation'' else Inr s
          | _ \<Rightarrow> fail ''rollout'' ''workspace is missing for treatment activation'')
     | _ \<Rightarrow> fail ''rollout'' ''artifacts are missing for treatment activation'')"

definition rollout_execution :: "json_object \<Rightarrow> json" where
  "rollout_execution r = JObj
    [(''run_id'', field r ''run_id''), (''suite_id'', field r ''suite_id''), (''task_id'', field r ''task_id''),
     (''trial'', field r ''trial''),
     (''harness_config_id'', case field r ''harness'' of JObj h \<Rightarrow> field h ''config_id'' | _ \<Rightarrow> JNull)]"

definition require_receipt_identity :: "json \<Rightarrow> json_object \<Rightarrow> string \<Rightarrow> unit result" where
  "require_receipt_identity receipt r arm =
    bindE (validate_activation receipt ''rollout.treatment_activation'' (Some arm)) (\<lambda>_.
    bindE (get_of receipt ''execution'') (\<lambda>execution.
    raise_if (\<not> py_eq execution (rollout_execution r)) ''treatment activation receipt''
      ''does not match normalized rollout identity''))"

definition attach_treatment_activation :: "attestation \<Rightarrow> json_object \<Rightarrow> string \<Rightarrow> json_object result" where
  "attach_treatment_activation attest r arm =
    bindE (workspace_from_rollout r) (\<lambda>workspace.
    bindE (attest workspace arm) (\<lambda>receipt.
    bindE (require_receipt_identity receipt r arm) (\<lambda>_.
    put ''treatment_activation'' receipt r)))"

definition reverify_treatment_activation :: "attestation \<Rightarrow> json_object \<Rightarrow> string \<Rightarrow> unit result" where
  "reverify_treatment_activation attest r arm =
    (case field r ''treatment_activation'' of
       JObj receipt \<Rightarrow>
         bindE (require_receipt_identity (JObj receipt) r arm) (\<lambda>_.
         bindE (workspace_from_rollout r) (\<lambda>workspace.
         bindE (attest workspace arm) (\<lambda>observed.
         raise_if (\<not> py_eq observed (JObj receipt)) arm ''treatment activation artifacts changed after attestation'')))
     | _ \<Rightarrow> fail arm ''rollout is missing treatment_activation receipt'')"

section \<open>The rows of a checkpoint\<close>

definition require_scoring_rollout :: "json_object \<Rightarrow> string \<Rightarrow> unit result" where
  "require_scoring_rollout r variant =
    bindE (get_of (get_default r ''judgement'' (JObj [])) ''valid_for_scoring'') (\<lambda>v.
    raise_if (\<not> truthy v) variant ''rollout is not valid for scoring'')"

fun row_key :: "json_object \<Rightarrow> (string \<times> int) result" where
  \<comment> \<open>\<open>(item["task_id"], item["trial"])\<close> of a validated rollout\<close>
  "row_key r =
    (case (field r ''task_id'', field r ''trial'') of
       (JStr tid, JInt trial) \<Rightarrow> Inr (tid, trial)
     | _ \<Rightarrow> Inl (Type_Error ''task_id and trial''))"

record row_contract =
  row_variant :: string
  row_suite :: json_object
  row_binary :: "string option"
  row_trials :: int
  row_tasks :: "(string \<times> json_object) list"
  row_provider :: json
  row_model :: json
  row_revision :: string
  row_config_id :: "string option"
  needs_runtime_budget :: bool
  row_attest :: "attestation option"

definition expected_identity :: "row_contract \<Rightarrow> string \<Rightarrow> json \<Rightarrow> json_object \<Rightarrow> (string \<times> json) list" where
  "expected_identity c config_id suite_id prints =
    [(''suite_id'', suite_id), (''task_fingerprint'', field prints ''task_fingerprint''),
     (''task_fingerprint_provenance'', JStr ''recorded_at_execution''), (''model_provider'', row_provider c),
     (''model_id'', row_model c), (''model_fingerprint'', field prints ''model_fingerprint''),
     (''harness_config_id'', JStr config_id), (''harness_revision'', JStr (row_revision c)),
     (''harness_fingerprint'', field prints ''harness_fingerprint''),
     (''permission_mode'', field prints ''permission_mode''),
     (''environment_fingerprint'', field prints ''environment_fingerprint''),
     (''grader_fingerprint'', field prints ''grader_fingerprint'')]"

definition actual_identity :: "json_object \<Rightarrow> (string \<times> json) list result" where
  "actual_identity r =
    (let sub = (\<lambda>k j. get_of (get_default r k (JObj [])) j)
     in bindE (sub ''model'' ''provider'') (\<lambda>provider. bindE (sub ''model'' ''id'') (\<lambda>model.
        bindE (sub ''model'' ''fingerprint'') (\<lambda>model_print.
        bindE (mapE (sub ''harness'') [''config_id'', ''revision'', ''fingerprint'', ''permission_mode'', ''environment_fingerprint'']) (\<lambda>hs.
        bindE (sub ''evaluator'' ''fingerprint'') (\<lambda>grader.
        Inr ([(''suite_id'', field r ''suite_id''), (''task_fingerprint'', field r ''task_fingerprint''),
          (''task_fingerprint_provenance'', field r ''task_fingerprint_provenance''), (''model_provider'', provider),
          (''model_id'', model), (''model_fingerprint'', model_print)] @
          zip [''harness_config_id'', ''harness_revision'', ''harness_fingerprint'', ''permission_mode'', ''environment_fingerprint''] hs @
          [(''grader_fingerprint'', grader)])))))))"

definition validate_checkpoint_row :: "('a host_scheme) \<Rightarrow> row_contract \<Rightarrow> json_object \<Rightarrow> unit result" where
  "validate_checkpoint_row h c r =
    bindE (require_scoring_rollout r (row_variant c)) (\<lambda>_.
    bindE (row_key r) (\<lambda>(tid, trial).
    case map_of (row_tasks c) tid of
      None \<Rightarrow> fail (row_variant c) ''checkpoint contains out-of-scope key''
    | Some task \<Rightarrow>
        bindE (raise_if (trial < 0 \<or> row_trials c \<le> trial) (row_variant c) ''checkpoint contains out-of-scope key'') (\<lambda>_.
        let config_id = (case row_config_id c of Some s \<Rightarrow> if s = [] then row_variant c else s | None \<Rightarrow> row_variant c)
        in bindE (if needs_runtime_budget c then harness_of r ''runtime_budget'' else Inr (JObj [])) (\<lambda>b.
           bindE (raise_if (\<not> is_dict b) (row_variant c) ''checkpoint is missing runtime budget provenance'') (\<lambda>_.
           bindE (json_at task [''constraints'', ''permission_mode'']) (\<lambda>permission.
           bindE (comparison_fingerprints h task (row_provider c) (row_model c) config_id (row_revision c) permission
             (row_binary c)) (\<lambda>prints.
           bindE (actual_identity r) (\<lambda>actual.
           bindE (json_at (row_suite c) [''suite_id'']) (\<lambda>suite_id.
           bindE (raise_if (list_ex (\<lambda>(k, v). \<not> py_eq (field actual k) v) (expected_identity c config_id suite_id prints))
             (row_variant c) ''checkpoint identity mismatch'') (\<lambda>_.
           case row_attest c of
             None \<Rightarrow> Inr ()
           | Some attest \<Rightarrow> reverify_treatment_activation attest r (row_variant c)))))))))))"

definition validate_checkpoint_rows ::
  "('a host_scheme) \<Rightarrow> row_contract \<Rightarrow> json_object list \<Rightarrow> json_object list result" where
  "validate_checkpoint_rows h c rows =
    bindE (mapE row_key rows) (\<lambda>ks.
    bindE (raise_if (\<not> distinct ks) (row_variant c) ''checkpoint has duplicate task/trial keys'') (\<lambda>_.
    bindE (forE (validate_checkpoint_row h c) rows) (\<lambda>_. Inr rows)))"

section \<open>Receipts of the budget journal\<close>

definition opt_int :: "int option \<Rightarrow> json" where
  "opt_int x = (case x of None \<Rightarrow> JNull | Some i \<Rightarrow> JInt i)"

definition opt_str :: "string option \<Rightarrow> json" where
  "opt_str x = (case x of None \<Rightarrow> JNull | Some s \<Rightarrow> JStr s)"

definition receipt_json :: "receipt \<Rightarrow> json_object" where
  "receipt_json rc =
    (let t = rc_transaction rc; i = identity t
     in [(''journal_id'', JStr (rc_journal_id rc)), (''journal_revision'', JInt (rc_journal_revision rc)),
         (''journal_head_sha256'', JStr (rc_journal_head_sha256 rc)), (''transaction_id'', JStr (transaction_id t)),
         (''state'', JStr (state_name (txn_state t))), (''identity_sha256'', JStr (identity_sha256 t)),
         (''run_id'', JStr (run_id i)), (''manifest_sha256'', JStr (manifest_sha256 i)),
         (''model_fingerprint'', JStr (model_fingerprint i)), (''harness_fingerprint'', JStr (harness_fingerprint i)),
         (''provider_identity'', JStr (provider_identity i)), (''max_cost_microusd'', JInt (max_cost_microusd i)),
         (''max_metered_tokens'', JInt (max_metered_tokens i)),
         (''reservation_revision'', JInt (reservation_revision t)),
         (''reservation_head_sha256'', JStr (reservation_head_sha256 t)),
         (''authorization_revision'', opt_int (authorization_revision t)),
         (''authorization_head_sha256'', opt_str (authorization_head_sha256 t)),
         (''commit_revision'', opt_int (commit_revision t)), (''commit_head_sha256'', opt_str (commit_head_sha256 t)),
         (''actual_cost_microusd'', opt_int (actual_cost_microusd t)),
         (''actual_metered_tokens'', opt_int (actual_metered_tokens t))])"

definition same_fields :: "string list \<Rightarrow> json_object \<Rightarrow> json_object \<Rightarrow> bool" where
  \<comment> \<open>\<open>a.get(k) == b.get(k)\<close> for every \<open>k\<close>\<close>
  "same_fields ks a b \<longleftrightarrow> list_all (\<lambda>k. py_eq (field a k) (field b k)) ks"

definition immutable_keys :: "json_object \<Rightarrow> string list" where
  "immutable_keys live = filter (\<lambda>k. k \<notin> {''journal_revision'', ''journal_head_sha256''}) (keys live)"

definition committed_exactly :: "json_object \<Rightarrow> int \<Rightarrow> int \<Rightarrow> bool" where
  "committed_exactly stored cost tokens \<longleftrightarrow>
    field stored ''state'' = JStr ''committed'' \<and> py_eq (field stored ''actual_cost_microusd'') (JInt cost) \<and>
    py_eq (field stored ''actual_metered_tokens'') (JInt tokens)"

definition checkpoint_receipt :: "json_object \<Rightarrow> budget_transaction \<Rightarrow> json_object \<Rightarrow> json_object \<Rightarrow> unit result" where
  \<comment> \<open>the checks of a stored receipt against the live one\<close>
  "checkpoint_receipt r i stored live =
    bindE (raise_if (\<not> same_fields (immutable_keys live) stored live) ''paid budget receipt''
      ''does not match the live journal transaction'') (\<lambda>_.
    bindE (validate_transaction i) (\<lambda>_.
    bindE (raise_if (case identity_json i of JObj d \<Rightarrow> \<not> same_fields (keys d) stored d | _ \<Rightarrow> False)
      ''paid budget receipt'' ''transaction identity drift'') (\<lambda>_.
    bindE (bindE (metric_item r ''cost_usd'') usd_to_microusd_ceiling) (\<lambda>cost.
    bindE (rollout_metered_tokens r) (\<lambda>tokens.
    bindE (raise_if (\<not> committed_exactly stored cost tokens) ''paid budget receipt''
      ''is not an exact committed usage record'') (\<lambda>_.
    raise_if (\<not> py_eq (field stored ''journal_revision'') (field stored ''commit_revision'') \<or>
        \<not> py_eq (field stored ''journal_head_sha256'') (field stored ''commit_head_sha256''))
      ''paid budget receipt'' ''is not bound to its commit journal revision/head''))))))"

definition validate_checkpoint_budget_receipt :: "json_object \<Rightarrow> budget_transaction \<Rightarrow> string jop" where
  "validate_checkpoint_budget_receipt r i =
    (case field r ''budget_transaction'' of
       JObj stored \<Rightarrow>
         (case field stored ''transaction_id'' of
            JStr tid \<Rightarrow>
              bindS (receipt_op tid) (\<lambda>rc.
              bindS (liftS (checkpoint_receipt r i stored (receipt_json rc))) (\<lambda>_. returnS tid))
          | _ \<Rightarrow> raiseS (Validation_Error ''paid budget receipt'' ''transaction id is missing''))
     | _ \<Rightarrow> raiseS (Validation_Error ''rollout'' ''is missing its paid budget receipt''))"

definition require_no_orphans :: "string list \<Rightarrow> unit jop" where
  "require_no_orphans tids =
    bindS transaction_receipts (\<lambda>rcs.
    whenS (list_ex (\<lambda>rc. txn_state (rc_transaction rc) \<noteq> Aborted_Pre_Request \<and>
        transaction_id (rc_transaction rc) \<notin> set tids) rcs)
      (Validation_Error ''paid budget journal''
        ''contains an authorized, reserved, or committed transaction without a matching rollout checkpoint''))"

section \<open>Rollouts the infrastructure failed\<close>

definition infrastructure_import_failure :: "json_object \<Rightarrow> string \<Rightarrow> string \<Rightarrow> json_object result" where
  "infrastructure_import_failure task run_dir detail =
    bindE (json_at task [''id'']) (\<lambda>tid. bindE (json_at task [''layers'']) (\<lambda>layers.
    bindE (json_at task [''grader'', ''kind'']) (\<lambda>kind. bindE (json_at task [''grader'', ''version'']) (\<lambda>version.
    Inr [(''schema_version'', JInt 1), (''run_id'', JStr ''pending-infrastructure-normalization''),
      (''suite_id'', JStr ''pending''), (''task_id'', tid), (''task_fingerprint'', JStr ''pending''),
      (''task_fingerprint_provenance'', JStr ''runner_frozen_before_execution''), (''trial'', JInt 0), (''layers'', layers),
      (''model'', JObj [(''provider'', JStr ''pending''), (''id'', JStr ''pending'')]),
      (''harness'', JObj [(''config_id'', JStr ''pending''), (''revision'', JStr ''pending'')]),
      (''readiness'', JObj [(''status'', JStr ''fail''), (''checks'', JArr [JObj
        [(''name'', JStr ''evidence_import''), (''passed'', JBool False), (''detail'', JStr detail)]])]),
      (''execution'', JObj [(''status'', JStr ''invalid''), (''exit_code'', JNull),
        (''invalid_reasons'', JArr [JStr ''evidence_import_failed''])]),
      (''outcome'', JObj [(''status'', JStr ''unscored''), (''checks'', JArr [])]),
      (''trajectory'', JObj [(''status'', JStr ''unscored''), (''checks'', JArr []), (''tool_failures'', JArr [])]),
      (''evaluator'', JObj [(''status'', JStr ''invalid''), (''kind'', kind), (''version'', version),
        (''fingerprint'', JStr ''pending''), (''errors'', JArr [JStr detail])]),
      (''judgement'', JObj [(''valid_for_scoring'', JBool False), (''trustworthy_success'', JBool False)]),
      (''metrics'', JObj []), (''attribution'', JArr []), (''artifacts'', JObj [(''run_dir'', JStr run_dir)])]))))"

definition mark_infrastructure_invalid ::
  "('a host_scheme) \<Rightarrow> row_contract \<Rightarrow> json_object \<Rightarrow> int \<Rightarrow> int \<Rightarrow> double \<times> int \<Rightarrow> string \<Rightarrow> json_object \<Rightarrow> json_object result" where
  \<comment> \<open>the contract, the task, the trial, the exit code of the runner, the cap and the configuration\<close>
  "mark_infrastructure_invalid h c task trial returncode cap config_id r =
    bindE (json_at task [''constraints'', ''permission_mode'']) (\<lambda>permission.
    bindE (comparison_fingerprints h task (row_provider c) (row_model c) config_id (row_revision c) permission
      (row_binary c)) (\<lambda>prints.
    bindE (json_at task [''id'']) (\<lambda>tid. bindE (json_at (row_suite c) [''suite_id'']) (\<lambda>suite_id.
    bindE (put ''run_id'' (JStr (row_variant c @ '':'' @ py_str tid @ '':'' @ int_str trial @ '':infrastructure'')) r) (\<lambda>r.
    bindE (put ''suite_id'' suite_id r) (\<lambda>r. bindE (put ''task_id'' tid r) (\<lambda>r.
    bindE (put ''task_fingerprint'' (field prints ''task_fingerprint'') r) (\<lambda>r.
    bindE (put ''task_fingerprint_provenance'' (JStr ''runner_frozen_before_execution'') r) (\<lambda>r.
    bindE (put ''trial'' (JInt trial) r) (\<lambda>r.
    bindE (put ''model'' (JObj [(''provider'', row_provider c), (''id'', row_model c),
      (''fingerprint'', field prints ''model_fingerprint'')]) r) (\<lambda>r.
    bindE (put ''harness'' (JObj [(''config_id'', JStr config_id), (''revision'', JStr (row_revision c)),
      (''fingerprint'', field prints ''harness_fingerprint''), (''permission_mode'', field prints ''permission_mode''),
      (''environment_fingerprint'', field prints ''environment_fingerprint''),
      (''runtime_budget'', runtime_budget_json cap)]) r) (\<lambda>r.
    bindE (edit_item ''evaluator'' (put ''fingerprint'' (field prints ''grader_fingerprint'')) r) (\<lambda>r.
    bindE (edit_item ''readiness'' (put ''status'' (JStr ''fail'')) r) (\<lambda>r.
    bindE (edit_item ''readiness'' (append_to ''checks'' (JObj [(''name'', JStr ''e2e_runner_exit''), (''passed'', JBool False),
      (''detail'', JStr (''runner_exit_code='' @ int_str returncode))])) r) (\<lambda>r.
    bindE (edit_item ''execution'' (put ''status'' (JStr ''invalid'')) r) (\<lambda>r.
    bindE (edit_item ''execution'' (put ''exit_code'' (JInt returncode)) r) (\<lambda>r.
    bindE (edit_item ''execution'' (add_reason (''e2e_runner_exit:'' @ int_str returncode)) r) (\<lambda>r.
    bindE (edit_item ''judgement'' unscored_judgement r) (\<lambda>r.
    append_to ''attribution'' (JObj [(''source'', JStr ''L''), (''code'', JStr ''e2e_runner_infrastructure_failure''),
      (''count'', JInt 1), (''confidence'', JFloat (FDec 1 0))]) r)))))))))))))))))))"

end
