(* ===== verification/Release_Contract.thy ===== *)
theory Release_Contract
  imports Runner_Checkpoint
begin

text \<open>
  \<open>validate_release_contract\<close> of \<open>scripts/eval/analysis.py\<close>: a set of rollouts is the complete
  declared experiment, every rollout with the identity its task is grounded in, under one
  configuration and one revision.
\<close>

section \<open>The contract\<close>

definition add_pair :: "json_object \<Rightarrow> ((string \<times> int) \<times> json_object) list \<Rightarrow> ((string \<times> int) \<times> json_object) list result" where
  "add_pair r pairs =
    bindE (row_key r) (\<lambda>k.
    if k \<in> set (keys pairs) then fail ''rollout'' ''duplicate rollout pair key'' else Inr (pairs @ [(k, r)]))"

definition pair_map :: "json_object list \<Rightarrow> ((string \<times> int) \<times> json_object) list result" where
  "pair_map rows = foldE add_pair rows []"

definition expected_pairs :: "string list \<Rightarrow> int \<Rightarrow> (string \<times> int) list" where
  "expected_pairs tids trials = List.product tids (map int [0..<nat trials])"

record release_seen =
  seen_run_ids :: "string list"
  seen_config_ids :: "string list"
  seen_revisions :: "string list"
  seen_harnesses :: "(string \<times> string) list"

fun named :: "json \<Rightarrow> bool" where
  \<comment> \<open>a string that is not empty\<close>
  "named (JStr s) \<longleftrightarrow> s \<noteq> []" | "named _ \<longleftrightarrow> False"

fun str_value :: "json \<Rightarrow> string" where
  "str_value (JStr s) = s" | "str_value _ = []"

definition ends_with_unknown :: "string \<Rightarrow> bool" where
  "ends_with_unknown s \<longleftrightarrow> is_prefix (rev '':unknown'') (rev s)"

definition config_named :: "json \<Rightarrow> bool" where
  "config_named v \<longleftrightarrow> named v \<and> \<not> ends_with_unknown (str_value v)"

definition revision_named :: "json \<Rightarrow> bool" where
  "revision_named v \<longleftrightarrow> named v \<and> str_value v \<noteq> ''unknown''"

definition grounded_row ::
  "string \<Rightarrow> json \<Rightarrow> json \<Rightarrow> json_object \<Rightarrow> json_object \<Rightarrow> bool result" where
  \<comment> \<open>what must equal the grounding of the task; the run ids are checked by the loop\<close>
  "grounded_row suite_id provider model expected r =
    bindE (get_of (get_default r ''evaluator'' (JObj [])) ''fingerprint'') (\<lambda>grader.
    bindE (mapE (get_of (get_default r ''model'' (JObj []))) [''provider'', ''id'', ''fingerprint'']) (\<lambda>ms.
    bindE (mapE (get_of (get_default r ''harness'' (JObj []))) [''environment_fingerprint'', ''permission_mode'',
      ''fingerprint'', ''config_id'', ''revision'']) (\<lambda>hs.
    Inr (field r ''suite_id'' = JStr suite_id \<and>
      field r ''task_fingerprint_provenance'' = JStr ''recorded_at_execution'' \<and>
      py_eq (field r ''task_fingerprint'') (field expected ''task_fingerprint'') \<and>
      py_eq grader (field expected ''grader_fingerprint'') \<and>
      py_eq (ms ! 0) provider \<and> py_eq (ms ! 1) model \<and> ms ! 2 = JStr (model_fingerprint_of provider model) \<and>
      py_eq (hs ! 0) (field expected ''environment_fingerprint'') \<and>
      py_eq (hs ! 1) (field expected ''permission_mode'') \<and>
      named (hs ! 2) \<and> config_named (hs ! 3) \<and> revision_named (hs ! 4)))))"

definition harness_text :: "json_object \<Rightarrow> string \<Rightarrow> string" where
  "harness_text r k =
    (case get_default r ''harness'' (JObj []) of JObj h \<Rightarrow> str_value (field h k) | _ \<Rightarrow> [])"

definition release_row ::
  "string \<Rightarrow> string \<Rightarrow> json \<Rightarrow> json \<Rightarrow> (string \<times> json_object) list \<Rightarrow> (string \<times> int) \<times> json_object \<Rightarrow>
   release_seen \<Rightarrow> release_seen result" where
  "release_row label suite_id provider model grounding kr seen =
    (case map_of grounding (fst (fst kr)) of
       None \<Rightarrow> Inl (Key_Error (fst (fst kr)))
     | Some expected \<Rightarrow>
         (let r = snd kr; rid = field r ''run_id''
          in bindE (grounded_row suite_id provider model expected r) (\<lambda>ok.
             if \<not> ok \<or> \<not> named rid \<or> str_value rid \<in> set (seen_run_ids seen)
             then fail label ''rollout release identity mismatch''
             else Inr \<lparr>seen_run_ids = str_value rid # seen_run_ids seen,
                       seen_config_ids = harness_text r ''config_id'' # seen_config_ids seen,
                       seen_revisions = harness_text r ''revision'' # seen_revisions seen,
                       seen_harnesses = (fst (fst kr), harness_text r ''fingerprint'') # seen_harnesses seen\<rparr>)))"

definition single :: "'a list \<Rightarrow> bool" where
  "single xs \<longleftrightarrow> length (remdups xs) = 1"

definition validate_release_contract ::
  "string \<Rightarrow> string \<Rightarrow> string list \<Rightarrow> int \<Rightarrow> json \<Rightarrow> json \<Rightarrow> (string \<times> json_object) list \<Rightarrow> json_object list \<Rightarrow>
   json_object result" where
  "validate_release_contract label suite_id tids trials provider model grounding rows =
    bindE (raise_if (trials \<le> 0) ''release contract'' ''trials must be > 0'') (\<lambda>_.
    bindE (raise_if (tids = [] \<or> \<not> distinct tids) ''release contract'' ''task_ids must be non-empty and unique'') (\<lambda>_.
    bindE (raise_if (set tids \<noteq> set (keys grounding)) ''release contract''
      ''task_ids do not match the grounded suite tasks'') (\<lambda>_.
    bindE (pair_map rows) (\<lambda>pairs.
    bindE (raise_if (set (keys pairs) \<noteq> set (expected_pairs tids trials)) label
      ''violates release suite/trial contract'') (\<lambda>_.
    bindE (foldE (release_row label suite_id provider model grounding) pairs
      \<lparr>seen_run_ids = [], seen_config_ids = [], seen_revisions = [], seen_harnesses = []\<rparr>) (\<lambda>seen.
    bindE (raise_if (\<not> single (seen_config_ids seen) \<or> \<not> single (seen_revisions seen)) label
      ''mixes harness configurations or revisions'') (\<lambda>_.
    bindE (raise_if (\<not> list_all (\<lambda>t. single (map snd (filter (\<lambda>p. fst p = t) (seen_harnesses seen)))) tids) label
      ''harness fingerprint changed across trials'') (\<lambda>_.
    Inr [(''suite_id'', JStr suite_id), (''tasks'', JInt (int (length tids))), (''trials'', JInt trials),
      (''pairs'', JInt (int (length (expected_pairs tids trials)))), (''model_provider'', provider), (''model_id'', model),
      (''harness_config_id'', JStr (hd (seen_config_ids seen))), (''harness_revision'', JStr (hd (seen_revisions seen)))]))))))))"

section \<open>What an accepted set of rollouts is\<close>

lemma pair_map_Inr:
  assumes "pair_map rows = Inr pairs"
  shows "map snd pairs = rows" and "distinct (keys pairs)" and "\<forall>(k, r) \<in> set pairs. row_key r = Inr k"
proof -
  have "foldE add_pair rows acc = Inr pairs \<Longrightarrow> distinct (keys acc) \<Longrightarrow> \<forall>(k, r) \<in> set acc. row_key r = Inr k \<Longrightarrow>
    map snd pairs = map snd acc @ rows \<and> distinct (keys pairs) \<and> (\<forall>(k, r) \<in> set pairs. row_key r = Inr k)" for acc
  proof (induction rows arbitrary: acc)
    case (Cons r rows)
    from Cons.prems(1) obtain acc' where acc': "add_pair r acc = Inr acc'" "foldE add_pair rows acc' = Inr pairs"
      by (auto simp: bindE_eq_Inr)
    then obtain k where k: "row_key r = Inr k" "k \<notin> set (keys acc)" "acc' = acc @ [(k, r)]"
      by (auto simp: add_pair_def bindE_eq_Inr simp del: row_key.simps split: if_splits)
    then show ?case using Cons.IH [OF acc'(2)] Cons.prems(2,3) by auto
  qed simp
  from this [of "[]"] assms show "map snd pairs = rows" "distinct (keys pairs)"
    "\<forall>(k, r) \<in> set pairs. row_key r = Inr k"
    by (simp_all add: pair_map_def)
qed

definition same_release :: "string \<Rightarrow> json \<Rightarrow> json \<Rightarrow> (string \<times> json_object) list \<Rightarrow> string \<Rightarrow> string \<Rightarrow> json_object \<Rightarrow> bool" where
  \<comment> \<open>the row has the identity of its task, the configuration and the revision\<close>
  "same_release suite_id provider model grounding config revision r \<longleftrightarrow>
    (\<exists>tid trial expected. row_key r = Inr (tid, trial) \<and> map_of grounding tid = Some expected \<and>
       grounded_row suite_id provider model expected r = Inr True) \<and>
    harness_text r ''config_id'' = config \<and> harness_text r ''revision'' = revision"

lemma single_iff: "single xs \<longleftrightarrow> (\<exists>x. set xs = {x})"
  by (simp add: single_def length_remdups_card_conv card_1_singleton_iff)

lemma release_rows_Inr:
  assumes "foldE (release_row label suite_id provider model grounding) pairs seen = Inr seen'"
  shows "seen_config_ids seen' = rev (map (\<lambda>p. harness_text (snd p) ''config_id'') pairs) @ seen_config_ids seen"
    and "seen_revisions seen' = rev (map (\<lambda>p. harness_text (snd p) ''revision'') pairs) @ seen_revisions seen"
    and "seen_run_ids seen' = rev (map (\<lambda>p. str_value (field (snd p) ''run_id'')) pairs) @ seen_run_ids seen"
    and "distinct (seen_run_ids seen) \<longrightarrow> distinct (seen_run_ids seen')"
    and "\<forall>p \<in> set pairs. \<exists>expected. map_of grounding (fst (fst p)) = Some expected \<and>
      grounded_row suite_id provider model expected (snd p) = Inr True"
proof -
  let ?f = "release_row label suite_id provider model grounding"
  have step: "\<exists>expected. map_of grounding (fst (fst p)) = Some expected \<and>
      grounded_row suite_id provider model expected (snd p) = Inr True \<and>
      str_value (field (snd p) ''run_id'') \<notin> set (seen_run_ids seen) \<and>
      seen' = \<lparr>seen_run_ids = str_value (field (snd p) ''run_id'') # seen_run_ids seen,
       seen_config_ids = harness_text (snd p) ''config_id'' # seen_config_ids seen,
       seen_revisions = harness_text (snd p) ''revision'' # seen_revisions seen,
       seen_harnesses = (fst (fst p), harness_text (snd p) ''fingerprint'') # seen_harnesses seen\<rparr>"
    if "?f p seen = Inr seen'" for p seen seen'
    using that by (auto simp: release_row_def Let_def bindE_eq_Inr split: option.splits if_splits)
  show "seen_config_ids seen' = rev (map (\<lambda>p. harness_text (snd p) ''config_id'') pairs) @ seen_config_ids seen"
    using assms by (induction pairs arbitrary: seen) (auto simp: bindE_eq_Inr dest!: step)
  show "seen_revisions seen' = rev (map (\<lambda>p. harness_text (snd p) ''revision'') pairs) @ seen_revisions seen"
    using assms by (induction pairs arbitrary: seen) (auto simp: bindE_eq_Inr dest!: step)
  show "seen_run_ids seen' = rev (map (\<lambda>p. str_value (field (snd p) ''run_id'')) pairs) @ seen_run_ids seen"
    using assms by (induction pairs arbitrary: seen) (auto simp: bindE_eq_Inr dest!: step)
  show "distinct (seen_run_ids seen) \<longrightarrow> distinct (seen_run_ids seen')"
    using assms by (induction pairs arbitrary: seen) (fastforce simp: bindE_eq_Inr dest!: step)+
  show "\<forall>p \<in> set pairs. \<exists>expected. map_of grounding (fst (fst p)) = Some expected \<and>
      grounded_row suite_id provider model expected (snd p) = Inr True"
    using assms by (induction pairs arbitrary: seen) (auto simp: bindE_eq_Inr dest!: step)
qed

lemma release_contract_Inr:
  assumes "validate_release_contract label suite_id tids trials provider model grounding rows = Inr c"
  shows "\<exists>ks. mapE row_key rows = Inr ks \<and> distinct ks \<and> set ks = set (expected_pairs tids trials)"
    and "distinct (map (\<lambda>r. str_value (field r ''run_id'')) rows)"
    and "\<exists>config revision. field c ''harness_config_id'' = JStr config \<and> field c ''harness_revision'' = JStr revision \<and>
      (\<forall>r \<in> set rows. same_release suite_id provider model grounding config revision r)"
proof -
  obtain pairs seen where p: "pair_map rows = Inr pairs" "set (keys pairs) = set (expected_pairs tids trials)"
    and f: "foldE (release_row label suite_id provider model grounding) pairs
      \<lparr>seen_run_ids = [], seen_config_ids = [], seen_revisions = [], seen_harnesses = []\<rparr> = Inr seen"
    and single: "single (seen_config_ids seen)" "single (seen_revisions seen)"
    and c: "field c ''harness_config_id'' = JStr (hd (seen_config_ids seen))"
      "field c ''harness_revision'' = JStr (hd (seen_revisions seen))"
    using assms unfolding validate_release_contract_def
    by (auto simp: bindE_eq_Inr check_simps dict_get_none_def simp del: set_map)
  note pm = pair_map_Inr [OF p(1)]
  note rr = release_rows_Inr [OF f]
  have ks: "mapE row_key rows = Inr (keys pairs)"
  proof -
    have "mapE row_key (map snd ps) = Inr (keys ps)" if "\<forall>(k, r) \<in> set ps. row_key r = Inr k" for ps
      using that by (induction ps) (auto simp del: row_key.simps)
    from this [OF pm(3)] show ?thesis by (simp add: pm(1))
  qed
  then show "\<exists>ks. mapE row_key rows = Inr ks \<and> distinct ks \<and> set ks = set (expected_pairs tids trials)"
    using pm(2) p(2) by blast
  have "seen_run_ids seen = rev (map (\<lambda>p. str_value (field (snd p) ''run_id'')) pairs)" using rr(3) by simp
  moreover have "distinct (seen_run_ids seen)" using rr(4) by (simp only: release_seen.simps distinct.simps simp_thms)
  moreover have "map (\<lambda>r. str_value (field r ''run_id'')) rows = map (\<lambda>p. str_value (field (snd p) ''run_id'')) pairs"
    by (simp flip: pm(1))
  ultimately show "distinct (map (\<lambda>r. str_value (field r ''run_id'')) rows)" by (metis distinct_rev)
  have configs: "set (seen_config_ids seen) = (\<lambda>r. harness_text r ''config_id'') ` set rows"
    "set (seen_revisions seen) = (\<lambda>r. harness_text r ''revision'') ` set rows"
    using rr(1,2) by (simp_all add: image_image flip: pm(1))
  have "hd (seen_config_ids seen) \<in> set (seen_config_ids seen)" "hd (seen_revisions seen) \<in> set (seen_revisions seen)"
    using single by (auto simp: single_iff intro!: hd_in_set simp flip: set_empty)
  then have hds: "set (seen_config_ids seen) = {hd (seen_config_ids seen)}" "set (seen_revisions seen) = {hd (seen_revisions seen)}"
    using single by (auto simp: single_iff)
  have "same_release suite_id provider model grounding (hd (seen_config_ids seen)) (hd (seen_revisions seen)) r"
    if "r \<in> set rows" for r
  proof -
    have "r \<in> set (map snd pairs)" using that by (simp only: pm(1))
    then obtain tid trial where "((tid, trial), r) \<in> set pairs" by auto
    moreover from this have "row_key r = Inr (tid, trial)" using pm(3) by blast
    moreover have "harness_text r ''config_id'' = hd (seen_config_ids seen)"
      "harness_text r ''revision'' = hd (seen_revisions seen)"
      using that configs hds by blast+
    ultimately show ?thesis using rr(5) unfolding same_release_def by fastforce
  qed
  with c show "\<exists>config revision. field c ''harness_config_id'' = JStr config \<and> field c ''harness_revision'' = JStr revision \<and>
      (\<forall>r \<in> set rows. same_release suite_id provider model grounding config revision r)" by blast
qed

end
