(* ===== verification/Promotion.thy ===== *)
theory Promotion
  imports Release_Contract Rollout_File
begin

text \<open>
  \<open>scripts/eval/promotion.py\<close>: the evidence of a calibration, read again from its three
  checkpoints, the receipt that is derived from it, and the check that lets a confirmatory
  experiment start. The files are read at three moments (hashed, loaded, hashed again), so the
  evidence is what each moment observes; validation of an experiment takes the recursion depth.
\<close>

definition max_checkpoint_bytes :: nat where
  "max_checkpoint_bytes = 64 * 1024 * 1024"

record evidence =
  ev_arms :: "string list"
  ev_before :: "string \<Rightarrow> inode option"
  ev_text :: "string \<Rightarrow> string option"
  ev_after :: "string \<Rightarrow> inode option"

definition calibration_checkpoint_paths :: "inode option \<Rightarrow> (string \<times> string) list result" where
  \<comment> \<open>what \<open>lstat\<close> says of the directory; the names are below it\<close>
  "calibration_checkpoint_paths directory =
    (case directory of
       None \<Rightarrow> fail ''calibration directory'' ''cannot inspect''
     | Some d \<Rightarrow>
         if f_kind d \<noteq> Directory then fail ''calibration evidence path'' ''must be a real directory''
         else Inr (map (\<lambda>arm. (arm, arm @ ''.jsonl'')) arm_ids))"

definition sha256_regular_file :: "inode option \<Rightarrow> string result" where
  "sha256_regular_file entry =
    (case entry of
       None \<Rightarrow> fail ''calibration checkpoint'' ''cannot hash''
     | Some f \<Rightarrow>
         if f_kind f \<noteq> Regular \<or> max_checkpoint_bytes < length (f_data f) \<or> \<not> f_opens f
         then fail ''calibration checkpoint'' ''cannot hash''
         else Inr (sha256_hex (f_data f)))"

definition load_rollouts :: "string option \<Rightarrow> string \<Rightarrow> json_object list result" where
  "load_rollouts text w =
    (case text of
       None \<Rightarrow> fail w ''cannot read rollout JSONL''
     | Some s \<Rightarrow> if \<not> utf8_valid s then Inl (Value_Error ''invalid UTF-8'') else parse_rollouts s w)"

section \<open>The evidence\<close>

definition scored :: "json_object \<Rightarrow> bool result" where
  \<comment> \<open>\<open>rollout["judgement"]["valid_for_scoring"]\<close>\<close>
  "scored r = bindE (json_at r [''judgement'', ''valid_for_scoring'']) (\<lambda>v. Inr (truthy v))"

definition task_groundings :: "('a host_scheme) \<Rightarrow> json_object \<Rightarrow> (string \<times> json_object) list result" where
  \<comment> \<open>\<open>{task["id"]: grounding_fingerprints(task, repo_root)}\<close>; ids are strings in a validated suite\<close>
  "task_groundings h suite =
    foldE (\<lambda>v acc.
      case v of
        JObj task \<Rightarrow>
          bindE (text_at task [''id'']) (\<lambda>tid.
          bindE (grounding_fingerprints h task) (\<lambda>g. Inr (AList.update tid g acc)))
      | _ \<Rightarrow> Inl (Type_Error ''task'')) (suite_tasks suite) []"

definition artifact_parts :: "string \<Rightarrow> string \<Rightarrow> string list" where
  "artifact_parts prefix config_id =
    split_at_char (CHR '':'') (if is_prefix prefix config_id then drop (length prefix) config_id else [])"

definition artifact_hashes :: "string \<Rightarrow> string \<Rightarrow> string \<Rightarrow> string list result" where
  "artifact_hashes arm prefix config_id =
    (let parts = artifact_parts prefix config_id
     in if length parts \<noteq> 3 \<or> \<not> is_prefix ''mc-'' (parts ! 0) \<or> \<not> is_prefix ''kg-'' (parts ! 1) \<or>
           \<not> is_prefix ''fk-'' (parts ! 2)
        then fail arm ''harness config is not bound to all experiment artifacts''
        else if list_ex (\<lambda>s. \<not> hex_str 64 s) (map (drop 3) parts)
        then fail arm ''harness config contains an invalid artifact digest''
        else Inr (map (drop 3) parts))"

definition fixed_budget_row :: "string \<Rightarrow> double \<times> int \<Rightarrow> json_object \<Rightarrow> unit result" where
  "fixed_budget_row arm cap r =
    bindE (harness_of r ''runtime_budget'') (\<lambda>b.
    bindE (raise_if (\<not> py_eq b (runtime_budget_json cap)) arm
      ''checkpoint runtime budget is not the frozen per-rollout contract'') (\<lambda>_.
    bindE (missing_metrics [r] (''cost_usd'' # token_metrics)) (\<lambda>missing.
    bindE (raise_if missing arm ''checkpoint is missing fixed-budget telemetry'') (\<lambda>_.
    bindE (mapE (\<lambda>k. bindE (metric_of r k) py_int) token_metrics) (\<lambda>tokens.
    bindE (bindE (metric_of r ''cost_usd'') py_float) (\<lambda>cost.
    raise_if (\<not> finite_double cost \<or> d_less (fst cap) cost \<or> snd cap < sum_list tokens) arm
      ''checkpoint exceeded its frozen per-rollout budget''))))))"

text \<open>What the loop over the arms collects: the contracts and the identities observed.\<close>

record arms_seen =
  seen_contracts :: json_object
  seen_hashes :: "string list list"
  seen_harness_revisions :: "string list"

definition arm_evidence ::
  "json_object \<Rightarrow> json_object \<Rightarrow> double \<times> int \<Rightarrow> (string \<times> json_object) list \<Rightarrow> string \<times> json_object list \<Rightarrow>
   arms_seen \<Rightarrow> arms_seen result" where
  "arm_evidence e suite cap grounding ar seen =
    (case ar of (arm, rows) \<Rightarrow>
      bindE (text_at suite [''suite_id'']) (\<lambda>suite_id.
      bindE (json_at e [''trials'']) (\<lambda>v.
      bindE (json_at e [''model'', ''provider'']) (\<lambda>provider.
      bindE (json_at e [''model'', ''id'']) (\<lambda>model.
      case int_value v of
        None \<Rightarrow> Inl (Type_Error ''trials'')
      | Some trials \<Rightarrow>
          bindE (validate_release_contract arm suite_id (sort (keys grounding)) trials provider model grounding rows) (\<lambda>contract.
          bindE (text_at e [''experiment_id'']) (\<lambda>experiment.
          bindE (artifact_hashes arm (experiment @ '':'' @ arm @ '':'' @ experiment_fingerprint e suite @ '':'')
            (str_value (field contract ''harness_config_id''))) (\<lambda>hashes.
          bindE (forE (fixed_budget_row arm cap) rows) (\<lambda>_.
          Inr \<lparr>seen_contracts = AList.update arm (JObj contract) (seen_contracts seen),
               seen_hashes = hashes # seen_hashes seen,
               seen_harness_revisions = str_value (field contract ''harness_revision'') # seen_harness_revisions seen\<rparr>))))))))) "

record multi_arm_evidence =
  me_fingerprint :: string
  me_identity :: execution_identity
  me_contracts :: json_object
  me_rollouts :: collected
  me_sha256 :: "(string \<times> string) list"

definition hash_evidence :: "(string \<Rightarrow> inode option) \<Rightarrow> (string \<times> string) list result" where
  "hash_evidence files = mapE (\<lambda>arm. bindE (sha256_regular_file (files arm)) (\<lambda>s. Inr (arm, s))) arm_ids"

definition validate_multi_arm_evidence ::
  "nat \<Rightarrow> ('a host_scheme) \<Rightarrow> (string \<Rightarrow> attestation) \<Rightarrow> json_object \<Rightarrow> json_object \<Rightarrow> evidence \<Rightarrow>
   multi_arm_evidence result" where
  \<comment> \<open>the attestation depends on the TinyKG digest it is to find\<close>
  "validate_multi_arm_evidence n h attest e suite ev =
    bindE (validate_experiment n (experiment_files.truncate h) e suite) (\<lambda>_.
    bindE (raise_if (set (ev_arms ev) \<noteq> set arm_ids) ''multi-arm evidence'' ''must provide exactly three checkpoints'') (\<lambda>_.
    bindE (hash_evidence (ev_before ev)) (\<lambda>before.
    bindE (mapE (\<lambda>arm. bindE (load_rollouts (ev_text ev arm) arm) (\<lambda>rows. Inr (arm, rows))) arm_ids) (\<lambda>rollouts.
    bindE (mapE scored (all_rows rollouts)) (\<lambda>valid.
    bindE (raise_if (False \<in> set valid) ''multi-arm stage'' ''rejects invalid rollouts per abort policy'') (\<lambda>_.
    bindE (task_groundings h suite) (\<lambda>grounding.
    bindE (bindE (json_at e [''budget'']) (\<lambda>v. case v of JObj b \<Rightarrow> fixed_rollout_budget b True
      | _ \<Rightarrow> Inl (Type_Error ''budget''))) (\<lambda>fixed.
    case fixed of
      None \<Rightarrow> Inl Assertion_Error
    | Some cap \<Rightarrow>
        bindE (foldE (arm_evidence e suite cap grounding) rollouts
          \<lparr>seen_contracts = [], seen_hashes = [], seen_harness_revisions = []\<rparr>) (\<lambda>seen.
        bindE (raise_if (\<not> single (map (\<lambda>s. s ! 0) (seen_hashes seen))) ''multi-arm evidence''
          ''mixes metacodes binary identities'') (\<lambda>_.
        bindE (raise_if (\<not> single (map (\<lambda>s. s ! 1) (seen_hashes seen))) ''multi-arm evidence''
          ''mixes TinyKG dependency identities'') (\<lambda>_.
        bindE (raise_if (\<not> single (map (\<lambda>s. s ! 2) (seen_hashes seen))) ''multi-arm evidence''
          ''mixes formal kernel artifact identities'') (\<lambda>_.
        bindE (raise_if (\<not> single (seen_harness_revisions seen)) ''multi-arm evidence'' ''mixes metacodes revisions'') (\<lambda>_.
        let hashes = hd (seen_hashes seen)
        in bindE (forE (\<lambda>(arm, rows). forE (\<lambda>r. reverify_treatment_activation (attest (hashes ! 1)) r arm) rows) rollouts) (\<lambda>_.
           bindE (hash_evidence (ev_after ev)) (\<lambda>after.
           bindE (raise_if (before \<noteq> after) ''multi-arm checkpoints'' ''changed while being validated'') (\<lambda>_.
           Inr \<lparr>me_fingerprint = experiment_fingerprint e suite,
                me_identity = \<lparr>metacodes_sha256 = hashes ! 0, tinykg_sha256 = hashes ! 1,
                  formal_kernel_fingerprint = hashes ! 2, harness_revision = hd (seen_harness_revisions seen)\<rparr>,
                me_contracts = seen_contracts seen, me_rollouts = rollouts, me_sha256 = after\<rparr>))))))))))))))))"

section \<open>The receipt\<close>

definition counts_of :: "json_object list \<Rightarrow> string list \<Rightarrow> nat result" where
  \<comment> \<open>the rows with none of these metrics absent or null\<close>
  "counts_of rows ks =
    bindE (mapE (\<lambda>r. bindE (json_at r [''metrics'']) (\<lambda>m. bindE (mapE (get_of m) ks) (\<lambda>vs. Inr (JNull \<notin> set vs)))) rows) (\<lambda>oks.
    Inr (length (filter id oks)))"

definition receipt_of ::
  "json_object \<Rightarrow> multi_arm_evidence \<Rightarrow> json \<Rightarrow> nat \<Rightarrow> nat \<times> nat \<Rightarrow> double \<times> int \<Rightarrow> json_object result" where
  "receipt_of e m required valid telemetry usage =
    bindE (json_at e [''program_id'']) (\<lambda>program.
    bindE (json_at e [''experiment_id'']) (\<lambda>experiment.
    bindE (json_at e [''budget'', ''max_stage_cost_usd'']) (\<lambda>stage_cost.
    bindE (json_at e [''budget'', ''max_stage_tokens'']) (\<lambda>stage_tokens.
    Inr [(''schema_version'', JInt 2), (''program_id'', program), (''source_experiment_id'', experiment),
      (''source_experiment_fingerprint'', JStr (me_fingerprint m)), (''stage'', JStr ''calibration''), (''eligible'', JBool True),
      (''gate'', JObj [(''required_valid_rollouts'', required), (''valid_rollouts'', JInt (int valid)),
        (''invalid_rollouts'', JInt 0), (''complete_schedule'', JBool True),
        (''cost_telemetry_rollouts'', JInt (int (fst telemetry))), (''token_telemetry_rollouts'', JInt (int (snd telemetry)))]),
      (''usage'', JObj [(''cost_usd'', double_json (fst usage)), (''tokens'', JInt (snd usage))]),
      (''source_budget'', JObj [(''max_stage_cost_usd'', stage_cost), (''max_stage_tokens'', stage_tokens)]),
      (''identity'', identity_object (me_identity m)),
      (''checkpoint_sha256'', JObj (map (apsnd JStr) (me_sha256 m)))]))))"

definition usage_denied :: "json_object \<Rightarrow> double \<Rightarrow> int \<Rightarrow> bool result" where
  \<comment> \<open>the usage is not finite or reached a cap of the stage; the caps are read one after the other\<close>
  "usage_denied e cost tokens =
    (if \<not> finite_double cost then Inr True
     else bindE (bindE (json_at e [''budget'', ''max_stage_cost_usd'']) py_float) (\<lambda>cost_cap.
       if d_less_eq cost_cap cost then Inr True
       else bindE (bindE (json_at e [''budget'', ''max_stage_tokens'']) py_int) (\<lambda>token_cap. Inr (token_cap \<le> tokens))))"

definition build_promotion_receipt ::
  "bool \<Rightarrow> nat \<Rightarrow> ('a host_scheme) \<Rightarrow> (string \<Rightarrow> attestation) \<Rightarrow> json_object \<Rightarrow> json_object \<Rightarrow> evidence \<Rightarrow> json_object result" where
  "build_promotion_receipt fl n h attest e suite ev =
    bindE (get_of (get_default e ''stage'' (JObj [])) ''id'') (\<lambda>stage.
    bindE (raise_if (stage \<noteq> JStr ''calibration'') ''promotion receipts'' ''can only be built from calibration'') (\<lambda>_.
    bindE (validate_multi_arm_evidence n h attest e suite ev) (\<lambda>m.
    let rows = all_rows (me_rollouts m)
    in bindE (json_at e [''promotion'', ''gate'', ''required_valid_rollouts'']) (\<lambda>required.
       bindE (counts_of rows [''cost_usd'']) (\<lambda>cost_rows.
       bindE (counts_of rows token_metrics) (\<lambda>token_rows.
       bindE (raise_if (list_ex (\<lambda>k. \<not> py_eq (JInt (int k)) required) [length rows, cost_rows, token_rows]) ''calibration promotion''
         ''requires a complete telemetry-covered schedule'') (\<lambda>_.
       bindE (usage_of metric_item py_float py_int rows) (\<lambda>(costs, tokens).
       let cost = py_sum fl costs
       in bindE (usage_denied e cost tokens) (\<lambda>denied.
          bindE (raise_if denied ''calibration usage'' ''reached its stage budget; promotion denied'') (\<lambda>_.
          receipt_of e m required (length rows) (cost_rows, token_rows) (cost, tokens)))))))))))"

definition load_source_experiment ::
  "nat \<Rightarrow> ('a host_scheme) \<Rightarrow> json_object \<Rightarrow> (json_object \<times> json_object) result" where
  "load_source_experiment n h confirmatory =
    (let files = experiment_files.truncate h
     in bindE (json_at confirmatory [''promotion'', ''source_experiment'']) (\<lambda>v.
        bindE (repository_file files v ''experiment.promotion.source_experiment'') (\<lambda>source.
        bindE (repository_file files (field source ''suite'') ''calibration experiment suite'') (\<lambda>source_suite.
        bindE (validate_experiment n files source source_suite) (\<lambda>_. Inr (source, source_suite))))))"

definition source_identity :: "json_object \<Rightarrow> json_object \<Rightarrow> json_object \<Rightarrow> bool result" where
  \<comment> \<open>the source is the one the confirmatory contract froze\<close>
  "source_identity source source_suite confirmatory =
    bindE (json_at source [''program_id'']) (\<lambda>p. bindE (json_at confirmatory [''program_id'']) (\<lambda>q.
    bindE (json_at source [''experiment_id'']) (\<lambda>s. bindE (json_at confirmatory [''promotion'', ''source_experiment_id'']) (\<lambda>t.
    bindE (json_at confirmatory [''promotion'', ''source_experiment_fingerprint'']) (\<lambda>u.
    Inr (py_eq p q \<and> py_eq s t \<and> py_eq (JStr (experiment_fingerprint source source_suite)) u))))))"

definition validate_calibration_bundle ::
  "bool \<Rightarrow> nat \<Rightarrow> ('a host_scheme) \<Rightarrow> (string \<Rightarrow> attestation) \<Rightarrow> json_object \<Rightarrow> json_object \<Rightarrow> evidence \<Rightarrow> execution_identity \<Rightarrow>
   (double \<times> int) result" where
  "validate_calibration_bundle fl n h attest receipt confirmatory ev x =
    bindE (load_source_experiment n h confirmatory) (\<lambda>(source, source_suite).
    bindE (source_identity source source_suite confirmatory) (\<lambda>same.
    bindE (raise_if (\<not> same) ''calibration source manifest'' ''does not match the frozen confirmatory contract'') (\<lambda>_.
    bindE (build_promotion_receipt fl n h attest source source_suite ev) (\<lambda>expected.
    bindE (raise_if (\<not> py_eq (JObj receipt) (JObj expected)) ''promotion receipt''
      ''does not match authoritative calibration checkpoints'') (\<lambda>_.
    validate_promotion_receipt receipt confirmatory x (experiment_fingerprint source source_suite))))))"

end
