(* ===== verification/Runner_Process.thy ===== *)
theory Runner_Process
  imports Runner_Budget
begin

text \<open>
  The child process of a rollout: \<open>_run_once\<close> of \<open>scripts/eval/paired_runner.py\<close>, its environment
  and what its end means. What the process sees of the host (its environment, the interpreter, the
  pipe, the run directories before and after, the exit code) is the record \<open>process\<close>.
\<close>

section \<open>The environment a child may see\<close>

definition runtime_env_allowlist :: "string list" where
  "runtime_env_allowlist = [''METACODES_LONG_HORIZON_ARM'', ''METACODES_FORCE_COMPACT_AT'', ''METACODES_FORCE_COMPACT_KEEP'',
     ''METACODES_MAX_TURNS'', ''METACODES_KG_BIN'', ''METACODES_KG_TRANSPORT'', ''METACODES_FORMAL_KERNEL_PATH'',
     ''METACODES_FORMAL_KERNEL_SHA256'', ''METACODES_PLUGIN_RUNTIME_BINARY'']"

definition host_injection_env_keys :: "string list" where
  "host_injection_env_keys = [''BASH_ENV'', ''ENV'', ''SHELLOPTS'', ''BASHOPTS'', ''CDPATH'', ''GLOBIGNORE'', ''PERL5OPT'',
     ''PERL5LIB'', ''NODE_OPTIONS'', ''RUBYOPT'']"

definition host_injection_env_prefixes :: "string list" where
  "host_injection_env_prefixes = [''BASH_FUNC_'', ''DYLD_'', ''LD_'', ''PYTHON'']"

type_synonym environ = "(string \<times> string) list"

definition hermetic_env :: "environ \<Rightarrow> environ" where
  "hermetic_env base = filter (\<lambda>(k, v). k \<notin> set host_injection_env_keys \<and>
     \<not> list_ex (\<lambda>p. is_prefix p k) host_injection_env_prefixes) base"

definition treatment_prefixes :: "string list" where
  "treatment_prefixes = [''METACODES_'', ''METASK_'', ''TINYKG_'', ''E2E_'', ''CLAUDE_CODE_'']"

definition runner_env :: "environ \<Rightarrow> environ" where
  "runner_env environ = hermetic_env (filter (\<lambda>(k, v). \<not> list_ex (\<lambda>p. is_prefix p k) treatment_prefixes \<and> k \<noteq> ''RG_BIN'') environ)"

definition env_update :: "environ \<Rightarrow> environ \<Rightarrow> environ" where
  \<comment> \<open>\<open>env.update(kvs)\<close>\<close>
  "env_update kvs env = fold (\<lambda>(k, v). AList.update k v) kvs env"

definition shell_quote :: "string \<Rightarrow> string" where
  "shell_quote s = [CHR 0x27] @ concat (map (\<lambda>c. if c = CHR 0x27 then [CHR 0x27, backslash, CHR 0x27, CHR 0x27] else [c]) s) @ [CHR 0x27]"

definition launcher_text :: "string \<Rightarrow> string" where
  "launcher_text executable = ''#!/bin/sh'' @ [newline] @ ''exec '' @ shell_quote executable @ '' '' @ [dquote] @ ''$@'' @ [dquote, newline]"

section \<open>A double with 17 digits\<close>

fun strip_zeros :: "string \<Rightarrow> string" where
  \<comment> \<open>on reversed digits\<close>
  "strip_zeros (c # s) = (if c = CHR ''0'' then strip_zeros s else c # s)"
| "strip_zeros [] = []"

definition trimmed :: "string \<Rightarrow> string" where
  "trimmed s = rev (strip_zeros (rev s))"

definition fraction :: "string \<Rightarrow> string" where
  "fraction s = (let t = trimmed s in if t = [] then [] else ''.'' @ t)"

definition exponent_text :: "int \<Rightarrow> string" where
  "exponent_text e = (if e < 0 then ''e-'' else ''e+'') @ (if \<bar>e\<bar> < 10 then ''0'' else []) @ nat_str (nat \<bar>e\<bar>)"

definition general_17 :: "rat \<Rightarrow> string" where
  \<comment> \<open>\<open>format(x, ".17g")\<close> of a positive number\<close>
  "general_17 x =
    (let e0 = ten_exponent x; m0 = round_even (x / 10 powi (e0 - 16));
         (m, e) = (if m0 = 10 ^ 17 then (10 ^ 16, e0 + 1) else (m0, e0)); ds = nat_str (nat m)
     in if e < - 4 \<or> 17 \<le> e then [hd ds] @ fraction (tl ds) @ exponent_text e
        else if e < 0 then ''0.'' @ trimmed (replicate (nat (- e) - 1) (CHR ''0'') @ ds)
        else take (nat e + 1) ds @ fraction (drop (nat e + 1) ds))"

section \<open>The request\<close>

record run_request =
  rq_variant :: string
  rq_trial :: int
  rq_scenario :: string
  rq_provider :: string
  rq_model :: string
  rq_revision :: string
  rq_config_id :: "string option"
  rq_env :: "environ option"
  rq_allow_invalid :: bool
  rq_timeout :: "json option"
  rq_max_tokens :: "int option"
  rq_max_cost :: "double option"
  rq_api_key :: "string option"
  rq_hint :: "string option"
  rq_store :: "(string \<times> string) option"
  rq_domain :: "string option"

record process =
  pr_environ :: environ
  pr_root :: string
  pr_binary :: string
  pr_suite :: string
  pr_archives :: "(string \<times> string) list"
  pr_executable :: string
  pr_executable_ok :: bool
  pr_shim :: "string option"
  pr_pipe_buf :: nat
  pr_pipe_wrote :: nat
  pr_before :: "string list"
  pr_after :: "string list"
  pr_code :: "int result"

definition check_runtime_env :: "environ \<Rightarrow> unit result" where
  "check_runtime_env env =
    bindE (raise_if (\<not> set (keys env) \<subseteq> set runtime_env_allowlist) ''runtime environment'' ''contains forbidden keys'') (\<lambda>_.
    raise_if ([] \<in> set (map snd env)) ''runtime environment'' ''values must be non-empty strings'')"

definition task_hint_ok :: "string \<Rightarrow> bool" where
  "task_hint_ok s \<longleftrightarrow> s \<noteq> [] \<and> str_len s \<le> 200 \<and> list_all (\<lambda>c. 0x21 \<le> char_code c \<and> char_code c \<le> 0x7E) s"

definition ascii_alnum :: "char \<Rightarrow> bool" where
  "ascii_alnum c \<longleftrightarrow> is_digit c \<or> (0x41 \<le> char_code c \<and> char_code c \<le> 0x5A) \<or> (0x61 \<le> char_code c \<and> char_code c \<le> 0x7A)"

definition kg_domain_ok :: "string \<Rightarrow> bool" where
  "kg_domain_ok s \<longleftrightarrow> 1 \<le> str_len s \<and> str_len s \<le> 128 \<and> list_all (\<lambda>c. ascii_alnum c \<or> c \<in> {CHR ''-'', CHR ''_'', CHR ''.''}) s"

definition run_once_checks :: "run_request \<Rightarrow> process \<Rightarrow> unit result" where
  \<comment> \<open>everything that is refused before a child exists, up to the credential\<close>
  "run_once_checks rq p = seqE
    [case rq_env rq of None \<Rightarrow> Inr () | Some env \<Rightarrow> check_runtime_env env,
     raise_if (case rq_timeout rq of None \<Rightarrow> False | Some v \<Rightarrow> \<not> (case v of JInt i \<Rightarrow> 0 < i | _ \<Rightarrow> False))
       ''E2E'' ''timeout must be an integer > 0'',
     raise_if ((rq_max_tokens rq = None) \<noteq> (rq_max_cost rq = None)) ''runtime budget'' ''requires both token and cost caps'',
     raise_if (case rq_max_tokens rq of None \<Rightarrow> False | Some n \<Rightarrow> n \<le> 0) ''runtime'' ''max metered tokens must be an integer > 0'',
     raise_if (case rq_max_cost rq of None \<Rightarrow> False | Some c \<Rightarrow> \<not> finite_double c \<or> d_less_eq c (Fin 0))
       ''runtime'' ''max cost must be finite and > 0'',
     raise_if (case rq_hint rq of None \<Rightarrow> False | Some s \<Rightarrow> \<not> task_hint_ok s) ''task hint'' ''must be 1-200 printable ASCII bytes without spaces'',
     raise_if (case rq_store rq of None \<Rightarrow> False | Some a \<Rightarrow> map_of (pr_archives p) (fst a) = None \<or> str_len (snd a) \<noteq> 64)
       ''store import'' ''requires an existing archive and its sha256'',
     raise_if (case rq_domain rq of None \<Rightarrow> False | Some s \<Rightarrow> \<not> kg_domain_ok s) ''TinyKG domain'' ''must be 1-128 bytes of [A-Za-z0-9._-]'',
     raise_if (case rq_api_key rq of None \<Rightarrow> False | Some k \<Rightarrow> k = [] \<or> 16 * 1024 < length k)
       ''multi-arm provider credential'' ''must contain 1-16384 UTF-8 bytes'',
     raise_if (case rq_api_key rq of None \<Rightarrow> False | Some k \<Rightarrow> pr_pipe_buf p < length k)
       ''multi-arm provider credential'' ''exceeds atomic pipe limit'',
     raise_if (case rq_api_key rq of None \<Rightarrow> False | Some k \<Rightarrow> pr_pipe_wrote p \<noteq> length k)
       ''multi-arm provider credential'' ''pipe write was short'']"

definition optional :: "string \<Rightarrow> ('a \<Rightarrow> string) \<Rightarrow> 'a option \<Rightarrow> environ" where
  "optional k f x = (case x of None \<Rightarrow> [] | Some v \<Rightarrow> [(k, f v)])"

definition requested_env :: "run_request \<Rightarrow> process \<Rightarrow> environ" where
  \<comment> \<open>what the runner puts into the environment, in order; the number of the descriptor is left out\<close>
  "requested_env rq p =
    [(''E2E_BIN_PATH'', pr_binary p), (''E2E_KEEP'', ''all''), (''E2E_TRIAL'', int_str (rq_trial rq)),
     (''E2E_RUN_LABEL'', ''evaluation''),
     (''E2E_HARNESS_CONFIG_ID'', case rq_config_id rq of Some s \<Rightarrow> if s = [] then rq_variant rq else s | None \<Rightarrow> rq_variant rq),
     (''E2E_MODEL_PROVIDER'', rq_provider rq), (''E2E_MODEL'', rq_model rq), (''E2E_EVAL_SUITE'', pr_suite p),
     (''E2E_HARNESS_REVISION'', rq_revision rq)]
    @ (case rq_env rq of None \<Rightarrow> [] | Some env \<Rightarrow> env)
    @ optional ''METACODES_TASK_HINT'' id (rq_hint rq)
    @ (case rq_store rq of None \<Rightarrow> [] | Some (archive, sha) \<Rightarrow>
        [(''E2E_KG_STORE_IMPORT'', case map_of (pr_archives p) archive of Some q \<Rightarrow> q | None \<Rightarrow> archive),
         (''E2E_KG_STORE_IMPORT_SHA256'', sha)])
    @ optional ''METACODES_KG_DOMAIN'' id (rq_domain rq)
    @ optional ''E2E_TIMEOUT'' py_str (rq_timeout rq)
    @ optional ''E2E_MAX_METERED_TOKENS'' int_str (rq_max_tokens rq)
    @ optional ''E2E_MAX_COST_USD'' (\<lambda>c. case c of Fin x \<Rightarrow> general_17 x | _ \<Rightarrow> []) (rq_max_cost rq)
    @ optional ''E2E_API_KEY_FD'' (\<lambda>_. []) (rq_api_key rq)"

definition interpreter_shim :: "process \<Rightarrow> environ \<Rightarrow> environ result" where
  "interpreter_shim p env =
    (if pr_executable p = [] \<or> hd (pr_executable p) \<noteq> CHR ''/'' \<or> \<not> pr_executable_ok p
     then fail ''harness interpreter'' ''sys.executable is not an absolute executable''
     else case pr_shim p of
       None \<Rightarrow> fail ''harness interpreter'' ''cannot pin''
     | Some shim \<Rightarrow> Inr (AList.update ''PATH''
         (shim @ '':'' @ (case map_of env ''PATH'' of Some v \<Rightarrow> v | None \<Rightarrow> [])) env))"

definition run_child :: "run_request \<Rightarrow> process \<Rightarrow> (string list \<times> environ) result" where
  \<comment> \<open>the arguments and the environment of \<open>subprocess.run\<close>\<close>
  "run_child rq p =
    bindE (run_once_checks rq p) (\<lambda>_.
    bindE (interpreter_shim p (env_update (requested_env rq p) (runner_env (pr_environ p)))) (\<lambda>env.
    Inr ([pr_root p @ ''/tests/e2e/run_e2e.sh'', rq_scenario rq], env)))"

datatype run_end = Run_Done string | Run_Infrastructure string int

definition run_ended :: "run_request \<Rightarrow> process \<Rightarrow> run_end result" where
  \<comment> \<open>exit 2 is a scored rollout that failed\<close>
  "run_ended rq p =
    bindE (pr_code p) (\<lambda>code.
    let created = sort (filter (\<lambda>d. d \<notin> set (pr_before p)) (remdups (pr_after p)))
    in if code \<notin> {0, 2}
       then (if rq_allow_invalid rq \<and> length created = 1 then Inr (Run_Infrastructure (hd created) code)
             else fail (rq_variant rq) ''E2E runner exited; expected one evidence directory'')
       else if length created \<noteq> 1 then fail (rq_variant rq) ''expected one new run directory''
       else Inr (Run_Done (hd created)))"

definition run_once :: "run_request \<Rightarrow> process \<Rightarrow> run_end result" where
  "run_once rq p = bindE (run_child rq p) (\<lambda>_. run_ended rq p)"

section \<open>What the child sees\<close>

lemma set_keys_update: "set (keys (AList.update k v env)) = insert k (set (keys env))"
  by (induction env) auto

lemma env_update_keys: "set (keys (env_update kvs env)) = set (keys kvs) \<union> set (keys env)"
proof (induction kvs arbitrary: env)
  case (Cons kv kvs)
  have "env_update (kv # kvs) env = env_update kvs (AList.update (fst kv) (snd kv) env)"
    by (simp add: env_update_def case_prod_beta)
  then show ?case unfolding Cons.IH set_keys_update by (simp only: Cons.IH set_keys_update) auto
qed (simp add: env_update_def)

lemma interpreter_shim_keys:
  assumes "interpreter_shim p env = Inr env'"
  shows "set (keys env') = insert ''PATH'' (set (keys env))"
proof -
  from assms obtain v where "env' = AList.update ''PATH'' v env"
    by (auto simp: interpreter_shim_def split: if_splits option.splits)
  then show ?thesis by (simp only: set_keys_update)
qed

lemma run_child_keys:
  assumes "run_child rq p = Inr (argv, child)"
  shows "set (keys child) = insert ''PATH'' (set (keys (requested_env rq p)) \<union> set (keys (runner_env (pr_environ p))))"
    and "rq_env rq = Some env \<Longrightarrow> set (keys env) \<subseteq> set runtime_env_allowlist"
proof -
  from assms have c: "run_once_checks rq p = Inr ()"
    and i: "interpreter_shim p (env_update (requested_env rq p) (runner_env (pr_environ p))) = Inr child"
    by (auto simp: run_child_def bindE_eq_Inr)
  show "set (keys child) = insert ''PATH'' (set (keys (requested_env rq p)) \<union> set (keys (runner_env (pr_environ p))))"
    using interpreter_shim_keys [OF i] by (simp only: env_update_keys)
  show "set (keys env) \<subseteq> set runtime_env_allowlist" if "rq_env rq = Some env"
    using c that by (simp add: run_once_checks_def check_runtime_env_def check_simps seq_checks bindE_eq_Inr del: set_map)
qed

lemma runner_env_keys:
  assumes "k \<in> set (keys (runner_env environ))"
  shows "\<not> list_ex (\<lambda>p. is_prefix p k) treatment_prefixes" and "k \<noteq> ''RG_BIN''" and "k \<notin> set host_injection_env_keys"
    and "\<not> list_ex (\<lambda>p. is_prefix p k) host_injection_env_prefixes"
  using assms by (auto simp: runner_env_def hermetic_env_def)

end
