(* ===== verification/Runner_Loop.thy ===== *)
theory Runner_Loop
  imports Promotion Runner_Process Budget_Session
begin

text \<open>
  \<open>run_multi_arm\<close> of \<open>scripts/eval/paired_runner.py\<close>, from the checks of its arguments to the last
  slot of the schedule, over the state it works on: the budget journal with the directory it lives in,
  the checkpoint file of each arm, and what was collected. Everything a slot observes of the outside
  (the binaries, the child process, the imported evidence, the attestation, failing writes, the fault
  hook) is an \<open>attempt\<close>. The last three fields of \<open>runner\<close> are no state of the program: they number the
  attempts and record what was asked of the journal and which provider runs were started.
\<close>

section \<open>State\<close>

record runner =
  rn_journal :: jstate
  rn_files :: "string \<Rightarrow> string option"
  rn_collected :: collected
  rn_done :: "string \<Rightarrow> (string \<times> int) list"
  rn_step :: nat
  rn_calls :: history
  rn_started :: "string list"

type_synonym 'a rop = "(runner, 'a) op"

record machine =
  mc_binary :: "string option"
  mc_tinykg :: "string option"
  mc_kernel :: "json_object result"

record attempt =
  at_before :: machine
  at_reserved :: machine
  at_returned :: machine
  at_tick :: "nat \<Rightarrow> world \<Rightarrow> world"
  at_faults :: "string list"
  at_process :: process
  at_import :: "string \<Rightarrow> json_object list result"
  at_host :: host
  at_attest :: attestation
  at_write :: "py_error option"

record admission =
  ad_host :: host
  ad_binary :: "string option"
  ad_attest :: attestation
  ad_api_key :: "string result"
  ad_mkdir :: "unit result"
  ad_tick :: "world \<Rightarrow> world"

definition locked_tick :: "(world \<Rightarrow> world) \<Rightarrow> jstate \<Rightarrow> jstate" where
  \<comment> \<open>the world moves on, but while the lock is held nobody else writes the journal\<close>
  "locked_tick tick s = (fst s, (tick (snd s))\<lparr>journal_file := journal_file (snd s)\<rparr>)"

definition on_journal :: "(world \<Rightarrow> world) \<Rightarrow> 'a jop \<Rightarrow> 'a rop" where
  "on_journal tick m r =
    (case m (locked_tick tick (rn_journal r)) of (q, s) \<Rightarrow> (q, r\<lparr>rn_journal := s\<rparr>))"

definition journal_call :: "(world \<Rightarrow> world) \<Rightarrow> call \<Rightarrow> receipt rop" where
  "journal_call tick c r =
    (case run_call c (locked_tick tick (rn_journal r)) of
       (q, s) \<Rightarrow> (q, r\<lparr>rn_journal := s, rn_calls := rn_calls r @ [(c, q)]\<rparr>))"

definition fault_at :: "attempt \<Rightarrow> string \<Rightarrow> unit rop" where
  "fault_at a point = whenS (point \<in> set (at_faults a)) (Fault_Raised point)"

section \<open>The frozen executables\<close>

definition require_sha256 :: "string option \<Rightarrow> string \<Rightarrow> string \<Rightarrow> unit result" where
  "require_sha256 bytes expected label =
    (case bytes of
       None \<Rightarrow> Inl (OS_Error label)
     | Some s \<Rightarrow> raise_if (sha256_hex s \<noteq> expected) label ''changed after experiment identity was frozen'')"

definition require_formal_identity :: "json_object result \<Rightarrow> json_object \<Rightarrow> unit result" where
  "require_formal_identity observed expected =
    bindE observed (\<lambda>d. raise_if (\<not> py_eq (JObj d) (JObj expected)) ''formal kernel artifact''
      ''changed after experiment identity was frozen'')"

definition check_machine :: "run_contract \<Rightarrow> machine \<Rightarrow> unit result" where
  "check_machine c m =
    bindE (require_sha256 (mc_binary m) (metacodes_sha256 (rc_identity c)) ''metacodes binary'') (\<lambda>_.
    bindE (require_sha256 (mc_tinykg m) (tinykg_sha256 (rc_identity c)) ''TinyKG binary'') (\<lambda>_.
    require_formal_identity (mc_kernel m) (rc_kernel c)))"

section \<open>Admission of the checkpoints\<close>

definition suite_task_map :: "json_object \<Rightarrow> (string \<times> json_object) list result" where
  \<comment> \<open>\<open>{task["id"]: task for task in suite["tasks"]}\<close>; ids are strings in a validated suite\<close>
  "suite_task_map suite =
    foldE (\<lambda>v acc. case v of JObj task \<Rightarrow> bindE (text_at task [''id'']) (\<lambda>tid. Inr (AList.update tid task acc))
      | _ \<Rightarrow> Inl (Type_Error ''task'')) (suite_tasks suite) []"

definition row_contract_of ::
  "run_contract \<Rightarrow> (string \<times> json_object) list \<Rightarrow> string \<Rightarrow> string option \<Rightarrow> attestation option \<Rightarrow> row_contract result" where
  "row_contract_of c tasks arm binary attest =
    bindE (json_at (rc_experiment c) [''trials'']) (\<lambda>v.
    bindE (json_at (rc_experiment c) [''model'', ''provider'']) (\<lambda>provider.
    bindE (json_at (rc_experiment c) [''model'', ''id'']) (\<lambda>model.
    case (int_value v, map_of (rc_config_ids c) arm) of
      (Some trials, Some config_id) \<Rightarrow> Inr
        \<lparr>row_variant = arm, row_suite = rc_suite c, row_binary = binary, row_trials = trials, row_tasks = tasks,
         row_provider = provider, row_model = model, row_revision = harness_revision (rc_identity c),
         row_config_id = Some config_id, needs_runtime_budget = True, row_attest = attest\<rparr>
    | (None, _) \<Rightarrow> Inl (Type_Error ''trials'')
    | _ \<Rightarrow> Inl (Key_Error arm))))"

definition load_checkpoint :: "('a host_scheme) \<Rightarrow> row_contract \<Rightarrow> string option \<Rightarrow> json_object list result" where
  "load_checkpoint h c text =
    (case text of
       None \<Rightarrow> Inr []
     | Some s \<Rightarrow> bindE (load_rollouts (Some s) (row_variant c)) (validate_checkpoint_rows h c))"

definition load_checkpoints ::
  "run_contract \<Rightarrow> (string \<times> json_object) list \<Rightarrow> admission \<Rightarrow> (string \<Rightarrow> string option) \<Rightarrow> collected result" where
  "load_checkpoints c tasks ad files =
    mapE (\<lambda>arm.
      bindE (row_contract_of c tasks arm (ad_binary ad) (Some (ad_attest ad))) (\<lambda>rc.
      bindE (load_checkpoint (ad_host ad) rc (files arm)) (\<lambda>rows. Inr (arm, rows)))) arm_ids"

definition row_transaction ::
  "run_contract \<Rightarrow> (string \<times> json_object) list \<Rightarrow> string \<Rightarrow> environ \<Rightarrow> json_object \<Rightarrow> budget_transaction result" where
  "row_transaction c tasks arm env r =
    bindE (row_key r) (\<lambda>(tid, trial).
    case map_of tasks tid of
      None \<Rightarrow> Inl (Key_Error tid)
    | Some task \<Rightarrow> multi_arm_budget_transaction c task arm trial env (rc_cap c))"

definition check_row_receipt ::
  "run_contract \<Rightarrow> (string \<times> json_object) list \<Rightarrow> (world \<Rightarrow> world) \<Rightarrow> string \<times> environ \<Rightarrow> json_object \<Rightarrow> string list \<Rightarrow>
   string list rop" where
  "check_row_receipt c tasks tick ae r tids =
    bindS (liftS (require_runtime_budget_provenance r (rc_cap c) True)) (\<lambda>_.
    bindS (liftS (row_transaction c tasks (fst ae) (snd ae) r)) (\<lambda>i.
    bindS (on_journal tick (validate_checkpoint_budget_receipt r i)) (\<lambda>k.
    bindS (whenS (k \<in> set tids) (Validation_Error ''paid budget transaction''
      ''is attached to more than one rollout checkpoint'')) (\<lambda>_. returnS (k # tids)))))"

definition check_receipts ::
  "run_contract \<Rightarrow> (string \<times> json_object) list \<Rightarrow> (world \<Rightarrow> world) \<Rightarrow> collected \<Rightarrow> string list rop" where
  "check_receipts c tasks tick collected =
    foldS (\<lambda>(arm, rows) tids.
      bindS (liftS (arm_runtime_env (rc_experiment c) arm (rc_paths c))) (\<lambda>env.
      foldS (check_row_receipt c tasks tick (arm, env)) rows tids)) collected []"

definition budget_object :: "run_contract \<Rightarrow> json_object result" where
  "budget_object c = bindE (json_at (rc_experiment c) [''budget'']) (\<lambda>v. case v of JObj b \<Rightarrow> Inr b | _ \<Rightarrow> Inl (Type_Error ''budget''))"

definition next_cap ::
  "run_contract \<Rightarrow> string list \<Rightarrow> collected \<Rightarrow> (string \<Rightarrow> (string \<times> int) list) \<Rightarrow> (int \<times> (double \<times> int)) result" where
  \<comment> \<open>the slots left, and the cap each of them can be given\<close>
  "next_cap c tids collected completed =
    bindE (budget_object c) (\<lambda>budget.
    bindE (require_multi_budget (rc_compensated c) collected budget (rc_prior c)) (\<lambda>_.
    bindE (remaining_schedule_count (rc_experiment c) tids completed) (\<lambda>remaining.
    bindE (require_remaining_schedule_capacity (rc_compensated c) collected budget remaining (rc_prior c)) (\<lambda>cap.
    Inr (remaining, cap)))))"

definition admit_checkpoints ::
  "run_contract \<Rightarrow> (string \<times> json_object) list \<Rightarrow> admission \<Rightarrow> int rop" where
  \<comment> \<open>everything up to the first slot; the result is the number of slots that are left\<close>
  "admit_checkpoints c tasks ad =
    bindS (getS rn_files) (\<lambda>files.
    bindS (liftS (load_checkpoints c tasks ad files)) (\<lambda>collected.
    bindS (liftS (mapE (\<lambda>(arm, rows). bindE (mapE row_key rows) (\<lambda>ks. Inr (arm, ks))) collected)) (\<lambda>completed.
    bindS (check_receipts c tasks (ad_tick ad) collected) (\<lambda>tids.
    bindS (on_journal (ad_tick ad) (require_no_orphans tids)) (\<lambda>_.
    bindS (modifyS (\<lambda>r. r\<lparr>rn_collected := collected,
      rn_done := (\<lambda>arm. case map_of completed arm of Some ks \<Rightarrow> ks | None \<Rightarrow> [])\<rparr>)) (\<lambda>_.
    bindS (getS rn_done) (\<lambda>completed.
    bindS (liftS (next_cap c (keys tasks) collected completed)) (\<lambda>(remaining, cap). returnS remaining))))))))"

section \<open>One slot\<close>

text \<open>A slot is an arm with its environment, a task and a trial; \<open>sl_cap\<close> is the cap it runs under.\<close>

record slot =
  sl_arm :: string
  sl_env :: environ
  sl_tid :: string
  sl_task :: json_object
  sl_trial :: int
  sl_config :: string
  sl_cap :: "double \<times> int"

definition admit_request :: "run_contract \<Rightarrow> attempt \<Rightarrow> budget_transaction \<Rightarrow> string rop" where
  \<comment> \<open>reserve, look at the executables again, and authorize; the result is the transaction\<close>
  "admit_request c a i =
    bindS (journal_call (at_tick a 0) (Call_Reserve i)) (\<lambda>reserved.
    let k = transaction_id (rc_transaction reserved)
    in case check_machine c (at_reserved a) of
         Inl e \<Rightarrow> bindS (journal_call (at_tick a 1) (Call_Abort k)) (\<lambda>_. raiseS e)
       | Inr _ \<Rightarrow>
           bindS (journal_call (at_tick a 1)
             (Call_Authorize k (rc_journal_revision reserved) (rc_journal_head_sha256 reserved))) (\<lambda>_. returnS k))"

definition slot_request :: "run_contract \<Rightarrow> slot \<Rightarrow> string \<Rightarrow> run_request result" where
  "slot_request c sl key =
    bindE (scenario_selector [sl_tid sl]) (\<lambda>selector.
    bindE (text_at (rc_experiment c) [''model'', ''provider'']) (\<lambda>provider.
    bindE (text_at (rc_experiment c) [''model'', ''id'']) (\<lambda>model.
    bindE (json_at (sl_task sl) [''constraints'', ''timeout_seconds'']) (\<lambda>timeout.
    Inr \<lparr>rq_variant = sl_arm sl, rq_trial = sl_trial sl, rq_scenario = selector, rq_provider = provider, rq_model = model,
         rq_revision = harness_revision (rc_identity c), rq_config_id = Some (sl_config sl), rq_env = Some (sl_env sl),
         rq_allow_invalid = True, rq_timeout = (if timeout = JNull then None else Some timeout),
         rq_max_tokens = Some (snd (sl_cap sl)), rq_max_cost = Some (fst (sl_cap sl)), rq_api_key = Some key,
         rq_hint = None, rq_store = None, rq_domain = None\<rparr>))))"

definition start_run :: "run_contract \<Rightarrow> attempt \<Rightarrow> slot \<Rightarrow> string \<Rightarrow> budget_transaction \<Rightarrow> run_end rop" where
  "start_run c a sl key i =
    bindS (fault_at a ''after_request_authorized'') (\<lambda>_.
    bindS (liftS (slot_request c sl key)) (\<lambda>rq.
    bindS (liftS (run_child rq (at_process a))) (\<lambda>_.
    bindS (modifyS (\<lambda>r. r\<lparr>rn_started := rn_started r @ [run_id i]\<rparr>)) (\<lambda>_.
    bindS (liftS (run_ended rq (at_process a))) (\<lambda>end.
    bindS (fault_at a ''after_provider_return_before_commit'') (\<lambda>_.
    bindS (liftS (case end of Run_Done _ \<Rightarrow> check_machine c (at_returned a) | _ \<Rightarrow> Inr ())) (\<lambda>_.
    returnS end)))))))"

subsection \<open>The rollout of the slot\<close>

fun row_matches :: "json_object \<Rightarrow> (string \<times> json) list \<Rightarrow> bool result" where
  \<comment> \<open>\<open>r[k1] == v1 and r[k2] == v2 ...\<close>\<close>
  "row_matches r [] = Inr True"
| "row_matches r ((k, v) # kvs) =
    bindE (item_of (JObj r) k) (\<lambda>x. if py_eq x v then row_matches r kvs else Inr False)"

definition select_rows :: "(string \<times> json) list \<Rightarrow> json_object list \<Rightarrow> json_object list result" where
  "select_rows kvs rows = bindE (mapE (\<lambda>r. row_matches r kvs) rows) (\<lambda>oks. Inr (map fst (filter snd (zip rows oks))))"

definition error_text :: "py_error \<Rightarrow> string" where
  \<comment> \<open>\<open>str(exc)\<close> of a \<open>ValidationError\<close>, without the interpolated values\<close>
  "error_text e = (case e of Validation_Error w m \<Rightarrow> w @ '': '' @ m | _ \<Rightarrow> [])"

definition is_validation_error :: "py_error \<Rightarrow> bool" where
  "is_validation_error e = (case e of Validation_Error w m \<Rightarrow> True | _ \<Rightarrow> False)"

definition partial_rollout ::
  "run_contract \<Rightarrow> attempt \<Rightarrow> slot \<Rightarrow> string \<Rightarrow> json_object result" where
  \<comment> \<open>what is kept of a run the infrastructure failed\<close>
  "partial_rollout c a sl dir =
    (case at_import a dir of
       Inl e \<Rightarrow> if is_validation_error e then infrastructure_import_failure (sl_task sl) dir (error_text e) else Inl e
     | Inr imported \<Rightarrow>
         bindE (select_rows [(''task_id'', JStr (sl_tid sl))] imported) (\<lambda>selected.
         case selected of
           [r] \<Rightarrow> Inr r
         | _ \<Rightarrow> infrastructure_import_failure (sl_task sl) dir
             (''expected one partial rollout, observed '' @ nat_str (length selected))))"

definition slot_rollout :: "run_contract \<Rightarrow> attempt \<Rightarrow> slot \<Rightarrow> run_end \<Rightarrow> json_object result" where
  "slot_rollout c a sl end =
    (case end of
       Run_Done dir \<Rightarrow>
         bindE (at_import a dir) (\<lambda>imported.
         bindE (select_rows [(''task_id'', JStr (sl_tid sl)), (''trial'', JInt (sl_trial sl)),
           (''task_fingerprint_provenance'', JStr ''recorded_at_execution'')] imported) (\<lambda>selected.
         case selected of
           [r] \<Rightarrow> Inr r
         | _ \<Rightarrow> fail (sl_arm sl) ''expected one execution-grounded rollout''))
     | Run_Infrastructure dir code \<Rightarrow>
         bindE (partial_rollout c a sl dir) (\<lambda>r.
         bindE (row_contract_of c [] (sl_arm sl) (mc_binary (at_returned a)) None) (\<lambda>rc.
         mark_infrastructure_invalid (at_host a) rc (sl_task sl) (sl_trial sl) code (sl_cap sl) (sl_config sl) r)))"

definition infrastructure_error :: "slot \<Rightarrow> run_end \<Rightarrow> py_error option" where
  "infrastructure_error sl end =
    (case end of Run_Done _ \<Rightarrow> None
     | Run_Infrastructure _ _ \<Rightarrow> Some (Validation_Error (sl_arm sl) ''E2E runner exited; invalid evidence retained''))"

definition caught :: "'b result \<Rightarrow> (py_error option) result" where
  \<comment> \<open>\<open>except ValidationError as exc\<close>\<close>
  "caught m = (case m of Inr _ \<Rightarrow> Inr None | Inl e \<Rightarrow> if is_validation_error e then Inr (Some e) else Inl e)"

definition settle_budget :: "slot \<Rightarrow> bool \<Rightarrow> json_object \<Rightarrow> (py_error option \<times> json_object) result" where
  "settle_budget sl finished r =
    bindE (caught (require_runtime_budget_provenance r (sl_cap sl) finished)) (\<lambda>err.
    case err of
      None \<Rightarrow> Inr (None, r)
    | Some e \<Rightarrow> bindE (mark_runtime_budget_invalid (error_text e) r) (\<lambda>r'. Inr (Some e, r')))"

definition settle_transaction :: "attempt \<Rightarrow> string \<Rightarrow> bool \<Rightarrow> json_object \<Rightarrow> json_object rop" where
  \<comment> \<open>commit the usage, or record the transaction as it stands\<close>
  "settle_transaction a k paid r =
    (if paid then
       bindS (liftS (bindE (metric_item r ''cost_usd'') usd_to_microusd_ceiling)) (\<lambda>cost.
       bindS (liftS (rollout_metered_tokens r)) (\<lambda>tokens.
       bindS (journal_call (at_tick a 2) (Call_Commit k cost tokens None)) (\<lambda>receipt.
       bindS (fault_at a ''after_budget_commit'') (\<lambda>_.
       returnS (AList.update ''budget_transaction'' (JObj (receipt_json receipt)) r)))))
     else
       bindS (on_journal (at_tick a 2) (receipt_op k)) (\<lambda>receipt.
       returnS (AList.update ''budget_transaction'' (JObj (receipt_json receipt)) r)))"

definition settle_treatment :: "attempt \<Rightarrow> slot \<Rightarrow> bool \<Rightarrow> json_object \<Rightarrow> (py_error option \<times> json_object) result" where
  "settle_treatment a sl paid r =
    (if \<not> paid then Inr (None, r)
     else case attach_treatment_activation (at_attest a) r (sl_arm sl) of
       Inr r' \<Rightarrow> Inr (None, r')
     | Inl e \<Rightarrow> if is_validation_error e
         then bindE (mark_treatment_activation_invalid (error_text e) r) (\<lambda>r'. Inr (Some e, r')) else Inl e)"

definition persist_rollout :: "attempt \<Rightarrow> slot \<Rightarrow> json_object \<Rightarrow> unit rop" where
  \<comment> \<open>collected and marked done in memory first, then the whole checkpoint is replaced\<close>
  "persist_rollout a sl r =
    bindS (modifyS (\<lambda>rn. rn\<lparr>rn_collected := map (\<lambda>(arm, rows). (arm, if arm = sl_arm sl then rows @ [r] else rows)) (rn_collected rn),
      rn_done := (rn_done rn)(sl_arm sl := (sl_tid sl, sl_trial sl) # rn_done rn (sl_arm sl))\<rparr>)) (\<lambda>_.
    bindS (getS rn_collected) (\<lambda>collected.
    bindS (liftS (write_rollouts (case map_of collected (sl_arm sl) of Some rows \<Rightarrow> rows | None \<Rightarrow> []))) (\<lambda>text.
    bindS (liftS (case at_write a of None \<Rightarrow> Inr () | Some e \<Rightarrow> Inl e)) (\<lambda>_.
    modifyS (\<lambda>rn. rn\<lparr>rn_files := (rn_files rn)(sl_arm sl \<mapsto> text)\<rparr>)))))"

definition finish_slot :: "run_contract \<Rightarrow> attempt \<Rightarrow> slot \<Rightarrow> string \<Rightarrow> run_end \<Rightarrow> unit rop" where
  "finish_slot c a sl k end =
    (let infra = infrastructure_error sl end
     in bindS (liftS (slot_rollout c a sl end)) (\<lambda>r.
        bindS (liftS (settle_budget sl (infra = None) r)) (\<lambda>(over, r).
        bindS (settle_transaction a k (infra = None \<and> over = None) r) (\<lambda>r.
        bindS (liftS (settle_treatment a sl (infra = None \<and> over = None) r)) (\<lambda>(treatment, r).
        bindS (persist_rollout a sl r) (\<lambda>_.
        bindS (fault_at a ''after_rollout_checkpoint'') (\<lambda>_.
        bindS (case List.find (\<lambda>x. x \<noteq> None) [infra, over, treatment] of Some (Some e) \<Rightarrow> raiseS e | _ \<Rightarrow> returnS ()) (\<lambda>_.
        bindS (liftS (require_scoring_rollout r (sl_arm sl))) (\<lambda>_.
        bindS (liftS (budget_object c)) (\<lambda>budget.
        bindS (getS rn_collected) (\<lambda>collected.
        liftS (require_multi_budget (rc_compensated c) collected budget (rc_prior c))))))))))))) "

definition run_slot :: "run_contract \<Rightarrow> string list \<Rightarrow> attempt \<Rightarrow> string \<Rightarrow> slot \<Rightarrow> unit rop" where
  "run_slot c tids a key sl =
    bindS (getS (\<lambda>r. (rn_collected r, rn_done r))) (\<lambda>(collected, completed).
    bindS (liftS (next_cap c tids collected completed)) (\<lambda>(remaining, cap).
    let sl = sl\<lparr>sl_cap := cap\<rparr>
    in bindS (liftS (check_machine c (at_before a))) (\<lambda>_.
       bindS (liftS (multi_arm_budget_transaction c (sl_task sl) (sl_arm sl) (sl_trial sl) (sl_env sl) cap)) (\<lambda>i.
       bindS (admit_request c a i) (\<lambda>k.
       bindS (start_run c a sl key i) (\<lambda>end.
       finish_slot c a sl k end))))))"

section \<open>The schedule\<close>

definition visit_slot ::
  "run_contract \<Rightarrow> (string \<times> json_object) list \<Rightarrow> (nat \<Rightarrow> attempt) \<Rightarrow> string \<Rightarrow> slot \<Rightarrow> unit rop" where
  \<comment> \<open>a slot that has a rollout is skipped\<close>
  "visit_slot c tasks attempts key sl =
    bindS (getS (\<lambda>r. (sl_tid sl, sl_trial sl) \<in> set (rn_done r (sl_arm sl)))) (\<lambda>done.
    if done then returnS ()
    else
      bindS (getS rn_step) (\<lambda>n.
      bindS (modifyS (\<lambda>r. r\<lparr>rn_step := Suc n\<rparr>)) (\<lambda>_.
      run_slot c (keys tasks) (attempts n) key sl)))"

definition run_turn ::
  "run_contract \<Rightarrow> (string \<times> json_object) list \<Rightarrow> (nat \<Rightarrow> attempt) \<Rightarrow> string \<Rightarrow> nat \<times> string \<Rightarrow> unit rop" where
  "run_turn c tasks attempts key ta =
    bindS (liftS (arm_runtime_env (rc_experiment c) (snd ta) (rc_paths c))) (\<lambda>env.
    forS (\<lambda>tid.
      case (map_of tasks tid, map_of (rc_config_ids c) (snd ta)) of
        (Some task, Some config_id) \<Rightarrow> visit_slot c tasks attempts key
          \<lparr>sl_arm = snd ta, sl_env = env, sl_tid = tid, sl_task = task, sl_trial = int (fst ta), sl_config = config_id,
           sl_cap = rc_cap c\<rparr>
      | _ \<Rightarrow> raiseS (Key_Error tid)) (sort (keys tasks)))"

definition run_multi_arm_locked ::
  "run_contract \<Rightarrow> admission \<Rightarrow> (nat \<Rightarrow> attempt) \<Rightarrow> collected rop" where
  "run_multi_arm_locked c ad attempts =
    bindS (liftS (suite_task_map (rc_suite c))) (\<lambda>tasks.
    bindS (admit_checkpoints c tasks ad) (\<lambda>remaining.
    if remaining = 0 then getS rn_collected
    else
      bindS (liftS (ad_api_key ad)) (\<lambda>key.
      bindS (liftS (ad_mkdir ad)) (\<lambda>_.
      bindS (liftS (bindE (json_at (rc_experiment c) [''trials'']) (\<lambda>v. case int_value v of
        Some trials \<Rightarrow> counterbalanced_schedule arm_ids trials | None \<Rightarrow> Inl (Type_Error ''trials'')))) (\<lambda>schedule.
      bindS (forS (run_turn c tasks attempts key) schedule) (\<lambda>_.
      getS rn_collected))))))"

end
