(* ===== verification/Runner_Entry.thy ===== *)
theory Runner_Entry
  imports Runner_Loop
begin

text \<open>
  The entry of \<open>run_multi_arm\<close> (\<open>scripts/eval/paired_runner.py\<close>): the checks of an invocation, the
  contract that is frozen before the journal is opened, and the run under the journal's lock. All
  invocations of a campaign name the same journal; what an invocation observes of the host is in it.
\<close>

record invocation =
  iv_experiment :: json_object
  iv_suite :: json_object
  iv_depth :: nat
  iv_host :: host
  iv_allow_paid :: bool
  iv_executable :: bool
  iv_revision :: string
  iv_suite_is_file :: bool
  iv_suite_path :: "string option"
    \<comment> \<open>the resolved path of the suite relative to the root, if it is below the root\<close>
  iv_used :: "double \<times> int"
  iv_binary :: "string option"
  iv_tinykg :: "(string \<times> string) result"
  iv_kernel :: "json_object result"
  iv_receipt :: "json_object option"
  iv_evidence :: "evidence option"
  iv_bundle_attest :: "string \<Rightarrow> attestation"
  iv_journal :: "string option"
  iv_output :: string
  iv_auth_file :: bool
  iv_admission :: admission
  iv_attempts :: "nat \<Rightarrow> attempt"
  iv_compensated :: bool

fun strip_right :: "string \<Rightarrow> string" where
  "strip_right [] = []"
| "strip_right (c # s) = (if blank (c # s) then [] else c # strip_right s)"

function strip_left :: "string \<Rightarrow> string" where
  "strip_left s = (if s = [] \<or> space_bytes s = 0 then s else strip_left (drop (space_bytes s) s))"
  by pat_completeness auto
termination by (relation "measure length") auto

declare strip_left.simps [simp del]

definition strip_text :: "string \<Rightarrow> string" where
  "strip_text s = strip_right (strip_left s)"

definition require_external_budget_journal :: "string \<Rightarrow> string \<Rightarrow> string result" where
  \<comment> \<open>both paths are absolute and resolved\<close>
  "require_external_budget_journal journal output =
    (if journal = output \<or> output = [slash] \<or> is_prefix (output @ [slash]) journal
     then fail ''paid budget journal'' ''must be outside the multi-arm output directory''
     else Inr journal)"

definition entry_checks :: "invocation \<Rightarrow> (double \<times> int) result" where
  \<comment> \<open>up to the first look at the binaries; the result is the cap of a rollout\<close>
  "entry_checks iv =
    bindE (validate_experiment (iv_depth iv) (experiment_files.truncate (iv_host iv)) (iv_experiment iv) (iv_suite iv)) (\<lambda>_.
    bindE (raise_if (\<not> iv_allow_paid iv) ''multi-arm execution'' ''requires explicit --allow-paid-rollouts'') (\<lambda>_.
    bindE (json_at (iv_experiment iv) [''budget'', ''paid_rollouts_enabled'']) (\<lambda>enabled.
    bindE (raise_if (\<not> truthy enabled) ''experiment contract'' ''has paid_rollouts_enabled=false'') (\<lambda>_.
    bindE (json_at (iv_experiment iv) [''budget'']) (\<lambda>budget.
    bindE (case budget of JObj b \<Rightarrow> fixed_rollout_budget b True | _ \<Rightarrow> Inl (Type_Error ''budget'')) (\<lambda>fixed.
    bindE (case fixed of Some cap \<Rightarrow> Inr cap | None \<Rightarrow> Inl Assertion_Error) (\<lambda>cap.
    bindE (raise_if (\<not> iv_executable iv) ''binary'' ''is not executable'') (\<lambda>_.
    bindE (raise_if (blank (iv_revision iv)) ''multi-arm revision'' ''must be non-empty'') (\<lambda>_.
    bindE (raise_if (\<not> iv_suite_is_file iv) ''evaluation suite file'' ''does not exist'') (\<lambda>_.
    bindE (text_at (iv_experiment iv) [''suite'']) (\<lambda>suite.
    bindE (raise_if (iv_suite_path iv \<noteq> Some (resolved_path (iv_host iv) suite)) ''multi-arm suite path''
      ''does not match the frozen experiment contract'') (\<lambda>_.
    bindE (raise_if (\<not> finite_double (fst (iv_used iv)) \<or> d_less (fst (iv_used iv)) (Fin 0) \<or> snd (iv_used iv) < 0)
      ''budget'' ''usage offsets must be non-negative'') (\<lambda>_.
    Inr cap)))))))))))))"

definition promotion_usage :: "invocation \<Rightarrow> execution_identity \<Rightarrow> (double \<times> int) result" where
  \<comment> \<open>what the calibration already used, of a confirmatory run\<close>
  "promotion_usage iv x =
    bindE (json_at (iv_experiment iv) [''stage'', ''id'']) (\<lambda>stage.
    if stage = JStr ''confirmatory''
    then (case (iv_receipt iv, iv_evidence iv) of
        (None, _) \<Rightarrow> fail ''confirmatory execution'' ''requires a calibration promotion receipt''
      | (_, None) \<Rightarrow> fail ''confirmatory execution'' ''requires authoritative calibration checkpoints''
      | (Some receipt, Some ev) \<Rightarrow>
          validate_calibration_bundle (iv_compensated iv) (iv_depth iv) (iv_host iv) (iv_bundle_attest iv) receipt
            (iv_experiment iv) ev x)
    else if iv_receipt iv \<noteq> None \<or> iv_evidence iv \<noteq> None
    then fail ''calibration execution'' ''must not receive promotion evidence''
    else Inr (Fin 0, 0))"

definition frozen_contract :: "invocation \<Rightarrow> run_contract result" where
  "frozen_contract iv =
    bindE (entry_checks iv) (\<lambda>cap.
    bindE (case iv_binary iv of None \<Rightarrow> Inl (OS_Error ''metacodes binary'') | Some s \<Rightarrow> Inr (sha256_hex s)) (\<lambda>metacodes.
    bindE (iv_tinykg iv) (\<lambda>(tinykg, tinykg_sha).
    bindE (iv_kernel iv) (\<lambda>kernel.
    bindE (text_at kernel [''artifact_fingerprint'']) (\<lambda>artifact.
    let x = \<lparr>metacodes_sha256 = metacodes, tinykg_sha256 = tinykg_sha, formal_kernel_fingerprint = artifact,
          harness_revision = strip_text (iv_revision iv)\<rparr>;
        used = iv_used iv
    in bindE (promotion_usage iv x) (\<lambda>promoted.
       bindE (arm_config_ids (iv_experiment iv) (iv_suite iv) x) (\<lambda>config_ids.
       bindE (case iv_journal iv of None \<Rightarrow> fail ''multi-arm execution'' ''requires explicit --budget-journal'' | Some p \<Rightarrow> Inr p) (\<lambda>journal.
       bindE (raise_if (\<not> iv_auth_file iv) ''multi-arm execution'' ''requires explicit --auth-file'') (\<lambda>_.
       bindE (require_external_budget_journal journal (iv_output iv)) (\<lambda>_.
       let prior = \<lparr>stage_prior_cost = fst used, stage_prior_tokens = snd used,
             aggregate_prior_cost = d_add (fst used) (fst promoted), aggregate_prior_tokens = snd used + snd promoted\<rparr>
       in bindE (multi_arm_budget_authority (iv_experiment iv) (iv_suite iv) prior) (\<lambda>authority.
          bindE (text_at kernel [''path'']) (\<lambda>kernel_file. bindE (text_at kernel [''sha256'']) (\<lambda>kernel_sha.
          Inr \<lparr>rc_experiment = iv_experiment iv, rc_suite = iv_suite iv, rc_authority = authority, rc_identity = x,
               rc_paths = \<lparr>tinykg_path = tinykg, kernel_path = kernel_file, kernel_sha256 = kernel_sha\<rparr>, rc_kernel = kernel,
               rc_config_ids = config_ids, rc_cap = cap, rc_prior = prior, rc_compensated = iv_compensated iv\<rparr>)))))))))))))"

definition with_journal :: "'a rop \<Rightarrow> 'a rop" where
  \<comment> \<open>the exit of \<open>with BudgetJournal(...)\<close>, whether the body returned or raised\<close>
  "with_journal m r = (case m r of (q, t) \<Rightarrow> (q, t\<lparr>rn_journal := close_journal (rn_journal t)\<rparr>))"

definition open_runner :: "journal \<Rightarrow> runner \<Rightarrow> runner" where
  "open_runner j r = r\<lparr>rn_journal := (j, snd (rn_journal r)), rn_collected := [], rn_done := (\<lambda>_. [])\<rparr>"

definition run_multi_arm :: "invocation \<Rightarrow> collected rop" where
  "run_multi_arm iv =
    bindS (liftS (frozen_contract iv)) (\<lambda>c.
    bindS (liftS (init_journal (rc_authority c))) (\<lambda>j.
    bindS (modifyS (open_runner j)) (\<lambda>_.
    bindS (on_journal id enter) (\<lambda>_.
    with_journal (run_multi_arm_locked c (iv_admission iv) (iv_attempts iv))))))"

end
