(* ===== verification/Runner_Campaign.thy ===== *)
theory Runner_Campaign
  imports Runner_Entry
begin

text \<open>
  What holds over a campaign: any number of invocations of \<open>run_multi_arm\<close> on one journal, each in
  whatever state the earlier ones left behind, with anything but the journal file changing in between,
  the checkpoint files included. Every method keeps the invariant; \<open>keeps\<close> and its rules follow the
  structure of the code.
\<close>

section \<open>Steps on the journal\<close>

definition ledger_now :: "runner \<Rightarrow> ledger" where
  "ledger_now r = disk_ledger (snd (rn_journal r))"

definition governed :: "budget_authority option \<Rightarrow> world \<Rightarrow> bool" where
  \<comment> \<open>the journal on the disk is the one of the authority\<close>
  "governed au w \<longleftrightarrow> (\<forall>a. au = Some a \<longrightarrow> (\<exists>st. disk_state w = Some st \<and> js_authority st = a))"

definition sound :: "budget_authority option \<Rightarrow> runner \<Rightarrow> bool" where
  \<comment> \<open>every started run is spent in the journal, and none was started twice\<close>
  "sound au r \<longleftrightarrow> session_ok (rn_journal r) \<and> distinct (rn_started r) \<and>
    (\<forall>x \<in> set (rn_started r). run_spent x (ledger_now r)) \<and> governed au (snd (rn_journal r))"

lemma locked_tick_ok:
  assumes "session_ok s"
  shows "session_ok (locked_tick tick s)" and "disk_ledger (snd (locked_tick tick s)) = disk_ledger (snd s)"
    and "disk_state (snd (locked_tick tick s)) = disk_state (snd s)"
proof -
  have f: "disk_ok (snd (locked_tick tick s)) = disk_ok (snd s)" "disk_state (snd (locked_tick tick s)) = disk_state (snd s)"
    using disk_file [of "snd (locked_tick tick s)" "snd s"] by (simp_all add: locked_tick_def)
  then show "session_ok (locked_tick tick s)"
    using assms by (simp add: session_ok_def memory_ok_def) (simp add: locked_tick_def)
  show "disk_ledger (snd (locked_tick tick s)) = disk_ledger (snd s)" using f(2) by (simp add: disk_ledger_def)
  show "disk_state (snd (locked_tick tick s)) = disk_state (snd s)" by (rule f(2))
qed

lemma locked_tick_governed [simp]:
  "governed au (snd (locked_tick tick s)) = governed au (snd s)"
  using disk_file [of "snd (locked_tick tick s)" "snd s"] by (simp add: governed_def locked_tick_def)

lemma call_moves_ledger:
  assumes "session_ok s" and "call_text c" and "run_call c s = (r, t)"
  shows "session_ok t" and "run_spent x (disk_ledger (snd s)) \<Longrightarrow> run_spent x (disk_ledger (snd t))"
    and "governed au (snd s) \<Longrightarrow> governed au (snd t)"
proof -
  show "session_ok t" by (rule call_session_ok [OF assms])
  from call_has_outcome [OF assms] consider "untouched s t" | "appends c r s t" by (auto simp: call_outcome_def)
  then show "governed au (snd s) \<Longrightarrow> governed au (snd t)"
  proof cases
    case 1
    then show "governed au (snd s) \<Longrightarrow> governed au (snd t)"
      using disk_file [of "snd t" "snd s"] by (simp add: untouched_def governed_def)
  next
    case 2
    then show "governed au (snd s) \<Longrightarrow> governed au (snd t)" by (auto elim!: appends_disk simp: governed_def)
  qed
  assume x: "run_spent x (disk_ledger (snd s))"
  from call_has_outcome [OF assms] consider "untouched s t" | "appends c r s t" by (auto simp: call_outcome_def)
  then show "run_spent x (disk_ledger (snd t))"
  proof cases
    case 1
    then show ?thesis using x disk_file [of "snd t" "snd s"] by (simp add: untouched_def disk_ledger_def)
  next
    case 2
    then show ?thesis using x by (auto elim!: appends_disk intro: step_keeps_run_spent)
  qed
qed

lemma journal_callE:
  assumes "journal_call tick c r = (q, t)"
  obtains s where "run_call c (locked_tick tick (rn_journal r)) = (q, s)"
    and "t = r\<lparr>rn_journal := s, rn_calls := rn_calls r @ [(c, q)]\<rparr>"
  using assms by (auto simp: journal_call_def split: prod.splits)

lemma keeps_journal_call:
  assumes "call_text c"
  shows "keeps (sound au) (journal_call tick c)"
proof (rule keepsI)
  fix r q t assume r: "sound au r" and "journal_call tick c r = (q, t)"
  then obtain s where s: "run_call c (locked_tick tick (rn_journal r)) = (q, s)"
    and t: "t = r\<lparr>rn_journal := s, rn_calls := rn_calls r @ [(c, q)]\<rparr>" by (elim journal_callE)
  have ok: "session_ok (rn_journal r)" using r by (simp add: sound_def)
  from call_moves_ledger [OF locked_tick_ok(1) [OF ok] assms s] locked_tick_ok(2) [OF ok]
  show "sound au t" using r by (simp add: t sound_def ledger_now_def)
qed

lemma keeps_calls [keeps_intro]:
  "keeps (sound au) (journal_call tick (Call_Abort k))" "keeps (sound au) (journal_call tick (Call_Authorize k n h))"
  "keeps (sound au) (journal_call tick (Call_Commit k cost tokens ev))"
  by (simp_all add: keeps_journal_call)

lemma keeps_on_journal:
  assumes "pure_op m"
  shows "keeps (sound au) (on_journal tick m)"
proof (rule keepsI)
  fix r q t assume r: "sound au r" and run: "on_journal tick m r = (q, t)"
  have "snd (m (locked_tick tick (rn_journal r))) = locked_tick tick (rn_journal r)" using assms unfolding pure_op_def by blast
  then have "t = r\<lparr>rn_journal := locked_tick tick (rn_journal r)\<rparr>" using run by (auto simp: on_journal_def split: prod.splits)
  then show "sound au t" using r locked_tick_ok [of "rn_journal r" tick] by (simp add: sound_def ledger_now_def)
qed

lemma pure_journal_reads [simp]:
  "pure_op (validate_checkpoint_budget_receipt r i)" "pure_op (require_no_orphans tids)" "pure_op (receipt_op k)"
  by (auto simp: validate_checkpoint_budget_receipt_def require_no_orphans_def transaction_receipts_def
      intro!: pure_op_bindS split: json.split)

lemma keeps_reads [keeps_intro]:
  "keeps (sound au) (on_journal tick (validate_checkpoint_budget_receipt row i))"
  "keeps (sound au) (on_journal tick (require_no_orphans tids))" "keeps (sound au) (on_journal tick (receipt_op k))"
  by (simp_all add: keeps_on_journal)

text \<open>A step whose continuation only matters for the value that a check returned.\<close>

lemma keeps_bind_lift:
  assumes "\<And>x. q = Inr x \<Longrightarrow> keeps P (f x)"
  shows "keeps P (bindS (liftS q) f)"
  using assms by (cases q) (simp_all add: keeps_def bindS_def liftS_def)

lemma keeps_fault [keeps_intro]: "keeps P (fault_at a point)"
  by (simp add: fault_at_def keeps_value)

lemma keeps_update [keeps_intro]:
  "keeps (sound au) (modifyS (\<lambda>r. r\<lparr>rn_collected := f r, rn_done := g r\<rparr>))" "keeps (sound au) (modifyS (\<lambda>r. r\<lparr>rn_files := h r\<rparr>))"
  "keeps (sound au) (modifyS (\<lambda>r. r\<lparr>rn_step := n\<rparr>))"
  by (simp_all add: keeps_def modifyS_def sound_def ledger_now_def)

section \<open>The identity of a slot\<close>

definition contract_text :: "run_contract \<Rightarrow> bool" where
  "contract_text c \<longleftrightarrow> utf8_json (JObj (rc_experiment c)) \<and> utf8_json (JObj (rc_suite c)) \<and>
    utf8_valid (auth_provider_identity (rc_authority c))"

lemma item_of_text: "utf8_json v \<Longrightarrow> item_of v k = Inr w \<Longrightarrow> utf8_json w"
  by (cases v) (auto dest!: map_of_SomeD split: option.splits)

lemma json_at_text:
  assumes "utf8_json (JObj d)" and "json_at d ks = Inr v"
  shows "utf8_json v"
proof -
  have "utf8_json u \<Longrightarrow> foldE (\<lambda>k v. item_of v k) ks u = Inr w \<Longrightarrow> utf8_json w" for u w
    by (induction ks arbitrary: u) (auto simp: bindE_eq_Inr dest: item_of_text)
  then show ?thesis using assms unfolding json_at_def by blast
qed

lemma text_at_text:
  assumes "utf8_json (JObj d)" and "text_at d ks = Inr s"
  shows "utf8_valid s"
proof -
  obtain v where "json_at d ks = Inr v" "(case v of JStr s \<Rightarrow> Inr s | _ \<Rightarrow> Inl (Type_Error ''str'')) = Inr s"
    using assms(2) unfolding text_at_def by (elim bindE_InrE)
  then have "json_at d ks = Inr (JStr s)" by (cases v) simp_all
  from json_at_text [OF assms(1) this] show ?thesis by simp
qed

lemma transaction_Inr:
  assumes "multi_arm_budget_transaction c task arm trial env cap = Inr i"
  obtains eid sid tid where "text_at (rc_experiment c) [''experiment_id''] = Inr eid"
    and "text_at (rc_experiment c) [''stage'', ''id''] = Inr sid" and "text_at task [''id''] = Inr tid"
    and "run_id i = slot_run_id eid sid arm tid trial"
    and "provider_identity i = auth_provider_identity (rc_authority c)"
  using assms by (auto simp: multi_arm_budget_transaction_def bindE_eq_Inr split: option.splits)

lemma utf8_colon: "utf8_valid (CHR '':'' # s) = utf8_valid s"
  using utf8_valid_append [of "'':''" s] by (simp add: utf8_literal char_code_def del: utf8_valid.simps)

lemma transaction_text:
  assumes "multi_arm_budget_transaction c task arm trial env cap = Inr i"
    and "contract_text c" and "utf8_json (JObj task)" and "utf8_valid arm"
  shows "identity_text i"
  using assms(1)
proof (rule transaction_Inr)
  fix eid sid tid
  assume e: "text_at (rc_experiment c) [''experiment_id''] = Inr eid"
    "text_at (rc_experiment c) [''stage'', ''id''] = Inr sid" "text_at task [''id''] = Inr tid"
    and i: "run_id i = slot_run_id eid sid arm tid trial"
      "provider_identity i = auth_provider_identity (rc_authority c)"
  have "utf8_valid eid" "utf8_valid sid" "utf8_valid tid"
    using assms(2,3) text_at_text e by (auto simp: contract_text_def)
  then show ?thesis
    unfolding identity_text_def i slot_run_id_def
    using assms(2,4) utf8_valid_int_str
    by (simp add: contract_text_def utf8_colon utf8_valid_append del: utf8_valid.simps utf8_json.simps)
qed

lemma arm_text: "arm \<in> set arm_ids \<Longrightarrow> utf8_valid arm"
  by (auto simp: arm_ids_def intro!: utf8_literal simp: char_code_def)

lemma runtime_env_arm: "arm_runtime_env e arm d = Inr env \<Longrightarrow> arm \<in> set arm_ids"
  by (auto simp: arm_runtime_env_def split: if_splits)

lemma suite_task_map_text:
  assumes "suite_task_map suite = Inr tasks" and "utf8_json (JObj suite)" and "map_of tasks tid = Some task"
  shows "utf8_json (JObj task)"
proof -
  have upd: "set (AList.update k v xs) \<subseteq> insert (k, v) (set xs)" for k v and xs :: "(string \<times> json_object) list"
    by (induction xs) auto
  have all: "\<forall>v \<in> set (suite_tasks suite). utf8_json v"
    using utf8_field [OF assms(2), of "''tasks''"] by (cases "field suite ''tasks''") (simp_all add: suite_tasks_def)
  have "\<forall>p \<in> set tasks. utf8_json (JObj (snd p))"
    using assms(1) unfolding suite_task_map_def
  proof (rule foldE_invariant)
    fix v acc acc'
    assume v: "v \<in> set (suite_tasks suite)" and acc: "\<forall>p \<in> set acc. utf8_json (JObj (snd p))"
      and step: "(case v of JObj task \<Rightarrow> bindE (text_at task [''id'']) (\<lambda>tid. Inr (AList.update tid task acc))
        | _ \<Rightarrow> Inl (Type_Error ''task'')) = Inr acc'"
    from step obtain t k where "v = JObj t" "acc' = AList.update k t acc" by (auto simp: bindE_eq_Inr split: json.splits)
    then show "\<forall>p \<in> set acc'. utf8_json (JObj (snd p))" using upd [of k t acc] acc all v by fastforce
  qed simp
  then show ?thesis using map_of_SomeD [OF assms(3)] by auto
qed

section \<open>A slot\<close>

lemma run_keeps_identity:
  assumes "ledger_run a L ls M" and "L k = Some (i, p)"
  shows "\<exists>q. M k = Some (i, q)"
proof -
  have step: "ledger_step a L l M \<Longrightarrow> L k = Some (i, p) \<Longrightarrow> \<exists>q. M k = Some (i, q)" for L l M p
    by (induction rule: ledger_step.induct) auto
  show ?thesis using assms by (induction arbitrary: p rule: ledger_run.induct) (blast dest: step)+
qed

lemma receipt_transaction:
  assumes "transaction_receipt_from_state st k = Inr rc" and "stored_state st"
  obtains t where "map_of (js_transactions st) k = Some t" and "transaction_id (rc_transaction rc) = k"
    and "rc_transaction rc = t\<lparr>evidence_sha256 := None, resume_events := []\<rparr>" and "transaction_id t = k"
proof -
  from assms(1) obtain t where t: "map_of (js_transactions st) k = Some t"
    "rc_transaction rc = t\<lparr>evidence_sha256 := None, resume_events := []\<rparr>"
    by (auto simp: transaction_receipt_from_state_def bindE_eq_Inr split: option.splits)
  have "transaction_id t = k" using stored_transaction(1) [OF assms(2) t(1)] by (simp add: txn_ok_def)
  with t that show thesis by simp
qed

text \<open>What a reservation returned is on the disk under the run id that was asked for.\<close>

lemma reserved_on_disk:
  assumes ok: "session_ok s" and i: "identity_text i" and run: "run_call (Call_Reserve i) s = (Inr rc, t)"
  shows "\<exists>i' p. disk_ledger (snd t) (transaction_id (rc_transaction rc)) = Some (i', p) \<and> run_id i' = run_id i"
proof -
  have "call_outcome (Call_Reserve i) (Inr rc) s t" using call_has_outcome [OF ok _ run] i by simp
  then consider (memory) st where "untouched s t" "jn_state (fst s) = Some st" "memory_answers (Call_Reserve i) rc st"
    | (disk) "appends (Call_Reserve i) (Inr rc) s t"
    by (auto simp: call_outcome_def)
  then show ?thesis
  proof cases
    case memory
    from ok memory(2) obtain sd where st: "stored_state st" and sd: "disk_state (snd s) = Some sd" and l: "leads st sd"
      by (auto simp: session_ok_def memory_ok_def)
    from memory(3) obtain k x where x: "map_of (js_transactions st) k = Some x" "run_id (identity x) = run_id i"
      and rc: "transaction_receipt_from_state st k = Inr rc" by auto
    have k: "transaction_id (rc_transaction rc) = k" by (rule receipt_transaction [OF rc st])
    have "ledger_st st k = Some (identity x, phase_of x)" by (rule stored_transaction(5) [OF st x(1)])
    then obtain q where "ledger_st sd k = Some (identity x, q)"
      using l run_keeps_identity unfolding leads_def by blast
    moreover have "disk_ledger (snd t) = ledger_st sd"
      using memory(1) sd disk_file [of "snd t" "snd s"] by (simp add: untouched_def disk_ledger_def)
    ultimately show ?thesis using k x(2) by auto
  next
    case disk
    obtain st :: journal_state and st' l where l: "call_label (Call_Reserve i) l"
      and step: "ledger_step (js_authority st) (disk_ledger (snd s)) l (disk_ledger (snd t))"
      and st': "disk_state (snd t) = Some st'" and rc: "transaction_receipt_from_state st' (label_id l) = Inr rc"
    proof (rule appends_disk [OF disk], goal_cases)
      case (1 st st' l)
      then show ?case by (intro that [of l st st']) simp_all
    qed
    have "disk_ok (snd t)" using disk by (simp add: appends_def)
    then have stored: "stored_state st'" using disk_stored st' by blast
    from l obtain k where k: "l = Reserve k i" by auto
    have "transaction_id (rc_transaction rc) = k" using receipt_transaction [OF rc stored] k by (metis label_id.simps(1))
    moreover have "disk_ledger (snd t) k = Some (i, Held)" using step unfolding k by (auto elim: ledger_step.cases)
    ultimately show ?thesis by auto
  qed
qed

definition admitted :: "budget_authority option \<Rightarrow> string \<Rightarrow> runner \<Rightarrow> bool" where
  \<comment> \<open>the run is spent in the journal but was not started\<close>
  "admitted au x r \<longleftrightarrow> sound au r \<and> x \<notin> set (rn_started r) \<and> run_spent x (ledger_now r)"

lemma reserve_authorize_granted:
  assumes r: "sound au r" and i: "identity_text i" and res: "journal_call tick0 (Call_Reserve i) r = (Inr reserved, r1)"
    and aut: "journal_call tick1 (Call_Authorize (transaction_id (rc_transaction reserved))
      (rc_journal_revision reserved) (rc_journal_head_sha256 reserved)) r1 = (Inr u, t)"
  shows "admitted au (run_id i) t"
proof -
  let ?k = "transaction_id (rc_transaction reserved)"
  have r1: "sound au r1" using keepsD [OF keeps_journal_call r res] i by simp
  then have t: "sound au t" using keepsD [OF keeps_journal_call _ aut] by simp
  have ok: "session_ok (rn_journal r)" "session_ok (rn_journal r1)" using r r1 by (simp_all add: sound_def)
  obtain i' p where i': "ledger_now r1 ?k = Some (i', p)" "run_id i' = run_id i"
  proof -
    from res obtain s0 where s0: "run_call (Call_Reserve i) (locked_tick tick0 (rn_journal r)) = (Inr reserved, s0)"
      and "rn_journal r1 = s0" by (elim journal_callE) simp
    then show thesis using reserved_on_disk [OF locked_tick_ok(1) [OF ok(1)] i s0] that by (auto simp: ledger_now_def)
  qed
  from aut obtain s where s: "run_call (Call_Authorize ?k (rc_journal_revision reserved) (rc_journal_head_sha256 reserved))
      (locked_tick tick1 (rn_journal r1)) = (Inr u, s)" and ts: "rn_journal t = s" "rn_started t = rn_started r1"
    by (auto elim!: journal_callE)
  from authorize_granted [OF locked_tick_ok(1) [OF ok(2)] s] locked_tick_ok(2) [OF ok(2), of tick1]
  obtain j where j: "ledger_now r1 ?k = Some (j, Held)" "ledger_now t = (ledger_now r1)(?k \<mapsto> (j, Spending False))"
    and one: "one_live (ledger_now r1)" by (auto simp: ledger_now_def ts)
  have "authorized_run (ledger_now r1) (Authorize ?k) = Some (run_id i)" using i' j(1) by simp
  moreover have "ledger_step b (ledger_now r1) (Authorize ?k) (ledger_now t)" for b
    using j by (auto simp: step_Authorize)
  ultimately have "\<not> run_spent (run_id i) (ledger_now r1)" "run_spent (run_id i) (ledger_now t)"
    using authorize_spends one by blast+
  then show ?thesis using t r1 ts(2) by (auto simp: admitted_def sound_def)
qed

lemma admit_request_granted:
  assumes r: "sound au r" and i: "identity_text i" and run: "admit_request c a i r = (Inr k, t)"
  shows "admitted au (run_id i) t"
proof -
  from run obtain reserved r1 u where "journal_call (at_tick a 0) (Call_Reserve i) r = (Inr reserved, r1)"
    and "journal_call (at_tick a 1) (Call_Authorize (transaction_id (rc_transaction reserved))
      (rc_journal_revision reserved) (rc_journal_head_sha256 reserved)) r1 = (Inr u, t)"
    by (cases "check_machine c (at_reserved a)") (auto simp: admit_request_def op_simps Let_def)
  then show ?thesis by (rule reserve_authorize_granted [OF r i])
qed

lemma keeps_admit_request:
  assumes "identity_text i"
  shows "keeps (sound au) (admit_request c a i)"
  unfolding admit_request_def Let_def
  using assms by (auto intro!: keeps_intro keeps_journal_call split: sum.split)

lemma start_run_sound:
  assumes "admitted au (run_id i) r" and "start_run c a sl key i r = (q, t)"
  shows "sound au t"
proof -
  have run: "sound au (r\<lparr>rn_started := rn_started r @ [run_id i]\<rparr>)" "sound au r"
    using assms(1) by (auto simp: admitted_def sound_def ledger_now_def)
  have rest: "keeps (sound au) (bindS (liftS (run_ended rq (at_process a))) (\<lambda>end.
      bindS (fault_at a ''after_provider_return_before_commit'') (\<lambda>_.
      bindS (liftS (case end of Run_Done _ \<Rightarrow> check_machine c (at_returned a) | _ \<Rightarrow> Inr ())) (\<lambda>_. returnS end))))" for rq
    by (intro keeps_intro)
  show ?thesis
    using assms(2) run keepsD [OF rest]
    unfolding start_run_def by (cases q) (auto simp: op_simps fault_at_def)
qed

lemma keeps_finish_slot: "keeps (sound au) (finish_slot c a sl k end)"
  unfolding finish_slot_def settle_transaction_def persist_rollout_def Let_def
  by (intro keeps_intro) (auto intro!: keeps_intro split: option.split prod.split)

lemma keeps_run_slot:
  assumes "contract_text c" and "utf8_json (JObj (sl_task sl))" and "utf8_valid (sl_arm sl)"
  shows "keeps (sound au) (run_slot c tids a key sl)"
proof -
  have slot: "keeps (sound au) (bindS (admit_request c a i) (\<lambda>k. bindS (start_run c a sl' key i) (\<lambda>end. finish_slot c a sl' k end)))"
    if i: "identity_text i" for i sl'
  proof (rule keepsI)
    fix r q t
    assume r: "sound au r"
      and run: "bindS (admit_request c a i) (\<lambda>k. bindS (start_run c a sl' key i) (\<lambda>end. finish_slot c a sl' k end)) r = (q, t)"
    obtain k r1 where ad: "admit_request c a i r = (k, r1)" by (rule prod.exhaust)
    show "sound au t"
    proof (cases k)
      case (Inl e)
      then show ?thesis using run ad keepsD [OF keeps_admit_request [OF i] r ad] by (auto simp: bindS_def)
    next
      case (Inr k)
      obtain x r2 where st: "start_run c a sl' key i r1 = (x, r2)" by (rule prod.exhaust)
      have r2: "sound au r2" using start_run_sound [OF admit_request_granted [OF r i] st] ad Inr by simp
      then show ?thesis
        using run ad Inr st keepsD [OF keeps_finish_slot] by (cases x) (auto simp: bindS_def)
    qed
  qed
  show ?thesis
    unfolding run_slot_def Let_def
    by (intro keeps_bind keeps_value keeps_bind_lift | (auto split: prod.split intro!: keeps_bind keeps_value keeps_bind_lift slot
        transaction_text [OF _ assms] simp del: utf8_json.simps)[1])+
qed

section \<open>A run\<close>

lemma keeps_admit_checkpoints: "keeps (sound au) (admit_checkpoints c tasks ad)"
  unfolding admit_checkpoints_def check_receipts_def check_row_receipt_def
  by (auto intro!: keeps_intro split: prod.split)

lemma keeps_visit_slot:
  assumes "contract_text c" and "utf8_json (JObj (sl_task sl))" and "utf8_valid (sl_arm sl)"
  shows "keeps (sound au) (visit_slot c tasks attempts key sl)"
proof -
  have go: "keeps (sound au) (bindS (getS rn_step) (\<lambda>n. bindS (modifyS (\<lambda>r. r\<lparr>rn_step := Suc n\<rparr>)) (\<lambda>_.
      run_slot c (keys tasks) (attempts n) key sl)))"
    by (intro keeps_bind keeps_value keeps_update keeps_run_slot [OF assms])
  show ?thesis
    unfolding visit_slot_def
  proof (intro keeps_bind keeps_value)
    show "keeps (sound au) (if don then returnS () else bindS (getS rn_step) (\<lambda>n. bindS (modifyS (\<lambda>r. r\<lparr>rn_step := Suc n\<rparr>)) (\<lambda>_.
      run_slot c (keys tasks) (attempts n) key sl)))" for don
      using go by (cases don) (simp_all only: if_True if_False keeps_value)
  qed
qed

lemma keeps_case_pair:
  assumes "\<And>a b. x = Some a \<Longrightarrow> y = Some b \<Longrightarrow> keeps P (f a b)" and "keeps P m"
  shows "keeps P (case (x, y) of (Some a, Some b) \<Rightarrow> f a b | _ \<Rightarrow> m)"
  using assms by (cases x; cases y) simp_all

lemma keeps_run_turn:
  assumes "contract_text c" and "suite_task_map (rc_suite c) = Inr tasks"
  shows "keeps (sound au) (run_turn c tasks attempts key ta)"
proof -
  have task: "utf8_json (JObj task)" if "map_of tasks tid = Some task" for task tid
  proof (rule suite_task_map_text [OF assms(2) _ that])
    show "utf8_json (JObj (rc_suite c))" using assms(1) unfolding contract_text_def by blast
  qed
  have arm: "utf8_valid (snd ta)" if "arm_runtime_env (rc_experiment c) (snd ta) (rc_paths c) = Inr env" for env
    using runtime_env_arm [OF that] by (rule arm_text)
  have visit: "keeps (sound au) (visit_slot c tasks attempts key sl)"
    if "map_of tasks tid = Some (sl_task sl)" "utf8_valid (sl_arm sl)" for tid sl
    by (rule keeps_visit_slot [OF assms(1) task [OF that(1)] that(2)])
  show ?thesis
    unfolding run_turn_def
  proof (rule keeps_bind_lift, rule keeps_forS, rule keeps_case_pair)
    fix env tid task config_id
    assume env: "arm_runtime_env (rc_experiment c) (snd ta) (rc_paths c) = Inr env" and t: "map_of tasks tid = Some task"
    show "keeps (sound au) (visit_slot c tasks attempts key \<lparr>sl_arm = snd ta, sl_env = env, sl_tid = tid, sl_task = task,
        sl_trial = int (fst ta), sl_config = config_id, sl_cap = rc_cap c\<rparr>)"
      by (rule visit [of tid]) (simp_all only: slot.select_convs t arm [OF env])
  qed (rule keeps_value)
qed

lemma keeps_locked:
  assumes "contract_text c"
  shows "keeps (sound au) (run_multi_arm_locked c ad attempts)"
  unfolding run_multi_arm_locked_def
  by (auto intro!: keeps_bind_lift keeps_bind keeps_value keeps_admit_checkpoints keeps_forS keeps_run_turn assms)

definition invocation_text :: "invocation \<Rightarrow> bool" where
  \<comment> \<open>its documents hold Unicode strings\<close>
  "invocation_text iv \<longleftrightarrow> utf8_json (JObj (iv_experiment iv)) \<and> utf8_json (JObj (iv_suite iv))"

lemma authority_provider:
  assumes "multi_arm_budget_authority e suite p = Inr a"
  shows "text_at e [''model'', ''provider''] = Inr (auth_provider_identity a)"
  using assms unfolding multi_arm_budget_authority_def Let_def
  by (elim bindE_InrE) (auto simp: budget_authority.simps)

lemma frozen_contract_Inr:
  assumes "frozen_contract iv = Inr c"
  shows "rc_experiment c = iv_experiment iv" and "rc_suite c = iv_suite iv"
    and "multi_arm_budget_authority (iv_experiment iv) (iv_suite iv) (rc_prior c) = Inr (rc_authority c)"
  using assms unfolding frozen_contract_def Let_def
  by (auto simp: bindE_eq_Inr split: prod.splits)

lemma frozen_contract_text:
  assumes "frozen_contract iv = Inr c" and "invocation_text iv"
  shows "contract_text c"
proof -
  note f = frozen_contract_Inr [OF assms(1)]
  have "utf8_valid (auth_provider_identity (rc_authority c))"
    using text_at_text [OF _ authority_provider [OF f(3)]] assms(2) by (simp add: invocation_text_def)
  then show ?thesis using assms(2) unfolding contract_text_def invocation_text_def f by simp
qed

lemma close_sound: "sound au (r\<lparr>rn_journal := close_journal (rn_journal r)\<rparr>) = sound au r"
proof -
  have "session_ok (close_journal u) = session_ok u" "snd (close_journal u) = snd u" for u
    by (cases u; simp add: close_journal_def session_ok_def memory_ok_def)+
  then show ?thesis by (simp add: sound_def ledger_now_def)
qed

lemma locked_tick_id [simp]: "locked_tick id s = s"
  by (cases s) (simp add: locked_tick_def)

lemma open_runner_fresh:
  assumes "session_ok (rn_journal r)" and "init_journal a = Inr j" and "utf8_valid (auth_provider_identity a)"
  shows "fresh_open (rn_journal (open_runner j r))" and "ledger_now (open_runner j r) = ledger_now r"
    and "rn_started (open_runner j r) = rn_started r"
  using assms by (auto simp: open_runner_def fresh_open_def init_journal_def bindE_eq_Inr check_simps session_ok_def ledger_now_def)

text \<open>Opening: the object replays the file, which stays as it is unless there was none.\<close>

lemma open_journal:
  assumes "fresh_open (rn_journal r)" and "on_journal id enter r = (q, t)"
  shows "session_ok (rn_journal t)" and "ledger_now t = ledger_now r" and "rn_started t = rn_started r" and "rn_files t = rn_files r"
  using assms enter_cases [OF assms(1)] by (auto simp: on_journal_def ledger_now_def split: prod.splits)

lemma run_multi_arm_cases:
  assumes r: "session_ok (rn_journal r)" and unicode: "invocation_text iv" and run: "run_multi_arm iv r = (q, t)"
  obtains (refused) e where "q = Inl e" and "session_ok (rn_journal t)" and "ledger_now t = ledger_now r"
      and "rn_started t = rn_started r" and "rn_files t = rn_files r"
    | (opened) c j r1 r2 where "frozen_contract iv = Inr c" and "init_journal (rc_authority c) = Inr j"
      and "contract_text c"
      and "on_journal id enter (open_runner j r) = (Inr (), r1)" and "fresh_open (rn_journal (open_runner j r))"
      and "session_ok (rn_journal r1)" and "ledger_now r1 = ledger_now r" and "rn_started r1 = rn_started r"
      and "rn_files r1 = rn_files r"
      and "run_multi_arm_locked c (iv_admission iv) (iv_attempts iv) r1 = (q, r2)"
      and "t = r2\<lparr>rn_journal := close_journal (rn_journal r2)\<rparr>"
proof (cases "\<exists>c j. frozen_contract iv = Inr c \<and> init_journal (rc_authority c) = Inr j")
  case False
  have "t = r \<and> (\<exists>e. q = Inl e)"
  proof (cases "frozen_contract iv")
    case (Inl e)
    then show ?thesis using run by (auto simp: run_multi_arm_def op_run)
  next
    case (Inr c)
    with False obtain e where "init_journal (rc_authority c) = Inl e" by (cases "init_journal (rc_authority c)") auto
    then show ?thesis using run Inr by (auto simp: run_multi_arm_def op_run)
  qed
  then show thesis using refused r by auto
next
  case True
  then obtain c j where c: "frozen_contract iv = Inr c" "init_journal (rc_authority c) = Inr j" by blast
  have ct: "contract_text c" by (rule frozen_contract_text [OF c(1) unicode])
  then have fresh: "fresh_open (rn_journal (open_runner j r))" and same: "ledger_now (open_runner j r) = ledger_now r"
      "rn_started (open_runner j r) = rn_started r"
    using open_runner_fresh [OF r c(2)] by (simp_all add: contract_text_def)
  obtain x r1 where x: "on_journal id enter (open_runner j r) = (x, r1)" by (rule prod.exhaust)
  have f: "rn_files (open_runner j r) = rn_files r" by (simp add: open_runner_def)
  note o = open_journal [OF fresh x, unfolded same f]
  show thesis
  proof (cases x)
    case (Inl e)
    then have "q = Inl e" "t = r1" using run c x by (simp_all add: run_multi_arm_def op_run)
    then show thesis using refused o by simp
  next
    case (Inr u)
    then have x: "on_journal id enter (open_runner j r) = (Inr (), r1)" using x by simp
    have "with_journal (run_multi_arm_locked c (iv_admission iv) (iv_attempts iv)) r1 = (q, t)"
      using run c x by (simp add: run_multi_arm_def op_run)
    then obtain r2 where "run_multi_arm_locked c (iv_admission iv) (iv_attempts iv) r1 = (q, r2)"
      "t = r2\<lparr>rn_journal := close_journal (rn_journal r2)\<rparr>"
      by (auto simp: with_journal_def split: prod.splits)
    then show thesis by (rule opened [OF c ct x fresh o])
  qed
qed

lemma run_multi_arm_sound:
  assumes "sound None r" and "invocation_text iv" and "run_multi_arm iv r = (q, t)"
  shows "sound None t"
proof -
  have "session_ok (rn_journal r)" using assms(1) by (simp add: sound_def)
  then show ?thesis
    using assms(2,3)
  proof (rule run_multi_arm_cases)
    fix c j r1 r2
    assume "session_ok (rn_journal r1)" "ledger_now r1 = ledger_now r" "rn_started r1 = rn_started r"
      and c: "contract_text c" and run: "run_multi_arm_locked c (iv_admission iv) (iv_attempts iv) r1 = (q, r2)"
      and t: "t = r2\<lparr>rn_journal := close_journal (rn_journal r2)\<rparr>"
    then have "sound None r1" using assms(1) by (simp add: sound_def governed_def)
    from keepsD [OF keeps_locked [OF c] this run] show ?thesis by (simp add: t close_sound)
  qed (use assms(1) in \<open>auto simp: sound_def governed_def\<close>)
qed

section \<open>Campaigns\<close>

inductive campaign :: "runner \<Rightarrow> runner \<Rightarrow> bool" for r0 where
  campaign_start: "campaign r0 r0"
| campaign_run: "campaign r0 r \<Longrightarrow> invocation_text iv \<Longrightarrow> run_multi_arm iv r = (q, t) \<Longrightarrow> campaign r0 t"
| campaign_world: \<comment> \<open>anything but the journal file changes: the lock, the clock, the checkpoint files\<close>
    "campaign r0 r \<Longrightarrow> journal_file w = journal_file (snd (rn_journal r)) \<Longrightarrow>
     campaign r0 (r\<lparr>rn_journal := (fst (rn_journal r), w), rn_files := files\<rparr>)"

lemma world_sound:
  assumes "sound au r" and "journal_file w = journal_file (snd (rn_journal r))"
  shows "sound au (r\<lparr>rn_journal := (fst (rn_journal r), w), rn_files := files\<rparr>)"
proof -
  have "disk_ok w = disk_ok (snd (rn_journal r))" "disk_state w = disk_state (snd (rn_journal r))"
    using disk_file [OF assms(2)] by blast+
  then show ?thesis using assms(1) by (simp add: sound_def ledger_now_def session_ok_def memory_ok_def disk_ledger_def governed_def)
qed

lemma campaign_sound: "campaign r0 r \<Longrightarrow> sound None r0 \<Longrightarrow> sound None r"
  by (induction rule: campaign.induct) (auto intro: run_multi_arm_sound world_sound)

end
