(* ===== verification/Runner_Stranded.thy ===== *)
theory Runner_Stranded
  imports Runner_Campaign
begin

text \<open>
  A request that was authorized and whose usage was never committed: no later invocation starts a run,
  because no checkpoint row can carry the transaction and the journal is searched for orphans first.
\<close>

section \<open>The memory after opening\<close>

lemma adopt_synced:
  assumes "loaded s" and "adopt_document s = (Inr u, t)"
  shows "jn_state (fst t) = disk_state (snd t)"
proof -
  from assms(1) obtain d st where d: "jn_document (fst s) = Some d" "replay_document d = Inr st" "disk_state (snd s) = Some st"
    by (auto simp: loaded_def)
  have "jn_state (fst t) = Some st \<and> snd t = snd s"
    using assms(2) d unfolding adopt_document_def by (cases s) (auto simp: op_simps)
  then show ?thesis using d(3) by simp
qed

lemma enter_Inr:
  assumes "enter s = (Inr u, t)"
  obtains u1 u2 u3 x y z where "take_lock (apfst (\<lambda>j. j\<lparr>dir_open := True\<rparr>) s) = (Inr x, u1)" and "reject_temporary u1 = (Inr y, u2)"
    and "load_document u2 = (Inr z, u3)" and "adopt_document u3 = (Inr u, t)"
  using assms unfolding enter_def
  by (auto simp: op_simps on_errorS_def os_call_def split: option.splits prod.splits sum.splits)

lemma enter_synced:
  assumes "fresh_open s" and "enter s = (Inr u, t)"
  shows "jn_state (fst t) = disk_state (snd t)"
  using assms(2)
proof (rule enter_Inr)
  fix u1 u2 u3 x y z
  assume l: "take_lock (apfst (\<lambda>j. j\<lparr>dir_open := True\<rparr>) s) = (Inr x, u1)" and j: "reject_temporary u1 = (Inr y, u2)"
    and d: "load_document u2 = (Inr z, u3)" and a: "adopt_document u3 = (Inr u, t)"
  have "fresh_open (apfst (\<lambda>j. j\<lparr>dir_open := True\<rparr>) s)" using quiet_fresh [OF _ assms(1)] by (cases s) (simp add: quiet_def)
  then have "fresh_open u1" using quiet_fresh [OF take_lock_quiet [OF l]] by blast
  then have "fresh_open u2" using reject_temporary_state [OF j] by simp
  then have "loaded u3" using load_document_cases(2) [OF _ d] by blast
  then show ?thesis using a by (rule adopt_synced)
qed

section \<open>A row cannot carry an open request\<close>

text \<open>The steps before the first slot only read; they leave the journal's memory as it is.\<close>

definition remembers :: "journal_state \<Rightarrow> runner \<Rightarrow> bool" where
  "remembers st r \<longleftrightarrow> jn_state (fst (rn_journal r)) = Some st"

lemma on_journal_pure:
  assumes "pure_op m" and "on_journal tick m r = (q, t)" and "remembers st r"
  shows "remembers st t" and "m (rn_journal t) = (q, rn_journal t)" and "rn_started t = rn_started r" and "rn_files t = rn_files r"
    and "ledger_now t = ledger_now r" and "session_ok (rn_journal r) \<Longrightarrow> session_ok (rn_journal t)"
proof -
  have m: "snd (m (locked_tick tick (rn_journal r))) = locked_tick tick (rn_journal r)" using assms(1) unfolding pure_op_def by blast
  then have t: "t = r\<lparr>rn_journal := locked_tick tick (rn_journal r)\<rparr>" and "q = fst (m (locked_tick tick (rn_journal r)))"
    using assms(2) by (auto simp: on_journal_def split: prod.splits)
  then show "m (rn_journal t) = (q, rn_journal t)" using m by (simp add: prod_eq_iff)
  show "remembers st t" using assms(3) by (simp add: t remembers_def locked_tick_def)
  show "rn_started t = rn_started r" "rn_files t = rn_files r" by (simp_all add: t)
  show "session_ok (rn_journal r) \<Longrightarrow> session_ok (rn_journal t)" using locked_tick_ok(1) by (simp add: t)
  have "disk_state (snd (locked_tick tick (rn_journal r))) = disk_state (snd (rn_journal r))"
    using disk_file [of "snd (locked_tick tick (rn_journal r))" "snd (rn_journal r)"] by (simp add: locked_tick_def)
  then show "ledger_now t = ledger_now r" by (simp add: t ledger_now_def disk_ledger_def)
qed

definition committed_in :: "journal_state \<Rightarrow> string list \<Rightarrow> bool" where
  "committed_in st ks \<longleftrightarrow> (\<forall>k \<in> set ks. \<exists>t. map_of (js_transactions st) k = Some t \<and> txn_state t = Committed)"

lemma receipt_op_memory:
  assumes "receipt_op k s = (Inr rc, s)" and "jn_state (fst s) = Some st"
  shows "transaction_receipt_from_state st k = Inr rc"
  using assms by (auto simp: receipt_op_def require_open_def transaction_op_def op_simps split: option.splits bool.splits)

lemma receipt_state_committed:
  assumes "checkpoint_receipt r i stored (receipt_json rc) = Inr u"
  shows "txn_state (rc_transaction rc) = Committed"
proof -
  have s: "field stored ''state'' = JStr ''committed''"
    and m: "same_fields (immutable_keys (receipt_json rc)) stored (receipt_json rc)"
    using assms by (auto simp: checkpoint_receipt_def bindE_eq_Inr check_simps committed_exactly_def)
  have "''state'' \<in> set (immutable_keys (receipt_json rc))"
    by (simp add: immutable_keys_def receipt_json_def Let_def)
  then have "py_eq (field stored ''state'') (field (receipt_json rc) ''state'')"
    using m by (auto simp: same_fields_def list_all_iff)
  moreover have "field (receipt_json rc) ''state'' = JStr (state_name (txn_state (rc_transaction rc)))"
    by (simp add: receipt_json_def Let_def dict_get_none_def)
  ultimately have "''committed'' = state_name (txn_state (rc_transaction rc))" using s by simp
  then show ?thesis by (cases "txn_state (rc_transaction rc)") simp_all
qed

lemma row_receipt_committed:
  assumes "validate_checkpoint_budget_receipt row i s = (Inr k, s)" and "jn_state (fst s) = Some st"
  shows "\<exists>t. map_of (js_transactions st) k = Some t \<and> txn_state t = Committed"
proof -
  from assms(1) obtain stored rc where op: "receipt_op k s = (Inr rc, s)"
    and c: "checkpoint_receipt row i stored (receipt_json rc) = Inr ()"
    by (auto simp: validate_checkpoint_budget_receipt_def op_simps split: json.splits dest: pure_opD [OF pure_receipt_op])
  have "transaction_receipt_from_state st k = Inr rc" by (rule receipt_op_memory [OF op assms(2)])
  moreover note receipt_state_committed [OF c]
  ultimately show ?thesis
    by (auto simp: transaction_receipt_from_state_def bindE_eq_Inr split: option.splits)
qed

section \<open>Steps that keep a state and say something of their result\<close>

definition delivers :: "('s \<Rightarrow> bool) \<Rightarrow> ('s, 'a) op \<Rightarrow> ('a \<Rightarrow> bool) \<Rightarrow> bool" where
  "delivers P m Q \<longleftrightarrow> (\<forall>s. P s \<longrightarrow> P (snd (m s)) \<and> (\<forall>x. fst (m s) = Inr x \<longrightarrow> Q x))"

lemma deliversI:
  assumes "\<And>s r t. P s \<Longrightarrow> m s = (r, t) \<Longrightarrow> P t \<and> (\<forall>x. r = Inr x \<longrightarrow> Q x)"
  shows "delivers P m Q"
  unfolding delivers_def
proof (intro allI impI)
  fix s assume "P s"
  then show "P (snd (m s)) \<and> (\<forall>x. fst (m s) = Inr x \<longrightarrow> Q x)" using assms [of s "fst (m s)" "snd (m s)"] by simp
qed

lemma deliversD:
  assumes "delivers P m Q" and "P s" and "m s = (r, t)"
  shows "P t" and "r = Inr x \<Longrightarrow> Q x"
  using assms(1) [unfolded delivers_def, rule_format, OF assms(2)] assms(3) by simp_all

lemma delivers_bind:
  assumes m: "delivers P m Q" and f: "\<And>x. Q x \<Longrightarrow> delivers P (f x) R"
  shows "delivers P (bindS m f) R"
proof (rule deliversI)
  fix s r t assume s: "P s" and run: "bindS m f s = (r, t)"
  obtain x u where x: "m s = (x, u)" by (rule prod.exhaust)
  note u = deliversD [OF m s x]
  show "P t \<and> (\<forall>y. r = Inr y \<longrightarrow> R y)"
  proof (cases x)
    case (Inl e)
    then show ?thesis using run x u(1) by (auto simp: bindS_def)
  next
    case (Inr y)
    then have "f y u = (r, t)" using run x by (simp add: bindS_def)
    then show ?thesis using deliversD [OF f [OF u(2) [OF Inr]] u(1)] by blast
  qed
qed

lemma delivers_value:
  "Q x \<Longrightarrow> delivers P (returnS x) Q" "delivers P (liftS q) (\<lambda>x. q = Inr x)" "delivers P (whenS b e) (\<lambda>_. \<not> b)"
  "delivers P (getS g) (\<lambda>_. True)"
  by (simp_all add: delivers_def returnS_def liftS_def whenS_def getS_def)

lemma delivers_foldS:
  assumes "\<And>x acc. Q acc \<Longrightarrow> delivers P (f x acc) Q"
  shows "Q acc \<Longrightarrow> delivers P (foldS f xs acc) Q"
  by (induction xs arbitrary: acc) (auto intro: delivers_value delivers_bind assms)

section \<open>No run while a request is open\<close>

definition reading :: "journal_state \<Rightarrow> runner \<Rightarrow> runner \<Rightarrow> bool" where
  "reading st r0 r \<longleftrightarrow> remembers st r \<and> rn_started r = rn_started r0 \<and> rn_files r = rn_files r0 \<and> ledger_now r = ledger_now r0 \<and>
    session_ok (rn_journal r)"

lemma delivers_journal:
  assumes "pure_op m" and "\<And>s x. jn_state (fst s) = Some st \<Longrightarrow> m s = (Inr x, s) \<Longrightarrow> Q x"
  shows "delivers (reading st r0) (on_journal tick m) Q"
proof (rule deliversI)
  fix r q t assume r: "reading st r0 r" and run: "on_journal tick m r = (q, t)"
  note p = on_journal_pure [OF assms(1) run, of st]
  show "reading st r0 t \<and> (\<forall>x. q = Inr x \<longrightarrow> Q x)"
    using r p assms(2) [of "rn_journal t"] by (auto simp: reading_def remembers_def)
qed

lemma check_receipts_committed: "delivers (reading st r0) (check_receipts c tasks tick collected) (committed_in st)"
proof -
  have row: "delivers (reading st r0) (check_row_receipt c tasks tick ae row ks) (committed_in st)"
    if "committed_in st ks" for ae row ks
    unfolding check_row_receipt_def
    by (intro delivers_bind [OF delivers_value(2)] delivers_bind [OF delivers_value(3)] delivers_value(1)
        delivers_bind [OF delivers_journal [where Q = "\<lambda>k. committed_in st (k # ks)"]])
      (use that row_receipt_committed in \<open>auto simp: committed_in_def\<close>)
  have arm: "delivers (reading st r0) (bindS (liftS (arm_runtime_env (rc_experiment c) arm (rc_paths c))) (\<lambda>env.
      foldS (check_row_receipt c tasks tick (arm, env)) rows ks)) (committed_in st)" if "committed_in st ks" for arm rows ks
    by (rule delivers_bind [OF delivers_value(2)]) (rule delivers_foldS [OF row that])
  show ?thesis
    unfolding check_receipts_def
    by (rule delivers_foldS) (auto simp: committed_in_def [of st "[]"] intro: arm split: prod.split)
qed

lemma list_all2_member: "list_all2 P xs ys \<Longrightarrow> x \<in> set xs \<Longrightarrow> \<exists>y \<in> set ys. P x y"
  by (induction rule: list_all2_induct) auto

lemma orphan_refused:
  assumes st: "stored_state st" and mem: "jn_state (fst s) = Some st" and t: "map_of (js_transactions st) k = Some t"
    and open_request: "txn_state t = Request_Authorized" and ks: "committed_in st ks"
  shows "require_no_orphans ks s \<noteq> (Inr u, s)"
proof
  assume "require_no_orphans ks s = (Inr u, s)"
  then obtain rcs where rcs: "transaction_receipts s = (Inr rcs, s)"
    and none: "\<not> list_ex (\<lambda>rc. txn_state (rc_transaction rc) \<noteq> Aborted_Pre_Request \<and>
        transaction_id (rc_transaction rc) \<notin> set ks) rcs"
    by (auto simp: require_no_orphans_def op_simps)
  from rcs have all: "list_all2 (\<lambda>t rc. transaction_receipt_from_state st (transaction_id t) = Inr rc)
      (sort_key reservation_revision (map snd (js_transactions st))) rcs"
    using mem by (auto simp: transaction_receipts_def require_open_def op_simps mapE_eq_Inr split: option.splits bool.splits)
  have "t \<in> set (sort_key reservation_revision (map snd (js_transactions st)))" using map_of_SomeD [OF t] by force
  then obtain rc where rc: "rc \<in> set rcs" "transaction_receipt_from_state st (transaction_id t) = Inr rc"
    using list_all2_member [OF all] by blast
  have k: "transaction_id t = k" using stored_transaction(1) [OF st t] by (simp add: txn_ok_def)
  obtain x where x: "map_of (js_transactions st) k = Some x" "transaction_id (rc_transaction rc) = k"
    "rc_transaction rc = x\<lparr>evidence_sha256 := None, resume_events := []\<rparr>"
    by (rule receipt_transaction [OF rc(2) [unfolded k] st])
  then have "txn_state (rc_transaction rc) = Request_Authorized" using t open_request by simp
  with x(2) have "k \<in> set ks" using none rc(1) by (auto simp: list_ex_iff)
  then show False using ks t open_request by (auto simp: committed_in_def)
qed

definition stranded :: "string \<Rightarrow> runner \<Rightarrow> bool" where
  \<comment> \<open>the transaction was authorized and never settled\<close>
  "stranded k r \<longleftrightarrow> (\<exists>i b. ledger_now r k = Some (i, Spending b))"

lemma stranded_transaction:
  assumes "stranded k r" and "disk_state (snd (rn_journal r)) = Some st"
  shows "\<exists>t. map_of (js_transactions st) k = Some t \<and> txn_state t = Request_Authorized"
proof -
  from assms obtain i b where "ledger_of (js_transactions st) k = Some (i, Spending b)"
    by (auto simp: stranded_def ledger_now_def disk_ledger_def ledger_st_def)
  then obtain t where t: "map_of (js_transactions st) k = Some t" and p: "phase_of t = Spending b"
    by (auto simp: ledger_of_def entry_of_def)
  from p have "txn_state t = Request_Authorized" by (cases "txn_state t") (simp_all add: phase_of_def)
  with t show ?thesis by blast
qed

lemma locked_refuses:
  assumes st: "stored_state st" and t: "map_of (js_transactions st) k = Some t" "txn_state t = Request_Authorized"
  shows "delivers (reading st r0) (run_multi_arm_locked c ad attempts) (\<lambda>_. False)"
proof -
  have orphan: "delivers (reading st r0) (on_journal tick (require_no_orphans ks)) (\<lambda>_. False)" if "committed_in st ks" for tick ks
    using orphan_refused [OF st _ t that] by (intro delivers_journal) auto
  have "delivers (reading st r0) (admit_checkpoints c tasks ad) (\<lambda>_. False)" for tasks
    unfolding admit_checkpoints_def
    by (intro delivers_bind [OF delivers_value(4)] delivers_bind [OF delivers_value(2)]
        delivers_bind [OF check_receipts_committed] delivers_bind [OF orphan]) simp_all
  then show ?thesis
    unfolding run_multi_arm_locked_def by (intro delivers_bind [OF delivers_value(2)] delivers_bind) (assumption | simp)+
qed

lemma run_stranded:
  assumes ok: "session_ok (rn_journal r)" and unicode: "invocation_text iv" and k: "stranded k r"
    and run: "run_multi_arm iv r = (q, t)"
  shows "(\<exists>e. q = Inl e) \<and> rn_started t = rn_started r \<and> rn_files t = rn_files r \<and> ledger_now t = ledger_now r \<and>
    session_ok (rn_journal t)"
  using ok unicode run
proof (rule run_multi_arm_cases)
  fix c j r1 r2
  assume fresh: "fresh_open (rn_journal (open_runner j r))" and enter: "on_journal id enter (open_runner j r) = (Inr (), r1)"
    and r1: "session_ok (rn_journal r1)" "ledger_now r1 = ledger_now r" "rn_started r1 = rn_started r" "rn_files r1 = rn_files r"
    and body: "run_multi_arm_locked c (iv_admission iv) (iv_attempts iv) r1 = (q, r2)"
    and t: "t = r2\<lparr>rn_journal := close_journal (rn_journal r2)\<rparr>"
    and c: "contract_text c"
  have sync: "jn_state (fst (rn_journal r1)) = disk_state (snd (rn_journal r1))"
    using enter enter_synced [OF fresh] by (auto simp: on_journal_def split: prod.splits)
  have "ledger_now r1 k \<noteq> None" using k r1(2) by (auto simp: stranded_def)
  then obtain st where st: "disk_state (snd (rn_journal r1)) = Some st"
    by (auto simp: ledger_now_def disk_ledger_def split: option.splits)
  have stored: "stored_state st" using r1(1) disk_stored [OF _ st] by (simp add: session_ok_def)
  obtain x where x: "map_of (js_transactions st) k = Some x" "txn_state x = Request_Authorized"
    using stranded_transaction [OF _ st] k r1(2) by (auto simp: stranded_def)
  have "reading st r1 r1" using sync st r1(1) by (simp add: reading_def remembers_def)
  note d = deliversD [OF locked_refuses [OF stored x] this body]
  have "session_ok (close_journal u) = session_ok u" "snd (close_journal u) = snd u" for u
    by (cases u; simp add: close_journal_def session_ok_def memory_ok_def)+
  moreover have "\<exists>e. q = Inl e" using d(2) by (cases q) blast+
  ultimately show ?thesis using d(1) r1 unfolding reading_def t ledger_now_def by simp
qed (use ok in auto)

text \<open>C2: once a request was authorized and its usage not committed (the child failed, the process died,
  the fault hook raised), every further invocation of the campaign is refused before it starts a run:
  nothing is started again and the ledger stays as it is, whatever happens to the checkpoint files.\<close>

theorem stranded_request_blocks:
  assumes "campaign r0 r" and "session_ok (rn_journal r0)" and "stranded k r0"
  shows "rn_started r = rn_started r0 \<and> ledger_now r = ledger_now r0"
proof -
  have "rn_started r = rn_started r0 \<and> ledger_now r = ledger_now r0 \<and> session_ok (rn_journal r)"
    using assms
  proof (induction rule: campaign.induct)
    case (campaign_run r iv q t)
    have IH: "rn_started r = rn_started r0" "ledger_now r = ledger_now r0" "session_ok (rn_journal r)"
      using campaign_run.IH campaign_run.prems by blast+
    then have "stranded k r" using campaign_run.prems(2) unfolding stranded_def by (simp only:)
    from run_stranded [OF IH(3) campaign_run.hyps(2) this campaign_run.hyps(3)] IH show ?case by (simp only:)
  next
    case (campaign_world r w files)
    then have "disk_ok w = disk_ok (snd (rn_journal r))" "disk_state w = disk_state (snd (rn_journal r))"
      using disk_file [of w "snd (rn_journal r)"] by blast+
    moreover have "rn_started r = rn_started r0" "ledger_now r = ledger_now r0" "session_ok (rn_journal r)"
      using campaign_world.IH campaign_world.prems by blast+
    ultimately show ?case
      by (simp add: ledger_now_def session_ok_def memory_ok_def disk_ledger_def)
  qed simp
  then show ?thesis by blast
qed

end
