(* ===== verification/Runner_Process_Properties.thy ===== *)
theory Runner_Process_Properties
  imports Runner_Process Experiment_Plan_Properties
begin

text \<open>
  What the child of a rollout sees of the host, and how its interpreter is pinned.
\<close>

section \<open>The environment of a baseline\<close>

definition treatment_variable :: "string \<Rightarrow> bool" where
  "treatment_variable k \<longleftrightarrow> list_ex (\<lambda>p. is_prefix p k) [''METACODES_KG_'', ''METACODES_FORMAL_'', ''METACODES_PLUGIN_'',
     ''METASK_'', ''TINYKG_'', ''CLAUDE_CODE_'']"

definition injection_variable :: "string \<Rightarrow> bool" where
  "injection_variable k \<longleftrightarrow> k \<in> set host_injection_env_keys \<or> list_ex (\<lambda>p. is_prefix p k) host_injection_env_prefixes"

lemma is_prefix_iff: "is_prefix p s \<longleftrightarrow> (\<exists>r. s = p @ r)"
proof
  assume "is_prefix p s"
  then have "s = p @ drop (length p) s" unfolding is_prefix_def by (metis append_take_drop_id)
  then show "\<exists>r. s = p @ r" ..
qed auto

lemma prefix_longer: "is_prefix (p @ q) k \<Longrightarrow> is_prefix p k"
  by (auto simp: is_prefix_iff)

definition clean_variable :: "string \<Rightarrow> bool" where
  "clean_variable k \<longleftrightarrow> \<not> treatment_variable k \<and> \<not> injection_variable k"

lemma host_variable_clean:
  assumes "k \<in> set (keys (runner_env environ))"
  shows "clean_variable k"
  unfolding clean_variable_def
proof
  have "\<not> is_prefix ''METACODES_'' k" "\<not> is_prefix ''METASK_'' k" "\<not> is_prefix ''TINYKG_'' k" "\<not> is_prefix ''CLAUDE_CODE_'' k"
    using runner_env_keys(1) [OF assms] by (simp_all add: treatment_prefixes_def)
  then show "\<not> treatment_variable k"
    using prefix_longer [of "''METACODES_''" "''KG_''" k] prefix_longer [of "''METACODES_''" "''FORMAL_''" k]
      prefix_longer [of "''METACODES_''" "''PLUGIN_''" k]
    by (auto simp: treatment_variable_def)
  show "\<not> injection_variable k" using runner_env_keys(3,4) [OF assms] by (simp add: injection_variable_def)
qed

lemma fixed_variables_clean:
  "list_all clean_variable [''PATH'', ''E2E_BIN_PATH'', ''E2E_KEEP'', ''E2E_TRIAL'', ''E2E_RUN_LABEL'', ''E2E_HARNESS_CONFIG_ID'',
     ''E2E_MODEL_PROVIDER'', ''E2E_MODEL'', ''E2E_EVAL_SUITE'', ''E2E_HARNESS_REVISION'', ''METACODES_TASK_HINT'', ''E2E_TIMEOUT'',
     ''E2E_MAX_METERED_TOKENS'', ''E2E_MAX_COST_USD'', ''E2E_API_KEY_FD'', ''METACODES_LONG_HORIZON_ARM'',
     ''METACODES_FORCE_COMPACT_AT'', ''METACODES_FORCE_COMPACT_KEEP'', ''METACODES_MAX_TURNS'']"
  by code_simp

lemmas fixed_clean = fixed_variables_clean [unfolded list.pred_inject simp_thms]

lemma baseline_env_clean:
  assumes "arm_runtime_env e arm d = Inr env" and "arm \<noteq> ''tinykg''"
  shows "list_all clean_variable (keys env)"
  using assms by (auto simp only: arm_runtime_env_def list.pred_inject list.map fst_conv append_Nil2 if_False sum.inject sum.distinct
      fixed_clean split: if_splits json.splits option.splits)

lemma optional_clean: "clean_variable k \<Longrightarrow> list_all clean_variable (keys (optional k f x))"
  by (cases x) (simp_all add: optional_def)

lemma requested_clean:
  assumes "rq_store rq = None" and "rq_domain rq = None" and "rq_env rq = Some env" and "list_all clean_variable (keys env)"
  shows "list_all clean_variable (keys (requested_env rq p))"
proof -
  have none: "optional k f None = []" for k and f :: "'b \<Rightarrow> string" by (simp add: optional_def)
  show ?thesis
    unfolding requested_env_def assms(1-3) option.case none
    by (simp only: map_append list_all_append list.map fst_conv list.pred_inject fixed_clean optional_clean assms(4) simp_thms)
qed

text \<open>C36: whatever the environment of the host is, the child of a baseline rollout has no variable of
  the treatment and none through which a shell, an interpreter or the loader can be made to run other
  code; a variable of the host is only passed on when it is of neither kind.\<close>

theorem baseline_child_isolated:
  assumes "arm_runtime_env e arm d = Inr env" and "arm \<noteq> ''tinykg''" and "rq_env rq = Some env"
    and "rq_store rq = None" and "rq_domain rq = None" and "run_child rq p = Inr (argv, child)"
  shows "\<forall>k \<in> set (keys child). \<not> treatment_variable k \<and> \<not> injection_variable k"
proof -
  have "list_all clean_variable (keys (requested_env rq p))"
    by (rule requested_clean [OF assms(4,5,3) baseline_env_clean [OF assms(1,2)]])
  then have requested: "clean_variable k" if "k \<in> set (keys (requested_env rq p))" for k
    using that unfolding list_all_iff by blast
  have "clean_variable k" if "k \<in> set (keys child)" for k
  proof -
    have "k = ''PATH'' \<or> k \<in> set (keys (requested_env rq p)) \<or> k \<in> set (keys (runner_env (pr_environ p)))"
      using that unfolding run_child_keys(1) [OF assms(6)] by (simp only: insert_iff Un_iff)
    then show ?thesis
      by (elim disjE) (simp only: fixed_clean, rule requested, assumption, rule host_variable_clean, assumption)
  qed
  then show ?thesis unfolding clean_variable_def by (intro ballI)
qed

definition demo_request :: "environ \<Rightarrow> run_request" where
  "demo_request env = \<lparr>rq_variant = ''claude_style'', rq_trial = 0, rq_scenario = ''t1'', rq_provider = ''anthropic'',
     rq_model = ''glm-5.2'', rq_revision = ''r'', rq_config_id = None, rq_env = Some env, rq_allow_invalid = True,
     rq_timeout = Some (JInt 60), rq_max_tokens = Some 1, rq_max_cost = Some (Fin 1), rq_api_key = Some ''key'', rq_hint = None,
     rq_store = None, rq_domain = None\<rparr>"

definition demo_process :: process where
  "demo_process = \<lparr>pr_environ = [(''PATH'', ''/bin''), (''TINYKG_HOME'', ''/kg''), (''LD_PRELOAD'', ''/x.so''), (''HOME'', ''/root'')],
     pr_root = ''/repo'', pr_binary = ''/bin/metacodes'', pr_suite = ''/repo/suite.json'', pr_archives = [],
     pr_executable = ''/usr/bin/python3'', pr_executable_ok = True, pr_shim = Some ''/tmp/shim'', pr_pipe_buf = 4096,
     pr_pipe_wrote = 3, pr_before = [''a''], pr_after = [''a'', ''b''], pr_code = Inr 0\<rparr>"

lemma demo_child:
  assumes "arm_runtime_env calibration_experiment ''claude_style'' demo_paths = Inr env"
  shows "\<exists>argv child. run_child (demo_request env) demo_process = Inr (argv, child) \<and> ''HOME'' \<in> set (keys child)"
proof -
  have "check_runtime_env env = Inr ()"
    using assms by (auto simp: arm_runtime_env_def check_runtime_env_def runtime_env_allowlist_def check_simps raise_if_def
        demo_paths_def calibration_experiment_def demo_experiment_def dict_get_none_def int_str_def nat_str_not_Nil [symmetric]
        split: if_splits json.splits option.splits)
  then have "run_once_checks (demo_request env) demo_process = Inr ()"
    by (simp add: run_once_checks_def demo_request_def demo_process_def raise_if_def d_less_eq.simps finite_double_def)
  moreover obtain child where "interpreter_shim demo_process (env_update (requested_env (demo_request env) demo_process)
      (runner_env (pr_environ demo_process))) = Inr child"
    by (simp add: interpreter_shim_def demo_process_def)
  ultimately have r: "run_child (demo_request env) demo_process = Inr
      ([pr_root demo_process @ ''/tests/e2e/run_e2e.sh'', rq_scenario (demo_request env)], child)"
    by (simp add: run_child_def)
  have "''HOME'' \<in> set (keys (runner_env (pr_environ demo_process)))"
    by (simp add: runner_env_def hermetic_env_def demo_process_def treatment_prefixes_def host_injection_env_keys_def
        host_injection_env_prefixes_def is_prefix_def)
  then have "''HOME'' \<in> set (keys child)" using run_child_keys(1) [OF r] by blast
  with r show ?thesis by blast
qed

theorem baseline_child_isolated_witness:
  "\<exists>env argv child. arm_runtime_env calibration_experiment ''claude_style'' demo_paths = Inr env \<and>
     run_child (demo_request env) demo_process = Inr (argv, child) \<and> ''HOME'' \<in> set (keys child) \<and>
     ''TINYKG_HOME'' \<notin> set (keys child) \<and> ''LD_PRELOAD'' \<notin> set (keys child)"
proof -
  obtain env where e: "arm_runtime_env calibration_experiment ''claude_style'' demo_paths = Inr env"
    using demo_env [of "''claude_style''"] by (auto simp: arm_ids_def)
  obtain argv child where c: "run_child (demo_request env) demo_process = Inr (argv, child)" "''HOME'' \<in> set (keys child)"
    using demo_child [OF e] by blast
  have "\<forall>k \<in> set (keys child). \<not> treatment_variable k \<and> \<not> injection_variable k"
    by (rule baseline_child_isolated [OF e _ _ _ _ c(1)]) (simp_all add: demo_request_def)
  moreover have "treatment_variable ''TINYKG_HOME''" "injection_variable ''LD_PRELOAD''"
    by (simp_all add: treatment_variable_def injection_variable_def host_injection_env_prefixes_def is_prefix_def)
  ultimately have "''TINYKG_HOME'' \<notin> set (keys child)" "''LD_PRELOAD'' \<notin> set (keys child)" by blast+
  with e c show ?thesis by blast
qed

section \<open>The interpreter shim\<close>

text \<open>
  How a POSIX shell reads a word made of single-quoted parts, backslash escapes and plain characters;
  the first argument says whether a quote is open. A character that the shell would treat specially
  makes it \<open>None\<close>, as does a quote that is never closed.
\<close>

definition plain_char :: "char \<Rightarrow> bool" where
  "plain_char c \<longleftrightarrow> ascii_alnum c \<or> c \<in> {CHR ''-'', CHR ''_'', CHR ''.'', CHR ''/''}"

fun shell_word :: "bool \<Rightarrow> string \<Rightarrow> string option" where
  "shell_word True [] = None"
| "shell_word True (c # s) = (if c = CHR 0x27 then shell_word False s else map_option ((#) c) (shell_word True s))"
| "shell_word False [] = Some []"
| "shell_word False (c # s) =
    (if c = CHR 0x27 then shell_word True s
     else if c = backslash then (case s of [] \<Rightarrow> None | d # t \<Rightarrow> map_option ((#) d) (shell_word False t))
     else if plain_char c then map_option ((#) c) (shell_word False s) else None)"

lemma shell_word_quoted:
  "shell_word True (concat (map (\<lambda>c. if c = CHR 0x27 then [CHR 0x27, backslash, CHR 0x27, CHR 0x27] else [c]) s) @ [CHR 0x27]) = Some s"
  by (induction s) simp_all

text \<open>The shell reads the quoted path of the interpreter back as that path, whatever characters
  are in it, so the launcher runs exactly the interpreter that wrote it.\<close>

theorem shell_quote_read_back: "shell_word False (shell_quote s) = Some s"
  using shell_word_quoted by (simp add: shell_quote_def)

end
