(* ===== verification/Runner_Demo.thy ===== *)
theory Runner_Demo
  imports Runner_Stranded Runner_Process_Properties Budget_Properties
begin

text \<open>
  A concrete invocation of the multi-arm runner: the calibration experiment on a fresh journal. The
  checkpoints are empty, the first slot is reserved, authorized and its child started; the child is then
  killed, so the request stays open. The digests stay symbolic.
\<close>

section \<open>The invocation\<close>

definition demo_kernel :: json_object where
  "demo_kernel = [(''artifact_fingerprint'', JStr (replicate 64 (CHR ''c''))), (''path'', JStr ''/f''), (''sha256'', JStr ''0'')]"

definition demo_host :: host where
  "demo_host = \<lparr>stays_inside = (\<lambda>_. True), regular_file = (\<lambda>_. True), symbolic_link = (\<lambda>_. False), file_text = (\<lambda>_. None),
     resolved_path = (\<lambda>p. p), git_listing = (\<lambda>_ _. None), platform_name = ''linux'', python_release = ''3.12''\<rparr>"

definition demo_machine :: machine where
  "demo_machine = \<lparr>mc_binary = Some ''m'', mc_tinykg = Some ''k'', mc_kernel = Inr demo_kernel\<rparr>"

definition demo_attempt :: attempt where
  "demo_attempt = \<lparr>at_before = demo_machine, at_reserved = demo_machine, at_returned = demo_machine, at_tick = (\<lambda>_ w. w),
     at_faults = [], at_process = demo_process\<lparr>pr_code := Inl (OS_Error ''killed'')\<rparr>, at_import = (\<lambda>_. Inr []),
     at_host = demo_host, at_attest = (\<lambda>_ _. Inr JNull), at_write = None\<rparr>"

definition demo_admission :: admission where
  "demo_admission = \<lparr>ad_host = demo_host, ad_binary = Some ''m'', ad_attest = (\<lambda>_ _. Inr JNull), ad_api_key = Inr ''key'',
     ad_mkdir = Inr (), ad_tick = (\<lambda>w. w)\<rparr>"

definition demo_invocation :: invocation where
  "demo_invocation = \<lparr>iv_experiment = calibration_experiment, iv_suite = calibration_suite, iv_depth = 1, iv_host = demo_host,
     iv_allow_paid = True, iv_executable = True, iv_revision = ''r'', iv_suite_is_file = True, iv_suite_path = Some ''s.json'',
     iv_used = (Fin 0, 0), iv_binary = Some ''m'', iv_tinykg = Inr (''/k'', sha256_hex ''k''), iv_kernel = Inr demo_kernel,
     iv_receipt = None, iv_evidence = None, iv_bundle_attest = (\<lambda>_ _ _. Inr JNull), iv_journal = Some ''/j'', iv_output = ''/o'',
     iv_auth_file = True, iv_admission = demo_admission, iv_attempts = (\<lambda>_. demo_attempt), iv_compensated = False\<rparr>"

definition demo_runner :: runner where
  "demo_runner = \<lparr>rn_journal = (demo_journal, demo_world), rn_files = (\<lambda>_. None), rn_collected = [], rn_done = (\<lambda>_. []),
     rn_step = 0, rn_calls = [], rn_started = []\<rparr>"

section \<open>Its contract\<close>

definition demo_x :: execution_identity where
  "demo_x = \<lparr>metacodes_sha256 = sha256_hex ''m'', tinykg_sha256 = sha256_hex ''k'',
     formal_kernel_fingerprint = replicate 64 (CHR ''c''), harness_revision = ''r''\<rparr>"

definition no_prior :: prior_usage where
  "no_prior = \<lparr>stage_prior_cost = Fin 0, stage_prior_tokens = 0, aggregate_prior_cost = Fin 0, aggregate_prior_tokens = 0\<rparr>"

lemma calibration_key:
  "map_of calibration_experiment ''budget'' = Some (JObj demo_budget)" "map_of calibration_experiment ''suite'' = Some (JStr ''s.json'')"
  "map_of calibration_experiment ''trials'' = Some (JInt 6)" "map_of calibration_experiment ''experiment_id'' = Some (JStr ''e'')"
  "map_of calibration_experiment ''stage'' = Some (stage_object ''calibration'')"
  "map_of calibration_experiment ''model'' = Some (JObj [(''provider'', JStr ''anthropic''), (''id'', JStr ''glm-5.2'')])"
  by (simp_all add: calibration_experiment_def demo_experiment_def demo_budget_def)

lemma demo_texts:
  "text_at calibration_experiment [''suite''] = Inr ''s.json''" "text_at calibration_experiment [''experiment_id''] = Inr ''e''"
  "text_at calibration_experiment [''stage'', ''id''] = Inr ''calibration''"
  "text_at calibration_experiment [''model'', ''provider''] = Inr ''anthropic''"
  "text_at calibration_experiment [''model'', ''id''] = Inr ''glm-5.2''"
  "json_at calibration_experiment [''stage'', ''id''] = Inr (JStr ''calibration'')"
  "json_at calibration_experiment [''budget''] = Inr (JObj demo_budget)"
  "json_at calibration_experiment [''budget'', ''paid_rollouts_enabled''] = Inr (JBool True)"
  "json_at calibration_experiment [''experiment_id''] = Inr (JStr ''e'')"
  "json_at calibration_experiment [''model''] = Inr (JObj [(''provider'', JStr ''anthropic''), (''id'', JStr ''glm-5.2'')])"
  "json_at calibration_experiment [''trials''] = Inr (JInt 6)"
  by (simp_all add: text_at_def json_at_def calibration_key stage_object_def demo_budget_def)

lemma demo_entry: "entry_checks demo_invocation = Inr (Fin 1, 1)"
proof -
  have host: "experiment_files.truncate demo_host = demo_files (\<lambda>_. None)"
    by (simp add: demo_host_def demo_files_def experiment_files.truncate_def)
  have path: "resolved_path demo_host p = p" for p by (simp add: demo_host_def)
  have v: "validate_experiment 1 (demo_files (\<lambda>_. None)) calibration_experiment calibration_suite = Inr ()"
    using calibration_accepted [of 0] by (simp only: One_nat_def)
  have b: "\<not> blank ''r''" by (intro nonblank_letter) (simp_all add: char_code_def)
  show ?thesis
    unfolding entry_checks_def
    by (simp add: demo_invocation_def host path v demo_texts demo_fixed b raise_if_def finite_double_def d_less_def
        del: One_nat_def validate_experiment.simps)
qed

lemma demo_double_json: "double_json (Fin 0) = JFloat (FDec 0 0)" "double_json (Fin 1) = JFloat (FDec 1 0)"
proof -
  have "repr_pos 1 = (1, 0)" by code_simp
  then show "double_json (Fin 0) = JFloat (FDec 0 0)" "double_json (Fin 1) = JFloat (FDec 1 0)" by simp_all
qed

lemma demo_money:
  "usd_to_microusd (JInt 100) = Inr 100000000" "usd_to_microusd (JInt 200) = Inr 200000000"
  "usd_to_microusd_ceiling (double_json (Fin 0)) = Inr 0" "usd_to_microusd (double_json (Fin 1)) = Inr 1000000"
  unfolding demo_double_json by (simp_all add: decimal_eval)

lemma hash_hex: "is_hash_str h \<Longrightarrow> hex_str 64 h"
  by (simp add: is_hash_str_def hex_str_def list_all_iff)

lemma demo_arm_ids: "\<exists>ids. arm_config_ids calibration_experiment suite demo_x = Inr ids \<and> map fst ids = arm_ids"
proof -
  have "hex_str 64 (replicate 64 (CHR ''c''))" by (simp add: hex_str_def list_all_iff hex_char_def char_code_def)
  then show ?thesis
    by (simp add: arm_config_ids_def demo_x_def raise_if_def hash_hex dict_get_none_def calibration_key arm_ids_def)
qed

lemma demo_authority_Inr:
  "\<exists>a. multi_arm_budget_authority calibration_experiment calibration_suite no_prior = Inr a \<and>
     auth_provider_identity a = ''anthropic'' \<and> total_cost_microusd a = 100000000 \<and> total_metered_tokens a = 100 \<and>
     is_hash_str (auth_manifest_sha256 a) \<and> is_hash_str (auth_model_fingerprint a)"
proof -
  have "json_at calibration_suite [''suite_id''] = Inr (JStr ''s'')"
    by (simp add: json_at_def calibration_suite_def demo_tasks_suite_def)
  then show ?thesis
    by (simp add: multi_arm_budget_authority_def no_prior_def demo_texts demo_money demo_budget_def raise_if_def Let_def
        del: double_json.simps)
qed

definition demo_contract_is :: "run_contract \<Rightarrow> bool" where
  \<comment> \<open>all of the contract but the digests\<close>
  "demo_contract_is c \<longleftrightarrow> rc_experiment c = calibration_experiment \<and> rc_suite c = calibration_suite \<and> rc_identity c = demo_x \<and>
    rc_paths c = \<lparr>tinykg_path = ''/k'', kernel_path = ''/f'', kernel_sha256 = ''0''\<rparr> \<and> rc_kernel c = demo_kernel \<and>
    map fst (rc_config_ids c) = arm_ids \<and> rc_cap c = (Fin 1, 1) \<and> rc_prior c = no_prior \<and> \<not> rc_compensated c \<and>
    auth_provider_identity (rc_authority c) = ''anthropic'' \<and> total_cost_microusd (rc_authority c) = 100000000 \<and>
    total_metered_tokens (rc_authority c) = 100 \<and> is_hash_str (auth_manifest_sha256 (rc_authority c)) \<and>
    is_hash_str (auth_model_fingerprint (rc_authority c))"

lemma demo_contract: "\<exists>c. frozen_contract demo_invocation = Inr c \<and> demo_contract_is c"
proof -
  obtain ids where ids: "arm_config_ids calibration_experiment calibration_suite demo_x = Inr ids" "map fst ids = arm_ids"
    using demo_arm_ids by blast
  obtain a where a: "multi_arm_budget_authority calibration_experiment calibration_suite no_prior = Inr a"
    and facts: "auth_provider_identity a = ''anthropic''" "total_cost_microusd a = 100000000" "total_metered_tokens a = 100"
      "is_hash_str (auth_manifest_sha256 a)" "is_hash_str (auth_model_fingerprint a)" using demo_authority_Inr by blast
  have kernel: "text_at demo_kernel [''artifact_fingerprint''] = Inr (replicate 64 (CHR ''c''))"
    "text_at demo_kernel [''path''] = Inr ''/f''" "text_at demo_kernel [''sha256''] = Inr ''0''"
    by (simp_all add: text_at_def json_at_def demo_kernel_def)
  have strip: "strip_text ''r'' = ''r''" by code_simp
  have prior: "\<lparr>stage_prior_cost = Fin 0, stage_prior_tokens = 0, aggregate_prior_cost = d_add (Fin 0) (Fin 0),
      aggregate_prior_tokens = 0 + 0\<rparr> = no_prior"
    using float_of_small_int [of 0] by (simp add: no_prior_def)
  have used: "promotion_usage demo_invocation x = Inr (Fin 0, 0)" for x
    by (simp add: promotion_usage_def demo_invocation_def demo_texts)
  have external: "require_external_budget_journal ''/j'' ''/o'' = Inr ''/j''"
    by (simp add: require_external_budget_journal_def is_prefix_def slash_def)
  have f: "iv_binary demo_invocation = Some ''m''" "iv_tinykg demo_invocation = Inr (''/k'', sha256_hex ''k'')"
    "iv_kernel demo_invocation = Inr demo_kernel" "iv_revision demo_invocation = ''r''" "iv_used demo_invocation = (Fin 0, 0)"
    "iv_experiment demo_invocation = calibration_experiment" "iv_suite demo_invocation = calibration_suite"
    "iv_journal demo_invocation = Some ''/j''" "iv_output demo_invocation = ''/o''" "iv_auth_file demo_invocation"
    "\<not> iv_compensated demo_invocation"
    by (simp_all add: demo_invocation_def)
  have x: "\<lparr>metacodes_sha256 = sha256_hex ''m'', tinykg_sha256 = sha256_hex ''k'',
      formal_kernel_fingerprint = replicate 64 (CHR ''c''), harness_revision = ''r''\<rparr> = demo_x" by (simp add: demo_x_def)
  show ?thesis
    unfolding frozen_contract_def demo_entry bindE_Inr f option.case case_prod_conv kernel strip Let_def x used ids(1) fst_conv snd_conv
      external prior a
    using f ids(2) facts by (simp add: raise_if_def demo_contract_is_def)
qed

section \<open>Its first slot\<close>

definition demo_tasks :: "(string \<times> json_object) list" where
  "demo_tasks = [(''t1'', case demo_task ''t1'' ''long-horizon-v1'' JNull of JObj t \<Rightarrow> t | _ \<Rightarrow> [])]"

lemma demo_task_map: "suite_task_map calibration_suite = Inr demo_tasks"
  by (simp add: suite_task_map_def calibration_suite_def demo_tasks_def demo_task_def text_at_def json_at_def)

lemma demo_next_cap:
  assumes c: "demo_contract_is c" and empty: "\<And>arm. completed arm = []" and rows: "concat (map snd collected) = []"
  shows "next_cap c [''t1''] collected completed = Inr (18, (Fin 1, 1))"
proof -
  obtain s where s: "counterbalanced_schedule arm_ids 6 = Inr s"
    by (simp add: counterbalanced_schedule_def arm_ids_def)
  have l: "length s = 18" using schedule_Inr(5) [OF s] by (simp add: arm_ids_def)
  have count: "remaining_schedule_count calibration_experiment [''t1''] completed = Inr 18"
    using s l by (simp add: remaining_schedule_count_def calibration_key empty case_prod_beta)
  have d: "to_double 0 = Fin 0" "to_double 18 = Fin 18" using float_of_small_int [of 0] float_of_small_int [of 18] by simp_all
  have n: "\<not> float_overflows i" if "0 \<le> i" "i \<le> 200" for i
  proof -
    have "(200 :: int) < 2 ^ 1024 - 2 ^ 970" by simp
    then show ?thesis using that unfolding float_overflows_def by linarith
  qed
  have used: "usage_of get as_cost as_tokens [] = Inr ([], 0)" for get as_cost as_tokens
    by (simp add: usage_of_def)
  have sum: "py_sum False [] = Fin 0" by (simp add: py_sum_def)
  have float: "budget_float demo_budget ''max_stage_cost_usd'' = Inr (Fin 100)" "budget_float demo_budget ''max_aggregate_cost_usd'' = Inr (Fin 200)"
    "budget_int demo_budget ''max_stage_tokens'' = Inr 100" "budget_int demo_budget ''max_aggregate_tokens'' = Inr 200"
    by (simp_all add: budget_float_def budget_int_def demo_budget_def n demo_doubles)
  have sub: "d_sub (Fin 100) (Fin 0) = Fin 100" "d_sub (Fin 200) (Fin 0) = Fin 200" by (simp_all add: d_sub_def demo_doubles)
  have budget: "require_multi_budget False collected demo_budget no_prior = Inr ()"
    by (simp add: require_multi_budget_def float require_budget_def missing_metrics_def all_rows_def rows used sum raise_if_def
        no_prior_def d)
  have "remaining_multi_budget False collected demo_budget no_prior = Inr (Fin 100, 100)"
    by (simp add: remaining_multi_budget_def all_rows_def rows used sum float no_prior_def sub d_min_def d_less_def finite_double_def)
  moreover have "int_times (Fin 1) 18 = Inr (Fin 18)" by (simp add: int_times_def d n)
  ultimately have "require_remaining_schedule_capacity False collected demo_budget 18 no_prior = Inr (Fin 1, 1)"
    by (simp add: require_remaining_schedule_capacity_def demo_fixed)
  then show ?thesis
    using c budget count by (simp add: next_cap_def budget_object_def demo_contract_is_def demo_texts)
qed

lemma demo_admission_facts:
  "ad_host demo_admission = demo_host" "ad_binary demo_admission = Some ''m''" "ad_api_key demo_admission = Inr ''key''"
  "ad_mkdir demo_admission = Inr ()" "ad_tick demo_admission = (\<lambda>w. w)"
  by (simp_all add: demo_admission_def)

lemma demo_config:
  assumes "demo_contract_is c" and "arm \<in> set arm_ids"
  shows "\<exists>id. map_of (rc_config_ids c) arm = Some id"
proof -
  have "arm \<in> fst ` set (rc_config_ids c)" using assms unfolding demo_contract_is_def by (simp flip: list.set_map)
  then show ?thesis by (cases "map_of (rc_config_ids c) arm") (simp_all add: map_of_eq_None_iff)
qed

lemma demo_checkpoints:
  assumes "demo_contract_is c"
  shows "load_checkpoints c demo_tasks demo_admission (\<lambda>_. None) = Inr (map (\<lambda>arm. (arm, [])) arm_ids)"
proof -
  have step: "bindE (row_contract_of c demo_tasks arm b (Some a)) (\<lambda>rc. bindE (load_checkpoint h rc None) (\<lambda>rows. Inr (arm, rows))) =
      Inr (arm, [])" if arm: "arm \<in> set arm_ids" for arm b a and h :: host
  proof -
    obtain id where "map_of (rc_config_ids c) arm = Some id" using demo_config [OF assms arm] by blast
    moreover have "rc_experiment c = calibration_experiment" using assms by (simp only: demo_contract_is_def)
    ultimately show ?thesis by (simp add: row_contract_of_def demo_texts json_at_def calibration_key load_checkpoint_def)
  qed
  have "mapE (\<lambda>arm. bindE (row_contract_of c demo_tasks arm b (Some a)) (\<lambda>rc. bindE (load_checkpoint h rc None) (\<lambda>rows. Inr (arm, rows)))) arms =
      Inr (map (\<lambda>arm. (arm, [])) arms)" if "set arms \<subseteq> set arm_ids" for arms b a and h :: host
    using that by (induction arms) (simp_all add: step)
  then show ?thesis unfolding load_checkpoints_def by blast
qed

lemma locked_tick_same [simp]: "locked_tick (\<lambda>w. w) s = s"
  using locked_tick_id [of s] by (simp add: id_def)

lemma demo_no_orphans:
  assumes "ready s d (initial_state a)"
  shows "require_no_orphans [] s = (Inr (), s)"
  using require_open_ready [OF assms]
  by (simp add: require_no_orphans_def transaction_receipts_def op_run initial_state_def)

lemma demo_receipts:
  assumes "demo_contract_is c"
  shows "check_receipts c tasks tick (map (\<lambda>arm. (arm, [])) arm_ids) r = (Inr [], r)"
proof -
  have c: "rc_experiment c = calibration_experiment" using assms by (simp only: demo_contract_is_def)
  have "foldS (\<lambda>(arm, rows) tids. bindS (liftS (arm_runtime_env (rc_experiment c) arm (rc_paths c))) (\<lambda>env.
      foldS (check_row_receipt c tasks tick (arm, env)) rows tids)) (map (\<lambda>arm. (arm, [])) arms) ks r = (Inr ks, r)"
    if "set arms \<subseteq> set arm_ids" for arms ks
    using that
  proof (induction arms arbitrary: ks)
    case (Cons arm arms)
    then obtain env where "arm_runtime_env (rc_experiment c) arm (rc_paths c) = Inr env"
      using demo_env [of arm] unfolding c by (meson list.set_intros(1) subsetD)
    then show ?case using Cons by (simp add: op_run)
  qed (simp add: op_run)
  then show ?thesis unfolding check_receipts_def by blast
qed

lemma demo_admitted:
  assumes c: "demo_contract_is c" and r: "ready (rn_journal r) d (initial_state a)" and files: "rn_files r = (\<lambda>_. None)"
  shows "\<exists>completed. (\<forall>arm. completed arm = []) \<and> admit_checkpoints c demo_tasks demo_admission r =
    (Inr 18, r\<lparr>rn_collected := map (\<lambda>arm. (arm, [])) arm_ids, rn_done := completed\<rparr>)"
proof -
  let ?rows = "map (\<lambda>arm. (arm, [])) arm_ids :: collected"
  let ?done = "\<lambda>arm. case map_of (map (\<lambda>arm. (arm, [])) arm_ids) arm of Some ks \<Rightarrow> ks | None \<Rightarrow> ([] :: (string \<times> int) list)"
  have empty: "?done arm = []" for arm by (simp add: arm_ids_def)
  have keys: "mapE (\<lambda>(arm, rows). bindE (mapE Runner_Checkpoint.row_key rows) (\<lambda>ks. Inr (arm, ks))) ?rows = Inr (map (\<lambda>arm. (arm, [])) arm_ids)"
    by (simp add: arm_ids_def)
  have orphans: "on_journal (\<lambda>w. w) (require_no_orphans []) r = (Inr (), r)"
    using demo_no_orphans [OF r] by (simp add: on_journal_def)
  have cap: "next_cap c (keys demo_tasks) ?rows ?done = Inr (18, (Fin 1, 1))"
    using demo_next_cap [OF c empty, of ?rows] by (simp add: demo_tasks_def arm_ids_def)
  show ?thesis
    using demo_checkpoints [OF c] demo_receipts [OF c] keys orphans cap empty
    by (intro exI [of _ ?done]) (simp add: admit_checkpoints_def op_run demo_admission_facts files del: map_of_map)
qed

section \<open>The request of the slot\<close>

definition demo_run_id :: string where
  "demo_run_id = ''e:calibration:codex_style:t1:0''"

lemma demo_transaction:
  assumes c: "demo_contract_is c"
  shows "\<exists>i. multi_arm_budget_transaction c (snd (hd demo_tasks)) ''codex_style'' 0 env (Fin 1, 1) = Inr i \<and> small_identity i \<and>
    check_identity_authority i (rc_authority c) = Inr () \<and> run_id i = demo_run_id \<and>
    max_cost_microusd i \<le> total_cost_microusd (rc_authority c) \<and> max_metered_tokens i \<le> total_metered_tokens (rc_authority c)"
proof -
  have "''codex_style'' \<in> set arm_ids" by (simp add: arm_ids_def)
  from demo_config [OF c this] obtain id where id: "map_of (rc_config_ids c) ''codex_style'' = Some id" by blast
  have t: "text_at (snd (hd demo_tasks)) [''id''] = Inr ''t1''"
    by (simp add: demo_tasks_def demo_task_def text_at_def json_at_def)
  have run: "slot_run_id ''e'' ''calibration'' ''codex_style'' ''t1'' 0 = demo_run_id" by code_simp
  have "utf8_valid demo_run_id" "utf8_valid ''anthropic''"
    by (simp_all add: demo_run_id_def char_code_def utf8_valid_ascii)
  then show ?thesis
    using c id t run demo_money
    by (simp add: multi_arm_budget_transaction_def demo_contract_is_def demo_texts small_identity_def identity_ok_def
        identity_text_def check_identity_authority_def demo_run_id_def del: double_json.simps utf8_valid.simps)
qed

lemma reserved_receipt:
  assumes r: "ready (j, w) d (initial_state a)" and i: "identity_text i"
    and run: "run_call (Call_Reserve i) (j, w) = (Inr rc, (j1, w1))" and r1: "ready (j1, w1) d1 st"
    and t: "js_transactions st = [(k, x)]" and x: "transaction_id x = k"
  shows "transaction_id (rc_transaction rc) = k" and "rc_journal_revision rc = js_revision st"
    and "rc_journal_head_sha256 rc = js_head_sha256 st"
proof -
  have "call_outcome (Call_Reserve i) (Inr rc) (j, w) (j1, w1)"
    using call_has_outcome [OF ready_session [OF r] _ run] i by simp
  moreover have "jn_state j = Some (initial_state a)" "js_transactions (initial_state a) = []"
    using r by (simp_all add: ready_def initial_state_def)
  ultimately have a: "appends (Call_Reserve i) (Inr rc) (j, w) (j1, w1)" by (auto simp: call_outcome_def)
  have "disk_state w1 = Some st"
    using r1 by (intro holds_state [of _ d1]) (auto simp: ready_def intro: holds_written)
  then obtain k' where "transaction_receipt_from_state st k' = Inr rc" using a by (auto elim!: appends_disk)
  then have rc: "transaction_receipt_from_state st k = Inr rc" "k' = k"
    using t by (auto simp: transaction_receipt_from_state_def bindE_eq_Inr split: option.splits if_splits)
  then show "transaction_id (rc_transaction rc) = k" "rc_journal_revision rc = js_revision st"
    "rc_journal_head_sha256 rc = js_head_sha256 st"
    using t x by (auto simp: transaction_receipt_from_state_def bindE_eq_Inr)
qed

lemma demo_check: "demo_contract_is c \<Longrightarrow> check_machine c demo_machine = Inr ()"
  by (simp add: check_machine_def require_sha256_def require_formal_identity_def demo_machine_def demo_contract_is_def demo_x_def
      raise_if_def demo_kernel_def)

lemma first_request_granted:
  assumes r: "ready (j, w) d (initial_state a)" and cl: "0 \<le> clock w" "clock w < 10000000000" and b: "json_bound d \<le> 3000"
    and i: "small_identity i" "check_identity_authority i a = Inr ()"
    and afford: "max_cost_microusd i \<le> total_cost_microusd a" "max_metered_tokens i \<le> total_metered_tokens a"
  obtains rc k s1 rc2 s where "run_call (Call_Reserve i) (j, w) = (Inr rc, s1)" and "transaction_id (rc_transaction rc) = k"
    and "run_call (Call_Authorize k (rc_journal_revision rc) (rc_journal_head_sha256 rc)) s1 = (Inr rc2, s)"
    and "disk_ledger (snd s) k = Some (i, Spending False)" and "is_hash_str k"
proof -
  obtain rc k j1 w1 d1 st where res: "run_call (Call_Reserve i) (j, w) = (Inr rc, (j1, w1))"
    and r1: "ready (j1, w1) d1 st" and w1: "clock w1 = clock w" and n: "js_revision st = 1"
    and t: "js_transactions st = [(k, new_transaction k i 1 (js_head_sha256 st))]"
    and h: "is_hash_str (js_head_sha256 st)" "is_hash_str k" and b1: "json_bound d1 \<le> 14000"
    by (rule small_reserve [OF r cl b i afford])
  have x: "transaction_id (new_transaction k i 1 (js_head_sha256 st)) = k" by (simp add: new_transaction_def)
  have it: "identity_text i" using i(1) by (simp add: small_identity_def)
  note rc = reserved_receipt [OF r it res r1 t x]
  obtain rc2 s where aut: "run_call (Call_Authorize k (js_revision st) (js_head_sha256 st)) (j1, w1) = (Inr rc2, s)"
    using small_authorize [OF r1 _ _ n t h b1 i(1)] cl unfolding w1 by blast
  have held: "disk_ledger w1 k = Some (i, Held)"
    unfolding ready_disk [OF r1] by (simp add: ledger_st_def ledger_of_def t phase_new)
  have "disk_ledger (snd s) k = Some (i, Spending False)"
    using authorize_granted [OF ready_session [OF r1] aut] held by (metis fun_upd_same option.inject prod.inject snd_conv)
  then show thesis using that [OF res rc(1) _ _ h(2)] aut rc by simp
qed

lemma demo_request_granted:
  assumes c: "demo_contract_is c" and r: "ready (rn_journal r) d (initial_state (rc_authority c))"
    and clock: "clock (snd (rn_journal r)) = clock demo_world" and b: "json_bound d \<le> 3000" and i: "small_identity i"
    and match: "check_identity_authority i (rc_authority c) = Inr ()"
    and afford: "max_cost_microusd i \<le> total_cost_microusd (rc_authority c)" "max_metered_tokens i \<le> total_metered_tokens (rc_authority c)"
  obtains k s calls where "admit_request c demo_attempt i r = (Inr k, r\<lparr>rn_journal := s, rn_calls := calls\<rparr>)"
    and "disk_ledger (snd s) k = Some (i, Spending False)"
proof -
  obtain j w where jw: "rn_journal r = (j, w)" by (rule prod.exhaust)
  have cl: "0 \<le> clock w" "clock w < 10000000000" using demo_clock clock jw by simp_all
  obtain rc k s1 rc2 s where calls: "run_call (Call_Reserve i) (j, w) = (Inr rc, s1)" "transaction_id (rc_transaction rc) = k"
    "run_call (Call_Authorize k (rc_journal_revision rc) (rc_journal_head_sha256 rc)) s1 = (Inr rc2, s)"
    and spending: "disk_ledger (snd s) k = Some (i, Spending False)"
    by (rule first_request_granted [OF r [unfolded jw] cl b i match afford])
  have tick: "at_tick demo_attempt n = (\<lambda>w. w)" "at_reserved demo_attempt = demo_machine" for n by (simp_all add: demo_attempt_def)
  have "admit_request c demo_attempt i r = (Inr k, r\<lparr>rn_journal := s, rn_calls := (rn_calls r @ [(Call_Reserve i, Inr rc)]) @
      [(Call_Authorize k (rc_journal_revision rc) (rc_journal_head_sha256 rc), Inr rc2)]\<rparr>)"
    unfolding admit_request_def tick
    by (simp add: op_run journal_call_def jw calls(1) [simplified] calls(2) calls(3) [simplified] demo_check [OF c])
  then show thesis using spending by (rule that)
qed

section \<open>The child\<close>

lemma demo_started:
  assumes c: "demo_contract_is c" and env: "arm_runtime_env calibration_experiment ''codex_style'' (rc_paths c) = Inr env"
    and sl: "sl_env sl = env" "sl_tid sl = ''t1''" "sl_task sl = snd (hd demo_tasks)" "sl_cap sl = (Fin 1, 1)" "sl_arm sl = ''codex_style''"
  shows "start_run c demo_attempt sl ''key'' i r = (Inl (OS_Error ''killed''), r\<lparr>rn_started := rn_started r @ [run_id i]\<rparr>)"
proof -
  have "check_runtime_env env = Inr ()"
    using env by (auto simp: arm_runtime_env_def check_runtime_env_def runtime_env_allowlist_def raise_if_def
        calibration_experiment_def demo_experiment_def dict_get_none_def int_str_def nat_str_not_Nil [symmetric]
        split: if_splits json.splits option.splits)
  have rc: "rc_experiment c = calibration_experiment" "rc_identity c = demo_x" using c by (simp_all only: demo_contract_is_def)
  have selector: "scenario_selector [''t1''] = Inr ''t1''" by code_simp
  have timeout: "json_at (snd (hd demo_tasks)) [''constraints'', ''timeout_seconds''] = Inr (JInt 60)"
    by (simp add: demo_tasks_def demo_task_def json_at_def)
  obtain rq where rq: "slot_request c sl ''key'' = Inr rq" and f: "rq_env rq = Some env" "rq_timeout rq = Some (JInt 60)"
    "rq_max_tokens rq = Some 1" "rq_max_cost rq = Some (Fin 1)" "rq_hint rq = None" "rq_store rq = None" "rq_domain rq = None"
    "rq_api_key rq = Some ''key''"
    by (simp add: slot_request_def selector timeout rc demo_texts sl)
  have p: "at_process demo_attempt = demo_process\<lparr>pr_code := Inl (OS_Error ''killed'')\<rparr>" "at_faults demo_attempt = []"
    by (simp_all add: demo_attempt_def)
  have "run_once_checks rq (at_process demo_attempt) = Inr ()"
    unfolding run_once_checks_def p f
    using \<open>check_runtime_env env = Inr ()\<close> by (simp add: demo_process_def raise_if_def finite_double_def)
  moreover obtain child where "interpreter_shim (at_process demo_attempt) (env_update (requested_env rq (at_process demo_attempt))
      (runner_env (pr_environ (at_process demo_attempt)))) = Inr child"
    unfolding p by (simp add: interpreter_shim_def demo_process_def)
  ultimately have "\<exists>x. run_child rq (at_process demo_attempt) = Inr x" by (simp add: run_child_def)
  moreover have "run_ended rq (at_process demo_attempt) = Inl (OS_Error ''killed'')" unfolding p by (simp add: run_ended_def)
  ultimately show ?thesis using rq p(2) by (auto simp: start_run_def fault_at_def op_run)
qed

section \<open>The invocation\<close>

lemma demo_first_slot:
  assumes c: "demo_contract_is c" and r: "ready (rn_journal r) d (initial_state (rc_authority c))"
    and clock: "clock (snd (rn_journal r)) = clock demo_world" and b: "json_bound d \<le> 3000"
    and empty: "\<And>arm. rn_done r arm = []" and rows: "concat (map snd (rn_collected r)) = []"
  obtains k i t where "run_turn c demo_tasks (\<lambda>_. demo_attempt) ''key'' (0, ''codex_style'') r = (Inl (OS_Error ''killed''), t)"
    and "rn_started t = rn_started r @ [demo_run_id]" and "ledger_now t k = Some (i, Spending False)"
proof -
  have rc: "rc_experiment c = calibration_experiment" using c by (simp only: demo_contract_is_def)
  have arm: "''codex_style'' \<in> set arm_ids" by (simp add: arm_ids_def)
  obtain env where env: "arm_runtime_env calibration_experiment ''codex_style'' (rc_paths c) = Inr env" using demo_env [OF arm] by blast
  obtain id where id: "map_of (rc_config_ids c) ''codex_style'' = Some id" using demo_config [OF c arm] by blast
  obtain i where i: "multi_arm_budget_transaction c (snd (hd demo_tasks)) ''codex_style'' 0 env (Fin 1, 1) = Inr i"
    "small_identity i" "check_identity_authority i (rc_authority c) = Inr ()" "run_id i = demo_run_id"
    "max_cost_microusd i \<le> total_cost_microusd (rc_authority c)" "max_metered_tokens i \<le> total_metered_tokens (rc_authority c)"
    using demo_transaction [OF c] by blast
  let ?r = "r\<lparr>rn_step := Suc (rn_step r)\<rparr>"
  have same: "rn_journal ?r = rn_journal r" by simp
  obtain k s calls where ad: "admit_request c demo_attempt i ?r = (Inr k, ?r\<lparr>rn_journal := s, rn_calls := calls\<rparr>)"
    and spending: "disk_ledger (snd s) k = Some (i, Spending False)"
    by (rule demo_request_granted [OF c r [folded same] clock [folded same] b i(2,3,5,6)])
  let ?sl = "\<lparr>sl_arm = ''codex_style'', sl_env = env, sl_tid = ''t1'', sl_task = snd (hd demo_tasks), sl_trial = 0, sl_config = id,
      sl_cap = rc_cap c\<rparr>"
  have keys: "keys demo_tasks = [''t1'']" "map_of demo_tasks ''t1'' = Some (snd (hd demo_tasks))"
    by (simp_all add: demo_tasks_def)
  have before: "at_before demo_attempt = demo_machine" by (simp add: demo_attempt_def)
  have cap: "rc_cap c = (Fin 1, 1)" using c by (simp only: demo_contract_is_def)
  note run = demo_started [OF c env, where sl = ?sl and i = i and r = "?r\<lparr>rn_journal := s, rn_calls := calls\<rparr>"]
  let ?t = "?r\<lparr>rn_journal := s, rn_calls := calls, rn_started := rn_started r @ [run_id i]\<rparr>"
  have "start_run c demo_attempt ?sl ''key'' i (?r\<lparr>rn_journal := s, rn_calls := calls\<rparr>) = (Inl (OS_Error ''killed''), ?t)"
    using run cap by simp
  then have "run_slot c (keys demo_tasks) demo_attempt ''key'' ?sl ?r = (Inl (OS_Error ''killed''), ?t)"
    unfolding run_slot_def keys before Let_def
    using demo_next_cap [OF c, of "rn_done r" "rn_collected r"] empty rows demo_check [OF c] i(1) ad cap
    by (simp add: op_run)
  then have visit: "visit_slot c demo_tasks (\<lambda>_. demo_attempt) ''key'' ?sl r = (Inl (OS_Error ''killed''), ?t)"
    unfolding visit_slot_def by (simp add: bindS_def getS_def modifyS_def empty)
  have "run_turn c demo_tasks (\<lambda>_. demo_attempt) ''key'' (0, ''codex_style'') r = (Inl (OS_Error ''killed''), ?t)"
    unfolding run_turn_def keys snd_conv fst_conv
    using env id visit keys(2) by (simp add: rc op_run forS_def)
  then show thesis by (rule that [of ?t k i]) (simp_all add: i(4) ledger_now_def spending)
qed

theorem demo_run:
  "\<exists>t k i. run_multi_arm demo_invocation demo_runner = (Inl (OS_Error ''killed''), t) \<and> rn_started t = [demo_run_id] \<and>
     ledger_now t k = Some (i, Spending False)"
proof -
  obtain c where c: "frozen_contract demo_invocation = Inr c" "demo_contract_is c" using demo_contract by blast
  let ?a = "rc_authority c"
  have small: "small_authority ?a"
    using c(2) by (simp add: demo_contract_is_def small_authority_def authority_ok_def max_user_authority_microusd_def
        max_user_authority_usd_def micro_usd_per_usd_def char_code_def utf8_valid_ascii del: utf8_valid.simps)
  then obtain j where j: "init_journal ?a = Inr j" "jn_authority j = ?a"
    by (auto simp: init_journal_def bindE_eq_Inr check_simps small_authority_def)
  let ?o = "open_runner j demo_runner"
  have o: "rn_journal ?o = (j, demo_world)" by (simp add: open_runner_def demo_runner_def)
  obtain s d where s: "enter (j, demo_world) = (Inr (), s)" and r: "ready s d (initial_state ?a)" and cl: "clock (snd s) = clock demo_world"
    and b: "json_bound d \<le> 3000"
    using small_opened [OF demo_world_ok, of j] small j(2) by auto
  let ?r1 = "?o\<lparr>rn_journal := s\<rparr>"
  have opened: "on_journal id enter ?o = (Inr (), ?r1)" by (simp add: on_journal_def o s)
  have files: "rn_files ?r1 = (\<lambda>_. None)" "rn_started ?r1 = []" by (simp_all add: open_runner_def demo_runner_def)
  obtain completed where ad: "\<And>arm. completed arm = []" "admit_checkpoints c demo_tasks demo_admission ?r1 =
      (Inr 18, ?r1\<lparr>rn_collected := map (\<lambda>arm. (arm, [])) arm_ids, rn_done := completed\<rparr>)"
    using demo_admitted [OF c(2), of ?r1 d ?a] r files(1) by auto
  let ?r2 = "?r1\<lparr>rn_collected := map (\<lambda>arm. (arm, [])) arm_ids, rn_done := completed\<rparr>"
  have rows: "concat (map snd (rn_collected ?r2)) = []" by (simp add: arm_ids_def)
  obtain k i t where t: "run_turn c demo_tasks (\<lambda>_. demo_attempt) ''key'' (0, ''codex_style'') ?r2 = (Inl (OS_Error ''killed''), t)"
    "rn_started t = rn_started ?r2 @ [demo_run_id]" "ledger_now t k = Some (i, Spending False)"
    by (rule demo_first_slot [OF c(2), of ?r2 d]) (use r cl b ad(1) rows in simp_all)
  obtain rest where sched: "counterbalanced_schedule arm_ids 6 = Inr ((0, ''codex_style'') # rest)"
    by (simp add: counterbalanced_schedule_def arm_ids_def schedule_rows_def shifts_def upt_rec)
  have f: "rc_experiment c = calibration_experiment" "rc_suite c = calibration_suite" using c(2) by (simp_all only: demo_contract_is_def)
  have "run_multi_arm_locked c demo_admission (\<lambda>_. demo_attempt) ?r1 = (Inl (OS_Error ''killed''), t)"
    unfolding run_multi_arm_locked_def f
    using ad(2) t(1) sched by (simp add: op_run demo_task_map demo_admission_facts demo_texts forS_def)
  moreover have "iv_admission demo_invocation = demo_admission" "iv_attempts demo_invocation = (\<lambda>_. demo_attempt)"
    by (simp_all add: demo_invocation_def)
  ultimately have "run_multi_arm demo_invocation demo_runner = (Inl (OS_Error ''killed''), t\<lparr>rn_journal := close_journal (rn_journal t)\<rparr>)"
    unfolding run_multi_arm_def using c(1) j(1) opened by (simp add: op_run with_journal_def)
  moreover have "snd (close_journal u) = snd u" for u by (cases u) (simp add: close_journal_def)
  ultimately show ?thesis using t(2,3) files(2) by (auto simp: ledger_now_def)
qed

lemma demo_runner_start: "session_ok (rn_journal demo_runner)" "rn_started demo_runner = []"
  using demo_start by (simp_all add: demo_runner_def)

lemma demo_unicode: "invocation_text demo_invocation"
  by (simp add: invocation_text_def demo_invocation_def calibration_experiment_def calibration_suite_def demo_experiment_def
      demo_tasks_suite_def demo_task_def stage_object_def demo_arm_def arm_ids_def expected_treatments_def treatment_keys_def Let_def
      char_code_def utf8_valid_ascii)

end
