(* ===== verification/Runner_Governed.thy ===== *)
theory Runner_Governed
  imports Runner_Stranded
begin

text \<open>
  The journal a run leaves on the disk is the one of the authority the run was started with.
\<close>

abbreviation of_authority :: "budget_authority \<Rightarrow> jstate \<Rightarrow> bool" where
  "of_authority a s \<equiv> jn_authority (fst s) = a"

lemma keeps_authority_io [keeps_intro]:
  "keeps (of_authority a) (os_call x)" "keeps (of_authority a) (get_world g)" "keeps (of_authority a) (set_world f)"
  "keeps (of_authority a) (fault_hook x)" "keeps (of_authority a) (get_journal h)"
  by (auto simp: keeps_def os_call_def fault_hook_def getS_def modifyS_def whenS_def bindS_def)

lemma keeps_load_authority: "keeps (of_authority a) load_document"
  unfolding load_document_def persist_def create_temporary_def write_temporary_def validate_temporary_def replace_journal_def
    fsync_temporary_def fsync_directory_def read_document_def entry_exists_def Let_def
  by (auto intro!: keeps_intro split: option.split prod.split)

lemma enter_authority:
  assumes "enter s = (Inr u, t)" and "fresh_open s"
  shows "\<exists>st. disk_state (snd t) = Some st \<and> js_authority st = jn_authority (fst s)"
  using assms(1)
proof (rule enter_Inr)
  fix u1 u2 u3 x y z
  assume l: "take_lock (apfst (\<lambda>j. j\<lparr>dir_open := True\<rparr>) s) = (Inr x, u1)" and j: "reject_temporary u1 = (Inr y, u2)"
    and d: "load_document u2 = (Inr z, u3)" and a: "adopt_document u3 = (Inr u, t)"
  have "of_authority (jn_authority (fst s)) u1" using take_lock_quiet [OF l] by (cases s) (simp add: quiet_def)
  then have "of_authority (jn_authority (fst s)) u2" using reject_temporary_state [OF j] by simp
  then have u3: "of_authority (jn_authority (fst s)) u3" by (rule keepsD [OF keeps_load_authority _ d])
  obtain st where st: "jn_state (fst t) = Some st" "js_authority st = jn_authority (fst u3)"
    using a unfolding adopt_document_def by (cases u3) (auto simp: op_simps split: option.splits)
  then show ?thesis using enter_synced [OF assms(2,1)] u3 by auto
qed

text \<open>The invocation that runs under the contract gets the journal: the object is made and entered.\<close>

definition opens_journal :: "run_contract \<Rightarrow> runner \<Rightarrow> bool" where
  "opens_journal c r \<longleftrightarrow>
    (\<exists>j r1. init_journal (rc_authority c) = Inr j \<and> on_journal id enter (open_runner j r) = (Inr (), r1))"

lemma opened_governed:
  assumes r: "sound None r" and unicode: "invocation_text iv" and c: "frozen_contract iv = Inr c"
    and run: "run_multi_arm iv r = (q, t)" and opens: "opens_journal c r"
  shows "sound (Some (rc_authority c)) t"
proof -
  have ok: "session_ok (rn_journal r)" using r by (simp add: sound_def)
  note ct = frozen_contract_text [OF c unicode]
  obtain j r1 where j: "init_journal (rc_authority c) = Inr j" and enter: "on_journal id enter (open_runner j r) = (Inr (), r1)"
    using opens by (auto simp: opens_journal_def)
  have fresh: "fresh_open (rn_journal (open_runner j r))" and same: "ledger_now (open_runner j r) = ledger_now r"
      "rn_started (open_runner j r) = rn_started r"
    using open_runner_fresh [OF ok j] ct by (simp_all add: contract_text_def)
  note r1 = open_journal [OF fresh enter, unfolded same]
  have "with_journal (run_multi_arm_locked c (iv_admission iv) (iv_attempts iv)) r1 = (q, t)"
    using run c j enter by (simp add: run_multi_arm_def op_run)
  then obtain r2 where body: "run_multi_arm_locked c (iv_admission iv) (iv_attempts iv) r1 = (q, r2)"
    and t: "t = r2\<lparr>rn_journal := close_journal (rn_journal r2)\<rparr>"
    by (auto simp: with_journal_def split: prod.splits)
  have "jn_authority j = rc_authority c" using j by (auto simp: init_journal_def bindE_eq_Inr check_simps)
  then have "governed (Some (rc_authority c)) (snd (rn_journal r1))"
    using enter enter_authority [OF _ fresh]
    by (auto simp: on_journal_def governed_def open_runner_def split: prod.splits)
  then have "sound (Some (rc_authority c)) r1" using r r1 by (simp add: sound_def)
  from keepsD [OF keeps_locked [OF ct] this body] show ?thesis by (simp add: t close_sound)
qed

text \<open>An invocation that changed the ledger, or ended without an error, had opened the journal.\<close>

lemma moved_opens:
  assumes ok: "session_ok (rn_journal r)" and unicode: "invocation_text iv" and c: "frozen_contract iv = Inr c"
    and run: "run_multi_arm iv r = (q, t)" and moved: "ledger_now t \<noteq> ledger_now r \<or> q = Inr rows"
  shows "opens_journal c r"
  using ok unicode run by (rule run_multi_arm_cases) (use moved c in \<open>auto simp: opens_journal_def\<close>)

end
