(* ===== verification/Runner_Properties.thy ===== *)
theory Runner_Properties
  imports Runner_Demo Runner_Governed
begin

text \<open>
  The properties of campaigns: a provider run is started at most once, an unsettled request stops
  everything, and what the journal accounts for stays within the caps of the experiment.
\<close>

section \<open>Runs are started once\<close>

text \<open>Over a whole campaign, any number of invocations of the multi-arm runner that may fail at any
  point, each slot of the schedule is run at most once, and every run that was started is accounted for
  in the journal by an authorized request of that run, whatever happens to the checkpoint files.\<close>

theorem provider_run_once:
  assumes "campaign r0 r" and "session_ok (rn_journal r0)" and "rn_started r0 = []"
  shows "distinct (rn_started r) \<and> (\<forall>x. x \<in> set (rn_started r) \<longrightarrow> run_spent x (ledger_now r))"
proof -
  have "sound None r0" using assms(2,3) by (simp add: sound_def governed_def)
  then have "sound None r" by (rule campaign_sound [OF assms(1)])
  then show ?thesis by (simp add: sound_def)
qed

lemma demo_campaign:
  obtains t k i where "campaign demo_runner t" and "run_multi_arm demo_invocation demo_runner = (Inl (OS_Error ''killed''), t)"
    and "rn_started t = [demo_run_id]" and "ledger_now t k = Some (i, Spending False)" and "session_ok (rn_journal t)"
proof -
  obtain t k i where t: "run_multi_arm demo_invocation demo_runner = (Inl (OS_Error ''killed''), t)"
    "rn_started t = [demo_run_id]" "ledger_now t k = Some (i, Spending False)" using demo_run by blast
  have c: "campaign demo_runner t" by (rule campaign_run [OF campaign_start demo_unicode t(1)])
  have "sound None demo_runner" using demo_runner_start by (simp add: sound_def governed_def)
  then have "session_ok (rn_journal t)" using campaign_sound [OF c] by (simp add: sound_def)
  then show thesis by (rule that [OF c t])
qed

theorem provider_run_once_witness:
  "\<exists>t. campaign demo_runner t \<and> rn_started t = [demo_run_id] \<and> run_spent demo_run_id (ledger_now t)"
proof -
  obtain t where t: "campaign demo_runner t" "rn_started t = [demo_run_id]" by (rule demo_campaign)
  from provider_run_once [OF t(1) demo_runner_start] t show ?thesis by (intro exI [of _ t]) simp
qed

theorem stranded_request_blocks_witness:
  "\<exists>r k t. stranded k r \<and> rn_started r = [demo_run_id] \<and> snd (run_multi_arm demo_invocation r) = t \<and>
     rn_started t = [demo_run_id] \<and> ledger_now t = ledger_now r"
proof -
  obtain r k i where r: "rn_started r = [demo_run_id]" "ledger_now r k = Some (i, Spending False)" "session_ok (rn_journal r)"
    by (rule demo_campaign)
  have k: "stranded k r" using r(2) by (auto simp: stranded_def)
  obtain q t where run: "run_multi_arm demo_invocation r = (q, t)" by (rule prod.exhaust)
  have "campaign r t" by (rule campaign_run [OF campaign_start demo_unicode run])
  from stranded_request_blocks [OF this r(3) k] r(1) k run show ?thesis by (intro exI [of _ r] exI [of _ k] exI [of _ t]) simp
qed

section \<open>The caps of the experiment\<close>

text \<open>The caps of the stage and of the aggregate, and what was used of them before, in micro-USD and tokens.\<close>

definition caps_of :: "json_object \<Rightarrow> ((int \<times> int) \<times> (int \<times> int)) result" where
  "caps_of e =
    bindE (json_at e [''budget'']) (\<lambda>b.
    bindE (bindE (item_of b ''max_stage_cost_usd'') usd_to_microusd) (\<lambda>stage_cost.
    bindE (bindE (item_of b ''max_aggregate_cost_usd'') usd_to_microusd) (\<lambda>aggregate_cost.
    bindE (bindE (item_of b ''max_stage_tokens'') py_int) (\<lambda>stage_tokens.
    bindE (bindE (item_of b ''max_aggregate_tokens'') py_int) (\<lambda>aggregate_tokens.
    Inr ((stage_cost, stage_tokens), (aggregate_cost, aggregate_tokens)))))))"

definition used_of :: "prior_usage \<Rightarrow> ((int \<times> int) \<times> (int \<times> int)) result" where
  "used_of p =
    bindE (usd_to_microusd_ceiling (double_json (stage_prior_cost p))) (\<lambda>stage_cost.
    bindE (usd_to_microusd_ceiling (double_json (aggregate_prior_cost p))) (\<lambda>aggregate_cost.
    Inr ((stage_cost, stage_prior_tokens p), (aggregate_cost, aggregate_prior_tokens p))))"

definition fits :: "(int \<times> int) \<times> (int \<times> int) \<Rightarrow> int \<times> int \<Rightarrow> (int \<times> int) \<times> (int \<times> int) \<Rightarrow> bool" where
  "fits u x c \<longleftrightarrow> fst (fst u) + fst x \<le> fst (fst c) \<and> snd (fst u) + snd x \<le> snd (fst c) \<and>
    fst (snd u) + fst x \<le> fst (snd c) \<and> snd (snd u) + snd x \<le> snd (snd c)"

lemma authority_caps:
  assumes "multi_arm_budget_authority e suite p = Inr a"
  shows "\<exists>caps used. caps_of e = Inr caps \<and> used_of p = Inr used \<and>
    fits used (total_cost_microusd a, total_metered_tokens a) caps"
  using assms unfolding multi_arm_budget_authority_def caps_of_def used_of_def Let_def
  by (elim bindE_InrE) (simp add: raise_if_def fits_def split: if_splits, auto simp: fits_def)

text \<open>C3: money is bounded across invocations. After any invocation of a campaign that opened the
  journal, whether it was then refused, failed in a slot or ended, what was spent before, rounded up to
  micro-USD, and the exposure of all transactions in the journal (actual cost of the committed ones, the
  cap of every open one) together stay within the cap of the stage and within the cap of the aggregate,
  and so do the tokens. The caps are those of the experiment of that invocation.\<close>

theorem campaign_within_caps:
  assumes "campaign r0 r" and "session_ok (rn_journal r0)" and "rn_started r0 = []"
    and "invocation_text iv" and "frozen_contract iv = Inr c" and "run_multi_arm iv r = (q, t)"
    and "opens_journal c r"
  shows "\<exists>st caps used. disk_state (snd (rn_journal t)) = Some st \<and> caps_of (iv_experiment iv) = Inr caps \<and>
    used_of (rc_prior c) = Inr used \<and> fits used (exposure_cost (js_transactions st), exposure_tokens (js_transactions st)) caps"
proof -
  have "sound None r0" using assms(2,3) by (simp add: sound_def governed_def)
  from opened_governed [OF campaign_sound [OF assms(1) this] assms(4-7)]
  obtain st where st: "disk_state (snd (rn_journal t)) = Some st" "js_authority st = rc_authority c"
    and ok: "session_ok (rn_journal t)" by (auto simp: sound_def governed_def)
  have "stored_state st" using ok disk_stored [OF _ st(1)] by (simp add: session_ok_def)
  note s = stored_stateD [OF this]
  have cost: "exposure_cost (js_transactions st) \<le> total_cost_microusd (rc_authority c)"
    "exposure_tokens (js_transactions st) \<le> total_metered_tokens (rc_authority c)"
    using s(3) st(2) by (simp_all add: ledger_ok_def affordable_def exposure_ledger [OF s(1)] ledger_st_def)
  obtain caps used where c: "caps_of (iv_experiment iv) = Inr caps" "used_of (rc_prior c) = Inr used"
    and f: "fits used (total_cost_microusd (rc_authority c), total_metered_tokens (rc_authority c)) caps"
    using authority_caps [OF frozen_contract_Inr(3) [OF assms(5)]] by blast
  have "fits used (exposure_cost (js_transactions st), exposure_tokens (js_transactions st)) caps"
    using f cost by (simp add: fits_def)
  then show ?thesis using st(1) c by blast
qed

theorem campaign_within_caps_witness:
  "\<exists>c t st. frozen_contract demo_invocation = Inr c \<and> snd (run_multi_arm demo_invocation demo_runner) = t \<and>
     ledger_now t \<noteq> Map.empty \<and> disk_state (snd (rn_journal t)) = Some st \<and>
     (\<exists>caps used. caps_of calibration_experiment = Inr caps \<and> used_of (rc_prior c) = Inr used \<and>
       fits used (exposure_cost (js_transactions st), exposure_tokens (js_transactions st)) caps)"
proof -
  obtain t k i where t: "run_multi_arm demo_invocation demo_runner = (Inl (OS_Error ''killed''), t)"
    "ledger_now t k = Some (i, Spending False)" by (rule demo_campaign)
  obtain c where c: "frozen_contract demo_invocation = Inr c" using demo_contract by blast
  have "ledger_now demo_runner = Map.empty"
    by (simp add: ledger_now_def disk_ledger_def demo_runner_def demo_world_def disk_state_def)
  then have "ledger_now t \<noteq> ledger_now demo_runner" "ledger_now t \<noteq> Map.empty" using t(2) by auto
  then have "opens_journal c demo_runner" "ledger_now t \<noteq> Map.empty"
    using moved_opens [OF demo_runner_start(1) demo_unicode c t(1)] by blast+
  moreover have "iv_experiment demo_invocation = calibration_experiment" by (simp add: demo_invocation_def)
  ultimately show ?thesis
    using campaign_within_caps [OF campaign_start demo_runner_start demo_unicode c t(1)] c t(1) by auto
qed

end
