(* ===== verification/Attribution_Protocol.thy ===== *)
theory Attribution_Protocol
  imports Experiment_Schedule Sha256 Py_Values
begin

text \<open>
  The staged attribution protocol of \<open>scripts/eval/attribution_protocol.py\<close>: the frozen two by two
  design, the order of its stages, the pinned sources and the measurement contract. The files
  below the root are a function from relative paths to their bytes.
\<close>

section \<open>Constants\<close>

definition protocol_id :: string where
  "protocol_id = ''metacodes-tinykg-lean-attribution-v1''"

definition cell_ids :: "string list" where
  "cell_ids = [''control'', ''memory_only'', ''lean_only'', ''combined'']"

definition expected_cells :: "(string \<times> bool \<times> bool) list" where
  "expected_cells = [(''control'', False, False), (''memory_only'', True, False), (''lean_only'', False, True),
     (''combined'', True, True)]"

definition stage_ids :: "string list" where
  "stage_ids = [''s0_zero_paid_wiring'', ''s1_tinykg_main_effect'', ''s2_lean_main_effect'',
     ''s3_factorial_interaction'', ''s4_workbuddy_external_validation'']"

definition expected_predecessors :: "(string \<times> string list) list" where
  "expected_predecessors =
    [(''s0_zero_paid_wiring'', []), (''s1_tinykg_main_effect'', [''s0_zero_paid_wiring'']),
     (''s2_lean_main_effect'', [''s0_zero_paid_wiring'']),
     (''s3_factorial_interaction'', [''s1_tinykg_main_effect'', ''s2_lean_main_effect'']),
     (''s4_workbuddy_external_validation'', [''s3_factorial_interaction''])]"

definition expected_stage_arms :: "(string \<times> string list) list" where
  "expected_stage_arms =
    [(''s1_tinykg_main_effect'', [''no_memory'', ''tinykg_lexical'']),
     (''s2_lean_main_effect'', [''signal_only'', ''evolved_shadow'', ''evolved_enforced'']),
     (''s3_factorial_interaction'', cell_ids)]"

definition primary_contrast_ids :: "string list" where
  "primary_contrast_ids = [''tinykg_main'', ''lean_main'', ''combined_total'', ''factorial_interaction'']"

definition required_promotion_terms :: "string list" where
  "required_promotion_terms = [''treatment actuation verified'', ''no trustworthy-success regression'',
     ''zero unsafe Lean false interventions'', ''zero remote TinyKG writes'', ''combined arm no worse'',
     ''at least one preregistered quality or recurrence metric improves'', ''cache contract passes'',
     ''frozen before WorkBuddy'']"

section \<open>Typed access\<close>

definition mapping_at :: "json \<Rightarrow> string \<Rightarrow> json_object result" where
  "mapping_at v w = (case v of JObj d \<Rightarrow> Inr d | _ \<Rightarrow> fail w ''expected object'')"

definition sequence_at :: "json \<Rightarrow> string \<Rightarrow> json list result" where
  "sequence_at v w = (case v of JArr vs \<Rightarrow> Inr vs | _ \<Rightarrow> fail w ''expected array'')"

definition ids_of :: "json list \<Rightarrow> string \<Rightarrow> string list result" where
  \<comment> \<open>\<open>tuple(str(_mapping(v, w).get("id")) for v in vs)\<close>\<close>
  "ids_of vs w = mapE (\<lambda>v. bindE (mapping_at v w) (\<lambda>d. Inr (py_str (field d ''id'')))) vs"

type_synonym source_tree = "string \<Rightarrow> string option"

definition is_file :: "source_tree \<Rightarrow> string \<Rightarrow> bool" where
  "is_file tree p \<longleftrightarrow> tree p \<noteq> None"

definition sha256_file :: "source_tree \<Rightarrow> string \<Rightarrow> string result" where
  "sha256_file tree p = (case tree p of None \<Rightarrow> Inl (OS_Error p) | Some s \<Rightarrow> Inr (sha256_hex s))"

section \<open>The factorial cells\<close>

definition validate_cell ::
  "nat \<times> json \<Rightarrow> (string \<times> bool \<times> bool) list \<Rightarrow> (string \<times> bool \<times> bool) list result" where
  "validate_cell iv observed =
    (let w = ''factorial_cells['' @ nat_str (fst iv) @ '']''
     in bindE (mapping_at (snd iv) w) (\<lambda>cell.
        if set (keys cell) \<noteq> {''id'', ''tinykg'', ''lean''} then fail w ''field drift''
        else case (field cell ''id'', field cell ''tinykg'', field cell ''lean'') of
            (JStr i, JBool t, JBool l) \<Rightarrow>
              if i \<in> set (keys observed) then fail ''factorial_cells'' ''duplicate cell''
              else Inr (observed @ [(i, t, l)])
          | _ \<Rightarrow> fail w ''invalid id or factor type''))"

definition validate_cells :: "json_object \<Rightarrow> unit result" where
  "validate_cells protocol =
    bindE (sequence_at (field protocol ''factorial_cells'') ''factorial_cells'') (\<lambda>cells.
    bindE (raise_if (length cells \<noteq> length expected_cells) ''factorial_cells'' ''must contain the complete 2x2 design'') (\<lambda>_.
    bindE (foldE validate_cell (enumerate 0 cells) []) (\<lambda>observed.
    raise_if (set observed \<noteq> set expected_cells) ''factorial_cells''
      ''does not encode control, two main effects, and combined'')))"

section \<open>The stages\<close>

definition wiring_runners :: "string list" where
  "wiring_runners = [''scripts/eval/memory_agent_runtime_smoke.py'', ''scripts/eval/run_project_rule_evolution_mac_pilot.py'',
     ''scripts/eval/project_harness_experiment.py'']"

definition validate_runner :: "source_tree \<Rightarrow> nat \<Rightarrow> json_object \<Rightarrow> string \<Rightarrow> unit result" where
  "validate_runner tree i stage sid =
    (if sid = ''s0_zero_paid_wiring''
     then bindE (sequence_at (field stage ''runners'') (''stages['' @ nat_str i @ ''].runners'')) (\<lambda>runners.
       bindE (raise_if (runners \<noteq> map JStr wiring_runners) sid ''must freeze memory, ontology-to-rule, and project-gate wiring'') (\<lambda>_.
       forE (\<lambda>r. raise_if (\<not> is_file tree r) sid ''runner is unavailable'') wiring_runners))
     else case field stage ''runner'' of
         JStr r \<Rightarrow> seqE
          [raise_if (r = []) sid ''runner is missing'',
           raise_if (\<not> is_prefix ''external:'' r \<and> \<not> is_file tree r) sid ''runner is unavailable'']
       | _ \<Rightarrow> fail sid ''runner is missing'')"

definition validate_factorial_stage :: "source_tree \<Rightarrow> json_object \<Rightarrow> string \<Rightarrow> unit result" where
  "validate_factorial_stage tree stage sid =
    (if sid = ''s3_factorial_interaction''
     then seqE
      [raise_if (field stage ''runner'' \<noteq> JStr ''scripts/eval/tinykg_lean_factorial_block.py'') sid
         ''must use the unified native factorial executor'',
       raise_if (field stage ''analyzer'' \<noteq> JStr ''scripts/eval/tinykg_lean_factorial.py'' \<or>
           \<not> is_file tree ''scripts/eval/tinykg_lean_factorial.py'') sid ''authenticated factorial analyzer is unavailable'']
     else Inr ())"

definition validate_arms :: "json_object \<Rightarrow> string \<Rightarrow> unit result" where
  "validate_arms stage sid =
    (case map_of expected_stage_arms sid of
       None \<Rightarrow> Inr ()
     | Some arms \<Rightarrow>
         bindE (py_iter (get_default stage ''arms'' (JArr []))) (\<lambda>observed.
         raise_if (observed \<noteq> map JStr arms) sid ''arm drift''))"

definition validate_stage :: "source_tree \<Rightarrow> nat \<times> json \<Rightarrow> unit result" where
  "validate_stage tree iv =
    (let w = ''stages['' @ nat_str (fst iv) @ '']''
     in bindE (mapping_at (snd iv) w) (\<lambda>stage.
        let sid = py_str (field stage ''id'')
        in bindE (sequence_at (field stage ''predecessors'') (w @ ''.predecessors'')) (\<lambda>predecessors.
           case map_of expected_predecessors sid of
             None \<Rightarrow> Inl (Key_Error sid)
           | Some expected \<Rightarrow> seqE
              [raise_if (predecessors \<noteq> map JStr expected) sid ''predecessor drift'',
               validate_arms stage sid,
               raise_if (\<not> is_bool (field stage ''quality_evidence'')) sid ''quality_evidence must be boolean'',
               raise_if (sid = ''s0_zero_paid_wiring'' \<and> field stage ''quality_evidence'' = JBool True) sid
                 ''wiring smoke cannot be quality evidence'',
               validate_runner tree (fst iv) stage sid,
               validate_factorial_stage tree stage sid])))"

definition validate_stages :: "json_object \<Rightarrow> source_tree \<Rightarrow> unit result" where
  "validate_stages protocol tree =
    bindE (sequence_at (field protocol ''stages'') ''stages'') (\<lambda>stages.
    bindE (ids_of stages ''stages'') (\<lambda>ids.
    bindE (raise_if (ids \<noteq> stage_ids) ''stages'' ''must preserve mechanism -> interaction -> WorkBuddy order'') (\<lambda>_.
    forE (validate_stage tree) (enumerate 0 stages))))"

section \<open>The sources\<close>

type_synonym pins = "(string \<times> string) list"

definition pin_dataset :: "json_object \<Rightarrow> string \<Rightarrow> string \<Rightarrow> string \<Rightarrow> pins \<Rightarrow> pins result" where
  \<comment> \<open>the path and digest in the fields \<open>p\<close> and \<open>h\<close> of a dataset\<close>
  "pin_dataset dataset p h w sources =
    (case (field dataset p, field dataset h) of
       (JStr path, JStr sha) \<Rightarrow> Inr (AList.update path sha sources)
     | _ \<Rightarrow> fail w ''identity is incomplete'')"

definition pin_contract :: "string \<times> json \<Rightarrow> pins \<Rightarrow> pins result" where
  "pin_contract kv sources =
    (case snd kv of
       JStr sha \<Rightarrow> Inr (AList.update (fst kv) sha sources)
     | _ \<Rightarrow> fail ''source_contract'' ''path/digest must be strings'')"

definition check_pin :: "source_tree \<Rightarrow> string \<times> string \<Rightarrow> unit result" where
  "check_pin tree pin =
    bindE (raise_if (\<not> hex_str 64 (snd pin)) (fst pin) ''invalid SHA-256'') (\<lambda>_.
    bindE (raise_if (\<not> is_file tree (fst pin)) (fst pin) ''required source is unavailable'') (\<lambda>_.
    bindE (sha256_file tree (fst pin)) (\<lambda>observed.
    raise_if (observed \<noteq> snd pin) (fst pin) ''source identity drift'')))"

definition collect_sources :: "json_object \<Rightarrow> json_object \<Rightarrow> pins result" where
  "collect_sources protocol datasets =
    bindE (foldE (\<lambda>i sources. bindE (mapping_at (field datasets i) (''datasets.'' @ i)) (\<lambda>d.
        pin_dataset d ''pin'' ''pin_sha256'' (''datasets.'' @ i) sources))
      [''episodic'', ''multihop'', ''procedural_smoke''] []) (\<lambda>sources.
    bindE (mapping_at (field datasets ''lean_rule_impact'') ''datasets.lean_rule_impact'') (\<lambda>lean.
    bindE (raise_if (\<not> py_eq (field lean ''calibration_cases'') (JInt 4) \<or> \<not> py_eq (field lean ''heldout_cases'') (JInt 8))
      ''datasets.lean_rule_impact'' ''case-count drift'') (\<lambda>_.
    bindE (pin_dataset lean ''cases'' ''cases_sha256'' ''datasets.lean_rule_impact'' sources) (\<lambda>sources.
    bindE (mapping_at (field protocol ''source_contract'') ''source_contract'') (\<lambda>contract.
    foldE pin_contract contract sources)))))"

definition validate_sources :: "json_object \<Rightarrow> source_tree \<Rightarrow> unit result" where
  "validate_sources protocol tree =
    bindE (mapping_at (field protocol ''datasets'') ''datasets'') (\<lambda>datasets.
    bindE (collect_sources protocol datasets) (\<lambda>sources.
    bindE (forE (check_pin tree) sources) (\<lambda>_.
    bindE (mapping_at (field datasets ''procedural_smoke'') ''datasets.procedural_smoke'') (\<lambda>procedural.
    raise_if (field procedural ''quality_evidence'' \<noteq> JBool False) ''datasets.procedural_smoke''
      ''two-family fixture cannot be quality evidence''))))"

section \<open>The measurement\<close>

definition validate_contrasts :: "json_object \<Rightarrow> unit result" where
  "validate_contrasts protocol =
    bindE (sequence_at (field protocol ''primary_contrasts'') ''primary_contrasts'') (\<lambda>contrasts.
    bindE (ids_of contrasts ''primary contrast'') (\<lambda>ids.
    bindE (raise_if (ids \<noteq> primary_contrast_ids) ''primary_contrasts'' ''primary contrast drift'') (\<lambda>_.
    bindE (mapping_at (last contrasts) ''factorial interaction'') (\<lambda>interaction.
    raise_if (field interaction ''formula'' \<noteq> JStr ''combined - memory_only - lean_only + control'')
      ''factorial interaction'' ''difference-in-differences formula drift''))))"

definition validate_cache :: "json_object \<Rightarrow> unit result" where
  "validate_cache protocol =
    bindE (mapping_at (field protocol ''cache_contract'') ''cache_contract'') (\<lambda>cache.
    forE (\<lambda>(k, b). raise_if (field cache k \<noteq> JBool b) ''cache_contract'' k)
      [(''stable_core_prefix_equal_all_cells'', True), (''full_first_request_equal_when_only_lean_changes'', True),
       (''full_first_request_equal_when_tinykg_changes'', False), (''tinykg_increment_measured_separately'', True)])"

definition validate_requirements :: "json_object \<Rightarrow> unit result" where
  "validate_requirements protocol =
    bindE (mapping_at (field protocol ''promotion'') ''promotion'') (\<lambda>promotion.
    bindE (sequence_at (field promotion ''requires'') ''promotion.requires'') (\<lambda>requirements.
    let combined = join_with [CHR 0x0A] (map py_str requirements)
    in forE (\<lambda>t. raise_if (\<not> occurs_in t combined) ''promotion.requires'' t) required_promotion_terms))"

definition int_item :: "string \<Rightarrow> json \<Rightarrow> int result" where
  \<comment> \<open>\<open>int(_mapping(row, "sample ladder")[k])\<close>\<close>
  "int_item k row =
    bindE (mapping_at row ''sample ladder'') (\<lambda>d.
    case map_of d k of None \<Rightarrow> Inl (Key_Error k) | Some v \<Rightarrow> py_int v)"

definition validate_ladder :: "json_object \<Rightarrow> unit result" where
  "validate_ladder protocol =
    bindE (sequence_at (field protocol ''sample_ladder'') ''sample_ladder'') (\<lambda>ladder.
    bindE (ids_of ladder ''sample ladder'') (\<lambda>ids.
    bindE (raise_if (ids \<noteq> [''calibration'', ''development'', ''internal_confirmatory'']) ''sample_ladder'' ''stage drift'') (\<lambda>_.
    bindE (mapE (int_item ''minimum_memory_cases_per_arm'') ladder) (\<lambda>memory.
    bindE (mapE (int_item ''minimum_factorial_cases'') ladder) (\<lambda>factorial.
    bindE (raise_if (memory \<noteq> sort memory \<or> hd memory < 6) ''sample_ladder''
      ''memory cases must grow and cover all six LongMemEval categories'') (\<lambda>_.
    bindE (raise_if (factorial \<noteq> sort factorial \<or> hd factorial < 4) ''sample_ladder''
      ''factorial cases must grow from one complete Williams block'') (\<lambda>_.
    bindE (int_item ''minimum_lean_calibration_cases'' (hd ladder)) (\<lambda>n.
    bindE (raise_if (n \<noteq> 4) ''sample_ladder'' ''Lean calibration must bind all four frozen calibration cases'') (\<lambda>_.
    bindE (forE (\<lambda>row. bindE (int_item ''minimum_lean_heldout_cases'' row) (\<lambda>n.
        raise_if (n \<noteq> 8) ''sample_ladder'' ''Lean development/confirmatory must bind all eight frozen held-out cases''))
      (tl ladder)) (\<lambda>_.
    bindE (int_item ''trials'' (last ladder)) (\<lambda>n.
    raise_if (n < 3) ''sample_ladder'' ''confirmatory stage requires repeated trials'')))))))))))"

definition validate_measurement :: "json_object \<Rightarrow> unit result" where
  "validate_measurement protocol = seqE
    [validate_contrasts protocol, validate_cache protocol, validate_requirements protocol, validate_ladder protocol]"

section \<open>The protocol\<close>

definition validate_authority_budget :: "json_object \<Rightarrow> unit result" where
  "validate_authority_budget protocol =
    bindE (mapping_at (field protocol ''budget'') ''budget'') (\<lambda>budget.
    let authority = field budget ''maximum_user_authority_usd''
    in bindE (raise_if (\<not> is_number authority) ''budget'' ''invalid user authority'') (\<lambda>_.
       bindE (is_finite authority) (\<lambda>_. seqE
        [raise_if (float_of authority \<noteq> Fin 2000 \<or> d_less (Fin 2000) (float_of authority)) ''budget''
           ''must bind the explicit $2000 user authority'',
         raise_if (field budget ''preflight_paid_rollouts_enabled'' \<noteq> JBool False) ''budget''
           ''protocol preflight must remain zero-paid'',
         raise_if (\<not> py_eq (field budget ''provider_retries'') (JInt 0) \<or> field budget ''journal_required'' \<noteq> JBool True) ''budget''
           ''single-attempt durable-journal boundary drift''])))"

definition validate_protocol :: "json_object \<Rightarrow> source_tree \<Rightarrow> json_object result" where
  "validate_protocol protocol tree =
    bindE (raise_if (\<not> py_eq (field protocol ''schema_version'') (JInt 1) \<or> field protocol ''protocol_id'' \<noteq> JStr protocol_id)
      ''attribution protocol'' ''schema/protocol identity drift'') (\<lambda>_.
    bindE (mapping_at (field protocol ''model'') ''model'') (\<lambda>model.
    bindE (raise_if (field model ''id'' \<noteq> JStr ''glm-5.2'') ''model'' ''the attribution program freezes glm-5.2'') (\<lambda>_.
    bindE (validate_cells protocol) (\<lambda>_.
    bindE (validate_stages protocol tree) (\<lambda>_.
    bindE (validate_sources protocol tree) (\<lambda>_.
    bindE (validate_measurement protocol) (\<lambda>_.
    bindE (mapping_at (field protocol ''isolation'') ''isolation'') (\<lambda>isolation.
    bindE (raise_if (field isolation ''remote_skill_harness_forbidden'' \<noteq> JBool True) ''isolation''
      ''remote TinyKG must be forbidden for benchmark rows'') (\<lambda>_.
    bindE (validate_authority_budget protocol) (\<lambda>_.
    bindE (sequence_at (field protocol ''known_gaps'') ''known_gaps'') (\<lambda>gaps.
    bindE (raise_if (list_ex (\<lambda>g. occurs_in ''production executor'' (py_str g)) gaps) ''known_gaps''
      ''resolved factorial production-executor gap is stale'') (\<lambda>_.
    Inr protocol))))))))))))"

section \<open>The factorial schedule and the plan\<close>

record factorial_row =
  factorial_sequence :: nat
  factorial_case :: string
  factorial_position :: nat
  factorial_cell :: string

definition williams_rows :: "nat list list" where
  "williams_rows = [[0, 1, 3, 2], [1, 2, 0, 3], [2, 3, 1, 0], [3, 0, 2, 1]]"

definition rank_cases :: "string list \<Rightarrow> string list" where
  \<comment> \<open>digests compare as their hexadecimal forms do\<close>
  "rank_cases ids = sort_key (\<lambda>c. sha256_hex (protocol_id @ char_of (0 :: nat) # c)) ids"

definition balanced_factorial_schedule :: "string list \<Rightarrow> factorial_row list result" where
  "balanced_factorial_schedule ids =
    (if ids = [] \<or> length ids mod 4 \<noteq> 0 \<or> \<not> distinct ids
     then fail ''factorial schedule'' ''requires distinct, non-empty case ids in blocks of four''
     else Inr (concat (map (\<lambda>(i, c). map (\<lambda>(p, cell).
         \<lparr>factorial_sequence = 4 * i + p, factorial_case = c, factorial_position = p, factorial_cell = cell_ids ! cell\<rparr>)
       (enumerate 0 (williams_rows ! (i mod 4)))) (enumerate 0 (rank_cases ids)))))"

definition protocol_plan :: "json_object \<Rightarrow> json result" where
  \<comment> \<open>\<open>dry_run_plan\<close> of a validated protocol\<close>
  "protocol_plan protocol =
    bindE (sequence_at (field protocol ''stages'') ''stages'') (\<lambda>stages.
    bindE (mapE (\<lambda>s. case s of JObj d \<Rightarrow> (case map_of d ''id'' of Some v \<Rightarrow> Inr v | None \<Rightarrow> Inl (Key_Error ''id''))
        | _ \<Rightarrow> Inl (Type_Error ''stage'')) stages) (\<lambda>order.
    bindE (py_iter (field protocol ''known_gaps'')) (\<lambda>gaps.
    Inr (JObj [(''schema_version'', JStr ''metacodes-attribution-dry-run-v1''), (''protocol_id'', field protocol ''protocol_id''),
      (''provider_requests'', JInt 0), (''paid_rollouts_enabled'', JBool False), (''quality_evidence'', JBool False),
      (''stage_order'', JArr order), (''factorial_cells'', JArr (map JStr cell_ids)),
      (''workbuddy_blocked_by'', JArr [JStr ''s3_factorial_interaction'']), (''known_gaps'', JArr gaps)]))))"

end
