(* ===== verification/Attribution_Properties.thy ===== *)
theory Attribution_Properties
  imports Attribution_Protocol
begin

text \<open>
  What the attribution protocol guarantees: a schedule balanced by position and by carryover,
  stages that come after what they depend on, and sources that are the pinned ones.
\<close>

section \<open>The factorial schedule\<close>

definition slot_cell :: "nat \<Rightarrow> nat \<Rightarrow> string" where
  "slot_cell i p = cell_ids ! (williams_rows ! (i mod 4) ! p)"

lemma williams_row_length: "r < 4 \<Longrightarrow> length (williams_rows ! r) = 4"
  by (auto simp: williams_rows_def less_Suc_eq numeral_eq_Suc)

lemma factorial_schedule_nth:
  assumes "balanced_factorial_schedule ids = Inr s" and "i < length ids" and "p < 4"
  shows "s ! (i * 4 + p) = \<lparr>factorial_sequence = 4 * i + p, factorial_case = rank_cases ids ! i,
    factorial_position = p, factorial_cell = slot_cell i p\<rparr>"
proof -
  let ?f = "\<lambda>(i, c). map (\<lambda>(p, cell). \<lparr>factorial_sequence = 4 * i + p, factorial_case = c, factorial_position = p,
      factorial_cell = cell_ids ! cell\<rparr>) (enumerate 0 (williams_rows ! (i mod 4)))"
  have s: "s = concat (map ?f (enumerate 0 (rank_cases ids)))"
    using assms(1) by (simp add: balanced_factorial_schedule_def split: if_splits)
  have w: "length (williams_rows ! (k mod 4)) = 4" for k by (simp add: williams_row_length)
  have l: "length (?f x) = 4" for x by (simp add: w split: prod.splits)
  have n: "length (rank_cases ids) = length ids" by (simp add: rank_cases_def)
  have "s ! (i * 4 + p) = ?f (enumerate 0 (rank_cases ids) ! i) ! p"
    unfolding s using assms(2,3) n by (intro nth_concat_const l) simp_all
  then show ?thesis using assms(2,3) n w [of i] by (simp add: nth_enumerate_eq slot_cell_def)
qed

lemma williams_counts:
  "\<forall>p \<in> set [0..<4]. \<forall>k \<in> set [0..<4]. length (filter (\<lambda>r. williams_rows ! r ! p = k) [0..<4]) = 1"
  "\<forall>k \<in> set [0..<4]. \<forall>l \<in> set [0..<4]. k \<noteq> l \<longrightarrow>
     (\<Sum>p\<leftarrow>[0..<3]. length (filter (\<lambda>r. williams_rows ! r ! p = k \<and> williams_rows ! r ! Suc p = l) [0..<4])) = 1"
  by code_simp+

lemma williams_below: "r < 4 \<Longrightarrow> p < 4 \<Longrightarrow> williams_rows ! r ! p < 4"
proof -
  have "\<forall>r \<in> set [0..<4]. \<forall>p \<in> set [0..<4]. williams_rows ! r ! p < 4" by code_simp
  then show "r < 4 \<Longrightarrow> p < 4 \<Longrightarrow> williams_rows ! r ! p < 4" by simp
qed

lemma cell_index: "k < 4 \<Longrightarrow> l < 4 \<Longrightarrow> cell_ids ! k = cell_ids ! l \<longleftrightarrow> k = l"
  by (rule nth_eq_iff_index_eq) (simp_all add: cell_ids_def)

lemma slot_cell_index: "r < 4 \<Longrightarrow> p < 4 \<Longrightarrow> k < 4 \<Longrightarrow> slot_cell r p = cell_ids ! k \<longleftrightarrow> williams_rows ! r ! p = k"
  by (simp add: slot_cell_def cell_index williams_below)

lemma slot_cell_counts:
  assumes "a \<in> set cell_ids"
  shows "p < 4 \<Longrightarrow> card {r. r < 4 \<and> slot_cell r p = a} = 1"
    and "b \<in> set cell_ids \<Longrightarrow> a \<noteq> b \<Longrightarrow>
      (\<Sum>p<3. card {r. r < 4 \<and> slot_cell r p = a \<and> slot_cell r (Suc p) = b}) = 1"
proof -
  have index: "\<exists>k < 4. c = cell_ids ! k" if "c \<in> set cell_ids" for c
  proof -
    have "length cell_ids = 4" by (simp add: cell_ids_def)
    then show ?thesis using that by (metis in_set_conv_nth)
  qed
  obtain k where k: "k < 4" "a = cell_ids ! k" using index [OF assms] by blast
  show "card {r. r < 4 \<and> slot_cell r p = a} = 1" if p: "p < 4"
  proof -
    have "{r. r < 4 \<and> slot_cell r p = a} = {r. r < 4 \<and> williams_rows ! r ! p = k}"
      using k p slot_cell_index by auto
    then show ?thesis using williams_counts(1) k p by (simp only: card_below_filter) simp
  qed
  show "(\<Sum>p<3. card {r. r < 4 \<and> slot_cell r p = a \<and> slot_cell r (Suc p) = b}) = 1" if b: "b \<in> set cell_ids" "a \<noteq> b"
  proof -
    obtain l where l: "l < 4" "b = cell_ids ! l" using index [OF b(1)] by blast
    have "k \<noteq> l" using k l b(2) by auto
    have "card {r. r < 4 \<and> slot_cell r p = a \<and> slot_cell r (Suc p) = b} =
        length (filter (\<lambda>r. williams_rows ! r ! p = k \<and> williams_rows ! r ! Suc p = l) [0..<4])" if p: "p < 3" for p
    proof -
      have "{r. r < 4 \<and> slot_cell r p = a \<and> slot_cell r (Suc p) = b} =
          {r. r < 4 \<and> (williams_rows ! r ! p = k \<and> williams_rows ! r ! Suc p = l)}"
        using k l p slot_cell_index [of _ p k] slot_cell_index [of _ "Suc p" l] by auto
      then show ?thesis by (simp only: card_below_filter)
    qed
    then have "(\<Sum>p<3. card {r. r < 4 \<and> slot_cell r p = a \<and> slot_cell r (Suc p) = b}) =
        (\<Sum>p<3. length (filter (\<lambda>r. williams_rows ! r ! p = k \<and> williams_rows ! r ! Suc p = l) [0..<4]))"
      by (intro sum.cong) simp_all
    also have "\<dots> = (\<Sum>p\<leftarrow>[0..<3]. length (filter (\<lambda>r. williams_rows ! r ! p = k \<and> williams_rows ! r ! Suc p = l) [0..<4]))"
      by (simp only: sum_list_distinct_conv_sum_set distinct_upt set_upt lessThan_atLeast0)
    also have "\<dots> = 1" using williams_counts(2) k(1) l(1) \<open>k \<noteq> l\<close> by (simp only: set_upt atLeastLessThan_iff Ball_def) blast
    finally show ?thesis .
  qed
qed

lemma factorial_schedule_counts:
  assumes "balanced_factorial_schedule ids = Inr s" and "a \<in> set cell_ids"
  shows "p < 4 \<Longrightarrow> card {i. i < length ids \<and> factorial_cell (s ! (i * 4 + p)) = a} * 4 = length ids"
    and "b \<in> set cell_ids \<Longrightarrow> a \<noteq> b \<Longrightarrow>
      (\<Sum>p<3. card {i. i < length ids \<and> factorial_cell (s ! (i * 4 + p)) = a \<and>
        factorial_cell (s ! (i * 4 + Suc p)) = b}) * 4 = length ids"
proof -
  have "length ids mod 4 = 0" using assms(1) by (simp add: balanced_factorial_schedule_def split: if_splits)
  then obtain m where m: "length ids = m * 4" by (metis dvd_def mod_0_imp_dvd mult.commute)
  have c: "factorial_cell (s ! (i * 4 + p)) = slot_cell i p" if "i < length ids" "p < 4" for i p
    using factorial_schedule_nth [OF assms(1) that] by simp
  have slot: "slot_cell (i mod 4) p = slot_cell i p" for i p by (simp add: slot_cell_def)
  have period: "card {i. i < length ids \<and> P (i mod 4)} = m * card {r. r < 4 \<and> P r}" for P
    unfolding m by (rule card_periodic) simp
  show "card {i. i < length ids \<and> factorial_cell (s ! (i * 4 + p)) = a} * 4 = length ids" if p: "p < 4"
  proof -
    have "{i. i < length ids \<and> factorial_cell (s ! (i * 4 + p)) = a} = {i. i < length ids \<and> slot_cell (i mod 4) p = a}"
      using c p by (auto simp: slot)
    then show ?thesis using period [of "\<lambda>r. slot_cell r p = a"] slot_cell_counts(1) [OF assms(2) p] m by simp
  qed
  show "(\<Sum>p<3. card {i. i < length ids \<and> factorial_cell (s ! (i * 4 + p)) = a \<and>
      factorial_cell (s ! (i * 4 + Suc p)) = b}) * 4 = length ids" if b: "b \<in> set cell_ids" "a \<noteq> b"
  proof -
    have "card {i. i < length ids \<and> factorial_cell (s ! (i * 4 + p)) = a \<and> factorial_cell (s ! (i * 4 + Suc p)) = b} =
        m * card {r. r < 4 \<and> slot_cell r p = a \<and> slot_cell r (Suc p) = b}" if p: "p < 3" for p
    proof -
      have "{i. i < length ids \<and> factorial_cell (s ! (i * 4 + p)) = a \<and> factorial_cell (s ! (i * 4 + Suc p)) = b} =
          {i. i < length ids \<and> (slot_cell (i mod 4) p = a \<and> slot_cell (i mod 4) (Suc p) = b)}"
        using c [of _ p] c [of _ "Suc p"] p by (auto simp: slot)
      then show ?thesis using period [of "\<lambda>r. slot_cell r p = a \<and> slot_cell r (Suc p) = b"] by simp
    qed
    then have "(\<Sum>p<3. card {i. i < length ids \<and> factorial_cell (s ! (i * 4 + p)) = a \<and> factorial_cell (s ! (i * 4 + Suc p)) = b}) =
        m * (\<Sum>p<3. card {r. r < 4 \<and> slot_cell r p = a \<and> slot_cell r (Suc p) = b})"
      by (simp add: sum_distrib_left)
    then show ?thesis using slot_cell_counts(2) [OF assms(2) b] m by simp
  qed
qed

text \<open>C32: the factorial schedule is a Williams design for any number of blocks: every cell is run
  in every position equally often, and every cell runs right after every other equally often,
  each in a quarter of the cases.\<close>

theorem factorial_schedule_balanced:
  assumes "balanced_factorial_schedule ids = Inr s" and "a \<in> set cell_ids"
  shows "(\<forall>p < 4. card {i. i < length ids \<and> factorial_cell (s ! (i * 4 + p)) = a} * 4 = length ids) \<and>
    (\<forall>b \<in> set cell_ids. a \<noteq> b \<longrightarrow>
      (\<Sum>p<3. card {i. i < length ids \<and> factorial_cell (s ! (i * 4 + p)) = a \<and>
        factorial_cell (s ! (i * 4 + Suc p)) = b}) * 4 = length ids)"
  using factorial_schedule_counts [OF assms] by blast

theorem factorial_schedule_balanced_witness:
  "\<exists>s. balanced_factorial_schedule [''c1'', ''c2'', ''c3'', ''c4''] = Inr s \<and>
     card {i. i < 4 \<and> factorial_cell (s ! (i * 4 + 2)) = ''combined''} = 1"
proof -
  let ?ids = "[''c1'', ''c2'', ''c3'', ''c4'']"
  obtain s where s: "balanced_factorial_schedule ?ids = Inr s"
    by (simp add: balanced_factorial_schedule_def)
  have a: "''combined'' \<in> set cell_ids" by (simp add: cell_ids_def)
  have l: "length ?ids = 4" by simp
  have "card {i. i < 4 \<and> factorial_cell (s ! (i * 4 + 2)) = ''combined''} * 4 = 4"
    using conjunct1 [OF factorial_schedule_balanced [OF s a, unfolded l]]
    by (elim allE [where x = 2]) (erule impE, simp, assumption)
  then show ?thesis using s by auto
qed

section \<open>Stages\<close>

lemma validate_protocol_Inr:
  assumes "validate_protocol protocol tree = Inr p"
  shows "validate_cells protocol = Inr ()" and "validate_stages protocol tree = Inr ()"
    and "validate_sources protocol tree = Inr ()" and "p = protocol"
  using assms unfolding validate_protocol_def by (elim bindE_InrE; simp)+

lemma mapE_nth:
  "mapE f xs = Inr ys \<Longrightarrow> length ys = length xs \<and> (\<forall>i < length xs. f (xs ! i) = Inr (ys ! i))"
proof (induction xs arbitrary: ys)
  case (Cons x xs)
  then obtain y zs where "f x = Inr y" "mapE f xs = Inr zs" "ys = y # zs" by (auto simp: bindE_eq_Inr)
  then show ?case using Cons.IH [of zs] by (auto simp: nth_Cons split: nat.splits)
qed simp

text \<open>In an accepted protocol every stage comes after all the stages it depends on, and the
  stages are the five frozen ones in their order.\<close>

theorem protocol_stages_ordered:
  assumes "validate_protocol protocol tree = Inr p" and "field protocol ''stages'' = JArr stages"
    and "i < length stages"
  shows "length stages = length stage_ids \<and> (\<exists>stage predecessors. stages ! i = JObj stage \<and>
    py_str (field stage ''id'') = stage_ids ! i \<and> field stage ''predecessors'' = JArr (map JStr predecessors) \<and>
    set predecessors \<subseteq> set (take i stage_ids))"
proof -
  note v = validate_protocol_Inr(2) [OF assms(1)]
  obtain ids where ids: "ids_of stages ''stages'' = Inr ids" "ids = stage_ids"
    and each: "forE (validate_stage tree) (enumerate 0 stages) = Inr ()"
    using v assms(2) by (auto simp: validate_stages_def sequence_at_def bindE_eq_Inr check_simps)
  have l: "length stages = length stage_ids" and
    nth: "bindE (mapping_at (stages ! i) ''stages'') (\<lambda>d. Inr (py_str (field d ''id''))) = Inr (stage_ids ! i)"
    using mapE_nth [OF ids(1) [unfolded ids_of_def]] ids(2) assms(3) by auto
  from nth obtain stage where stage: "stages ! i = JObj stage" "py_str (field stage ''id'') = stage_ids ! i"
    by (auto simp: bindE_eq_Inr mapping_at_def split: json.splits)
  have "(i, stages ! i) \<in> set (enumerate 0 stages)"
    using assms(3) by (metis add_0 in_set_conv_nth length_enumerate nth_enumerate_eq)
  then have "validate_stage tree (i, stages ! i) = Inr ()" using each by (auto simp: forE_eq_Inr)
  then obtain ps expected where ps: "field stage ''predecessors'' = JArr ps" "map_of expected_predecessors (stage_ids ! i) = Some expected"
    "ps = map JStr expected"
    unfolding validate_stage_def stage(1)
    by (auto simp: mapping_at_def sequence_at_def bindE_eq_Inr stage(2) check_simps Let_def split: json.splits option.splits)
  have "i < 5" using l assms(3) by (simp add: stage_ids_def)
  then have "set expected \<subseteq> set (take i stage_ids)"
    using ps(2) by (auto simp: less_Suc_eq numeral_eq_Suc stage_ids_def expected_predecessors_def)
  then show ?thesis using l stage ps by blast
qed

section \<open>Pinned sources\<close>

lemma pin_contract_fold:
  "foldE pin_contract contract sources = Inr sources' \<Longrightarrow> distinct (keys contract) \<Longrightarrow>
   (\<forall>kv \<in> set contract. \<exists>sha. snd kv = JStr sha \<and> map_of sources' (fst kv) = Some sha) \<and>
   (\<forall>k. k \<notin> set (keys contract) \<longrightarrow> map_of sources' k = map_of sources k)"
proof (induction contract arbitrary: sources)
  case (Cons kv contract)
  obtain s where s: "pin_contract kv sources = Inr s" "foldE pin_contract contract s = Inr sources'"
    using Cons.prems(1) by (auto simp: bindE_eq_Inr)
  then obtain sha where sha: "snd kv = JStr sha" "s = AList.update (fst kv) sha sources"
    by (auto simp: pin_contract_def split: json.splits)
  from Cons.IH [OF s(2)] Cons.prems(2) sha show ?case by (auto simp: update_conv')
qed simp

text \<open>C33: in an accepted protocol every path of the source contract names a file whose SHA-256 is
  the pinned one.\<close>

theorem protocol_sources_pinned:
  assumes "validate_protocol protocol tree = Inr p" and "field protocol ''source_contract'' = JObj contract"
    and "distinct (keys contract)" and "(path, v) \<in> set contract"
  shows "\<exists>content. tree path = Some content \<and> v = JStr (sha256_hex content)"
proof -
  obtain datasets sources where c: "collect_sources protocol datasets = Inr sources" "forE (check_pin tree) sources = Inr ()"
    using validate_protocol_Inr(3) [OF assms(1)] by (auto simp: validate_sources_def bindE_eq_Inr)
  obtain sources0 where "foldE pin_contract contract sources0 = Inr sources"
    using c(1) assms(2) unfolding collect_sources_def mapping_at_def by (auto simp: bindE_eq_Inr)
  from pin_contract_fold [OF this assms(3)] assms(4) obtain sha where sha: "v = JStr sha" "map_of sources path = Some sha"
    by auto
  then have "check_pin tree (path, sha) = Inr ()" using c(2) by (auto simp: forE_eq_Inr dest: map_of_SomeD)
  then show ?thesis
    using sha(1) by (auto simp: check_pin_def sha256_file_def is_file_def bindE_eq_Inr check_simps split: option.splits)
qed

section \<open>An accepted protocol\<close>

definition demo_stage_of :: "string \<Rightarrow> string list \<Rightarrow> (string \<times> json) list \<Rightarrow> json" where
  "demo_stage_of sid predecessors rest = JObj
     ([(''id'', JStr sid), (''predecessors'', JArr (map JStr predecessors)), (''quality_evidence'', JBool False)] @ rest)"

definition demo_stages :: "json list" where
  "demo_stages =
    [demo_stage_of ''s0_zero_paid_wiring'' [] [(''runners'', JArr (map JStr wiring_runners))],
     demo_stage_of ''s1_tinykg_main_effect'' [''s0_zero_paid_wiring'']
       [(''runner'', JStr ''r''), (''arms'', JArr [JStr ''no_memory'', JStr ''tinykg_lexical''])],
     demo_stage_of ''s2_lean_main_effect'' [''s0_zero_paid_wiring'']
       [(''runner'', JStr ''r''), (''arms'', JArr [JStr ''signal_only'', JStr ''evolved_shadow'', JStr ''evolved_enforced''])],
     demo_stage_of ''s3_factorial_interaction'' [''s1_tinykg_main_effect'', ''s2_lean_main_effect'']
       [(''runner'', JStr ''scripts/eval/tinykg_lean_factorial_block.py''),
        (''analyzer'', JStr ''scripts/eval/tinykg_lean_factorial.py''), (''arms'', JArr (map JStr cell_ids))],
     demo_stage_of ''s4_workbuddy_external_validation'' [''s3_factorial_interaction''] [(''runner'', JStr ''external:w'')]]"

definition demo_cell :: "string \<times> bool \<times> bool \<Rightarrow> json" where
  "demo_cell c = (case c of (i, t, l) \<Rightarrow> JObj [(''id'', JStr i), (''tinykg'', JBool t), (''lean'', JBool l)])"

definition demo_pin :: json where
  "demo_pin = JStr (sha256_hex ''x'')"

definition demo_dataset :: "string \<Rightarrow> json" where
  "demo_dataset p = JObj [(''pin'', JStr p), (''pin_sha256'', demo_pin), (''quality_evidence'', JBool False)]"

definition demo_ladder_row :: "string \<Rightarrow> json" where
  "demo_ladder_row i = JObj [(''id'', JStr i), (''minimum_memory_cases_per_arm'', JInt 6), (''minimum_factorial_cases'', JInt 4),
     (''minimum_lean_calibration_cases'', JInt 4), (''minimum_lean_heldout_cases'', JInt 8), (''trials'', JInt 3)]"

definition demo_protocol :: json_object where
  "demo_protocol =
    [(''schema_version'', JInt 1), (''protocol_id'', JStr protocol_id), (''model'', JObj [(''id'', JStr ''glm-5.2'')]),
     (''factorial_cells'', JArr (map demo_cell expected_cells)), (''stages'', JArr demo_stages),
     (''datasets'', JObj [(''episodic'', demo_dataset ''a''), (''multihop'', demo_dataset ''b''), (''procedural_smoke'', demo_dataset ''c''),
       (''lean_rule_impact'', JObj [(''calibration_cases'', JInt 4), (''heldout_cases'', JInt 8), (''cases'', JStr ''d''),
         (''cases_sha256'', demo_pin)])]),
     (''source_contract'', JObj [(''e'', demo_pin)]),
     (''primary_contrasts'', JArr [JObj [(''id'', JStr ''tinykg_main'')], JObj [(''id'', JStr ''lean_main'')],
       JObj [(''id'', JStr ''combined_total'')],
       JObj [(''id'', JStr ''factorial_interaction''), (''formula'', JStr ''combined - memory_only - lean_only + control'')]]),
     (''cache_contract'', JObj [(''stable_core_prefix_equal_all_cells'', JBool True),
       (''full_first_request_equal_when_only_lean_changes'', JBool True),
       (''full_first_request_equal_when_tinykg_changes'', JBool False), (''tinykg_increment_measured_separately'', JBool True)]),
     (''promotion'', JObj [(''requires'', JArr (map JStr required_promotion_terms))]),
     (''sample_ladder'', JArr (map demo_ladder_row [''calibration'', ''development'', ''internal_confirmatory''])),
     (''isolation'', JObj [(''remote_skill_harness_forbidden'', JBool True)]),
     (''budget'', JObj [(''maximum_user_authority_usd'', JInt 2000), (''preflight_paid_rollouts_enabled'', JBool False),
       (''provider_retries'', JInt 0), (''journal_required'', JBool True)]),
     (''known_gaps'', JArr [])]"

definition demo_tree :: source_tree where
  "demo_tree = (\<lambda>_. Some ''x'')"

lemma occurs_in_append: "occurs_in t (a @ t @ b)"
proof (induction a)
  case Nil
  then show ?case by (cases t; cases b) (simp_all add: is_prefix_def)
qed simp

lemma occurs_in_join: "t \<in> set ts \<Longrightarrow> occurs_in t (join_with sep ts)"
proof -
  assume "t \<in> set ts"
  then have "\<exists>a b. join_with sep ts = a @ t @ b"
  proof (induction sep ts rule: join_with.induct)
    case (2 sep x)
    then show ?case by (intro exI [of _ "[]"]) simp
  next
    case (3 sep x y ys)
    show ?case
    proof (cases "t = x")
      case True
      then show ?thesis by (intro exI [of _ "[]"] exI [of _ "sep @ join_with sep (y # ys)"]) simp
    next
      case False
      then obtain a b where "join_with sep (y # ys) = a @ t @ b" using 3 by auto
      then show ?thesis by (intro exI [of _ "x @ sep @ a"] exI [of _ b]) simp
    qed
  qed simp
  then show ?thesis using occurs_in_append by metis
qed

lemma demo_protocol_fields:
  "field demo_protocol ''factorial_cells'' = JArr (map demo_cell expected_cells)"
  "field demo_protocol ''stages'' = JArr demo_stages"
  "field demo_protocol ''source_contract'' = JObj [(''e'', demo_pin)]"
  "field demo_protocol ''promotion'' = JObj [(''requires'', JArr (map JStr required_promotion_terms))]"
  by (simp_all add: demo_protocol_def dict_get_none_def)

lemma demo_cells_valid: "validate_cells demo_protocol = Inr ()"
  unfolding validate_cells_def demo_protocol_fields
  by (simp add: sequence_at_def expected_cells_def demo_cell_def raise_if_def validate_cell_def mapping_at_def
      dict_get_none_def Let_def insert_commute)

lemma demo_file [simp]: "is_file demo_tree p" "sha256_file demo_tree p = Inr (sha256_hex ''x'')"
  by (simp_all add: is_file_def sha256_file_def demo_tree_def)

lemma demo_stages_valid: "validate_stages demo_protocol demo_tree = Inr ()"
proof -
  have ids: "ids_of demo_stages ''stages'' = Inr stage_ids"
    by (simp add: ids_of_def demo_stages_def demo_stage_of_def mapping_at_def dict_get_none_def stage_ids_def)
  have "\<forall>iv \<in> set (enumerate 0 demo_stages). validate_stage demo_tree iv = Inr ()"
    by (simp add: demo_stages_def demo_stage_of_def validate_stage_def mapping_at_def sequence_at_def dict_get_none_def Let_def
        expected_predecessors_def expected_stage_arms_def validate_arms_def get_default_def validate_runner_def
        validate_factorial_stage_def raise_if_def is_prefix_def wiring_runners_def)
  then have "forE (validate_stage demo_tree) (enumerate 0 demo_stages) = Inr ()" by (simp add: forE_eq_Inr)
  then show ?thesis
    unfolding validate_stages_def demo_protocol_fields by (simp add: sequence_at_def ids raise_if_def)
qed

lemma demo_sources_valid: "validate_sources demo_protocol demo_tree = Inr ()"
proof -
  have "hex_str 64 (sha256_hex ''x'')"
    using is_hash_sha256_hex [of "''x''"] by (simp add: is_hash_str_def hex_str_def list_all_iff)
  then show ?thesis
    by (simp add: validate_sources_def collect_sources_def demo_protocol_def demo_dataset_def demo_pin_def pin_dataset_def
        pin_contract_def check_pin_def mapping_at_def dict_get_none_def raise_if_def dec_eq_def)
qed

lemma demo_measurement_valid: "validate_measurement demo_protocol = Inr ()"
proof -
  have "validate_contrasts demo_protocol = Inr ()"
    by (simp add: validate_contrasts_def demo_protocol_def sequence_at_def ids_of_def mapping_at_def dict_get_none_def
        primary_contrast_ids_def raise_if_def)
  moreover have "validate_cache demo_protocol = Inr ()"
    by (simp add: validate_cache_def demo_protocol_def mapping_at_def dict_get_none_def raise_if_def)
  moreover have "validate_requirements demo_protocol = Inr ()"
  proof -
    have "map py_str (map JStr required_promotion_terms) = required_promotion_terms" by (simp add: map_idI)
    then show ?thesis
      unfolding validate_requirements_def demo_protocol_fields
      by (simp add: mapping_at_def sequence_at_def dict_get_none_def Let_def forE_eq_Inr raise_if_def occurs_in_join)
  qed
  moreover have "validate_ladder demo_protocol = Inr ()"
    by (simp add: validate_ladder_def demo_protocol_def demo_ladder_row_def sequence_at_def ids_of_def mapping_at_def
        int_item_def dict_get_none_def raise_if_def)
  ultimately show ?thesis by (simp add: validate_measurement_def)
qed

lemma demo_protocol_valid: "validate_protocol demo_protocol demo_tree = Inr demo_protocol"
proof -
  have d: "to_double 2000 = Fin 2000" using float_of_small_int [of 2000] by simp
  have "validate_authority_budget demo_protocol = Inr ()"
    by (simp add: validate_authority_budget_def demo_protocol_def mapping_at_def dict_get_none_def is_finite_small d
        d_less_def Let_def raise_if_def dec_eq_def)
  moreover have "field demo_protocol ''schema_version'' = JInt 1" "field demo_protocol ''protocol_id'' = JStr protocol_id"
    "field demo_protocol ''model'' = JObj [(''id'', JStr ''glm-5.2'')]"
    "field demo_protocol ''isolation'' = JObj [(''remote_skill_harness_forbidden'', JBool True)]"
    "field demo_protocol ''known_gaps'' = JArr []"
    by (simp_all add: demo_protocol_def dict_get_none_def)
  ultimately show ?thesis
    by (simp add: validate_protocol_def demo_cells_valid demo_stages_valid demo_sources_valid demo_measurement_valid
        mapping_at_def sequence_at_def raise_if_def dec_eq_def) (simp add: dict_get_none_def)
qed

theorem protocol_stages_ordered_witness:
  "\<exists>stage predecessors. demo_stages ! 3 = JObj stage \<and> field stage ''predecessors'' = JArr (map JStr predecessors) \<and>
     set predecessors \<subseteq> set (take 3 stage_ids)"
proof -
  have "3 < length demo_stages" by (simp add: demo_stages_def)
  from protocol_stages_ordered [OF demo_protocol_valid demo_protocol_fields(2) this] show ?thesis by blast
qed

theorem protocol_sources_pinned_witness:
  "\<exists>content. demo_tree ''e'' = Some content \<and> demo_pin = JStr (sha256_hex content)"
  by (rule protocol_sources_pinned [OF demo_protocol_valid demo_protocol_fields(3)]) simp_all

end
