(* ===== verification/Release_Versions.thy ===== *)
theory Release_Versions
  imports Checks "HOL-Library.Product_Lexorder"
begin

text \<open>
  Version arithmetic, commit levels and changelogs of \<open>scripts/release_common.py\<close>,
  \<open>scripts/release_cut.py\<close> and \<open>scripts/agentcore_contract.py\<close>. Regular expressions are written out
  as functions; their \<open>$\<close> also matches before a final newline. Of the digits \<open>\d\<close> matches,
  the ASCII ones are modelled.
\<close>

abbreviation refuse :: "string \<Rightarrow> 'a result" where
  "refuse m \<equiv> Inl (Cut_Error m)"

type_synonym version = "nat \<times> nat \<times> nat"

section \<open>Strings\<close>

function lstrip :: "string \<Rightarrow> string" where
  "lstrip s = (if s = [] \<or> space_bytes s = 0 then s else lstrip (drop (space_bytes s) s))"
  by pat_completeness auto
termination by (relation "measure length") (auto simp: diff_less)

declare lstrip.simps [simp del]

fun rstrip :: "string \<Rightarrow> string" where
  "rstrip [] = []"
| "rstrip (c # s) = (if blank (c # s) then [] else c # rstrip s)"

definition strip :: "string \<Rightarrow> string" where
  "strip s = rstrip (lstrip s)"

definition chomp :: "string \<Rightarrow> string" where
  \<comment> \<open>what \<open>$\<close> leaves to match: the string, or the string without its final newline\<close>
  "chomp s = (if s \<noteq> [] \<and> last s = newline then butlast s else s)"

definition ends_with :: "string \<Rightarrow> string \<Rightarrow> bool" where
  "ends_with s t \<longleftrightarrow> is_prefix (rev t) (rev s)"

definition without_suffix :: "string \<Rightarrow> string \<Rightarrow> string" where
  "without_suffix t s = (if ends_with s t then take (length s - length t) s else s)"

definition ascii_lower :: "string \<Rightarrow> string" where
  "ascii_lower s = map (\<lambda>c. if 65 \<le> char_code c \<and> char_code c \<le> 90 then char_of (char_code c + 32) else c) s"

section \<open>Version texts\<close>

definition number_part :: "bool \<Rightarrow> string \<Rightarrow> bool" where
  \<comment> \<open>\<open>\d+\<close>, or \<open>0|[1-9]\d*\<close> when canonical\<close>
  "number_part canonical p \<longleftrightarrow> p \<noteq> [] \<and> list_all is_digit p \<and> (canonical \<longrightarrow> p = ''0'' \<or> hd p \<noteq> CHR ''0'')"

definition dotted :: "bool \<Rightarrow> string \<Rightarrow> version option" where
  "dotted canonical s =
    (case split_at_char (CHR ''.'') s of
       [a, b, c] \<Rightarrow>
         if list_all (number_part canonical) [a, b, c]
         then Some (nat_of_digits a, nat_of_digits b, nat_of_digits c) else None
     | _ \<Rightarrow> None)"

definition parse_version :: "string \<Rightarrow> (version \<times> bool) result" where
  "parse_version text =
    (let s = strip text
     in case dotted False (without_suffix ''-dev'' s) of
         Some v \<Rightarrow> Inr (v, ends_with s ''-dev'')
       | None \<Rightarrow> refuse ''not a version this script understands'')"

fun fmt :: "version \<Rightarrow> string" where
  "fmt (a, b, c) = join_with ''.'' [nat_str a, nat_str b, nat_str c]"

definition bump :: "version \<Rightarrow> string \<Rightarrow> bool \<Rightarrow> version result" where
  "bump v level pre_1 =
    (case v of (major, minor, patch) \<Rightarrow>
      let level = (if level = ''major'' \<and> pre_1 \<and> major = 0 then ''minor'' else level)
      in if level = ''major'' then Inr (major + 1, 0, 0)
         else if level = ''minor'' then Inr (major, minor + 1, 0)
         else if level = ''patch'' then Inr (major, minor, patch + 1)
         else refuse ''cannot bump'')"

definition release_tag :: "string \<Rightarrow> bool" where
  \<comment> \<open>\<open>TAG_RE.match\<close>\<close>
  "release_tag s \<longleftrightarrow> dotted False (chomp s) \<noteq> None"

definition compute_version :: "string \<Rightarrow> string \<Rightarrow> string \<Rightarrow> string result" where
  "compute_version last_tag dev_version level =
    (if \<not> release_tag last_tag then refuse ''last tag is not a bare X.Y.Z''
     else bindE (parse_version last_tag) (\<lambda>(tag, _).
       bindE (parse_version dev_version) (\<lambda>(lowest, is_dev).
       if \<not> is_dev then refuse ''a release is mid-flight, reopen first''
       else if level = ''none'' then refuse ''no feat/fix/perf commit since the last tag''
       else bindE (bump tag level True) (\<lambda>bumped.
         let candidate = max bumped lowest
         in if candidate \<le> tag then refuse ''candidate is not greater than the last tag'' else Inr (fmt candidate)))))"

definition next_dev :: "string \<Rightarrow> string \<Rightarrow> string result" where
  "next_dev v level =
    (if level \<notin> {''patch'', ''minor''} then refuse ''--reopen-level must be patch or minor''
     else bindE (parse_version v) (\<lambda>(x, _). bindE (bump x level True) (\<lambda>y. Inr (fmt y @ ''-dev''))))"

section \<open>AgentCore versions\<close>

definition agentcore_parse :: "string \<Rightarrow> version result" where
  "agentcore_parse s =
    (case dotted True (without_suffix ''-dev'' (chomp s)) of
       Some v \<Rightarrow> Inr v
     | None \<Rightarrow> refuse ''not an AgentCore version'')"

definition agentcore_is_dev :: "string \<Rightarrow> bool result" where
  "agentcore_is_dev s = bindE (agentcore_parse s) (\<lambda>_. Inr (ends_with s ''-dev''))"

definition python_version :: "string \<Rightarrow> string result" where
  "python_version s = bindE (agentcore_parse s) (\<lambda>v. bindE (agentcore_is_dev s) (\<lambda>dev.
    Inr (fmt v @ (if dev then ''.dev0'' else []))))"

definition node_version :: "string \<Rightarrow> string result" where
  "node_version s = bindE (agentcore_parse s) (\<lambda>v. bindE (agentcore_is_dev s) (\<lambda>dev.
    Inr (fmt v @ (if dev then ''-dev.0'' else []))))"

definition bare_match :: "string \<Rightarrow> bool" where
  \<comment> \<open>\<open>BARE_RE.match\<close>\<close>
  "bare_match s \<longleftrightarrow> dotted True (chomp s) \<noteq> None"

definition built_dev_base :: "string \<Rightarrow> string option" where
  \<comment> \<open>the first group of \<open>BUILT_DEV_RE.match\<close>\<close>
  "built_dev_base s =
    (let t = without_suffix ''.dirty'' (chomp s);
         n = length t - 17;
         base = take n t
     in if 17 \<le> length t \<and> dotted True base \<noteq> None \<and> take 5 (drop n t) = ''-dev+'' \<and>
           list_all hex_char (drop (n + 5) t)
        then Some base else None)"

definition base_of_built :: "string \<Rightarrow> (string \<times> bool) result" where
  "base_of_built s =
    (if bare_match s then Inr (s, False)
     else case built_dev_base s of
         Some base \<Rightarrow> Inr (base, True)
       | None \<Rightarrow> refuse ''neither a final X.Y.Z nor X.Y.Z-dev+<commit12>'')"

section \<open>Commit levels\<close>

definition ident_char :: "char \<Rightarrow> bool" where
  "ident_char c \<longleftrightarrow> (65 \<le> char_code c \<and> char_code c \<le> 90) \<or> (97 \<le> char_code c \<and> char_code c \<le> 122) \<or>
     is_digit c \<or> c = CHR ''_'' \<or> c = CHR ''-''"

definition letter :: "char \<Rightarrow> bool" where
  "letter c \<longleftrightarrow> (65 \<le> char_code c \<and> char_code c \<le> 90) \<or> (97 \<le> char_code c \<and> char_code c \<le> 122)"

definition skip_scope :: "string \<Rightarrow> string" where
  \<comment> \<open>\<open>(\([^)]*\))?\<close>\<close>
  "skip_scope s =
    (if is_prefix ''('' s \<and> CHR '')'' \<in> set s then tl (dropWhile (\<lambda>c. c \<noteq> CHR '')'') s) else s)"

definition subject_match :: "string \<Rightarrow> (string \<times> bool) option" where
  \<comment> \<open>\<open>SUBJECT_RE.match\<close>: the kind, and whether there is an exclamation mark\<close>
  "subject_match s =
    (let kind = takeWhile ident_char s;
         r = skip_scope (dropWhile ident_char s);
         bang = is_prefix ''!'' r;
         r' = (if bang then tl r else r)
     in if kind \<noteq> [] \<and> letter (hd kind) \<and> is_prefix '':'' r' \<and> 0 < space_bytes (tl r')
        then Some (kind, bang) else None)"

definition classify_subject :: "string \<Rightarrow> string \<times> string" where
  "classify_subject s =
    (case subject_match s of
       None \<Rightarrow> (''?'', ''none'')
     | Some (k, bang) \<Rightarrow>
         (let kind = ascii_lower k
          in if bang then (kind, ''major'')
             else if kind = ''feat'' then (kind, ''minor'')
             else if kind \<in> {''fix'', ''perf''} then (kind, ''patch'')
             else (kind, ''none'')))"

definition levels :: "string list" where
  "levels = [''none'', ''patch'', ''minor'', ''major'']"

fun level_index :: "string list \<Rightarrow> string \<Rightarrow> nat" where
  "level_index [] l = 0"
| "level_index (x # xs) l = (if x = l then 0 else Suc (level_index xs l))"

definition message_level :: "string \<Rightarrow> string \<times> string \<times> string" where
  \<comment> \<open>the subject, its kind and the level of one commit message\<close>
  "message_level m =
    (let subject = (if m = [] then [] else hd (split_lines [] m));
         (kind, level) = classify_subject subject
     in (subject, kind, if occurs_in ''BREAKING CHANGE:'' m then ''major'' else level))"

definition derive_level :: "string list \<Rightarrow> string \<times> string list" where
  "derive_level ms =
    fold (\<lambda>m (level, unknown).
      case message_level m of (subject, kind, l) \<Rightarrow>
        (if level_index levels level < level_index levels l then l else level,
         if kind = ''?'' then unknown @ [subject] else unknown)) ms (''none'', [])"

section \<open>Changelogs\<close>

definition subsections :: "string list" where
  "subsections = [''Added'', ''Changed'', ''Deprecated'', ''Removed'', ''Fixed'', ''Security'']"

definition em_dash :: string where
  "em_dash = map char_of [0xE2 :: nat, 0x80, 0x94]"

definition unreleased :: string where
  "unreleased = ''## Unreleased''"

definition date_shape :: "string \<Rightarrow> bool" where
  "date_shape s \<longleftrightarrow> length s = 10 \<and>
     (\<forall>i < 10. if i \<in> {4, 7} then s ! i = CHR ''-'' else is_digit (s ! i))"

definition heading_version :: "string \<Rightarrow> string option" where
  \<comment> \<open>the first group of \<open>RELEASE_HEADING_RE.match\<close> on a line\<close>
  "heading_version line =
    (let rest = drop 3 line;
         v = takeWhile (\<lambda>c. is_digit c \<or> c = CHR ''.'') rest;
         sep = '' '' @ em_dash @ '' '';
         tail = dropWhile (\<lambda>c. is_digit c \<or> c = CHR ''.'') rest
     in if is_prefix ''## '' line \<and> dotted False v \<noteq> None \<and> is_prefix sep tail \<and> date_shape (drop (length sep) tail)
        then Some v else None)"

definition join_lines :: "string list \<Rightarrow> string" where
  \<comment> \<open>\<open>"\n".join(lines).rstrip("\n") + "\n"\<close>\<close>
  "join_lines ls = rev (dropWhile (\<lambda>c. c = newline) (rev (join_with [newline] ls))) @ [newline]"

definition next_heading :: "string list \<Rightarrow> nat" where
  \<comment> \<open>how many lines come before the next heading of level two\<close>
  "next_heading ls = length (takeWhile (\<lambda>l. \<not> is_prefix ''## '' l) ls)"

definition rewrite_changelog :: "string \<Rightarrow> string \<Rightarrow> string \<Rightarrow> string list \<Rightarrow> (string \<times> string) result" where
  "rewrite_changelog text v date sections =
    (let lines = split_lines [] text
     in if length (filter (\<lambda>l. l = unreleased) lines) \<noteq> 1 then refuse ''expected exactly one Unreleased heading''
        else if list_ex (\<lambda>l. heading_version l = Some v) lines then refuse ''version already exists''
        else let before = takeWhile (\<lambda>l. l \<noteq> unreleased) lines;
                 rest = drop (Suc (length before)) lines;
                 block = take (next_heading rest) rest;
                 heading = ''## '' @ v @ '' '' @ em_dash @ '' '' @ date
             in if list_ex (\<lambda>l. is_prefix ''### '' l \<and> drop 4 l \<notin> set sections) block then refuse ''unknown subsection''
                else if \<not> list_ex (is_prefix ''- '') block then refuse ''a release needs release notes''
                else Inr (join_lines (before @ [unreleased, [], heading] @ block @ drop (next_heading rest) rest),
                       join_lines (heading # block)))"

definition ensure_unreleased :: "string \<Rightarrow> string result" where
  "ensure_unreleased text =
    (let lines = split_lines [] text;
         before = takeWhile (\<lambda>l. heading_version l = None) lines
     in if unreleased \<in> set lines then Inr text
        else if length before = length lines then refuse ''no release heading''
        else Inr (join_lines (before @ [unreleased, []] @ drop (length before) lines)))"

definition release_section :: "string \<Rightarrow> string \<Rightarrow> string result" where
  "release_section text v =
    (let lines = split_lines [] text;
         rest = dropWhile (\<lambda>l. heading_version l \<noteq> Some v) lines
     in case rest of
         [] \<Rightarrow> refuse ''no such section''
       | h # ls \<Rightarrow> Inr (join_lines (h # take (next_heading ls) ls)))"

section \<open>The release cycle\<close>

definition printable :: "char \<Rightarrow> bool" where
  "printable c \<longleftrightarrow> 33 \<le> char_code c \<and> char_code c < 128"

lemma digit_printable: "is_digit c \<Longrightarrow> printable c"
  by (simp add: is_digit_def printable_def)

lemma blank_no_printable: "blank s \<Longrightarrow> c \<in> set s \<Longrightarrow> \<not> printable c"
proof (induction s rule: blank.induct)
  case (1 s)
  show ?case
  proof (cases "s = []")
    case False
    let ?n = "space_bytes s"
    have b: "?n \<noteq> 0" "blank (drop ?n s)" using 1(2) False blank.simps [of s] by (auto split: if_splits)
    have head: "\<not> printable d" if "d \<in> set (take ?n s)" for d
      using b(1) that False
      by (cases s rule: space_bytes.cases)
         (auto simp: printable_def Let_def numeral_eq_Suc split: if_splits list.splits)
    have "set s = set (take ?n s) \<union> set (drop ?n s)" by (metis append_take_drop_id set_append)
    then show ?thesis using 1(1) [OF False b] 1(3) head by auto
  qed (use 1 in simp)
qed

lemma rstrip_printable: "s \<noteq> [] \<Longrightarrow> printable (last s) \<Longrightarrow> rstrip s = s"
proof (induction s)
  case (Cons c s)
  have "\<not> blank (c # s)"
    using blank_no_printable [of "c # s" "last (c # s)"] Cons.prems(2) last_in_set by fastforce
  then show ?case using Cons by (cases "s = []") auto
qed simp

lemma rstrip_digit: "s \<noteq> [] \<Longrightarrow> is_digit (last s) \<Longrightarrow> rstrip s = s"
  by (simp add: rstrip_printable digit_printable)

lemma space_bytes_digit: "is_digit c \<Longrightarrow> space_bytes (c # s) = 0"
  by (auto simp: is_digit_def Let_def)

lemma lstrip_digit: "s \<noteq> [] \<Longrightarrow> is_digit (hd s) \<Longrightarrow> lstrip s = s"
  using space_bytes_digit [of "hd s" "tl s"] by (subst lstrip.simps) simp

lemma strip_digits: "s \<noteq> [] \<Longrightarrow> is_digit (hd s) \<Longrightarrow> is_digit (last s) \<Longrightarrow> strip s = s"
  by (simp add: strip_def lstrip_digit rstrip_digit)

lemma nat_str_hd_digit: "is_digit (hd (nat_str n))"
  using nat_str_digits [of n] by (cases "nat_str n") (auto dest: sym)

lemma nat_str_last: "is_digit (last (nat_str n))"
  using nat_str_digits [of n] last_in_set [of "nat_str n"] by simp

lemma dot_not_digit: "\<not> is_digit (CHR ''.'')" "\<not> is_digit (CHR ''v'')"
  by (simp_all add: is_digit_def char_code_def)

lemma dotted_fmt: "dotted False (fmt v) = Some v"
proof (cases v)
  case (fields a b c)
  have "split_at_char (CHR ''.'') (join_with [CHR ''.''] [nat_str a, nat_str b, nat_str c]) = [nat_str a, nat_str b, nat_str c]"
  proof (rule split_join)
    show "p \<in> set [nat_str a, nat_str b, nat_str c] \<Longrightarrow> CHR ''.'' \<notin> set p" for p
      using nat_str_digits dot_not_digit by auto
  qed simp
  then show ?thesis
    using nat_str_digits by (simp add: dotted_def fields number_part_def list_all_iff)
qed

lemma hd_fmt: "fmt v \<noteq> []" "is_digit (hd (fmt v))"
  using nat_str_hd_digit by (cases v; simp add: hd_append)+

lemma last_fmt: "is_digit (last (fmt v))"
  using nat_str_last by (cases v) (simp add: last_append)

lemma ends_with_last: "ends_with s t \<Longrightarrow> t \<noteq> [] \<Longrightarrow> s \<noteq> [] \<Longrightarrow> last s = last t"
  by (cases s rule: rev_cases; cases t rule: rev_cases) (auto simp: ends_with_def is_prefix_def)

theorem parse_version_fmt: "parse_version (fmt v) = Inr (v, False)"
proof -
  have "\<not> ends_with (fmt v) ''-dev''"
    using ends_with_last [of "fmt v" "''-dev''"] last_fmt [of v] hd_fmt(1) dot_not_digit by auto
  then show ?thesis
    using strip_digits [OF hd_fmt last_fmt] by (simp add: parse_version_def without_suffix_def dotted_fmt)
qed

lemma parse_version_dev: "parse_version (fmt v @ ''-dev'') = Inr (v, True)"
proof -
  have "lstrip (fmt v @ ''-dev'') = fmt v @ ''-dev''" using hd_fmt [of v] by (intro lstrip_digit) auto
  moreover have "rstrip (fmt v @ ''-dev'') = fmt v @ ''-dev''"
    by (intro rstrip_printable) (simp_all add: printable_def char_code_def)
  moreover have "ends_with (fmt v @ ''-dev'') ''-dev''" by (simp add: ends_with_def is_prefix_def)
  ultimately show ?thesis by (simp add: parse_version_def strip_def without_suffix_def dotted_fmt)
qed

lemma bump_greater: "bump v level pre_1 = Inr w \<Longrightarrow> v < w"
  by (cases v) (auto simp: bump_def Let_def less_prod_def split: if_splits)

lemma bump_levels: "level \<in> {''patch'', ''minor'', ''major''} \<Longrightarrow> \<exists>w. bump v level pre_1 = Inr w"
  by (cases v) (auto simp: bump_def Let_def)

text \<open>A release is cut whenever there is something to release: with a tag, a development
  version and a level that bumps, the computed version is the larger of the bumped tag and the
  development version, it reads back as itself, and it is above the tag; the refusal of a
  candidate that is not greater than the last tag is never reached.\<close>

theorem cut_succeeds:
  assumes "release_tag last_tag" and "parse_version last_tag = Inr (tag, d)"
    and "parse_version dev_version = Inr (lowest, True)" and "level \<in> {''patch'', ''minor'', ''major''}"
  shows "\<exists>v bumped. bump tag level True = Inr bumped \<and> v = max bumped lowest \<and>
    compute_version last_tag dev_version level = Inr (fmt v) \<and> parse_version (fmt v) = Inr (v, False) \<and>
    tag < v \<and> lowest \<le> v"
proof -
  obtain bumped where b: "bump tag level True = Inr bumped" using bump_levels [OF assms(4)] by blast
  let ?v = "max bumped lowest"
  have "tag < ?v" using bump_greater [OF b] by (auto simp: less_max_iff_disj)
  moreover have "compute_version last_tag dev_version level = Inr (fmt ?v)"
  proof -
    have "\<not> ?v \<le> tag" using \<open>tag < ?v\<close> by (simp only: not_le)
    moreover have "level \<noteq> ''none''" using assms(4) by auto
    ultimately show ?thesis using assms(1-3) b by (simp add: compute_version_def Let_def del: max.bounded_iff)
  qed
  ultimately show ?thesis using b parse_version_fmt [of ?v] by auto
qed

theorem cut_succeeds_witness:
  "\<exists>v. compute_version ''0.9.1'' ''0.10.0-dev'' ''patch'' = Inr (fmt v) \<and> (0, 9, 1) < v"
proof -
  have s: "''0.9.1'' = fmt (0, 9, 1)" "''0.10.0-dev'' = fmt (0, 10, 0) @ ''-dev''"
    by (simp_all add: nat_str.simps digit_char_def char_of_def bit_0)
  have p: "parse_version ''0.9.1'' = Inr ((0, 9, 1), False)" "parse_version ''0.10.0-dev'' = Inr ((0, 10, 0), True)"
    unfolding s by (rule parse_version_fmt, rule parse_version_dev)
  have t: "release_tag ''0.9.1''"
    using dotted_fmt [of "(0, 9, 1)"] unfolding release_tag_def chomp_def s(1) [symmetric] by simp
  from cut_succeeds [OF t p] show ?thesis by blast
qed

end
