(* ===== verification/Release_Ledger.thy ===== *)
theory Release_Ledger
  imports Release_Versions Json_Text
begin

text \<open>
  The ledger of AgentCore releases of \<open>scripts/agentcore_contract.py\<close>: its entries, the rules
  \<open>validated\<close> checks entry by entry, the two operations that extend it, its file, and the check
  that a later ledger only extends an earlier one.
\<close>

section \<open>Entries and rules\<close>

record release_entry =
  entry_version :: json
  entry_abi_version :: json
  entry_abi_revision :: json
  entry_digest :: json
  entry_mains :: "json list"

definition match_bare :: "json \<Rightarrow> version option result" where
  \<comment> \<open>\<open>BARE_RE.match(v)\<close> and, when it matches, \<open>parse(v)\<close>\<close>
  "match_bare v =
    (case v of
       JStr s \<Rightarrow> Inr (dotted True (chomp s))
     | _ \<Rightarrow> Inl (Type_Error ''expected string or bytes-like object''))"

definition positive_json :: "json \<Rightarrow> bool" where
  \<comment> \<open>\<open>type(v) is int and v >= 1\<close>\<close>
  "positive_json v = (case v of JInt i \<Rightarrow> 1 \<le> i | _ \<Rightarrow> False)"

definition digest_json :: "json \<Rightarrow> bool" where
  "digest_json v = (case v of JStr s \<Rightarrow> hex_str 64 (chomp s) | _ \<Rightarrow> False)"

text \<open>What the loop of \<open>validated\<close> carries: the version and ABI of the previous entry, the last
  main-project version, and the digests seen.\<close>

record ledger_state =
  previous_entry :: "(version \<times> int \<times> int) option"
  last_main :: "version option"
  seen_digests :: "json list"

definition main_step :: "json \<Rightarrow> version option \<Rightarrow> version option result" where
  "main_step main latest =
    (case main of
       JStr s \<Rightarrow>
         (case dotted True (chomp s) of
            None \<Rightarrow> refuse ''main-project release is not a final X.Y.Z''
          | Some parts \<Rightarrow>
              if (case latest of None \<Rightarrow> False | Some l \<Rightarrow> parts \<le> l)
              then refuse ''main-project release is out of order'' else Inr (Some parts))
     | _ \<Rightarrow> refuse ''main-project release is not a final X.Y.Z'')"

fun major_minor :: "version \<Rightarrow> nat \<times> nat" where
  "major_minor (a, b, c) = (a, b)"

definition follows_previous :: "version \<Rightarrow> int \<Rightarrow> int \<Rightarrow> (version \<times> int \<times> int) option \<Rightarrow> unit result" where
  "follows_previous v abi revision previous =
    (case previous of
       None \<Rightarrow> Inr ()
     | Some (pv, pabi, prevision) \<Rightarrow>
         if v \<le> pv then refuse ''does not follow the previous version''
         else if (abi, revision) < (pabi, prevision) then refuse ''lowers the ABI revision''
         else if (abi, revision) \<noteq> (pabi, prevision) \<and> \<not> major_minor pv < major_minor v
         then refuse ''moves the ABI revision, which needs at least a minor version''
         else Inr ())"

definition entry_step :: "release_entry \<Rightarrow> ledger_state \<Rightarrow> ledger_state result" where
  "entry_step e st =
    bindE (match_bare (entry_version e)) (\<lambda>m.
    case m of
      None \<Rightarrow> refuse ''is not a final X.Y.Z''
    | Some v \<Rightarrow>
        if \<not> positive_json (entry_abi_version e) \<or> \<not> positive_json (entry_abi_revision e)
        then refuse ''has no valid ABI version and revision''
        else if \<not> digest_json (entry_digest e) then refuse ''has no valid input digest''
        else if entry_digest e \<in> set (seen_digests st) then refuse ''has the input digest of an earlier release''
        else if entry_mains e = [] then refuse ''names no main-project release''
        else bindE (foldE main_step (entry_mains e) (last_main st)) (\<lambda>main.
          case (entry_abi_version e, entry_abi_revision e) of
            (JInt abi, JInt revision) \<Rightarrow>
              bindE (follows_previous v abi revision (previous_entry st)) (\<lambda>_.
              Inr \<lparr>previous_entry = Some (v, abi, revision), last_main = main,
                   seen_digests = entry_digest e # seen_digests st\<rparr>)
          | _ \<Rightarrow> Inl Assertion_Error))"

definition empty_state :: ledger_state where
  "empty_state = \<lparr>previous_entry = None, last_main = None, seen_digests = []\<rparr>"

definition validated :: "release_entry list \<Rightarrow> release_entry list result" where
  "validated l = bindE (foldE entry_step l empty_state) (\<lambda>_. Inr l)"

section \<open>Operations\<close>

definition entry_eq :: "release_entry \<Rightarrow> release_entry \<Rightarrow> bool" where
  \<comment> \<open>\<open>==\<close> of two data class instances without their main releases\<close>
  "entry_eq a b \<longleftrightarrow> py_eq (entry_version a) (entry_version b) \<and> py_eq (entry_abi_version a) (entry_abi_version b) \<and>
     py_eq (entry_abi_revision a) (entry_abi_revision b) \<and> py_eq (entry_digest a) (entry_digest b)"

definition appended :: "release_entry list \<Rightarrow> release_entry \<Rightarrow> release_entry list result" where
  "appended l e = validated (l @ [e])"

definition carrying :: "release_entry list \<Rightarrow> release_entry \<Rightarrow> string \<Rightarrow> release_entry list result" where
  "carrying l e main =
    (if l = [] \<or> \<not> (entry_eq (last l) e \<and> py_eq (JArr (entry_mains (last l))) (JArr (entry_mains e)))
     then refuse ''only the latest AgentCore release can be reused''
     else validated (butlast l @ [e\<lparr>entry_mains := entry_mains e @ [JStr main]\<rparr>]))"

definition by_version :: "release_entry list \<Rightarrow> string \<Rightarrow> release_entry option" where
  "by_version l v = List.find (\<lambda>e. py_eq (entry_version e) (JStr v)) l"

definition by_main_release :: "release_entry list \<Rightarrow> string \<Rightarrow> release_entry option" where
  "by_main_release l main = List.find (\<lambda>e. list_ex (\<lambda>m. py_eq m (JStr main)) (entry_mains e)) l"

definition is_prefix_of :: "release_entry list \<Rightarrow> release_entry list \<Rightarrow> string option" where
  \<comment> \<open>a finding when the newer ledger rewrote history of the older\<close>
  "is_prefix_of older newer =
    (if length newer < length older then Some ''dropped a release''
     else if list_ex (\<lambda>(i, a, b). \<not> entry_eq a b \<or>
         (if i = length older - 1
          then \<not> py_eq (JArr (take (length (entry_mains a)) (entry_mains b))) (JArr (entry_mains a))
          else \<not> py_eq (JArr (entry_mains b)) (JArr (entry_mains a)))) (enumerate 0 (zip older newer))
     then Some ''changed the released entry'' else None)"

section \<open>The file\<close>

definition ledger_schema :: string where
  "ledger_schema = ''metacodes.agentcore-releases/v1''"

definition parse_entry :: "json \<Rightarrow> release_entry result" where
  "parse_entry v =
    (case v of
       JObj d \<Rightarrow>
         if set (keys d) \<noteq> {''version'', ''abi_version'', ''abi_revision'', ''input_digest'', ''main_releases''}
         then refuse ''an entry must have exactly its keys''
         else (case field d ''main_releases'' of
             JArr mains \<Rightarrow> Inr \<lparr>entry_version = field d ''version'', entry_abi_version = field d ''abi_version'',
               entry_abi_revision = field d ''abi_revision'', entry_digest = field d ''input_digest'', entry_mains = mains\<rparr>
           | _ \<Rightarrow> refuse ''an entry must have exactly its keys'')
     | _ \<Rightarrow> refuse ''an entry must have exactly its keys'')"

definition parse_ledger :: "string \<Rightarrow> release_entry list result" where
  "parse_ledger text =
    (case loads dict_hook text of
       Inl _ \<Rightarrow> refuse ''not JSON''
     | Inr v \<Rightarrow>
         (case v of
            JObj d \<Rightarrow>
              if field d ''schema'' \<noteq> JStr ledger_schema \<or> set (keys d) \<noteq> {''schema'', ''releases''}
              then refuse ''expected the schema with a releases array''
              else (case field d ''releases'' of
                  JArr items \<Rightarrow> bindE (mapE parse_entry items) validated
                | _ \<Rightarrow> refuse ''expected the schema with a releases array'')
          | _ \<Rightarrow> refuse ''expected the schema with a releases array''))"

definition line_break :: "nat \<Rightarrow> string" where
  "line_break n = newline # replicate n (CHR '' '')"

function dumps_indent :: "nat \<Rightarrow> json \<Rightarrow> string" where
  \<comment> \<open>\<open>json.dumps(v, indent=2)\<close> at a depth; the strings of a ledger are ASCII\<close>
  "dumps_indent n (JArr vs) =
     (if vs = [] then ''[]''
      else ''['' @ line_break (n + 2) @ join_with ('','' @ line_break (n + 2)) (map (dumps_indent (n + 2)) vs) @ line_break n @ '']'')"
| "dumps_indent n (JObj kvs) =
     (if kvs = [] then ''{}''
      else ''{'' @ line_break (n + 2) @
        join_with ('','' @ line_break (n + 2)) (map (\<lambda>kv. quote (fst kv) @ '': '' @ dumps_indent (n + 2) (snd kv)) kvs) @
        line_break n @ ''}'')"
| "dumps_indent n JNull = dumps JNull"
| "dumps_indent n (JBool b) = dumps (JBool b)"
| "dumps_indent n (JInt i) = dumps (JInt i)"
| "dumps_indent n (JFloat f) = dumps (JFloat f)"
| "dumps_indent n (JStr s) = dumps (JStr s)"
  by pat_completeness auto
termination
proof (relation "measure (\<lambda>(n, v). size v)", goal_cases)
  case (2 n vs v)
  then show ?case by (simp add: size_list_estimation' le_imp_less_Suc)
next
  case (3 n kvs kv)
  then show ?case using size_snd_member [of kv kvs] by simp
qed simp

definition entry_json :: "release_entry \<Rightarrow> json" where
  "entry_json e = JObj [(''version'', entry_version e), (''abi_version'', entry_abi_version e),
     (''abi_revision'', entry_abi_revision e), (''input_digest'', entry_digest e), (''main_releases'', JArr (entry_mains e))]"

definition dump_ledger :: "release_entry list \<Rightarrow> string" where
  "dump_ledger l =
    dumps_indent 0 (JObj [(''schema'', JStr ledger_schema), (''releases'', JArr (map entry_json l))]) @ [newline]"

section \<open>Validated entries\<close>

definition plain_entry :: "release_entry \<Rightarrow> bool" where
  "plain_entry e \<longleftrightarrow> (\<exists>v a r d. entry_version e = JStr v \<and> entry_abi_version e = JInt a \<and> entry_abi_revision e = JInt r \<and>
     entry_digest e = JStr d) \<and> (\<forall>m \<in> set (entry_mains e). \<exists>s. m = JStr s)"

lemma main_steps_str: "foldE main_step ms latest = Inr latest' \<Longrightarrow> \<forall>m \<in> set ms. \<exists>s. m = JStr s"
  by (induction ms arbitrary: latest) (auto simp: bindE_eq_Inr main_step_def split: json.splits)

lemma entry_step_Inr:
  assumes "entry_step e st = Inr st'"
  obtains v abi revision d where "match_bare (entry_version e) = Inr (Some v)"
    and "entry_abi_version e = JInt abi" "entry_abi_revision e = JInt revision" "1 \<le> abi" "1 \<le> revision"
    and "entry_digest e = JStr d" "JStr d \<notin> set (seen_digests st)"
    and "foldE main_step (entry_mains e) (last_main st) = Inr (last_main st')" "entry_mains e \<noteq> []"
    and "follows_previous v abi revision (previous_entry st) = Inr ()"
    and "previous_entry st' = Some (v, abi, revision)" "seen_digests st' = JStr d # seen_digests st"
proof -
  from assms obtain v where v: "match_bare (entry_version e) = Inr (Some v)"
    by (auto simp: entry_step_def bindE_eq_Inr split: option.splits)
  have pos: "positive_json (entry_abi_version e)" "positive_json (entry_abi_revision e)" "digest_json (entry_digest e)"
    and new: "entry_digest e \<notin> set (seen_digests st)" "entry_mains e \<noteq> []"
    using assms v by (auto simp: entry_step_def split: if_splits)
  obtain abi revision d where f: "entry_abi_version e = JInt abi" "entry_abi_revision e = JInt revision" "entry_digest e = JStr d"
    "1 \<le> abi" "1 \<le> revision"
    using pos by (auto simp: positive_json_def digest_json_def split: json.splits)
  from assms v pos new f obtain main where m: "foldE main_step (entry_mains e) (last_main st) = Inr main"
    "follows_previous v abi revision (previous_entry st) = Inr ()"
    "st' = \<lparr>previous_entry = Some (v, abi, revision), last_main = main, seen_digests = entry_digest e # seen_digests st\<rparr>"
    by (auto simp: entry_step_def bindE_eq_Inr)
  show thesis using that [OF v f(1,2,4,5,3)] new m f by simp
qed

lemma entry_step_plain: "entry_step e st = Inr st' \<Longrightarrow> plain_entry e"
proof (erule entry_step_Inr)
  fix v abi revision d
  assume "match_bare (entry_version e) = Inr (Some v)" "entry_abi_version e = JInt abi" "entry_abi_revision e = JInt revision"
    "entry_digest e = JStr d" "foldE main_step (entry_mains e) (last_main st) = Inr (last_main st')"
  then show "plain_entry e" using main_steps_str by (auto simp: plain_entry_def match_bare_def split: json.splits)
qed

declare foldE_append [simp]

lemma validated_Inr: "validated l = Inr l' \<longleftrightarrow> l' = l \<and> (\<exists>st. foldE entry_step l empty_state = Inr st)"
  by (auto simp: validated_def bindE_eq_Inr)

lemma validated_plain: "foldE entry_step l st = Inr st' \<Longrightarrow> \<forall>e \<in> set l. plain_entry e"
  by (induction l arbitrary: st) (auto simp: bindE_eq_Inr dest: entry_step_plain)

lemma entry_eq_plain: "plain_entry a \<Longrightarrow> plain_entry b \<Longrightarrow> entry_eq a b \<longleftrightarrow>
    entry_version a = entry_version b \<and> entry_abi_version a = entry_abi_version b \<and>
    entry_abi_revision a = entry_abi_revision b \<and> entry_digest a = entry_digest b"
  by (auto simp: plain_entry_def entry_eq_def dec_eq_def)

lemma strings_py_eq:
  "(\<forall>m \<in> set xs. \<exists>s. m = JStr s) \<Longrightarrow> (\<forall>m \<in> set ys. \<exists>s. m = JStr s) \<Longrightarrow> py_eq (JArr xs) (JArr ys) \<longleftrightarrow> xs = ys"
proof
  assume s: "\<forall>m \<in> set xs. \<exists>s. m = JStr s" "\<forall>m \<in> set ys. \<exists>s. m = JStr s" and e: "py_eq (JArr xs) (JArr ys)"
  show "xs = ys"
  proof (rule nth_equalityI)
    show "length xs = length ys" using e by simp
    fix i assume i: "i < length xs"
    then have "py_eq (xs ! i) (ys ! i)" using e by (force simp: set_zip)
    moreover have "\<exists>s. xs ! i = JStr s" "\<exists>s. ys ! i = JStr s" using s i e by simp_all
    ultimately show "xs ! i = ys ! i" by auto
  qed
next
  assume s: "\<forall>m \<in> set xs. \<exists>s. m = JStr s" and e: "xs = ys"
  have "py_eq (fst p) (snd p)" if "p \<in> set (zip xs xs)" for p
    using that s by (auto simp: zip_same_conv_map)
  then show "py_eq (JArr xs) (JArr ys)" using e by simp
qed

section \<open>The history only grows\<close>

inductive ledger_step :: "release_entry list \<Rightarrow> release_entry list \<Rightarrow> bool" where
  append: "appended l e = Inr l' \<Longrightarrow> ledger_step l l'"
| carry: "carrying l e main = Inr l' \<Longrightarrow> ledger_step l l'"

inductive_cases ledger_stepE: "ledger_step l l'"

definition same_release :: "release_entry \<Rightarrow> release_entry \<Rightarrow> bool" where
  \<comment> \<open>the second is the first with main-project releases added\<close>
  "same_release a b \<longleftrightarrow> (\<exists>ms. b = a\<lparr>entry_mains := entry_mains a @ ms\<rparr>)"

definition extends :: "release_entry list \<Rightarrow> release_entry list \<Rightarrow> bool" where
  "extends l l' \<longleftrightarrow> l = [] \<or> (\<exists>b ys. same_release (last l) b \<and> l' = butlast l @ b # ys)"

lemma same_release_refl [simp]: "same_release a a"
  unfolding same_release_def by (rule exI [of _ "[]"]) simp

lemma same_release_trans: "same_release a b \<Longrightarrow> same_release b c \<Longrightarrow> same_release a c"
proof -
  assume "same_release a b" and "same_release b c"
  then obtain ms ns where "b = a\<lparr>entry_mains := entry_mains a @ ms\<rparr>" "c = b\<lparr>entry_mains := entry_mains b @ ns\<rparr>"
    by (auto simp: same_release_def)
  then have "c = a\<lparr>entry_mains := entry_mains a @ (ms @ ns)\<rparr>" by simp
  then show ?thesis unfolding same_release_def by blast
qed

lemma extends_refl [simp]: "extends l l"
proof (cases l rule: rev_cases)
  case (snoc xs x)
  then show ?thesis by (auto simp: extends_def intro!: exI [of _ x] exI [of _ "[]"])
qed (simp add: extends_def)

lemma extends_trans: "extends l l' \<Longrightarrow> extends l' l'' \<Longrightarrow> extends l l''"
proof (cases "l = []")
  case False
  assume a: "extends l l'" "extends l' l''"
  obtain b ys where b: "same_release (last l) b" "l' = butlast l @ b # ys" using a(1) False by (auto simp: extends_def)
  obtain c zs where c: "same_release (last l') c" "l'' = butlast l' @ c # zs" using a(2) b(2) by (auto simp: extends_def)
  show ?thesis
  proof (cases "ys = []")
    case True
    then have "same_release (last l) c" "l'' = butlast l @ c # zs" using b c same_release_trans by auto
    then show ?thesis by (auto simp: extends_def)
  next
    case ys: False
    then have "l'' = butlast l @ b # (butlast ys @ c # zs)" using b(2) c(2) by (simp add: butlast_append)
    then show ?thesis using b(1) by (auto simp: extends_def)
  qed
qed (simp add: extends_def)

lemma step_extends:
  assumes "validated l = Inr l" and "ledger_step l l'"
  shows "extends l l'" and "validated l' = Inr l'"
proof -
  have "extends l l' \<and> validated l' = Inr l'"
  proof (rule ledger_stepE [OF assms(2)])
    fix e assume "appended l e = Inr l'"
    then have l': "l' = l @ [e]" "validated l' = Inr l'" by (auto simp: appended_def validated_Inr)
    moreover have "extends l (l @ [e])"
    proof (cases l rule: rev_cases)
      case (snoc xs x)
      then show ?thesis by (auto simp: extends_def intro!: exI [of _ x])
    qed (simp add: extends_def)
    ultimately show ?thesis by simp
  next
    fix e main assume carry: "carrying l e main = Inr l'"
    let ?u = "e\<lparr>entry_mains := entry_mains e @ [JStr main]\<rparr>"
    from carry have ne: "l \<noteq> []" and eq: "entry_eq (last l) e" "py_eq (JArr (entry_mains (last l))) (JArr (entry_mains e))"
      and v: "validated (butlast l @ [?u]) = Inr l'"
      by (auto simp: carrying_def split: if_splits)
    have l': "l' = butlast l @ [?u]" "validated l' = Inr l'" using v by (auto simp: validated_Inr)
    obtain st where "foldE entry_step l' empty_state = Inr st" using l'(2) by (auto simp: validated_Inr)
    then have "\<forall>x \<in> set l'. plain_entry x" by (rule validated_plain)
    then have "plain_entry ?u" using l'(1) by simp
    then have pe: "plain_entry e" by (auto simp: plain_entry_def)
    have pl: "plain_entry (last l)" using assms(1) validated_plain ne by (auto simp: validated_Inr)
    have "entry_mains (last l) = entry_mains e"
      using eq(2) pe pl strings_py_eq by (auto simp: plain_entry_def)
    moreover have "entry_version (last l) = entry_version e" "entry_abi_version (last l) = entry_abi_version e"
      "entry_abi_revision (last l) = entry_abi_revision e" "entry_digest (last l) = entry_digest e"
      using eq(1) entry_eq_plain [OF pl pe] by auto
    ultimately have "last l = e" by simp
    then have "same_release (last l) ?u" by (auto simp: same_release_def)
    then have "extends l l'" using l'(1) by (auto simp: extends_def)
    then show ?thesis using l'(2) by simp
  qed
  then show "extends l l'" "validated l' = Inr l'" by simp_all
qed

lemma extends_no_finding:
  assumes "extends l l'" and "\<forall>e \<in> set l. plain_entry e" and "\<forall>e \<in> set l'. plain_entry e"
  shows "is_prefix_of l l' = None"
proof (cases l rule: rev_cases)
  case Nil
  then show ?thesis by (simp add: is_prefix_of_def)
next
  case (snoc xs x)
  obtain b ys where b: "same_release x b" "l' = xs @ b # ys" using assms(1) snoc by (auto simp: extends_def)
  obtain ms where ms: "b = x\<lparr>entry_mains := entry_mains x @ ms\<rparr>" using b(1) by (auto simp: same_release_def)
  have refl: "entry_eq a a" "py_eq (JArr (entry_mains a)) (JArr (entry_mains a))" if "plain_entry a" for a
    using that entry_eq_plain [OF that that] strings_py_eq [of "entry_mains a" "entry_mains a"] by (auto simp: plain_entry_def)
  have px: "plain_entry x" "plain_entry b" using assms(2,3) snoc b by auto
  have bx: "entry_eq x b" using entry_eq_plain [OF px] ms by simp
  let ?bad = "\<lambda>(i, a, c). \<not> entry_eq a c \<or>
         (if i = length l - 1
          then \<not> py_eq (JArr (take (length (entry_mains a)) (entry_mains c))) (JArr (entry_mains a))
          else \<not> py_eq (JArr (entry_mains c)) (JArr (entry_mains a)))"
  have "\<not> ?bad q" if q: "q \<in> set (enumerate 0 (zip l l'))" for q
  proof -
    obtain i where i: "i < length (zip l l')" "q = (i, l ! i, l' ! i)"
      using q by (auto simp: in_set_conv_nth nth_enumerate_eq)
    show ?thesis
    proof (cases "i = length xs")
      case True
      then have "q = (i, x, b)" using i snoc b by (simp add: nth_append)
      moreover have "i = length l - 1" using True snoc by simp
      moreover have "take (length (entry_mains x)) (entry_mains b) = entry_mains x"
        "length (entry_mains x) \<le> length (entry_mains b)" using ms by simp_all
      ultimately show ?thesis using bx refl(2) [OF px(1)] by simp
    next
      case False
      then have "i < length xs" using i(1) snoc by simp
      then have "q = (i, l ! i, l ! i)" "i \<noteq> length l - 1" "plain_entry (l ! i)"
        using i snoc b assms(2) by (auto simp: nth_append)
      then show ?thesis using refl by simp
    qed
  qed
  then have "\<not> list_ex ?bad (enumerate 0 (zip l l'))" by (auto simp: list_ex_iff)
  then show ?thesis using snoc b by (simp add: is_prefix_of_def)
qed

text \<open>C34: the ledger is append-only over its whole life: after any number of releases and reuses of
  a valid ledger the ledger is valid, and the check for rewritten history finds nothing.\<close>

theorem ledger_history_kept:
  assumes "validated l = Inr l" and "ledger_step\<^sup>*\<^sup>* l l'"
  shows "validated l' = Inr l' \<and> is_prefix_of l l' = None"
proof -
  from assms(2) have "extends l l' \<and> validated l' = Inr l'"
  proof (induction rule: rtranclp_induct)
    case base
    then show ?case using assms(1) by simp
  next
    case (step k m)
    then show ?case using step_extends [of k m] extends_trans by blast
  qed
  moreover have "\<forall>e \<in> set l. plain_entry e" "validated l' = Inr l' \<Longrightarrow> \<forall>e \<in> set l'. plain_entry e"
    using assms(1) validated_plain by (auto simp: validated_Inr)
  ultimately show ?thesis using extends_no_finding by blast
qed

section \<open>The rules hold of every prefix\<close>

fun versions_rise :: "(version \<times> int \<times> int) option \<Rightarrow> release_entry list \<Rightarrow> bool" where
  "versions_rise previous [] = True"
| "versions_rise previous (e # l) =
    (case (match_bare (entry_version e), entry_abi_version e, entry_abi_revision e) of
       (Inr (Some v), JInt abi, JInt revision) \<Rightarrow>
         (case previous of None \<Rightarrow> True | Some (pv, pabi, prevision) \<Rightarrow> pv < v \<and> (pabi, prevision) \<le> (abi, revision)) \<and>
         versions_rise (Some (v, abi, revision)) l
     | _ \<Rightarrow> False)"

lemma follows_previous_Inr:
  "follows_previous v abi revision previous = Inr u \<longleftrightarrow>
    (case previous of None \<Rightarrow> True | Some (pv, pabi, prevision) \<Rightarrow> pv < v \<and> (pabi, prevision) \<le> (abi, revision) \<and>
      ((abi, revision) \<noteq> (pabi, prevision) \<longrightarrow> major_minor pv < major_minor v))"
  by (auto simp: follows_previous_def not_le not_less split: option.splits simp del: less_eq_prod_simp less_prod_simp)

lemma validated_rises:
  "foldE entry_step l st = Inr st' \<Longrightarrow> versions_rise (previous_entry st) l \<and>
    distinct (map entry_digest l) \<and> set (map entry_digest l) \<inter> set (seen_digests st) = {}"
proof (induction l arbitrary: st)
  case (Cons e l)
  then obtain s where s: "entry_step e st = Inr s" "foldE entry_step l s = Inr st'" by (auto simp: bindE_eq_Inr)
  show ?case
  proof (rule entry_step_Inr [OF s(1)])
    fix v abi revision d
    assume f: "match_bare (entry_version e) = Inr (Some v)" "entry_abi_version e = JInt abi" "entry_abi_revision e = JInt revision"
      "entry_digest e = JStr d" "JStr d \<notin> set (seen_digests st)" "follows_previous v abi revision (previous_entry st) = Inr ()"
      "previous_entry s = Some (v, abi, revision)" "seen_digests s = JStr d # seen_digests st"
    then show ?thesis using Cons.IH [OF s(2)] by (auto simp: follows_previous_Inr split: option.splits)
  qed
qed simp

text \<open>The rules of the ledger hold of every prefix, as the code relies on when it appends: a prefix
  of a valid ledger is valid; and in a valid ledger versions rise strictly, the ABI never falls
  and no two releases have the same input digest.\<close>

theorem ledger_rules_hereditary:
  assumes "validated (l @ k) = Inr x"
  shows "validated l = Inr l \<and> versions_rise None (l @ k) \<and> distinct (map entry_digest (l @ k))"
proof -
  obtain st where st: "foldE entry_step (l @ k) empty_state = Inr st" using assms by (auto simp: validated_Inr simp del: foldE_append)
  have "validated l = Inr l" using st by (auto simp: validated_Inr bindE_eq_Inr)
  then show ?thesis using validated_rises [OF st] by (simp add: empty_state_def)
qed

section \<open>The file reads back\<close>

lemma white_line_break [simp]: "white (line_break n)"
  by (simp add: white_def line_break_def is_ws_def)

lemma white_append [simp]: "white (a @ b) \<longleftrightarrow> white a \<and> white b"
  by (auto simp: white_def)

lemma text_trailing_white:
  "json_text v t \<Longrightarrow> True"
  "elems_text vs s \<Longrightarrow> white w \<Longrightarrow> elems_text vs (s @ w)"
  "members_text kvs s' \<Longrightarrow> white w \<Longrightarrow> members_text kvs (s' @ w)"
proof (induction rule: json_text_elems_text_members_text.inducts)
  case (elems_last v s w0)
  then show ?case using json_text_elems_text_members_text.elems_last [of v s "w0 @ w"] by simp
next
  case (elems_more v s w0 w1 vs t)
  then show ?case using json_text_elems_text_members_text.elems_more [of v s w0 w1 vs "t @ w"] by simp
next
  case (members_last k q w0 w1 v s w2)
  then show ?case
    using json_text_elems_text_members_text.members_last [of k q w0 w1 v s "w2 @ w"] by simp
next
  case (members_more k q w0 w1 v s w2 w3 kvs t)
  then show ?case
    using json_text_elems_text_members_text.members_more [of k q w0 w1 v s w2 w3 kvs "t @ w"] by simp
qed simp_all

lemma dumps_indent_text: "plain v \<Longrightarrow> json_text v (dumps_indent n v)"
proof (induction n v rule: dumps_indent.induct)
  case (1 n vs)
  show ?case
  proof (cases "vs = []")
    case True
    then show ?thesis using text_arr_empty [of "[]"] by simp
  next
    case False
    have "elems_text vs (join_with ('','' @ line_break (n + 2)) (map (dumps_indent (n + 2)) vs))"
      using False 1 elems_text_join [of vs "line_break (n + 2)" "dumps_indent (n + 2)"] by simp
    then show ?thesis
      using text_arr [OF white_line_break [of "n + 2"] text_trailing_white(2) [OF _ white_line_break [of n]]] False by simp
  qed
next
  case (2 n kvs)
  show ?case
  proof (cases "kvs = []")
    case True
    then show ?thesis using text_obj_empty [of "[]"] by simp
  next
    case False
    have w: "white '' ''" by (simp add: white_def is_ws_def)
    have "members_text kvs (join_with ('','' @ line_break (n + 2))
        (map (\<lambda>kv. quote (fst kv) @ '': '' @ dumps_indent (n + 2) (snd kv)) kvs))"
      using False 2 members_text_join [of kvs "'' ''" "line_break (n + 2)" "dumps_indent (n + 2)"] w by simp
    then show ?thesis
      using text_obj [OF white_line_break [of "n + 2"] text_trailing_white(3) [OF _ white_line_break [of n]]] False 2(2) by simp
  qed
qed (auto intro: text_null text_true text_false text_int text_str)

lemma parse_entry_json: "parse_entry (entry_json e) = Inr e"
  by (simp add: parse_entry_def entry_json_def dict_get_none_def insert_commute)

lemma mapE_map: "(\<And>x. x \<in> set xs \<Longrightarrow> f (g x) = Inr x) \<Longrightarrow> mapE f (map g xs) = Inr xs"
  by (induction xs) simp_all

text \<open>C35: the ledger file reads back as the ledger it was written from, for every valid ledger.\<close>

theorem ledger_file_roundtrip:
  assumes "validated l = Inr l"
  shows "parse_ledger (dump_ledger l) = Inr l"
proof -
  let ?v = "JObj [(''schema'', JStr ledger_schema), (''releases'', JArr (map entry_json l))]"
  have "\<forall>e \<in> set l. plain_entry e" using assms validated_plain by (auto simp: validated_Inr)
  then have "\<forall>e \<in> set l. plain (entry_json e)" by (force simp: plain_entry_def entry_json_def)
  then have p: "plain ?v" by simp
  have w: "white [newline]" by (simp add: white_def is_ws_def)
  have "loads dict_hook (dump_ledger l) = Inr ?v"
    using loads_text [OF accepts_dict_hook dumps_indent_text [OF p, of 0] white_Nil w] by (simp add: dump_ledger_def)
  moreover have "mapE parse_entry (map entry_json l) = Inr l" by (intro mapE_map parse_entry_json)
  ultimately show ?thesis
    using assms by (simp add: parse_ledger_def dict_get_none_def insert_commute)
qed

section \<open>Concrete ledgers\<close>

definition demo_entry :: "string \<Rightarrow> char \<Rightarrow> string \<Rightarrow> release_entry" where
  "demo_entry v d main = \<lparr>entry_version = JStr v, entry_abi_version = JInt 1, entry_abi_revision = JInt 2,
     entry_digest = JStr (replicate 64 d), entry_mains = [JStr main]\<rparr>"

lemma demo_versions:
  "dotted True (chomp ''0.1.0'') = Some (0, 1, 0)" "dotted True (chomp ''0.1.1'') = Some (0, 1, 1)"
  "dotted True (chomp ''0.9.0'') = Some (0, 9, 0)" "dotted True (chomp ''0.9.1'') = Some (0, 9, 1)"
  by (simp_all add: chomp_def dotted_def number_part_def is_digit_def char_code_def nat_of_digits_def digit_of_def)

lemma demo_digest: "hex_char d \<Longrightarrow> hex_str 64 (chomp (replicate 64 d))"
proof -
  assume d: "hex_char d"
  then have "d \<noteq> newline" by (auto simp: hex_char_def is_digit_def char_code_def)
  then show ?thesis using d by (simp add: chomp_def hex_str_def list_all_iff last_replicate)
qed

lemma demo_ledger:
  "validated [demo_entry ''0.1.0'' (CHR ''a'') ''0.9.0''] = Inr [demo_entry ''0.1.0'' (CHR ''a'') ''0.9.0'']"
  "validated [demo_entry ''0.1.0'' (CHR ''a'') ''0.9.0'', demo_entry ''0.1.1'' (CHR ''b'') ''0.9.1''] =
     Inr [demo_entry ''0.1.0'' (CHR ''a'') ''0.9.0'', demo_entry ''0.1.1'' (CHR ''b'') ''0.9.1'']"
  by (simp_all add: validated_def entry_step_def demo_entry_def match_bare_def demo_versions positive_json_def digest_json_def
      demo_digest hex_char_def char_code_def main_step_def follows_previous_def empty_state_def)

theorem ledger_history_kept_witness:
  "is_prefix_of [demo_entry ''0.1.0'' (CHR ''a'') ''0.9.0'']
     [demo_entry ''0.1.0'' (CHR ''a'') ''0.9.0'', demo_entry ''0.1.1'' (CHR ''b'') ''0.9.1''] = None"
proof -
  have "appended [demo_entry ''0.1.0'' (CHR ''a'') ''0.9.0''] (demo_entry ''0.1.1'' (CHR ''b'') ''0.9.1'') =
      Inr [demo_entry ''0.1.0'' (CHR ''a'') ''0.9.0'', demo_entry ''0.1.1'' (CHR ''b'') ''0.9.1'']"
    using demo_ledger(2) by (simp add: appended_def)
  then show ?thesis
    using ledger_history_kept [OF demo_ledger(1) r_into_rtranclp [of ledger_step, OF ledger_step.append]] by blast
qed

theorem ledger_rules_hereditary_witness:
  "versions_rise None [demo_entry ''0.1.0'' (CHR ''a'') ''0.9.0'', demo_entry ''0.1.1'' (CHR ''b'') ''0.9.1'']"
  using ledger_rules_hereditary [of "[demo_entry ''0.1.0'' (CHR ''a'') ''0.9.0'']" "[demo_entry ''0.1.1'' (CHR ''b'') ''0.9.1'']"]
    demo_ledger(2) by simp

theorem ledger_file_roundtrip_witness:
  "parse_ledger (dump_ledger [demo_entry ''0.1.0'' (CHR ''a'') ''0.9.0'', demo_entry ''0.1.1'' (CHR ''b'') ''0.9.1'']) =
     Inr [demo_entry ''0.1.0'' (CHR ''a'') ''0.9.0'', demo_entry ''0.1.1'' (CHR ''b'') ''0.9.1'']"
  by (rule ledger_file_roundtrip [OF demo_ledger(2)])

end
