(* ===== verification/Json_Ascii.thy ===== *)
theory Json_Ascii
  imports Rollout_File Utf8
begin

text \<open>
  \<open>json.dumps\<close> with its default \<open>ensure_ascii=True\<close>: characters beyond ASCII, and DEL, are written as
  \<open>\u\<close> escapes, a code point above the basic plane as a surrogate pair. A string is its UTF-8 bytes, so
  the printer decodes them. What it writes is one line of ASCII, and reading it gives the value back.
\<close>

section \<open>Printing\<close>

definition u_escape :: "nat \<Rightarrow> string" where
  "u_escape n = [backslash, CHR ''u'', hex_digit (n div 4096), hex_digit (n div 256), hex_digit (n div 16), hex_digit n]"

definition pair_escape :: "nat \<Rightarrow> string" where
  \<comment> \<open>the surrogates of a code point above the basic plane\<close>
  "pair_escape n = u_escape (55296 + (n - 65536) div 1024) @ u_escape (56320 + (n - 65536) mod 1024)"

definition low6 :: "char \<Rightarrow> nat" where
  "low6 c = char_code c - 128"

fun escape_ascii :: "string \<Rightarrow> string" where
  "escape_ascii [] = []"
| "escape_ascii (c # cs) =
    (if char_code c = 127 then u_escape 127 @ escape_ascii cs
     else if char_code c < 128 then escape_char c @ escape_ascii cs
     else if char_code c < 224 then
       (case cs of d # ds \<Rightarrow> u_escape ((char_code c - 192) * 64 + low6 d) @ escape_ascii ds | _ \<Rightarrow> [])
     else if char_code c < 240 then
       (case cs of d # d2 # ds \<Rightarrow> u_escape (((char_code c - 224) * 64 + low6 d) * 64 + low6 d2) @ escape_ascii ds | _ \<Rightarrow> [])
     else
       (case cs of d # d2 # d3 # ds \<Rightarrow>
          pair_escape ((((char_code c - 240) * 64 + low6 d) * 64 + low6 d2) * 64 + low6 d3) @ escape_ascii ds
        | _ \<Rightarrow> []))"

definition quote_ascii :: "string \<Rightarrow> string" where
  "quote_ascii s = dquote # escape_ascii s @ [dquote]"

fun dumps_ascii :: "json \<Rightarrow> string" where
  \<comment> \<open>\<open>json.dumps(v)\<close>\<close>
  "dumps_ascii (JStr s) = quote_ascii s"
| "dumps_ascii (JArr vs) = ''['' @ join_with '', '' (map dumps_ascii vs) @ '']''"
| "dumps_ascii (JObj kvs) =
     ''{'' @ join_with '', '' (map (\<lambda>kv. quote_ascii (fst kv) @ '': '' @ dumps_ascii (snd kv)) kvs) @ ''}''"
| "dumps_ascii v = dumps v"

section \<open>Reading an escape\<close>

lemma hex_value_digit: "hex_value (hex_digit n) = Some (n mod 16)"
proof -
  have "hex_digit n = hex_digit (n mod 16)" by (simp add: hex_digit_def)
  then show ?thesis by (simp add: hex_value_hex_digit)
qed

lemma hex4_escape:
  assumes "n < 65536"
  shows "hex4 (hex_digit (n div 4096)) (hex_digit (n div 256)) (hex_digit (n div 16)) (hex_digit n) = Some n"
proof -
  have "m div 16 * 16 + m mod 16 = m" for m :: nat by simp
  from this [of n] this [of "n div 16"] this [of "n div 256"]
  have "n div 16 * 16 + n mod 16 = n" "n div 256 * 16 + n div 16 mod 16 = n div 16"
    "n div 4096 * 16 + n div 256 mod 16 = n div 256" by (simp_all add: div_mult2_eq [symmetric])
  moreover have "n div 4096 mod 16 = n div 4096" using assms by simp
  ultimately show ?thesis by (simp add: hex4_def hex_value_digit)
qed

lemma p_string_u:
  assumes "n < 55296 \<or> 57344 \<le> n" and "n < 65536"
  shows "p_string (u_escape n @ s) = (case p_string s of None \<Rightarrow> None | Some (u, r) \<Rightarrow> Some (utf8_encode n @ u, r))"
  using assms hex4_escape [of n] by (auto simp: u_escape_def split: option.splits)

lemma p_string_pair:
  assumes "65536 \<le> n" and "n < 1114112"
  shows "p_string (pair_escape n @ s) = (case p_string s of None \<Rightarrow> None | Some (u, r) \<Rightarrow> Some (utf8_encode n @ u, r))"
proof -
  have m: "(n - 65536) div 1024 < 1024" using assms by (simp add: less_mult_imp_div_less)
  have v: "65536 + (n - 65536) div 1024 * 1024 + (n - 65536) mod 1024 = n"
    using assms div_mult_mod_eq [of "n - 65536" 1024] by simp
  show ?thesis
    using m v hex4_escape [of "55296 + (n - 65536) div 1024"] hex4_escape [of "56320 + (n - 65536) mod 1024"]
    by (auto simp: pair_escape_def u_escape_def split: option.splits)
qed

section \<open>Code points and their bytes\<close>

lemma char_of_eq: "n = char_code c \<Longrightarrow> char_of n = c"
  by simp

lemma low6_byte:
  assumes "128 \<le> char_code d" and "char_code d < 192"
  shows "low6 d < 64" and "char_of (128 + low6 d) = d"
  using assms by (simp_all add: low6_def)

lemma digits64:
  assumes "(y :: nat) < 64"
  shows "(x * 64 + y) div 64 = x" and "(x * 64 + y) mod 64 = y"
    and "(x * 64 + y) div 4096 = x div 64" and "(x * 64 + y) div 262144 = x div 4096"
proof -
  show d: "(x * 64 + y) div 64 = x" and "(x * 64 + y) mod 64 = y" using assms by simp_all
  show "(x * 64 + y) div 4096 = x div 64" "(x * 64 + y) div 262144 = x div 4096"
    using d div_mult2_eq [of "x * 64 + y" 64 64] div_mult2_eq [of "x * 64 + y" 64 4096] by simp_all
qed

lemma encode_two:
  assumes "194 \<le> char_code c" and "char_code c < 224" and "128 \<le> char_code d" and "char_code d < 192"
  shows "utf8_encode ((char_code c - 192) * 64 + low6 d) = [c, d]"
    and "(char_code c - 192) * 64 + low6 d < 2048"
proof -
  note y = low6_byte [OF assms(3,4)]
  have "128 \<le> (char_code c - 192) * 64 + low6 d" "(char_code c - 192) * 64 + low6 d < 2048"
    and c: "192 + (char_code c - 192) = char_code c" using assms(1,2) y by auto
  then show "utf8_encode ((char_code c - 192) * 64 + low6 d) = [c, d]" "(char_code c - 192) * 64 + low6 d < 2048"
    using y unfolding utf8_encode_def by (simp_all add: digits64 c)
qed

lemma encode_three:
  assumes "224 \<le> char_code c" and "char_code c < 240" and "second_ok c d" and "128 \<le> char_code d2" and "char_code d2 < 192"
  defines "n \<equiv> ((char_code c - 224) * 64 + low6 d) * 64 + low6 d2"
  shows "utf8_encode n = [c, d, d2]" and "n < 55296 \<or> 57344 \<le> n" and "n < 65536"
proof -
  have d: "128 \<le> char_code d" "char_code d < 192"
    using assms(3) by (auto simp: second_ok_def byte_in_def split: if_splits)
  note y = low6_byte [OF d] low6_byte [OF assms(4,5)]
  have c: "224 + (char_code c - 224) = char_code c" using assms(1) by simp
  have lo: "2048 \<le> n" using assms(1-3) y by (cases "char_code c = 224") (auto simp: n_def second_ok_def byte_in_def low6_def)
  show hi: "n < 65536" using assms(1,2) y by (simp add: n_def)
  show "n < 55296 \<or> 57344 \<le> n"
    using assms(1-3) y by (cases "char_code c = 237"; cases "char_code c < 237") (auto simp: n_def second_ok_def byte_in_def low6_def)
  have "n div 4096 = char_code c - 224" "n div 64 mod 64 = low6 d" "n mod 64 = low6 d2"
    using y unfolding n_def by (simp_all only: digits64)
  then show "utf8_encode n = [c, d, d2]" using lo hi y c by (simp add: utf8_encode_def)
qed

lemma encode_four:
  assumes "240 \<le> char_code c" and "char_code c \<le> 244" and "second_ok c d" and "128 \<le> char_code d2" and "char_code d2 < 192"
    and "128 \<le> char_code d3" and "char_code d3 < 192"
  defines "n \<equiv> (((char_code c - 240) * 64 + low6 d) * 64 + low6 d2) * 64 + low6 d3"
  shows "utf8_encode n = [c, d, d2, d3]" and "65536 \<le> n" and "n < 1114112"
proof -
  have d: "128 \<le> char_code d" "char_code d < 192"
    using assms(3) by (auto simp: second_ok_def byte_in_def split: if_splits)
  note y = low6_byte [OF d] low6_byte [OF assms(4,5)] low6_byte [OF assms(6,7)]
  have c: "240 + (char_code c - 240) = char_code c" using assms(1) by simp
  show lo: "65536 \<le> n" using assms(1-3) y by (cases "char_code c = 240") (auto simp: n_def second_ok_def byte_in_def low6_def)
  show "n < 1114112" using assms(1-3) y by (cases "char_code c = 244") (auto simp: n_def second_ok_def byte_in_def low6_def)
  have "n div 262144 = char_code c - 240" "n div 4096 mod 64 = low6 d" "n div 64 mod 64 = low6 d2" "n mod 64 = low6 d3"
    using y unfolding n_def by (simp_all only: digits64)
  then show "utf8_encode n = [c, d, d2, d3]" using lo y c by (simp add: utf8_encode_def)
qed

lemma escape_ascii_cases:
  assumes "utf8_valid s"
  obtains (empty) "s = []"
    | (char) c cs where "s = c # cs" and "char_code c < 127" and "utf8_valid cs" and "escape_ascii s = escape_char c @ escape_ascii cs"
    | (point) n cs where "s = utf8_encode n @ cs" and "utf8_valid cs" and "n < 55296 \<or> 57344 \<le> n" and "n < 65536"
        and "escape_ascii s = u_escape n @ escape_ascii cs" and "utf8_encode n \<noteq> []"
    | (pair) n cs where "s = utf8_encode n @ cs" and "utf8_valid cs" and "65536 \<le> n" and "n < 1114112"
        and "escape_ascii s = pair_escape n @ escape_ascii cs" and "utf8_encode n \<noteq> []"
proof (cases s)
  case Nil
  then show thesis by (rule empty)
next
  case s: (Cons c t)
  consider "char_code c < 128" | "byte_in 194 223 c" | "byte_in 224 239 c" | "byte_in 240 244 c"
    using assms s by (auto split: if_splits)
  then show thesis
  proof cases
    case 1
    have "utf8_encode 127 = [c]" if "char_code c = 127"
      using char_of_char_code [of c] that by (simp add: utf8_encode_def)
    then show thesis
      using 1 s assms by (cases "char_code c = 127") (auto intro: point [of 127 t] char [of c t])
  next
    case 2
    then have r: "194 \<le> char_code c" "char_code c < 224" by (auto simp: byte_in_def)
    from assms 2 r obtain d ds where t: "t = d # ds" "second_ok c d" "utf8_valid ds"
      unfolding s by (auto split: list.splits)
    then have d: "128 \<le> char_code d" "char_code d < 192" using r by (auto simp: second_ok_def byte_in_def split: if_splits)
    note e = encode_two [OF r d]
    show thesis using t r e s by (intro point [of "(char_code c - 192) * 64 + low6 d" ds]) simp_all
  next
    case 3
    then have r: "224 \<le> char_code c" "char_code c < 240" by (auto simp: byte_in_def)
    from assms 3 r obtain d d2 ds where t: "t = d # d2 # ds" "second_ok c d" "byte_in 128 191 d2" "utf8_valid ds"
      unfolding s by (auto simp: byte_in_def split: list.splits)
    then have d: "128 \<le> char_code d2" "char_code d2 < 192" by (auto simp: byte_in_def)
    note e = encode_three [OF r t(2) d]
    show thesis using t r e s by (intro point [of "((char_code c - 224) * 64 + low6 d) * 64 + low6 d2" ds]) simp_all
  next
    case 4
    then have r: "240 \<le> char_code c" "char_code c \<le> 244" by (auto simp: byte_in_def)
    from assms 4 r obtain d d2 d3 ds where t: "t = d # d2 # d3 # ds" "second_ok c d" "byte_in 128 191 d2" "byte_in 128 191 d3"
      "utf8_valid ds"
      unfolding s by (auto simp: byte_in_def split: list.splits)
    then have d: "128 \<le> char_code d2" "char_code d2 < 192" "128 \<le> char_code d3" "char_code d3 < 192" by (auto simp: byte_in_def)
    note e = encode_four [OF r t(2) d]
    show thesis using t r e s
      by (intro pair [of "(((char_code c - 240) * 64 + low6 d) * 64 + low6 d2) * 64 + low6 d3" ds]) simp_all
  qed
qed

lemma p_string_escape_ascii:
  "utf8_valid s \<Longrightarrow> p_string (escape_ascii s @ dquote # r) = Some (s, r)"
proof (induction "length s" arbitrary: s rule: less_induct)
  case less
  from less.prems show ?case
  proof (cases rule: escape_ascii_cases)
    case (char c cs)
    then show ?thesis using less.hyps [of cs] p_string_escape by simp
  next
    case (point n cs)
    then show ?thesis using less.hyps [of cs] p_string_u [of n] by simp
  next
    case (pair n cs)
    then show ?thesis using less.hyps [of cs] p_string_pair [of n] by simp
  qed simp
qed

section \<open>The grammar\<close>

lemma str_lit_ascii: "utf8_valid s \<Longrightarrow> str_lit s (quote_ascii s)"
  unfolding str_lit_def quote_ascii_def using p_string_escape_ascii [of s] by fastforce

lemma dumps_ascii_text: "plain v \<Longrightarrow> utf8_json v \<Longrightarrow> json_text v (dumps_ascii v)"
proof (induction v rule: dumps_ascii.induct)
  case (2 vs)
  have w: "white '' ''" by (simp add: white_def is_ws_def)
  show ?case
    using 2 text_arr [of "[]" vs "join_with '', '' (map dumps_ascii vs)"] text_arr_empty [of "[]"]
      elems_text_join [OF _ w, of vs dumps_ascii]
    by (cases "vs = []") simp_all
next
  case (3 kvs)
  have w: "white '' ''" by (simp add: white_def is_ws_def)
  show ?case
  proof (cases "kvs = []")
    case True
    then show ?thesis using text_obj_empty [of "[]"] by simp
  next
    case False
    have "members_text kvs (join_with '', '' (map (\<lambda>kv. quote_ascii (fst kv) @ '': '' @ dumps_ascii (snd kv)) kvs))"
      using False 3 members_text_lits [OF _ w w, of kvs quote_ascii dumps_ascii] str_lit_ascii by fastforce
    then show ?thesis using text_obj [OF white_Nil] 3 by simp
  qed
qed (auto intro: text_null text_true text_false text_int text_str str_lit_ascii)

lemma ascii_line_loads: "plain v \<Longrightarrow> utf8_json v \<Longrightarrow> loads dict_hook (dumps_ascii (canon v)) = Inr (canon v)"
  using loads_text [OF accepts_dict_hook dumps_ascii_text [OF plain_canon utf8_json_canon] white_Nil white_Nil, of v] by simp

section \<open>One line of ASCII\<close>

lemma ascii_append [simp]: "ascii (s @ t) \<longleftrightarrow> ascii s \<and> ascii t"
  by (auto simp: ascii_def)

lemma ascii_hex_digit: "ascii [hex_digit n]"
  using hex_char_hex_digit [of n] by (auto simp: ascii_def hex_char_def is_digit_def)

lemma ascii_u_escape: "ascii (u_escape n)"
proof -
  have "ascii [backslash, CHR ''u'']" by (simp add: ascii_def char_code_def)
  then have "ascii ([backslash, CHR ''u''] @ [hex_digit (n div 4096)] @ [hex_digit (n div 256)] @ [hex_digit (n div 16)] @ [hex_digit n])"
    using ascii_hex_digit by (simp only: ascii_append)
  then show ?thesis by (simp add: u_escape_def)
qed

lemma ascii_escape_ascii: "ascii (escape_ascii s)"
proof (induction s rule: escape_ascii.induct)
  case 1
  show ?case by (simp add: ascii_def)
next
  case (2 c cs)
  have n: "ascii []" by (simp add: ascii_def)
  show ?case using 2 by (auto simp: ascii_u_escape pair_escape_def ascii_escape_char(1) n split: list.split)
qed

lemma ascii_quote_ascii: "ascii (quote_ascii s)"
proof -
  have "ascii [dquote]" by (simp add: ascii_def char_code_CHR)
  then have "ascii ([dquote] @ escape_ascii s @ [dquote])" using ascii_escape_ascii by (simp only: ascii_append)
  then show ?thesis by (simp add: quote_ascii_def)
qed

lemma ascii_join: "ascii sep \<Longrightarrow> (\<And>s. s \<in> set ss \<Longrightarrow> ascii s) \<Longrightarrow> ascii (join_with sep ss)"
  by (induction sep ss rule: join_with.induct) (simp_all, simp add: ascii_def)

lemma ascii_dumps_ascii: "plain v \<Longrightarrow> ascii (dumps_ascii v)"
proof (induction v rule: dumps_ascii.induct)
  case (2 vs)
  have a: "ascii ''[''" "ascii '']''" "ascii '', ''" by (simp_all add: ascii_def char_code_def)
  have "ascii (join_with '', '' (map dumps_ascii vs))" using 2 a(3) by (intro ascii_join) auto
  then have "ascii (''['' @ join_with '', '' (map dumps_ascii vs) @ '']'')" using a by (simp only: ascii_append)
  then show ?case by simp
next
  case (3 kvs)
  have a: "ascii ''{''" "ascii ''}''" "ascii '', ''" "ascii '': ''" by (simp_all add: ascii_def char_code_def)
  have "ascii (quote_ascii (fst kv) @ '': '' @ dumps_ascii (snd kv))" if "kv \<in> set kvs" for kv
    using that 3 a(4) ascii_quote_ascii by (simp only: ascii_append) auto
  then have "ascii (join_with '', '' (map (\<lambda>kv. quote_ascii (fst kv) @ '': '' @ dumps_ascii (snd kv)) kvs))"
    using a(3) by (intro ascii_join) auto
  then have "ascii (''{'' @ join_with '', '' (map (\<lambda>kv. quote_ascii (fst kv) @ '': '' @ dumps_ascii (snd kv)) kvs) @ ''}'')"
    using a by (simp only: ascii_append)
  then show ?case by simp
qed (auto simp: ascii_quote_ascii ascii_int_str, simp_all add: ascii_def char_code_def)

lemma ascii_one_line: "ascii s \<Longrightarrow> one_line s"
  by (intro piece_one_line piece_ascii)

lemma ascii_utf8: "ascii s \<Longrightarrow> utf8_valid s"
  by (intro utf8_valid_ascii) (auto simp: ascii_def)

end
