(* ===== verification/Chain_Ledger.thy ===== *)
theory Chain_Ledger
  imports Runner_Process Runner_Checkpoint Json_Ascii
begin

text \<open>
  The chains of \<open>scripts/eval/chained_runner.py\<close>: attempts at a task that carry their store to the next
  attempt. The schedule, the trial index of an attempt, the ledger of each arm with its file, and
  \<open>validate_chains\<close>, which decides whether a chain may be continued. Fields of a row that its parser
  does not check keep their JSON value.
\<close>

section \<open>Attempts\<close>

definition variants :: "string list" where
  "variants = [''baseline'', ''candidate'']"

definition chain_trial :: "int \<Rightarrow> int \<Rightarrow> int \<Rightarrow> int result" where
  "chain_trial rep attempt attempts =
    (if \<not> (1 \<le> attempt \<and> attempt \<le> attempts) \<or> rep < 0 then fail ''attempt'' ''is out of range''
     else Inr (rep * attempts + attempt - 1))"

definition chain_position :: "int \<Rightarrow> int \<Rightarrow> int \<times> int" where
  "chain_position trial attempts = (trial div attempts, trial mod attempts + 1)"

definition chain_kg_domain :: "string \<Rightarrow> string result" where
  "chain_kg_domain tid =
    (let digest = sha256_hex (''metacodes-chain-kg-domain-v1'' @ [CHR 0x00] @ tid);
         domain = tid @ ''-'' @ take 8 digest
     in if \<not> kg_domain_ok domain then fail ''task id'' ''cannot name a TinyKG domain'' else Inr domain)"

definition chained_schedule :: "string list \<Rightarrow> int \<Rightarrow> int \<Rightarrow> (int \<times> int \<times> string \<times> string) list result" where
  "chained_schedule tids replicates attempts =
    (if replicates \<le> 0 then fail ''chained schedule'' ''replicates must be > 0''
     else if \<not> (1 \<le> attempts \<and> attempts \<le> 16) then fail ''chained schedule'' ''attempts must be 1..16''
     else if tids = [] then fail ''chained schedule'' ''requires at least one task''
     else Inr (concat (map (\<lambda>rep. concat (map (\<lambda>attempt. concat (map (\<lambda>(index, tid).
         map (\<lambda>variant. (int rep, int attempt, tid, variant))
           (if even (index + rep) then variants else rev variants)) (enumerate 0 (sort tids))))
       [1..<nat attempts + 1])) [0..<nat replicates])))"

section \<open>Ledger entries\<close>

record attempt_row =
  ar_variant :: json
  ar_task_id :: json
  ar_replicate :: int
  ar_attempt :: int
  ar_trial :: int
  ar_store_import :: json
  ar_kg_domain :: json
  ar_transaction :: json
  ar_run_dir :: json

record ledger_row = attempt_row +
  lr_store_export :: json
  lr_store_entries :: "json list"
  lr_export_bytes :: int
  lr_archive :: json

record failed_attempt = attempt_row +
  fa_error :: json

datatype ledger_entry = Completed ledger_row | Failed failed_attempt

definition chain_ledger_schema :: string where
  "chain_ledger_schema = ''metacodes-chain-ledger-v1''"

definition ledger_row_json :: "ledger_row \<Rightarrow> json_object" where
  "ledger_row_json r =
    [(''schema_version'', JStr chain_ledger_schema), (''status'', JStr ''exported''), (''variant'', ar_variant r),
     (''task_id'', ar_task_id r), (''replicate'', JInt (ar_replicate r)), (''attempt'', JInt (ar_attempt r)),
     (''trial'', JInt (ar_trial r)), (''store_import_sha256'', ar_store_import r),
     (''store_export_sha256'', lr_store_export r), (''store_entries'', JArr (lr_store_entries r)),
     (''export_bytes'', JInt (lr_export_bytes r)), (''archive'', lr_archive r), (''run_dir'', ar_run_dir r),
     (''kg_domain'', ar_kg_domain r), (''budget_transaction_id'', ar_transaction r)]"

definition failed_attempt_json :: "failed_attempt \<Rightarrow> json_object" where
  "failed_attempt_json r =
    [(''schema_version'', JStr chain_ledger_schema), (''status'', JStr ''failed''), (''variant'', ar_variant r),
     (''task_id'', ar_task_id r), (''replicate'', JInt (ar_replicate r)), (''attempt'', JInt (ar_attempt r)),
     (''trial'', JInt (ar_trial r)), (''store_import_sha256'', ar_store_import r), (''kg_domain'', ar_kg_domain r),
     (''budget_transaction_id'', ar_transaction r), (''run_dir'', ar_run_dir r), (''error'', fa_error r)]"

fun entry_object :: "ledger_entry \<Rightarrow> json_object" where
  "entry_object (Completed r) = ledger_row_json r"
| "entry_object (Failed r) = failed_attempt_json r"

fun entry_variant :: "ledger_entry \<Rightarrow> json" where
  "entry_variant (Completed r) = ar_variant r"
| "entry_variant (Failed r) = ar_variant r"

definition archive_relpath :: "string \<Rightarrow> string \<Rightarrow> int \<Rightarrow> int \<Rightarrow> string" where
  "archive_relpath variant tid rep attempt =
    variant @ ''/'' @ tid @ ''/r'' @ int_str rep @ ''/attempt-'' @ int_str attempt @ ''.tar''"

section \<open>Reading and appending\<close>

definition ledger_row_keys :: "string list" where
  "ledger_row_keys = [''variant'', ''task_id'', ''replicate'', ''attempt'', ''trial'', ''store_import_sha256'',
     ''store_export_sha256'', ''store_entries'', ''export_bytes'', ''archive'', ''run_dir'', ''kg_domain'', ''budget_transaction_id'']"

definition failed_attempt_keys :: "string list" where
  "failed_attempt_keys = [''variant'', ''task_id'', ''replicate'', ''attempt'', ''trial'', ''store_import_sha256'', ''kg_domain'',
     ''budget_transaction_id'', ''run_dir'', ''error'']"

definition require_row_keys :: "json_object \<Rightarrow> string list \<Rightarrow> string \<Rightarrow> unit result" where
  "require_row_keys d ks w = raise_if (list_ex (\<lambda>k. map_of d k = None) ks) w ''malformed ledger row''"

definition count_field :: "json_object \<Rightarrow> string \<Rightarrow> string \<Rightarrow> int result" where
  "count_field d w k =
    (case int_value (field d k) of
       None \<Rightarrow> fail w (k @ '' must be a non-negative integer'')
     | Some i \<Rightarrow> if i < 0 then fail w (k @ '' must be a non-negative integer'') else Inr i)"

definition parse_ledger_row :: "json \<Rightarrow> string \<Rightarrow> ledger_entry result" where
  "parse_ledger_row v w =
    (case v of
       JObj d \<Rightarrow>
         if field d ''schema_version'' \<noteq> JStr chain_ledger_schema then fail w ''not a ledger row''
         else if field d ''status'' = JStr ''exported'' then
           bindE (require_row_keys d ledger_row_keys w) (\<lambda>_.
           case py_iter (field d ''store_entries'') of
             Inl _ \<Rightarrow> fail w ''malformed ledger row''
           | Inr entries \<Rightarrow>
               bindE (count_field d w ''replicate'') (\<lambda>rep. bindE (count_field d w ''attempt'') (\<lambda>attempt.
               bindE (count_field d w ''trial'') (\<lambda>trial. bindE (count_field d w ''export_bytes'') (\<lambda>bytes.
               Inr (Completed \<lparr>ar_variant = field d ''variant'', ar_task_id = field d ''task_id'', ar_replicate = rep,
                 ar_attempt = attempt, ar_trial = trial, ar_store_import = field d ''store_import_sha256'',
                 ar_kg_domain = field d ''kg_domain'', ar_transaction = field d ''budget_transaction_id'',
                 ar_run_dir = field d ''run_dir'', lr_store_export = field d ''store_export_sha256'',
                 lr_store_entries = entries, lr_export_bytes = bytes, lr_archive = field d ''archive''\<rparr>))))))
         else if field d ''status'' = JStr ''failed'' then
           bindE (require_row_keys d failed_attempt_keys w) (\<lambda>_.
           bindE (count_field d w ''replicate'') (\<lambda>rep. bindE (count_field d w ''attempt'') (\<lambda>attempt.
           bindE (count_field d w ''trial'') (\<lambda>trial.
           Inr (Failed \<lparr>ar_variant = field d ''variant'', ar_task_id = field d ''task_id'', ar_replicate = rep,
             ar_attempt = attempt, ar_trial = trial, ar_store_import = field d ''store_import_sha256'',
             ar_kg_domain = field d ''kg_domain'', ar_transaction = field d ''budget_transaction_id'',
             ar_run_dir = field d ''run_dir'', fa_error = field d ''error''\<rparr>)))))
         else fail w ''unknown ledger row status''
     | _ \<Rightarrow> fail w ''not a ledger row'')"

definition ledger_line_step :: "string \<Rightarrow> string \<Rightarrow> nat \<times> string \<Rightarrow> ledger_entry list \<Rightarrow> ledger_entry list result" where
  "ledger_line_step path variant l acc =
    (let w = path @ '':'' @ nat_str (fst l)
     in if blank (snd l) then Inr acc
        else case loads dict_hook (snd l) of
          Inl _ \<Rightarrow> fail w ''invalid JSON''
        | Inr v \<Rightarrow>
            bindE (parse_ledger_row v w) (\<lambda>row.
            if \<not> py_eq (entry_variant row) (JStr variant) then fail w ''row belongs to another arm'' else Inr (acc @ [row])))"

definition load_chain_ledger :: "string \<Rightarrow> string option \<Rightarrow> string \<Rightarrow> ledger_entry list result" where
  \<comment> \<open>the contents of the file, \<open>None\<close> when it does not exist\<close>
  "load_chain_ledger path file variant =
    (case file of
       None \<Rightarrow> Inr []
     | Some s \<Rightarrow>
         if \<not> utf8_valid s then Inl (Value_Error ''invalid UTF-8'')
         else foldE (ledger_line_step path variant) (enumerate 1 (split_lines [] s)) [])"

definition ledger_line :: "ledger_entry \<Rightarrow> string" where
  "ledger_line e = dumps_ascii (canon (JObj (entry_object e))) @ [newline]"

definition append_chain_ledger :: "string option \<Rightarrow> ledger_entry \<Rightarrow> string option" where
  "append_chain_ledger file e = Some ((case file of None \<Rightarrow> [] | Some s \<Rightarrow> s) @ ledger_line e)"

section \<open>The checks of a chain\<close>

type_synonym chain_key = "string \<times> int \<times> int"
type_synonym chains = "(chain_key \<times> ledger_row) list"

definition stop_failed :: "ledger_entry \<Rightarrow> unit result" where
  "stop_failed e =
    (case e of Failed r \<Rightarrow> fail ''chain'' ''attempt was authorized and did not complete'' | Completed _ \<Rightarrow> Inr ())"

definition chain_row ::
  "(string \<Rightarrow> string option) \<Rightarrow> int \<Rightarrow> string list \<Rightarrow> int \<Rightarrow> ledger_row \<Rightarrow> chains \<Rightarrow> chains result" where
  \<comment> \<open>the files below the chain directory, and one more row\<close>
  "chain_row archives attempts tids replicates r by_key =
    (case ar_task_id r of
       JStr tid \<Rightarrow>
         let key = (tid, ar_replicate r, ar_attempt r)
         in bindE (raise_if (map_of by_key key \<noteq> None) ''chain ledger'' ''repeats attempt'') (\<lambda>_.
            bindE (raise_if (tid \<notin> set tids \<or> replicates \<le> ar_replicate r \<or> \<not> (1 \<le> ar_attempt r \<and> ar_attempt r \<le> attempts))
              ''chain ledger row'' ''is out of scope'') (\<lambda>_.
            bindE (chain_trial (ar_replicate r) (ar_attempt r) attempts) (\<lambda>trial.
            bindE (raise_if (ar_trial r \<noteq> trial) ''chain ledger row'' ''is out of scope'') (\<lambda>_.
            let rel = archive_relpath (py_str (ar_variant r)) tid (ar_replicate r) (ar_attempt r)
            in bindE (raise_if (lr_archive r \<noteq> JStr rel) ''chain ledger row'' ''names an unexpected archive'') (\<lambda>_.
               bindE (chain_kg_domain tid) (\<lambda>domain.
               bindE (raise_if (ar_kg_domain r \<noteq> JStr domain) ''chain ledger row'' ''ran in another TinyKG domain'') (\<lambda>_.
               bindE (raise_if (case archives rel of None \<Rightarrow> True | Some bytes \<Rightarrow> JStr (sha256_hex bytes) \<noteq> lr_store_export r)
                 ''chain archive'' ''is missing or changed'') (\<lambda>_.
               Inr (by_key @ [(key, r)])))))))))
     | v \<Rightarrow> if hashable v then fail ''chain ledger row'' ''is out of scope'' else Inl (Type_Error ''unhashable type''))"

definition chain_entry ::
  "(string \<Rightarrow> string option) \<Rightarrow> int \<Rightarrow> string list \<Rightarrow> int \<Rightarrow> ledger_entry \<Rightarrow> chains \<Rightarrow> chains result" where
  "chain_entry archives attempts tids replicates e by_key =
    (case e of Completed r \<Rightarrow> chain_row archives attempts tids replicates r by_key | Failed _ \<Rightarrow> Inl Assertion_Error)"

definition chain_link :: "chains \<Rightarrow> chain_key \<times> ledger_row \<Rightarrow> unit result" where
  "chain_link by_key kr =
    (case kr of ((tid, rep, attempt), r) \<Rightarrow>
       if attempt = 1 then raise_if (ar_store_import r \<noteq> JNull) ''chain'' ''attempt 1 imported a store''
       else raise_if (case map_of by_key (tid, rep, attempt - 1) of
           None \<Rightarrow> True | Some previous \<Rightarrow> \<not> py_eq (ar_store_import r) (lr_store_export previous))
         ''chain'' ''is broken'')"

definition chain_keys :: "chains \<Rightarrow> (string \<times> int) set" where
  "chain_keys by_key = (\<lambda>((tid, rep, attempt), r). (tid, ar_trial r)) ` set by_key"

definition validate_chains ::
  "ledger_entry list \<Rightarrow> (string \<Rightarrow> string option) \<Rightarrow> int \<Rightarrow> string list \<Rightarrow> int \<Rightarrow> (string \<times> int) list \<Rightarrow> chains result" where
  "validate_chains rows archives attempts tids replicates checkpoint =
    bindE (forE stop_failed rows) (\<lambda>_.
    bindE (foldE (chain_entry archives attempts tids replicates) rows []) (\<lambda>by_key.
    bindE (forE (chain_link by_key) by_key) (\<lambda>_.
    bindE (raise_if (chain_keys by_key \<noteq> set checkpoint) ''chain ledger and rollout checkpoint'' ''disagree'') (\<lambda>_.
    Inr by_key))))"

section \<open>Lines of a file\<close>

text \<open>A text that ends its last line can be split on its own.\<close>

definition whole_lines :: "string \<Rightarrow> bool" where
  "whole_lines s \<longleftrightarrow> s = [] \<or> last s = newline"

lemma break_bytes_border:
  assumes "t \<noteq> []"
  shows "break_bytes (t @ newline # s) = break_bytes (t @ [newline])" and "break_bytes (t @ [newline]) \<le> length (t @ [newline])"
proof -
  have n: "char_code newline = 10" by (simp add: char_code_CHR)
  consider c where "t = [c]" | c d where "t = [c, d]" | c d e u where "t = c # d # e # u"
    using assms by (metis list.exhaust)
  then show "break_bytes (t @ newline # s) = break_bytes (t @ [newline])" "break_bytes (t @ [newline]) \<le> length (t @ [newline])"
    by (cases; simp add: n Let_def)+
qed

lemma split_whole:
  "t \<noteq> [] \<Longrightarrow> last t = newline \<Longrightarrow> split_lines acc (t @ s) = split_lines acc t @ split_lines [] s"
proof (induction "length t" arbitrary: t acc rule: less_induct)
  case less
  have n: "char_code newline = 10" by (simp add: char_code_CHR)
  obtain u where t: "t = u @ [newline]" using less.prems by (metis append_butlast_last_id)
  have nil: "split_lines [] [] = []" by (simp add: split_lines.simps)
  show ?case
  proof (cases "u = []")
    case True
    then have "break_bytes t = 1" "break_bytes (t @ s) = 1" using t n by (simp_all add: Let_def)
    then show ?thesis using t True nil split_lines.simps [of acc t] split_lines.simps [of acc "t @ s"] by simp
  next
    case False
    let ?k = "break_bytes t"
    have k: "break_bytes (t @ s) = ?k" "?k \<le> length t" using break_bytes_border [OF False] t by simp_all
    show ?thesis
    proof (cases "?k = 0")
      case True
      then have "split_lines acc t = split_lines (acc @ [hd t]) (tl t)"
        "split_lines acc (t @ s) = split_lines (acc @ [hd t]) (tl t @ s)"
        using less.prems(1) k split_lines.simps [of acc t] split_lines.simps [of acc "t @ s"] by simp_all
      moreover have "tl t \<noteq> []" "last (tl t) = newline" "length (tl t) < length t" using t False by (cases u; simp)+
      ultimately show ?thesis using less.hyps [of "tl t" "acc @ [hd t]"] by simp
    next
      case brk: False
      then have e: "split_lines acc t = acc # split_lines [] (drop ?k t)"
        "split_lines acc (t @ s) = acc # split_lines [] (drop ?k t @ s)"
        using less.prems(1) k split_lines.simps [of acc t] split_lines.simps [of acc "t @ s"] by simp_all
      show ?thesis
      proof (cases "drop ?k t = []")
        case True
        then show ?thesis using e nil by simp
      next
        case rest: False
        then have "last (drop ?k t) = newline" "length (drop ?k t) < length t" using less.prems brk by simp_all
        then show ?thesis using e rest less.hyps [of "drop ?k t" "[]"] by simp
      qed
    qed
  qed
qed

lemma split_append_line:
  assumes "whole_lines t" and "one_line l"
  shows "split_lines [] (t @ l @ [newline]) = split_lines [] t @ [l]"
proof -
  have l: "split_lines [] (l @ [newline]) = [l]" using split_lines_text [of "[l]"] assms(2) by simp
  show ?thesis
  proof (cases "t = []")
    case True
    then show ?thesis using l by (simp add: split_lines.simps [of "[]" "[]"])
  next
    case False
    then show ?thesis using assms(1) l split_whole [of t "[]" "l @ [newline]"] by (simp add: whole_lines_def)
  qed
qed

section \<open>The rows the runner writes\<close>

fun text_or_none :: "json \<Rightarrow> bool" where
  "text_or_none JNull = True"
| "text_or_none (JStr s) = utf8_valid s"
| "text_or_none _ = False"

definition written_row :: "string \<Rightarrow> ('a attempt_row_scheme) \<Rightarrow> bool" where
  "written_row variant r \<longleftrightarrow> ar_variant r = JStr variant \<and> utf8_valid variant \<and> text_or_none (ar_task_id r) \<and>
     0 \<le> ar_replicate r \<and> 0 \<le> ar_attempt r \<and> 0 \<le> ar_trial r \<and> text_or_none (ar_store_import r) \<and>
     text_or_none (ar_kg_domain r) \<and> text_or_none (ar_transaction r) \<and> text_or_none (ar_run_dir r)"

fun written_entry :: "string \<Rightarrow> ledger_entry \<Rightarrow> bool" where
  "written_entry variant (Completed r) \<longleftrightarrow> written_row variant r \<and> text_or_none (lr_store_export r) \<and>
     list_all text_or_none (lr_store_entries r) \<and> 0 \<le> lr_export_bytes r \<and> text_or_none (lr_archive r)"
| "written_entry variant (Failed r) \<longleftrightarrow> written_row variant r \<and> text_or_none (fa_error r)"

lemma text_or_none_json: "text_or_none v \<Longrightarrow> plain v \<and> utf8_json v \<and> canon v = v"
  by (cases v) simp_all

lemma entries_json: "list_all text_or_none vs \<Longrightarrow> plain (JArr vs) \<and> utf8_json (JArr vs) \<and> canon (JArr vs) = JArr vs"
  using text_or_none_json by (induction vs) auto

lemma entry_object_json:
  assumes "written_entry variant e"
  shows "plain (JObj (entry_object e))" and "utf8_json (JObj (entry_object e))"
    and "kv \<in> set (entry_object e) \<Longrightarrow> canon (snd kv) = snd kv"
proof -
  have "plain (JObj (entry_object e)) \<and> utf8_json (JObj (entry_object e)) \<and> (\<forall>kv \<in> set (entry_object e). canon (snd kv) = snd kv)"
    using assms text_or_none_json entries_json
    by (cases e) (auto simp: ledger_row_json_def failed_attempt_json_def chain_ledger_schema_def written_row_def char_code_def
        simp del: plain.simps(2) utf8_json.simps(2) canon.simps(1))
  then show "plain (JObj (entry_object e))" "utf8_json (JObj (entry_object e))"
    "kv \<in> set (entry_object e) \<Longrightarrow> canon (snd kv) = snd kv" by blast+
qed

lemma parse_entry_object:
  assumes "written_entry variant e"
  shows "parse_ledger_row (canon (JObj (entry_object e))) w = Inr e" and "entry_variant e = JStr variant"
proof -
  let ?d = "canon_object (entry_object e)"
  have "distinct (keys (entry_object e))" using entry_object_json(1) [OF assms] by simp
  then have get: "map_of ?d k = map_of (entry_object e) k" for k
    using entry_object_json(3) [OF assms] map_of_canon [of "entry_object e" k]
    by (cases "map_of (entry_object e) k") (auto dest: map_of_SomeD)
  then have f: "field ?d k = field (entry_object e) k" for k by (simp add: dict_get_none_def)
  have "parse_ledger_row (JObj ?d) w = Inr e"
  proof (cases e)
    case (Completed r)
    show ?thesis
      using assms unfolding parse_ledger_row_def require_row_keys_def count_field_def json.case f get
      by (simp add: Completed ledger_row_json_def ledger_row_keys_def dict_get_none_def raise_if_def written_row_def)
  next
    case (Failed r)
    show ?thesis
      using assms unfolding parse_ledger_row_def require_row_keys_def count_field_def json.case f get
      by (simp add: Failed failed_attempt_json_def failed_attempt_keys_def dict_get_none_def raise_if_def written_row_def)
  qed
  then show "parse_ledger_row (canon (JObj (entry_object e))) w = Inr e" by simp
  show "entry_variant e = JStr variant" using assms by (cases e) (auto simp: written_row_def)
qed

lemma append_loads:
  assumes "load_chain_ledger path file variant = Inr rows" and "written_entry variant e"
    and "case file of None \<Rightarrow> True | Some s \<Rightarrow> whole_lines s"
  shows "load_chain_ledger path (append_chain_ledger file e) variant = Inr (rows @ [e])"
proof -
  define s where "s = (case file of None \<Rightarrow> [] | Some s \<Rightarrow> s)"
  let ?v = "JObj (entry_object e)"
  let ?l = "dumps_ascii (canon ?v)"
  note j = entry_object_json [OF assms(2)]
  have p: "plain (canon ?v)" "utf8_json (canon ?v)" using j plain_canon utf8_json_canon by blast+
  have l: "one_line ?l" "utf8_valid ?l" using ascii_dumps_ascii [OF p(1)] ascii_one_line ascii_utf8 by blast+
  have s: "utf8_valid s" "whole_lines s" "foldE (ledger_line_step path variant) (enumerate 1 (split_lines [] s)) [] = Inr rows"
    using assms(1,3) by (auto simp: s_def load_chain_ledger_def whole_lines_def split_lines.simps [of "[]" "[]"] split: option.splits if_splits)
  have "\<not> blank ?l" by (subst blank.simps) (simp add: char_code_CHR)
  moreover have "loads dict_hook ?l = Inr (canon ?v)" by (rule ascii_line_loads [OF j(1,2)])
  ultimately have step: "ledger_line_step path variant (n, ?l) acc = Inr (acc @ [e])" for n acc
    using parse_entry_object [OF assms(2)] by (simp add: ledger_line_step_def Let_def del: canon.simps)
  have "split_lines [] (s @ ledger_line e) = split_lines [] s @ [?l]"
    using split_append_line [OF s(2) l(1)] by (simp add: ledger_line_def)
  moreover have "utf8_valid (s @ ledger_line e)"
    using s(1) l(2) by (simp add: ledger_line_def utf8_valid_append char_code_CHR del: canon.simps dumps_ascii.simps)
  ultimately show ?thesis
    using s(3) step
    by (simp add: append_chain_ledger_def load_chain_ledger_def s_def [symmetric] enumerate_append_eq foldE_append del: canon.simps)
qed

lemma append_whole_lines: "case append_chain_ledger file e of None \<Rightarrow> True | Some s \<Rightarrow> whole_lines s"
  by (simp add: append_chain_ledger_def ledger_line_def whole_lines_def)

end
