(* ===== verification/Chain_Store.thy ===== *)
theory Chain_Store
  imports Chain_Ledger
begin

text \<open>
  \<open>export_store\<close> of \<open>scripts/eval/chained_runner.py\<close>: the TinyKG store a session left behind, carried as
  an archive. A directory is the list of its entries in whatever order the file system gives them.
  What \<open>tarfile\<close> writes for given members depends on the Python version, so the writer is the
  argument \<open>tar\<close>; owners, times and modes are fixed, so the members are all it sees.
\<close>

datatype node = Node_Dir "(string \<times> node) list" | Node_File string | Node_Other

type_synonym member = "string \<times> string option"
  \<comment> \<open>the name, and the contents unless it is a directory\<close>

definition store_entries :: "string list" where
  "store_entries = [''store.kg'', ''store.kg.v2'']"

definition max_store_export_bytes :: nat where
  "max_store_export_bytes = 512 * 1024 * 1024"

definition child_name :: "string \<Rightarrow> string \<times> node \<Rightarrow> string \<times> node" where
  "child_name arc c = (arc @ ''/'' @ fst c, snd c)"

function walk_store :: "(string \<times> node) list \<Rightarrow> member list \<times> nat \<Rightarrow> (member list \<times> nat) result" where
  \<comment> \<open>the stack of pending entries, the members so far and their bytes\<close>
  "walk_store [] acc = Inr acc"
| "walk_store ((arc, Node_Dir cs) # pending) acc =
     walk_store (map (child_name arc) (sort_key fst cs) @ pending) (fst acc @ [(arc, None)], snd acc)"
| "walk_store ((arc, Node_File s) # pending) acc =
     (let total = snd acc + length s
      in if max_store_export_bytes < total then fail ''TinyKG store'' ''exceeds the export limit''
         else walk_store pending (fst acc @ [(arc, Some s)], total))"
| "walk_store ((arc, Node_Other) # pending) acc = fail ''TinyKG store entry'' ''is not a regular file or directory''"
  by pat_completeness auto

fun node_count :: "node \<Rightarrow> nat" where
  "node_count (Node_Dir cs) = Suc (sum_list (map (\<lambda>c. node_count (snd c)) cs))"
| "node_count (Node_File s) = 1"
| "node_count Node_Other = 1"

lemma sum_count_sorted:
  "sum_list (map (\<lambda>c. node_count (snd c)) (map (child_name arc) (sort_key fst cs))) = sum_list (map (\<lambda>c. node_count (snd c)) cs)"
proof -
  have "sum_list (map f (sort_key fst cs)) = sum_list (map f cs)" for f :: "string \<times> node \<Rightarrow> nat"
    by (simp flip: sum_mset_sum_list)
  then show ?thesis by (simp add: comp_def child_name_def)
qed

termination walk_store
proof (relation "measure (\<lambda>(pending, acc). sum_list (map (\<lambda>c. node_count (snd c)) pending))", goal_cases)
  case (2 arc cs pending acc)
  show ?case using sum_count_sorted [of arc cs] by simp
qed simp_all

definition carried_entries :: "(string \<times> node) list \<Rightarrow> (string \<times> node) list" where
  \<comment> \<open>the entries of \<open>kg_dir\<close> that are carried, in the order of \<open>STORE_ENTRIES\<close>\<close>
  "carried_entries kg = concat (map (\<lambda>name. case map_of kg name of None \<Rightarrow> [] | Some n \<Rightarrow> [(name, n)]) store_entries)"

fun walk_entries :: "(string \<times> node) list \<Rightarrow> member list \<times> nat \<Rightarrow> (member list \<times> nat) result" where
  "walk_entries [] acc = Inr acc"
| "walk_entries (e # es) acc = bindE (walk_store [e] acc) (walk_entries es)"

definition export_store :: "(member list \<Rightarrow> string) \<Rightarrow> (string \<times> node) list \<Rightarrow> (string \<times> string list) result" where
  \<comment> \<open>the bytes of the archive and the entries it carries; its sha256 and size are those of the bytes\<close>
  "export_store tar kg =
    bindE (walk_entries (carried_entries kg) ([], 0)) (\<lambda>(members, total).
    Inr (tar (sort_key fst members), map fst (carried_entries kg)))"

section \<open>The order of a directory does not matter\<close>

fun sorted_node :: "node \<Rightarrow> node" where
  "sorted_node (Node_Dir cs) = Node_Dir (sort_key fst (map (\<lambda>c. (fst c, sorted_node (snd c))) cs))"
| "sorted_node n = n"

abbreviation sorted_entry :: "string \<times> node \<Rightarrow> string \<times> node" where
  "sorted_entry c \<equiv> (fst c, sorted_node (snd c))"

definition same_store :: "(string \<times> node) list \<Rightarrow> (string \<times> node) list \<Rightarrow> bool" where
  \<comment> \<open>the same tree, whatever the order the entries of its directories are listed in\<close>
  "same_store kg kg' \<longleftrightarrow> sort_key fst (map sorted_entry kg) = sort_key fst (map sorted_entry kg')"

lemma sort_key_map_entries: "sort_key fst (map sorted_entry cs) = map sorted_entry (sort_key fst cs)"
proof -
  have "insort_key fst (sorted_entry c) (map sorted_entry cs) = map sorted_entry (insort_key fst c cs)" for c cs
    by (induction cs) auto
  then show ?thesis by (induction cs) (simp_all add: sort_key_def)
qed

lemma walk_sorted: "walk_store (map sorted_entry pending) acc = walk_store pending acc"
proof (induction pending acc rule: walk_store.induct)
  case (2 arc cs pending acc)
  have "map (child_name arc) (sort_key fst (sort_key fst (map sorted_entry cs))) @ map sorted_entry pending =
      map sorted_entry (map (child_name arc) (sort_key fst cs) @ pending)"
    by (simp add: sort_key_stable_idem sort_key_map_entries child_name_def)
  then show ?case using 2 by simp
qed (simp_all add: Let_def)

lemma walk_entries_sorted: "walk_entries (map sorted_entry es) = walk_entries es"
proof (induction es)
  case (Cons e es)
  have "walk_store [sorted_entry e] acc = walk_store [e] acc" for acc using walk_sorted [of "[e]" acc] by simp
  then show ?case using Cons by (intro ext) simp
qed simp

lemma distinct_sorted_keys: "distinct (map fst (sort_key fst cs)) \<longleftrightarrow> distinct (map fst cs)"
  by (rule mset_eq_imp_distinct_iff) simp

lemma carried_entries_sorted:
  assumes "distinct (map fst kg)"
  shows "carried_entries (sort_key fst (map sorted_entry kg)) = map sorted_entry (carried_entries kg)"
proof -
  have "map_of (sort_key fst (map sorted_entry kg)) = map_of (map sorted_entry kg)"
    using assms by (intro map_of_permute) (simp_all add: comp_def distinct_sorted_keys)
  then have "map_of (sort_key fst (map sorted_entry kg)) name = map_option sorted_node (map_of kg name)" for name
    by (simp add: map_of_map_snd)
  then show ?thesis by (simp add: carried_entries_def store_entries_def split: option.split)
qed

lemma export_same_store:
  assumes "same_store kg kg'" and "distinct (map fst kg)" and "distinct (map fst kg')"
  shows "export_store tar kg = export_store tar kg'"
proof -
  have e: "map sorted_entry (carried_entries kg) = map sorted_entry (carried_entries kg')"
    using assms(1) unfolding same_store_def assms(2,3) [THEN carried_entries_sorted, symmetric] by (rule arg_cong)
  have "map fst (map sorted_entry (carried_entries kg)) = map fst (map sorted_entry (carried_entries kg'))" using e by (rule arg_cong)
  moreover have "walk_entries (map sorted_entry (carried_entries kg)) = walk_entries (map sorted_entry (carried_entries kg'))"
    using e by (rule arg_cong)
  ultimately show ?thesis by (simp add: export_store_def walk_entries_sorted comp_def)
qed

section \<open>What is carried\<close>

text \<open>The contents at a path, and the files of a tree with their names in the archive.\<close>

fun files_of :: "string \<Rightarrow> node \<Rightarrow> member list" where
  "files_of arc (Node_Dir cs) = (arc, None) # concat (map (\<lambda>c. files_of (arc @ ''/'' @ fst c) (snd c)) cs)"
| "files_of arc (Node_File s) = [(arc, Some s)]"
| "files_of arc Node_Other = []"

fun regular :: "node \<Rightarrow> bool" where
  "regular (Node_Dir cs) \<longleftrightarrow> (\<forall>c \<in> set cs. regular (snd c))"
| "regular (Node_File s) \<longleftrightarrow> True"
| "regular Node_Other \<longleftrightarrow> False"

definition member_bytes :: "member list \<Rightarrow> nat" where
  "member_bytes ms = sum_list (map (\<lambda>m. case snd m of None \<Rightarrow> 0 | Some s \<Rightarrow> length s) ms)"

lemma walk_members:
  "walk_store pending acc = Inr acc' \<Longrightarrow>
   set (fst acc') = set (fst acc) \<union> (\<Union>e \<in> set pending. set (files_of (fst e) (snd e))) \<and>
   (\<forall>e \<in> set pending. regular (snd e)) \<and>
   (member_bytes (fst acc) = snd acc \<longrightarrow> member_bytes (fst acc') = snd acc') \<and>
   (snd acc \<le> max_store_export_bytes \<longrightarrow> snd acc' \<le> max_store_export_bytes)"
proof (induction pending acc rule: walk_store.induct)
  case (2 arc cs pending acc)
  have u: "(\<Union>e \<in> set (map (child_name arc) (sort_key fst cs)). set (files_of (fst e) (snd e))) =
      (\<Union>c \<in> set cs. set (files_of (arc @ ''/'' @ fst c) (snd c)))"
    by (simp add: child_name_def)
  have r: "(\<forall>e \<in> set (map (child_name arc) (sort_key fst cs)). regular (snd e)) \<longleftrightarrow> regular (Node_Dir cs)"
    by (simp add: child_name_def)
  have b: "member_bytes (fst acc @ [(arc, None)]) = member_bytes (fst acc)" by (simp add: member_bytes_def)
  from "2.prems" have "walk_store (map (child_name arc) (sort_key fst cs) @ pending) (fst acc @ [(arc, None)], snd acc) = Inr acc'"
    by simp
  from "2.IH" [OF this] show ?case
    using r unfolding set_append UN_Un u fst_conv snd_conv b ball_Un by auto
next
  case (3 arc s pending acc)
  have "member_bytes (fst acc @ [(arc, Some s)]) = member_bytes (fst acc) + length s" by (simp add: member_bytes_def)
  then show ?case using 3 by (auto simp: Let_def split: if_splits)
qed auto

lemma walk_entries_members:
  "walk_entries es acc = Inr acc' \<Longrightarrow>
   set (fst acc') = set (fst acc) \<union> (\<Union>e \<in> set es. set (files_of (fst e) (snd e))) \<and>
   (\<forall>e \<in> set es. regular (snd e)) \<and>
   (member_bytes (fst acc) = snd acc \<longrightarrow> member_bytes (fst acc') = snd acc') \<and>
   (snd acc \<le> max_store_export_bytes \<longrightarrow> snd acc' \<le> max_store_export_bytes)"
proof (induction es arbitrary: acc)
  case (Cons e es)
  then obtain x where x: "walk_store [e] acc = Inr x" "walk_entries es x = Inr acc'" by (auto simp: bindE_eq_Inr)
  from walk_members [OF x(1)] Cons.IH [OF x(2)] show ?case by auto
qed simp

lemma export_members:
  assumes "export_store tar kg = Inr (bytes, names)"
  obtains ms where "bytes = tar ms" and "sorted (map fst ms)" and "names = map fst (carried_entries kg)"
    and "set ms = (\<Union>e \<in> set (carried_entries kg). set (files_of (fst e) (snd e)))"
    and "\<forall>e \<in> set (carried_entries kg). regular (snd e)" and "member_bytes ms \<le> max_store_export_bytes"
proof -
  from assms obtain members total where w: "walk_entries (carried_entries kg) ([], 0) = Inr (members, total)"
    and "bytes = tar (sort_key fst members)" and "names = map fst (carried_entries kg)"
    by (auto simp: export_store_def bindE_eq_Inr)
  moreover have "member_bytes (sort_key fst members) = member_bytes members"
  proof -
    have "sum_list (map f (sort_key fst members)) = sum_list (map f members)" for f :: "member \<Rightarrow> nat"
      by (simp flip: sum_mset_sum_list)
    then show ?thesis by (simp add: member_bytes_def)
  qed
  ultimately show thesis
    using walk_entries_members [OF w] by (intro that [of "sort_key fst members"]) (simp_all add: member_bytes_def)
qed

end
