(* ===== verification/Chain_Run.thy ===== *)
theory Chain_Run
  imports Chain_Store Runner_Entry
begin

text \<open>
  \<open>run_chained\<close> of \<open>scripts/eval/chained_runner.py\<close>: what is frozen before the journal is opened, the
  admission of the checkpoints and ledgers of both arms, and each attempt of the schedule, from its
  reservation to its rollout or to the row that records its failure. The state is that of a runner
  with the ledger of each arm, the archives below the chain directory, and the chains.
\<close>

section \<open>State\<close>

record chain_state =
  cs_run :: runner
  cs_ledgers :: "string \<Rightarrow> string option"
  cs_archives :: "string \<Rightarrow> string option"
  cs_chains :: "string \<Rightarrow> chains"

type_synonym 'a cop = "(chain_state, 'a) op"

definition on_run :: "'a rop \<Rightarrow> 'a cop" where
  "on_run m s = (case m (cs_run s) of (q, r) \<Rightarrow> (q, s\<lparr>cs_run := r\<rparr>))"

definition tryS :: "('s, 'a) op \<Rightarrow> (py_error \<Rightarrow> ('s, 'a) op) \<Rightarrow> ('s, 'a) op" where
  \<comment> \<open>\<open>try: m; except BaseException as e: h\<close>\<close>
  "tryS m h s = (case m s of (Inl e, t) \<Rightarrow> h e t | (Inr x, t) \<Rightarrow> (Inr x, t))"

text \<open>
  What an attempt meets: the binary before it is reserved, the world between the calls on the journal, the
  child, the witness file (absent, unreadable, or its bytes), the store the session left, whether the
  archive can be written, how many bytes of a ledger line reach the file before an append fails,
  the imported evidence, and whether the checkpoint can be written.
\<close>

record chain_attempt =
  ca_binary :: "string option"
  ca_tick :: "nat \<Rightarrow> world \<Rightarrow> world"
  ca_process :: process
  ca_witness :: "string option option"
  ca_store :: "(string \<times> node) list"
  ca_export :: "(bool \<times> py_error) option"
    \<comment> \<open>the archive was in place when it failed\<close>
  ca_append :: "bool \<Rightarrow> (nat \<times> py_error) option"
    \<comment> \<open>of a completed row, and of a failed one\<close>
  ca_import :: "string \<Rightarrow> json_object list result"
  ca_write :: "py_error option"

record chain_admission =
  cn_host :: host
  cn_binaries :: "string \<Rightarrow> string option"
  cn_tick :: "world \<Rightarrow> world"

record chain_contract =
  cc_suite :: json_object
  cc_tasks :: "(string \<times> json_object) list"
  cc_domains :: "(string \<times> string) list"
  cc_authority :: budget_authority
  cc_revisions :: "(string \<times> string) list"
  cc_binaries :: "(string \<times> string) list"
  cc_replicates :: int
  cc_attempts :: int
  cc_provider :: string
  cc_model :: string
  cc_used :: "double \<times> int"
  cc_total :: "double \<times> int"
  cc_cap :: "double \<times> int"
  cc_compensated :: bool
  cc_tar :: "member list \<Rightarrow> string"
  cc_text :: "py_error \<Rightarrow> string"
    \<comment> \<open>\<open>f"{type(exc).__name__}: {exc}"\<close>\<close>
  cc_directory :: string

definition lookupE :: "(string \<times> 'a) list \<Rightarrow> string \<Rightarrow> 'a result" where
  "lookupE d k = (case map_of d k of None \<Rightarrow> Inl (Key_Error k) | Some v \<Rightarrow> Inr v)"

section \<open>The transaction of an attempt\<close>

definition chain_run_id :: "string \<Rightarrow> string \<Rightarrow> int \<Rightarrow> int \<Rightarrow> string" where
  "chain_run_id variant tid rep attempt =
    ''chained:'' @ variant @ '':'' @ tid @ '':r'' @ int_str rep @ '':a'' @ int_str attempt"

definition rollout_evidence_sha256 :: "json_object \<Rightarrow> string" where
  "rollout_evidence_sha256 r = canonical_sha256 (JObj (filter (\<lambda>kv. fst kv \<noteq> ''budget_transaction'') r))"

definition chain_transaction ::
  "chain_contract \<Rightarrow> string \<Rightarrow> string \<Rightarrow> int \<Rightarrow> int \<Rightarrow> json \<Rightarrow> budget_transaction result" where
  \<comment> \<open>\<open>transaction_for\<close>, the last argument is the digest of the imported store\<close>
  "chain_transaction c variant tid rep attempt imported =
    bindE (lookupE (cc_tasks c) tid) (\<lambda>task.
    bindE (chain_trial rep attempt (cc_attempts c)) (\<lambda>trial.
    bindE (lookupE (cc_revisions c) variant) (\<lambda>revision.
    bindE (lookupE (cc_binaries c) variant) (\<lambda>binary.
    bindE (lookupE (cc_domains c) tid) (\<lambda>domain.
    bindE (text_at task [''id'']) (\<lambda>id_text.
    bindE (usd_to_microusd (double_json (fst (cc_cap c)))) (\<lambda>cost.
    Inr \<lparr>run_id = chain_run_id variant id_text rep attempt,
         manifest_sha256 = auth_manifest_sha256 (cc_authority c),
         model_fingerprint = auth_model_fingerprint (cc_authority c),
         harness_fingerprint = canonical_sha256 (JObj
           [(''contract'', JStr ''metacodes-chained-budget-transaction-v1''), (''variant'', JStr variant),
            (''task_id'', JStr id_text), (''task_sha256'', JStr (canonical_sha256 (JObj task))), (''replicate'', JInt rep),
            (''attempt'', JInt attempt), (''trial'', JInt trial), (''revision'', JStr revision),
            (''binary_sha256'', JStr binary), (''store_import_sha256'', imported), (''kg_domain'', JStr domain),
            (''max_cost_microusd'', JInt cost), (''max_metered_tokens'', JInt (snd (cc_cap c)))]),
         provider_identity = auth_provider_identity (cc_authority c),
         max_cost_microusd = cost,
         max_metered_tokens = snd (cc_cap c)\<rparr>)))))))"

section \<open>Admission\<close>

definition chain_row_contract :: "chain_contract \<Rightarrow> string \<Rightarrow> string option \<Rightarrow> row_contract result" where
  "chain_row_contract c variant binary =
    bindE (lookupE (cc_revisions c) variant) (\<lambda>revision.
    Inr \<lparr>row_variant = variant, row_suite = cc_suite c, row_binary = binary, row_trials = cc_replicates c * cc_attempts c,
         row_tasks = cc_tasks c, row_provider = JStr (cc_provider c), row_model = JStr (cc_model c), row_revision = revision,
         row_config_id = None, needs_runtime_budget = True, row_attest = None\<rparr>)"

definition chain_ledger_path :: "chain_contract \<Rightarrow> string \<Rightarrow> string" where
  "chain_ledger_path c variant = cc_directory c @ ''/'' @ variant @ ''/ledger.jsonl''"

definition load_chain_checkpoints :: "chain_contract \<Rightarrow> chain_admission \<Rightarrow> (string \<Rightarrow> string option) \<Rightarrow> collected result" where
  "load_chain_checkpoints c ad files =
    mapE (\<lambda>variant.
      bindE (chain_row_contract c variant (cn_binaries ad variant)) (\<lambda>rc.
      bindE (load_checkpoint (cn_host ad) rc (files variant)) (\<lambda>rows. Inr (variant, rows)))) variants"

definition load_chains ::
  "chain_contract \<Rightarrow> (string \<Rightarrow> string option) \<Rightarrow> (string \<Rightarrow> string option) \<Rightarrow> collected \<Rightarrow> (string \<times> chains) list result" where
  "load_chains c ledgers archives collected =
    mapE (\<lambda>(variant, rows).
      bindE (load_chain_ledger (chain_ledger_path c variant) (ledgers variant) variant) (\<lambda>entries.
      bindE (mapE row_key rows) (\<lambda>ks.
      bindE (validate_chains entries archives (cc_attempts c) (keys (cc_tasks c)) (cc_replicates c) ks) (\<lambda>by_key.
      Inr (variant, by_key))))) collected"

definition chain_receipt :: "chain_contract \<Rightarrow> (world \<Rightarrow> world) \<Rightarrow> string \<Rightarrow> json_object \<Rightarrow> string list \<Rightarrow> string list cop" where
  \<comment> \<open>the journal, the ledger and the checkpoint name the same transaction, sealed over this body\<close>
  "chain_receipt c tick variant r tids =
    bindS (liftS (row_key r)) (\<lambda>(tid, trial).
    let (rep, attempt) = chain_position trial (cc_attempts c)
    in bindS (getS (\<lambda>s. map_of (cs_chains s variant) (tid, rep, attempt))) (\<lambda>found.
       bindS (liftS (case found of None \<Rightarrow> Inl (Key_Error tid) | Some row \<Rightarrow> Inr row)) (\<lambda>row.
       bindS (liftS (require_runtime_budget_provenance r (cc_cap c) True)) (\<lambda>_.
       bindS (liftS (chain_transaction c variant tid rep attempt (ar_store_import row))) (\<lambda>i.
       bindS (on_run (on_journal tick (validate_checkpoint_budget_receipt r i))) (\<lambda>k.
       bindS (whenS (\<not> py_eq (JStr k) (ar_transaction row)) (Validation_Error ''chain''
         ''the ledger and the rollout name different budget transactions'')) (\<lambda>_.
       bindS (on_run (on_journal tick (transaction_evidence k))) (\<lambda>evidence.
       bindS (whenS (evidence \<noteq> Some (rollout_evidence_sha256 r)) (Validation_Error ''rollout''
         ''does not match the evidence sealed in the budget journal'')) (\<lambda>_.
       bindS (whenS (k \<in> set tids) (Validation_Error ''budget transaction''
         ''is attached to more than one rollout'')) (\<lambda>_. returnS (k # tids)))))))))))"

definition require_chain_budget :: "chain_contract \<Rightarrow> unit cop" where
  "require_chain_budget c =
    bindS (getS (\<lambda>s. rn_collected (cs_run s))) (\<lambda>collected.
    liftS (require_budget (cc_compensated c) (all_rows collected) (fst (cc_used c)) (snd (cc_used c))
      (Some (fst (cc_total c))) (Some (snd (cc_total c)))))"

definition admit_chains :: "chain_contract \<Rightarrow> chain_admission \<Rightarrow> unit cop" where
  "admit_chains c ad =
    bindS (getS (\<lambda>s. (rn_files (cs_run s), cs_ledgers s, cs_archives s))) (\<lambda>(files, ledgers, archives).
    bindS (liftS (load_chain_checkpoints c ad files)) (\<lambda>collected.
    bindS (liftS (load_chains c ledgers archives collected)) (\<lambda>chains.
    bindS (modifyS (\<lambda>s. s\<lparr>cs_chains := (\<lambda>v. case map_of chains v of None \<Rightarrow> [] | Some by_key \<Rightarrow> by_key)\<rparr>)) (\<lambda>_.
    bindS (foldS (\<lambda>(variant, rows) tids. foldS (chain_receipt c (cn_tick ad) variant) rows tids) collected []) (\<lambda>tids.
    bindS (on_run (on_journal (cn_tick ad) (require_no_orphans tids))) (\<lambda>_.
    bindS (on_run (modifyS (\<lambda>r. r\<lparr>rn_collected := collected\<rparr>))) (\<lambda>_.
    require_chain_budget c)))))))"

section \<open>An attempt\<close>

record chain_slot =
  cl_replicate :: int
  cl_attempt :: int
  cl_task :: string
  cl_variant :: string
  cl_trial :: int
  cl_previous :: "ledger_row option"

definition imported_sha256 :: "chain_slot \<Rightarrow> json" where
  "imported_sha256 sl = (case cl_previous sl of None \<Rightarrow> JNull | Some p \<Rightarrow> lr_store_export p)"

definition slot_archive :: "chain_slot \<Rightarrow> string" where
  "slot_archive sl = archive_relpath (cl_variant sl) (cl_task sl) (cl_replicate sl) (cl_attempt sl)"

subsection \<open>Reserving and authorizing\<close>

definition abort_unsent :: "chain_attempt \<Rightarrow> string \<Rightarrow> py_error \<Rightarrow> unit cop" where
  \<comment> \<open>nothing was sent: a reservation is released, a durable authorization stays\<close>
  "abort_unsent a k e =
    bindS (tryS (bindS (on_run (journal_call (ca_tick a 2) (Call_Abort k))) (\<lambda>_. returnS ())) (\<lambda>e'.
      case e' of
        Transaction_Not_Abortable \<Rightarrow> returnS ()
      | Validation_Error w m \<Rightarrow> raiseS (Validation_Error ''pre-authorization failure''
          ''left the transaction reserved and its abort could not be recorded'')
      | _ \<Rightarrow> raiseS e')) (\<lambda>_. raiseS e)"

definition chain_admit :: "chain_attempt \<Rightarrow> budget_transaction \<Rightarrow> string cop" where
  "chain_admit a i =
    bindS (on_run (journal_call (ca_tick a 0) (Call_Reserve i))) (\<lambda>reserved.
    let k = transaction_id (rc_transaction reserved)
    in bindS (tryS (bindS (on_run (journal_call (ca_tick a 1)
           (Call_Authorize k (rc_journal_revision reserved) (rc_journal_head_sha256 reserved)))) (\<lambda>_. returnS ()))
         (abort_unsent a k)) (\<lambda>_. returnS k))"

subsection \<open>The session\<close>

definition chain_request :: "chain_contract \<Rightarrow> chain_slot \<Rightarrow> run_request result" where
  "chain_request c sl =
    bindE (scenario_selector [cl_task sl]) (\<lambda>selector.
    bindE (lookupE (cc_revisions c) (cl_variant sl)) (\<lambda>revision.
    bindE (lookupE (cc_tasks c) (cl_task sl)) (\<lambda>task.
    bindE (json_at task [''constraints'', ''timeout_seconds'']) (\<lambda>timeout.
    bindE (lookupE (cc_domains c) (cl_task sl)) (\<lambda>domain.
    Inr \<lparr>rq_variant = cl_variant sl, rq_trial = cl_trial sl, rq_scenario = selector, rq_provider = cc_provider c,
         rq_model = cc_model c, rq_revision = revision, rq_config_id = None, rq_env = None, rq_allow_invalid = False,
         rq_timeout = (if timeout = JNull then None else Some timeout), rq_max_tokens = Some (snd (cc_cap c)),
         rq_max_cost = Some (fst (cc_cap c)), rq_api_key = None, rq_hint = Some (cl_task sl),
         rq_store = map_option (\<lambda>p. (py_str (lr_archive p), py_str (lr_store_export p))) (cl_previous sl),
         rq_domain = Some domain\<rparr>)))))"

definition chain_start :: "chain_contract \<Rightarrow> chain_attempt \<Rightarrow> chain_slot \<Rightarrow> budget_transaction \<Rightarrow> string cop" where
  "chain_start c a sl i =
    bindS (liftS (chain_request c sl)) (\<lambda>rq.
    bindS (liftS (run_child rq (ca_process a))) (\<lambda>_.
    bindS (on_run (modifyS (\<lambda>r. r\<lparr>rn_started := rn_started r @ [run_id i]\<rparr>))) (\<lambda>_.
    bindS (liftS (run_ended rq (ca_process a))) (\<lambda>end.
    case end of Run_Done dir \<Rightarrow> returnS dir | Run_Infrastructure _ _ \<Rightarrow> raiseS Assertion_Error))))"

definition verify_import_witness :: "json \<Rightarrow> string option option \<Rightarrow> unit result" where
  "verify_import_witness expected witness =
    (if expected = JNull then raise_if (witness \<noteq> None) ''attempt 1'' ''reports a store import''
     else case witness of
       Some (Some bytes) \<Rightarrow>
         if \<not> utf8_valid bytes then Inl (Value_Error ''invalid UTF-8'')
         else raise_if (\<not> py_eq (JStr (strip_text bytes)) expected) ''store import witness'' ''does not match the chain''
     | _ \<Rightarrow> fail ''store import witness'' ''is missing'')"

definition require_carried :: "json list \<Rightarrow> string list \<Rightarrow> unit result" where
  \<comment> \<open>no imported entry vanished\<close>
  "require_carried imported entries =
    (if list_ex (\<lambda>v. \<not> hashable v) imported then Inl (Type_Error ''unhashable type'')
     else let vanished = filter (\<lambda>v. v \<notin> JStr ` set entries) imported
       in if vanished = [] then Inr ()
          else if list_all is_str vanished then fail ''chain'' ''the imported store vanished''
          else Inl (Type_Error ''names of store entries''))"

definition append_row :: "chain_attempt \<Rightarrow> string \<Rightarrow> bool \<Rightarrow> ledger_entry \<Rightarrow> unit cop" where
  \<comment> \<open>an append that fails may have written a part of its line\<close>
  "append_row a variant completed e =
    (case ca_append a completed of
       None \<Rightarrow> modifyS (\<lambda>s. s\<lparr>cs_ledgers := (cs_ledgers s)(variant := append_chain_ledger (cs_ledgers s variant) e)\<rparr>)
     | Some (n, err) \<Rightarrow>
         bindS (modifyS (\<lambda>s. if n = 0 then s else s\<lparr>cs_ledgers := (cs_ledgers s)(variant :=
           Some ((case cs_ledgers s variant of None \<Rightarrow> [] | Some t \<Rightarrow> t) @ take n (ledger_line e)))\<rparr>)) (\<lambda>_.
         raiseS err))"

definition seal_store :: "chain_contract \<Rightarrow> chain_attempt \<Rightarrow> chain_slot \<Rightarrow> (string \<times> string list) cop" where
  "seal_store c a sl =
    bindS (liftS (export_store (cc_tar c) (ca_store a))) (\<lambda>(bytes, names).
    bindS (modifyS (\<lambda>s. if (case ca_export a of Some (False, _) \<Rightarrow> True | _ \<Rightarrow> False) then s
      else s\<lparr>cs_archives := (cs_archives s)(slot_archive sl \<mapsto> bytes)\<rparr>)) (\<lambda>_.
    bindS (liftS (case ca_export a of None \<Rightarrow> Inr () | Some (_, e) \<Rightarrow> Inl e)) (\<lambda>_.
    returnS (bytes, names))))"

definition completed_row ::
  "chain_slot \<Rightarrow> string \<Rightarrow> string \<Rightarrow> string \<Rightarrow> string \<times> string list \<Rightarrow> ledger_row" where
  "completed_row sl k domain dir exported =
    \<lparr>ar_variant = JStr (cl_variant sl), ar_task_id = JStr (cl_task sl), ar_replicate = cl_replicate sl,
     ar_attempt = cl_attempt sl, ar_trial = cl_trial sl, ar_store_import = imported_sha256 sl, ar_kg_domain = JStr domain,
     ar_transaction = JStr k, ar_run_dir = JStr dir, lr_store_export = JStr (sha256_hex (fst exported)),
     lr_store_entries = map JStr (snd exported), lr_export_bytes = int (length (fst exported)),
     lr_archive = JStr (slot_archive sl)\<rparr>"

definition failed_row :: "chain_slot \<Rightarrow> string \<Rightarrow> string \<Rightarrow> string option \<Rightarrow> string \<Rightarrow> failed_attempt" where
  "failed_row sl k domain dir detail =
    \<lparr>ar_variant = JStr (cl_variant sl), ar_task_id = JStr (cl_task sl), ar_replicate = cl_replicate sl,
     ar_attempt = cl_attempt sl, ar_trial = cl_trial sl, ar_store_import = imported_sha256 sl, ar_kg_domain = JStr domain,
     ar_transaction = JStr k, ar_run_dir = opt_str dir, fa_error = JStr detail\<rparr>"

definition carry_store :: "chain_contract \<Rightarrow> chain_attempt \<Rightarrow> chain_slot \<Rightarrow> string \<Rightarrow> string \<Rightarrow> unit cop" where
  \<comment> \<open>witness, export, and the row that seals the attempt\<close>
  "carry_store c a sl k dir =
    bindS (liftS (verify_import_witness (imported_sha256 sl) (ca_witness a))) (\<lambda>_.
    bindS (seal_store c a sl) (\<lambda>exported.
    bindS (liftS (require_carried (case cl_previous sl of None \<Rightarrow> [] | Some p \<Rightarrow> lr_store_entries p) (snd exported))) (\<lambda>_.
    bindS (liftS (lookupE (cc_domains c) (cl_task sl))) (\<lambda>domain.
    let row = completed_row sl k domain dir exported
    in bindS (append_row a (cl_variant sl) True (Completed row)) (\<lambda>_.
       modifyS (\<lambda>s. s\<lparr>cs_chains := (cs_chains s)(cl_variant sl :=
         cs_chains s (cl_variant sl) @ [((cl_task sl, cl_replicate sl, cl_attempt sl), row)])\<rparr>))))))"

definition chain_rollout :: "chain_attempt \<Rightarrow> chain_slot \<Rightarrow> string \<Rightarrow> json_object result" where
  "chain_rollout a sl dir =
    bindE (ca_import a dir) (\<lambda>imported.
    bindE (select_rows [(''task_id'', JStr (cl_task sl)), (''trial'', JInt (cl_trial sl)),
      (''task_fingerprint_provenance'', JStr ''recorded_at_execution'')] imported) (\<lambda>selected.
    case selected of
      [r] \<Rightarrow> Inr r
    | _ \<Rightarrow> fail (cl_variant sl) ''expected one execution-grounded rollout''))"

definition commit_rollout :: "chain_contract \<Rightarrow> chain_attempt \<Rightarrow> chain_slot \<Rightarrow> string \<Rightarrow> json_object \<Rightarrow> json_object cop" where
  "commit_rollout c a sl k r =
    bindS (liftS (require_runtime_budget_provenance r (cc_cap c) True)) (\<lambda>_.
    bindS (liftS (bindE (metric_item r ''cost_usd'') usd_to_microusd_ceiling)) (\<lambda>cost.
    bindS (liftS (rollout_metered_tokens r)) (\<lambda>tokens.
    bindS (on_run (journal_call (ca_tick a 3) (Call_Commit k cost tokens (Some (rollout_evidence_sha256 r))))) (\<lambda>receipt.
    let r = AList.update ''budget_transaction'' (JObj (receipt_json receipt)) r
    in bindS (on_run (modifyS (\<lambda>rn. rn\<lparr>rn_collected :=
         map (\<lambda>(v, rows). (v, if v = cl_variant sl then rows @ [r] else rows)) (rn_collected rn)\<rparr>))) (\<lambda>_.
       bindS (getS (\<lambda>s. rn_collected (cs_run s))) (\<lambda>collected.
       bindS (liftS (bindE (lookupE collected (cl_variant sl)) write_rollouts)) (\<lambda>t.
       bindS (liftS (case ca_write a of None \<Rightarrow> Inr () | Some e \<Rightarrow> Inl e)) (\<lambda>_.
       bindS (on_run (modifyS (\<lambda>rn. rn\<lparr>rn_files := (rn_files rn)(cl_variant sl \<mapsto> t)\<rparr>))) (\<lambda>_.
       returnS r)))))))))"

definition chain_failed :: "chain_contract \<Rightarrow> chain_attempt \<Rightarrow> chain_slot \<Rightarrow> string \<Rightarrow> string option \<Rightarrow> py_error \<Rightarrow> 'a cop" where
  \<comment> \<open>the failure is recorded before the error propagates\<close>
  "chain_failed c a sl k dir e =
    bindS (tryS (bindS (liftS (lookupE (cc_domains c) (cl_task sl))) (\<lambda>domain.
        append_row a (cl_variant sl) False (Failed (failed_row sl k domain dir (take_points 1024 (cc_text c e))))))
      (\<lambda>_. raiseS (Validation_Error ''paid attempt'' ''failed and its failure could not be recorded''))) (\<lambda>_.
    raiseS e)"

definition chain_paid :: "chain_contract \<Rightarrow> chain_attempt \<Rightarrow> chain_slot \<Rightarrow> string \<Rightarrow> budget_transaction \<Rightarrow> json_object cop" where
  \<comment> \<open>from here the attempt may have spent money\<close>
  "chain_paid c a sl k i =
    bindS (tryS (chain_start c a sl i) (chain_failed c a sl k None)) (\<lambda>dir.
    tryS (bindS (carry_store c a sl k dir) (\<lambda>_. bindS (liftS (chain_rollout a sl dir)) (commit_rollout c a sl k)))
      (chain_failed c a sl k (Some dir)))"

subsection \<open>The schedule\<close>

definition reserve_room :: "chain_contract \<Rightarrow> unit cop" where
  "reserve_room c =
    bindS (getS (\<lambda>s. rn_collected (cs_run s))) (\<lambda>collected.
    liftS (require_rollout_reservation (all_rows collected) (fst (cc_used c)) (snd (cc_used c)) (fst (cc_cap c)) (snd (cc_cap c))
      (Some (fst (cc_total c))) (Some (snd (cc_total c)))))"

definition run_chain_slot :: "chain_contract \<Rightarrow> chain_attempt \<Rightarrow> chain_slot \<Rightarrow> unit cop" where
  "run_chain_slot c a sl =
    bindS (require_chain_budget c) (\<lambda>_.
    bindS (reserve_room c) (\<lambda>_.
    bindS (liftS (bindE (lookupE (cc_binaries c) (cl_variant sl)) (\<lambda>sha. require_sha256 (ca_binary a) sha (cl_variant sl)))) (\<lambda>_.
    bindS (liftS (chain_transaction c (cl_variant sl) (cl_task sl) (cl_replicate sl) (cl_attempt sl) (imported_sha256 sl))) (\<lambda>i.
    bindS (chain_admit a i) (\<lambda>k.
    bindS (chain_paid c a sl k i) (\<lambda>r.
    bindS (liftS (require_scoring_rollout r (cl_variant sl))) (\<lambda>_.
    require_chain_budget c)))))))"

definition chain_previous :: "chain_contract \<Rightarrow> chains \<Rightarrow> int \<times> int \<times> string \<times> string \<Rightarrow> chain_slot result" where
  "chain_previous c by_key = (\<lambda>(rep, attempt, tid, variant).
    bindE (chain_trial rep attempt (cc_attempts c)) (\<lambda>trial.
    bindE (if attempt > 1 then (case map_of by_key (tid, rep, attempt - 1) of
          None \<Rightarrow> fail variant ''chain has no previous attempt'' | Some p \<Rightarrow> Inr (Some p)) else Inr None) (\<lambda>previous.
    Inr \<lparr>cl_replicate = rep, cl_attempt = attempt, cl_task = tid, cl_variant = variant, cl_trial = trial,
         cl_previous = previous\<rparr>)))"

definition visit_attempt :: "chain_contract \<Rightarrow> (nat \<Rightarrow> chain_attempt) \<Rightarrow> int \<times> int \<times> string \<times> string \<Rightarrow> unit cop" where
  \<comment> \<open>an attempt the ledger has is skipped\<close>
  "visit_attempt c attempts = (\<lambda>(rep, attempt, tid, variant).
    bindS (getS (\<lambda>s. cs_chains s variant)) (\<lambda>by_key.
    if map_of by_key (tid, rep, attempt) \<noteq> None then returnS ()
    else
      bindS (getS (\<lambda>s. rn_step (cs_run s))) (\<lambda>n.
      bindS (on_run (modifyS (\<lambda>r. r\<lparr>rn_step := Suc n\<rparr>))) (\<lambda>_.
      bindS (liftS (chain_previous c by_key (rep, attempt, tid, variant))) (\<lambda>sl.
      run_chain_slot c (attempts n) sl)))))"

definition run_chained_locked ::
  "chain_contract \<Rightarrow> (int \<times> int \<times> string \<times> string) list \<Rightarrow> chain_admission \<Rightarrow> (nat \<Rightarrow> chain_attempt) \<Rightarrow> collected cop" where
  "run_chained_locked c schedule ad attempts =
    bindS (admit_chains c ad) (\<lambda>_.
    bindS (forS (visit_attempt c attempts) schedule) (\<lambda>_.
    getS (\<lambda>s. rn_collected (cs_run s))))"

end
