(* ===== verification/Chain_Entry.thy ===== *)
theory Chain_Entry
  imports Chain_Run
begin

text \<open>
  The entry of \<open>run_chained\<close> (\<open>scripts/eval/chained_runner.py\<close>): the checks of its arguments, the identities
  it freezes, the authority it hands to the budget journal, and the run under the journal's lock.
  Which tasks the glob selects (\<open>fnmatch\<close>) is a function of the invocation.
\<close>

record chain_invocation =
  cv_suite :: json_object
  cv_executable :: bool
  cv_binaries :: "string \<Rightarrow> string option"
  cv_suite_is_file :: bool
  cv_selects :: "string \<Rightarrow> bool"
  cv_replicates :: int
  cv_attempts :: int
  cv_provider :: string
  cv_model :: string
  cv_revisions :: "string \<Rightarrow> string"
  cv_directory :: string
  cv_output_directories :: "string list"
    \<comment> \<open>these paths are absolute and resolved\<close>
  cv_journal :: "string option"
  cv_used :: "double \<times> int"
  cv_max_cost :: "double option"
  cv_max_tokens :: "int option"
  cv_rollout_cost :: "double option"
  cv_rollout_tokens :: "int option"
  cv_admission :: chain_admission
  cv_runs :: "nat \<Rightarrow> chain_attempt"
  cv_compensated :: bool
  cv_tar :: "member list \<Rightarrow> string"
  cv_text :: "py_error \<Rightarrow> string"

definition require_journal_outside :: "string \<Rightarrow> string list \<Rightarrow> string result" where
  "require_journal_outside journal directories =
    bindE (forE (\<lambda>d. raise_if (journal = d \<or> d = [slash] \<or> is_prefix (d @ [slash]) journal) ''budget journal''
      ''must be outside the chain directory and the output directories'') directories) (\<lambda>_. Inr journal)"

definition chain_caps :: "chain_invocation \<Rightarrow> ((double \<times> int) \<times> (double \<times> int) \<times> string) result" where
  \<comment> \<open>the cumulative caps, those of a rollout, and the journal\<close>
  "chain_caps iv =
    (case (cv_max_cost iv, cv_max_tokens iv, cv_rollout_cost iv, cv_rollout_tokens iv) of
       (Some cost, Some tokens, Some rollout_cost, Some rollout_tokens) \<Rightarrow>
         (case cv_journal iv of
            None \<Rightarrow> fail ''run-chained'' ''requires an explicit budget journal''
          | Some journal \<Rightarrow>
              bindE (validate_budget_caps (fst (cv_used iv)) (snd (cv_used iv)) (Some cost) (Some tokens) (Some rollout_cost)
                (Some rollout_tokens)) (\<lambda>_. Inr ((cost, tokens), (rollout_cost, rollout_tokens), journal)))
     | _ \<Rightarrow> fail ''run-chained'' ''requires cumulative and per-rollout caps for both cost and tokens'')"

definition chain_authority ::
  "chain_invocation \<Rightarrow> (string \<times> json_object) list \<Rightarrow> (string \<times> string) list \<Rightarrow> (string \<times> string) list \<Rightarrow>
   double \<times> int \<Rightarrow> double \<times> int \<Rightarrow> budget_authority result" where
  \<comment> \<open>the tasks, the binaries, the revisions, the cumulative caps and those of a rollout\<close>
  "chain_authority iv tasks binaries revisions caps cap =
    bindE (usd_to_microusd_ceiling (double_json (fst (cv_used iv)))) (\<lambda>prior.
    bindE (usd_to_microusd (double_json (fst caps))) (\<lambda>limit.
    let cost = limit - prior; tokens = snd caps - snd (cv_used iv)
    in bindE (raise_if (cost \<le> 0 \<or> tokens \<le> 0) ''budget-used offsets'' ''already exhaust the cumulative caps'') (\<lambda>_.
       bindE (json_at (cv_suite iv) [''suite_id'']) (\<lambda>suite_id.
       bindE (usd_to_microusd (double_json (fst cap))) (\<lambda>rollout.
       let model = JObj [(''provider'', JStr (cv_provider iv)), (''id'', JStr (cv_model iv))]
       in Inr \<lparr>auth_manifest_sha256 = canonical_sha256 (JObj
               [(''contract'', JStr ''metacodes-chained-budget-authority-v1''), (''suite_id'', suite_id),
                (''suite_sha256'', JStr (canonical_sha256 (JObj (cv_suite iv)))),
                (''tasks'', JArr (map JStr (sort (keys tasks)))), (''replicates'', JInt (cv_replicates iv)),
                (''attempts'', JInt (cv_attempts iv)), (''model'', model),
                (''revisions'', JObj (map (apsnd JStr) revisions)), (''binary_sha256'', JObj (map (apsnd JStr) binaries)),
                (''prior_cost_microusd'', JInt prior), (''prior_metered_tokens'', JInt (snd (cv_used iv))),
                (''max_cumulative_cost_microusd'', JInt limit), (''max_cumulative_tokens'', JInt (snd caps)),
                (''max_rollout_cost_microusd'', JInt rollout), (''max_rollout_metered_tokens'', JInt (snd cap))]),
            auth_model_fingerprint = canonical_sha256 model,
            auth_provider_identity = cv_provider iv @ '':'' @ cv_model iv,
            total_cost_microusd = cost, total_metered_tokens = tokens\<rparr>)))))"

definition selected_tasks :: "chain_invocation \<Rightarrow> (string \<times> json_object) list result" where
  "selected_tasks iv =
    bindE (suite_task_map (cv_suite iv)) (\<lambda>all.
    let tasks = filter (\<lambda>kv. cv_selects iv (fst kv)) all
    in bindE (raise_if (tasks = []) ''scenario glob'' ''matches no scored suite tasks'') (\<lambda>_. Inr tasks))"

definition frozen_chain ::
  "chain_invocation \<Rightarrow> (chain_contract \<times> (int \<times> int \<times> string \<times> string) list) result" where
  "frozen_chain iv =
    bindE (chain_caps iv) (\<lambda>(total, cap, journal).
    bindE (raise_if (\<not> cv_executable iv) ''binary'' ''is not executable'') (\<lambda>_.
    bindE (mapE (\<lambda>v. case cv_binaries iv v of None \<Rightarrow> Inl (OS_Error v) | Some s \<Rightarrow> Inr (v, sha256_hex s)) variants) (\<lambda>binaries.
    bindE (raise_if (\<not> cv_suite_is_file iv) ''evaluation suite file'' ''does not exist'') (\<lambda>_.
    bindE (selected_tasks iv) (\<lambda>tasks.
    bindE (mapE (\<lambda>tid. bindE (chain_kg_domain tid) (\<lambda>domain. Inr (tid, domain))) (keys tasks)) (\<lambda>domains.
    bindE (chained_schedule (keys tasks) (cv_replicates iv) (cv_attempts iv)) (\<lambda>schedule.
    let revisions = map (\<lambda>v. (v, strip_text (cv_revisions iv v))) variants
    in bindE (forE (\<lambda>(v, revision). raise_if (revision = []) v ''revision must be non-empty'') revisions) (\<lambda>_.
       bindE (require_journal_outside journal (cv_directory iv # cv_output_directories iv)) (\<lambda>_.
       bindE (chain_authority iv tasks binaries revisions total cap) (\<lambda>authority.
       Inr (\<lparr>cc_suite = cv_suite iv, cc_tasks = tasks, cc_domains = domains, cc_authority = authority,
             cc_revisions = revisions, cc_binaries = binaries, cc_replicates = cv_replicates iv, cc_attempts = cv_attempts iv,
             cc_provider = cv_provider iv, cc_model = cv_model iv, cc_used = cv_used iv, cc_total = total, cc_cap = cap,
             cc_compensated = cv_compensated iv, cc_tar = cv_tar iv, cc_text = cv_text iv, cc_directory = cv_directory iv\<rparr>,
            schedule)))))))))))"

definition with_chain_journal :: "'a cop \<Rightarrow> 'a cop" where
  "with_chain_journal m s =
    (case m s of (q, t) \<Rightarrow> (q, t\<lparr>cs_run := (cs_run t)\<lparr>rn_journal := close_journal (rn_journal (cs_run t))\<rparr>\<rparr>))"

definition run_chained :: "chain_invocation \<Rightarrow> collected cop" where
  "run_chained iv =
    bindS (liftS (frozen_chain iv)) (\<lambda>(c, schedule).
    bindS (liftS (init_journal (cc_authority c))) (\<lambda>j.
    bindS (on_run (modifyS (open_runner j))) (\<lambda>_.
    bindS (on_run (on_journal id enter)) (\<lambda>_.
    with_chain_journal (run_chained_locked c schedule (cv_admission iv) (cv_runs iv))))))"

end
