(* ===== verification/Chain_Campaign.thy ===== *)
theory Chain_Campaign
  imports Chain_Entry Runner_Campaign
begin

text \<open>
  What holds over any number of invocations of \<open>run_chained\<close>, and of \<open>run_multi_arm\<close>, on one journal, with
  anything but the journal file changing in between: ledgers, archives and checkpoints included.
\<close>

section \<open>Lifting\<close>

abbreviation csound :: "budget_authority option \<Rightarrow> chain_state \<Rightarrow> bool" where
  "csound au s \<equiv> sound au (cs_run s)"

lemma keeps_on_run [keeps_intro]:
  assumes "keeps P m"
  shows "keeps (\<lambda>s. P (cs_run s)) (on_run m)"
  using assms by (simp add: keeps_def on_run_def case_prod_beta)

lemma keeps_tryS [keeps_intro]:
  assumes "keeps P m" and "\<And>e. keeps P (h e)"
  shows "keeps P (tryS m h)"
proof (rule keepsI)
  fix s q t assume s: "P s" and run: "tryS m h s = (q, t)"
  obtain x u where x: "m s = (x, u)" by (rule prod.exhaust)
  have u: "P u" by (rule keepsD [OF assms(1) s x])
  show "P t"
  proof (cases x)
    case (Inl e)
    then show ?thesis using run x keepsD [OF assms(2) u] by (simp add: tryS_def)
  next
    case (Inr y)
    then show ?thesis using run x u by (simp add: tryS_def)
  qed
qed

lemma keeps_chain_update [keeps_intro]:
  "keeps (\<lambda>s. P (cs_run s)) (modifyS (\<lambda>s. s\<lparr>cs_ledgers := f s\<rparr>))" "keeps (\<lambda>s. P (cs_run s)) (modifyS (\<lambda>s. s\<lparr>cs_archives := f s\<rparr>))"
  "keeps (\<lambda>s. P (cs_run s)) (modifyS (\<lambda>s. s\<lparr>cs_chains := g s\<rparr>))"
  "keeps (\<lambda>s. P (cs_run s)) (modifyS (\<lambda>s. if b s then s else s\<lparr>cs_ledgers := f s\<rparr>))"
  "keeps (\<lambda>s. P (cs_run s)) (modifyS (\<lambda>s. if b s then s else s\<lparr>cs_archives := f s\<rparr>))"
  by (simp_all add: keeps_def modifyS_def)

lemma keeps_run_update [keeps_intro]:
  "keeps (sound au) (modifyS (\<lambda>r. r\<lparr>rn_collected := f r\<rparr>))"
  by (simp add: keeps_def modifyS_def sound_def ledger_now_def)

lemma pure_transaction_evidence [simp]: "pure_op (transaction_evidence k)"
  by (auto simp: transaction_evidence_def intro!: pure_op_bindS)

lemma keeps_evidence [keeps_intro]: "keeps (sound au) (on_journal tick (transaction_evidence k))"
  by (simp add: keeps_on_journal)

section \<open>An attempt\<close>

lemma keeps_require_chain_budget [keeps_intro]: "keeps (csound au) (require_chain_budget c)"
  unfolding require_chain_budget_def by (intro keeps_intro)

lemma keeps_append_row [keeps_intro]: "keeps (csound au) (append_row a v b e)"
  unfolding append_row_def by (auto intro!: keeps_intro split: option.split)

lemma keeps_chain_failed [keeps_intro]: "keeps (csound au) (chain_failed c a sl k dir e)"
  unfolding chain_failed_def by (intro keeps_intro)

lemma keeps_carry_store [keeps_intro]: "keeps (csound au) (carry_store c a sl k dir)"
  unfolding carry_store_def seal_store_def Let_def by (auto intro!: keeps_intro split: prod.split)

lemma keeps_commit_rollout [keeps_intro]: "keeps (csound au) (commit_rollout c a sl k r)"
  unfolding commit_rollout_def Let_def by (intro keeps_intro)

lemma keeps_chain_admit:
  assumes "identity_text i"
  shows "keeps (csound au) (chain_admit a i)"
  unfolding chain_admit_def abort_unsent_def Let_def
  using assms by (auto intro!: keeps_intro keeps_journal_call split: py_error.split)

lemma chain_admit_granted:
  assumes "csound au s" and "identity_text i" and "chain_admit a i s = (Inr k, t)"
  shows "admitted au (run_id i) (cs_run t)"
proof -
  have abort: "abort_unsent a k' e u \<noteq> (Inr (), u')" for k' e u u'
    by (auto simp: abort_unsent_def op_simps)
  from assms(3) obtain reserved s1 where res: "on_run (journal_call (ca_tick a 0) (Call_Reserve i)) s = (Inr reserved, s1)"
    and caught: "tryS (bindS (on_run (journal_call (ca_tick a 1) (Call_Authorize (transaction_id (rc_transaction reserved))
      (rc_journal_revision reserved) (rc_journal_head_sha256 reserved)))) (\<lambda>_. returnS ()))
      (abort_unsent a (transaction_id (rc_transaction reserved))) s1 = (Inr (), t)"
    by (auto simp: chain_admit_def op_simps Let_def)
  from caught abort obtain x where "on_run (journal_call (ca_tick a 1) (Call_Authorize (transaction_id (rc_transaction reserved))
      (rc_journal_revision reserved) (rc_journal_head_sha256 reserved))) s1 = (Inr x, t)"
    by (auto simp: tryS_def op_simps split: prod.splits sum.splits)
  then show ?thesis
    using res reserve_authorize_granted [OF assms(1,2), of "ca_tick a 0" reserved "cs_run s1" "ca_tick a 1" x "cs_run t"]
    by (auto simp: on_run_def split: prod.splits)
qed

lemma chain_start_sound:
  assumes "admitted au (run_id i) (cs_run s)" and "chain_start c a sl i s = (q, t)"
  shows "csound au t"
proof -
  have "csound au (s\<lparr>cs_run := (cs_run s)\<lparr>rn_started := rn_started (cs_run s) @ [run_id i]\<rparr>\<rparr>)" "csound au s"
    using assms(1) by (auto simp: admitted_def sound_def ledger_now_def)
  moreover have "t = s \<or> t = s\<lparr>cs_run := (cs_run s)\<lparr>rn_started := rn_started (cs_run s) @ [run_id i]\<rparr>\<rparr>"
    using assms(2) unfolding chain_start_def
    by (cases q) (auto simp: op_simps on_run_def modifyS_def split: run_end.split_asm, (metis run_end.exhaust)+)
  ultimately show ?thesis by auto
qed

lemma chain_paid_sound:
  assumes "admitted au (run_id i) (cs_run s)" and "chain_paid c a sl k i s = (q, t)"
  shows "csound au t"
proof -
  obtain x u where x: "chain_start c a sl i s = (x, u)" by (rule prod.exhaust)
  have u: "csound au u" by (rule chain_start_sound [OF assms(1) x])
  have rest: "keeps (csound au) (tryS (bindS (carry_store c a sl k dir) (\<lambda>_. bindS (liftS (chain_rollout a sl dir))
      (commit_rollout c a sl k))) (chain_failed c a sl k (Some dir)))" for dir
    by (intro keeps_intro)
  show ?thesis
  proof (cases x)
    case (Inl e)
    obtain y v where y: "(chain_failed c a sl k None e :: string cop) u = (y, v)" by (rule prod.exhaust)
    have "csound au v" by (rule keepsD [OF keeps_chain_failed u y])
    then show ?thesis
      using assms(2) x Inl y keepsD [OF rest] by (cases y) (auto simp: chain_paid_def bindS_def tryS_def)
  next
    case (Inr dir)
    then show ?thesis using assms(2) x keepsD [OF rest u] by (simp add: chain_paid_def bindS_def tryS_def)
  qed
qed

section \<open>The identity of an attempt\<close>

definition chain_text :: "chain_contract \<Rightarrow> bool" where
  "chain_text c \<longleftrightarrow> (\<forall>tid task. map_of (cc_tasks c) tid = Some task \<longrightarrow> utf8_json (JObj task)) \<and> (\<forall>v \<in> set (keys (cc_revisions c)). utf8_valid v) \<and>
    utf8_valid (auth_provider_identity (cc_authority c))"

lemma lookupE_Inr: "lookupE d k = Inr v \<longleftrightarrow> map_of d k = Some v"
  by (simp add: lookupE_def split: option.split)

lemma chain_transaction_text:
  assumes "chain_transaction c v tid rep attempt imported = Inr i" and "chain_text c"
  shows "identity_text i"
proof -
  from assms(1) obtain task revision id_text where t: "map_of (cc_tasks c) tid = Some task"
    and v: "map_of (cc_revisions c) v = Some revision" and x: "text_at task [''id''] = Inr id_text"
    and i: "run_id i = chain_run_id v id_text rep attempt" "provider_identity i = auth_provider_identity (cc_authority c)"
    by (auto simp: chain_transaction_def bindE_eq_Inr lookupE_Inr)
  have "utf8_json (JObj task)" using assms(2) t by (auto simp: chain_text_def simp del: utf8_json.simps)
  then have "utf8_valid id_text" by (rule text_at_text [OF _ x])
  moreover have "utf8_valid v" using assms(2) map_of_SomeD [OF v] by (force simp: chain_text_def)
  ultimately show ?thesis
    unfolding identity_text_def i chain_run_id_def
    using assms(2) utf8_valid_int_str
    by (simp add: chain_text_def utf8_colon utf8_valid_append char_code_def)
qed

lemma keeps_run_chain_slot:
  assumes "chain_text c"
  shows "keeps (csound au) (run_chain_slot c a sl)"
proof -
  have paid: "keeps (csound au) (bindS (chain_admit a i) (\<lambda>k. bindS (chain_paid c a sl k i) (\<lambda>r.
      bindS (liftS (require_scoring_rollout r (cl_variant sl))) (\<lambda>_. require_chain_budget c))))" if i: "identity_text i" for i
  proof (rule keepsI)
    fix s q t
    assume s: "csound au s" and run: "bindS (chain_admit a i) (\<lambda>k. bindS (chain_paid c a sl k i) (\<lambda>r.
      bindS (liftS (require_scoring_rollout r (cl_variant sl))) (\<lambda>_. require_chain_budget c))) s = (q, t)"
    obtain k u where ad: "chain_admit a i s = (k, u)" by (rule prod.exhaust)
    show "csound au t"
    proof (cases k)
      case (Inl e)
      then show ?thesis using run ad keepsD [OF keeps_chain_admit [OF i] s ad] by (auto simp: bindS_def)
    next
      case k: (Inr y)
      obtain x v where x: "chain_paid c a sl y i u = (x, v)" by (rule prod.exhaust)
      have v: "csound au v" using chain_paid_sound [OF chain_admit_granted [OF s i] x] ad k by simp
      have rest: "keeps (csound au) (bindS (liftS (require_scoring_rollout r (cl_variant sl))) (\<lambda>_. require_chain_budget c))" for r
        by (intro keeps_intro)
      show ?thesis
      proof (cases x)
        case (Inl e)
        then show ?thesis using run ad k x v by (simp add: bindS_def)
      next
        case (Inr r)
        then have "bindS (liftS (require_scoring_rollout r (cl_variant sl))) (\<lambda>_. require_chain_budget c) v = (q, t)"
          using run ad k x by (simp add: bindS_def)
        then show ?thesis by (rule keepsD [OF rest v])
      qed
    qed
  qed
  show ?thesis
    unfolding run_chain_slot_def reserve_room_def
    by (intro keeps_bind keeps_value keeps_require_chain_budget keeps_bind_lift paid)
      (auto intro: chain_transaction_text [OF _ assms])
qed

section \<open>A run\<close>

lemma keeps_admit_chains: "keeps (csound au) (admit_chains c ad)"
  unfolding admit_chains_def chain_receipt_def Let_def
  by (auto intro!: keeps_intro split: prod.split)

lemma keeps_chained_locked:
  assumes "chain_text c"
  shows "keeps (csound au) (run_chained_locked c schedule ad attempts)"
proof -
  have "keeps (csound au) (visit_attempt c attempts x)" for x
    unfolding visit_attempt_def
    by (auto intro!: keeps_intro keeps_run_chain_slot [OF assms] split: prod.split)
  then show ?thesis unfolding run_chained_locked_def by (intro keeps_intro keeps_admit_chains)
qed

definition chain_unicode :: "chain_invocation \<Rightarrow> bool" where
  "chain_unicode iv \<longleftrightarrow> utf8_json (JObj (cv_suite iv)) \<and> utf8_valid (cv_provider iv) \<and> utf8_valid (cv_model iv)"

lemma map_of_selected: "map_of (filter (\<lambda>kv. P (fst kv)) kvs) k = (if P k then map_of kvs k else None)"
  by (induction kvs) auto

lemma chain_authority_provider:
  assumes "chain_authority iv tasks binaries revisions caps cap = Inr a"
  shows "auth_provider_identity a = cv_provider iv @ '':'' @ cv_model iv"
  using assms unfolding chain_authority_def Let_def by (elim bindE_InrE) auto

lemma frozen_chain_Inr:
  assumes "frozen_chain iv = Inr (c, schedule)"
  shows "\<exists>all. suite_task_map (cv_suite iv) = Inr all \<and> cc_tasks c = filter (\<lambda>kv. cv_selects iv (fst kv)) all"
    and "map fst (cc_revisions c) = variants" and "cc_attempts c = cv_attempts iv" and "cc_replicates c = cv_replicates iv"
    and "mapE (\<lambda>tid. bindE (chain_kg_domain tid) (\<lambda>domain. Inr (tid, domain))) (keys (cc_tasks c)) = Inr (cc_domains c)"
    and "chained_schedule (keys (cc_tasks c)) (cv_replicates iv) (cv_attempts iv) = Inr schedule"
    and "\<exists>journal. chain_caps iv = Inr (cc_total c, cc_cap c, journal)"
    and "chain_authority iv (cc_tasks c) (cc_binaries c) (cc_revisions c) (cc_total c) (cc_cap c) = Inr (cc_authority c)"
    and "cc_used c = cv_used iv" and "auth_provider_identity (cc_authority c) = cv_provider iv @ '':'' @ cv_model iv"
proof -
  show a: "chain_authority iv (cc_tasks c) (cc_binaries c) (cc_revisions c) (cc_total c) (cc_cap c) = Inr (cc_authority c)"
    using assms by (auto simp: frozen_chain_def selected_tasks_def Let_def check_simps bindE_eq_Inr)
  show "auth_provider_identity (cc_authority c) = cv_provider iv @ '':'' @ cv_model iv" by (rule chain_authority_provider [OF a])
qed (use assms in \<open>auto simp: frozen_chain_def selected_tasks_def Let_def check_simps bindE_eq_Inr comp_def\<close>)

lemma frozen_chain_text:
  assumes "frozen_chain iv = Inr (c, schedule)" and "chain_unicode iv"
  shows "chain_text c"
proof -
  note f = frozen_chain_Inr [OF assms(1)]
  obtain all where all: "suite_task_map (cv_suite iv) = Inr all" "cc_tasks c = filter (\<lambda>kv. cv_selects iv (fst kv)) all"
    using f(1) by blast
  have "utf8_json (JObj task)" if "map_of (cc_tasks c) tid = Some task" for tid task
    using suite_task_map_text [OF all(1)] that assms(2) unfolding all(2) map_of_selected chain_unicode_def by (metis option.distinct(1))
  moreover have "\<forall>v \<in> set (keys (cc_revisions c)). utf8_valid v"
    using f(2) by (simp add: variants_def char_code_def)
  moreover have "utf8_valid (auth_provider_identity (cc_authority c))"
    using assms(2) unfolding f(10) by (simp add: chain_unicode_def utf8_valid_append utf8_colon del: utf8_valid.simps)
  ultimately show ?thesis unfolding chain_text_def by blast
qed

lemma run_chained_cases:
  assumes s: "session_ok (rn_journal (cs_run s))" and unicode: "chain_unicode iv" and run: "run_chained iv s = (q, t)"
  obtains (refused) e where "q = Inl e" and "session_ok (rn_journal (cs_run t))" and "ledger_now (cs_run t) = ledger_now (cs_run s)"
      and "rn_started (cs_run t) = rn_started (cs_run s)"
    | (opened) c schedule j r1 s2 where "frozen_chain iv = Inr (c, schedule)" and "init_journal (cc_authority c) = Inr j"
      and "chain_text c" and "on_journal id enter (open_runner j (cs_run s)) = (Inr (), r1)"
      and "fresh_open (rn_journal (open_runner j (cs_run s)))"
      and "session_ok (rn_journal r1)" and "ledger_now r1 = ledger_now (cs_run s)" and "rn_started r1 = rn_started (cs_run s)"
      and "run_chained_locked c schedule (cv_admission iv) (cv_runs iv) (s\<lparr>cs_run := r1\<rparr>) = (q, s2)"
      and "t = s2\<lparr>cs_run := (cs_run s2)\<lparr>rn_journal := close_journal (rn_journal (cs_run s2))\<rparr>\<rparr>"
proof (cases "\<exists>c schedule j. frozen_chain iv = Inr (c, schedule) \<and> init_journal (cc_authority c) = Inr j")
  case False
  have "t = s \<and> (\<exists>e. q = Inl e)"
  proof (cases "frozen_chain iv")
    case (Inl e)
    then show ?thesis using run by (auto simp: run_chained_def op_run)
  next
    case (Inr cs)
    with False obtain e where "init_journal (cc_authority (fst cs)) = Inl e"
      by (cases cs; cases "init_journal (cc_authority (fst cs))") auto
    then show ?thesis using run Inr by (cases cs) (auto simp: run_chained_def op_run)
  qed
  then show thesis using refused s by auto
next
  case True
  then obtain c schedule j where c: "frozen_chain iv = Inr (c, schedule)" "init_journal (cc_authority c) = Inr j" by blast
  have unicode_c: "chain_text c" by (rule frozen_chain_text [OF c(1) unicode])
  then have p: "utf8_valid (auth_provider_identity (cc_authority c))" by (simp add: chain_text_def)
  note fresh = open_runner_fresh [OF s c(2) p]
  obtain x r1 where x: "on_journal id enter (open_runner j (cs_run s)) = (x, r1)" by (rule prod.exhaust)
  note o = open_journal(1-3) [OF fresh(1) x, unfolded fresh(2,3)]
  let ?s1 = "s\<lparr>cs_run := r1\<rparr>"
  have enter: "on_run (on_journal id enter) (s\<lparr>cs_run := open_runner j (cs_run s)\<rparr>) = (x, ?s1)" using x by (simp add: on_run_def)
  have upd: "on_run (modifyS (open_runner j)) s = (Inr (), s\<lparr>cs_run := open_runner j (cs_run s)\<rparr>)"
    by (simp add: on_run_def modifyS_def)
  show thesis
  proof (cases x)
    case (Inl e)
    then have "q = Inl e" "t = ?s1" using run c enter upd by (simp_all add: run_chained_def op_run)
    then show thesis using refused o by simp
  next
    case (Inr u)
    then have x: "on_journal id enter (open_runner j (cs_run s)) = (Inr (), r1)" using x by simp
    have "with_chain_journal (run_chained_locked c schedule (cv_admission iv) (cv_runs iv)) ?s1 = (q, t)"
      using run c enter upd Inr by (simp add: run_chained_def op_run)
    then obtain s2 where "run_chained_locked c schedule (cv_admission iv) (cv_runs iv) ?s1 = (q, s2)"
      "t = s2\<lparr>cs_run := (cs_run s2)\<lparr>rn_journal := close_journal (rn_journal (cs_run s2))\<rparr>\<rparr>"
      by (auto simp: with_chain_journal_def split: prod.splits)
    then show thesis by (rule opened [OF c unicode_c x fresh(1) o])
  qed
qed

lemma run_chained_sound:
  assumes "csound None s" and "chain_unicode iv" and "run_chained iv s = (q, t)"
  shows "csound None t"
proof -
  have "session_ok (rn_journal (cs_run s))" using assms(1) by (simp add: sound_def)
  then show ?thesis
    using assms(2,3)
  proof (rule run_chained_cases)
    fix c schedule j r1 s2
    assume "session_ok (rn_journal r1)" "ledger_now r1 = ledger_now (cs_run s)" "rn_started r1 = rn_started (cs_run s)"
      and c: "chain_text c" and run: "run_chained_locked c schedule (cv_admission iv) (cv_runs iv) (s\<lparr>cs_run := r1\<rparr>) = (q, s2)"
      and t: "t = s2\<lparr>cs_run := (cs_run s2)\<lparr>rn_journal := close_journal (rn_journal (cs_run s2))\<rparr>\<rparr>"
    then have "csound None (s\<lparr>cs_run := r1\<rparr>)" using assms(1) by (simp add: sound_def governed_def)
    from keepsD [OF keeps_chained_locked [OF c] this run] show ?thesis by (simp add: t close_sound)
  qed (use assms(1) in \<open>auto simp: sound_def governed_def\<close>)
qed

section \<open>Campaigns\<close>

inductive mixed_campaign :: "chain_state \<Rightarrow> chain_state \<Rightarrow> bool" for s0 where
  mixed_start: "mixed_campaign s0 s0"
| mixed_chained: "mixed_campaign s0 s \<Longrightarrow> chain_unicode iv \<Longrightarrow> run_chained iv s = (q, t) \<Longrightarrow> mixed_campaign s0 t"
| mixed_multi: "mixed_campaign s0 s \<Longrightarrow> invocation_text mv \<Longrightarrow> run_multi_arm mv (cs_run s) = (q, r) \<Longrightarrow>
     mixed_campaign s0 (s\<lparr>cs_run := r\<rparr>)"
| mixed_world: \<comment> \<open>anything but the journal file changes\<close>
    "mixed_campaign s0 s \<Longrightarrow> journal_file w = journal_file (snd (rn_journal (cs_run s))) \<Longrightarrow>
     mixed_campaign s0 (s\<lparr>cs_run := (cs_run s)\<lparr>rn_journal := (fst (rn_journal (cs_run s)), w), rn_files := files\<rparr>,
       cs_ledgers := ledgers, cs_archives := archives\<rparr>)"

lemma mixed_campaign_sound: "mixed_campaign s0 s \<Longrightarrow> csound None s0 \<Longrightarrow> csound None s"
proof (induction rule: mixed_campaign.induct)
  case (mixed_world s w)
  then show ?case by (simp add: world_sound)
qed (auto intro: run_multi_arm_sound run_chained_sound)

end
