(* ===== verification/Chain_Properties.thy ===== *)
theory Chain_Properties
  imports Chain_Campaign
begin

text \<open>
  The properties of chains: the schedule, the trial indices, the ledger's file, what an accepted ledger
  says about the archives, what an archive holds, and what the checks before a child refuse of an attempt.
\<close>

section \<open>Trials and the schedule\<close>

text \<open>The trial index of an attempt and its position determine each other: an index is the one of a
  replicate and an attempt exactly when it is not negative and its position is that replicate and attempt.\<close>

theorem chain_trial_position:
  "chain_trial rep attempt attempts = Inr trial \<longleftrightarrow>
   0 \<le> trial \<and> 1 \<le> attempts \<and> chain_position trial attempts = (rep, attempt)"
proof
  assume "chain_trial rep attempt attempts = Inr trial"
  then have a: "1 \<le> attempt" "attempt \<le> attempts" "0 \<le> rep" and t: "trial = rep * attempts + (attempt - 1)"
    by (auto simp: chain_trial_def split: if_splits)
  then have "trial div attempts = rep" "trial mod attempts = attempt - 1" by simp_all
  then show "0 \<le> trial \<and> 1 \<le> attempts \<and> chain_position trial attempts = (rep, attempt)"
    using a t by (simp add: chain_position_def)
next
  assume t: "0 \<le> trial \<and> 1 \<le> attempts \<and> chain_position trial attempts = (rep, attempt)"
  then have "trial mod attempts < attempts" by simp
  then have "trial mod attempts + 1 \<le> attempts" by (rule zless_imp_add1_zle)
  moreover have "0 \<le> trial div attempts" using t by (simp add: pos_imp_zdiv_nonneg_iff)
  ultimately show "chain_trial rep attempt attempts = Inr trial"
    using t by (auto simp: chain_trial_def chain_position_def)
qed

type_synonym slot_key = "int \<times> int \<times> string \<times> string"

fun arm_pairs :: "slot_key list \<Rightarrow> bool" where
  \<comment> \<open>the slots come in twos: both arms of one replicate, attempt and task\<close>
  "arm_pairs [] = True"
| "arm_pairs ((r, a, t, v) # (r', a', t', v') # s) \<longleftrightarrow> (r, a, t) = (r', a', t') \<and> {v, v'} = set variants \<and> arm_pairs s"
| "arm_pairs [x] = False"

definition level_order :: "slot_key \<Rightarrow> slot_key \<Rightarrow> bool" where
  "level_order x y \<longleftrightarrow> fst x < fst y \<or> (fst x = fst y \<and> fst (snd x) \<le> fst (snd y))"

lemma arm_pairs_append: "arm_pairs s \<Longrightarrow> arm_pairs s' \<Longrightarrow> arm_pairs (s @ s')"
  by (induction s rule: arm_pairs.induct) auto

lemma arm_pairs_concat: "(\<And>s. s \<in> set ss \<Longrightarrow> arm_pairs s) \<Longrightarrow> arm_pairs (concat ss)"
  by (induction ss) (auto intro: arm_pairs_append)

lemma sorted_wrt_concat:
  "(\<And>s. s \<in> set ss \<Longrightarrow> sorted_wrt P s) \<Longrightarrow> sorted_wrt (\<lambda>s s'. \<forall>x \<in> set s. \<forall>y \<in> set s'. P x y) ss \<Longrightarrow> sorted_wrt P (concat ss)"
  by (induction ss) (auto simp: sorted_wrt_append)

lemma sorted_wrt_all: "(\<And>x y. x \<in> set s \<Longrightarrow> y \<in> set s \<Longrightarrow> P x y) \<Longrightarrow> sorted_wrt P s"
  by (induction s) auto

definition level_slots :: "string list \<Rightarrow> nat \<Rightarrow> nat \<Rightarrow> slot_key list" where
  \<comment> \<open>the slots of one attempt level of a replicate\<close>
  "level_slots tids rep attempt = concat (map (\<lambda>(index, tid). map (\<lambda>variant. (int rep, int attempt, tid, variant))
     (if even (index + rep) then variants else rev variants)) (enumerate 0 tids))"

lemma level_slots_set: "set (level_slots tids rep attempt) = {int rep} \<times> {int attempt} \<times> set tids \<times> set variants"
proof -
  have v: "set (map (\<lambda>variant. (int rep, int attempt, tid, variant)) (if b then variants else rev variants)) =
      {int rep} \<times> {int attempt} \<times> {tid} \<times> set variants" for b tid
    by (cases b) auto
  have "set (level_slots tids rep attempt) = (\<Union>p \<in> set (enumerate 0 tids). {int rep} \<times> {int attempt} \<times> {snd p} \<times> set variants)"
    unfolding level_slots_def set_concat by (simp only: set_map [of _ "enumerate 0 tids"] image_image case_prod_beta v)
  also have "\<dots> = (\<Union>tid \<in> snd ` set (enumerate 0 tids). {int rep} \<times> {int attempt} \<times> {tid} \<times> set variants)" by auto
  also have "snd ` set (enumerate 0 tids) = set tids" using map_snd_enumerate [of 0 tids] by (metis set_map)
  finally show ?thesis by auto
qed

lemma level_slots_length: "length (level_slots tids rep attempt) = 2 * length tids"
proof -
  have "length (map f (if b then variants else rev variants)) = 2" for f :: "string \<Rightarrow> slot_key" and b
    by (cases b) (simp_all add: variants_def)
  then show ?thesis by (simp add: level_slots_def length_concat comp_def case_prod_beta sum_list_triv)
qed

lemma level_slots_pairs: "arm_pairs (level_slots tids rep attempt)"
  unfolding level_slots_def by (rule arm_pairs_concat) (auto simp: variants_def)

lemma chained_schedule_levels:
  assumes "chained_schedule tids replicates attempts = Inr s"
  shows "s = concat (map (\<lambda>rep. concat (map (level_slots (sort tids) rep) [1..<nat attempts + 1])) [0..<nat replicates])"
    and "0 < replicates" and "1 \<le> attempts"
  using assms unfolding chained_schedule_def level_slots_def [symmetric] by (auto split: if_splits simp del: upt_Suc)

text \<open>C40: the schedule of a chained run has every attempt of every task and arm exactly once, attempt levels
  advance together (no slot of attempt \<open>k + 1\<close> of a replicate comes before one of attempt \<open>k\<close>), and the two
  arms of a task, replicate and attempt run back to back.\<close>

theorem chained_schedule_complete:
  assumes "chained_schedule tids replicates attempts = Inr s" and "distinct tids"
  shows "distinct s \<and> set s = {0..<replicates} \<times> {1..attempts} \<times> set tids \<times> set variants \<and>
    sorted_wrt level_order s \<and> arm_pairs s"
proof (intro conjI)
  note s = chained_schedule_levels [OF assms(1)]
  let ?level = "\<lambda>rep. concat (map (level_slots (sort tids) rep) [1..<nat attempts + 1])"
  have "int ` {0..<nat replicates} = {0..<replicates}" "int ` {1..<nat attempts + 1} = {1..attempts}"
    using s(2,3) image_int_atLeastLessThan [of 0 "nat replicates"] image_int_atLeastLessThan [of 1 "nat attempts + 1"] by auto
  then show set: "set s = {0..<replicates} \<times> {1..attempts} \<times> set tids \<times> set variants"
    unfolding s(1) set_concat set_map set_upt image_image level_slots_set set_sort by blast
  have two: "card (set variants) = 2" "distinct variants" by (simp_all add: variants_def)
  have "length s = nat replicates * (nat attempts * (2 * length tids))"
    unfolding s(1) by (simp add: length_concat comp_def level_slots_length sum_list_triv)
  moreover have "card (set s) = nat replicates * (nat attempts * (length tids * 2))"
    unfolding set using assms(2) two by (simp add: card_cartesian_product distinct_card)
  ultimately show "distinct s" by (intro card_distinct) simp
  have keys: "x \<in> set (level_slots (sort tids) rep attempt) \<Longrightarrow> fst x = int rep \<and> fst (snd x) = int attempt" for x rep attempt
    unfolding level_slots_set by auto
  have level: "sorted_wrt level_order (level_slots (sort tids) rep attempt)" for rep attempt
    by (rule sorted_wrt_all) (auto simp: level_order_def dest!: keys)
  have up: "sorted_wrt (<) [m..<n]" for m n :: nat by simp
  have rep: "sorted_wrt level_order (?level rep)" for rep
  proof (rule sorted_wrt_concat)
    show "sorted_wrt (\<lambda>s s'. \<forall>x \<in> set s. \<forall>y \<in> set s'. level_order x y) (map (level_slots (sort tids) rep) [1..<nat attempts + 1])"
      unfolding sorted_wrt_map by (rule sorted_wrt_mono_rel [OF _ up]) (auto simp: level_order_def dest!: keys)
  qed (auto simp: level)
  show "sorted_wrt level_order s"
    unfolding s(1)
  proof (rule sorted_wrt_concat)
    show "sorted_wrt (\<lambda>s s'. \<forall>x \<in> set s. \<forall>y \<in> set s'. level_order x y) (map ?level [0..<nat replicates])"
      unfolding sorted_wrt_map by (rule sorted_wrt_mono_rel [OF _ up]) (auto simp: level_order_def dest!: keys)
  qed (use rep in \<open>auto simp del: upt_Suc\<close>)
  have "arm_pairs (?level rep)" for rep by (rule arm_pairs_concat) (auto simp: level_slots_pairs simp del: upt_Suc)
  then show "arm_pairs s" unfolding s(1) by (intro arm_pairs_concat) (auto simp del: upt_Suc)
qed

theorem chained_schedule_complete_witness:
  "\<exists>s. chained_schedule [''b'', ''a''] 2 2 = Inr s \<and> length s = 16 \<and> distinct s \<and> sorted_wrt level_order s \<and> arm_pairs s"
proof -
  obtain s where s: "chained_schedule [''b'', ''a''] 2 2 = Inr s" "length s = 16"
    by (simp add: chained_schedule_def variants_def upt_rec numeral_2_eq_2 enumerate_simps)
  from chained_schedule_complete [OF s(1)] s show ?thesis by auto
qed

section \<open>Accepted ledgers\<close>

lemma chain_row_Inr:
  assumes "chain_row archives attempts tids replicates r by_key = Inr by_key'"
  obtains tid trial domain bytes where "ar_task_id r = JStr tid" and "map_of by_key (tid, ar_replicate r, ar_attempt r) = None"
    and "tid \<in> set tids" and "ar_replicate r < replicates" and "chain_trial (ar_replicate r) (ar_attempt r) attempts = Inr trial"
    and "ar_trial r = trial" and "lr_archive r = JStr (archive_relpath (py_str (ar_variant r)) tid (ar_replicate r) (ar_attempt r))"
    and "chain_kg_domain tid = Inr domain" and "ar_kg_domain r = JStr domain"
    and "archives (archive_relpath (py_str (ar_variant r)) tid (ar_replicate r) (ar_attempt r)) = Some bytes"
    and "lr_store_export r = JStr (sha256_hex bytes)"
    and "by_key' = by_key @ [((tid, ar_replicate r, ar_attempt r), r)]"
  using assms
  by (cases "ar_task_id r") (auto simp: chain_row_def Let_def bindE_eq_Inr check_simps split: if_splits option.splits)

definition row_ok :: "(string \<Rightarrow> string option) \<Rightarrow> int \<Rightarrow> string list \<Rightarrow> int \<Rightarrow> chain_key \<times> ledger_row \<Rightarrow> bool" where
  \<comment> \<open>the row is where its key says, and its archive is what it sealed\<close>
  "row_ok archives attempts tids replicates kr = (case kr of ((tid, rep, attempt), r) \<Rightarrow>
     tid \<in> set tids \<and> rep < replicates \<and> chain_trial rep attempt attempts = Inr (ar_trial r) \<and>
     (\<exists>bytes. archives (archive_relpath (py_str (ar_variant r)) tid rep attempt) = Some bytes \<and>
        lr_store_export r = JStr (sha256_hex bytes)))"

lemma chain_rows_Inr:
  assumes "foldE (chain_entry archives attempts tids replicates) rows [] = Inr by_key"
  shows "(\<forall>kr \<in> set by_key. row_ok archives attempts tids replicates kr) \<and> distinct (keys by_key) \<and>
    map Completed (map snd by_key) = rows"
proof -
  have "foldE (chain_entry archives attempts tids replicates) rows acc = Inr by_key \<Longrightarrow>
      (\<forall>kr \<in> set acc. row_ok archives attempts tids replicates kr) \<Longrightarrow> distinct (keys acc) \<Longrightarrow>
      (\<forall>kr \<in> set by_key. row_ok archives attempts tids replicates kr) \<and> distinct (keys by_key) \<and>
      map Completed (map snd by_key) = map Completed (map snd acc) @ rows" for acc
  proof (induction rows arbitrary: acc)
    case (Cons e rows)
    from Cons.prems(1) obtain acc' where step: "chain_entry archives attempts tids replicates e acc = Inr acc'"
      and rest: "foldE (chain_entry archives attempts tids replicates) rows acc' = Inr by_key" by (auto simp: bindE_eq_Inr)
    from step obtain r where e: "e = Completed r" and row: "chain_row archives attempts tids replicates r acc = Inr acc'"
      by (cases e) (auto simp: chain_entry_def)
    from row obtain tid where acc': "acc' = acc @ [((tid, ar_replicate r, ar_attempt r), r)]"
      and new: "map_of acc (tid, ar_replicate r, ar_attempt r) = None"
      and ok: "row_ok archives attempts tids replicates ((tid, ar_replicate r, ar_attempt r), r)"
      by (rule chain_row_Inr) (simp add: row_ok_def)
    show ?case
      using Cons.IH [OF rest] Cons.prems(2,3) ok new unfolding acc' e by (auto simp: map_of_eq_None_iff)
  qed simp
  from this [of "[]"] assms show ?thesis by simp
qed

lemma validate_chains_Inr:
  assumes "validate_chains rows archives attempts tids replicates checkpoint = Inr by_key"
  shows "\<forall>kr \<in> set by_key. row_ok archives attempts tids replicates kr" and "distinct (keys by_key)"
    and "map Completed (map snd by_key) = rows" and "\<forall>kr \<in> set by_key. chain_link by_key kr = Inr ()"
    and "chain_keys by_key = set checkpoint"
proof -
  from assms obtain fold: "foldE (chain_entry archives attempts tids replicates) rows [] = Inr by_key"
    and link: "forE (chain_link by_key) by_key = Inr ()" and keys: "chain_keys by_key = set checkpoint"
    by (auto simp: validate_chains_def bindE_eq_Inr check_simps)
  note c = chain_rows_Inr [OF fold]
  then show "\<forall>kr \<in> set by_key. row_ok archives attempts tids replicates kr" "distinct (keys by_key)"
    "map Completed (map snd by_key) = rows" by blast+
  show "\<forall>kr \<in> set by_key. chain_link by_key kr = Inr ()" using link by (auto simp: forE_eq_Inr)
  show "chain_keys by_key = set checkpoint" by (rule keys)
qed

lemma chain_no_gap:
  assumes "\<forall>kr \<in> set by_key. chain_link by_key kr = Inr ()" and "distinct (keys by_key)"
    and "map_of by_key (tid, rep, int n + 1) \<noteq> None" and "m \<le> n"
  shows "map_of by_key (tid, rep, int m + 1) \<noteq> None"
  using assms(3,4)
proof (induction n)
  case (Suc n)
  then obtain r where "((tid, rep, int (Suc n) + 1), r) \<in> set by_key" by (auto dest: map_of_SomeD)
  then have "chain_link by_key ((tid, rep, int (Suc n) + 1), r) = Inr ()" using assms(1) by blast
  then have "map_of by_key (tid, rep, int n + 1) \<noteq> None"
    by (auto simp: chain_link_def check_simps add.commute split: option.splits)
  then show ?case using Suc by (cases "m = Suc n") auto
qed simp

text \<open>C6: a ledger is accepted only when its chains are whole. None of its rows is a failed attempt; its rows
  are exactly the attempts of the checkpoint; each is in scope and its archive still has the digest the row
  sealed; the first attempt of a chain imported nothing, each later one imported the archive of the attempt
  before it, and no attempt of a chain is missing below another.\<close>

theorem accepted_chains_linked:
  assumes "validate_chains rows archives attempts tids replicates checkpoint = Inr by_key"
  shows "map Completed (map snd by_key) = rows \<and> chain_keys by_key = set checkpoint \<and>
    (\<forall>tid rep attempt r. map_of by_key (tid, rep, attempt) = Some r \<longrightarrow>
       tid \<in> set tids \<and> rep < replicates \<and> chain_trial rep attempt attempts = Inr (ar_trial r) \<and>
       (\<exists>bytes. archives (archive_relpath (py_str (ar_variant r)) tid rep attempt) = Some bytes \<and>
          lr_store_export r = JStr (sha256_hex bytes)) \<and>
       (if attempt = 1 then ar_store_import r = JNull
        else \<exists>p bytes. map_of by_key (tid, rep, attempt - 1) = Some p \<and>
          archives (archive_relpath (py_str (ar_variant p)) tid rep (attempt - 1)) = Some bytes \<and>
          ar_store_import r = JStr (sha256_hex bytes)) \<and>
       (\<forall>earlier. 1 \<le> earlier \<and> earlier \<le> attempt \<longrightarrow> map_of by_key (tid, rep, earlier) \<noteq> None))"
proof (intro conjI allI impI)
  note v = validate_chains_Inr [OF assms]
  show "map Completed (map snd by_key) = rows" "chain_keys by_key = set checkpoint" by (rule v(3,5))+
  fix tid rep attempt r
  assume r: "map_of by_key (tid, rep, attempt) = Some r"
  have ok: "row_ok archives attempts tids replicates ((tid, rep, a), x)" if "map_of by_key (tid, rep, a) = Some x" for a x
    using v(1) map_of_SomeD [OF that] by blast
  from ok [OF r] show "tid \<in> set tids" "rep < replicates" "chain_trial rep attempt attempts = Inr (ar_trial r)"
    "\<exists>bytes. archives (archive_relpath (py_str (ar_variant r)) tid rep attempt) = Some bytes \<and> lr_store_export r = JStr (sha256_hex bytes)"
    by (simp_all add: row_ok_def)
  have link: "chain_link by_key ((tid, rep, attempt), r) = Inr ()" using v(4) map_of_SomeD [OF r] by blast
  show "if attempt = 1 then ar_store_import r = JNull
        else \<exists>p bytes. map_of by_key (tid, rep, attempt - 1) = Some p \<and>
          archives (archive_relpath (py_str (ar_variant p)) tid rep (attempt - 1)) = Some bytes \<and>
          ar_store_import r = JStr (sha256_hex bytes)"
  proof (cases "attempt = 1")
    case False
    with link obtain p where p: "map_of by_key (tid, rep, attempt - 1) = Some p" "py_eq (ar_store_import r) (lr_store_export p)"
      by (auto simp: chain_link_def check_simps split: option.splits)
    from ok [OF p(1)] obtain bytes where "archives (archive_relpath (py_str (ar_variant p)) tid rep (attempt - 1)) = Some bytes"
      "lr_store_export p = JStr (sha256_hex bytes)" by (auto simp: row_ok_def)
    then show ?thesis using False p by (cases "ar_store_import r") auto
  qed (use link in \<open>simp add: chain_link_def check_simps\<close>)
  fix earlier
  assume e: "1 \<le> earlier \<and> earlier \<le> attempt"
  then have "int (nat (attempt - 1)) + 1 = attempt" "int (nat (earlier - 1)) + 1 = earlier" "nat (earlier - 1) \<le> nat (attempt - 1)" by auto
  then show "map_of by_key (tid, rep, earlier) \<noteq> None"
    using chain_no_gap [OF v(4,2), of tid rep "nat (attempt - 1)" "nat (earlier - 1)"] r by simp
qed

definition link_row :: "int \<Rightarrow> json \<Rightarrow> string \<Rightarrow> ledger_row" where
  \<comment> \<open>an attempt at \<open>t1\<close> of the first replicate\<close>
  "link_row attempt imported bytes =
    \<lparr>ar_variant = JStr ''baseline'', ar_task_id = JStr ''t1'', ar_replicate = 0, ar_attempt = attempt, ar_trial = attempt - 1,
     ar_store_import = imported, ar_kg_domain = (case chain_kg_domain ''t1'' of Inr d \<Rightarrow> JStr d | Inl _ \<Rightarrow> JNull),
     ar_transaction = JStr ''x'', ar_run_dir = JStr ''d'', lr_store_export = JStr (sha256_hex bytes), lr_store_entries = [],
     lr_export_bytes = int (length bytes), lr_archive = JStr (archive_relpath ''baseline'' ''t1'' 0 attempt)\<rparr>"

lemma chain_kg_domain_Inr:
  assumes "list_all (\<lambda>c. ascii_alnum c \<or> c \<in> {CHR ''-'', CHR ''_'', CHR ''.''}) tid" and "length tid \<le> 119"
  shows "\<exists>domain. chain_kg_domain tid = Inr domain"
proof -
  define H where "H = sha256_hex (''metacodes-chain-kg-domain-v1'' @ [CHR 0x00] @ tid)"
  then have h: "is_hash_str H" by simp
  then have "list_all hex_char H" by (simp add: is_hash_str_def list_all_iff)
  moreover have "ascii_alnum c" if "hex_char c" for c using that by (auto simp: hex_char_def ascii_alnum_def)
  ultimately have hex: "list_all ascii_alnum (take 8 H)" by (auto simp: list_all_iff dest: in_set_takeD)
  let ?d = "tid @ ''-'' @ take 8 H"
  have l: "length ?d \<le> 128" "str_len ?d \<le> length ?d" using assms(2) h str_len_le [of ?d] by (simp_all add: is_hash_str_def)
  have "1 \<le> str_len ?d"
  proof -
    have "CHR ''-'' \<in> set ?d" "\<not> continuation_byte CHR ''-''" by (simp_all add: continuation_byte_def char_code_CHR)
    then show ?thesis unfolding str_len_def by (metis One_nat_def Suc_leI filter_empty_conv length_greater_0_conv)
  qed
  moreover have "list_all (\<lambda>c. ascii_alnum c \<or> c \<in> {CHR ''-'', CHR ''_'', CHR ''.''}) ?d"
    using assms(1) hex by (auto simp: list_all_iff)
  ultimately have "kg_domain_ok ?d" using l unfolding kg_domain_ok_def by linarith
  then show ?thesis by (simp add: chain_kg_domain_def Let_def H_def)
qed

theorem accepted_chains_linked_witness:
  "\<exists>by_key. validate_chains [Completed (link_row 1 JNull ''a''), Completed (link_row 2 (JStr (sha256_hex ''a'')) ''b'')]
     [archive_relpath ''baseline'' ''t1'' 0 1 \<mapsto> ''a'', archive_relpath ''baseline'' ''t1'' 0 2 \<mapsto> ''b''] 2 [''t1''] 1 [(''t1'', 0), (''t1'', 1)] = Inr by_key \<and>
     map_of by_key (''t1'', 0, 1) \<noteq> None \<and> ar_store_import (link_row 2 (JStr (sha256_hex ''a'')) ''b'') = JStr (sha256_hex ''a'')"
proof -
  let ?rows = "[Completed (link_row 1 JNull ''a''), Completed (link_row 2 (JStr (sha256_hex ''a'')) ''b'')]"
  let ?archives = "[archive_relpath ''baseline'' ''t1'' 0 1 \<mapsto> ''a'', archive_relpath ''baseline'' ''t1'' 0 2 \<mapsto> ''b'']"
  obtain d where d: "chain_kg_domain ''t1'' = Inr d"
    using chain_kg_domain_Inr [of "''t1''"] by (auto simp: ascii_alnum_def is_digit_def char_code_def)
  have neq: "archive_relpath ''baseline'' ''t1'' 0 1 \<noteq> archive_relpath ''baseline'' ''t1'' 0 2"
    by (simp add: archive_relpath_def int_str_def nat_str.simps digit_char_def)
  have "chain_trial 0 1 2 = Inr 0" "chain_trial 0 2 2 = Inr 1" by (simp_all add: chain_trial_def)
  then have "validate_chains ?rows ?archives 2 [''t1''] 1 [(''t1'', 0), (''t1'', 1)] =
      Inr [((''t1'', 0, 1), link_row 1 JNull ''a''), ((''t1'', 0, 2), link_row 2 (JStr (sha256_hex ''a'')) ''b'')]"
    using neq d by (simp add: validate_chains_def stop_failed_def chain_entry_def chain_row_def link_row_def raise_if_def chain_link_def
        chain_keys_def)
  from accepted_chains_linked [OF this] this show ?thesis by (auto simp: link_row_def)
qed

section \<open>The ledger's file\<close>

text \<open>A last line without its line feed is a line as well, and what is appended to it becomes a part of it.\<close>

definition torn_ledger :: "string option \<Rightarrow> ledger_entry \<Rightarrow> string option" where
  \<comment> \<open>the file with the row appended, but for its line feed\<close>
  "torn_ledger file e = Some ((case file of None \<Rightarrow> [] | Some s \<Rightarrow> s) @ butlast (ledger_line e))"

abbreviation row_text :: "ledger_entry \<Rightarrow> string" where
  "row_text e \<equiv> dumps_ascii (canon (JObj (entry_object e)))"

lemma split_ascii: "ascii l \<Longrightarrow> split_lines acc l = (if acc @ l = [] then [] else [acc @ l])"
proof (induction l arbitrary: acc)
  case Nil
  then show ?case by (simp add: split_lines.simps [of acc "[]"])
next
  case (Cons c l)
  then have "break_bytes (c # l) = 0" by (auto simp: ascii_def Let_def)
  then show ?case
    using Cons by (simp add: split_lines.simps [of acc "c # l"] ascii_def del: break_bytes.simps)
qed

lemma split_open_line:
  assumes "whole_lines t" and "ascii l" and "l \<noteq> []"
  shows "split_lines [] (t @ l) = split_lines [] t @ [l]"
proof (cases "t = []")
  case True
  then show ?thesis using split_ascii [OF assms(2), of "[]"] assms(3) by (simp add: split_lines.simps [of "[]" "[]"])
next
  case False
  then show ?thesis using assms split_ascii [OF assms(2), of "[]"] split_whole [of t "[]" l] by (simp add: whole_lines_def)
qed

lemma row_text_facts:
  assumes "written_entry variant e"
  shows "ascii (row_text e)" and "loads dict_hook (row_text e) = Inr (canon (JObj (entry_object e)))"
    and "\<exists>cs. row_text e = CHR ''{'' # cs" and "json_text (canon (JObj (entry_object e))) (row_text e)"
proof -
  note j = entry_object_json [OF assms]
  have p: "plain (canon (JObj (entry_object e)))" "utf8_json (canon (JObj (entry_object e)))"
    using j plain_canon utf8_json_canon by blast+
  show "ascii (row_text e)" by (rule ascii_dumps_ascii [OF p(1)])
  show "loads dict_hook (row_text e) = Inr (canon (JObj (entry_object e)))" by (rule ascii_line_loads [OF j(1,2)])
  show "json_text (canon (JObj (entry_object e))) (row_text e)" by (rule dumps_ascii_text [OF p])
  show "\<exists>cs. row_text e = CHR ''{'' # cs" by simp
qed

lemma glued_rows:
  assumes "written_entry variant e'" and "written_entry variant e"
  shows "loads dict_hook (row_text e' @ row_text e) = Inl JSON_Decode" and "\<not> blank (row_text e' @ s)"
proof -
  obtain cs where e: "row_text e = CHR ''{'' # cs" using row_text_facts(3) [OF assms(2)] by blast
  obtain ds where e': "row_text e' = CHR ''{'' # ds" using row_text_facts(3) [OF assms(1)] by blast
  have "p_value dict_hook (2 * length (row_text e' @ row_text e) + 2) (row_text e' @ row_text e) =
      Inr (canon (JObj (entry_object e')), row_text e)"
    by (rule parse_text(1) [OF accepts_dict_hook row_text_facts(4) [OF assms(1)]])
      (simp_all add: e number_stop_def is_digit_def char_code_def del: dumps_ascii.simps canon.simps)
  moreover have "skip_ws (CHR ''{'' # cs) = CHR ''{'' # cs" for cs by (simp add: skip_ws_def is_ws_def)
  ultimately show "loads dict_hook (row_text e' @ row_text e) = Inl JSON_Decode"
    by (simp add: loads_def e e' del: dumps_ascii.simps canon.simps p_value.simps)
  show "\<not> blank (row_text e' @ s)"
    unfolding e' by (subst blank.simps) (simp add: char_code_CHR)
qed

lemma torn_ledger_loads:
  assumes "load_chain_ledger path file variant = Inr rows" and "written_entry variant e'" and "written_entry variant e"
    and "\<forall>s. file = Some s \<longrightarrow> whole_lines s"
  shows "load_chain_ledger path (torn_ledger file e') variant = Inr (rows @ [e'])"
    and "\<exists>err. load_chain_ledger path (append_chain_ledger (torn_ledger file e') e) variant = Inl err"
proof -
  define s where "s = (case file of None \<Rightarrow> [] | Some s \<Rightarrow> s)"
  note f = row_text_facts [OF assms(2)] and g = row_text_facts [OF assms(3)] and glued = glued_rows [OF assms(2,3)]
  have s: "utf8_valid s" "whole_lines s" "foldE (ledger_line_step path variant) (enumerate 1 (split_lines [] s)) [] = Inr rows"
    using assms(1,4) by (auto simp: s_def load_chain_ledger_def whole_lines_def split_lines.simps [of "[]" "[]"] split: option.splits if_splits)
  have torn: "torn_ledger file e' = Some (s @ row_text e')" by (simp only: torn_ledger_def s_def ledger_line_def butlast_snoc)
  have app: "append_chain_ledger (torn_ledger file e') e = Some (s @ (row_text e' @ row_text e) @ [newline])"
    unfolding torn append_chain_ledger_def by (simp add: ledger_line_def)
  have "row_text e' \<noteq> []" using f(3) by (metis list.distinct(1))
  then have lines: "split_lines [] (s @ row_text e') = split_lines [] s @ [row_text e']" by (rule split_open_line [OF s(2) f(1)])
  have one: "ledger_line_step path variant (n, row_text e') acc = Inr (acc @ [e'])" for n acc
    using parse_entry_object [OF assms(2)] f(2) glued(2) [of "[]"]
    by (simp add: ledger_line_step_def Let_def del: canon.simps dumps_ascii.simps)
  show "load_chain_ledger path (torn_ledger file e') variant = Inr (rows @ [e'])"
    using s one lines ascii_utf8 [OF f(1)]
    by (simp add: torn load_chain_ledger_def utf8_valid_append enumerate_append_eq foldE_append del: canon.simps dumps_ascii.simps)
  have both: "ascii (row_text e' @ row_text e)" using f(1) g(1) by (simp only: ascii_append simp_thms)
  have two: "ledger_line_step path variant (n, row_text e' @ row_text e) acc = fail (path @ '':'' @ nat_str n) ''invalid JSON''" for n acc
    using glued by (simp add: ledger_line_step_def Let_def del: canon.simps dumps_ascii.simps)
  have "utf8_valid (s @ (row_text e' @ row_text e) @ [newline])"
    using s(1) ascii_utf8 [OF both] by (simp only: utf8_valid_append) (simp add: char_code_CHR)
  then show "\<exists>err. load_chain_ledger path (append_chain_ledger (torn_ledger file e') e) variant = Inl err"
    using s(3) two split_append_line [OF s(2) ascii_one_line [OF both]]
    by (simp add: app load_chain_ledger_def enumerate_append_eq foldE_append del: canon.simps dumps_ascii.simps)
qed

text \<open>C38: appending to a ledger of whole lines adds exactly one entry. When the file loads, and it does not exist, is
  empty or ends with a line feed, then after a row is appended it loads with that row at the end, whatever
  characters the texts of the row hold, since the line is ASCII; and it again ends with a line feed. The
  line feed is needed and \<open>_append_ledger\<close> does not look for it: when the last row of a file lacks only its
  line feed, the file loads with that row, but after a further row is appended it does not load at all.\<close>

theorem ledger_append_loads:
  assumes "load_chain_ledger path file variant = Inr rows" and "written_entry variant e" and "written_entry variant e'"
    and "\<forall>s. file = Some s \<longrightarrow> whole_lines s"
  shows "load_chain_ledger path (append_chain_ledger file e) variant = Inr (rows @ [e]) \<and>
    (\<exists>s. append_chain_ledger file e = Some s \<and> whole_lines s) \<and>
    load_chain_ledger path (torn_ledger file e') variant = Inr (rows @ [e']) \<and>
    (\<exists>err. load_chain_ledger path (append_chain_ledger (torn_ledger file e') e) variant = Inl err)"
  using append_loads [OF assms(1,2)] assms(4) append_whole_lines [of "file" e] torn_ledger_loads [OF assms(1,3,2,4)]
  by (auto simp: append_chain_ledger_def split: option.splits)

definition stopped_row :: failed_attempt where
  \<comment> \<open>its error holds a line separator\<close>
  "stopped_row = \<lparr>ar_variant = JStr ''baseline'', ar_task_id = JStr ''t1'', ar_replicate = 0, ar_attempt = 1, ar_trial = 0,
     ar_store_import = JNull, ar_kg_domain = JStr ''d'', ar_transaction = JStr ''x'', ar_run_dir = JNull,
     fa_error = JStr [CHR 0xE2, CHR 0x80, CHR 0xA8]\<rparr>"

theorem ledger_append_loads_witness:
  "load_chain_ledger ''l'' (append_chain_ledger (append_chain_ledger None (Failed stopped_row)) (Failed stopped_row)) ''baseline'' =
     Inr [Failed stopped_row, Failed stopped_row] \<and>
   (\<exists>err. load_chain_ledger ''l'' (append_chain_ledger (torn_ledger None (Failed stopped_row)) (Failed stopped_row)) ''baseline'' = Inl err)"
proof -
  have w: "written_entry ''baseline'' (Failed stopped_row)"
    by (simp add: stopped_row_def written_row_def char_code_def byte_in_def second_ok_def)
  have "load_chain_ledger ''l'' None ''baseline'' = Inr []" by (simp add: load_chain_ledger_def)
  from ledger_append_loads [OF this w w]
  have one: "load_chain_ledger ''l'' (append_chain_ledger None (Failed stopped_row)) ''baseline'' = Inr [Failed stopped_row]"
    and "\<forall>s. append_chain_ledger None (Failed stopped_row) = Some s \<longrightarrow> whole_lines s"
    and torn: "\<exists>err. load_chain_ledger ''l'' (append_chain_ledger (torn_ledger None (Failed stopped_row)) (Failed stopped_row)) ''baseline'' = Inl err"
    by auto
  from ledger_append_loads [OF one w w this(2)] torn show ?thesis by simp
qed

section \<open>Archives\<close>

text \<open>C39: an archive holds the carried store and nothing else. Its members are the directories and files below
  the carried entries, sorted by name and within the size limit, every entry is a file or a directory, and
  the bytes do not depend on the order in which the file system lists a directory.\<close>

theorem export_store_exact:
  assumes "export_store tar kg = Inr (bytes, names)" and "distinct (map fst kg)"
  shows "(\<exists>ms. bytes = tar ms \<and> sorted (map fst ms) \<and> member_bytes ms \<le> max_store_export_bytes \<and>
      set ms = (\<Union>e \<in> set (carried_entries kg). set (files_of (fst e) (snd e)))) \<and>
    names = map fst (carried_entries kg) \<and> list_all (\<lambda>e. regular (snd e)) (carried_entries kg) \<and>
    (\<forall>kg'. same_store kg kg' \<and> distinct (map fst kg') \<longrightarrow> export_store tar kg' = Inr (bytes, names))"
proof (intro conjI)
  show "\<exists>ms. bytes = tar ms \<and> sorted (map fst ms) \<and> member_bytes ms \<le> max_store_export_bytes \<and>
      set ms = (\<Union>e \<in> set (carried_entries kg). set (files_of (fst e) (snd e)))"
    by (rule export_members [OF assms(1)]) blast
  show "names = map fst (carried_entries kg)" by (rule export_members [OF assms(1)])
  show "list_all (\<lambda>e. regular (snd e)) (carried_entries kg)"
    by (rule export_members [OF assms(1)]) (simp add: list_all_iff)
  show "\<forall>kg'. same_store kg kg' \<and> distinct (map fst kg') \<longrightarrow> export_store tar kg' = Inr (bytes, names)"
    using export_same_store [OF _ assms(2)] assms(1) by metis
qed

theorem export_store_exact_witness:
  "export_store (\<lambda>ms. concat (map fst ms)) [(''store.kg'', Node_Dir [(''b'', Node_File ''2''), (''a'', Node_File ''1'')])] =
     Inr (''store.kgstore.kg/astore.kg/b'', [''store.kg'']) \<and>
   export_store (\<lambda>ms. concat (map fst ms)) [(''store.kg'', Node_Dir [(''a'', Node_File ''1''), (''b'', Node_File ''2'')])] =
     Inr (''store.kgstore.kg/astore.kg/b'', [''store.kg''])"
proof -
  have e: "export_store (\<lambda>ms. concat (map fst ms)) [(''store.kg'', Node_Dir [(''b'', Node_File ''2''), (''a'', Node_File ''1'')])] =
     Inr (''store.kgstore.kg/astore.kg/b'', [''store.kg''])"
  proof -
    have "sort_key fst [(''b'', Node_File ''2''), (''a'', Node_File ''1'')] = [(''a'', Node_File ''1''), (''b'', Node_File ''2'')]"
      "sort_key fst [(''store.kg'', None :: string option), (''store.kg/a'', Some ''1''), (''store.kg/b'', Some ''2'')] =
       [(''store.kg'', None), (''store.kg/a'', Some ''1''), (''store.kg/b'', Some ''2'')]" by code_simp+
    then show ?thesis
      by (simp add: export_store_def carried_entries_def store_entries_def child_name_def max_store_export_bytes_def)
  qed
  have same: "same_store [(''store.kg'', Node_Dir [(''b'', Node_File ''2''), (''a'', Node_File ''1'')])]
    [(''store.kg'', Node_Dir [(''a'', Node_File ''1''), (''b'', Node_File ''2'')])]" by code_simp
  have "distinct (map fst [(''store.kg'', Node_Dir [(''b'', Node_File ''2''), (''a'', Node_File ''1'')])])" by simp
  from export_store_exact [OF e this, THEN conjunct2, THEN conjunct2, THEN conjunct2, THEN spec,
      of "[(''store.kg'', Node_Dir [(''a'', Node_File ''1''), (''b'', Node_File ''2'')])]"] same e
  show ?thesis by simp
qed

section \<open>Requests that are paid for\<close>

definition timeout_ok :: "json_object \<Rightarrow> bool" where
  \<comment> \<open>what the validation of a suite asks of the timeout; a boolean is an \<open>int\<close>\<close>
  "timeout_ok task \<longleftrightarrow> (\<exists>v n. json_at task [''constraints'', ''timeout_seconds''] = Inr v \<and> as_int v = Some n \<and> 0 < n)"

lemma validate_task_timeout:
  assumes "validate_task repo (i, JObj task) st = Inr st'"
  shows "timeout_ok task"
proof -
  from assms obtain w where "validate_constraints task w = Inr ()"
    by (auto simp: validate_task_def Let_def bindE_eq_Inr)
  then show ?thesis
    by (auto simp: validate_constraints_def bindE_eq_Inr check_simps timeout_ok_def json_at_def)
qed

lemma suite_timeouts:
  assumes "validate_suite repo suite = Inr warnings" and "suite_task_map suite = Inr tasks" and "map_of tasks tid = Some task"
  shows "timeout_ok task"
proof -
  obtain vs st where t: "map_of suite ''tasks'' = Some (JArr vs)" and f: "foldE (validate_task repo) (enumerate 0 vs) ([], []) = Inr st"
    using assms(1) by (auto simp: validate_suite_def bindE_eq_Inr check_simps)
  have vs: "suite_tasks suite = vs" by (simp add: suite_tasks_def field_present [OF t])
  have "foldE (validate_task repo) (enumerate n us) s0 = Inr s1 \<Longrightarrow> JObj x \<in> set us \<Longrightarrow> timeout_ok x" for n us s0 s1 x
    by (induction us arbitrary: n s0) (auto simp: bindE_eq_Inr dest: validate_task_timeout)
  with f have all: "JObj x \<in> set vs \<Longrightarrow> timeout_ok x" for x by blast
  have upd: "set (AList.update k v xs) \<subseteq> insert (k, v) (set xs)" for k v and xs :: "(string \<times> json_object) list"
    by (induction xs) auto
  have "\<forall>p \<in> set tasks. timeout_ok (snd p)"
    using assms(2) unfolding suite_task_map_def vs
  proof (rule foldE_invariant)
    fix v acc acc'
    assume v: "v \<in> set vs" and acc: "\<forall>p \<in> set acc. timeout_ok (snd p)"
      and step: "(case v of JObj task \<Rightarrow> bindE (text_at task [''id'']) (\<lambda>tid. Inr (AList.update tid task acc))
        | _ \<Rightarrow> Inl (Type_Error ''task'')) = Inr acc'"
    from step obtain x k where "v = JObj x" "acc' = AList.update k x acc" by (auto simp: bindE_eq_Inr split: json.splits)
    then show "\<forall>p \<in> set acc'. timeout_ok (snd p)" using upd [of k x acc] acc all v by fastforce
  qed simp
  then show ?thesis using map_of_SomeD [OF assms(3)] by auto
qed

lemma domain_task:
  assumes "chain_kg_domain tid = Inr domain"
  shows "kg_domain_ok domain" and "list_all (\<lambda>c. ascii_alnum c \<or> c \<in> {CHR ''-'', CHR ''_'', CHR ''.''}) tid"
    and "str_len tid \<le> 128"
proof -
  have d: "kg_domain_ok domain" "domain = tid @ ''-'' @ take 8 (sha256_hex (''metacodes-chain-kg-domain-v1'' @ [CHR 0x00] @ tid))"
    using assms by (auto simp: chain_kg_domain_def Let_def split: if_splits)
  then show "kg_domain_ok domain" by simp
  show "list_all (\<lambda>c. ascii_alnum c \<or> c \<in> {CHR ''-'', CHR ''_'', CHR ''.''}) tid"
    using d by (simp add: kg_domain_ok_def)
  have "str_len tid \<le> str_len domain" unfolding d(2) by (simp add: str_len_def)
  then show "str_len tid \<le> 128" using d(1) unfolding kg_domain_ok_def by linarith
qed

lemma chain_caps_Inr:
  assumes "chain_caps iv = Inr (caps, cap, journal)"
  shows "finite_double (fst cap)" and "\<not> d_less_eq (fst cap) (Fin 0)" and "0 < snd cap"
    and "finite_double (fst caps)" and "cv_journal iv = Some journal"
  using assms
  by (cases caps; cases cap; auto simp: chain_caps_def validate_budget_caps_def seq_checks split: option.splits)+

lemma str_len_hash: "is_hash_str h \<Longrightarrow> str_len h = 64"
proof -
  assume h: "is_hash_str h"
  have "\<not> continuation_byte c" if "hex_char c" for c
    using that by (auto simp: hex_char_def is_digit_def continuation_byte_def)
  then have "filter (\<lambda>c. \<not> continuation_byte c) h = h" using h by (simp add: is_hash_str_def)
  then show ?thesis using h by (simp add: str_len_def is_hash_str_def)
qed

lemma scheduled_attempt:
  assumes "frozen_chain iv = Inr (c, schedule)" and "validate_suite repo (cv_suite iv) = Inr warnings"
    and "(rep, attempt, tid, variant) \<in> set schedule"
  obtains task timeout n domain revision where "map_of (cc_tasks c) tid = Some task"
    and "json_at task [''constraints'', ''timeout_seconds''] = Inr timeout" and "as_int timeout = Some n" and "0 < n"
    and "map_of (cc_domains c) tid = Some domain" and "chain_kg_domain tid = Inr domain"
    and "map_of (cc_revisions c) variant = Some revision"
proof -
  note f = frozen_chain_Inr [OF assms(1)]
  obtain all where all: "suite_task_map (cv_suite iv) = Inr all" "cc_tasks c = filter (\<lambda>kv. cv_selects iv (fst kv)) all"
    using f(1) by blast
  have "tid \<in> set (keys (cc_tasks c))" and v: "variant \<in> set variants"
    using assms(3) chained_schedule_levels(1) [OF f(6)] by (auto simp: level_slots_set simp del: upt_Suc)
  then obtain task where task: "map_of (cc_tasks c) tid = Some task"
    by (cases "map_of (cc_tasks c) tid") (auto simp: map_of_eq_None_keys)
  then have "map_of all tid = Some task" unfolding all(2) map_of_selected by (simp split: if_splits)
  from suite_timeouts [OF assms(2) all(1) this] obtain timeout n
    where timeout: "json_at task [''constraints'', ''timeout_seconds''] = Inr timeout" "as_int timeout = Some n" "0 < n"
    by (auto simp: timeout_ok_def)
  have domains: "list_all2 (\<lambda>t d. bindE (chain_kg_domain t) (\<lambda>domain. Inr (t, domain)) = Inr d) (keys (cc_tasks c)) (cc_domains c)"
    using f(5) by (simp add: mapE_eq_Inr)
  then have same: "keys (cc_domains c) = keys (cc_tasks c)" and each: "\<forall>d \<in> set (cc_domains c). chain_kg_domain (fst d) = Inr (snd d)"
    by (induction rule: list_all2_induct) (auto simp: bindE_eq_Inr)
  obtain domain where domain: "map_of (cc_domains c) tid = Some domain"
    using \<open>tid \<in> _\<close> same by (cases "map_of (cc_domains c) tid") (auto simp: map_of_eq_None_keys)
  then have "chain_kg_domain tid = Inr domain" using each map_of_SomeD by fastforce
  moreover obtain revision where "map_of (cc_revisions c) variant = Some revision"
    using v f(2) by (cases "map_of (cc_revisions c) variant") (auto simp: map_of_eq_None_keys)
  ultimately show thesis using that task timeout domain by blast
qed

lemma domain_hint:
  assumes "chain_kg_domain tid = Inr domain"
  shows "CHR '','' \<notin> set tid" and "task_hint_ok tid \<longleftrightarrow> tid \<noteq> []"
proof -
  note d = domain_task [OF assms]
  show "CHR '','' \<notin> set tid"
    using d(2) by (auto simp: list_all_iff ascii_alnum_def is_digit_def char_code_def)
  have "0x21 \<le> char_code ch \<and> char_code ch \<le> 0x7E" if "ascii_alnum ch \<or> ch \<in> {CHR ''-'', CHR ''_'', CHR ''.''}" for ch
    using that by (auto simp: ascii_alnum_def is_digit_def char_code_def)
  then have "list_all (\<lambda>c. 0x21 \<le> char_code c \<and> char_code c \<le> 0x7E) tid" using d(2) by (simp add: list_all_iff)
  then show "task_hint_ok tid \<longleftrightarrow> tid \<noteq> []" using d(3) by (simp add: task_hint_ok_def)
qed

text \<open>The request of an attempt of the schedule is built, and the checks \<open>_run_once\<close> makes before it starts a
  child refuse three things only: the empty task id, a boolean timeout, an imported archive that is not there.\<close>

definition refused_request :: "json_object \<Rightarrow> chain_slot \<Rightarrow> process \<Rightarrow> bool" where
  "refused_request task sl pr \<longleftrightarrow> cl_task sl = [] \<or>
    (\<exists>b. json_at task [''constraints'', ''timeout_seconds''] = Inr (JBool b)) \<or>
    (\<exists>p. cl_previous sl = Some p \<and> map_of (pr_archives pr) (py_str (lr_archive p)) = None)"

lemma request_checks:
  assumes "frozen_chain iv = Inr (c, schedule)" and "validate_suite repo (cv_suite iv) = Inr warnings"
    and "(rep, attempt, tid, variant) \<in> set schedule" and "chain_previous c by_key (rep, attempt, tid, variant) = Inr sl"
    and "\<forall>p. cl_previous sl = Some p \<longrightarrow> (\<exists>bytes. lr_store_export p = JStr (sha256_hex bytes))"
  shows "\<exists>rq task. chain_request c sl = Inr rq \<and> lookupE (cc_tasks c) tid = Inr task \<and>
    (run_once_checks rq pr = Inr () \<longleftrightarrow> \<not> refused_request task sl pr)"
proof -
  note f = frozen_chain_Inr [OF assms(1)]
  have sl: "cl_task sl = tid" "cl_variant sl = variant" using assms(4) by (auto simp: chain_previous_def bindE_eq_Inr)
  obtain task timeout n domain revision where task: "map_of (cc_tasks c) tid = Some task"
    and timeout: "json_at task [''constraints'', ''timeout_seconds''] = Inr timeout" "as_int timeout = Some n" "0 < n"
    and domain: "map_of (cc_domains c) tid = Some domain" "chain_kg_domain tid = Inr domain"
    and revision: "map_of (cc_revisions c) variant = Some revision"
    by (rule scheduled_attempt [OF assms(1-3)])
  note d = domain_task [OF domain(2)] and hint = domain_hint [OF domain(2)]
  obtain journal where "chain_caps iv = Inr (cc_total c, cc_cap c, journal)" using f(7) by blast
  note cap = chain_caps_Inr(1-3) [OF this]
  have store: "(case map_option (\<lambda>p. (py_str (lr_archive p), py_str (lr_store_export p))) (cl_previous sl) of None \<Rightarrow> False
      | Some a \<Rightarrow> map_of (pr_archives pr) (fst a) = None \<or> str_len (snd a) \<noteq> 64) \<longleftrightarrow>
    (\<exists>p. cl_previous sl = Some p \<and> map_of (pr_archives pr) (py_str (lr_archive p)) = None)"
  proof (cases "cl_previous sl")
    case (Some p)
    then obtain bytes where "lr_store_export p = JStr (sha256_hex bytes)" using assms(5) by blast
    then show ?thesis using Some str_len_hash [of "sha256_hex bytes"] by simp
  qed simp
  let ?rq = "\<lparr>rq_variant = variant, rq_trial = cl_trial sl, rq_scenario = tid, rq_provider = cc_provider c, rq_model = cc_model c,
      rq_revision = revision, rq_config_id = None, rq_env = None, rq_allow_invalid = False,
      rq_timeout = (if timeout = JNull then None else Some timeout), rq_max_tokens = Some (snd (cc_cap c)),
      rq_max_cost = Some (fst (cc_cap c)), rq_api_key = None, rq_hint = Some tid,
      rq_store = map_option (\<lambda>p. (py_str (lr_archive p), py_str (lr_store_export p))) (cl_previous sl), rq_domain = Some domain\<rparr>"
  have "chain_request c sl = Inr ?rq"
    using hint(1) timeout(1) by (simp add: chain_request_def scenario_selector_def sl lookupE_def task revision domain)
  moreover have "run_once_checks ?rq pr = Inr () \<longleftrightarrow> \<not> refused_request task sl pr"
    using timeout cap store d(1) hint(2) unfolding refused_request_def
    by (cases timeout) (simp_all add: run_once_checks_def seq_checks sl)
  ultimately show ?thesis using task by (auto simp: lookupE_def)
qed

end
