(* ===== verification/Chain_Failures.thy ===== *)
theory Chain_Failures
  imports Chain_Properties
begin

text \<open>
  What is left of an attempt that fails after it was paid for: a row in the ledger of its arm that no
  later run of the chains gets past.
\<close>

section \<open>Texts\<close>

lemma utf8_take_points: "utf8_valid s \<Longrightarrow> utf8_valid (take_points n s)"
proof (induction "length s" arbitrary: s n rule: less_induct)
  case less
  have step: "take_points n (c # cs @ r) = (if n = 0 then [] else c # cs @ take_points (n - 1) r)"
    if "\<not> continuation_byte c" "list_all continuation_byte cs" for c cs r
  proof -
    have "take_points m (cs @ r) = cs @ take_points m r" for m
      using that(2) by (induction cs) (auto simp: continuation_byte_def)
    then show ?thesis using that(1) by (auto simp: continuation_byte_def)
  qed
  show ?case
  proof (cases s)
    case (Cons c t)
    obtain cs r where t: "t = cs @ r" and c: "\<not> continuation_byte c" "list_all continuation_byte cs" "utf8_valid r"
      and whole: "\<And>u. utf8_valid (c # cs @ u) = utf8_valid u"
    proof -
      consider "char_code c < 128" | "byte_in 194 223 c" | "byte_in 224 239 c" | "byte_in 240 244 c"
        using less.prems Cons by (auto split: if_splits)
      then show thesis
      proof cases
        case 1
        then show thesis using less.prems Cons by (intro that [of "[]" t]) (simp_all add: continuation_byte_def)
      next
        case 2
        then have "194 \<le> char_code c" "char_code c \<le> 223" by (simp_all add: byte_in_def)
        moreover from less.prems Cons this 2 obtain d r where "t = d # r" "second_ok c d" "utf8_valid r" by (auto split: list.splits)
        ultimately show thesis using 2
          by (intro that [of "[d]" r]) (auto simp: continuation_byte_def second_ok_def byte_in_def split: if_splits)
      next
        case 3
        then have "224 \<le> char_code c" "char_code c \<le> 239" by (simp_all add: byte_in_def)
        moreover from less.prems Cons this 3 obtain d d2 r where "t = d # d2 # r" "second_ok c d" "byte_in 128 191 d2" "utf8_valid r"
          by (auto simp: byte_in_def split: list.splits)
        ultimately show thesis using 3
          by (intro that [of "[d, d2]" r]) (auto simp: continuation_byte_def second_ok_def byte_in_def split: if_splits)
      next
        case 4
        then have "240 \<le> char_code c" "char_code c \<le> 244" by (simp_all add: byte_in_def)
        moreover from less.prems Cons this 4 obtain d d2 d3 r where "t = d # d2 # d3 # r" "second_ok c d" "byte_in 128 191 d2"
          "byte_in 128 191 d3" "utf8_valid r"
          by (auto simp: byte_in_def split: list.splits)
        ultimately show thesis using 4
          by (intro that [of "[d, d2, d3]" r]) (auto simp: continuation_byte_def second_ok_def byte_in_def split: if_splits)
      qed
    qed
    have "take_points n s = (if n = 0 then [] else c # cs @ take_points (n - 1) r)" using step [OF c(1,2)] by (simp add: Cons t)
    moreover have "utf8_valid (take_points (n - 1) r)" using less.hyps [of r "n - 1"] c(3) by (simp add: Cons t)
    ultimately show ?thesis using whole by simp
  qed simp
qed

definition slot_text :: "chain_contract \<Rightarrow> chain_attempt \<Rightarrow> chain_slot \<Rightarrow> string \<Rightarrow> bool" where
  \<comment> \<open>what is written about the attempt is Unicode\<close>
  "slot_text c a sl k \<longleftrightarrow> utf8_valid (cl_variant sl) \<and> utf8_valid (cl_task sl) \<and> utf8_valid k \<and> text_or_none (imported_sha256 sl) \<and>
     0 \<le> cl_replicate sl \<and> 0 \<le> cl_attempt sl \<and> 0 \<le> cl_trial sl \<and>
     (\<exists>domain. lookupE (cc_domains c) (cl_task sl) = Inr domain \<and> utf8_valid domain) \<and>
     (\<forall>dir \<in> set (pr_after (ca_process a)). utf8_valid dir) \<and> (\<forall>e. utf8_valid (cc_text c e))"

lemma written_failed:
  assumes "slot_text c a sl k" and "lookupE (cc_domains c) (cl_task sl) = Inr domain"
    and "\<forall>d. dir = Some d \<longrightarrow> d \<in> set (pr_after (ca_process a))"
  shows "written_entry (cl_variant sl) (Failed (failed_row sl k domain dir (take_points n (cc_text c e))))"
  using assms utf8_take_points [of "cc_text c e" n]
  by (auto simp: slot_text_def failed_row_def written_row_def opt_str_def split: option.splits)

lemma written_completed:
  assumes "slot_text c a sl k" and "lookupE (cc_domains c) (cl_task sl) = Inr domain" and "dir \<in> set (pr_after (ca_process a))"
    and "export_store (cc_tar c) kg = Inr exported"
  shows "written_entry (cl_variant sl) (Completed (completed_row sl k domain dir exported))"
proof -
  obtain bytes names where "exported = (bytes, names)" by (rule prod.exhaust)
  then have "snd exported = map fst (carried_entries kg)" using assms(4) by (auto elim: export_members)
  then have "set (snd exported) \<subseteq> set store_entries" by (auto simp: carried_entries_def split: option.splits)
  then have names: "list_all text_or_none (map JStr (snd exported))"
    by (auto simp: list_all_iff store_entries_def char_code_def subset_iff)
  have "utf8_valid (cl_variant sl)" "utf8_valid (cl_task sl)" using assms(1) by (simp_all add: slot_text_def)
  then have "utf8_valid (slot_archive sl)"
    by (simp add: slot_archive_def archive_relpath_def utf8_valid_append utf8_valid_int_str char_code_def)
  then show ?thesis
    using assms(1-3) names by (auto simp: slot_text_def completed_row_def written_row_def)
qed

section \<open>The ledger of an attempt\<close>

lemma keeps_ledgers [keeps_intro]: "keeps (\<lambda>s. Q (cs_ledgers s)) (on_run m)"
  by (simp add: keeps_def on_run_def case_prod_beta)

lemma chain_start_ledgers:
  assumes "chain_start c a sl i s = (q, t)"
  shows "cs_ledgers t = cs_ledgers s" and "\<forall>dir. q = Inr dir \<longrightarrow> dir \<in> set (pr_after (ca_process a))"
proof -
  have "keeps (\<lambda>u. cs_ledgers u = cs_ledgers s) (chain_start c a sl i)"
    unfolding chain_start_def by (auto intro!: keeps_intro split: run_end.split)
  from keepsD [OF this _ assms] show "cs_ledgers t = cs_ledgers s" by simp
  have "dir \<in> set (pr_after p)" if "run_ended rq p = Inr (Run_Done dir)" for rq p dir
  proof -
    let ?new = "sort (filter (\<lambda>d. d \<notin> set (pr_before p)) (remdups (pr_after p)))"
    have "dir = hd ?new" "length ?new = 1" using that by (auto simp: run_ended_def bindE_eq_Inr Let_def split: if_splits)
    then have "dir \<in> set ?new" by (cases ?new) auto
    then show ?thesis by simp
  qed
  then show "\<forall>dir. q = Inr dir \<longrightarrow> dir \<in> set (pr_after (ca_process a))"
    using assms by (auto simp: chain_start_def op_simps split: run_end.split_asm) (metis run_end.exhaust)
qed

lemma carry_store_ledgers:
  assumes "carry_store c a sl k dir s = (q, t)" and "\<forall>n err. ca_append a True = Some (n, err) \<longrightarrow> n = 0"
  shows "cs_ledgers t = cs_ledgers s \<or> (\<exists>exported domain. export_store (cc_tar c) (ca_store a) = Inr exported \<and>
    lookupE (cc_domains c) (cl_task sl) = Inr domain \<and>
    cs_ledgers t = (cs_ledgers s)(cl_variant sl := append_chain_ledger (cs_ledgers s (cl_variant sl))
      (Completed (completed_row sl k domain dir exported))))"
  using assms
  by (cases q) (auto simp: carry_store_def seal_store_def append_row_def Let_def op_simps split: option.splits if_splits prod.splits)

lemma finish_ledgers:
  assumes "bindS (carry_store c a sl k dir) (\<lambda>_. bindS (liftS (chain_rollout a sl dir)) (commit_rollout c a sl k)) s = (q, t)"
    and "\<forall>n err. ca_append a True = Some (n, err) \<longrightarrow> n = 0"
  shows "cs_ledgers t = cs_ledgers s \<or> (\<exists>exported domain. export_store (cc_tar c) (ca_store a) = Inr exported \<and>
    lookupE (cc_domains c) (cl_task sl) = Inr domain \<and>
    cs_ledgers t = (cs_ledgers s)(cl_variant sl := append_chain_ledger (cs_ledgers s (cl_variant sl))
      (Completed (completed_row sl k domain dir exported))))"
proof -
  obtain x u where x: "carry_store c a sl k dir s = (x, u)" by (rule prod.exhaust)
  have "keeps (\<lambda>w. cs_ledgers w = cs_ledgers u) (bindS (liftS (chain_rollout a sl dir)) (commit_rollout c a sl k))"
    unfolding commit_rollout_def Let_def by (intro keeps_intro)
  then have "cs_ledgers t = cs_ledgers u"
    using assms(1) x by (cases x) (auto simp: bindS_def dest: keepsD)
  then show ?thesis using carry_store_ledgers [OF x assms(2)] by simp
qed

lemma chain_failed_ledgers:
  assumes "ca_append a False = None" and "lookupE (cc_domains c) (cl_task sl) = Inr domain"
  shows "chain_failed c a sl k dir e s = (Inl e, s\<lparr>cs_ledgers := (cs_ledgers s)(cl_variant sl :=
    append_chain_ledger (cs_ledgers s (cl_variant sl)) (Failed (failed_row sl k domain dir (take_points 1024 (cc_text c e)))))\<rparr>)"
  by (simp add: chain_failed_def assms append_row_def tryS_def modifyS_def op_run)

lemma tryS_raises: "tryS m h s = (Inl e, t) \<Longrightarrow> \<exists>e' u. m s = (Inl e', u) \<and> h e' u = (Inl e, t)"
  by (auto simp: tryS_def split: prod.splits sum.splits)

lemma chain_failed_unrecorded:
  assumes "ca_append a False = Some x" and "chain_failed c a sl k dir e s = (q, t)"
  shows "q = Inl (Validation_Error ''paid attempt'' ''failed and its failure could not be recorded'')"
proof -
  obtain n err where "x = (n, err)" by (rule prod.exhaust)
  with assms show ?thesis
    by (cases "lookupE (cc_domains c) (cl_task sl)")
      (auto simp: chain_failed_def append_row_def tryS_def modifyS_def bindS_def liftS_def raiseS_def)
qed

lemma failed_row_stops: "Failed r \<in> set rows \<Longrightarrow> \<exists>e. validate_chains rows archives attempts tids replicates checkpoint = Inl e"
proof -
  assume "Failed r \<in> set rows"
  then have "forE stop_failed rows \<noteq> Inr ()" by (fastforce simp: forE_eq_Inr stop_failed_def)
  then obtain e where "forE stop_failed rows = Inl e" by (cases "forE stop_failed rows") auto
  then show ?thesis by (simp add: validate_chains_def)
qed

lemma failed_row_sealed:
  assumes slot: "slot_text c a sl k" and domain: "lookupE (cc_domains c) (cl_task sl) = Inr domain"
    and loaded: "load_chain_ledger path (cs_ledgers u (cl_variant sl)) (cl_variant sl) = Inr (rows @ middle)"
    and lines: "\<forall>x. cs_ledgers u (cl_variant sl) = Some x \<longrightarrow> whole_lines x"
    and dir: "\<forall>d. dir = Some d \<longrightarrow> d \<in> set (pr_after (ca_process a))"
    and t: "cs_ledgers t (cl_variant sl) = append_chain_ledger (cs_ledgers u (cl_variant sl))
      (Failed (failed_row sl k domain dir (take_points 1024 (cc_text c e))))"
  shows "\<exists>complete r. load_chain_ledger path (cs_ledgers t (cl_variant sl)) (cl_variant sl) = Inr (rows @ complete @ [Failed r]) \<and>
    ar_task_id r = JStr (cl_task sl) \<and> ar_replicate r = cl_replicate sl \<and> ar_attempt r = cl_attempt sl \<and>
    ar_transaction r = JStr k \<and>
    (\<forall>archives attempts tids replicates checkpoint.
       \<exists>err. validate_chains (rows @ complete @ [Failed r]) archives attempts tids replicates checkpoint = Inl err)"
proof -
  let ?r = "failed_row sl k domain dir (take_points 1024 (cc_text c e))"
  have "case cs_ledgers u (cl_variant sl) of None \<Rightarrow> True | Some x \<Rightarrow> whole_lines x" using lines by (simp split: option.split)
  from append_loads [OF loaded written_failed [OF slot domain dir] this]
  have "load_chain_ledger path (cs_ledgers t (cl_variant sl)) (cl_variant sl) = Inr (rows @ middle @ [Failed ?r])"
    unfolding t by simp
  moreover have "\<exists>err. validate_chains (rows @ middle @ [Failed ?r]) archives attempts tids replicates checkpoint = Inl err"
    for archives attempts tids replicates checkpoint by (rule failed_row_stops [of ?r]) simp
  ultimately show ?thesis by (intro exI [of _ middle] exI [of _ ?r]) (simp add: failed_row_def)
qed

lemma failure_recorded:
  assumes "chain_paid c a sl k i s = (Inl e, t)" and "slot_text c a sl k"
    and "load_chain_ledger path (cs_ledgers s (cl_variant sl)) (cl_variant sl) = Inr rows"
    and "\<forall>x. cs_ledgers s (cl_variant sl) = Some x \<longrightarrow> whole_lines x"
    and "ca_append a False = None" and "\<forall>n err. ca_append a True = Some (n, err) \<longrightarrow> n = 0"
  shows "\<exists>complete r. load_chain_ledger path (cs_ledgers t (cl_variant sl)) (cl_variant sl) = Inr (rows @ complete @ [Failed r]) \<and>
    ar_task_id r = JStr (cl_task sl) \<and> ar_replicate r = cl_replicate sl \<and> ar_attempt r = cl_attempt sl \<and>
    ar_transaction r = JStr k \<and>
    (\<forall>archives attempts tids replicates checkpoint.
       \<exists>err. validate_chains (rows @ complete @ [Failed r]) archives attempts tids replicates checkpoint = Inl err)"
proof -
  let ?v = "cl_variant sl"
  obtain domain where domain: "lookupE (cc_domains c) (cl_task sl) = Inr domain" using assms(2) by (auto simp: slot_text_def)
  note failed = chain_failed_ledgers [OF assms(5) domain] and claim = failed_row_sealed [OF assms(2) domain]
  obtain x u where x: "chain_start c a sl i s = (x, u)" by (rule prod.exhaust)
  note start = chain_start_ledgers [OF x]
  show ?thesis
  proof (cases x)
    case (Inl e')
    then have "e' = e" "cs_ledgers t ?v = append_chain_ledger (cs_ledgers u ?v) (Failed (failed_row sl k domain None (take_points 1024 (cc_text c e))))"
      using assms(1) x by (auto simp: chain_paid_def tryS_def bindS_def failed)
    then show ?thesis using assms(3,4) start(1) by (intro claim [where u = u and middle = "[]" and dir = None]) simp_all
  next
    case (Inr dir)
    obtain y w where y: "bindS (carry_store c a sl k dir) (\<lambda>_. bindS (liftS (chain_rollout a sl dir)) (commit_rollout c a sl k)) u = (y, w)"
      by (rule prod.exhaust)
    have t: "cs_ledgers t ?v = append_chain_ledger (cs_ledgers w ?v) (Failed (failed_row sl k domain (Some dir) (take_points 1024 (cc_text c e))))"
      using assms(1) x Inr y by (cases y) (auto simp: chain_paid_def tryS_def bindS_def failed)
    have d: "dir \<in> set (pr_after (ca_process a))" using start(2) Inr by simp
    from finish_ledgers [OF y assms(6)] show ?thesis
    proof (elim disjE exE conjE)
      assume "cs_ledgers w = cs_ledgers u"
      then show ?thesis using assms(3,4) start(1) t d by (intro claim [where u = w and middle = "[]" and dir = "Some dir"]) simp_all
    next
      fix exported domain'
      assume e: "export_store (cc_tar c) (ca_store a) = Inr exported" and dom: "lookupE (cc_domains c) (cl_task sl) = Inr domain'"
        and w: "cs_ledgers w = (cs_ledgers u)(?v := append_chain_ledger (cs_ledgers u ?v) (Completed (completed_row sl k domain' dir exported)))"
      let ?row = "Completed (completed_row sl k domain' dir exported)"
      have "case cs_ledgers s ?v of None \<Rightarrow> True | Some x \<Rightarrow> whole_lines x" using assms(4) by (simp split: option.split)
      from append_loads [OF assms(3) written_completed [OF assms(2) dom d e] this]
      have "load_chain_ledger path (cs_ledgers w ?v) ?v = Inr (rows @ [?row])" using w start(1) by simp
      moreover have "\<forall>x. cs_ledgers w ?v = Some x \<longrightarrow> whole_lines x"
        using w append_whole_lines [of "cs_ledgers u ?v" ?row] by (auto split: option.splits)
      ultimately show ?thesis using t d by (intro claim [where u = w and middle = "[?row]" and dir = "Some dir"]) simp_all
    qed
  qed
qed

text \<open>C4: a paid attempt is never repeated. Suppose an attempt fails after its request was authorized,
  whatever the reason, and the ledger of its arm loaded before and is empty, absent or ends with a line
  feed, and the append of a completed row writes the whole row or, when it fails, nothing. Either the
  failure can be recorded: then the ledger ends with a failed row that names the transaction, the error
  propagates, and from then on no run of the chains is accepted, whatever the archives, the tasks and the
  checkpoints are. Or the append of the failed row fails too: then no such row is promised and the error
  is the one that says that the failure could not be recorded.\<close>

theorem failed_attempt_stops_chain:
  assumes "chain_paid c a sl k i s = (Inl e, t)" and "slot_text c a sl k"
    and "load_chain_ledger path (cs_ledgers s (cl_variant sl)) (cl_variant sl) = Inr rows"
    and "\<forall>x. cs_ledgers s (cl_variant sl) = Some x \<longrightarrow> whole_lines x"
    and "\<forall>n err. ca_append a True = Some (n, err) \<longrightarrow> n = 0"
  shows "case ca_append a False of
      Some _ \<Rightarrow> e = Validation_Error ''paid attempt'' ''failed and its failure could not be recorded''
    | None \<Rightarrow> \<exists>complete r. load_chain_ledger path (cs_ledgers t (cl_variant sl)) (cl_variant sl) = Inr (rows @ complete @ [Failed r]) \<and>
        ar_task_id r = JStr (cl_task sl) \<and> ar_replicate r = cl_replicate sl \<and> ar_attempt r = cl_attempt sl \<and>
        ar_transaction r = JStr k \<and>
        (\<forall>archives attempts tids replicates checkpoint.
           \<exists>err. validate_chains (rows @ complete @ [Failed r]) archives attempts tids replicates checkpoint = Inl err)"
proof (cases "ca_append a False")
  case (Some x)
  have "e = Validation_Error ''paid attempt'' ''failed and its failure could not be recorded''"
    using assms(1) unfolding chain_paid_def
    by (auto simp: bindS_eq_Inl [where m = "tryS _ _"] dest!: tryS_raises chain_failed_unrecorded [OF Some])
  with Some show ?thesis by simp
next
  case None
  have "\<exists>complete r. load_chain_ledger path (cs_ledgers t (cl_variant sl)) (cl_variant sl) = Inr (rows @ complete @ [Failed r]) \<and>
      ar_task_id r = JStr (cl_task sl) \<and> ar_replicate r = cl_replicate sl \<and> ar_attempt r = cl_attempt sl \<and>
      ar_transaction r = JStr k \<and>
      (\<forall>archives attempts tids replicates checkpoint.
         \<exists>err. validate_chains (rows @ complete @ [Failed r]) archives attempts tids replicates checkpoint = Inl err)"
    by (rule failure_recorded [OF assms(1-4) None assms(5)])
  with None show ?thesis by simp
qed

end
