(* ===== verification/Chain_Paid.thy ===== *)
theory Chain_Paid
  imports Chain_Properties
begin

text \<open>
  What an attempt is refused for after it was paid for: the steps of \<open>run_chained\<close> up to the durable
  authorization, and the checks \<open>_run_once\<close> makes only then.
\<close>

section \<open>Up to the authorization\<close>






section \<open>After the authorization\<close>



lemma keeps_started_call [keeps_intro]: "keeps (\<lambda>r. rn_started r = xs) (journal_call tick c)"
  by (rule keepsI) (auto elim: journal_callE)






end
