(* ===== verification/Chain_Caps.thy ===== *)
theory Chain_Caps
  imports Chain_Campaign Runner_Governed
begin

text \<open>
  Money over campaigns of chained and multi-arm runs: each run is started at most once, and what the
  journal of a chained run accounts for stays within its cumulative caps.
\<close>

lemma run_chained_governed:
  assumes s: "csound None s" and unicode: "chain_unicode iv" and c: "frozen_chain iv = Inr (c, schedule)"
    and run: "run_chained iv s = (q, t)" and moved: "ledger_now (cs_run t) \<noteq> ledger_now (cs_run s) \<or> q = Inr rows"
  shows "csound (Some (cc_authority c)) t"
proof -
  have "session_ok (rn_journal (cs_run s))" using s by (simp add: sound_def)
  then show ?thesis
    using unicode run
  proof (rule run_chained_cases)
    fix e assume "q = Inl e" "ledger_now (cs_run t) = ledger_now (cs_run s)"
    then show ?thesis using moved by simp
  next
    fix d sched j r1 s2
    assume d: "frozen_chain iv = Inr (d, sched)" and j: "init_journal (cc_authority d) = Inr j" and unicode: "chain_text d"
      and enter: "on_journal id enter (open_runner j (cs_run s)) = (Inr (), r1)"
      and fresh: "fresh_open (rn_journal (open_runner j (cs_run s)))"
      and r1: "session_ok (rn_journal r1)" "ledger_now r1 = ledger_now (cs_run s)" "rn_started r1 = rn_started (cs_run s)"
      and body: "run_chained_locked d sched (cv_admission iv) (cv_runs iv) (s\<lparr>cs_run := r1\<rparr>) = (q, s2)"
      and t: "t = s2\<lparr>cs_run := (cs_run s2)\<lparr>rn_journal := close_journal (rn_journal (cs_run s2))\<rparr>\<rparr>"
    have "jn_authority j = cc_authority c"
      using j d c by (auto simp: init_journal_def bindE_eq_Inr check_simps)
    then have "governed (Some (cc_authority c)) (snd (rn_journal r1))"
      using enter enter_authority [OF _ fresh]
      by (auto simp: on_journal_def governed_def open_runner_def split: prod.splits)
    then have "csound (Some (cc_authority c)) (s\<lparr>cs_run := r1\<rparr>)" using s r1 by (simp add: sound_def)
    from keepsD [OF keeps_chained_locked [OF unicode] this body] show ?thesis by (simp add: t close_sound)
  qed
qed

lemma chain_authority_caps:
  assumes "chain_authority iv tasks binaries revisions caps cap = Inr a"
  shows "\<exists>limit prior. usd_to_microusd (double_json (fst caps)) = Inr limit \<and>
    usd_to_microusd_ceiling (double_json (fst (cv_used iv))) = Inr prior \<and>
    prior + total_cost_microusd a \<le> limit \<and> snd (cv_used iv) + total_metered_tokens a \<le> snd caps"
  using assms unfolding chain_authority_def Let_def by (elim bindE_InrE) auto

text \<open>C1: over any sequence of chained and multi-arm invocations on one journal, with ledgers, archives and
  checkpoints changing arbitrarily in between, every provider run is started at most once and is accounted
  for in the journal by an authorized request.\<close>

theorem mixed_runs_once:
  assumes "mixed_campaign s0 s" and "session_ok (rn_journal (cs_run s0))" and "rn_started (cs_run s0) = []"
  shows "distinct (rn_started (cs_run s)) \<and> (\<forall>x. x \<in> set (rn_started (cs_run s)) \<longrightarrow> run_spent x (ledger_now (cs_run s)))"
proof -
  have "csound None s0" using assms(2,3) by (simp add: sound_def governed_def)
  then have "csound None s" by (rule mixed_campaign_sound [OF assms(1)])
  then show ?thesis by (simp add: sound_def)
qed

text \<open>C5: the cumulative caps of a chained run hold across invocations. After a run that changed the journal or
  ended, what was used before, rounded up to micro-USD, and the exposure of every transaction in the
  journal together stay within the cumulative cost cap, and so do the tokens.\<close>

theorem chained_within_caps:
  assumes "mixed_campaign s0 s" and "session_ok (rn_journal (cs_run s0))" and "rn_started (cs_run s0) = []"
    and "chain_unicode iv" and "frozen_chain iv = Inr (c, schedule)" and "run_chained iv s = (q, t)"
    and "ledger_now (cs_run t) \<noteq> ledger_now (cs_run s) \<or> q = Inr rows"
  shows "\<exists>st limit prior. disk_state (snd (rn_journal (cs_run t))) = Some st \<and>
    usd_to_microusd (double_json (fst (cc_total c))) = Inr limit \<and>
    usd_to_microusd_ceiling (double_json (fst (cc_used c))) = Inr prior \<and>
    prior + exposure_cost (js_transactions st) \<le> limit \<and>
    snd (cc_used c) + exposure_tokens (js_transactions st) \<le> snd (cc_total c)"
proof -
  have "csound None s0" using assms(2,3) by (simp add: sound_def governed_def)
  from run_chained_governed [OF mixed_campaign_sound [OF assms(1) this] assms(4-7)]
  obtain st where st: "disk_state (snd (rn_journal (cs_run t))) = Some st" "js_authority st = cc_authority c"
    and ok: "session_ok (rn_journal (cs_run t))" by (auto simp: sound_def governed_def)
  have "stored_state st" using ok disk_stored [OF _ st(1)] by (simp add: session_ok_def)
  note s = stored_stateD [OF this]
  have "exposure_cost (js_transactions st) \<le> total_cost_microusd (cc_authority c)"
    "exposure_tokens (js_transactions st) \<le> total_metered_tokens (cc_authority c)"
    using s(3) st(2) by (simp_all add: ledger_ok_def affordable_def exposure_ledger [OF s(1)] ledger_st_def)
  then show ?thesis
    using chain_authority_caps [OF frozen_chain_Inr(8) [OF assms(5)]] st(1) frozen_chain_Inr(9) [OF assms(5)] by fastforce
qed

end
