(* ===== verification/Chain_Demo.thy ===== *)
theory Chain_Demo
  imports Chain_Failures Chain_Paid Chain_Caps Runner_Properties
begin

text \<open>
  A concrete chained run: the calibration suite, one replicate and one attempt, on a fresh journal. The
  first attempt of the baseline is reserved and authorized, its child is killed, and the failure is
  written to the ledger. The witnesses of the properties of paid attempts and of the caps rest on it.
\<close>

section \<open>The invocation\<close>

definition chain_demo_attempt :: chain_attempt where
  "chain_demo_attempt = \<lparr>ca_binary = Some ''m'', ca_tick = (\<lambda>_ w. w), ca_process = demo_process\<lparr>pr_code := Inl (OS_Error ''killed'')\<rparr>,
     ca_witness = None, ca_store = [], ca_export = None, ca_append = (\<lambda>_. None), ca_import = (\<lambda>_. Inr []), ca_write = None\<rparr>"

definition chain_demo_admission :: chain_admission where
  "chain_demo_admission = \<lparr>cn_host = demo_host, cn_binaries = (\<lambda>_. Some ''m''), cn_tick = (\<lambda>w. w)\<rparr>"

definition chain_demo :: chain_invocation where
  "chain_demo = \<lparr>cv_suite = calibration_suite, cv_executable = True, cv_binaries = (\<lambda>_. Some ''m''), cv_suite_is_file = True,
     cv_selects = (\<lambda>_. True), cv_replicates = 1, cv_attempts = 1, cv_provider = ''p'', cv_model = ''m'', cv_revisions = (\<lambda>_. ''r''),
     cv_directory = ''/c'', cv_output_directories = [''/o''], cv_journal = Some ''/j'', cv_used = (Fin 0, 0),
     cv_max_cost = Some (Fin 1), cv_max_tokens = Some 1, cv_rollout_cost = Some (Fin 1), cv_rollout_tokens = Some 1,
     cv_admission = chain_demo_admission, cv_runs = (\<lambda>_. chain_demo_attempt), cv_compensated = False,
     cv_tar = (\<lambda>_. []), cv_text = (\<lambda>_. ''OSError: killed'')\<rparr>"

definition chain_demo_state :: chain_state where
  "chain_demo_state = \<lparr>cs_run = demo_runner, cs_ledgers = (\<lambda>_. None), cs_archives = (\<lambda>_. None), cs_chains = (\<lambda>_. [])\<rparr>"

definition chain_demo_slot :: chain_slot where
  "chain_demo_slot = \<lparr>cl_replicate = 0, cl_attempt = 1, cl_task = ''t1'', cl_variant = ''baseline'', cl_trial = 0, cl_previous = None\<rparr>"

section \<open>Its contract\<close>

definition chain_demo_is :: "chain_contract \<Rightarrow> bool" where
  \<comment> \<open>all of the contract but the digests\<close>
  "chain_demo_is c \<longleftrightarrow> cc_suite c = calibration_suite \<and> cc_tasks c = demo_tasks \<and>
     (\<exists>d. chain_kg_domain ''t1'' = Inr d \<and> cc_domains c = [(''t1'', d)]) \<and>
     cc_revisions c = [(''baseline'', ''r''), (''candidate'', ''r'')] \<and>
     cc_binaries c = [(''baseline'', sha256_hex ''m''), (''candidate'', sha256_hex ''m'')] \<and> cc_replicates c = 1 \<and> cc_attempts c = 1 \<and>
     cc_provider c = ''p'' \<and> cc_model c = ''m'' \<and> cc_used c = (Fin 0, 0) \<and> cc_total c = (Fin 1, 1) \<and> cc_cap c = (Fin 1, 1) \<and>
     \<not> cc_compensated c \<and> cc_text c = (\<lambda>_. ''OSError: killed'') \<and>
     auth_provider_identity (cc_authority c) = ''p:m'' \<and> total_cost_microusd (cc_authority c) = 1000000 \<and>
     total_metered_tokens (cc_authority c) = 1 \<and> is_hash_str (auth_manifest_sha256 (cc_authority c)) \<and>
     is_hash_str (auth_model_fingerprint (cc_authority c))"

lemma chain_demo_facts:
  "cv_suite chain_demo = calibration_suite" "cv_executable chain_demo" "cv_binaries chain_demo v = Some ''m''"
  "cv_suite_is_file chain_demo" "cv_selects chain_demo = (\<lambda>_. True)" "cv_replicates chain_demo = 1" "cv_attempts chain_demo = 1"
  "cv_provider chain_demo = ''p''" "cv_model chain_demo = ''m''" "cv_revisions chain_demo v = ''r''"
  "cv_directory chain_demo = ''/c''" "cv_output_directories chain_demo = [''/o'']" "cv_journal chain_demo = Some ''/j''"
  "cv_used chain_demo = (Fin 0, 0)" "cv_max_cost chain_demo = Some (Fin 1)" "cv_max_tokens chain_demo = Some 1"
  "cv_rollout_cost chain_demo = Some (Fin 1)" "cv_rollout_tokens chain_demo = Some 1"
  "cv_admission chain_demo = chain_demo_admission" "cv_runs chain_demo = (\<lambda>_. chain_demo_attempt)" "\<not> cv_compensated chain_demo"
  "cv_text chain_demo = (\<lambda>_. ''OSError: killed'')"
  by (simp_all add: chain_demo_def)

lemma chain_demo_authority:
  "\<exists>a. chain_authority chain_demo tasks binaries revisions (Fin 1, 1) (Fin 1, 1) = Inr a \<and>
     auth_provider_identity a = ''p:m'' \<and> total_cost_microusd a = 1000000 \<and> total_metered_tokens a = 1 \<and>
     is_hash_str (auth_manifest_sha256 a) \<and> is_hash_str (auth_model_fingerprint a)"
proof -
  have "json_at calibration_suite [''suite_id''] = Inr (JStr ''s'')"
    by (simp add: json_at_def calibration_suite_def demo_tasks_suite_def)
  then show ?thesis
    by (simp add: chain_authority_def chain_demo_facts demo_money raise_if_def Let_def del: double_json.simps)
qed

lemma chain_demo_contract: "\<exists>c. frozen_chain chain_demo = Inr (c, [(0, 1, ''t1'', ''baseline''), (0, 1, ''t1'', ''candidate'')]) \<and> chain_demo_is c"
proof -
  obtain d where d: "chain_kg_domain ''t1'' = Inr d"
    using chain_kg_domain_Inr [of "''t1''"] by (auto simp: ascii_alnum_def is_digit_def char_code_def)
  have caps: "chain_caps chain_demo = Inr ((Fin 1, 1), (Fin 1, 1), ''/j'')"
    by (simp add: chain_caps_def chain_demo_facts validate_budget_caps_def seq_checks finite_double_def d_less_def)
  have tasks: "selected_tasks chain_demo = Inr demo_tasks"
    by (simp add: selected_tasks_def chain_demo_facts demo_task_map raise_if_def) (simp add: demo_tasks_def)
  have keys: "keys demo_tasks = [''t1'']" by (simp add: demo_tasks_def)
  have schedule: "chained_schedule [''t1''] 1 1 = Inr [(0, 1, ''t1'', ''baseline''), (0, 1, ''t1'', ''candidate'')]"
    by (simp add: chained_schedule_def variants_def)
  have strip: "strip_text ''r'' = ''r''" by code_simp
  have outside: "require_journal_outside ''/j'' [''/c'', ''/o''] = Inr ''/j''"
    by (simp add: require_journal_outside_def raise_if_def slash_def is_prefix_def)
  have binaries: "mapE (\<lambda>v. case cv_binaries chain_demo v of None \<Rightarrow> Inl (OS_Error v) | Some s \<Rightarrow> Inr (v, sha256_hex s)) variants =
      Inr [(''baseline'', sha256_hex ''m''), (''candidate'', sha256_hex ''m'')]"
    by (simp add: variants_def chain_demo_facts)
  obtain a where a: "chain_authority chain_demo demo_tasks [(''baseline'', sha256_hex ''m''), (''candidate'', sha256_hex ''m'')]
      [(''baseline'', ''r''), (''candidate'', ''r'')] (Fin 1, 1) (Fin 1, 1) = Inr a" "auth_provider_identity a = ''p:m''"
      "total_cost_microusd a = 1000000" "total_metered_tokens a = 1" "is_hash_str (auth_manifest_sha256 a)"
      "is_hash_str (auth_model_fingerprint a)"
    using chain_demo_authority by blast
  have revisions: "map (\<lambda>v. (v, strip_text (cv_revisions chain_demo v))) variants = [(''baseline'', ''r''), (''candidate'', ''r'')]"
    by (simp add: variants_def chain_demo_facts strip)
  show ?thesis
    unfolding frozen_chain_def caps bindE_Inr case_prod_conv binaries tasks keys revisions Let_def
    using a d by (simp add: chain_demo_facts raise_if_def schedule outside chain_demo_is_def)
qed

section \<open>Admission\<close>

lemma chain_demo_admission_facts:
  "cn_host chain_demo_admission = demo_host" "cn_binaries chain_demo_admission v = Some ''m''" "cn_tick chain_demo_admission = (\<lambda>w. w)"
  by (simp_all add: chain_demo_admission_def)

lemma chain_demo_budget:
  assumes "chain_demo_is c" and "concat (map snd (rn_collected (cs_run s))) = []"
  shows "require_chain_budget c s = (Inr (), s)" and "reserve_room c s = (Inr (), s)"
proof -
  have used: "usage_of get as_cost as_tokens [] = Inr ([], 0)" for get as_cost as_tokens
    by (simp add: usage_of_def)
  have d: "to_double 0 = Fin 0" "to_double 1 = Fin 1" using float_of_small_int [of 0] float_of_small_int [of 1] by simp_all
  have rows: "all_rows (rn_collected (cs_run s)) = []" unfolding all_rows_def by (rule assms(2))
  show "require_chain_budget c s = (Inr (), s)" "reserve_room c s = (Inr (), s)"
    using assms(1)
    by (simp_all add: require_chain_budget_def reserve_room_def op_run chain_demo_is_def rows require_budget_def used
        missing_metrics_def py_sum_def raise_if_def require_rollout_reservation_def d d_less_def)
qed

lemma chain_demo_admitted:
  assumes c: "chain_demo_is c" and r: "ready (rn_journal (cs_run s)) d (initial_state a)"
    and files: "rn_files (cs_run s) = (\<lambda>_. None)" "cs_ledgers s = (\<lambda>_. None)"
  shows "admit_chains c chain_demo_admission s =
    (Inr (), s\<lparr>cs_chains := (\<lambda>_. []), cs_run := (cs_run s)\<lparr>rn_collected := [(''baseline'', []), (''candidate'', [])]\<rparr>\<rparr>)"
proof -
  let ?rows = "[(''baseline'', []), (''candidate'', [])] :: collected"
  have checkpoints: "load_chain_checkpoints c chain_demo_admission (\<lambda>_. None) = Inr ?rows"
    using c by (simp add: load_chain_checkpoints_def variants_def chain_row_contract_def lookupE_def load_checkpoint_def chain_demo_is_def)
  have chains: "load_chains c (\<lambda>_. None) archives ?rows = Inr [(''baseline'', []), (''candidate'', [])]" for archives
    by (simp add: load_chains_def load_chain_ledger_def validate_chains_def chain_keys_def raise_if_def)
  have empty: "(\<lambda>v. case (if v = ''baseline'' then Some [] else [''candidate'' \<mapsto> []] v) of None \<Rightarrow> [] | Some by_key \<Rightarrow> (by_key :: chains)) = (\<lambda>_. [])"
    by (rule ext) simp
  have orphans: "on_journal (\<lambda>w. w) (require_no_orphans []) (cs_run s) = (Inr (), cs_run s)"
    using demo_no_orphans [OF r] by (simp add: on_journal_def)
  let ?s = "s\<lparr>cs_chains := (\<lambda>_. []), cs_run := (cs_run s)\<lparr>rn_collected := ?rows\<rparr>\<rparr>"
  have budget: "require_chain_budget c ?s = (Inr (), ?s)" by (rule chain_demo_budget [OF c]) simp
  show ?thesis
    using budget unfolding admit_chains_def
    by (simp add: op_run checkpoints chains empty files on_run_def orphans chain_demo_admission_facts)
qed

section \<open>The request of the attempt\<close>

lemma chain_demo_transaction:
  assumes c: "chain_demo_is c"
  shows "\<exists>i. chain_transaction c ''baseline'' ''t1'' 0 1 JNull = Inr i \<and> small_identity i \<and>
    check_identity_authority i (cc_authority c) = Inr () \<and> run_id i = ''chained:baseline:t1:r0:a1'' \<and>
    max_cost_microusd i \<le> total_cost_microusd (cc_authority c) \<and> max_metered_tokens i \<le> total_metered_tokens (cc_authority c)"
proof -
  obtain d where d: "cc_domains c = [(''t1'', d)]" using c by (auto simp: chain_demo_is_def)
  have t: "cc_tasks c = demo_tasks" using c by (simp add: chain_demo_is_def)
  have task: "map_of demo_tasks ''t1'' = Some (snd (hd demo_tasks))" by (simp add: demo_tasks_def)
  have tid: "text_at (snd (hd demo_tasks)) [''id''] = Inr ''t1''"
    by (simp add: demo_tasks_def demo_task_def text_at_def json_at_def)
  have run: "chain_run_id ''baseline'' ''t1'' 0 1 = ''chained:baseline:t1:r0:a1''" by code_simp
  have "utf8_valid ''chained:baseline:t1:r0:a1''" "utf8_valid ''p:m''"
    by (simp_all add: char_code_def utf8_valid_ascii)
  then show ?thesis
    using c t d task tid run demo_money
    by (simp add: chain_transaction_def chain_trial_def lookupE_def chain_demo_is_def small_identity_def identity_ok_def
        identity_text_def check_identity_authority_def del: double_json.simps utf8_valid.simps)
qed

lemma chain_demo_admit:
  assumes r: "ready (rn_journal (cs_run s)) d (initial_state a)" and clock: "clock (snd (rn_journal (cs_run s))) = clock demo_world"
    and b: "json_bound d \<le> 3000" and i: "small_identity i" "check_identity_authority i a = Inr ()"
    and afford: "max_cost_microusd i \<le> total_cost_microusd a" "max_metered_tokens i \<le> total_metered_tokens a"
  obtains k u where "chain_admit chain_demo_attempt i s = (Inr k, s\<lparr>cs_run := u\<rparr>)" and "is_hash_str k"
    and "ledger_now u k = Some (i, Spending False)" and "rn_started u = rn_started (cs_run s)"
proof -
  obtain j w where jw: "rn_journal (cs_run s) = (j, w)" by (rule prod.exhaust)
  have cl: "0 \<le> clock w" "clock w < 10000000000" using demo_clock clock jw by simp_all
  obtain rc k s1 rc2 t where c: "run_call (Call_Reserve i) (j, w) = (Inr rc, s1)" "transaction_id (rc_transaction rc) = k"
    "run_call (Call_Authorize k (rc_journal_revision rc) (rc_journal_head_sha256 rc)) s1 = (Inr rc2, t)"
    and l: "disk_ledger (snd t) k = Some (i, Spending False)" "is_hash_str k"
    by (rule first_request_granted [OF r [unfolded jw] cl b i afford])
  have tick: "ca_tick chain_demo_attempt n = (\<lambda>w. w)" for n by (simp add: chain_demo_attempt_def)
  let ?u = "(cs_run s)\<lparr>rn_journal := t, rn_calls := (rn_calls (cs_run s) @ [(Call_Reserve i, Inr rc)]) @
      [(Call_Authorize k (rc_journal_revision rc) (rc_journal_head_sha256 rc), Inr rc2)]\<rparr>"
  have "chain_admit chain_demo_attempt i s = (Inr k, s\<lparr>cs_run := ?u\<rparr>)"
    unfolding chain_admit_def tick
    by (simp add: op_run journal_call_def on_run_def tryS_def jw c(1) [simplified] c(2) c(3) [simplified])
  then show thesis by (rule that) (use l in \<open>simp_all add: ledger_now_def\<close>)
qed

section \<open>The child\<close>

lemma chain_demo_started:
  assumes c: "chain_demo_is c"
  shows "chain_start c chain_demo_attempt chain_demo_slot i s =
    (Inl (OS_Error ''killed''), s\<lparr>cs_run := (cs_run s)\<lparr>rn_started := rn_started (cs_run s) @ [run_id i]\<rparr>\<rparr>)"
proof -
  obtain d where d: "cc_domains c = [(''t1'', d)]" "chain_kg_domain ''t1'' = Inr d" using c by (auto simp: chain_demo_is_def)
  have selector: "scenario_selector [''t1''] = Inr ''t1''" by code_simp
  have timeout: "json_at (snd (hd demo_tasks)) [''constraints'', ''timeout_seconds''] = Inr (JInt 60)"
    by (simp add: demo_tasks_def demo_task_def json_at_def)
  have task: "map_of demo_tasks ''t1'' = Some (snd (hd demo_tasks))" by (simp add: demo_tasks_def)
  obtain rq where rq: "chain_request c chain_demo_slot = Inr rq" and f: "rq_env rq = None" "rq_timeout rq = Some (JInt 60)"
    "rq_max_tokens rq = Some 1" "rq_max_cost rq = Some (Fin 1)" "rq_hint rq = Some ''t1''" "rq_store rq = None" "rq_domain rq = Some d"
    "rq_api_key rq = None"
    using c d(1) by (simp add: chain_request_def chain_demo_slot_def chain_demo_is_def lookupE_def selector task timeout)
  have hint: "task_hint_ok ''t1''" by code_simp
  have p: "ca_process chain_demo_attempt = demo_process\<lparr>pr_code := Inl (OS_Error ''killed'')\<rparr>" by (simp add: chain_demo_attempt_def)
  have "run_once_checks rq (ca_process chain_demo_attempt) = Inr ()"
    unfolding run_once_checks_def p f
    using hint domain_task(1) [OF d(2)] by (simp add: seq_checks finite_double_def)
  moreover obtain child where "interpreter_shim (ca_process chain_demo_attempt) (env_update (requested_env rq (ca_process chain_demo_attempt))
      (runner_env (pr_environ (ca_process chain_demo_attempt)))) = Inr child"
    unfolding p by (simp add: interpreter_shim_def demo_process_def)
  ultimately have "\<exists>x. run_child rq (ca_process chain_demo_attempt) = Inr x" by (simp add: run_child_def)
  moreover have "run_ended rq (ca_process chain_demo_attempt) = Inl (OS_Error ''killed'')" unfolding p by (simp add: run_ended_def)
  ultimately show ?thesis using rq by (auto simp: chain_start_def op_run on_run_def modifyS_def)
qed

lemma chain_demo_paid:
  assumes c: "chain_demo_is c"
  shows "\<exists>e'. chain_paid c chain_demo_attempt chain_demo_slot k i s = (Inl (OS_Error ''killed''),
    s\<lparr>cs_run := (cs_run s)\<lparr>rn_started := rn_started (cs_run s) @ [run_id i]\<rparr>,
      cs_ledgers := (cs_ledgers s)(''baseline'' := append_chain_ledger (cs_ledgers s ''baseline'') e')\<rparr>)"
proof -
  have sl: "cl_task chain_demo_slot = ''t1''" "cl_variant chain_demo_slot = ''baseline''" by (simp_all add: chain_demo_slot_def)
  obtain d where d: "lookupE (cc_domains c) (cl_task chain_demo_slot) = Inr d" using c unfolding sl by (auto simp: chain_demo_is_def lookupE_def)
  have a: "ca_append chain_demo_attempt False = None" by (simp add: chain_demo_attempt_def)
  show ?thesis
    by (auto simp: chain_paid_def tryS_def bindS_def chain_demo_started [OF c] chain_failed_ledgers [OF a d] sl)
qed

section \<open>The run\<close>

lemma chain_demo_visit:
  assumes c: "chain_demo_is c" and r: "ready (rn_journal (cs_run s)) d (initial_state (cc_authority c))"
    and clock: "clock (snd (rn_journal (cs_run s))) = clock demo_world" and b: "json_bound d \<le> 3000"
    and empty: "cs_chains s = (\<lambda>_. [])" "concat (map snd (rn_collected (cs_run s))) = []"
  obtains k i t where "visit_attempt c (\<lambda>_. chain_demo_attempt) (0, 1, ''t1'', ''baseline'') s = (Inl (OS_Error ''killed''), t)"
    and "rn_started (cs_run t) = rn_started (cs_run s) @ [run_id i]" and "ledger_now (cs_run t) k = Some (i, Spending False)"
proof -
  obtain i where i: "chain_transaction c ''baseline'' ''t1'' 0 1 JNull = Inr i" "small_identity i"
    "check_identity_authority i (cc_authority c) = Inr ()" "max_cost_microusd i \<le> total_cost_microusd (cc_authority c)"
    "max_metered_tokens i \<le> total_metered_tokens (cc_authority c)"
    using chain_demo_transaction [OF c] by blast
  let ?s = "s\<lparr>cs_run := (cs_run s)\<lparr>rn_step := Suc (rn_step (cs_run s))\<rparr>\<rparr>"
  obtain k u where ad: "chain_admit chain_demo_attempt i ?s = (Inr k, ?s\<lparr>cs_run := u\<rparr>)"
    and u: "ledger_now u k = Some (i, Spending False)" "rn_started u = rn_started (cs_run s)"
  proof (rule chain_demo_admit [of ?s d "cc_authority c" i])
    show "ready (rn_journal (cs_run ?s)) d (initial_state (cc_authority c))" "clock (snd (rn_journal (cs_run ?s))) = clock demo_world"
      using r clock by simp_all
  qed (use b i(2-5) in simp_all)
  obtain e' where paid: "chain_paid c chain_demo_attempt chain_demo_slot k i (?s\<lparr>cs_run := u\<rparr>) = (Inl (OS_Error ''killed''),
      (?s\<lparr>cs_run := u\<rparr>)\<lparr>cs_run := u\<lparr>rn_started := rn_started u @ [run_id i]\<rparr>,
        cs_ledgers := (cs_ledgers s)(''baseline'' := append_chain_ledger (cs_ledgers s ''baseline'') e')\<rparr>)"
    using chain_demo_paid [OF c, of k i "?s\<lparr>cs_run := u\<rparr>"] by auto
  have previous: "chain_previous c [] (0, 1, ''t1'', ''baseline'') = Inr chain_demo_slot"
    using c by (simp add: chain_previous_def chain_trial_def chain_demo_slot_def chain_demo_is_def)
  have sl: "cl_task chain_demo_slot = ''t1''" "cl_variant chain_demo_slot = ''baseline''" "cl_replicate chain_demo_slot = 0"
    "cl_attempt chain_demo_slot = 1" "imported_sha256 chain_demo_slot = JNull" by (simp_all add: chain_demo_slot_def imported_sha256_def)
  have binary: "lookupE (cc_binaries c) ''baseline'' = Inr (sha256_hex ''m'')" "ca_binary chain_demo_attempt = Some ''m''"
    using c by (simp_all add: chain_demo_is_def lookupE_def chain_demo_attempt_def)
  note budget = chain_demo_budget [OF c, of ?s]
  let ?t = "(?s\<lparr>cs_run := u\<rparr>)\<lparr>cs_run := u\<lparr>rn_started := rn_started u @ [run_id i]\<rparr>,
        cs_ledgers := (cs_ledgers s)(''baseline'' := append_chain_ledger (cs_ledgers s ''baseline'') e')\<rparr>"
  have "run_chain_slot c chain_demo_attempt chain_demo_slot ?s = (Inl (OS_Error ''killed''), ?t)"
  proof -
    have rows: "concat (map snd (rn_collected (cs_run ?s))) = []" using empty(2) by simp
    have sha: "require_sha256 (Some ''m'') (sha256_hex ''m'') ''baseline'' = Inr ()" by (simp add: require_sha256_def raise_if_def)
    show ?thesis
      unfolding run_chain_slot_def sl binary bindE_Inr sha i(1)
      by (simp only: bindS_def liftS_def budget [OF rows] ad paid prod.case sum.case)
  qed
  then have "visit_attempt c (\<lambda>_. chain_demo_attempt) (0, 1, ''t1'', ''baseline'') s = (Inl (OS_Error ''killed''), ?t)"
    by (simp add: visit_attempt_def op_run empty(1) on_run_def previous)
  then show thesis by (rule that [of ?t i k]) (use u in \<open>simp_all add: ledger_now_def\<close>)
qed

theorem chain_demo_run:
  "\<exists>t k i x. run_chained chain_demo chain_demo_state = (Inl (OS_Error ''killed''), t) \<and> rn_started (cs_run t) = [x] \<and>
     ledger_now (cs_run t) k = Some (i, Spending False)"
proof -
  let ?rest = "[(0, 1, ''t1'', ''candidate'')]"
  obtain c where c: "frozen_chain chain_demo = Inr (c, (0, 1, ''t1'', ''baseline'') # ?rest)" "chain_demo_is c"
    using chain_demo_contract by blast
  let ?a = "cc_authority c"
  have small: "small_authority ?a"
    using c(2) by (simp add: chain_demo_is_def small_authority_def authority_ok_def max_user_authority_microusd_def
        max_user_authority_usd_def micro_usd_per_usd_def char_code_def utf8_valid_ascii del: utf8_valid.simps)
  then obtain j where j: "init_journal ?a = Inr j" "jn_authority j = ?a"
    by (auto simp: init_journal_def bindE_eq_Inr check_simps small_authority_def)
  let ?o = "open_runner j demo_runner"
  have o: "rn_journal ?o = (j, demo_world)" by (simp add: open_runner_def demo_runner_def)
  obtain s d where s: "enter (j, demo_world) = (Inr (), s)" and r: "ready s d (initial_state ?a)" and cl: "clock (snd s) = clock demo_world"
    and b: "json_bound d \<le> 3000"
    using small_opened [OF demo_world_ok, of j] small j(2) by auto
  let ?s1 = "chain_demo_state\<lparr>cs_run := ?o\<lparr>rn_journal := s\<rparr>\<rparr>"
  have opened: "on_run (modifyS (open_runner j)) chain_demo_state = (Inr (), chain_demo_state\<lparr>cs_run := ?o\<rparr>)"
    "on_run (on_journal id enter) (chain_demo_state\<lparr>cs_run := ?o\<rparr>) = (Inr (), ?s1)"
    by (simp_all add: on_run_def modifyS_def chain_demo_state_def on_journal_def o s)
  have files: "rn_files (cs_run ?s1) = (\<lambda>_. None)" "cs_ledgers ?s1 = (\<lambda>_. None)" "rn_started (cs_run ?s1) = []"
    by (simp_all add: chain_demo_state_def open_runner_def demo_runner_def)
  let ?s2 = "?s1\<lparr>cs_chains := (\<lambda>_. []), cs_run := (cs_run ?s1)\<lparr>rn_collected := [(''baseline'', []), (''candidate'', [])]\<rparr>\<rparr>"
  have ad: "admit_chains c chain_demo_admission ?s1 = (Inr (), ?s2)"
    by (rule chain_demo_admitted [OF c(2)]) (use r files in simp_all)
  obtain k i t where t: "visit_attempt c (\<lambda>_. chain_demo_attempt) (0, 1, ''t1'', ''baseline'') ?s2 = (Inl (OS_Error ''killed''), t)"
    "rn_started (cs_run t) = rn_started (cs_run ?s2) @ [run_id i]" "ledger_now (cs_run t) k = Some (i, Spending False)"
    by (rule chain_demo_visit [OF c(2), of ?s2 d]) (use r cl b in simp_all)
  have "run_chained_locked c ((0, 1, ''t1'', ''baseline'') # ?rest) chain_demo_admission (\<lambda>_. chain_demo_attempt) ?s1 =
      (Inl (OS_Error ''killed''), t)"
    unfolding run_chained_locked_def by (simp only: op_run ad t(1) forS_def foldS.simps)
  then have "run_chained chain_demo chain_demo_state =
      (Inl (OS_Error ''killed''), t\<lparr>cs_run := (cs_run t)\<lparr>rn_journal := close_journal (rn_journal (cs_run t))\<rparr>\<rparr>)"
    unfolding run_chained_def using c(1) j(1) opened by (simp add: op_run with_chain_journal_def chain_demo_facts)
  moreover have "snd (close_journal u) = snd u" for u by (cases u) (simp add: close_journal_def)
  ultimately show ?thesis using t(2,3) files(3) by (auto simp: ledger_now_def)
qed

lemma chain_demo_unicode: "chain_unicode chain_demo"
  by (simp add: chain_unicode_def chain_demo_facts calibration_suite_def demo_tasks_suite_def demo_task_def char_code_def utf8_valid_ascii)

lemma chain_demo_start: "session_ok (rn_journal (cs_run chain_demo_state))" "rn_started (cs_run chain_demo_state) = []"
  using demo_runner_start by (simp_all add: chain_demo_state_def)

section \<open>Witnesses\<close>

theorem mixed_runs_once_witness:
  "\<exists>s x. mixed_campaign chain_demo_state s \<and> rn_started (cs_run s) = [x] \<and> run_spent x (ledger_now (cs_run s))"
proof -
  obtain t x where t: "run_chained chain_demo chain_demo_state = (Inl (OS_Error ''killed''), t)" "rn_started (cs_run t) = [x]"
    using chain_demo_run by blast
  have "mixed_campaign chain_demo_state t" by (rule mixed_chained [OF mixed_start chain_demo_unicode t(1)])
  from mixed_runs_once [OF this chain_demo_start] this t(2) show ?thesis by (intro exI [of _ t] exI [of _ x]) simp
qed

theorem chained_within_caps_witness:
  "\<exists>t st. snd (run_chained chain_demo chain_demo_state) = t \<and> ledger_now (cs_run t) \<noteq> Map.empty \<and>
     disk_state (snd (rn_journal (cs_run t))) = Some st \<and> exposure_cost (js_transactions st) \<le> 1000000 \<and>
     exposure_tokens (js_transactions st) \<le> 1"
proof -
  obtain t k i where t: "run_chained chain_demo chain_demo_state = (Inl (OS_Error ''killed''), t)"
    "ledger_now (cs_run t) k = Some (i, Spending False)" using chain_demo_run by blast
  obtain c where c: "frozen_chain chain_demo = Inr (c, [(0, 1, ''t1'', ''baseline''), (0, 1, ''t1'', ''candidate'')])" "chain_demo_is c"
    using chain_demo_contract by blast
  have "ledger_now (cs_run chain_demo_state) = Map.empty"
    by (simp add: chain_demo_state_def ledger_now_def disk_ledger_def demo_runner_def demo_world_def disk_state_def)
  then have "ledger_now (cs_run t) \<noteq> ledger_now (cs_run chain_demo_state)" "ledger_now (cs_run t) \<noteq> Map.empty" using t(2) by auto
  moreover have "cc_total c = (Fin 1, 1)" "cc_used c = (Fin 0, 0)" using c(2) by (simp_all only: chain_demo_is_def)
  ultimately show ?thesis
    using chained_within_caps [OF mixed_start chain_demo_start chain_demo_unicode c(1) t(1)] t(1) demo_money
    by (auto simp del: double_json.simps)
qed




theorem failed_attempt_stops_chain_witness:
  "\<exists>c t complete r. chain_paid c chain_demo_attempt chain_demo_slot ''k'' demo_identity chain_demo_state = (Inl (OS_Error ''killed''), t) \<and>
     load_chain_ledger ''l'' (cs_ledgers t ''baseline'') ''baseline'' = Inr (complete @ [Failed r]) \<and> ar_task_id r = JStr ''t1'' \<and>
     ar_transaction r = JStr ''k'' \<and> (\<exists>err. validate_chains (complete @ [Failed r]) (\<lambda>_. None) 1 [''t1''] 1 [] = Inl err)"
proof -
  obtain c where c: "chain_demo_is c" using chain_demo_contract by blast
  obtain t where t: "chain_paid c chain_demo_attempt chain_demo_slot ''k'' demo_identity chain_demo_state = (Inl (OS_Error ''killed''), t)"
    using chain_demo_paid [OF c] by blast
  have k: "slot_text c chain_demo_attempt chain_demo_slot ''k''"
  proof -
    obtain d where d: "cc_domains c = [(''t1'', d)]" "chain_kg_domain ''t1'' = Inr d" using c by (auto simp: chain_demo_is_def)
    have "utf8_valid d"
      using domain_task(1) [OF d(2)]
      by (intro utf8_valid_ascii) (auto simp: kg_domain_ok_def list_all_iff ascii_alnum_def is_digit_def char_code_def)
    moreover have "cc_text c = (\<lambda>_. ''OSError: killed'')" using c by (simp only: chain_demo_is_def)
    ultimately show ?thesis
      using d(1) by (simp add: slot_text_def chain_demo_slot_def chain_demo_attempt_def demo_process_def imported_sha256_def lookupE_def
          utf8_valid_ascii char_code_def)
  qed
  have "load_chain_ledger ''l'' (cs_ledgers chain_demo_state (cl_variant chain_demo_slot)) (cl_variant chain_demo_slot) = Inr []"
    by (simp add: chain_demo_state_def load_chain_ledger_def)
  from failed_attempt_stops_chain [OF t k this] obtain complete r where
    "load_chain_ledger ''l'' (cs_ledgers t ''baseline'') ''baseline'' = Inr (complete @ [Failed r])" "ar_task_id r = JStr ''t1''"
    "ar_transaction r = JStr ''k''"
    "\<exists>err. validate_chains (complete @ [Failed r]) (\<lambda>_. None) 1 [''t1''] 1 [] = Inl err"
    by (auto simp: chain_demo_state_def chain_demo_attempt_def chain_demo_slot_def)
  with t show ?thesis by blast
qed

end
