(* ===== verification/Spec2Isabelle.thy ===== *)
theory Spec2Isabelle
  imports Budget_Properties Rollout_Properties Artifact_Suite Experiment_Plan_Properties Runner_Properties
    Attribution_Properties Release_Ledger Chain_Demo
begin

text \<open>
  A verification development for metacodes, the evaluation control plane in
  \<open>src/scripts/eval\<close> and the release tooling in \<open>src/scripts\<close>. Paths below are relative to \<open>src/\<close>.

  The budget journal (\<open>scripts/eval/memory_budget_journal.py\<close>) is the part that lets a paid
  request leave the machine: it reserves money for a run, authorizes the one request the run may
  make, commits what was spent or releases the reservation, and keeps all of it in one
  hash-chained JSON document that is rewritten by a temporary file and a rename under an
  exclusive lock.

  The runners spend that money. \<open>run_multi_arm\<close> (\<open>scripts/eval/paired_runner.py\<close>) visits the slots of
  a counterbalanced schedule, \<open>run_chained\<close> (\<open>scripts/eval/chained_runner.py\<close>) the attempts of chains
  that carry their store from one attempt to the next. Both resume from checkpoint files, bind every
  row of them to a receipt of the journal, refuse to go on while an authorized request has no
  rollout, and start a child process only for a request the journal has authorized.

  Theories, from the bottom:

  \<^item> \<open>Py_Prelude\<close>, \<open>Py_State\<close>: Python exceptions as \<open>py_error + 'a\<close>, stateful code as functions
    from a state to a result and a state, strings as their UTF-8 bytes, association lists for
    dicts (their insertion order is kept).
  \<^item> \<open>Json\<close>, \<open>Json_Text\<close>, \<open>Utf8\<close>, \<open>Sha256\<close>: the parts of \<open>json\<close>, \<open>bytes.decode\<close> and \<open>hashlib\<close> the
    code relies on, as executable functions; \<open>stable_json\<close> of \<open>model.py\<close>; that printing and
    parsing are inverse up to key order, and that the parser's fuel (two for each character) is
    enough for every input. \<open>Json_Floats\<close>: the same for documents with floats, as \<open>repr\<close> writes them.
  \<^item> \<open>Codec\<close>, \<open>Hash_Chain\<close>: the interface of a text format and of a hash-chained log; the journal
    file and the journal's events interpret them.
  \<^item> \<open>Budget_Money\<close>: \<open>usd_to_microusd\<close> and \<open>usd_to_microusd_ceiling\<close> with decimal's default context.
  \<^item> \<open>Budget_Records\<close>: \<open>BudgetAuthority\<close>, \<open>BudgetTransaction\<close> and the validators of their records.
  \<^item> \<open>Budget_Replay\<close>: \<open>_replay_document\<close>, one definition for each branch of the loop body, the
    receipts and the checkpoint readers.
  \<^item> \<open>Budget_Ledger\<close>: what the journal promises, without bytes: a map from transaction to identity
    and phase, and the steps of it.
  \<^item> \<open>Budget_Refinement\<close>, \<open>Budget_Canon\<close>, \<open>Budget_Append\<close>: a document that replays is a run of the
    ledger; replay ignores key order; replaying an appended document is one incremental step.
  \<^item> \<open>Budget_Journal\<close>: the class \<open>BudgetJournal\<close> over a machine (\<open>world\<close>) that has the directory, the
    lock, the journal and the temporary file, the sizes \<open>os.write\<close> will take, the clock, and the
    set of calls that fail. A failing call raises at the point the source would. The machine also
    has what a power loss can leave: a file's bytes count as written to the disk from the \<open>fsync\<close> of
    the file on, and until the \<open>fsync\<close> of the directory the disk may have the entry of any earlier
    rename.
  \<^item> \<open>Budget_Durability\<close>, \<open>Budget_Session\<close>, \<open>Budget_Progress\<close>: what each call leaves in the file
    and in memory; sequences of calls, faults, reopenings; when calls succeed. \<open>Budget_Power_Loss\<close>:
    what each call leaves for a power loss.
  \<^item> \<open>Budget_Demo\<close>, \<open>Budget_Properties\<close>: a concrete session, and the properties.

  The other parts decide whether records of an evaluation may be used. Their code is Python that
  reads JSON and raises at the first thing that is wrong; each validator is one definition, and
  each part of a long one a definition named after what it checks, in the order of the code, so
  that the error raised is the one of the source.

  \<^item> \<open>Py_Float\<close>, \<open>Checks\<close>: doubles as the decimals their texts give (\<open>float\<close> of a value, exact
    comparison, sum and product where the code compares amounts), \<open>isinstance\<close>, fields of an
    object, sequences of checks.
  \<^item> \<open>Artifact_Paths\<close>, \<open>Artifact_Rollout\<close>, \<open>Artifact_Suite\<close>: \<open>model.py\<close>: canonical relative
    paths, success checks, \<open>validate_rollout\<close> with the treatment activation receipt, and
    \<open>validate_suite\<close>; \<open>Rollout_File\<close>: the text of \<open>write_rollouts\<close> and \<open>parse_rollouts\<close>;
    \<open>Rollout_Canon\<close>: sorting the keys of an accepted record leaves it accepted.
    \<open>Artifact_Properties\<close> and \<open>Rollout_Properties\<close>: what an accepted rollout guarantees (its
    judgement follows from its statuses, events of a receipt are in order, a baseline shows no
    treatment, the metrics it lists are not negative and all are finite), that accepted paths stay below the directory
    they are joined to, that a rollout file reads back, and the strings for which it does not.
  \<^item> \<open>Experiment_Schedule\<close>, \<open>Experiment_Contract\<close>: \<open>experiment.py\<close>: the counterbalanced schedule
    and \<open>validate_experiment\<close>. \<open>Experiment_Properties\<close>, \<open>Experiment_Demo\<close>: the budget covers the
    schedule, grading is blind, and the recursion into the source manifest. \<open>Experiment_Plan\<close>,
    \<open>Experiment_Plan_Properties\<close>: the promotion receipt, configuration ids, the environment of an
    arm and the plan of a dry run; both stages together stay within the authority.
  \<^item> \<open>Attribution_Protocol\<close>, \<open>Attribution_Properties\<close>: \<open>attribution_protocol.py\<close>: the frozen two by
    two design, its stages and pinned files, and the Williams schedule of its cases.
  \<^item> \<open>Release_Versions\<close>, \<open>Release_Ledger\<close>: \<open>release_common.py\<close>, \<open>release_cut.py\<close> and
    \<open>agentcore_contract.py\<close>: versions, commit levels, changelogs, and the append-only ledger of
    AgentCore releases with its file.

  \<^item> \<open>Py_Values\<close>: \<open>str\<close>, \<open>int\<close>, \<open>float\<close>, \<open>sum\<close> and the shortest decimal of a double.
    \<open>Runner_Fingerprints\<close>: the fingerprints of \<open>e2e_adapter.py\<close> over a record \<open>host\<close> of what is read
    from files, git and the platform. \<open>Release_Contract\<close>: \<open>validate_release_contract\<close> of \<open>analysis.py\<close>.
    \<open>Promotion\<close>: \<open>promotion.py\<close>, the evidence of a calibration read again and its receipt derived.
  \<^item> \<open>Runner_Budget\<close>, \<open>Runner_Checkpoint\<close>: \<open>paired_runner.py\<close>: usage against caps, the authority and
    the transaction identity; the rows of a checkpoint, their receipts and marks, and
    \<open>attach_treatment_activation\<close> and \<open>reverify_treatment_activation\<close> of \<open>treatment_activation.py\<close>.
  \<^item> \<open>Runner_Process\<close>, \<open>Runner_Process_Properties\<close>: \<open>_run_once\<close>, the environment of a child, and
    that a baseline's child is isolated from the treatment and from injection by the host.
  \<^item> \<open>Runner_Loop\<close>, \<open>Runner_Entry\<close>: \<open>run_multi_arm\<close> as functions over a \<open>runner\<close>: the journal with
    its machine, the checkpoint files, what was collected. What an invocation meets is in its
    arguments: a \<open>machine\<close> (binaries), a \<open>process\<close>, an \<open>attempt\<close> for each slot (failing writes, the
    fault hook, the imported evidence, the attestation), an \<open>admission\<close>. The fields \<open>rn_step\<close>,
    \<open>rn_calls\<close> and \<open>rn_started\<close> are no state of the program: they number the attempts and record what
    was asked of the journal and which runs were started.
  \<^item> \<open>Runner_Campaign\<close>, \<open>Runner_Stranded\<close>, \<open>Runner_Governed\<close>, \<open>Runner_Demo\<close>, \<open>Runner_Properties\<close>:
    any number of invocations on one journal, with checkpoints changing in between: an unsettled
    request stops every later invocation, and the journal stays within the caps of the stage and of
    the aggregate. \<open>Runner_Demo\<close> runs a concrete invocation.
  \<^item> \<open>Json_Ascii\<close>: \<open>json.dumps\<close> with \<open>ensure_ascii\<close>. \<open>Chain_Ledger\<close>: the schedule, the ledger of an arm
    and \<open>validate_chains\<close>; \<open>Chain_Store\<close>: \<open>export_store\<close>; \<open>Chain_Run\<close>, \<open>Chain_Entry\<close>: \<open>run_chained\<close> over
    a \<open>chain_state\<close>, which adds ledgers, archives and chains to a \<open>runner\<close>.
  \<^item> \<open>Chain_Properties\<close>, \<open>Chain_Failures\<close>: accepted chains are whole, an appended row reads back, an
    archive is what the store holds, and a paid attempt that fails stops its chain.
    \<open>Chain_Paid\<close>: what is refused only after it was paid for. \<open>Chain_Campaign\<close>, \<open>Chain_Caps\<close>: sequences of chained
    and multi-arm invocations on one journal: every run is started at most once, and the cumulative
    caps hold. \<open>Chain_Demo\<close> runs a concrete chained invocation.

  Bounds and fuel: the journal has none besides those of the code (8 MiB journals, 28-digit
  decimals), and its read loop is a function with a measure. \<open>validate_experiment\<close> takes the depth
  of the recursion it may use, as the interpreter bounds it; \<open>accepted_within_two_levels\<close> shows
  that two levels are enough for every manifest that is accepted at any depth, and
  \<open>self_reference_recurses\<close> gives the manifests for which no depth is enough; an invocation of a
  runner carries the depth it has (\<open>iv_depth\<close>). The walk over a store ends by the number of its nodes.
  From Python 3.12 on \<open>sum\<close> over floats compensates rounding errors; definitions that sum doubles
  take a flag for it, and the properties hold for both.

  Strings are their UTF-8 bytes. Where the code asks about characters rather than bytes, the model
  says what it covers: digits of regular expressions and of \<open>int\<close> are the ASCII ones, \<open>repr\<close> keeps
  characters beyond ASCII, and the strings of a ledger that is written are ASCII.

  Not modelled: \<open>microusd_to_usd\<close> (a division of doubles), close-on-exec and no-follow flags beyond
  their effect on a symbolic link, texts of exceptions where they interpolate values; reading,
  resolving and probing files outside the journal (their contents, whether they exist and what a
  binary reports are a record or a function the validators take); the temporary file and rename of
  \<open>write_rollouts\<close>; printing, command lines and git. Arguments of the model, because their code is
  not translated: \<open>import_run\<close> of \<open>e2e_adapter.py\<close>, which reads transcripts into rollouts;
  \<open>attest_treatment_activation\<close>; the child process itself; \<open>tarfile\<close>, \<open>fnmatch\<close> and the texts of
  exceptions in \<open>chained_runner.py\<close>. \<open>run_paired\<close>, the launch gate, the memory runtime, rule control,
  the plugin evaluation and the statistical analysis are not modelled.
\<close>

end
